(* ===== verification/EFDI_Prelude.thy ===== *)
theory EFDI_Prelude
  imports Complex_Main "HOL-Library.Word" "HOL-Library.Monad_Syntax" "HOL-Library.AList"
begin

text \<open>
  Shared vocabulary of the development: Python byte strings and the reads the
  sources make of them, the \<open>struct\<close> formats in use, Python dictionaries as
  insertion-ordered association lists, the values a decoder stores in them, the
  numeric formats of \<open>str.format\<close>, and the control flow of the
  \<open>for frn, present in enumerate(fspec)\<close> loops.

  A read that Python could refuse (an index out of range, \<open>struct.unpack\<close> on a
  py_slice of the wrong length) has an \<open>option\<close> result, and \<open>None\<close> is the exception.
  Python integers are \<open>int\<close>; Python floats are \<open>real\<close>: the arithmetic is the exact
  arithmetic of the source expression, and \<open>round\<close> is decimal rounding, half to
  even.
\<close>

unbundle bit_operations_syntax

named_theorems byte_simps \<open>reads of byte strings that are in range\<close>
named_theorems item_ok \<open>items that keep the contract of a decoding step\<close>
named_theorems flow_simps \<open>how far a decoding step may move the cursor\<close>

subsection \<open>Bytes\<close>

type_synonym byte = "8 word"
type_synonym bytes = "byte list"

text \<open>\<open>data[i]\<close> for a non-negative index.\<close>

definition byte_at :: "bytes \<Rightarrow> nat \<Rightarrow> int option" where
  "byte_at data i = (if i < length data then Some (uint (data ! i)) else None)"

text \<open>\<open>data[a:b]\<close> for non-negative bounds: never raises, clips at the end.\<close>

definition py_slice :: "'a list \<Rightarrow> nat \<Rightarrow> nat \<Rightarrow> 'a list" where
  "py_slice xs a b = take (b - a) (drop a xs)"

text \<open>\<open>int.from_bytes(raw, "big")\<close>.\<close>

definition from_bytes_big :: "bytes \<Rightarrow> int" where
  "from_bytes_big raw = foldl (\<lambda>acc b. acc * 256 + uint b) 0 raw"

text \<open>The two's complement reading of an unsigned value of \<open>w\<close> bits.\<close>

definition sign_extend :: "nat \<Rightarrow> int \<Rightarrow> int" where
  "sign_extend w r = (if r \<ge> 2 ^ (w - 1) then r - 2 ^ w else r)"

text \<open>\<open>struct.unpack(">H", raw)[0]\<close> and its signed and one-byte relatives.\<close>

definition unpack_H :: "bytes \<Rightarrow> int option" where
  "unpack_H raw = (if length raw = 2 then Some (from_bytes_big raw) else None)"

definition unpack_h :: "bytes \<Rightarrow> int option" where
  "unpack_h raw = (if length raw = 2 then Some (sign_extend 16 (from_bytes_big raw)) else None)"

definition unpack_b :: "int \<Rightarrow> int" where
  "unpack_b v = sign_extend 8 v"

text \<open>\<open>struct.pack(">H", n)\<close>: \<open>None\<close> is \<open>struct.error\<close>.\<close>

definition pack_H :: "nat \<Rightarrow> bytes option" where
  "pack_H n = (if n < 65536 then Some [of_nat (n div 256), of_nat (n mod 256)] else None)"

text \<open>\<open>bool(x & m)\<close>.\<close>

definition bits :: "int \<Rightarrow> int \<Rightarrow> bool" where
  "bits x m \<longleftrightarrow> x AND m \<noteq> 0"

text \<open>\<open>(x >> n) & m\<close>.\<close>

definition bitfield :: "int \<Rightarrow> nat \<Rightarrow> int \<Rightarrow> int" where
  "bitfield x n m = drop_bit n x AND m"

subsection \<open>Lemmas on reads\<close>

lemma byte_at_in_range [byte_simps]:
  "i < length data \<Longrightarrow> byte_at data i = Some (uint (data ! i))"
  by (simp add: byte_at_def)

lemma byte_at_SomeD: "byte_at data i = Some v \<Longrightarrow> i < length data \<and> v = uint (data ! i)"
  by (simp add: byte_at_def split: if_splits)

lemma byte_range: "0 \<le> uint (b :: byte)" "uint (b :: byte) < 256"
  using uint_bounded [of b] by auto

lemma byte_at_range: "byte_at data i = Some v \<Longrightarrow> 0 \<le> v \<and> v < 256"
  using byte_range by (auto dest: byte_at_SomeD)

lemma byte_bind [byte_simps]:
  "i < length data \<Longrightarrow> byte_at data i \<bind> f = f (uint (data ! i))"
  by (simp add: byte_at_def)

lemma length_py_slice [byte_simps]: "b \<le> length xs \<Longrightarrow> length (py_slice xs a b) = b - a"
  by (simp add: py_slice_def)

lemma length_py_slice_gen: "length (py_slice xs a b) = min (b - a) (length xs - a)"
  by (simp add: py_slice_def)

lemma py_slice_append [byte_simps]:
  "a \<le> b \<Longrightarrow> b \<le> c \<Longrightarrow> py_slice xs a b @ py_slice xs b c = py_slice xs a c"
proof -
  assume "a \<le> b" "b \<le> c"
  then obtain m n where "b = a + m" "c = a + m + n"
    by (metis add.assoc le_iff_add)
  then show ?thesis by (simp add: py_slice_def take_add ac_simps)
qed

lemma py_slice_full [simp]: "py_slice xs 0 (length xs) = xs"
  by (simp add: py_slice_def)

lemma py_slice_self [simp]: "py_slice xs a a = []"
  by (simp add: py_slice_def)

lemma nth_py_slice: "i < b - a \<Longrightarrow> b \<le> length xs \<Longrightarrow> py_slice xs a b ! i = xs ! (a + i)"
  by (simp add: py_slice_def)

lemma py_slice_take: "b \<le> n \<Longrightarrow> py_slice (take n xs) a b = py_slice xs a b"
  by (simp add: py_slice_def drop_take)

lemma py_slice2:
  "b \<le> length xs \<Longrightarrow> b - a = 2 \<Longrightarrow> py_slice xs a b = [xs ! a, xs ! (a + 1)]"
  by (simp add: py_slice_def numeral_2_eq_2 Cons_nth_drop_Suc [symmetric])

lemma from_bytes_big_Nil [simp]: "from_bytes_big [] = 0"
  by (simp add: from_bytes_big_def)

lemma from_bytes_big_snoc: "from_bytes_big (xs @ [b]) = from_bytes_big xs * 256 + uint b"
  by (simp add: from_bytes_big_def)

lemma from_bytes_big_bounds: "0 \<le> from_bytes_big xs \<and> from_bytes_big xs < 256 ^ length xs"
proof (induction xs rule: rev_induct)
  case (snoc b xs)
  then have "from_bytes_big xs * 256 + uint b < (from_bytes_big xs + 1) * 256"
    using byte_range(2) [of b] by (simp add: algebra_simps)
  also have "\<dots> \<le> 256 ^ length xs * 256"
    using snoc by (intro mult_right_mono) auto
  finally show ?case
    using snoc byte_range(1) [of b] by (simp add: from_bytes_big_snoc mult.commute)
qed simp

lemma unpack_H_slice [byte_simps]:
  "b \<le> length xs \<Longrightarrow> b - a = 2 \<Longrightarrow> unpack_H (py_slice xs a b) =
     Some (uint (xs ! a) * 256 + uint (xs ! (a + 1)))"
  by (simp add: unpack_H_def py_slice2 from_bytes_big_def)

lemma unpack_h_slice [byte_simps]:
  "b \<le> length xs \<Longrightarrow> b - a = 2 \<Longrightarrow> unpack_h (py_slice xs a b) =
     Some (sign_extend 16 (uint (xs ! a) * 256 + uint (xs ! (a + 1))))"
  by (simp add: unpack_h_def py_slice2 from_bytes_big_def)

lemma unpack_H_total: "length raw = 2 \<Longrightarrow> \<exists>v. unpack_H raw = Some v \<and> 0 \<le> v \<and> v < 65536"
  using from_bytes_big_bounds [of raw] by (auto simp: unpack_H_def)

lemma unpack_pack_H: "pack_H n = Some raw \<Longrightarrow> unpack_H raw = Some (int n)"
proof -
  assume "pack_H n = Some raw"
  then have n: "n < 65536" and raw: "raw = [of_nat (n div 256), of_nat (n mod 256)]"
    by (auto simp: pack_H_def split: if_splits)
  have "uint (of_nat (n div 256) :: byte) = int (n div 256)"
    and "uint (of_nat (n mod 256) :: byte) = int (n mod 256)"
    using n by (simp_all add: uint_nat unat_of_nat)
  moreover have "int (n div 256) * 256 + int (n mod 256) = int n"
    by (metis div_mult_mod_eq of_nat_add of_nat_mult of_nat_numeral)
  ultimately show ?thesis by (simp add: raw unpack_H_def from_bytes_big_def)
qed

lemma length_pack_H: "pack_H n = Some raw \<Longrightarrow> length raw = 2"
  by (auto simp: pack_H_def split: if_splits)

lemma sign_extend_bounds:
  assumes "0 < w" and "0 \<le> r" and "r < 2 ^ w"
  shows "- (2 ^ (w - 1)) \<le> sign_extend w r \<and> sign_extend w r < 2 ^ (w - 1)"
proof -
  from assms(1) have "(2::int) ^ w = 2 * 2 ^ (w - 1)"
    by (metis Suc_diff_1 power_Suc)
  with assms show ?thesis by (auto simp: sign_extend_def)
qed

lemma sign_extend_cong: "(sign_extend w r) mod 2 ^ w = r mod 2 ^ w"
  by (simp add: sign_extend_def)

subsection \<open>Dictionaries and their values\<close>

text \<open>
  A Python dictionary keeps its insertion order; assigning an existing key keeps
  its place. That is \<open>AList.update\<close>.
\<close>

datatype pyval =
    VNone
  | VInt int
  | VBool bool
  | VStr string
  | VFloat real
  | VList "pyval list"
  | VDict "(string \<times> pyval) list"

type_synonym dict = "(string \<times> pyval) list"

text \<open>A run of assignments \<open>d[k] = v\<close>, in the order of the source.\<close>

definition puts :: "dict \<Rightarrow> (string \<times> pyval) list \<Rightarrow> dict" where
  "puts d kvs = fold (\<lambda>(k, v). AList.update k v) kvs d"

text \<open>An assignment under an \<open>if\<close>.\<close>

definition onlyif :: "bool \<Rightarrow> 'a list \<Rightarrow> 'a list" where
  "onlyif c kvs = (if c then kvs else [])"

text \<open>\<open>d.setdefault(k, v)\<close>.\<close>

definition setdefault :: "string \<Rightarrow> pyval \<Rightarrow> dict \<Rightarrow> dict" where
  "setdefault k v d = (case map_of d k of None \<Rightarrow> AList.update k v d | Some _ \<Rightarrow> d)"

text \<open>\<open>d.get(k, default)\<close> on a constant table with integer keys.\<close>

definition table_get :: "(int \<times> 'a) list \<Rightarrow> int \<Rightarrow> 'a \<Rightarrow> 'a" where
  "table_get t k d = (case map_of t k of None \<Rightarrow> d | Some v \<Rightarrow> v)"

text \<open>\<open>t[i]\<close> on a constant tuple, for a non-negative index.\<close>

definition tuple_get :: "'a list \<Rightarrow> int \<Rightarrow> 'a option" where
  "tuple_get t i = (if 0 \<le> i \<and> nat i < length t then Some (t ! nat i) else None)"

lemma puts_Nil [simp]: "puts d [] = d"
  by (simp add: puts_def)

lemma puts_Cons [simp]: "puts d ((k, v) # kvs) = puts (AList.update k v d) kvs"
  by (simp add: puts_def)

lemma puts_append: "puts d (xs @ ys) = puts (puts d xs) ys"
  by (simp add: puts_def)

lemma map_of_puts: "map_of (puts d kvs) = map_of d ++ map_of (rev kvs)"
proof (induction kvs arbitrary: d)
  case (Cons kv kvs)
  obtain k v where "kv = (k, v)" by force
  with Cons show ?case by (simp add: update_conv' fun_eq_iff map_add_def split: option.split)
qed simp

lemma distinct_puts: "distinct (map fst d) \<Longrightarrow> distinct (map fst (puts d kvs))"
  by (induction kvs arbitrary: d) (auto simp: distinct_update)

lemma onlyif_simps [simp]: "onlyif True kvs = kvs" "onlyif False kvs = []"
  by (simp_all add: onlyif_def)

lemma tuple_get_in_range [byte_simps]:
  "0 \<le> i \<Longrightarrow> nat i < length t \<Longrightarrow> tuple_get t i = Some (t ! nat i)"
  by (simp add: tuple_get_def)

subsection \<open>Numbers and their formats\<close>

text \<open>\<open>round(x)\<close> and \<open>round(x, n)\<close>: half to even.\<close>

definition round_half_even :: "real \<Rightarrow> int" where
  "round_half_even x =
     (let f = \<lfloor>x\<rfloor>; r = x - of_int f
      in if r < 1 / 2 then f else if r > 1 / 2 then f + 1 else if even f then f else f + 1)"

definition py_round :: "real \<Rightarrow> nat \<Rightarrow> real" where
  "py_round x n = of_int (round_half_even (x * 10 ^ n)) / 10 ^ n"

lemma round_half_even_int [simp]: "round_half_even (of_int k) = k"
  by (simp add: round_half_even_def)

lemma round_half_even_near: "\<bar>of_int (round_half_even x) - x\<bar> \<le> 1 / 2"
proof -
  have "of_int \<lfloor>x\<rfloor> \<le> x" "x < of_int \<lfloor>x\<rfloor> + 1" by linarith+
  then show ?thesis unfolding round_half_even_def Let_def by (simp add: abs_le_iff)
qed

lemma py_round_near: "\<bar>py_round x n - x\<bar> \<le> 1 / (2 * 10 ^ n)"
proof -
  have "py_round x n - x = (of_int (round_half_even (x * 10 ^ n)) - x * 10 ^ n) / 10 ^ n"
    by (simp add: py_round_def field_simps)
  then have "\<bar>py_round x n - x\<bar> = \<bar>of_int (round_half_even (x * 10 ^ n)) - x * 10 ^ n\<bar> / 10 ^ n"
    by (simp add: abs_divide)
  also have "\<dots> \<le> (1 / 2) / 10 ^ n"
    using round_half_even_near by (intro divide_right_mono) auto
  finally show ?thesis by simp
qed

text \<open>Digits of a number in a base up to 16, and zero padding to a width.\<close>

definition digit_char :: "nat \<Rightarrow> char" where
  "digit_char d = ''0123456789abcdef'' ! d"

fun nat_str :: "nat \<Rightarrow> nat \<Rightarrow> string" where
  "nat_str b n = (if n < b \<or> b < 2 then [digit_char n] else nat_str b (n div b) @ [digit_char (n mod b)])"

declare nat_str.simps [simp del]

text \<open>\<open>"\{\}".format(i)\<close>, \<open>"\{:0wd\}".format(n)\<close>, \<open>"\{:0wx\}"\<close> and \<open>"\{:0wo\}"\<close>.\<close>

definition fmt_int :: "int \<Rightarrow> string" where
  "fmt_int i = (if i < 0 then ''-'' @ nat_str 10 (nat (- i)) else nat_str 10 (nat i))"

definition fmt_pad :: "nat \<Rightarrow> nat \<Rightarrow> int \<Rightarrow> string" where
  "fmt_pad base w i = (let s = nat_str base (nat i) in replicate (w - length s) CHR ''0'' @ s)"

text \<open>Reading digits back.\<close>

definition digit_val :: "char \<Rightarrow> nat" where
  "digit_val c = length (takeWhile (\<lambda>x. x \<noteq> c) ''0123456789abcdef'')"

definition str_val :: "nat \<Rightarrow> string \<Rightarrow> nat" where
  "str_val b s = foldl (\<lambda>acc c. acc * b + digit_val c) 0 s"

lemma digit_val_char: "d < 16 \<Longrightarrow> digit_val (digit_char d) = d"
proof -
  assume "d < 16"
  then have "d \<in> set [0..<16]" by simp
  moreover have "\<forall>d \<in> set [0..<16]. digit_val (digit_char d) = d"
    by code_simp
  ultimately show ?thesis by blast
qed

lemma str_val_snoc: "str_val b (s @ [c]) = str_val b s * b + digit_val c"
  by (simp add: str_val_def)

lemma str_val_nat_str: "2 \<le> b \<Longrightarrow> b \<le> 16 \<Longrightarrow> str_val b (nat_str b n) = n"
proof (induction b n rule: nat_str.induct)
  case (1 b n)
  show ?case
  proof (cases "n < b")
    case True
    with 1 show ?thesis by (simp add: nat_str.simps [of b n] str_val_def digit_val_char)
  next
    case False
    with 1 have "str_val b (nat_str b (n div b)) = n div b" by simp
    moreover have "n mod b < 16"
      using 1 by (meson le_trans less_le_trans mod_less_divisor pos2)
    ultimately show ?thesis using False 1
      by (simp add: nat_str.simps [of b n] str_val_snoc digit_val_char)
  qed
qed

lemma str_val_zeros: "str_val b (replicate k CHR ''0'' @ s) = str_val b s"
proof (induction k)
  case (Suc k)
  have "digit_val CHR ''0'' = 0" by code_simp
  with Suc show ?case by (simp add: str_val_def)
qed simp

lemma str_val_fmt_pad: "2 \<le> b \<Longrightarrow> b \<le> 16 \<Longrightarrow> str_val b (fmt_pad b w i) = nat i"
  by (simp add: fmt_pad_def Let_def str_val_zeros str_val_nat_str)

lemma length_nat_str: "2 \<le> b \<Longrightarrow> n < b ^ w \<Longrightarrow> 0 < w \<Longrightarrow> length (nat_str b n) \<le> w"
proof (induction b n arbitrary: w rule: nat_str.induct)
  case (1 b n)
  show ?case
  proof (cases "n < b")
    case True
    with 1 show ?thesis by (simp add: nat_str.simps [of b n])
  next
    case False
    with 1 obtain v where w: "w = Suc v" "0 < v"
      by (cases w; cases "w - 1") auto
    with 1 have "n div b < b ^ v"
      by (simp add: less_mult_imp_div_less mult.commute)
    with False 1 w have "length (nat_str b (n div b)) \<le> v" by simp
    with False 1 w show ?thesis by (simp add: nat_str.simps [of b n])
  qed
qed

lemma length_fmt_pad:
  "2 \<le> b \<Longrightarrow> nat i < b ^ w \<Longrightarrow> 0 < w \<Longrightarrow> length (fmt_pad b w i) = w"
  using length_nat_str [of b "nat i" w] by (simp add: fmt_pad_def Let_def)

lemma fmt_pad_inj:
  "2 \<le> b \<Longrightarrow> b \<le> 16 \<Longrightarrow> 0 \<le> i \<Longrightarrow> 0 \<le> j \<Longrightarrow> fmt_pad b w i = fmt_pad b w j \<Longrightarrow> i = j"
  by (metis eq_nat_nat_iff str_val_fmt_pad)

end
