(* ===== verification/Asterix_Frame.thy ===== *)
theory Asterix_Frame
  imports EFDI_Prelude
begin

text \<open>
  ASTERIX data-block framing: one category octet, a big-endian total length of two
  octets, the records. The theory models the splitter of the UDP ingress bridge
  (\<open>split_asterix_datagram\<close>), the header checks of the relay (\<open>validate_frame\<close>) and
  of the translators (\<open>raw_frame_payload\<close>), the wrapper that makes a record a block
  again (\<open>asterix_data_block\<close>), and the two frame iterators of the translators, over
  datagrams and over a TCP byte stream.

  The locale \<open>block_codec\<close> is the contract between the bridge that splits and
  publishes blocks and the translators that unwrap them; it is interpreted on the
  definitions of this theory.
\<close>

subsection \<open>Errors\<close>

text \<open>
  The \<open>ValueError\<close>s of the framing code by their message, and \<open>Uncaught\<close> for an
  \<open>IndexError\<close> or \<open>struct.error\<close> that no handler of the callers would catch.
\<close>

datatype frame_error =
    EmptyDatagram
  | TrailingBytes
  | InvalidLength int
  | LengthExceedsDatagram
  | ShorterThanHeader
  | WrongCategory int int
  | LengthMismatch int nat
  | BlockTooLarge
  | Uncaught

subsection \<open>Operations\<close>

text \<open>The loop of \<open>split_asterix_datagram\<close>: \<open>offset\<close> is the cursor.\<close>

function split_loop :: "bytes \<Rightarrow> nat \<Rightarrow> (int \<times> bytes) list \<Rightarrow> frame_error + (int \<times> bytes) list" where
  "split_loop datagram offset frames =
     (if offset < length datagram then
        if length datagram - offset < 3 then Inl TrailingBytes
        else case (byte_at datagram offset, unpack_H (py_slice datagram (offset + 1) (offset + 3))) of
          (Some category, Some len) \<Rightarrow>
            if len < 3 then Inl (InvalidLength len)
            else let fin = offset + nat len in
              if fin > length datagram then Inl LengthExceedsDatagram
              else split_loop datagram fin (frames @ [(category, py_slice datagram offset fin)])
        | _ \<Rightarrow> Inl Uncaught
      else Inr frames)"
  by pat_completeness auto
termination
  by (relation "measure (\<lambda>(d, off, fs). length d - off)") auto

declare split_loop.simps [simp del]

definition split_asterix_datagram :: "bytes \<Rightarrow> frame_error + (int \<times> bytes) list" where
  "split_asterix_datagram datagram =
     (if datagram = [] then Inl EmptyDatagram else split_loop datagram 0 [])"

definition validate_frame :: "bytes \<Rightarrow> int \<Rightarrow> frame_error + unit" where
  "validate_frame frame expected_category =
     (if length frame < 3 then Inl ShorterThanHeader
      else case (byte_at frame 0, unpack_H (py_slice frame 1 3)) of
        (Some category, Some declared_length) \<Rightarrow>
          if category \<noteq> expected_category then Inl (WrongCategory expected_category category)
          else if declared_length \<noteq> int (length frame)
            then Inl (LengthMismatch declared_length (length frame))
          else Inr ()
      | _ \<Rightarrow> Inl Uncaught)"

definition raw_frame_payload :: "bytes \<Rightarrow> int \<Rightarrow> frame_error + bytes" where
  "raw_frame_payload frame expected_category =
     (if length frame < 3 then Inl ShorterThanHeader
      else case (byte_at frame 0, unpack_H (py_slice frame 1 3)) of
        (Some category, Some len) \<Rightarrow>
          if category \<noteq> expected_category then Inl (WrongCategory expected_category category)
          else if len \<noteq> int (length frame) then Inl (LengthMismatch len (length frame))
          else Inr (drop 3 frame)
      | _ \<Rightarrow> Inl Uncaught)"

definition asterix_data_block :: "int \<Rightarrow> bytes \<Rightarrow> frame_error + bytes" where
  "asterix_data_block category record =
     (let total = 3 + length record in
      if \<not> (0 \<le> category \<and> category \<le> 255) \<or> total > 65535 then Inl BlockTooLarge
      else case pack_H total of
        Some hdr \<Rightarrow> Inr (word_of_int category # hdr @ record)
      | None \<Rightarrow> Inl Uncaught)"

text \<open>
  \<open>iter_frames_udp\<close> on one datagram: the inner loop, which stops silently at the
  first impossible header. \<open>None\<close> is an exception out of the generator.
\<close>

function udp_frames_loop :: "bytes \<Rightarrow> nat \<Rightarrow> (int \<times> bytes) list \<Rightarrow> (int \<times> bytes) list option" where
  "udp_frames_loop pkt offset acc =
     (if offset + 3 \<le> length pkt then
        case (byte_at pkt offset, unpack_H (py_slice pkt (offset + 1) (offset + 3))) of
          (Some cat, Some len) \<Rightarrow>
            if len < 3 \<or> offset + nat len > length pkt then Some acc
            else udp_frames_loop pkt (offset + nat len)
                   (acc @ [(cat, py_slice pkt (offset + 3) (offset + nat len))])
        | _ \<Rightarrow> None
      else Some acc)"
  by pat_completeness auto
termination
  by (relation "measure (\<lambda>(d, off, fs). length d - off)") auto

declare udp_frames_loop.simps [simp del]

definition iter_frames_udp :: "bytes \<Rightarrow> (int \<times> bytes) list option" where
  "iter_frames_udp pkt = udp_frames_loop pkt 0 []"

subsection \<open>TCP byte streams\<close>

text \<open>
  A connected socket is the list of segments still to be delivered. \<open>recv(n)\<close>
  returns at most \<open>n\<close> octets of the first segment, and the empty byte string once the
  peer has closed the connection.
\<close>

type_synonym tcp_socket = "bytes list"

fun sock_recv :: "nat \<Rightarrow> tcp_socket \<Rightarrow> bytes \<times> tcp_socket" where
  "sock_recv n [] = ([], [])"
| "sock_recv n (s # ss) = (if length s \<le> n then (s, ss) else (take n s, drop n s # ss))"

text \<open>\<open>_recv_exact\<close>: \<open>None\<close> is \<open>EOFError\<close>.\<close>

function recv_exact_loop :: "nat \<Rightarrow> bytes \<Rightarrow> tcp_socket \<Rightarrow> (bytes \<times> tcp_socket) option" where
  "recv_exact_loop n buf sock =
     (if length buf < n then
        let (chunk, sock') = sock_recv (n - length buf) sock in
        if chunk = [] then None else recv_exact_loop n (buf @ chunk) sock'
      else Some (buf, sock))"
  by pat_completeness auto
termination
  by (relation "measure (\<lambda>(n, buf, sock). n - length buf)")
    (auto simp flip: length_greater_0_conv intro!: diff_less_mono2)

declare recv_exact_loop.simps [simp del]

definition recv_exact :: "tcp_socket \<Rightarrow> nat \<Rightarrow> (bytes \<times> tcp_socket) option" where
  "recv_exact sock n = recv_exact_loop n [] sock"

text \<open>How the generator ends: the peer closed, or a length below 3 was announced.\<close>

datatype tcp_end = TcpEof | TcpBadLength int | TcpUncaught

lemma sock_recv_concat: "sock_recv n sock = (chunk, sock') \<Longrightarrow> chunk @ concat sock' = concat sock"
  by (cases sock) (auto split: if_splits)

lemma sock_recv_length: "sock_recv n sock = (chunk, sock') \<Longrightarrow> length chunk \<le> n"
  by (cases sock) (auto split: if_splits)

lemma recv_exact_loop_concat:
  "recv_exact_loop n buf sock = Some (got, sock') \<Longrightarrow> got @ concat sock' = buf @ concat sock"
proof (induction n buf sock rule: recv_exact_loop.induct)
  case (1 n buf sock)
  then show ?case
    by (subst (asm) (2) recv_exact_loop.simps)
      (auto simp: Let_def dest: sock_recv_concat split: if_splits prod.splits)
qed

lemma recv_exact_loop_length:
  "recv_exact_loop n buf sock = Some (got, sock') \<Longrightarrow> length buf \<le> n \<Longrightarrow> length got = n"
proof (induction n buf sock rule: recv_exact_loop.induct)
  case (1 n buf sock)
  show ?case
  proof (cases "length buf < n")
    case True
    obtain chunk s where c: "sock_recv (n - length buf) sock = (chunk, s)" by force
    with True "1.prems" have ne: "chunk \<noteq> []" and
      rec: "recv_exact_loop n (buf @ chunk) s = Some (got, sock')"
      by (auto simp: recv_exact_loop.simps [of n buf sock] split: if_splits)
    moreover have "length (buf @ chunk) \<le> n"
      using True sock_recv_length [OF c] by simp
    ultimately show ?thesis using "1.IH" True c by simp
  qed (use "1.prems" in \<open>simp add: recv_exact_loop.simps [of n buf sock]\<close>)
qed

lemma recv_exact_split:
  "recv_exact sock n = Some (got, sock') \<Longrightarrow> got @ concat sock' = concat sock \<and> length got = n"
  using recv_exact_loop_concat [of n "[]"] recv_exact_loop_length [of n "[]"]
  by (auto simp: recv_exact_def)

text \<open>
  \<open>iter_frames_tcp\<close>: the frames it yields, in order, and how the generator ends.
\<close>

function iter_frames_tcp :: "tcp_socket \<Rightarrow> (int \<times> bytes) list \<times> tcp_end" where
  "iter_frames_tcp sock =
     (case recv_exact sock 3 of
        None \<Rightarrow> ([], TcpEof)
      | Some (header, sock1) \<Rightarrow>
          (case (byte_at header 0, unpack_H (py_slice header 1 3)) of
             (Some cat, Some len) \<Rightarrow>
               if len < 3 then ([], TcpBadLength len)
               else (case recv_exact sock1 (nat len - 3) of
                       None \<Rightarrow> ([], TcpEof)
                     | Some (data, sock2) \<Rightarrow>
                         (case iter_frames_tcp sock2 of (fs, e) \<Rightarrow> ((cat, data) # fs, e)))
           | _ \<Rightarrow> ([], TcpUncaught)))"
  by pat_completeness auto
termination
proof (relation "measure (\<lambda>sock. length (concat sock))")
  fix sock x header sock1 cat len y z data sock2
  assume "recv_exact sock 3 = Some x" "(header, sock1) = x"
    and "recv_exact sock1 (nat len - 3) = Some z" "(data, sock2) = z"
  then have "length (concat sock) = 3 + length (concat sock1)"
    and "length (concat sock1) = length data + length (concat sock2)"
    using recv_exact_split by (metis length_append)+
  then show "(sock2, sock) \<in> measure (\<lambda>sock. length (concat sock))" by simp
qed simp

declare iter_frames_tcp.simps [simp del]

subsection \<open>Well-formed blocks\<close>

text \<open>The specification of a block of category \<open>c\<close>: its header describes it.\<close>

definition is_block :: "int \<Rightarrow> bytes \<Rightarrow> bool" where
  "is_block c f \<longleftrightarrow> 3 \<le> length f \<and> uint (f ! 0) = c \<and>
     uint (f ! 1) * 256 + uint (f ! 2) = int (length f)"

lemma is_block_header:
  assumes "is_block c f"
  shows "byte_at (f @ rest) 0 = Some c" and
    "unpack_H (py_slice (f @ rest) 1 3) = Some (int (length f))"
  using assms by (auto simp: is_block_def byte_at_def unpack_H_slice nth_append numeral_2_eq_2)

lemma raw_frame_payload_iff: "raw_frame_payload f c = Inr p \<longleftrightarrow> is_block c f \<and> p = drop 3 f"
  by (auto simp: raw_frame_payload_def is_block_def byte_at_def unpack_H_slice numeral_2_eq_2
      split: if_splits)

lemma validate_frame_iff: "validate_frame f c = Inr () \<longleftrightarrow> is_block c f"
  by (auto simp: validate_frame_def is_block_def byte_at_def unpack_H_slice numeral_2_eq_2
      split: if_splits)

lemma asterix_data_block_is_block:
  assumes "asterix_data_block c p = Inr f"
  shows "is_block c f \<and> drop 3 f = p"
proof -
  from assms obtain hdr where c: "0 \<le> c" "c \<le> 255" and hdr: "pack_H (3 + length p) = Some hdr"
    and f: "f = word_of_int c # hdr @ p"
    by (auto simp: asterix_data_block_def Let_def split: if_splits option.splits)
  have "unpack_H hdr = Some (int (3 + length p))" by (rule unpack_pack_H [OF hdr])
  moreover from length_pack_H [OF hdr] obtain a b where ab: "hdr = [a, b]"
    by (auto simp: numeral_2_eq_2 length_Suc_conv)
  ultimately have "uint a * 256 + uint b = int (3 + length p)"
    by (simp add: unpack_H_def from_bytes_big_def)
  moreover have "uint (word_of_int c :: byte) = c"
    using c by (simp add: uint_word_of_int)
  ultimately show ?thesis by (simp add: f ab is_block_def numeral_2_eq_2 numeral_3_eq_3)
qed

lemma is_block_asterix_data_block:
  assumes "is_block c f"
  shows "asterix_data_block c (drop 3 f) = Inr f"
proof -
  from assms obtain x y z r where f: "f = x # y # z # r"
    by (auto simp: is_block_def numeral_3_eq_3 Suc_le_length_iff)
  from assms have c: "uint x = c" and len: "uint y * 256 + uint z = int (3 + length r)"
    by (auto simp: is_block_def f numeral_2_eq_2)
  have range: "0 \<le> c" "c \<le> 255" using byte_range [of x] c by auto
  have small: "3 + length r \<le> 65535"
    using len byte_range(2) [of y] byte_range(2) [of z] by linarith
  have "uint z = int (3 + length r) mod 256"
    using len byte_range [of z] by (metis add.commute mod_mult_self1 mod_pos_pos_trivial)
  moreover have "uint y = int (3 + length r) div 256"
    unfolding len [symmetric] using byte_range [of z] by simp
  ultimately have "(of_nat ((3 + length r) div 256) :: byte) = y"
    and "(of_nat ((3 + length r) mod 256) :: byte) = z"
    by (metis of_int_of_nat_eq of_nat_div of_nat_mod of_nat_numeral word_of_int_uint)+
  with range small c show ?thesis
    by (auto simp: asterix_data_block_def f pack_H_def)
qed

lemma asterix_data_block_iff: "asterix_data_block c p = Inr f \<longleftrightarrow> is_block c f \<and> p = drop 3 f"
  using asterix_data_block_is_block is_block_asterix_data_block by blast

lemma is_block_slice:
  assumes "len = uint (d ! (off + 1)) * 256 + uint (d ! (off + 2))"
    and "\<not> (len < 3 \<or> off + nat len > length d)"
  shows "is_block (uint (d ! off)) (py_slice d off (off + nat len))"
proof -
  have "length (py_slice d off (off + nat len)) = nat len" "3 \<le> nat len" "2 < nat len"
    using assms(2) by (auto simp: length_py_slice)
  with assms show ?thesis by (simp add: is_block_def nth_py_slice)
qed

subsection \<open>Splitting a datagram\<close>

lemma split_loop_sound:
  "split_loop d off fs = Inr out \<Longrightarrow> off \<le> length d \<Longrightarrow>
     \<exists>gs. out = fs @ gs \<and> concat (map snd gs) = drop off d \<and> (\<forall>(c, f) \<in> set gs. is_block c f)"
proof (induction d off fs rule: split_loop.induct)
  case (1 d off fs)
  show ?case
  proof (cases "off < length d")
    case True
    with "1.prems" have three: "off + 3 \<le> length d"
      by (auto simp: split_loop.simps [of d off fs] split: if_splits)
    define len where "len = uint (d ! (off + 1)) * 256 + uint (d ! (off + 2))"
    have rd: "byte_at d off = Some (uint (d ! off))"
      "unpack_H (py_slice d (off + 1) (off + 3)) = Some len"
      using three by (auto simp: byte_simps len_def)
    from "1.prems" True three rd have len: "3 \<le> len" "off + nat len \<le> length d"
      and rec: "split_loop d (off + nat len)
        (fs @ [(uint (d ! off), py_slice d off (off + nat len))]) = Inr out"
      by (auto simp: split_loop.simps [of d off fs] Let_def split: if_splits)
    let ?f = "py_slice d off (off + nat len)"
    have "is_block (uint (d ! off)) ?f"
      using len by (intro is_block_slice len_def) simp
    moreover obtain gs where gs: "out = (fs @ [(uint (d ! off), ?f)]) @ gs"
      "concat (map snd gs) = drop (off + nat len) d" "\<forall>(c, f) \<in> set gs. is_block c f"
      using "1.IH" [OF True _ refl rd _ refl] three len rec by fastforce
    moreover have "?f @ drop (off + nat len) d = drop off d"
      using append_take_drop_id [of "nat len" "drop off d"] by (simp add: py_slice_def add.commute)
    ultimately show ?thesis by (intro exI [of _ "(uint (d ! off), ?f) # gs"]) auto
  next
    case False
    with "1.prems" have "out = fs" by (simp add: split_loop.simps [of d off fs])
    with False show ?thesis by (intro exI [of _ "[]"]) simp
  qed
qed

lemma split_loop_complete:
  "\<forall>(c, f) \<in> set gs. is_block c f \<Longrightarrow> drop off d = concat (map snd gs) \<Longrightarrow>
     split_loop d off fs = Inr (fs @ gs)"
proof (induction gs arbitrary: off fs)
  case Nil
  then show ?case by (simp add: split_loop.simps [of d off fs])
next
  case (Cons g gs)
  obtain c f where g: "g = (c, f)" by force
  with Cons.prems have blk: "is_block c f" and dr: "drop off d = f @ concat (map snd gs)" by auto
  have len: "off + length f \<le> length d" "off < length d" "3 \<le> length f"
    using blk arg_cong [OF dr, of length] by (auto simp: is_block_def)
  have rd: "byte_at d off = Some c" "unpack_H (py_slice d (off + 1) (off + 3)) = Some (int (length f))"
    using is_block_header [OF blk, of "concat (map snd gs)"] len
    by (auto simp: dr [symmetric] byte_at_def py_slice_def add.commute split: if_splits)
  have "py_slice d off (off + length f) = f" "drop (off + length f) d = concat (map snd gs)"
    using dr drop_drop [of "length f" off d] by (simp_all add: py_slice_def add.commute)
  with Cons.IH [of "off + length f" "fs @ [(c, f)]"] Cons.prems(1) g len rd show ?case
    by (simp add: split_loop.simps [of d off fs])
qed

lemma split_iff:
  "split_asterix_datagram d = Inr fs \<longleftrightarrow>
     fs \<noteq> [] \<and> d = concat (map snd fs) \<and> (\<forall>(c, f) \<in> set fs. is_block c f)"
proof
  assume "split_asterix_datagram d = Inr fs"
  then have ne: "d \<noteq> []" and loop: "split_loop d 0 [] = Inr fs"
    by (auto simp: split_asterix_datagram_def split: if_splits)
  from split_loop_sound [OF loop] ne
  show "fs \<noteq> [] \<and> d = concat (map snd fs) \<and> (\<forall>(c, f) \<in> set fs. is_block c f)" by auto
next
  assume r: "fs \<noteq> [] \<and> d = concat (map snd fs) \<and> (\<forall>(c, f) \<in> set fs. is_block c f)"
  then have "split_loop d 0 [] = Inr fs" using split_loop_complete [of fs 0 d "[]"] by auto
  moreover from r have "d \<noteq> []" by (cases fs) (auto simp: is_block_def)
  ultimately show "split_asterix_datagram d = Inr fs" by (simp add: split_asterix_datagram_def)
qed

lemma split_loop_never_uncaught: "split_loop d off fs \<noteq> Inl Uncaught"
proof (induction d off fs rule: split_loop.induct)
  case (1 d off fs)
  then show ?case
    by (subst split_loop.simps) (auto simp: Let_def byte_at_def unpack_H_slice split: option.split)
qed

subsection \<open>The contract between the splitter and the translators\<close>

locale block_codec =
  fixes wrap :: "int \<Rightarrow> bytes \<Rightarrow> 'e + bytes"
    and unwrap :: "bytes \<Rightarrow> int \<Rightarrow> 'e + bytes"
    and demux :: "bytes \<Rightarrow> 'e + (int \<times> bytes) list"
  assumes unwrap_iff: "unwrap f c = Inr p \<longleftrightarrow> wrap c p = Inr f"
    and demux_iff: "demux d = Inr fs \<longleftrightarrow>
      fs \<noteq> [] \<and> d = concat (map snd fs) \<and> (\<forall>(c, f) \<in> set fs. \<exists>p. wrap c p = Inr f)"
begin

text \<open>Every block the demultiplexer hands on is one its translator accepts.\<close>

lemma delivered: "demux d = Inr fs \<Longrightarrow> (c, f) \<in> set fs \<Longrightarrow> \<exists>p. unwrap f c = Inr p"
  by (fastforce simp: demux_iff unwrap_iff)

lemma demux_deterministic: "concat (map snd fs) = concat (map snd gs) \<Longrightarrow> fs \<noteq> [] \<Longrightarrow> gs \<noteq> [] \<Longrightarrow>
    \<forall>(c, f) \<in> set fs. \<exists>p. wrap c p = Inr f \<Longrightarrow> \<forall>(c, f) \<in> set gs. \<exists>p. wrap c p = Inr f \<Longrightarrow> fs = gs"
  by (metis (no_types, lifting) demux_iff sum.inject(2))

text \<open>A batch of payloads survives wrapping, concatenation, splitting and unwrapping.\<close>

lemma transport:
  assumes "msgs \<noteq> []" and "\<forall>(c, p) \<in> set msgs. \<exists>f. wrap c p = Inr f"
  shows "\<exists>fs. demux (concat (map (\<lambda>(c, p). projr (wrap c p)) msgs)) = Inr fs \<and>
    map fst fs = map fst msgs \<and> map (\<lambda>(c, f). unwrap f c) fs = map (Inr \<circ> snd) msgs"
proof -
  define fs where "fs = map (\<lambda>(c, p). (c, projr (wrap c p))) msgs"
  have ok: "\<forall>(c, f) \<in> set fs. \<exists>p. wrap c p = Inr f"
    using assms(2) by (fastforce simp: fs_def)
  have "concat (map (\<lambda>(c, p). projr (wrap c p)) msgs) = concat (map snd fs)"
    by (simp add: fs_def comp_def case_prod_unfold)
  then have "demux (concat (map (\<lambda>(c, p). projr (wrap c p)) msgs)) = Inr fs"
    using assms(1) ok by (simp add: demux_iff fs_def)
  moreover have "map (\<lambda>(c, f). unwrap f c) fs = map (Inr \<circ> snd) msgs"
    using assms(2) by (fastforce simp: fs_def unwrap_iff)
  ultimately show ?thesis by (auto simp: fs_def)
qed

end

interpretation asterix: block_codec asterix_data_block raw_frame_payload split_asterix_datagram
  by unfold_locales (auto simp: raw_frame_payload_iff asterix_data_block_iff split_iff)

subsection \<open>Frame iterators\<close>

text \<open>The payloads of a list of blocks.\<close>

definition payloads :: "(int \<times> bytes) list \<Rightarrow> (int \<times> bytes) list" where
  "payloads fs = map (\<lambda>(c, f). (c, drop 3 f)) fs"

lemma udp_frames_loop_prefix:
  "off \<le> length d \<Longrightarrow> \<exists>gs rest. udp_frames_loop d off acc = Some (acc @ payloads gs) \<and>
     drop off d = concat (map snd gs) @ rest \<and> (\<forall>(c, f) \<in> set gs. is_block c f)"
proof (induction d off acc rule: udp_frames_loop.induct)
  case (1 d off acc)
  show ?case
  proof (cases "off + 3 \<le> length d")
    case three: True
    define len where "len = uint (d ! (off + 1)) * 256 + uint (d ! (off + 2))"
    have rd: "byte_at d off = Some (uint (d ! off))"
      "unpack_H (py_slice d (off + 1) (off + 3)) = Some len"
      using three by (auto simp: byte_simps len_def)
    show ?thesis
    proof (cases "len < 3 \<or> off + nat len > length d")
      case True
      with three rd show ?thesis
        by (intro exI [of _ "[]"] exI [of _ "drop off d"])
          (auto simp: udp_frames_loop.simps [of d off acc] payloads_def)
    next
      case False
      let ?f = "py_slice d off (off + nat len)"
      let ?p = "py_slice d (off + 3) (off + nat len)"
      have blk: "is_block (uint (d ! off)) ?f"
        using False by (intro is_block_slice len_def)
      have "drop 3 ?f = ?p" by (simp add: py_slice_def drop_take add.commute)
      moreover have "?f @ drop (off + nat len) d = drop off d"
        using append_take_drop_id [of "nat len" "drop off d"] by (simp add: py_slice_def add.commute)
      moreover obtain gs rest where gs: "udp_frames_loop d (off + nat len) (acc @ [(uint (d ! off), ?p)]) =
          Some ((acc @ [(uint (d ! off), ?p)]) @ payloads gs)"
        "drop (off + nat len) d = concat (map snd gs) @ rest" "\<forall>(c, f) \<in> set gs. is_block c f"
        using "1.IH" [OF three refl rd False] False by auto
      ultimately show ?thesis using three rd False blk
        by (intro exI [of _ "(uint (d ! off), ?f) # gs"] exI [of _ rest])
          (simp add: udp_frames_loop.simps [of d off acc] payloads_def)
    qed
  qed (auto simp: udp_frames_loop.simps [of d off acc] payloads_def intro: exI [of _ "[]"])
qed

lemma udp_frames_loop_blocks:
  "\<forall>(c, f) \<in> set gs. is_block c f \<Longrightarrow> drop off d = concat (map snd gs) \<Longrightarrow>
     udp_frames_loop d off acc = Some (acc @ payloads gs)"
proof (induction gs arbitrary: off acc)
  case Nil
  then show ?case by (simp add: udp_frames_loop.simps [of d off acc] payloads_def)
next
  case (Cons g gs)
  obtain c f where g: "g = (c, f)" by force
  with Cons.prems have blk: "is_block c f" and dr: "drop off d = f @ concat (map snd gs)" by auto
  have len: "off + length f \<le> length d" "3 \<le> length f"
    using blk arg_cong [OF dr, of length] by (auto simp: is_block_def)
  have rd: "byte_at d off = Some c" "unpack_H (py_slice d (off + 1) (off + 3)) = Some (int (length f))"
    using is_block_header [OF blk, of "concat (map snd gs)"] len
    by (auto simp: dr [symmetric] byte_at_def py_slice_def add.commute split: if_splits)
  have "py_slice d (off + 3) (off + length f) = drop 3 f"
    using arg_cong [OF dr, of "\<lambda>x. take (length f - 3) (drop 3 x)"] len
    by (simp add: py_slice_def add.commute)
  moreover have "drop (off + length f) d = concat (map snd gs)"
    using dr drop_drop [of "length f" off d] by (simp add: add.commute)
  ultimately show ?case
    using Cons.IH [of "off + length f" "acc @ [(c, drop 3 f)]"] Cons.prems(1) g len rd
    by (simp add: udp_frames_loop.simps [of d off acc] payloads_def)
qed

subsection \<open>The byte stream under a TCP connection\<close>

text \<open>
  What the generator should yield, on the octets of the connection alone: the
  reference the socket loop is compared with.
\<close>

function stream_frames :: "bytes \<Rightarrow> (int \<times> bytes) list \<times> tcp_end" where
  "stream_frames d =
     (if length d < 3 then ([], TcpEof)
      else let len = uint (d ! 1) * 256 + uint (d ! 2) in
        if len < 3 then ([], TcpBadLength len)
        else if length d < nat len then ([], TcpEof)
        else case stream_frames (drop (nat len) d) of
          (fs, e) \<Rightarrow> ((uint (d ! 0), py_slice d 3 (nat len)) # fs, e))"
  by pat_completeness auto
termination
  by (relation "measure length") auto

declare stream_frames.simps [simp del]

lemma sock_recv_live: "[] \<notin> set sock \<Longrightarrow> sock_recv n sock = (chunk, sock') \<Longrightarrow> 0 < n \<Longrightarrow>
    [] \<notin> set sock' \<and> (chunk = [] \<longleftrightarrow> sock = [])"
  by (cases sock) (auto split: if_splits)

lemma recv_exact_loop_live:
  "[] \<notin> set sock \<Longrightarrow> length buf \<le> n \<Longrightarrow>
     (case recv_exact_loop n buf sock of
        None \<Rightarrow> length (buf @ concat sock) < n
      | Some (got, sock') \<Rightarrow> [] \<notin> set sock' \<and> length got = n \<and> got @ concat sock' = buf @ concat sock)"
proof (induction n buf sock rule: recv_exact_loop.induct)
  case (1 n buf sock)
  show ?case
  proof (cases "length buf < n")
    case True
    obtain chunk s where c: "sock_recv (n - length buf) sock = (chunk, s)" by force
    note live = sock_recv_live [OF "1.prems"(1) c]
    show ?thesis
    proof (cases "chunk = []")
      case True
      with live \<open>length buf < n\<close> show ?thesis by (simp add: recv_exact_loop.simps [of n buf "[]"])
    next
      case False
      have "length (buf @ chunk) \<le> n" using True sock_recv_length [OF c] by simp
      then have "case recv_exact_loop n (buf @ chunk) s of
          None \<Rightarrow> length ((buf @ chunk) @ concat s) < n
        | Some (got, sock') \<Rightarrow> [] \<notin> set sock' \<and> length got = n \<and> got @ concat sock' = (buf @ chunk) @ concat s"
        using "1.IH" [OF True c [symmetric] refl False] live True by simp
      with True False c show ?thesis
        unfolding sock_recv_concat [OF c, symmetric]
        by (simp add: recv_exact_loop.simps [of n buf sock] cong: option.case_cong)
    qed
  qed (use "1.prems" in \<open>simp add: recv_exact_loop.simps [of n buf sock]\<close>)
qed

lemma recv_exact_live:
  assumes "[] \<notin> set sock"
  shows "recv_exact sock n = None \<Longrightarrow> length (concat sock) < n"
    and "recv_exact sock n = Some (got, sock') \<Longrightarrow>
      [] \<notin> set sock' \<and> got = take n (concat sock) \<and> concat sock' = drop n (concat sock) \<and> n \<le> length (concat sock)"
proof -
  assume "recv_exact sock n = None"
  then show "length (concat sock) < n"
    using recv_exact_loop_live [OF assms, of "[]" n] by (simp add: recv_exact_def)
next
  assume "recv_exact sock n = Some (got, sock')"
  then have live: "[] \<notin> set sock'" and len: "length got = n" and cat: "concat sock = got @ concat sock'"
    using recv_exact_loop_live [OF assms, of "[]" n] by (simp_all add: recv_exact_def)
  show "[] \<notin> set sock' \<and> got = take n (concat sock) \<and> concat sock' = drop n (concat sock) \<and> n \<le> length (concat sock)"
    unfolding cat using live len by simp
qed

lemma iter_frames_tcp_stream: "[] \<notin> set sock \<Longrightarrow> iter_frames_tcp sock = stream_frames (concat sock)"
proof (induction sock rule: iter_frames_tcp.induct)
  case (1 sock)
  note live = recv_exact_live [OF "1.prems"]
  show ?case
  proof (cases "recv_exact sock 3")
    case None
    with live(1) show ?thesis
      by (simp add: iter_frames_tcp.simps [of sock] stream_frames.simps [of "concat sock"])
  next
    case (Some hs)
    obtain header s1 where hs: "hs = (header, s1)" by force
    define d where "d = concat sock"
    have h: "[] \<notin> set s1" "header = take 3 d" "concat s1 = drop 3 d" "3 \<le> length d"
      using live(2) Some hs by (auto simp: d_def)
    define len where "len = uint (d ! 1) * 256 + uint (d ! 2)"
    have rd: "byte_at header 0 = Some (uint (d ! 0))" "unpack_H (py_slice header 1 3) = Some len"
      using h by (auto simp: byte_at_def unpack_H_slice len_def numeral_2_eq_2)
    show ?thesis
    proof (cases "len < 3 \<or> recv_exact s1 (nat len - 3) = None")
      case True
      with Some hs rd have "iter_frames_tcp sock = ([], if len < 3 then TcpBadLength len else TcpEof)"
        by (auto simp: iter_frames_tcp.simps [of sock])
      moreover have "\<not> len < 3 \<Longrightarrow> length d < nat len"
        using True recv_exact_live(1) [OF h(1), of "nat len - 3"] h by simp
      then have "stream_frames d = ([], if len < 3 then TcpBadLength len else TcpEof)"
        using h(4) by (subst stream_frames.simps) (simp add: Let_def len_def)
      ultimately show ?thesis by (simp flip: d_def)
    next
      case False
      then obtain data s2 where r2: "recv_exact s1 (nat len - 3) = Some (data, s2)" and l3: "\<not> len < 3"
        by auto
      have g: "[] \<notin> set s2" "data = py_slice d 3 (nat len)" "concat s2 = drop (nat len) d" "nat len \<le> length d"
        using recv_exact_live(2) [OF h(1) r2] h l3 by (auto simp: py_slice_def)
      have "iter_frames_tcp s2 = stream_frames (concat s2)"
        using "1.IH" [OF Some hs [symmetric] refl rd l3 r2 refl] g(1) by simp
      then have "iter_frames_tcp sock =
          (case stream_frames (concat s2) of (fs, e) \<Rightarrow> ((uint (d ! 0), data) # fs, e))"
        using Some hs rd l3 r2 by (simp add: iter_frames_tcp.simps [of sock])
      moreover have "stream_frames d =
          (case stream_frames (drop (nat len) d) of (fs, e) \<Rightarrow> ((uint (d ! 0), py_slice d 3 (nat len)) # fs, e))"
        using l3 g(4) h(4) by (subst stream_frames.simps) (simp add: Let_def len_def)
      ultimately show ?thesis using g by (simp flip: d_def)
    qed
  qed
qed

lemma stream_frames_blocks:
  "\<forall>(c, f) \<in> set gs. is_block c f \<Longrightarrow> stream_frames (concat (map snd gs)) = (payloads gs, TcpEof)"
proof (induction gs)
  case Nil
  then show ?case by (simp add: stream_frames.simps [of "[]"] payloads_def)
next
  case (Cons g gs)
  obtain c f where g: "g = (c, f)" by force
  with Cons.prems have blk: "is_block c f" by auto
  let ?d = "f @ concat (map snd gs)"
  from blk have d: "uint (?d ! 0) = c" "uint (?d ! 1) * 256 + uint (?d ! 2) = int (length f)"
    "3 \<le> length f" by (auto simp: is_block_def nth_append)
  moreover have "py_slice ?d 3 (length f) = drop 3 f" using d(3) by (simp add: py_slice_def)
  ultimately show ?case using Cons g
    by (simp add: stream_frames.simps [of ?d] payloads_def)
qed

subsection \<open>Properties\<close>

text \<open>C1: The UDP splitter accepts a datagram exactly when it is a non-empty sequence of
  complete ASTERIX blocks, and then returns those blocks, with their categories, byte for
  byte and in order: nothing is dropped, invented or left over.\<close>

theorem split_asterix_datagram_correct:
  "split_asterix_datagram d = Inr fs \<longleftrightarrow>
     fs \<noteq> [] \<and> d = concat (map snd fs) \<and> (\<forall>(c, f) \<in> set fs. is_block c f)"
  by (rule split_iff)

lemma split_asterix_datagram_correct_witness:
  "split_asterix_datagram [34, 0, 4, 7, 48, 0, 5, 1, 2] = Inr [(34, [34, 0, 4, 7]), (48, [48, 0, 5, 1, 2])]"
  by (subst split_asterix_datagram_correct) (simp add: is_block_def)

text \<open>C17: A batch of records that fit their block headers goes through the transport
  unchanged: wrap each one (\<open>asterix_data_block\<close>), send the blocks in one datagram, split it
  (\<open>split_asterix_datagram\<close>) and unwrap each frame in the translator of its category
  (\<open>raw_frame_payload\<close>), and exactly the records come out, in order.\<close>

theorem block_transport_roundtrip:
  "msgs \<noteq> [] \<Longrightarrow> \<forall>(c, p) \<in> set msgs. 0 \<le> c \<and> c \<le> 255 \<and> length p \<le> 65532 \<Longrightarrow>
   \<exists>fs. split_asterix_datagram (concat (map (\<lambda>(c, p). projr (asterix_data_block c p)) msgs)) = Inr fs \<and>
     map fst fs = map fst msgs \<and>
     map (\<lambda>(c, f). raw_frame_payload f c) fs = map (Inr \<circ> snd) msgs"
  by (rule asterix.transport) (auto simp: asterix_data_block_def pack_H_def)

lemma block_transport_roundtrip_witness:
  "\<exists>fs. split_asterix_datagram (concat (map (\<lambda>(c, p). projr (asterix_data_block c p)) [(34, [7]), (48, [])])) = Inr fs \<and>
     map fst fs = [34, 48] \<and> map (\<lambda>(c, f). raw_frame_payload f c) fs = [Inr [7], Inr []]"
  using block_transport_roundtrip [of "[(34, [7]), (48, [])]"] by simp

text \<open>C18: The TCP frame iterator does not depend on how the network cut the stream into
  segments: on any live socket it yields what the reference parser of the octet stream
  yields, with the same end (peer closed, or an announced length below 3).\<close>

theorem iter_frames_tcp_refines_stream:
  "[] \<notin> set sock \<Longrightarrow> iter_frames_tcp sock = stream_frames (concat sock)"
  by (rule iter_frames_tcp_stream)

lemma iter_frames_tcp_refines_stream_witness:
  "iter_frames_tcp [[48, 0], [5, 1], [2, 48]] = ([(48, [1, 2])], TcpEof)"
  using iter_frames_tcp_refines_stream [of "[[48, 0], [5, 1], [2, 48]]"]
  by (simp add: stream_frames.simps py_slice_def)

text \<open>A TCP connection that carries complete blocks delivers every payload, in order, and
  the generator then ends with the end of the stream, however the octets were segmented.\<close>

theorem iter_frames_tcp_delivers:
  assumes "[] \<notin> set sock" and "concat sock = concat (map snd gs)" and "\<forall>(c, f) \<in> set gs. is_block c f"
  shows "iter_frames_tcp sock = (map (\<lambda>(c, f). (c, drop 3 f)) gs, TcpEof)"
  using assms iter_frames_tcp_stream stream_frames_blocks by (simp add: payloads_def)

lemma iter_frames_tcp_delivers_witness:
  "iter_frames_tcp [[48, 0], [4, 1, 34], [0, 3]] = ([(48, [1]), (34, [])], TcpEof)"
  using iter_frames_tcp_delivers [of "[[48, 0], [4, 1, 34], [0, 3]]" "[(48, [48, 0, 4, 1]), (34, [34, 0, 3])]"]
  by (simp add: is_block_def)

text \<open>The datagram iterator of the translators never raises and is lenient only at the
  end: it yields the payloads of a sequence of complete blocks that starts the datagram, and
  agrees with the strict splitter wherever the splitter accepts.\<close>

theorem iter_frames_udp_prefix:
  "\<exists>gs rest. iter_frames_udp d = Some (payloads gs) \<and> d = concat (map snd gs) @ rest \<and>
     (\<forall>(c, f) \<in> set gs. is_block c f) \<and>
     (\<forall>fs. split_asterix_datagram d = Inr fs \<longrightarrow> iter_frames_udp d = Some (payloads fs))"
proof -
  obtain gs rest where "iter_frames_udp d = Some (payloads gs)" "d = concat (map snd gs) @ rest"
    "\<forall>(c, f) \<in> set gs. is_block c f"
    using udp_frames_loop_prefix [of 0 d "[]"] by (auto simp: iter_frames_udp_def)
  moreover have "iter_frames_udp d = Some (payloads fs)" if "split_asterix_datagram d = Inr fs" for fs
    using that udp_frames_loop_blocks [of fs 0 d "[]"] by (auto simp: iter_frames_udp_def split_iff)
  ultimately show ?thesis by blast
qed

lemma iter_frames_udp_prefix_witness:
  "iter_frames_udp [34, 0, 4, 7] = Some [(34, [7])]"
proof -
  have "split_asterix_datagram [34, 0, 4, 7] = Inr [(34, [34, 0, 4, 7])]"
    by (simp add: split_iff is_block_def)
  with iter_frames_udp_prefix [of "[34, 0, 4, 7]"] show ?thesis by (auto simp: payloads_def)
qed

end
