(* ===== verification/Py_Text.thy ===== *)
theory Py_Text
  imports EFDI_Prelude
begin

text \<open>
  The string methods the sources use, on Latin-1 text (a \<open>char\<close> is a code point below
  256): \<open>split\<close> and \<open>join\<close> on one separator, \<open>strip\<close>, \<open>lower\<close>, \<open>isdigit\<close>, \<open>isalnum\<close>,
  \<open>partition\<close>, and \<open>str\<close> and the zero-padded format of the values of a dictionary.
\<close>

subsection \<open>Character classes\<close>

text \<open>\<open>str.isspace\<close>, \<open>str.isdigit\<close> (with the three superscripts), \<open>str.isalnum\<close>, \<open>str.lower\<close>.\<close>

definition is_space :: "char \<Rightarrow> bool" where
  "is_space c \<longleftrightarrow> of_char c \<in> set [9, 10, 11, 12, 13, 28, 29, 30, 31, 32, 133, 160 :: nat]"

definition is_ascii_digit :: "char \<Rightarrow> bool" where
  "is_ascii_digit c \<longleftrightarrow> 48 \<le> (of_char c :: nat) \<and> (of_char c :: nat) \<le> 57"

definition is_digit :: "char \<Rightarrow> bool" where
  "is_digit c \<longleftrightarrow> is_ascii_digit c \<or> of_char c \<in> set [178, 179, 185 :: nat]"

definition is_alpha :: "char \<Rightarrow> bool" where
  "is_alpha c \<longleftrightarrow> (let n = of_char c :: nat in
     65 \<le> n \<and> n \<le> 90 \<or> 97 \<le> n \<and> n \<le> 122 \<or> n \<in> set [170, 181, 186] \<or>
     192 \<le> n \<and> n \<noteq> 215 \<and> n \<noteq> 247)"

definition is_alnum :: "char \<Rightarrow> bool" where
  "is_alnum c \<longleftrightarrow> is_alpha c \<or> is_digit c \<or> of_char c \<in> set [188, 189, 190 :: nat]"

definition char_lower :: "char \<Rightarrow> char" where
  "char_lower c = (let n = of_char c :: nat in
     if 65 \<le> n \<and> n \<le> 90 \<or> 192 \<le> n \<and> n \<le> 222 \<and> n \<noteq> 215 then char_of (n + 32) else c)"

definition py_lower :: "string \<Rightarrow> string" where
  "py_lower s = map char_lower s"

definition py_isdigit :: "string \<Rightarrow> bool" where
  "py_isdigit s \<longleftrightarrow> s \<noteq> [] \<and> list_all is_digit s"

text \<open>\<open>int(s)\<close> on the result of \<open>isdigit\<close>: the superscripts raise \<open>ValueError\<close>.\<close>

definition int_of_digits :: "string \<Rightarrow> int option" where
  "int_of_digits s = (if s \<noteq> [] \<and> list_all is_ascii_digit s then Some (int (str_val 10 s)) else None)"

subsection \<open>Stripping, splitting, joining\<close>

definition strip_by :: "('a \<Rightarrow> bool) \<Rightarrow> 'a list \<Rightarrow> 'a list" where
  "strip_by P s = rev (dropWhile P (rev (dropWhile P s)))"

definition py_strip :: "string \<Rightarrow> string" where
  "py_strip s = strip_by is_space s"

fun py_split :: "'a \<Rightarrow> 'a list \<Rightarrow> 'a list list" where
  "py_split c [] = [[]]"
| "py_split c (x # xs) =
     (if x = c then [] # py_split c xs
      else (case py_split c xs of [] \<Rightarrow> [[x]] | p # ps \<Rightarrow> (x # p) # ps))"

fun py_join :: "'a list \<Rightarrow> 'a list list \<Rightarrow> 'a list" where
  "py_join sep [] = []"
| "py_join sep [p] = p"
| "py_join sep (p # q # ps) = p @ sep @ py_join sep (q # ps)"

text \<open>\<open>s.partition(c)\<close> without the separator.\<close>

definition py_partition :: "'a \<Rightarrow> 'a list \<Rightarrow> 'a list \<times> 'a list" where
  "py_partition c s = (takeWhile (\<lambda>x. x \<noteq> c) s, drop 1 (dropWhile (\<lambda>x. x \<noteq> c) s))"

lemma py_split_ne [simp]: "py_split c s \<noteq> []"
  by (induction s) (auto split: list.splits)

lemma py_split_free: "p \<in> set (py_split c s) \<Longrightarrow> c \<notin> set p"
proof (induction s arbitrary: p)
  case (Cons x xs)
  then show ?case by (cases "py_split c xs") (auto split: if_splits)
qed simp

lemma py_split_no_sep: "c \<notin> set s \<Longrightarrow> py_split c s = [s]"
  by (induction s) auto

lemma py_split_append: "py_split c (s @ c # t) = py_split c s @ py_split c t"
proof (induction s)
  case (Cons x xs)
  then show ?case by (cases "py_split c xs") auto
qed simp

lemma py_join_Cons: "ps \<noteq> [] \<Longrightarrow> py_join sep (p # ps) = p @ sep @ py_join sep ps"
  by (cases ps) auto

lemma py_join_append:
  "ps \<noteq> [] \<Longrightarrow> qs \<noteq> [] \<Longrightarrow> py_join sep (ps @ qs) = py_join sep ps @ sep @ py_join sep qs"
proof (induction ps)
  case (Cons p ps)
  then show ?case by (cases "ps = []") (simp_all add: py_join_Cons)
qed simp

lemma py_join_split [simp]: "py_join [c] (py_split c s) = s"
proof (induction s)
  case (Cons x xs)
  obtain p ps where "py_split c xs = p # ps" by (cases "py_split c xs") auto
  with Cons show ?case by (cases ps) auto
qed simp

lemma py_split_join:
  "ps \<noteq> [] \<Longrightarrow> \<forall>p \<in> set ps. c \<notin> set p \<Longrightarrow> py_split c (py_join [c] ps) = ps"
proof (induction ps)
  case (Cons p ps)
  then show ?case
    by (cases "ps = []") (simp_all add: py_split_no_sep py_join_Cons py_split_append)
qed simp

lemma py_split_inj: "py_split c s = py_split c t \<Longrightarrow> s = t"
  by (metis py_join_split)

lemma set_strip_by: "x \<in> set (strip_by P s) \<Longrightarrow> x \<in> set s"
  by (auto simp: strip_by_def dest!: set_dropWhileD)

lemma strip_by_id: "s = [] \<or> \<not> P (hd s) \<and> \<not> P (last s) \<Longrightarrow> strip_by P s = s"
proof -
  assume s: "s = [] \<or> \<not> P (hd s) \<and> \<not> P (last s)"
  then have "dropWhile P s = s" by (auto simp: dropWhile_eq_self_iff)
  moreover from s have "dropWhile P (rev s) = rev s" by (auto simp: dropWhile_eq_self_iff hd_rev)
  ultimately show ?thesis by (simp add: strip_by_def)
qed

lemma strip_by_ends: "strip_by P s \<noteq> [] \<Longrightarrow> \<not> P (hd (strip_by P s)) \<and> \<not> P (last (strip_by P s))"
proof -
  define t where "t = dropWhile P s"
  define u where "u = dropWhile P (rev t)"
  assume ne: "strip_by P s \<noteq> []"
  then have u: "u \<noteq> []" by (simp add: strip_by_def t_def u_def)
  then have "\<not> P (hd u)" unfolding u_def by (rule hd_dropWhile)
  moreover obtain v where "rev t = v @ u" unfolding u_def by (metis takeWhile_dropWhile_id)
  then have t: "t = rev u @ rev v" by (metis rev_append rev_rev_ident)
  with u have "t \<noteq> []" "hd t = last u" by (auto simp: hd_rev)
  moreover from this(1) have "\<not> P (hd t)" unfolding t_def by (rule hd_dropWhile)
  ultimately show ?thesis
    by (simp add: strip_by_def t_def [symmetric] u_def [symmetric] hd_rev last_rev)
qed

lemma strip_by_idem [simp]: "strip_by P (strip_by P s) = strip_by P s"
  using strip_by_ends [of P s] by (intro strip_by_id) blast

subsection \<open>Values as text\<close>

text \<open>
  \<open>str(v)\<close>. Python's \<open>repr\<close> of a float and of a container is the argument \<open>rp\<close>.
\<close>

definition py_str :: "(pyval \<Rightarrow> string) \<Rightarrow> pyval \<Rightarrow> string" where
  "py_str rp v = (case v of
     VStr s \<Rightarrow> s
   | VInt i \<Rightarrow> fmt_int i
   | VBool b \<Rightarrow> (if b then ''True'' else ''False'')
   | VNone \<Rightarrow> ''None''
   | _ \<Rightarrow> rp v)"

text \<open>\<open>"\{:0wd\}".format(v)\<close>: a string, a float or a container raises.\<close>

definition fmt_0d :: "nat \<Rightarrow> int \<Rightarrow> string" where
  "fmt_0d w i = (if i < 0 then ''-'' @ fmt_pad 10 (w - 1) (- i) else fmt_pad 10 w i)"

definition val_0d :: "nat \<Rightarrow> pyval \<Rightarrow> string option" where
  "val_0d w v = (case v of
     VInt i \<Rightarrow> Some (fmt_0d w i)
   | VBool b \<Rightarrow> Some (fmt_0d w (if b then 1 else 0))
   | _ \<Rightarrow> None)"

text \<open>\<open>d.get(k)\<close>, \<open>bool(v)\<close>, and \<open>v not in (None, "", 0)\<close>.\<close>

definition dget :: "dict \<Rightarrow> string \<Rightarrow> pyval option" where
  "dget d k = map_of d k"

definition has_key :: "string \<Rightarrow> dict \<Rightarrow> bool" where
  "has_key k d \<longleftrightarrow> map_of d k \<noteq> None"

definition truthy :: "pyval \<Rightarrow> bool" where
  "truthy v = (case v of
     VNone \<Rightarrow> False
   | VInt i \<Rightarrow> i \<noteq> 0 | VBool b \<Rightarrow> b | VStr s \<Rightarrow> s \<noteq> [] | VFloat r \<Rightarrow> r \<noteq> 0
   | VList xs \<Rightarrow> xs \<noteq> [] | VDict kvs \<Rightarrow> kvs \<noteq> [])"

definition not_blank :: "pyval \<Rightarrow> bool" where
  "not_blank v = (case v of
     VNone \<Rightarrow> False
   | VInt i \<Rightarrow> i \<noteq> 0 | VBool b \<Rightarrow> b | VStr s \<Rightarrow> s \<noteq> [] | VFloat r \<Rightarrow> r \<noteq> 0 | _ \<Rightarrow> True)"

text \<open>\<open>s.startswith(p)\<close> and \<open>s.endswith(p)\<close>.\<close>

definition starts_with :: "string \<Rightarrow> string \<Rightarrow> bool" where
  "starts_with p s \<longleftrightarrow> take (length p) s = p"

definition ends_with :: "string \<Rightarrow> string \<Rightarrow> bool" where
  "ends_with suffix s \<longleftrightarrow> length suffix \<le> length s \<and> drop (length s - length suffix) s = suffix"

text \<open>\<open>sub in s\<close>.\<close>

fun contains_str :: "string \<Rightarrow> string \<Rightarrow> bool" where
  "contains_str sub [] \<longleftrightarrow> sub = []"
| "contains_str sub (c # s) \<longleftrightarrow> starts_with sub (c # s) \<or> contains_str sub s"

lemma digit_char_code: "d < 10 \<Longrightarrow> of_char (digit_char d) = 48 + d"
proof -
  assume "d < 10"
  then have "d \<in> set [0..<10]" by simp
  moreover have "\<forall>d \<in> set [0..<10]. of_char (digit_char d) = 48 + d" by code_simp
  ultimately show ?thesis by blast
qed

lemma nat_str_digits: "c \<in> set (nat_str 10 n) \<Longrightarrow> is_ascii_digit c"
proof (induction "10 :: nat" n rule: nat_str.induct)
  case (1 n)
  then show ?case
    by (auto simp: nat_str.simps [of 10 n] is_ascii_digit_def digit_char_code split: if_splits)
qed

lemma fmt_pad_digits: "c \<in> set (fmt_pad 10 w i) \<Longrightarrow> is_ascii_digit c"
proof -
  assume "c \<in> set (fmt_pad 10 w i)"
  then have "c = CHR ''0'' \<or> c \<in> set (nat_str 10 (nat i))"
    by (auto simp: fmt_pad_def Let_def)
  moreover have "is_ascii_digit CHR ''0''" by code_simp
  ultimately show ?thesis using nat_str_digits by blast
qed

subsection \<open>Numbers from text\<close>

text \<open>
  A run of decimal digits, with single underscores between them, and its value.
\<close>

fun digit_run :: "string \<Rightarrow> bool" where
  "digit_run [] \<longleftrightarrow> False"
| "digit_run [c] \<longleftrightarrow> is_ascii_digit c"
| "digit_run (c # e # s) \<longleftrightarrow> is_ascii_digit c \<and>
     (if e = CHR ''_'' then digit_run s else digit_run (e # s))"

definition run_val :: "string \<Rightarrow> int" where
  "run_val s = int (str_val 10 (filter is_ascii_digit s))"

definition split_sign :: "string \<Rightarrow> int \<times> string" where
  "split_sign s = (case s of
     [] \<Rightarrow> (1, s)
   | c # r \<Rightarrow> if c = CHR ''-'' then (- 1, r) else if c = CHR ''+'' then (1, r) else (1, s))"

text \<open>\<open>int(s)\<close>: \<open>None\<close> is \<open>ValueError\<close>.\<close>

definition int_of_str :: "string \<Rightarrow> int option" where
  "int_of_str s = (case split_sign (py_strip s) of (sg, r) \<Rightarrow>
     if digit_run r then Some (sg * run_val r) else None)"

text \<open>
  \<open>float(s)\<close> on decimal notation. Infinities and not-a-numbers, which the sources refuse
  next by their range checks, are refused here.
\<close>

definition pow10 :: "int \<Rightarrow> real" where
  "pow10 e = (if 0 \<le> e then 10 ^ nat e else 1 / 10 ^ nat (- e))"

definition float_of_str :: "string \<Rightarrow> real option" where
  "float_of_str s = (case split_sign (py_strip s) of (sg, r) \<Rightarrow>
     let low = map (\<lambda>c. if c = CHR ''E'' then CHR ''e'' else c) r;
         (mant, ex) = py_partition CHR ''e'' low;
         (ip, fp) = py_partition CHR ''.'' mant;
         (esg, ed) = split_sign ex
     in if (ip = [] \<or> digit_run ip) \<and> (fp = [] \<or> digit_run fp) \<and> \<not> (ip = [] \<and> fp = []) \<and>
           (CHR ''e'' \<in> set low \<longrightarrow> digit_run ed)
        then Some (of_int sg * (of_int (run_val ip) +
               of_int (run_val fp) * pow10 (- int (length (filter is_ascii_digit fp)))) *
               (if CHR ''e'' \<in> set low then pow10 (esg * run_val ed) else 1))
        else None)"

text \<open>
  \<open>int(v)\<close> and \<open>float(v)\<close>: \<open>None\<close> is the \<open>ValueError\<close> or \<open>TypeError\<close>.
\<close>

definition py_int :: "pyval \<Rightarrow> int option" where
  "py_int v = (case v of
     VInt i \<Rightarrow> Some i
   | VBool b \<Rightarrow> Some (if b then 1 else 0)
   | VFloat r \<Rightarrow> Some (if r \<ge> 0 then \<lfloor>r\<rfloor> else \<lceil>r\<rceil>)
   | VStr s \<Rightarrow> int_of_str s
   | _ \<Rightarrow> None)"

definition py_float :: "pyval \<Rightarrow> real option" where
  "py_float v = (case v of
     VInt i \<Rightarrow> Some (of_int i)
   | VBool b \<Rightarrow> Some (if b then 1 else 0)
   | VFloat r \<Rightarrow> Some r
   | VStr s \<Rightarrow> float_of_str s
   | _ \<Rightarrow> None)"

text \<open>An integer that was printed is read back.\<close>

lemma nat_str_nonempty [simp]: "nat_str 10 n \<noteq> []"
  by (simp add: nat_str.simps [of 10 n])

lemma digit_run_digits: "list_all is_ascii_digit s \<Longrightarrow> s \<noteq> [] \<Longrightarrow> digit_run s"
  by (induction s rule: digit_run.induct) (auto simp: is_ascii_digit_def)

lemma digit_not_space: "is_ascii_digit c \<Longrightarrow> \<not> is_space c"
  by (auto simp: is_ascii_digit_def is_space_def)

lemma fmt_int_digits:
  assumes "0 \<le> c"
  shows "fmt_int c = nat_str 10 (nat c)" "list_all is_ascii_digit (fmt_int c)"
  using assms nat_str_digits by (auto simp: fmt_int_def list_all_iff)

lemma py_isdigit_fmt_int: "0 \<le> c \<Longrightarrow> py_isdigit (fmt_int c)"
  using fmt_int_digits [of c] by (auto simp: py_isdigit_def list_all_iff is_digit_def)

lemma int_of_str_fmt_int:
  assumes "0 \<le> c"
  shows "int_of_str (fmt_int c) = Some c"
proof -
  let ?s = "fmt_int c"
  have d: "list_all is_ascii_digit ?s" and ne: "?s \<noteq> []" using fmt_int_digits [OF assms] by auto
  then have "is_ascii_digit (hd ?s)" "is_ascii_digit (last ?s)" by (auto simp: list_all_iff)
  then have strip: "py_strip ?s = ?s"
    unfolding py_strip_def by (intro strip_by_id) (auto dest: digit_not_space)
  have sign: "split_sign ?s = (1, ?s)"
    using ne \<open>is_ascii_digit (hd ?s)\<close> by (cases ?s) (auto simp: split_sign_def is_ascii_digit_def)
  have "filter is_ascii_digit ?s = ?s" using d by (simp add: filter_id_conv list_all_iff)
  then have "run_val ?s = c"
    using assms fmt_int_digits(1) [OF assms] str_val_nat_str [of 10 "nat c"] by (simp add: run_val_def)
  with digit_run_digits [OF d ne] show ?thesis by (simp add: int_of_str_def strip sign)
qed

lemma int_of_str_samples:
  "int_of_str '' -4_8 '' = Some (- 48)" "int_of_str ''4__8'' = None" "int_of_str [] = None"
  by code_simp+

subsection \<open>ASCII\<close>

text \<open>
  \<open>raw.decode("ascii", errors="replace")\<close>: U+FFFD, which Latin-1 does not have, is written
  as the character 255, which no other octet of such a field decodes to.
\<close>

definition ascii_replace :: "bytes \<Rightarrow> string" where
  "ascii_replace raw = map (\<lambda>b. if uint b < 128 then char_of (uint b) else CHR 0xFF) raw"

subsection \<open>Dates\<close>

text \<open>The date of a day counted from 1 January 1970, \<open>YYYY-MM-DD\<close>, for years of four digits.\<close>

definition civil_day :: "int \<Rightarrow> string" where
  "civil_day days = (let z = days + 719468;
     doe = z mod 146097;
     yoe = (doe - doe div 1460 + doe div 36524 - doe div 146096) div 365;
     doy = doe - (365 * yoe + yoe div 4 - yoe div 100);
     mp = (5 * doy + 2) div 153;
     d = doy - (153 * mp + 2) div 5 + 1;
     m = (if mp < 10 then mp + 3 else mp - 9);
     y = yoe + z div 146097 * 400 + (if m \<le> 2 then 1 else 0)
   in fmt_pad 10 4 y @ ''-'' @ fmt_pad 10 2 m @ ''-'' @ fmt_pad 10 2 d)"

end
