(* ===== verification/Topics.thy ===== *)
theory Topics
  imports Py_Text
begin

text \<open>
  The topic taxonomy of the publishers (\<open>track_views.py\<close>): the version tail and the
  format segment of a view key, the type and identity segments taken from a track, and
  the source segment of the ASTERIX topics. The lemmas show that the views of an object
  have keys of their own, and that the contents of a track cannot add segments or
  wildcards to a topic.
\<close>

subsection \<open>View keys\<close>

definition formats :: "string list" where
  "formats = [''json'', ''sapient'', ''proto'', ''raw'']"

definition version_tail :: string where
  "version_tail = ''tracks/v1''"

definition strip_version :: "string \<Rightarrow> string" where
  "strip_version topic =
     (let parts = py_split CHR ''/'' topic; n = length parts in
      if n \<ge> 2 \<and> parts ! (n - 2) = ''tracks'' \<and>
         take 1 (parts ! (n - 1)) = ''v'' \<and> py_isdigit (drop 1 (parts ! (n - 1)))
      then py_join ''/'' (take (n - 2) parts) else topic)"

definition add_version :: "string \<Rightarrow> string" where
  "add_version topic =
     (if strip_version topic \<noteq> topic then topic else topic @ ''/'' @ version_tail)"

definition view_key :: "string \<Rightarrow> string \<Rightarrow> string" where
  "view_key topic fmt =
     (let parts = py_split CHR ''/'' (strip_version topic);
          parts = (if parts \<noteq> [] \<and> last parts \<in> set formats then butlast parts else parts);
          base = py_join ''/'' parts;
          stem = (if fmt = ''json'' then base else base @ ''/'' @ fmt)
      in stem @ ''/'' @ version_tail)"

text \<open>\<open>rsplit("/", 1)[-1]\<close> is the last segment.\<close>

definition has_format :: "string \<Rightarrow> bool" where
  "has_format topic \<longleftrightarrow> last (py_split CHR ''/'' (strip_version topic)) \<in> set formats"

definition dual_topic :: "string \<Rightarrow> string" where
  "dual_topic topic = view_key topic ''proto''"

definition native_topic :: "string \<Rightarrow> string" where
  "native_topic topic = view_key topic ''raw''"

lemma strip_version_tail: "strip_version (t @ ''/'' @ version_tail) = t"
proof -
  have "py_split CHR ''/'' version_tail = [''tracks'', ''v1'']" by code_simp
  then have "py_split CHR ''/'' (t @ ''/'' @ version_tail) = py_split CHR ''/'' t @ [''tracks'', ''v1'']"
    using py_split_append [of "CHR ''/''" t version_tail] by simp
  moreover have "py_isdigit ''1''" by code_simp
  ultimately show ?thesis
    by (simp add: strip_version_def Let_def nth_append)
qed

lemma formats_free: "f \<in> set formats \<Longrightarrow> CHR ''/'' \<notin> set f"
  by (auto simp: formats_def)

lemma last_split_format:
  "f \<in> set formats \<Longrightarrow> py_split CHR ''/'' (b @ ''/'' @ f) = py_split CHR ''/'' b @ [f]"
  using py_split_append [of "CHR ''/''" b f] by (simp add: py_split_no_sep formats_free)

text \<open>The key of a view of an object key that carries no format of its own.\<close>

lemma view_key_plain:
  "\<not> has_format t \<Longrightarrow> view_key t f =
     (if f = ''json'' then strip_version t else strip_version t @ ''/'' @ f) @ ''/'' @ version_tail"
  by (simp add: view_key_def has_format_def Let_def)

lemma strip_view_key:
  "\<not> has_format t \<Longrightarrow> strip_version (view_key t f) =
     (if f = ''json'' then strip_version t else strip_version t @ ''/'' @ f)"
  unfolding view_key_plain by (rule strip_version_tail)

text \<open>
  Views of a view. Taking a view of a key that is already a view of an object gives
  the view of the object: the format segment and the version tail are replaced, never stacked,
  for every object key whose own last segment is not the name of a format.
\<close>

theorem view_key_of_view:
  assumes "\<not> has_format topic" and "f \<in> set formats"
  shows "view_key (view_key topic f) g = view_key topic g"
proof (cases "f = ''json''")
  case True
  then have "strip_version (view_key topic f) = strip_version topic"
    by (simp add: strip_view_key assms(1))
  then show ?thesis by (simp add: view_key_def)
next
  case False
  then have "py_split CHR ''/'' (strip_version (view_key topic f)) =
      py_split CHR ''/'' (strip_version topic) @ [f]"
    using assms by (simp add: strip_view_key last_split_format [simplified])
  with assms show ?thesis by (simp add: view_key_def Let_def has_format_def)
qed

theorem view_key_of_view_witness:
  "view_key (view_key ''EFDI/air/048-010/radar/a/b/c'' ''raw'') ''json'' =
     ''EFDI/air/048-010/radar/a/b/c/tracks/v1''"
proof -
  have "\<not> has_format ''EFDI/air/048-010/radar/a/b/c''" "''raw'' \<in> set formats" by code_simp+
  from view_key_of_view [OF this, of "''json''"]
  have "view_key (view_key ''EFDI/air/048-010/radar/a/b/c'' ''raw'') ''json'' =
    view_key ''EFDI/air/048-010/radar/a/b/c'' ''json''" .
  also have "\<dots> = ''EFDI/air/048-010/radar/a/b/c/tracks/v1''" by code_simp
  finally show ?thesis .
qed

lemma view_key_cases:
  assumes "\<not> has_format s" "\<not> has_format t" "strip_version s = s" "strip_version t = t"
    and "f \<in> set formats" "g \<in> set formats" and "view_key s f = view_key t g"
  shows "s = t \<and> f = g"
proof -
  have eq: "(if f = ''json'' then s else s @ ''/'' @ f) = (if g = ''json'' then t else t @ ''/'' @ g)"
    using assms(7) strip_view_key [OF assms(1), of f] strip_view_key [OF assms(2), of g]
    unfolding assms(3,4) by metis
  have no: "x \<noteq> y @ ''/'' @ h" if "\<not> has_format x" "strip_version x = x" "h \<in> set formats" for x y h
    using that by (auto simp: has_format_def last_split_format [simplified])
  show ?thesis
  proof (cases "f = ''json''"; cases "g = ''json''")
    assume "f \<noteq> ''json''" "g \<noteq> ''json''"
    then have "py_split CHR ''/'' s @ [f] = py_split CHR ''/'' t @ [g]"
      using eq assms(5,6) by (metis last_split_format)
    then show ?thesis by (auto dest: py_split_inj)
  qed (use eq no assms in auto)
qed

text \<open>
  Separate views. Two object keys without a version tail whose last segment is no
  format name have a view key in common only when they are the same object and the same view:
  no subscriber of one view of one object receives another.
\<close>

theorem view_key_injective:
  assumes "\<not> has_format s" and "\<not> has_format t"
    and "strip_version s = s" and "strip_version t = t"
    and "f \<in> set formats" and "g \<in> set formats"
  shows "view_key s f = view_key t g \<longleftrightarrow> s = t \<and> f = g"
  using view_key_cases [OF assms] by blast

theorem view_key_injective_witness:
  "view_key ''EFDI/air/x/a'' ''raw'' \<noteq> view_key ''EFDI/air/x/b'' ''raw''"
proof -
  have "\<not> has_format ''EFDI/air/x/a''" "\<not> has_format ''EFDI/air/x/b''"
    "strip_version ''EFDI/air/x/a'' = ''EFDI/air/x/a''" "strip_version ''EFDI/air/x/b'' = ''EFDI/air/x/b''"
    "''raw'' \<in> set formats" by code_simp+
  from view_key_injective [OF this(1-5) this(5)] show ?thesis by simp
qed

subsection \<open>The object segments of a topic\<close>

definition legacy_tail :: "string list" where
  "legacy_tail = [''json'', ''sapient'', ''proto'', ''raw'', ''native'', ''tracks'', ''status'',
     ''alerts'', ''features'', ''routes'', ''observations'']"

definition id_keys :: "string list" where
  "id_keys = [''registration'', ''icao24'', ''mmsi'', ''uid'', ''callsign'',
     ''track_num'', ''track_number'', ''radar_id'', ''object_id'']"

definition type_keys :: "string list" where
  "type_keys = [''aircraft_type'', ''type'', ''vehicle_type'', ''sapient_class'',
     ''remote_id_ua_type'', ''object_class'', ''ship_type'']"

definition slug :: "string \<Rightarrow> string" where
  "slug value =
     (let text = py_lower (py_strip value);
          out = strip_by (\<lambda>c. c = CHR ''-'')
            (map (\<lambda>c. if is_alnum c \<or> c \<in> set ''._-'' then c else CHR ''-'') text)
      in if take 64 out = [] then ''unknown'' else take 64 out)"

fun first_type :: "dict \<Rightarrow> string list \<Rightarrow> string" where
  "first_type track [] = ''unknown''"
| "first_type track (k # ks) =
     (case dget track k of
        Some (VStr v) \<Rightarrow> if py_strip v \<noteq> [] then slug v else first_type track ks
      | _ \<Rightarrow> first_type track ks)"

definition object_type :: "dict \<Rightarrow> string" where
  "object_type track = first_type track type_keys"

fun first_id :: "(pyval \<Rightarrow> string) \<Rightarrow> dict \<Rightarrow> string list \<Rightarrow> string" where
  "first_id rp track [] = ''unknown''"
| "first_id rp track (k # ks) =
     (case dget track k of
        Some v \<Rightarrow> if not_blank v then slug (py_str rp v) else first_id rp track ks
      | None \<Rightarrow> first_id rp track ks)"

definition object_id :: "(pyval \<Rightarrow> string) \<Rightarrow> dict \<Rightarrow> string" where
  "object_id rp track = first_id rp track id_keys"

fun pop_legacy :: "string list \<Rightarrow> string list" where
  "pop_legacy [] = []"
| "pop_legacy (p # ps) =
     (case pop_legacy ps of
        [] \<Rightarrow> if p \<in> set legacy_tail then [] else [p]
      | qs \<Rightarrow> p # qs)"

definition semantic_prefix :: "string \<Rightarrow> string list" where
  "semantic_prefix pre =
     pop_legacy (filter (\<lambda>p. p \<noteq> []) (py_split CHR ''/'' (strip_version pre)))"

definition semantic_topic :: "(pyval \<Rightarrow> string) \<Rightarrow> string \<Rightarrow> dict \<Rightarrow> string" where
  "semantic_topic rp pre track =
     py_join ''/'' (semantic_prefix pre @ [object_type track, object_id rp track])"

text \<open>What a key segment may contain: no separator, no wildcard, no white space.\<close>

definition safe_segment :: "string \<Rightarrow> bool" where
  "safe_segment s \<longleftrightarrow> s \<noteq> [] \<and> length s \<le> 64 \<and>
     list_all (\<lambda>c. c \<notin> set ''/*?#$@'' \<and> \<not> is_space c) s"

lemma alnum_safe: "is_alnum c \<Longrightarrow> c \<notin> set ''/*?#$@'' \<and> \<not> is_space c"
  by (auto simp: is_alnum_def is_alpha_def is_digit_def is_ascii_digit_def is_space_def Let_def)

lemma slug_char_safe:
  "is_alnum c \<or> c \<in> set ''._-'' \<Longrightarrow> c \<notin> set ''/*?#$@'' \<and> \<not> is_space c"
  using alnum_safe [of c] by (auto simp: is_space_def)

lemma unknown_safe: "safe_segment ''unknown''"
  by code_simp

lemma slug_safe: "safe_segment (slug v)"
proof -
  define out where "out = strip_by (\<lambda>c. c = CHR ''-'')
    (map (\<lambda>c. if is_alnum c \<or> c \<in> set ''._-'' then c else CHR ''-'') (py_lower (py_strip v)))"
  have "is_alnum c \<or> c \<in> set ''._-''" if "c \<in> set out" for c
    using set_strip_by [OF that [unfolded out_def]] by (auto split: if_splits)
  then have "list_all (\<lambda>c. c \<notin> set ''/*?#$@'' \<and> \<not> is_space c) (take 64 out)"
    unfolding list_all_iff using slug_char_safe by (blast dest: in_set_takeD)
  then have "take 64 out \<noteq> [] \<Longrightarrow> safe_segment (take 64 out)"
    by (simp add: safe_segment_def)
  moreover have "slug v = (if take 64 out = [] then ''unknown'' else take 64 out)"
    by (simp only: slug_def Let_def out_def)
  ultimately show ?thesis using unknown_safe by presburger
qed

lemma object_type_safe: "safe_segment (object_type track)"
proof -
  have "safe_segment (first_type track ks)" for ks
    by (induction track ks rule: first_type.induct)
      (auto simp: slug_safe unknown_safe split: option.split pyval.split)
  then show ?thesis by (simp add: object_type_def)
qed

lemma object_id_safe: "safe_segment (object_id rp track)"
proof -
  have "safe_segment (first_id rp track ks)" for ks
    by (induction rp track ks rule: first_id.induct)
      (auto simp: slug_safe unknown_safe split: option.split)
  then show ?thesis by (simp add: object_id_def)
qed

lemma pop_legacy_subset: "set (pop_legacy ps) \<subseteq> set ps"
  by (induction ps) (auto split: list.split if_splits)

lemma pop_legacy_last: "pop_legacy ps \<noteq> [] \<Longrightarrow> last (pop_legacy ps) \<notin> set legacy_tail"
  by (induction ps) (auto split: list.splits if_splits)

lemma semantic_prefix_free: "p \<in> set (semantic_prefix pre) \<Longrightarrow> CHR ''/'' \<notin> set p \<and> p \<noteq> []"
  using pop_legacy_subset by (fastforce simp: semantic_prefix_def dest: py_split_free)

lemma safe_no_slash: "safe_segment s \<Longrightarrow> CHR ''/'' \<notin> set s"
  by (auto simp: safe_segment_def list_all_iff)

lemma semantic_topic_split:
  "py_split CHR ''/'' (semantic_topic rp pre track) =
     semantic_prefix pre @ [object_type track, object_id rp track]"
  unfolding semantic_topic_def
  using semantic_prefix_free safe_no_slash object_type_safe object_id_safe
  by (subst py_split_join) auto

text \<open>
  No topic injection. Whatever a track carries in its type and identity fields, the
  topic built for it is the publisher's prefix followed by exactly two segments, and both are
  non-empty, at most 64 characters long and free of separators, wildcards, white space and the
  administration-space mark.
\<close>

theorem semantic_topic_segments:
  "\<exists>ty i. py_split CHR ''/'' (semantic_topic rp pre track) = semantic_prefix pre @ [ty, i] \<and>
     safe_segment ty \<and> safe_segment i"
  using semantic_topic_split object_type_safe object_id_safe by blast

text \<open>
  The identity of an object is the last segment of its key, where \<open>view_key\<close> looks for
  a format: a track whose identity is the name of a format loses it.
\<close>

text \<open>
  An identity that is a format name. Two tracks of one radar with the callsigns RAW
  and JSON get one and the same JSON topic, in which neither identity occurs.
\<close>

theorem format_named_identity_lost:
  "view_key (semantic_topic rp ''EFDI/air/048-010/radar/unknown/aircraft''
       [(''callsign'', VStr ''RAW'')]) ''json'' =
     ''EFDI/air/048-010/radar/unknown/aircraft/unknown/tracks/v1'' \<and>
   view_key (semantic_topic rp ''EFDI/air/048-010/radar/unknown/aircraft''
       [(''callsign'', VStr ''JSON'')]) ''json'' =
     ''EFDI/air/048-010/radar/unknown/aircraft/unknown/tracks/v1''"
proof -
  have "object_id rp [(''callsign'', VStr ''RAW'')] = ''raw''"
    and "object_id rp [(''callsign'', VStr ''JSON'')] = ''json''"
  proof -
    have "slug ''RAW'' = ''raw''" "slug ''JSON'' = ''json''" by code_simp+
    then show "object_id rp [(''callsign'', VStr ''RAW'')] = ''raw''"
      and "object_id rp [(''callsign'', VStr ''JSON'')] = ''json''"
      by (simp_all add: object_id_def id_keys_def dget_def py_str_def not_blank_def)
  qed
  moreover have "object_type [(''callsign'', VStr v)] = ''unknown''" for v
    by (simp add: object_type_def type_keys_def dget_def)
  moreover have "view_key (py_join ''/'' (semantic_prefix ''EFDI/air/048-010/radar/unknown/aircraft'' @
      [''unknown'', x])) ''json'' = ''EFDI/air/048-010/radar/unknown/aircraft/unknown/tracks/v1''"
    if "x \<in> set [''raw'', ''json'']" for x
    using that by (auto; code_simp)
  ultimately show ?thesis by (simp add: semantic_topic_def)
qed

subsection \<open>The source segment\<close>

text \<open>\<open>track.get(k, 0) or 0\<close>.\<close>

definition get_or_zero :: "dict \<Rightarrow> string \<Rightarrow> pyval" where
  "get_or_zero track k = (case dget track k of
     Some v \<Rightarrow> if truthy v then v else VInt 0 | None \<Rightarrow> VInt 0)"

definition asterix_source :: "dict \<Rightarrow> string option" where
  "asterix_source track = do {
     a \<leftarrow> val_0d 3 (get_or_zero track ''sac'');
     b \<leftarrow> val_0d 3 (get_or_zero track ''sic'');
     Some (a @ ''-'' @ b)
   }"

text \<open>\<open>_civil_radars\<close> on the value of the environment variable.\<close>

fun civil_radars_loop :: "string list \<Rightarrow> string list \<Rightarrow> string list option" where
  "civil_radars_loop [] out = Some out"
| "civil_radars_loop (item # items) out =
     (let (sac, sic) = py_partition CHR ''-'' item in
      if py_isdigit sac \<and> py_isdigit sic then do {
        a \<leftarrow> int_of_digits sac;
        b \<leftarrow> int_of_digits sic;
        civil_radars_loop items (List.insert (fmt_0d 3 a @ ''-'' @ fmt_0d 3 b) out)
      } else civil_radars_loop items out)"

definition civil_radars :: "string \<Rightarrow> string list option" where
  "civil_radars env = civil_radars_loop (py_split CHR '','' (filter (\<lambda>c. c \<noteq> CHR '' '') env)) []"

definition radar_site_affil :: "string \<Rightarrow> string \<Rightarrow> string option" where
  "radar_site_affil env source = do {
     civil \<leftarrow> civil_radars env;
     Some (if source \<in> set civil then ''neutral'' else ''friendly'')
   }"

text \<open>A track whose SAC and SIC are octets, as every decoder stores them.\<close>

definition octet_at :: "dict \<Rightarrow> string \<Rightarrow> int \<Rightarrow> bool" where
  "octet_at track k i \<longleftrightarrow> dget track k = Some (VInt i) \<and> 0 \<le> i \<and> i \<le> 255"

lemma get_or_zero_octet: "octet_at track k i \<Longrightarrow> get_or_zero track k = VInt i"
  by (auto simp: octet_at_def get_or_zero_def truthy_def)

lemma asterix_source_octets:
  "octet_at track ''sac'' a \<Longrightarrow> octet_at track ''sic'' b \<Longrightarrow>
     asterix_source track = Some (fmt_pad 10 3 a @ ''-'' @ fmt_pad 10 3 b)"
proof -
  assume a: "octet_at track ''sac'' a" and b: "octet_at track ''sic'' b"
  then have "0 \<le> a" "0 \<le> b" by (simp_all add: octet_at_def)
  with get_or_zero_octet [OF a] get_or_zero_octet [OF b] show ?thesis
    by (simp add: asterix_source_def val_0d_def fmt_0d_def)
qed

lemma append_sep_inj:
  "c \<notin> set p \<Longrightarrow> c \<notin> set q \<Longrightarrow> p @ c # r = q @ c # s \<Longrightarrow> p = q \<and> r = s"
proof (induction p arbitrary: q)
  case (Cons x p)
  then show ?case by (cases q) auto
qed (auto simp: append_eq_Cons_conv Cons_eq_append_conv)

lemma dash_not_digit: "CHR ''-'' \<notin> set (fmt_pad 10 w i)"
  using fmt_pad_digits by (force simp: is_ascii_digit_def)

text \<open>
  Sensors stay apart. Two tracks of sensors with different SAC/SIC codes never get the
  same source segment, so two radars that feed one router stay separable by topic.
\<close>

theorem asterix_source_separates:
  assumes "octet_at s ''sac'' a" and "octet_at s ''sic'' b"
    and "octet_at t ''sac'' c" and "octet_at t ''sic'' d"
  shows "asterix_source s = asterix_source t \<longleftrightarrow> a = c \<and> b = d"
proof -
  have r: "0 \<le> a" "0 \<le> b" "0 \<le> c" "0 \<le> d" using assms by (auto simp: octet_at_def)
  have "a = c \<and> b = d" if "fmt_pad 10 3 a @ ''-'' @ fmt_pad 10 3 b = fmt_pad 10 3 c @ ''-'' @ fmt_pad 10 3 d"
    using append_sep_inj [OF dash_not_digit dash_not_digit] that r fmt_pad_inj [of 10 _ _ 3]
    by simp
  then show ?thesis using assms by (auto simp: asterix_source_octets)
qed

theorem asterix_source_separates_witness:
  "asterix_source [(''sac'', VInt 48), (''sic'', VInt 10)] \<noteq>
   asterix_source [(''sac'', VInt 48), (''sic'', VInt 11)]"
proof -
  have "octet_at [(''sac'', VInt 48), (''sic'', VInt i)] ''sac'' 48"
    and "0 \<le> i \<Longrightarrow> i \<le> 255 \<Longrightarrow> octet_at [(''sac'', VInt 48), (''sic'', VInt i)] ''sic'' i" for i
    by (simp_all add: octet_at_def dget_def)
  then show ?thesis by (subst asterix_source_separates [of _ 48 10 _ 48 11]) auto
qed

end
