(* ===== verification/Asterix_ModeS.thy ===== *)
theory Asterix_ModeS
  imports Py_Text
begin

text \<open>
  The Mode S and Mode C leaf decoders: the six-bit aircraft identification, the Comm-B
  registers 1,0 1,7 3,0 4,0 5,0 and 6,0 of item I048/250, and the Gillham code of item
  I048/100. The lemmas give the identification's round trip against an encoder, and the
  Gillham code's range and injectivity.
\<close>

subsection \<open>Aircraft identification\<close>

text \<open>
  \<open>CHARSET_6BIT\<close>: codes 0-31 are ASCII 64-95, codes 32-63 are themselves.
\<close>

definition charset_6bit :: "int \<Rightarrow> char" where
  "charset_6bit i = (if i < 32 then char_of (64 + i) else char_of i)"

definition decode_callsign :: "bytes \<Rightarrow> string" where
  "decode_callsign raw =
     (let bs = from_bytes_big raw
      in py_strip (map (\<lambda>i. charset_6bit (drop_bit (i * 6) bs AND 63)) [7, 6, 5, 4, 3, 2, 1, 0]))"

subsection \<open>Comm-B registers\<close>

text \<open>
  Bits are numbered from 1, the most significant of the 56: \<open>_bit(n)\<close>, \<open>_uns(a, b)\<close>
  and \<open>_sgn(a, b)\<close> of the sources, on \<open>v = int.from_bytes(mb[:7], "big")\<close>.
\<close>

definition mb_value :: "bytes \<Rightarrow> int" where
  "mb_value mb = from_bytes_big (take 7 mb)"

definition mb_bit :: "int \<Rightarrow> nat \<Rightarrow> bool" where
  "mb_bit v n \<longleftrightarrow> drop_bit (56 - n) v AND 1 \<noteq> 0"

definition mb_uns :: "int \<Rightarrow> nat \<Rightarrow> nat \<Rightarrow> int" where
  "mb_uns v a b = drop_bit (56 - b) v AND (push_bit (b - a + 1) 1 - 1)"

definition mb_sgn :: "int \<Rightarrow> nat \<Rightarrow> nat \<Rightarrow> int" where
  "mb_sgn v a b = (let w = b - a + 1; r = mb_uns v a b
     in if r \<ge> push_bit (w - 1) 1 then r - push_bit w 1 else r)"

definition decode_bds50 :: "bytes \<Rightarrow> dict" where
  "decode_bds50 mb = (let v = mb_value mb in puts [] (
     onlyif (mb_bit v 1) [(''roll_deg'', VFloat (py_round (of_int (mb_sgn v 2 11) * 45 / 256) 1))] @
     onlyif (mb_bit v 12) [(''true_track_deg'', VFloat (py_round (of_int (mb_uns v 13 23) * 360 / 2048) 2))] @
     onlyif (mb_bit v 24) [(''bds_gs_kt'', VFloat (py_round (of_int (mb_uns v 25 34) * 2) 0))] @
     onlyif (mb_bit v 35) [(''track_rate_degs'', VFloat (py_round (of_int (mb_sgn v 36 45) * 8 / 256) 2))] @
     onlyif (mb_bit v 46) [(''tas_kt'', VFloat (py_round (of_int (mb_uns v 47 56) * 2) 0))]))"

definition decode_bds60 :: "bytes \<Rightarrow> dict" where
  "decode_bds60 mb = (let v = mb_value mb in puts [] (
     onlyif (mb_bit v 1) [(''mag_hdg_deg'', VFloat (py_round (of_int (mb_uns v 2 12) * 360 / 2048) 2))] @
     onlyif (mb_bit v 13) [(''ias_kt'', VInt (mb_uns v 14 23))] @
     onlyif (mb_bit v 24) [(''mach'', VFloat (py_round (of_int (mb_uns v 25 34) * 2.048 / 512) 3))] @
     onlyif (mb_bit v 35) [(''baro_vr_fpm'', VInt (mb_sgn v 36 45 * 32))] @
     onlyif (mb_bit v 46) [(''ivv_fpm'', VInt (mb_sgn v 47 56 * 32))]))"

definition decode_bds40 :: "bytes \<Rightarrow> dict" where
  "decode_bds40 mb = (let v = mb_value mb in puts [] (
     onlyif (mb_bit v 1) [(''sel_alt_mcp_ft'', VInt (mb_uns v 2 13 * 16))] @
     onlyif (mb_bit v 14) [(''sel_alt_fms_ft'', VInt (mb_uns v 15 26 * 16))] @
     onlyif (mb_bit v 27) [(''baro_setting_mb'', VFloat (py_round (of_int (mb_uns v 28 39) * 0.1 + 800) 1))] @
     onlyif (mb_bit v 48) (
       onlyif (mb_bit v 49) [(''vnav_active'', VBool True)] @
       onlyif (mb_bit v 50) [(''alt_hold'', VBool True)] @
       onlyif (mb_bit v 51) [(''approach_mode'', VBool True)])))"

definition decode_bds10 :: "bytes \<Rightarrow> dict" where
  "decode_bds10 mb = (let v = mb_value mb in [
     (''dlc_continuation_flag'', VBool (mb_bit v 9)),
     (''overlay_command_capability'', VBool (mb_bit v 15)),
     (''acas_operational'', VBool (mb_bit v 16)),
     (''mode_s_subnetwork_version'', VInt (mb_uns v 17 23)),
     (''transponder_level5'', VBool (mb_bit v 24)),
     (''mode_s_specific_services'', VBool (mb_bit v 25)),
     (''uplink_elm_throughput'', VInt (mb_uns v 26 28)),
     (''downlink_elm_throughput'', VInt (mb_uns v 29 32)),
     (''aircraft_id_capability'', VBool (mb_bit v 33)),
     (''squitter_capability'', VBool (mb_bit v 34)),
     (''surveillance_id_capability'', VBool (mb_bit v 35)),
     (''common_usage_gicb_capability'', VBool (mb_bit v 36)),
     (''acas_hybrid_surveillance'', VBool (mb_bit v 37)),
     (''acas_resolution_advisory'', VBool (mb_bit v 38)),
     (''acas_rtca_version'', VInt (mb_uns v 39 40)),
     (''dte_status'', VInt (mb_uns v 41 56))])"

definition bds17_capability :: "string list" where
  "bds17_capability = [
     ''0,5'', ''0,6'', ''0,7'', ''0,8'', ''0,9'', ''0,A'', ''2,0'', ''2,1'',
     ''4,0'', ''4,1'', ''4,2'', ''4,3'', ''4,4'', ''4,5'', ''4,8'', ''5,0'',
     ''5,1'', ''5,2'', ''5,3'', ''5,4'', ''5,5'', ''5,6'', ''5,F'', ''6,0'']"

definition decode_bds17 :: "bytes \<Rightarrow> dict" where
  "decode_bds17 mb = (let v = mb_value mb in
     [(''supported_bds'', VList (map (\<lambda>(i, code). VStr code)
        (filter (\<lambda>(i, code). drop_bit (56 - (i + 1)) v AND 1 \<noteq> 0)
           (List.enumerate 0 bds17_capability))))])"

definition decode_bds30 :: "bytes \<Rightarrow> dict" where
  "decode_bds30 mb =
     (if length mb < 7 then []
      else let v = mb_value mb in
        if \<not> mb_bit v 9 then []
        else puts [(''acas_ra_active'', VBool True), (''acas_ra_hex'', VStr (fmt_pad 16 14 v))] (
          onlyif (mb_bit v 10) [
            (''acas_ra_sense'', VStr (if mb_bit v 11 then ''DESCEND'' else ''CLIMB'')),
            (''acas_ra_corrective'', VBool True)] @
          [(''acas_ra_terminated'', VBool (mb_bit v 27)),
           (''acas_multi_threat'', VBool (mb_bit v 28))]))"

subsection \<open>Gillham altitude\<close>

text \<open>\<open>_gray_fold\<close>: reflected Gray code to binary, most significant bit first.\<close>

definition gray_next :: "int \<times> int \<Rightarrow> int \<Rightarrow> int \<times> int" where
  "gray_next s b = (case s of (out, acc) \<Rightarrow> let acc' = acc XOR b in (push_bit 1 out OR acc', acc'))"

definition gray_fold :: "int list \<Rightarrow> int" where
  "gray_fold bs = fst (foldl gray_next (0, 0) bs)"

definition bit_of :: "int \<Rightarrow> nat \<Rightarrow> int" where
  "bit_of code n = drop_bit n code AND 1"

definition gillham_to_ft :: "int \<Rightarrow> int option" where
  "gillham_to_ft code =
     (let v = bit_of code 15; g = bit_of code 14 in
      if v \<noteq> 0 \<or> g \<noteq> 0 then None
      else let
        c1 = bit_of code 11; a1 = bit_of code 10; c2 = bit_of code 9; a2 = bit_of code 8;
        c4 = bit_of code 7; a4 = bit_of code 6; b1 = bit_of code 5; d1 = bit_of code 4;
        b2 = bit_of code 3; d2 = bit_of code 2; b4 = bit_of code 1; d4 = bit_of code 0
      in if d1 \<noteq> 0 then None
      else let n_c = gray_fold [c1, c2, c4] in
        if n_c \<in> set [0, 5, 6] then None
        else let
          n_c = (if n_c = 7 then 5 else n_c);
          n500 = gray_fold [d2, d4, a1, a2, a4, b1, b2, b4];
          n_c = (if n500 mod 2 \<noteq> 0 then 6 - n_c else n_c)
        in Some (n500 * 500 + n_c * 100 - 1300))"

lemma xor_bits: "a \<in> {0, 1} \<Longrightarrow> b \<in> {0, 1} \<Longrightarrow> a XOR b \<in> {0, 1 :: int}"
  by auto

lemma xor_bits_cancel:
  "a \<in> {0, 1} \<Longrightarrow> b \<in> {0, 1} \<Longrightarrow> c \<in> {0, 1} \<Longrightarrow> a XOR b = a XOR c \<Longrightarrow> b = (c :: int)"
  by auto

lemma gray_next_bits:
  assumes "acc \<in> {0, 1}" and "b \<in> {0, 1}"
  shows "gray_next (out, acc) b = (2 * out + (acc XOR b), acc XOR b)"
  using xor_bits [OF assms] by (auto simp: gray_next_def Let_def push_bit_eq_mult or_one_eq)

lemma gray_foldl_bounds:
  assumes "set bs \<subseteq> {0, 1}" and "acc \<in> {0, 1}"
  shows "out * 2 ^ length bs \<le> fst (foldl gray_next (out, acc) bs) \<and>
    fst (foldl gray_next (out, acc) bs) < (out + 1) * 2 ^ length bs"
  using assms
proof (induction bs arbitrary: out acc)
  case (Cons b bs)
  from Cons.prems have x: "acc XOR b \<in> {0, 1}" using xor_bits by simp
  have nx: "gray_next (out, acc) b = (2 * out + (acc XOR b), acc XOR b)"
    using Cons.prems by (intro gray_next_bits) simp_all
  have lo: "out * 2 ^ length (b # bs) \<le> (2 * out + (acc XOR b)) * 2 ^ length bs"
    and up: "((2 * out + (acc XOR b)) + 1) * 2 ^ length bs \<le> (out + 1) * 2 ^ length (b # bs)"
    using x by (auto simp: algebra_simps)
  have "set bs \<subseteq> {0, 1}" using Cons.prems by simp
  from Cons.IH [OF this x, of "2 * out + (acc XOR b)"] show ?case
    unfolding foldl.simps nx by (meson lo up order_trans less_le_trans)
qed simp

lemma gray_foldl_inj:
  assumes "length xs = length ys" and "set xs \<subseteq> {0, 1}" and "set ys \<subseteq> {0, 1}" and "acc \<in> {0, 1}"
    and "fst (foldl gray_next (out, acc) xs) =
      fst (foldl gray_next (out, acc) ys)"
  shows "xs = ys"
  using assms
proof (induction xs ys arbitrary: out acc rule: list_induct2)
  case (Cons x xs y ys)
  let ?x = "acc XOR x" and ?y = "acc XOR y"
  from Cons.prems have b: "?x \<in> {0, 1}" "?y \<in> {0, 1}" using xor_bits by simp_all
  let ?F = "\<lambda>o' a bs. fst (foldl gray_next (o', a) bs)"
  have eq: "?F (2 * out + ?x) ?x xs = ?F (2 * out + ?y) ?y ys"
    using Cons.prems by (simp add: gray_next_bits)
  have cancel: "m < n + 1" if "m * 2 ^ k \<le> z" "z < (n + 1) * 2 ^ k" for m n z :: int and k :: nat
    using le_less_trans [OF that] by simp
  have sub: "set xs \<subseteq> {0, 1}" "set ys \<subseteq> {0, 1}" using Cons.prems by simp_all
  note bx = gray_foldl_bounds [OF sub(1) b(1), of "2 * out + ?x"]
  note by' = gray_foldl_bounds [OF sub(2) b(2), of "2 * out + ?y", folded eq Cons.hyps]
  have "2 * out + ?x < 2 * out + ?y + 1" "2 * out + ?y < 2 * out + ?x + 1"
    using cancel [OF conjunct1 [OF bx] conjunct2 [OF by']] cancel [OF conjunct1 [OF by'] conjunct2 [OF bx]] .
  then have "?x = ?y" by simp
  with eq have "?F (2 * out + ?x) ?x xs = ?F (2 * out + ?x) ?x ys" by simp
  then have "xs = ys" by (rule Cons.IH [OF sub b(1)])
  moreover have m: "acc \<in> {0, 1}" "x \<in> {0, 1}" "y \<in> {0, 1}" using Cons.prems by simp_all
  have "x = y" by (rule xor_bits_cancel [OF m \<open>?x = ?y\<close>])
  ultimately show ?case by simp
qed simp

lemma gray_fold_bounds: "set bs \<subseteq> {0, 1} \<Longrightarrow> 0 \<le> gray_fold bs \<and> gray_fold bs < 2 ^ length bs"
  using gray_foldl_bounds [of bs 0 0] by (simp add: gray_fold_def)

lemma gray_fold_inj:
  "length xs = length ys \<Longrightarrow> set xs \<subseteq> {0, 1} \<Longrightarrow> set ys \<subseteq> {0, 1} \<Longrightarrow> gray_fold xs = gray_fold ys \<Longrightarrow> xs = ys"
  using gray_foldl_inj [of xs ys 0 0] by (simp add: gray_fold_def)

lemma bit_of_cases: "bit_of code n \<in> {0, 1}"
  by (auto simp: bit_of_def and_one_eq)

lemma bit_of_bit: "bit_of code n = of_bool (bit code n)"
  by (simp add: bit_of_def bit_iff_and_drop_bit_eq_1 and_one_eq odd_iff_mod_2_eq_one)

text \<open>The hundreds group after the remap and the mirror: one of 1 to 5.\<close>

definition gillham_hundreds :: "int \<Rightarrow> int \<Rightarrow> int" where
  "gillham_hundreds n_c n500 = (let n = (if n_c = 7 then 5 else n_c) in if n500 mod 2 \<noteq> 0 then 6 - n else n)"

lemma gillham_to_ftD:
  assumes "gillham_to_ft code = Some h"
  obtains n_c n500 where
    "n_c = gray_fold [bit_of code 11, bit_of code 9, bit_of code 7]"
    "n500 = gray_fold [bit_of code 2, bit_of code 0, bit_of code 10, bit_of code 8, bit_of code 6,
       bit_of code 5, bit_of code 3, bit_of code 1]"
    "h = n500 * 500 + gillham_hundreds n_c n500 * 100 - 1300"
    "n_c \<in> {1, 2, 3, 4, 7}" "0 \<le> n500" "n500 < 256" "bit_of code 4 = 0"
proof
  let ?c = "gray_fold [bit_of code 11, bit_of code 9, bit_of code 7]"
  let ?n = "gray_fold [bit_of code 2, bit_of code 0, bit_of code 10, bit_of code 8, bit_of code 6,
    bit_of code 5, bit_of code 3, bit_of code 1]"
  have "0 \<le> ?c \<and> ?c < 8" using gray_fold_bounds [of "[bit_of code 11, bit_of code 9, bit_of code 7]"] bit_of_cases by simp
  then show "?c \<in> {1, 2, 3, 4, 7}" using assms by (auto simp: gillham_to_ft_def Let_def split: if_splits)
  show "0 \<le> ?n" "?n < 256"
    using gray_fold_bounds [of "[bit_of code 2, bit_of code 0, bit_of code 10, bit_of code 8, bit_of code 6,
      bit_of code 5, bit_of code 3, bit_of code 1]"] bit_of_cases by simp_all
  show "h = ?n * 500 + gillham_hundreds ?c ?n * 100 - 1300" "bit_of code 4 = 0"
    using assms by (auto simp: gillham_to_ft_def gillham_hundreds_def Let_def split: if_splits)
qed simp_all

lemma gillham_hundreds_range: "n_c \<in> {1, 2, 3, 4, 7} \<Longrightarrow> 1 \<le> gillham_hundreds n_c n \<and> gillham_hundreds n_c n \<le> 5"
  by (auto simp: gillham_hundreds_def Let_def)

lemma gillham_hundreds_inj:
  "x \<in> {1, 2, 3, 4, 7} \<Longrightarrow> y \<in> {1, 2, 3, 4, 7} \<Longrightarrow> gillham_hundreds x n = gillham_hundreds y n \<Longrightarrow> x = y"
  by (auto simp: gillham_hundreds_def Let_def split: if_splits)

lemma gillham_pulses:
  assumes "gillham_to_ft x = Some h" and "gillham_to_ft y = Some h" and "i < 12"
  shows "bit_of x i = bit_of y i"
proof -
  obtain cx nx where x: "cx = gray_fold [bit_of x 11, bit_of x 9, bit_of x 7]"
    "nx = gray_fold [bit_of x 2, bit_of x 0, bit_of x 10, bit_of x 8, bit_of x 6, bit_of x 5, bit_of x 3, bit_of x 1]"
    "h = nx * 500 + gillham_hundreds cx nx * 100 - 1300" "cx \<in> {1, 2, 3, 4, 7}" "bit_of x 4 = 0"
    using gillham_to_ftD [OF assms(1)] by metis
  obtain cy ny where y: "cy = gray_fold [bit_of y 11, bit_of y 9, bit_of y 7]"
    "ny = gray_fold [bit_of y 2, bit_of y 0, bit_of y 10, bit_of y 8, bit_of y 6, bit_of y 5, bit_of y 3, bit_of y 1]"
    "h = ny * 500 + gillham_hundreds cy ny * 100 - 1300" "cy \<in> {1, 2, 3, 4, 7}" "bit_of y 4 = 0"
    using gillham_to_ftD [OF assms(2)] by metis
  have arith: "a = b" if "a * 500 + p * 100 - 1300 = b * 500 + q * 100 - (1300 :: int)"
    "1 \<le> p \<and> p \<le> 5" "1 \<le> q \<and> q \<le> 5" for a b p q
    using that by linarith
  have n: "nx = ny"
    by (rule arith [OF trans [OF x(3) [symmetric] y(3)] gillham_hundreds_range [OF x(4)] gillham_hundreds_range [OF y(4)]])
  with x(3) y(3) have "gillham_hundreds cx nx = gillham_hundreds cy nx" by simp
  then have c: "cx = cy" by (rule gillham_hundreds_inj [OF x(4) y(4)])
  have "[bit_of x 11, bit_of x 9, bit_of x 7] = [bit_of y 11, bit_of y 9, bit_of y 7]"
    using c x(1) y(1) bit_of_cases by (intro gray_fold_inj) simp_all
  moreover have "[bit_of x 2, bit_of x 0, bit_of x 10, bit_of x 8, bit_of x 6, bit_of x 5, bit_of x 3, bit_of x 1] =
      [bit_of y 2, bit_of y 0, bit_of y 10, bit_of y 8, bit_of y 6, bit_of y 5, bit_of y 3, bit_of y 1]"
    using n x(2) y(2) bit_of_cases by (intro gray_fold_inj) simp_all
  ultimately have "\<forall>j \<in> set [0, 1, 2, 3, 4, 5, 6, 7, 8, 9, 10, 11]. bit_of x j = bit_of y j"
    using x(5) y(5) by simp
  moreover have "i \<in> set [0, 1, 2, 3, 4, 5, 6, 7, 8, 9, 10, 11]"
    using assms(3) by (auto simp: less_Suc_eq eval_nat_numeral)
  ultimately show ?thesis by blast
qed

lemma gray_fold_surj:
  assumes "0 \<le> m" and "m < 2 ^ n"
  obtains bs where "length bs = n" "set bs \<subseteq> {0, 1}" "gray_fold bs = m"
proof -
  let ?B = "{bs. set bs \<subseteq> {0, 1 :: int} \<and> length bs = n}"
  have inj: "inj_on gray_fold ?B" by (rule inj_onI) (auto intro: gray_fold_inj)
  have sub: "gray_fold ` ?B \<subseteq> {0..<2 ^ n}" using gray_fold_bounds by force
  have "card (gray_fold ` ?B) = 2 ^ n"
    using card_image [OF inj] card_lists_length_eq [of "{0, 1 :: int}" n] by (simp add: numeral_2_eq_2)
  then have "gray_fold ` ?B = {0..<2 ^ n}"
    using sub by (intro card_subset_eq) simp_all
  with assms have "m \<in> gray_fold ` ?B" by simp
  with that show thesis by auto
qed

lemma gillham_hundreds_surj:
  assumes "1 \<le> k" and "k \<le> 5"
  obtains n_c where "n_c \<in> {1, 2, 3, 4, 7}" "gillham_hundreds n_c n = k"
proof -
  from assms have "k \<in> {1, 2, 3, 4, 5}" by auto
  moreover have "gillham_hundreds (if n mod 2 = 0 then (if k = 5 then 7 else k) else if k = 1 then 7 else 6 - k) n = k"
    and "(if n mod 2 = 0 then (if k = 5 then 7 else k) else if k = 1 then 7 else 6 - k) \<in> {1, 2, 3, 4, 7}"
    using calculation by (auto simp: gillham_hundreds_def)
  ultimately show thesis using that by blast
qed

lemma gillham_code_exists:
  assumes "-1200 \<le> h" and "h \<le> 126700" and "h mod 100 = 0"
  obtains code where "0 \<le> code" "code < 4096" "gillham_to_ft code = Some h"
proof -
  define m where "m = (h + 1200) div 100"
  define k where "k = m mod 5 + 1"
  define n where "n = (h + 1200) div 500"
  have "(h + 1200) mod 100 = 0" using assms(3) mod_mult_self1 [of h 12 100] by simp
  then have m: "h + 1200 = 100 * m" using div_mult_mod_eq [of "h + 1200" 100] unfolding m_def by linarith
  have "n = m div 5" using zdiv_zmult2_eq [of 5 "h + 1200" 100] by (simp add: n_def m_def)
  then have "n * 5 + (k - 1) = m" by (simp add: k_def)
  with m have h: "h = n * 500 + k * 100 - 1300" by linarith
  have k: "1 \<le> k" "k \<le> 5" unfolding k_def by (simp_all add: add1_zle_eq)
  have n: "0 \<le> n" "n < 2 ^ 8" using assms(1,2) unfolding n_def by simp_all
  obtain n_c where n_c: "n_c \<in> {1, 2, 3, 4, 7}" "gillham_hundreds n_c n = k"
    using gillham_hundreds_surj [OF k] .
  have "0 \<le> n_c" "n_c < 2 ^ 3" using n_c(1) by auto
  then obtain cs where cs: "length cs = 3" "set cs \<subseteq> {0, 1}" "gray_fold cs = n_c"
    using gray_fold_surj by blast
  obtain ns where ns: "length ns = 8" "set ns \<subseteq> {0, 1}" "gray_fold ns = n"
    using gray_fold_surj [OF n] by blast
  from cs(1) obtain c1 c2 c4 where c: "cs = [c1, c2, c4]" by (auto simp: numeral_3_eq_3 length_Suc_conv)
  from ns(1) obtain d2 d4 a1 a2 a4 b1 b2 b4 where b: "ns = [d2, d4, a1, a2, a4, b1, b2, b4]"
    by (auto simp: numeral_eq_Suc length_Suc_conv)
  define bs where "bs = map (\<lambda>x. x = (1::int)) [d4, b4, d2, b2, 0, b1, a4, c4, a2, c2, a1, c1]"
  define code :: int where "code = horner_sum of_bool 2 bs"
  have len: "length bs = 12" by (simp add: bs_def)
  then have bit: "bit_of code i = of_bool (i < 12 \<and> bs ! i)" for i
    unfolding bit_of_bit code_def by (simp add: bit_horner_sum_bit_iff)
  have "0 \<le> code" unfolding code_def by (rule horner_sum_nonnegative)
  moreover have "code < 4096"
    unfolding code_def using horner_sum_of_bool_2_less [of bs] len by simp
  moreover have "gillham_to_ft code = Some h"
  proof -
    have ob: "of_bool (x = 1) = x" if "x \<in> {0, 1}" for x :: int using that by auto
    have "bit_of code 11 = c1" "bit_of code 10 = a1" "bit_of code 9 = c2" "bit_of code 8 = a2"
      "bit_of code 7 = c4" "bit_of code 6 = a4" "bit_of code 5 = b1" "bit_of code 4 = 0"
      "bit_of code 3 = b2" "bit_of code 2 = d2" "bit_of code 1 = b4" "bit_of code 0 = d4"
      "bit_of code 15 = 0" "bit_of code 14 = 0"
      using cs(2) ns(2) unfolding c b bit bs_def by (simp_all add: ob)
    moreover have "n_c \<notin> set [0, 5, 6]" using n_c(1) by auto
    ultimately show ?thesis
      using cs(3) ns(3) n_c(2) unfolding c b h
      by (auto simp: gillham_to_ft_def gillham_hundreds_def Let_def split: if_splits)
  qed
  ultimately show thesis using that by blast
qed

subsection \<open>Aircraft identification against its encoding\<close>

text \<open>
  ICAO Annex 10 codes an identification as the low six bits of each character's ASCII
  code, most significant character first.
\<close>

definition ia5_code :: "char \<Rightarrow> int" where
  "ia5_code c = of_char c mod 64"

definition ia5_char :: "char \<Rightarrow> bool" where
  "ia5_char c \<longleftrightarrow> 32 \<le> (of_char c :: nat) \<and> (of_char c :: nat) < 96"

definition ia5_value :: "string \<Rightarrow> int" where
  "ia5_value s = foldl (\<lambda>acc c. acc * 64 + ia5_code c) 0 s"

lemma charset_ia5: "ia5_char c \<Longrightarrow> charset_6bit (ia5_code c) = c"
proof -
  assume c: "ia5_char c"
  define n where "n = (of_char c :: nat)"
  have "(of_char c :: int) = int n" by (simp add: n_def of_nat_of_char)
  then have code: "ia5_code c = int n mod 64" by (simp add: ia5_code_def)
  have n: "32 \<le> n" "n < 96" using c by (simp_all add: ia5_char_def n_def)
  have "charset_6bit (ia5_code c) = char_of n"
  proof (cases "n < 64")
    case True
    then have "ia5_code c = int n" by (simp add: code)
    with True n show ?thesis by (simp add: charset_6bit_def)
  next
    case False
    have "int n mod 64 = int n - 64"
      using n False mod_pos_pos_trivial [of "int n - 64" 64] mod_add_self2 [of "int n - 64" 64] by simp
    then have "ia5_code c = int n - 64" by (simp add: code)
    moreover have "64 + (int n - 64) = int n" by simp
    ultimately show ?thesis unfolding charset_6bit_def using n by (simp only: char_of_nat) auto
  qed
  then show ?thesis by (simp add: n_def)
qed

lemma ia5_code_range: "0 \<le> ia5_code c \<and> ia5_code c < 64"
  by (simp add: ia5_code_def)

lemma sextet: "0 \<le> k \<Longrightarrow> k < 64 \<Longrightarrow> (v * 64 + k) AND 63 = (k :: int)"
  using take_bit_eq_mask [of 6 "v * 64 + k"] by (simp add: take_bit_eq_mod mask_eq_exp_minus_1)

lemma sextet_shift: "0 \<le> k \<Longrightarrow> k < 64 \<Longrightarrow> drop_bit (n + 6) (v * 64 + k) = drop_bit n (v :: int)"
  by (simp add: drop_bit_eq_div power_add zdiv_zmult2_eq mult.commute [of _ 64])

lemma ia5_value_snoc: "ia5_value (s @ [c]) = ia5_value s * 64 + ia5_code c"
  by (simp add: ia5_value_def)

lemma ia5_value_sextet:
  "i < length s \<Longrightarrow> drop_bit (i * 6) (ia5_value s) AND 63 = ia5_code (rev s ! i)"
proof (induction s arbitrary: i rule: rev_induct)
  case (snoc c s)
  note k = ia5_code_range [of c]
  show ?case
  proof (cases i)
    case 0
    with k show ?thesis by (simp add: ia5_value_snoc sextet)
  next
    case (Suc j)
    have "drop_bit (j * 6 + 6) (ia5_value s * 64 + ia5_code c) = drop_bit (j * 6) (ia5_value s)"
      using k by (simp add: sextet_shift)
    with Suc snoc show ?thesis by (simp add: ia5_value_snoc add.commute)
  qed
qed simp

lemma callsign_sextets:
  assumes "length s = 8" and "list_all ia5_char s"
  shows "map (\<lambda>i. charset_6bit (drop_bit (i * 6) (ia5_value s) AND 63)) [7, 6, 5, 4, 3, 2, 1, 0] = s"
proof -
  have idx: "[7, 6, 5, 4, 3, 2, 1, 0] = rev [0..<8]" by (simp add: upt_rec)
  have "charset_6bit (drop_bit (i * 6) (ia5_value s) AND 63) = rev s ! i" if "i < 8" for i
    using that assms ia5_value_sextet [of i s] charset_ia5 [of "rev s ! i"]
    by (simp add: list_all_length rev_nth)
  then have "map (\<lambda>i. charset_6bit (drop_bit (i * 6) (ia5_value s) AND 63)) (rev [0..<8]) =
      map (nth (rev s)) (rev [0..<8])"
    by (intro map_cong) auto
  also have "\<dots> = rev (map (nth (rev s)) [0..<length (rev s)])"
    using assms(1) by (simp add: rev_map)
  also have "\<dots> = s" by (simp only: map_nth rev_rev_ident)
  finally show ?thesis unfolding idx .
qed

subsection \<open>Properties\<close>

text \<open>An aircraft identification coded as ICAO Annex 10 prescribes is read back as it
  was written, without its padding: on six octets that hold the 48-bit coding of eight
  permitted characters, \<open>decode_callsign\<close> returns those characters, stripped.\<close>

theorem decode_callsign_roundtrip:
  "length s = 8 \<Longrightarrow> list_all ia5_char s \<Longrightarrow> from_bytes_big raw = ia5_value s \<Longrightarrow>
     decode_callsign raw = py_strip s"
  by (simp only: decode_callsign_def Let_def callsign_sextets)

lemma decode_callsign_roundtrip_witness:
  "decode_callsign [49, 144, 113, 200, 40, 32] = py_strip ''LYA12B  ''"
  by (rule decode_callsign_roundtrip) code_simp+

text \<open>An altitude decoded from a Gillham code is a multiple of 100 ft between -1200 and
  126700 ft.\<close>

theorem gillham_to_ft_range:
  assumes "gillham_to_ft code = Some h"
  shows "-1200 \<le> h \<and> h \<le> 126700 \<and> h mod 100 = 0"
proof -
  obtain n_c n500 where h: "h = n500 * 500 + gillham_hundreds n_c n500 * 100 - 1300"
    and r: "n_c \<in> {1, 2, 3, 4, 7}" "0 \<le> n500" "n500 < 256"
    using gillham_to_ftD [OF assms] by metis
  have "h = 100 * (n500 * 5 + gillham_hundreds n_c n500 - 13)" using h by simp
  then show ?thesis using gillham_hundreds_range [OF r(1), of n500] r by simp
qed

lemma gillham_to_ft_range_witness: "gillham_to_ft 1633 = Some 35000 \<and> (35000 :: int) mod 100 = 0"
proof -
  have h: "gillham_to_ft 1633 = Some 35000" by code_simp
  from h gillham_to_ft_range [OF h] show ?thesis by simp
qed

text \<open>The Mode C altitudes are coded without ambiguity: every multiple of 100 ft from
  -1200 to 126700 ft has exactly one 12-bit pulse pattern that decodes to it.\<close>

theorem gillham_to_ft_unique_code:
  assumes "-1200 \<le> h" and "h \<le> 126700" and "h mod 100 = 0"
  shows "\<exists>!code. 0 \<le> code \<and> code < 4096 \<and> gillham_to_ft code = Some h"
proof -
  obtain code where code: "0 \<le> code" "code < 4096" "gillham_to_ft code = Some h"
    using gillham_code_exists [OF assms] .
  have "x = code" if x: "0 \<le> x" "x < 4096" "gillham_to_ft x = Some h" for x
  proof -
    have bits: "bit x i = bit code i" if "i < 12" for i
      using gillham_pulses [OF x(3) code(3) that] by (simp only: bit_of_bit of_bool_eq_iff)
    have "take_bit 12 x = take_bit 12 code"
      by (rule bit_eqI) (auto simp: bit_take_bit_iff bits)
    moreover have "take_bit 12 x = x" "take_bit 12 code = code"
      using x code by (simp_all add: take_bit_int_eq_self)
    ultimately show ?thesis by simp
  qed
  with code show ?thesis by blast
qed

lemma gillham_to_ft_unique_code_witness:
  "\<exists>!code. 0 \<le> code \<and> code < 4096 \<and> gillham_to_ft code = Some 11300"
  by (rule gillham_to_ft_unique_code) simp_all

end
