(* ===== verification/Asterix_Items.thy ===== *)
theory Asterix_Items
  imports Asterix_ModeS
begin

text \<open>
  What the ASTERIX category decoders share: the field specification and the compound
  presence maps, the length-prefixed extension fields, the loop over the present items
  and its control flow, the Comm-B registers, aircraft identifications and Gillham
  altitudes, and the loop of the handlers over the records of a block.

  Two locales state the contracts. \<open>item_loop\<close>: an item step that never raises and
  moves the cursor forward inside the block makes a record decoder that does so.
  \<open>record_decoder\<close>: a record decoder that also consumes something makes a handler that
  terminates and cuts the block into consecutive records.
\<close>

subsection \<open>Field specification\<close>

definition fspec_octet :: "int \<Rightarrow> bool list" where
  "fspec_octet byte = map (\<lambda>shift. bits byte (2 ^ shift)) [7, 6, 5, 4, 3, 2, 1]"

text \<open>\<open>parse_fspec\<close>: the presence bits and the position after them.\<close>

function parse_fspec_loop :: "bytes \<Rightarrow> nat \<Rightarrow> bool list \<Rightarrow> (bool list \<times> nat) option" where
  "parse_fspec_loop data pos acc =
     (if pos < length data then do {
        byte \<leftarrow> byte_at data pos;
        (if \<not> bits byte 1 then Some (acc @ fspec_octet byte, pos + 1)
         else parse_fspec_loop data (pos + 1) (acc @ fspec_octet byte))
      } else Some (acc, pos))"
  by pat_completeness auto
termination
  by (relation "measure (\<lambda>(d, pos, acc). length d - pos)") auto

declare parse_fspec_loop.simps [simp del]

definition parse_fspec :: "bytes \<Rightarrow> nat \<Rightarrow> (bool list \<times> nat) option" where
  "parse_fspec data pos = parse_fspec_loop data pos []"

text \<open>\<open>skip_len_field\<close>: over an RE or SP field, whose length counts its own octet.\<close>

definition skip_len_field :: "bytes \<Rightarrow> nat \<Rightarrow> nat option" where
  "skip_len_field data pos =
     (if pos \<ge> length data then Some (length data)
      else do {
        len \<leftarrow> byte_at data pos;
        Some (if len < 1 \<or> pos + nat len > length data then length data else pos + nat len)
      })"

text \<open>\<open>compound_presence\<close>: \<open>Inl ()\<close> is the \<open>ValueError\<close> of a truncated map.\<close>

function compound_presence_loop :: "bytes \<Rightarrow> nat \<Rightarrow> bool list \<Rightarrow> unit + (bool list \<times> nat)" where
  "compound_presence_loop data pos present =
     (case byte_at data pos of
        None \<Rightarrow> Inl ()
      | Some byte \<Rightarrow>
          if \<not> bits byte 1 then Inr (present @ fspec_octet byte, pos + 1)
          else compound_presence_loop data (pos + 1) (present @ fspec_octet byte))"
  by pat_completeness auto
termination
  by (relation "measure (\<lambda>(d, pos, acc). length d - pos)") (auto dest: byte_at_SomeD)

declare compound_presence_loop.simps [simp del]

definition compound_presence :: "bytes \<Rightarrow> nat \<Rightarrow> unit + (bool list \<times> nat)" where
  "compound_presence data pos = compound_presence_loop data pos []"

lemma length_fspec_octet [simp]: "length (fspec_octet b) = 7"
  by (simp add: fspec_octet_def)

lemma parse_fspec_loop_moves:
  "pos \<le> length data \<Longrightarrow> \<exists>fs p. parse_fspec_loop data pos acc = Some (fs, p) \<and>
     pos \<le> p \<and> p \<le> length data \<and> (pos < length data \<longrightarrow> pos < p) \<and> length fs = length acc + 7 * (p - pos)"
proof (induction data pos acc rule: parse_fspec_loop.induct)
  case (1 data pos acc)
  show ?case
  proof (cases "pos < length data")
    case True
    have rd: "byte_at data pos = Some (uint (data ! pos))" using True by (rule byte_at_in_range)
    show ?thesis
    proof (cases "bits (uint (data ! pos)) 1")
      case more: True
      from "1.IH" [OF True rd] more True obtain fs p where
        "parse_fspec_loop data (pos + 1) (acc @ fspec_octet (uint (data ! pos))) = Some (fs, p)"
        "pos + 1 \<le> p" "p \<le> length data" "length fs = length acc + 7 + 7 * (p - (pos + 1))"
        by auto
      with True rd more show ?thesis by (simp add: parse_fspec_loop.simps [of data pos acc])
    qed (use True rd in \<open>simp add: parse_fspec_loop.simps [of data pos acc]\<close>)
  qed (use "1.prems" in \<open>simp add: parse_fspec_loop.simps [of data "length data" acc]\<close>)
qed

lemma parse_fspec_moves:
  assumes "pos \<le> length data"
  obtains fs p where "parse_fspec data pos = Some (fs, p)" "pos \<le> p" "p \<le> length data"
    "pos < length data \<Longrightarrow> pos < p" "length fs = 7 * (p - pos)"
  using parse_fspec_loop_moves [OF assms, of "[]"] by (auto simp: parse_fspec_def)

lemma skip_len_field_moves [flow_simps]:
  "p \<le> length data \<Longrightarrow> \<exists>q. skip_len_field data p = Some q \<and> p \<le> q \<and> q \<le> length data"
  by (auto simp: skip_len_field_def byte_simps)

lemma compound_presence_loop_moves:
  "compound_presence_loop data pos acc = Inr (present, p) \<Longrightarrow>
     pos < p \<and> p \<le> length data \<and> length acc + 7 \<le> length present"
proof (induction data pos acc rule: compound_presence_loop.induct)
  case (1 data pos acc)
  from "1.prems" obtain byte where rd: "byte_at data pos = Some byte"
    by (auto simp: compound_presence_loop.simps [of data pos acc] split: option.splits)
  show ?case
  proof (cases "bits byte 1")
    case True
    with "1.prems" rd have "compound_presence_loop data (pos + 1) (acc @ fspec_octet byte) = Inr (present, p)"
      by (simp add: compound_presence_loop.simps [of data pos acc])
    from "1.IH" [OF rd _ this] True show ?thesis by simp
  next
    case False
    with "1.prems" rd show ?thesis
      by (auto simp: compound_presence_loop.simps [of data pos acc] dest: byte_at_SomeD)
  qed
qed

lemma compound_presence_moves:
  "compound_presence data pos = Inr (present, p) \<Longrightarrow> pos < p \<and> p \<le> length data \<and> 7 \<le> length present"
  using compound_presence_loop_moves [of data pos "[]"] by (simp add: compound_presence_def)

subsection \<open>The loop over the present items\<close>

text \<open>
  The state of a decoder is the dictionary under construction and the cursor. An item
  goes on to the next one, breaks out of the loop, or returns from the decoder at once;
  \<open>None\<close> is an exception.
\<close>

type_synonym dstate = "dict \<times> nat"

datatype flow = Next dstate | Break dstate | Return dstate

primrec flow_state :: "flow \<Rightarrow> dstate" where
  "flow_state (Next s) = s"
| "flow_state (Break s) = s"
| "flow_state (Return s) = s"

fun run_items :: "(nat \<Rightarrow> dict \<Rightarrow> nat \<Rightarrow> flow option) \<Rightarrow> nat \<Rightarrow> bool list \<Rightarrow> dict \<Rightarrow> nat \<Rightarrow> flow option" where
  "run_items step frn [] d pos = Some (Next (d, pos))"
| "run_items step frn (present # ps) d pos =
     (if \<not> present then run_items step (Suc frn) ps d pos
      else case step frn d pos of
        None \<Rightarrow> None
      | Some (Next (d', pos')) \<Rightarrow> run_items step (Suc frn) ps d' pos'
      | Some stop \<Rightarrow> Some stop)"

text \<open>
  \<open>if pos + k > len(data): return track, len(data)\<close>, the guard of almost every item.
\<close>

definition need :: "nat \<Rightarrow> bytes \<Rightarrow> dict \<Rightarrow> nat \<Rightarrow> flow option \<Rightarrow> flow option" where
  "need k data d pos f = (if pos + k > length data then Some (Return (d, length data)) else f)"

text \<open>\<open>u16(data[pos:pos + 2])\<close>, \<open>s16\<close>, and the three-octet reads.\<close>

definition u16 :: "bytes \<Rightarrow> nat \<Rightarrow> int option" where
  "u16 data pos = unpack_H (py_slice data pos (pos + 2))"

definition s16 :: "bytes \<Rightarrow> nat \<Rightarrow> int option" where
  "s16 data pos = unpack_h (py_slice data pos (pos + 2))"

definition u24 :: "bytes \<Rightarrow> nat \<Rightarrow> int option" where
  "u24 data pos = do {
     a \<leftarrow> byte_at data pos;
     b \<leftarrow> byte_at data (pos + 1);
     c \<leftarrow> byte_at data (pos + 2);
     Some (push_bit 16 a OR push_bit 8 b OR c)
   }"

text \<open>
  \<open>while b & 0x01: if pos >= len(data): break; b = data[pos]; pos += 1\<close>, the rest of an
  FX-extended item that is not decoded.
\<close>

function skip_fx :: "bytes \<Rightarrow> int \<Rightarrow> nat \<Rightarrow> nat option" where
  "skip_fx data b pos =
     (if \<not> bits b 1 then Some pos
      else if pos \<ge> length data then Some pos
      else do { b \<leftarrow> byte_at data pos; skip_fx data b (pos + 1) })"
  by pat_completeness auto
termination
  by (relation "measure (\<lambda>(d, b, pos). length d - pos)") auto

declare skip_fx.simps [simp del]

text \<open>\<open>d.setdefault(k, []).append(v)\<close>: \<open>None\<close> when the value there is no list.\<close>

definition append_to :: "string \<Rightarrow> pyval \<Rightarrow> dict \<Rightarrow> dict option" where
  "append_to k v d = (case dget d k of
     None \<Rightarrow> Some (AList.update k (VList [v]) d)
   | Some (VList vs) \<Rightarrow> Some (AList.update k (VList (vs @ [v])) d)
   | Some _ \<Rightarrow> None)"

subsection \<open>Well-formed tracks\<close>

text \<open>
  What every decoder promises of the keys that the publishers format or index: the
  sensor's codes are octets, a track number has 16 bits, a Mode 3/A code is four octal
  digits, an aircraft address six hexadecimal digits, and the list that is appended to is
  a list.
\<close>

abbreviation octet_keys :: "string list" where
  "octet_keys \<equiv> [''sac'', ''sic'', ''server_sac'', ''server_sic'', ''source_centre'', ''source_workstation'']"

abbreviation typed_keys :: "string list" where
  "typed_keys \<equiv> octet_keys @ [''track_num'', ''squawk'', ''icao24'', ''warning_error_names'']"

definition field_ok :: "string \<Rightarrow> pyval \<Rightarrow> bool" where
  "field_ok k v \<longleftrightarrow>
     (k \<in> set octet_keys \<longrightarrow> (\<exists>i. v = VInt i \<and> 0 \<le> i \<and> i \<le> 255)) \<and>
     (k = ''track_num'' \<longrightarrow> (\<exists>i. v = VInt i \<and> 0 \<le> i \<and> i \<le> 65535)) \<and>
     (k = ''squawk'' \<longrightarrow> (\<exists>i. v = VStr (fmt_pad 8 4 i) \<and> 0 \<le> i \<and> i < 4096)) \<and>
     (k = ''icao24'' \<longrightarrow> (\<exists>i. v = VStr (fmt_pad 16 6 i) \<and> 0 \<le> i \<and> i < 2 ^ 24)) \<and>
     (k = ''warning_error_names'' \<longrightarrow> (\<exists>xs. v = VList xs))"

definition typed :: "dict \<Rightarrow> bool" where
  "typed d \<longleftrightarrow> list_all (\<lambda>(k, v). field_ok k v) d"

text \<open>Every track starts with its time stamp and its source.\<close>

definition wf_track :: "dict \<Rightarrow> bool" where
  "wf_track d \<longleftrightarrow> typed d \<and> map fst (take 2 d) = [''_ts'', ''_src'']"

text \<open>
  The contract of a decoding step: it does not raise, the cursor stays between where the
  step found it and the end of the block, and the track stays well-formed.
\<close>

definition moves :: "nat \<Rightarrow> nat \<Rightarrow> flow option \<Rightarrow> bool" where
  "moves p n r \<longleftrightarrow> (case r of None \<Rightarrow> False
     | Some fl \<Rightarrow> wf_track (fst (flow_state fl)) \<and> p \<le> snd (flow_state fl) \<and> snd (flow_state fl) \<le> n \<and>
       (\<forall>s. fl = Return s \<longrightarrow> snd s = n))"

lemma moves_simps [flow_simps]:
  "moves p n None \<longleftrightarrow> False"
  "moves p n (Some (Next (d, q))) \<longleftrightarrow> wf_track d \<and> p \<le> q \<and> q \<le> n"
  "moves p n (Some (Break (d, q))) \<longleftrightarrow> wf_track d \<and> p \<le> q \<and> q \<le> n"
  "moves p n (Some (Return (d, q))) \<longleftrightarrow> wf_track d \<and> p \<le> q \<and> q = n"
  by (auto simp: moves_def)

lemma moves_if [flow_simps]:
  "moves p n (if c then x else y) \<longleftrightarrow> (c \<longrightarrow> moves p n x) \<and> (\<not> c \<longrightarrow> moves p n y)"
  by simp

lemma moves_need [flow_simps]:
  "moves p (length data) (need k data d q x) \<longleftrightarrow>
     (length data < q + k \<longrightarrow> wf_track d \<and> p \<le> length data) \<and>
     (q + k \<le> length data \<longrightarrow> moves p (length data) x)"
  by (auto simp: need_def moves_simps)

lemma moves_trans: "p \<le> q \<Longrightarrow> moves q n r \<Longrightarrow> moves p n r"
  by (auto simp: moves_def split: option.splits)

lemma field_ok_other [flow_simps]:
  "k \<notin> set typed_keys \<Longrightarrow> field_ok k v"
  by (simp add: field_ok_def)

lemma field_ok_special [flow_simps]:
  "field_ok ''sac'' (VInt i) \<longleftrightarrow> 0 \<le> i \<and> i \<le> 255"
  "field_ok ''server_sac'' (VInt i) \<longleftrightarrow> 0 \<le> i \<and> i \<le> 255"
  "field_ok ''server_sic'' (VInt i) \<longleftrightarrow> 0 \<le> i \<and> i \<le> 255"
  "field_ok ''source_centre'' (VInt i) \<longleftrightarrow> 0 \<le> i \<and> i \<le> 255"
  "field_ok ''source_workstation'' (VInt i) \<longleftrightarrow> 0 \<le> i \<and> i \<le> 255"
  "field_ok ''sic'' (VInt i) \<longleftrightarrow> 0 \<le> i \<and> i \<le> 255"
  "field_ok ''track_num'' (VInt i) \<longleftrightarrow> 0 \<le> i \<and> i \<le> 65535"
  "0 \<le> i \<Longrightarrow> i < 4096 \<Longrightarrow> field_ok ''squawk'' (VStr (fmt_pad 8 4 i))"
  "0 \<le> i \<Longrightarrow> i < 16777216 \<Longrightarrow> field_ok ''icao24'' (VStr (fmt_pad 16 6 i))"
  "field_ok ''warning_error_names'' (VList xs)"
  by (auto simp: field_ok_def)

lemma typed_Nil [flow_simps]: "typed []"
  by (simp add: typed_def)

lemma typed_Cons [flow_simps]: "typed ((k, v) # d) \<longleftrightarrow> field_ok k v \<and> typed d"
  by (simp add: typed_def)

lemma typed_append [flow_simps]: "typed (d @ e) \<longleftrightarrow> typed d \<and> typed e"
  by (simp add: typed_def)

lemma typed_onlyif [flow_simps]: "typed (onlyif c d) \<longleftrightarrow> (c \<longrightarrow> typed d)"
  by (simp add: onlyif_def typed_Nil)

lemma typed_update [flow_simps]: "typed d \<Longrightarrow> field_ok k v \<Longrightarrow> typed (AList.update k v d)"
  by (induction d) (auto simp: typed_def)

lemma typed_puts [flow_simps]: "typed d \<Longrightarrow> typed kvs \<Longrightarrow> typed (puts d kvs)"
  by (induction kvs arbitrary: d) (auto simp: typed_Cons typed_update)

lemma stamp_update:
  "map fst (take 2 d) = [''_ts'', ''_src''] \<Longrightarrow> map fst (take 2 (AList.update k v d)) = [''_ts'', ''_src'']"
  by (cases d; cases "tl d") (auto simp: numeral_2_eq_2)

lemma wf_update [flow_simps]: "wf_track d \<Longrightarrow> field_ok k v \<Longrightarrow> wf_track (AList.update k v d)"
  by (simp add: wf_track_def typed_update stamp_update)

lemma wf_puts [flow_simps]: "wf_track d \<Longrightarrow> typed kvs \<Longrightarrow> wf_track (puts d kvs)"
  by (induction kvs arbitrary: d) (auto simp: typed_Cons wf_update)

lemma wf_setdefault [flow_simps]: "wf_track d \<Longrightarrow> field_ok k v \<Longrightarrow> wf_track (setdefault k v d)"
  by (simp add: setdefault_def wf_update split: option.split)

lemma typed_get: "typed d \<Longrightarrow> dget d k = Some v \<Longrightarrow> field_ok k v"
  by (auto simp: typed_def dget_def list_all_iff dest!: map_of_SomeD)

lemma append_to_names:
  assumes "wf_track d"
  obtains d' where "append_to ''warning_error_names'' v d = Some d'" "wf_track d'"
proof (cases "dget d ''warning_error_names''")
  case None
  with assms show ?thesis
    by (intro that [of "AList.update ''warning_error_names'' (VList [v]) d"])
      (simp_all add: append_to_def wf_update field_ok_special)
next
  case (Some w)
  with assms obtain xs where "w = VList xs"
    using typed_get [of d "''warning_error_names''" w] by (auto simp: wf_track_def field_ok_def)
  with assms Some show ?thesis
    by (intro that [of "AList.update ''warning_error_names'' (VList (xs @ [v])) d"])
      (simp_all add: append_to_def wf_update field_ok_special)
qed

lemma u16_in_range [byte_simps]:
  "pos + 2 \<le> length data \<Longrightarrow>
     u16 data pos = Some (uint (data ! pos) * 256 + uint (data ! (pos + 1)))"
  by (simp add: u16_def byte_simps)

lemma s16_in_range [byte_simps]:
  "pos + 2 \<le> length data \<Longrightarrow>
     s16 data pos = Some (sign_extend 16 (uint (data ! pos) * 256 + uint (data ! (pos + 1))))"
  by (simp add: s16_def byte_simps)

lemma or3_range:
  assumes "0 \<le> a" "a < 256" "0 \<le> b" "b < 256" "0 \<le> c" "c < 256"
  shows "0 \<le> push_bit 16 a OR push_bit 8 b OR (c :: int)"
    and "push_bit 16 a OR push_bit 8 b OR (c :: int) < 2 ^ 24"
proof -
  have "0 \<le> push_bit 16 a" "push_bit 16 a < 2 ^ 24" "0 \<le> push_bit 8 b" "push_bit 8 b < 2 ^ 24"
    using assms by (simp_all add: push_bit_eq_mult)
  moreover have "c < 2 ^ 24" using assms by simp
  ultimately show "0 \<le> push_bit 16 a OR push_bit 8 b OR c"
    and "push_bit 16 a OR push_bit 8 b OR c < 2 ^ 24"
    using assms OR_upper [of "push_bit 8 b" 24 c]
      OR_upper [of "push_bit 16 a" 24 "push_bit 8 b OR c"] by simp_all
qed

lemma u24_in_range:
  assumes "pos + 3 \<le> length data"
  obtains v where "u24 data pos = Some v" "0 \<le> v" "v < 2 ^ 24"
  using assms or3_range [OF byte_range byte_range byte_range]
  by (auto simp: u24_def byte_simps)

lemma skip_fx_moves:
  "pos \<le> length data \<Longrightarrow> \<exists>q. skip_fx data b pos = Some q \<and> pos \<le> q \<and> q \<le> length data"
proof (induction data b pos rule: skip_fx.induct)
  case (1 data b pos)
  show ?case
  proof (cases "bits b 1 \<and> pos < length data")
    case True
    then have "byte_at data pos = Some (uint (data ! pos))" by (simp add: byte_simps)
    with True "1.IH" [of "uint (data ! pos)"] show ?thesis
      by (auto simp: skip_fx.simps [of data b pos])
  qed (use "1.prems" in \<open>auto simp: skip_fx.simps [of data b pos]\<close>)
qed

text \<open>Reads whose result the flow rules need no more of than its range.\<close>

lemma moves_bind_skip_fx [flow_simps]:
  "q \<le> length data \<Longrightarrow> (\<And>r. q \<le> r \<Longrightarrow> r \<le> length data \<Longrightarrow> moves p (length data) (f r)) \<Longrightarrow>
     moves p (length data) (skip_fx data b q \<bind> f)"
  using skip_fx_moves [of q data b] by auto

lemma moves_bind_skip_len [flow_simps]:
  "q \<le> length data \<Longrightarrow> (\<And>r. q \<le> r \<Longrightarrow> r \<le> length data \<Longrightarrow> moves p (length data) (f r)) \<Longrightarrow>
     moves p (length data) (skip_len_field data q \<bind> f)"
  using skip_len_field_moves [of q data] by auto

lemma moves_bind_u24 [flow_simps]:
  "q + 3 \<le> length data \<Longrightarrow> (\<And>v. 0 \<le> v \<Longrightarrow> v < 16777216 \<Longrightarrow> moves p (length data) (f v)) \<Longrightarrow>
     moves p (length data) (u24 data q \<bind> f)"
  by (rule u24_in_range [of q data]) auto

lemma uint_byte_range [flow_simps]: "0 \<le> uint (b :: byte)" "uint (b :: byte) \<le> 255" "uint (b :: byte) < 256"
  using byte_range [of b] by auto

lemma typed_bds [flow_simps]:
  "typed (decode_bds10 mb)" "typed (decode_bds17 mb)" "typed (decode_bds30 mb)"
  "typed (decode_bds40 mb)" "typed (decode_bds50 mb)" "typed (decode_bds60 mb)"
  by (simp_all add: decode_bds10_def decode_bds17_def decode_bds30_def decode_bds40_def
      decode_bds50_def decode_bds60_def Let_def flow_simps)

lemma word16_range [flow_simps]:
  "0 \<le> uint (a :: byte) * 256 + uint (b :: byte)" "uint (a :: byte) * 256 + uint (b :: byte) \<le> 65535"
  using byte_range [of a] byte_range [of b] by linarith+

lemma mask12_range [flow_simps]:
  "0 \<le> (w :: int) AND 4095" "w AND 4095 < 4096" "w AND 4095 \<le> 65535"
proof -
  have "w AND 4095 = take_bit 12 w" by (simp add: take_bit_eq_mask mask_eq_exp_minus_1)
  then have "0 \<le> w AND 4095" "w AND 4095 < 2 ^ 12"
    by (simp_all only: take_bit_nonnegative take_bit_int_less_exp)
  then show "0 \<le> w AND 4095" "w AND 4095 < 4096" "w AND 4095 \<le> 65535" by simp_all
qed

text \<open>Fields of an octet or a word index the constant tables in range.\<close>

lemma bitfield_range: "0 \<le> m \<Longrightarrow> 0 \<le> bitfield x n m \<and> bitfield x n m \<le> m"
  by (simp add: bitfield_def AND_upper2)

lemma tuple_get_bitfield [byte_simps]:
  "0 \<le> m \<Longrightarrow> nat m < length t \<Longrightarrow>
     tuple_get t (bitfield x n m) = Some (t ! nat (bitfield x n m))"
  using bitfield_range [of m x n] nat_mono [of "bitfield x n m" m] by (auto simp: tuple_get_def)

text \<open>The table of a category's items, by field reference number: beyond it, \<open>else: break\<close>.\<close>

type_synonym item = "bytes \<Rightarrow> dict \<Rightarrow> nat \<Rightarrow> flow option"

definition dispatch :: "item list \<Rightarrow> bytes \<Rightarrow> nat \<Rightarrow> dict \<Rightarrow> nat \<Rightarrow> flow option" where
  "dispatch items data frn d pos =
     (if frn < length items then (items ! frn) data d pos else Some (Break (d, pos)))"

definition item_moves :: "item \<Rightarrow> bool" where
  "item_moves f \<longleftrightarrow> (\<forall>data d p. wf_track d \<longrightarrow> p \<le> length data \<longrightarrow> moves p (length data) (f data d p))"

lemma dispatch_moves:
  "list_all item_moves items \<Longrightarrow> wf_track d \<Longrightarrow> p \<le> length data \<Longrightarrow>
     moves p (length data) (dispatch items data frn d p)"
  by (simp add: dispatch_def item_moves_def list_all_length moves_simps)

text \<open>Two parts of one item: the second runs only when the first went through.\<close>

definition then_item :: "flow option \<Rightarrow> (dict \<Rightarrow> nat \<Rightarrow> flow option) \<Rightarrow> flow option" where
  "then_item r f = (case r of Some (Next (d, pos)) \<Rightarrow> f d pos | _ \<Rightarrow> r)"

text \<open>The special purpose and the reserved expansion field are skipped.\<close>

definition skip_item :: item where
  "skip_item data d pos = do { pos \<leftarrow> skip_len_field data pos; Some (Next (d, pos)) }"

lemma skip_item_moves [item_ok]: "item_moves skip_item"
  by (simp add: item_moves_def skip_item_def flow_simps)

lemma moves_then_item [flow_simps]:
  "moves p n r \<Longrightarrow> (\<And>d q. r = Some (Next (d, q)) \<Longrightarrow> wf_track d \<Longrightarrow> p \<le> q \<Longrightarrow> q \<le> n \<Longrightarrow> moves p n (f d q)) \<Longrightarrow>
     moves p n (then_item r f)"
  by (auto simp: then_item_def moves_def split: option.splits flow.splits)

lemma item_movesD: "item_moves f \<Longrightarrow> wf_track d \<Longrightarrow> p \<le> q \<Longrightarrow> q \<le> length data \<Longrightarrow> moves p (length data) (f data d q)"
  by (auto simp: item_moves_def intro: moves_trans)

definition dict_get :: "dict \<Rightarrow> string \<Rightarrow> pyval \<Rightarrow> pyval" where
  "dict_get d k v = (case dget d k of None \<Rightarrow> v | Some w \<Rightarrow> w)"

locale item_loop =
  fixes step :: "nat \<Rightarrow> dict \<Rightarrow> nat \<Rightarrow> flow option" and len :: nat
  assumes step_moves: "wf_track d \<Longrightarrow> p \<le> len \<Longrightarrow> moves p len (step frn d p)"
begin

lemma run_moves: "wf_track d \<Longrightarrow> p \<le> len \<Longrightarrow> moves p len (run_items step frn ps d p)"
proof (induction ps arbitrary: frn d p)
  case Nil
  then show ?case by (simp add: moves_simps)
next
  case (Cons present ps)
  show ?case
  proof (cases present)
    case True
    from step_moves [OF Cons.prems, of frn] obtain fl where fl: "step frn d p = Some fl"
      and b: "wf_track (fst (flow_state fl))" "p \<le> snd (flow_state fl)" "snd (flow_state fl) \<le> len"
        "\<forall>s. fl = Return s \<longrightarrow> snd s = len"
      by (auto simp: moves_def split: option.splits)
    show ?thesis
    proof (cases fl)
      case (Next s)
      obtain d' q where s: "s = (d', q)" by force
      have "moves q len (run_items step (Suc frn) ps d' q)"
        using b Next s by (intro Cons.IH) simp_all
      with fl b Next s True show ?thesis by (simp add: moves_trans)
    qed (use fl b True in \<open>auto simp: moves_def\<close>)
  qed (use Cons in simp)
qed

end

subsection \<open>Records of a block\<close>

text \<open>
  The \<open>while pos < len(data)\<close> loop of the handlers: decode a record, stop if the
  cursor did not move, hand the record and its octets on.
\<close>

function decode_records ::
  "(bytes \<Rightarrow> nat \<Rightarrow> dstate option) \<Rightarrow> bytes \<Rightarrow> nat \<Rightarrow> (dict \<times> bytes) list option" where
  "decode_records decode data pos =
     (if pos < length data then do {
        (track, pos') \<leftarrow> decode data pos;
        (if pos' \<le> pos then Some []
         else do {
           rest \<leftarrow> decode_records decode data pos';
           Some ((track, py_slice data pos pos') # rest)
         })
      } else Some [])"
  by pat_completeness auto
termination
  by (relation "measure (\<lambda>(dec, d, pos). length d - pos)") auto

declare decode_records.simps [simp del]

locale record_decoder =
  fixes decode :: "bytes \<Rightarrow> nat \<Rightarrow> dstate option"
  assumes decode_moves: "pos < length data \<Longrightarrow>
    \<exists>track p. decode data pos = Some (track, p) \<and> wf_track track \<and> pos < p \<and> p \<le> length data"
begin

lemma records_partition:
  "pos \<le> length data \<Longrightarrow> \<exists>rs. decode_records decode data pos = Some rs \<and>
     concat (map snd rs) = drop pos data \<and> list_all (\<lambda>(t, r). wf_track t \<and> r \<noteq> []) rs"
proof (induction "length data - pos" arbitrary: pos rule: less_induct)
  case less
  show ?case
  proof (cases "pos < length data")
    case True
    then obtain track p where d: "decode data pos = Some (track, p)" "wf_track track" "pos < p" "p \<le> length data"
      using decode_moves by blast
    then have "length data - p < length data - pos" by simp
    then obtain rs where rs: "decode_records decode data p = Some rs"
      "concat (map snd rs) = drop p data" "list_all (\<lambda>(t, r). wf_track t \<and> r \<noteq> []) rs"
      using less(1) [of p] d by blast
    have "py_slice data pos p @ drop p data = drop pos data"
      using d append_take_drop_id [of "p - pos" "drop pos data"] by (simp add: py_slice_def)
    moreover have "py_slice data pos p \<noteq> []"
      using d by (simp add: py_slice_def)
    ultimately show ?thesis using True d rs by (simp add: decode_records.simps [of decode data pos])
  qed (use less in \<open>simp add: decode_records.simps [of decode data "length data"]\<close>)
qed

end

text \<open>
  A record decoder in the shape the category decoders share: the field specification, the
  items, and a final step that an early return skips.
\<close>

definition decode_with ::
  "dict \<Rightarrow> (bytes \<Rightarrow> nat \<Rightarrow> dict \<Rightarrow> nat \<Rightarrow> flow option) \<Rightarrow> (dict \<Rightarrow> dict option) \<Rightarrow>
   bytes \<Rightarrow> nat \<Rightarrow> dstate option" where
  "decode_with track step finish data pos = do {
     (fspec, pos) \<leftarrow> parse_fspec data pos;
     fl \<leftarrow> run_items (step data) 0 fspec track pos;
     (case fl of
        Return s \<Rightarrow> Some s
      | Next (d, p) \<Rightarrow> do { d \<leftarrow> finish d; Some (d, p) }
      | Break (d, p) \<Rightarrow> do { d \<leftarrow> finish d; Some (d, p) })
   }"

text \<open>
  The contract of one category: its initial track, its item steps and its final step.
  Every category that keeps it has a record decoder that never raises and makes progress.
\<close>

locale category_decoder =
  fixes track0 :: dict
    and step :: "bytes \<Rightarrow> nat \<Rightarrow> dict \<Rightarrow> nat \<Rightarrow> flow option"
    and finish :: "dict \<Rightarrow> dict option"
  assumes track0_typed: "wf_track track0"
    and step_moves: "wf_track d \<Longrightarrow> p \<le> length data \<Longrightarrow> moves p (length data) (step data frn d p)"
    and finish_typed: "wf_track d \<Longrightarrow> \<exists>d'. finish d = Some d' \<and> wf_track d'"

sublocale category_decoder \<subseteq> items: item_loop "step data" "length data" for data
  by unfold_locales (rule step_moves)

sublocale category_decoder \<subseteq> record_decoder "decode_with track0 step finish"
proof unfold_locales
  fix pos and data :: bytes
  assume "pos < length data"
  then obtain fs p where fs: "parse_fspec data pos = Some (fs, p)" and p: "pos < p" "p \<le> length data"
    using parse_fspec_moves [of pos data] by (metis less_imp_le)
  from items.run_moves [OF track0_typed p(2), of 0 fs] obtain fl
    where fl: "run_items (step data) 0 fs track0 p = Some fl" and "wf_track (fst (flow_state fl))"
      "p \<le> snd (flow_state fl)" "snd (flow_state fl) \<le> length data"
    by (auto simp: moves_def split: option.splits)
  with fs p show "\<exists>t p. decode_with track0 step finish data pos = Some (t, p) \<and> wf_track t \<and>
      pos < p \<and> p \<le> length data"
    using finish_typed by (cases fl) (fastforce simp: decode_with_def)+
qed

text \<open>
  The handlers publish a record when its track holds more than the stamp. A category whose
  final step always leaves an identity there publishes every record that was not cut short.
\<close>

locale identified_decoder = category_decoder +
  assumes finish_identified: "wf_track d \<Longrightarrow> finish d = Some d' \<Longrightarrow> 2 < length d'"
begin

lemma decode_unidentified:
  assumes "decode_with track0 step finish data pos = Some (t, p)" and "pos < length data"
    and "length t \<le> 2"
  shows "p = length data"
proof -
  obtain fs q where fs: "parse_fspec data pos = Some (fs, q)" and q: "q \<le> length data"
    using parse_fspec_moves [of pos data] assms(2) by (metis less_imp_le)
  from items.run_moves [OF track0_typed q, of 0 fs] obtain fl
    where fl: "run_items (step data) 0 fs track0 q = Some fl" and w: "wf_track (fst (flow_state fl))"
      "\<forall>s. fl = Return s \<longrightarrow> snd s = length data"
    by (auto simp: moves_def split: option.splits)
  have fin: "2 < length t" if "do { d \<leftarrow> finish d; Some (d, r) } = Some (t, p)" "wf_track d" for d r
    using that finish_identified by (cases "finish d") auto
  show ?thesis
    using assms fs fl w fin by (cases fl) (fastforce simp: decode_with_def)+
qed

lemma published_prefix:
  "decode_records (decode_with track0 step finish) data pos = Some rs \<Longrightarrow> pos \<le> length data \<Longrightarrow>
     \<exists>rest. drop pos data = concat (map snd (filter (\<lambda>(t, r). 2 < length t) rs)) @ rest \<and>
       (rest \<noteq> [] \<longrightarrow> rs \<noteq> [] \<and> rest = snd (last rs) \<and> length (fst (last rs)) \<le> 2)"
proof (induction "length data - pos" arbitrary: pos rs rule: less_induct)
  case less
  show ?case
  proof (cases "pos < length data")
    case True
    then obtain t p where d: "decode_with track0 step finish data pos = Some (t, p)" "pos < p" "p \<le> length data"
      using decode_moves by blast
    with less(2) True obtain rs' where rs': "decode_records (decode_with track0 step finish) data p = Some rs'"
      and rs: "rs = (t, py_slice data pos p) # rs'"
      by (auto simp: decode_records.simps [of _ data pos] split: bind_splits)
    have cut: "py_slice data pos p @ drop p data = drop pos data"
      using d append_take_drop_id [of "p - pos" "drop pos data"] by (simp add: py_slice_def)
    show ?thesis
    proof (cases "2 < length t")
      case False
      with decode_unidentified [OF d(1) True] have p: "p = length data" by simp
      then have "rs' = []" using rs' by (simp add: decode_records.simps [of _ data "length data"])
      with False cut p show ?thesis by (simp add: rs)
    next
      case t: True
      have "length data - p < length data - pos" using d(2) True by simp
      from less(1) [OF this rs' d(3)] obtain rest where
        "drop p data = concat (map snd (filter (\<lambda>(t, r). 2 < length t) rs')) @ rest"
        "rest \<noteq> [] \<longrightarrow> rs' \<noteq> [] \<and> rest = snd (last rs') \<and> length (fst (last rs')) \<le> 2" by blast
      with t cut show ?thesis by (intro exI [of _ rest]) (simp add: rs flip: cut)
    qed
  qed (use less in \<open>simp add: decode_records.simps [of _ data "length data"]\<close>)
qed

end

lemma wf_track_length: "wf_track d \<Longrightarrow> 2 \<le> length d"
  by (cases d; cases "tl d") (auto simp: wf_track_def)

lemma wf_track_key:
  assumes "wf_track d" and "has_key k d" and "k \<notin> set [''_ts'', ''_src'']"
  shows "2 < length d"
proof (rule ccontr)
  assume "\<not> 2 < length d"
  then have "take 2 d = d" by simp
  with assms(1) have "map fst d = [''_ts'', ''_src'']" by (simp add: wf_track_def)
  moreover have "k \<in> set (map fst d)" using assms(2) by (simp add: has_key_def map_of_eq_None_iff)
  ultimately show False using assms(3) by simp
qed

lemma length_update_le: "length d \<le> length (AList.update k v d)"
  by (induction d) auto

lemma length_update_new: "\<not> has_key k d \<Longrightarrow> length (AList.update k v d) = Suc (length d)"
  by (induction d) (auto simp: has_key_def split: if_splits)

text \<open>The codes a final step formats are numbers.\<close>

lemma field_ok_num:
  "field_ok ''sac'' v \<Longrightarrow> \<exists>i. v = VInt i \<and> 0 \<le> i"
  "field_ok ''sic'' v \<Longrightarrow> \<exists>i. v = VInt i \<and> 0 \<le> i"
  "field_ok ''track_num'' v \<Longrightarrow> \<exists>i. v = VInt i \<and> 0 \<le> i"
  by (auto simp: field_ok_def)

lemma wf_0d:
  assumes "wf_track d" and "k \<in> set [''sac'', ''sic'', ''track_num'']"
  obtains i where "dict_get d k (VInt 0) = VInt i" "val_0d w (dict_get d k (VInt 0)) = Some (fmt_0d w i)" "0 \<le> i"
proof (cases "dget d k")
  case None
  then show ?thesis by (intro that [of 0]) (simp_all add: dict_get_def val_0d_def)
next
  case (Some v)
  with assms(1) have "field_ok k v" unfolding wf_track_def by (blast intro: typed_get)
  moreover have "k = ''sac'' \<or> k = ''sic'' \<or> k = ''track_num''" using assms(2) by simp
  ultimately obtain i where "v = VInt i" "0 \<le> i" using field_ok_num by metis
  with Some show ?thesis by (intro that [of i]) (simp_all add: dict_get_def val_0d_def)
qed

end
