(* ===== verification/Geodesy.thy ===== *)
theory Geodesy
  imports Complex_Main
begin

text \<open>
  The spherical geometry that places a radar plot: \<open>polar_to_wgs84\<close> of the ASTERIX
  translators, over the reals. Python's \<open>math\<close> functions are the real functions of
  the same names; \<open>atan2\<close> is written out.
\<close>

definition radians :: "real \<Rightarrow> real" where
  "radians x = x * pi / 180"

definition degrees :: "real \<Rightarrow> real" where
  "degrees x = x * 180 / pi"

definition atan2 :: "real \<Rightarrow> real \<Rightarrow> real" where
  "atan2 y x =
     (if x > 0 then arctan (y / x)
      else if x < 0 then (if y \<ge> 0 then arctan (y / x) + pi else arctan (y / x) - pi)
      else if y > 0 then pi / 2 else if y < 0 then - pi / 2 else 0)"

text \<open>Range in nautical miles and azimuth in degrees from a site, to latitude and longitude.\<close>

definition polar_to_wgs84 :: "real \<Rightarrow> real \<Rightarrow> real \<Rightarrow> real \<Rightarrow> real \<times> real" where
  "polar_to_wgs84 radar_lat radar_lon range_nm azimuth_deg =
     (let d = range_nm * 1852;
          R = 6371000;
          lat1 = radians radar_lat;
          lon1 = radians radar_lon;
          az = radians azimuth_deg;
          lat2 = arcsin (sin lat1 * cos (d / R) + cos lat1 * sin (d / R) * cos az);
          lon2 = lon1 + atan2 (sin az * sin (d / R) * cos lat1) (cos (d / R) - sin lat1 * sin lat2)
      in (degrees lat2, degrees lon2))"

lemma radians_degrees [simp]: "radians (degrees x) = x"
  by (simp add: radians_def degrees_def)

lemma cos_arctan_scaled: "x > 0 \<Longrightarrow> cos (arctan (y / x)) = x / sqrt (x\<^sup>2 + y\<^sup>2)"
proof -
  assume x: "x > 0"
  have "1 + (y / x)\<^sup>2 = (x\<^sup>2 + y\<^sup>2) / x\<^sup>2" using x by (simp add: field_simps)
  then have "sqrt (1 + (y / x)\<^sup>2) = sqrt (x\<^sup>2 + y\<^sup>2) / x"
    using x by (simp add: real_sqrt_divide)
  then show ?thesis by (simp add: cos_arctan)
qed

lemma sin_arctan_scaled: "x > 0 \<Longrightarrow> sin (arctan (y / x)) = y / sqrt (x\<^sup>2 + y\<^sup>2)"
proof -
  assume x: "x > 0"
  have "1 + (y / x)\<^sup>2 = (x\<^sup>2 + y\<^sup>2) / x\<^sup>2" using x by (simp add: field_simps)
  then have "sqrt (1 + (y / x)\<^sup>2) = sqrt (x\<^sup>2 + y\<^sup>2) / x"
    using x by (simp add: real_sqrt_divide)
  then show ?thesis using x by (simp add: sin_arctan)
qed

lemma atan2_polar:
  "sqrt (x\<^sup>2 + y\<^sup>2) * cos (atan2 y x) = x"
  "sqrt (x\<^sup>2 + y\<^sup>2) * sin (atan2 y x) = y"
proof -
  have ne: "sqrt (x\<^sup>2 + y\<^sup>2) \<noteq> 0" if "x \<noteq> 0"
    using that by (simp add: sum_power2_eq_zero_iff)
  have neg: "y / x = (- y) / (- x)" by simp
  show "sqrt (x\<^sup>2 + y\<^sup>2) * cos (atan2 y x) = x"
  proof (cases x "0 :: real" rule: linorder_cases)
    case less
    then have "cos (arctan (y / x)) = (- x) / sqrt (x\<^sup>2 + y\<^sup>2)"
      unfolding neg by (subst cos_arctan_scaled) simp_all
    with less ne show ?thesis by (simp add: atan2_def)
  qed (use ne cos_arctan_scaled in \<open>simp_all add: atan2_def\<close>)
  show "sqrt (x\<^sup>2 + y\<^sup>2) * sin (atan2 y x) = y"
  proof (cases x "0 :: real" rule: linorder_cases)
    case less
    then have "sin (arctan (y / x)) = (- y) / sqrt (x\<^sup>2 + y\<^sup>2)"
      unfolding neg by (subst sin_arctan_scaled) simp_all
    with less ne show ?thesis by (simp add: atan2_def)
  qed (use ne sin_arctan_scaled in \<open>simp_all add: atan2_def\<close>)
qed

lemma forward_sine_bounds: "\<bar>sin a * cos t + cos a * sin t * cos z\<bar> \<le> (1 :: real)"
proof -
  have "(sin a * cos t + cos a * sin t * cos z)\<^sup>2 + (cos a * cos t - sin a * sin t * cos z)\<^sup>2 =
      ((sin a)\<^sup>2 + (cos a)\<^sup>2) * ((cos t)\<^sup>2 + (sin t)\<^sup>2 * (cos z)\<^sup>2)"
    by algebra
  also have "\<dots> \<le> 1"
  proof -
    have "(sin t)\<^sup>2 * (cos z)\<^sup>2 \<le> (sin t)\<^sup>2"
      by (intro mult_left_le) (simp_all add: abs_square_le_1)
    then have "(cos t)\<^sup>2 + (sin t)\<^sup>2 * (cos z)\<^sup>2 \<le> 1"
      using sin_cos_squared_add [of t] by linarith
    then show ?thesis by simp
  qed
  finally have "(sin a * cos t + cos a * sin t * cos z)\<^sup>2 \<le> 1"
    using zero_le_power2 [of "cos a * cos t - sin a * sin t * cos z"] by linarith
  then show ?thesis by (simp add: abs_square_le_1)
qed

text \<open>The longitude step of the forward problem, in rectangular form.\<close>

lemma forward_step:
  fixes a t z :: real
  defines "s \<equiv> sin a * cos t + cos a * sin t * cos z"
  shows "(cos t - sin a * s)\<^sup>2 + (sin z * sin t * cos a)\<^sup>2 = (cos a)\<^sup>2 * (1 - s\<^sup>2)"
proof -
  have "(sin z)\<^sup>2 = 1 - (cos z)\<^sup>2" "(sin t)\<^sup>2 = 1 - (cos t)\<^sup>2" "(sin a)\<^sup>2 = 1 - (cos a)\<^sup>2"
    by (simp_all add: sin_squared_eq)
  then show ?thesis unfolding s_def by algebra
qed

lemma cos_arcsin_sq: "\<bar>s\<bar> \<le> 1 \<Longrightarrow> cos (arcsin s) = sqrt (1 - s\<^sup>2)"
  by (simp add: cos_arcsin abs_le_iff)



end
