(* ===== verification/Asterix_Publish.thy ===== *)
theory Asterix_Publish
  imports Topics Asterix_Frame Asterix_Items Geodesy
begin

text \<open>
  What the block handlers do with the decoded records: the publications they make, the
  placement of polar plots by the reporting radar's site, and the loop over the records of
  a block. A publication is a value; the handler's result is the list of its publications,
  in order.
\<close>

subsection \<open>Publications\<close>

text \<open>
  A call of \<open>publish_dual\<close> (topic, track, message class) and one of \<open>publish_native\<close>
  (topic, payload, protocol, profile).
\<close>

datatype event =
    PubDual string dict string
  | PubNative string bytes string string

fun natives :: "event list \<Rightarrow> bytes list" where
  "natives [] = []"
| "natives (PubDual t d c # es) = natives es"
| "natives (PubNative t b p q # es) = b # natives es"

lemma natives_append [simp]: "natives (es @ fs) = natives es @ natives fs"
  by (induction es rule: natives.induct) auto

text \<open>
  \<open>publish_native(pub, native_topic(semantic_topic(topic, track)),
  asterix_data_block(cat, raw), "asterix", profile=...)\<close>: \<open>None\<close> when the record does not
  fit a block header.
\<close>

definition native_event ::
  "(pyval \<Rightarrow> string) \<Rightarrow> string \<Rightarrow> dict \<Rightarrow> int \<Rightarrow> bytes \<Rightarrow> string \<Rightarrow> event option" where
  "native_event rp topic track cat raw profile = (case asterix_data_block cat raw of
     Inl _ \<Rightarrow> None
   | Inr blk \<Rightarrow> Some (PubNative (native_topic (semantic_topic rp topic track)) blk ''asterix'' profile))"

fun handle_records :: "(dict \<Rightarrow> bytes \<Rightarrow> event list option) \<Rightarrow> (dict \<times> bytes) list \<Rightarrow> event list option" where
  "handle_records publish [] = Some []"
| "handle_records publish ((track, raw) # rs) = do {
     es \<leftarrow> publish track raw;
     fs \<leftarrow> handle_records publish rs;
     Some (es @ fs)
   }"

subsection \<open>Radar sites\<close>

type_synonym sites = "int \<times> int \<Rightarrow> (real \<times> real) option"

text \<open>\<open>_cache_cat34_site\<close>: every exception is caught and means \<open>False\<close>.\<close>

definition cache_cat34_site :: "(pyval \<Rightarrow> string) \<Rightarrow> dict \<Rightarrow> sites \<Rightarrow> sites \<times> bool" where
  "cache_cat34_site rp track sites =
     (if \<not> starts_with ''ASTERIX CAT-34'' (py_str rp (dict_get track ''_src'' (VStr ''''))) then (sites, False)
      else case do {
          sac \<leftarrow> dget track ''sac'' \<bind> py_int;
          sic \<leftarrow> dget track ''sic'' \<bind> py_int;
          lat \<leftarrow> dget track ''lat_deg'' \<bind> py_float;
          lon \<leftarrow> dget track ''lon_deg'' \<bind> py_float;
          Some (sac, sic, lat, lon)
        } of
        None \<Rightarrow> (sites, False)
      | Some (sac, sic, lat, lon) \<Rightarrow>
          if \<not> (- 90 \<le> lat \<and> lat \<le> 90 \<and> - 180 \<le> lon \<and> lon \<le> 180) then (sites, False)
          else (sites((sac, sic) \<mapsto> (lat, lon)), True))"

text \<open>
  \<open>_geolocate_from_site\<close>: the track, and whether it has a position. The site comes from the
  cache, else from the configured default.
\<close>

definition geolocate_from_site ::
  "dict \<Rightarrow> real option \<times> real option \<Rightarrow> sites \<Rightarrow> (dict \<times> bool) option" where
  "geolocate_from_site track default_site sites =
     (if has_key ''lat_deg'' track \<and> has_key ''lon_deg'' track then Some (track, True)
      else case do {
          range_nm \<leftarrow> dget track ''range_nm'' \<bind> py_float;
          azimuth_deg \<leftarrow> dget track ''azimuth_deg'' \<bind> py_float;
          Some (range_nm, azimuth_deg)
        } of
        None \<Rightarrow> Some (track, False)
      | Some (range_nm, azimuth_deg) \<Rightarrow>
          if range_nm \<le> 0 then Some (track, False)
          else do {
            sac \<leftarrow> py_int (dict_get track ''sac'' (VInt 0));
            sic \<leftarrow> py_int (dict_get track ''sic'' (VInt 0));
            let site = (case sites (sac, sic) of
                Some s \<Rightarrow> Some s
              | None \<Rightarrow> (case default_site of (Some la, Some lo) \<Rightarrow> Some (la, lo) | _ \<Rightarrow> None));
            (case site of
               None \<Rightarrow> Some (track, False)
             | Some (la, lo) \<Rightarrow>
                 (case polar_to_wgs84 la lo range_nm azimuth_deg of (lat, lon) \<Rightarrow>
                   Some (puts track [(''lat_deg'', VFloat (py_round lat 6)),
                     (''lon_deg'', VFloat (py_round lon 6))], True)))
          })"

lemma geolocate_total:
  assumes "wf_track t"
  obtains t' b where "geolocate_from_site t site sites = Some (t', b)" "wf_track t'"
    "b \<longleftrightarrow> has_key ''lat_deg'' t' \<and> has_key ''lon_deg'' t'" "dget t' ''sac'' = dget t ''sac''"
    "dget t' ''sic'' = dget t ''sic''"
proof (cases "has_key ''lat_deg'' t \<and> has_key ''lon_deg'' t")
  case True
  with assms show ?thesis by (intro that [of t True]) (simp_all add: geolocate_from_site_def)
next
  case no: False
  obtain a where a: "dict_get t ''sac'' (VInt 0) = VInt a" by (rule wf_0d [OF assms, of "''sac''" 3]) auto
  obtain b where b: "dict_get t ''sic'' (VInt 0) = VInt b" by (rule wf_0d [OF assms, of "''sic''" 3]) auto
  note that0 = that
  have same: ?thesis if "geolocate_from_site t site sites = Some (t, False)"
    by (rule that0 [OF that]) (use no assms in auto)
  show ?thesis
  proof (cases "dget t ''range_nm'' \<bind> py_float"; cases "dget t ''azimuth_deg'' \<bind> py_float")
    fix r z
    assume r: "dget t ''range_nm'' \<bind> py_float = Some r" and z: "dget t ''azimuth_deg'' \<bind> py_float = Some z"
    define st where "st = (case sites (a, b) of Some s \<Rightarrow> Some s
      | None \<Rightarrow> (case site of (Some la, Some lo) \<Rightarrow> Some (la, lo) | _ \<Rightarrow> None))"
    show ?thesis
    proof (cases "r \<le> 0 \<or> st = None")
      case True
      with no r z a b show ?thesis
        by (intro same) (auto simp: geolocate_from_site_def py_int_def st_def)
    next
      case False
      then obtain la lo where st: "st = Some (la, lo)" by auto
      obtain lat lon where p: "polar_to_wgs84 la lo r z = (lat, lon)" by force
      from no r z a b False st p have "geolocate_from_site t site sites =
          Some (puts t [(''lat_deg'', VFloat (py_round lat 6)), (''lon_deg'', VFloat (py_round lon 6))], True)"
        by (auto simp: geolocate_from_site_def py_int_def st_def)
      then show ?thesis
        by (rule that) (use assms in \<open>simp_all add: flow_simps has_key_def dget_def update_conv'\<close>)
    qed
  qed (use no in \<open>auto intro!: same simp: geolocate_from_site_def\<close>)
qed

lemma wf_source:
  assumes "wf_track t"
  obtains a b where "asterix_source t = Some (fmt_0d 3 a @ ''-'' @ fmt_0d 3 b)"
proof -
  have num: "get_or_zero t k = VInt i" if "dict_get t k (VInt 0) = VInt i" for k i
    using that by (auto simp: get_or_zero_def dict_get_def truthy_def split: option.splits)
  obtain a where "dict_get t ''sac'' (VInt 0) = VInt a" by (rule wf_0d [OF assms, of "''sac''" 3]) auto
  moreover obtain b where "dict_get t ''sic'' (VInt 0) = VInt b" by (rule wf_0d [OF assms, of "''sic''" 3]) auto
  ultimately show ?thesis by (intro that [of a b]) (simp add: asterix_source_def val_0d_def num)
qed

subsection \<open>The records of a block\<close>

text \<open>
  If publishing a track publishes its record as one block of the category, and only when
  the track holds more than its stamp, then the handler publishes these records in order.
\<close>

lemma handle_records_kept:
  assumes "list_all (\<lambda>(t, r). wf_track t \<and> length r \<le> 65532) rs" and "0 \<le> c" and "c \<le> 255"
    and "\<And>t r blk. wf_track t \<Longrightarrow> asterix_data_block c r = Inr blk \<Longrightarrow>
      \<exists>es. publish t r = Some es \<and> natives es = (if keep t then [blk] else [])"
  shows "\<exists>es. handle_records publish rs = Some es \<and>
    list_all2 (\<lambda>blk r. asterix_data_block c r = Inr blk) (natives es) (map snd (filter (\<lambda>(t, r). keep t) rs))"
  using assms(1)
proof (induction rs)
  case (Cons x rs)
  obtain t r where x: "x = (t, r)" by force
  have "3 + length r < 65536" using Cons.prems by (simp add: x)
  then have "\<exists>h. pack_H (3 + length r) = Some h" by (simp add: pack_H_def)
  then obtain blk where blk: "asterix_data_block c r = Inr blk"
    using assms(2,3) Cons.prems by (auto simp: asterix_data_block_def x)
  then obtain es where es: "publish t r = Some es" "natives es = (if keep t then [blk] else [])"
    using assms(4) [of t r blk] Cons.prems x by auto
  from Cons obtain fs where "handle_records publish rs = Some fs"
    "list_all2 (\<lambda>blk r. asterix_data_block c r = Inr blk) (natives fs) (map snd (filter (\<lambda>(t, r). keep t) rs))" by auto
  with es blk show ?case by (intro exI [of _ "es @ fs"]) (simp add: x)
qed simp

lemma handle_records_natives:
  assumes "list_all (\<lambda>(t, r). wf_track t \<and> length r \<le> 65532) rs" and "0 \<le> c" and "c \<le> 255"
    and "\<And>t r blk. wf_track t \<Longrightarrow> asterix_data_block c r = Inr blk \<Longrightarrow>
      \<exists>es. publish t r = Some es \<and> natives es = (if 2 < length t then [blk] else [])"
  shows "\<exists>es. handle_records publish rs = Some es \<and>
    list_all2 (\<lambda>blk r. asterix_data_block c r = Inr blk) (natives es)
      (map snd (filter (\<lambda>(t, r). 2 < length t) rs))"
  using assms by (rule handle_records_kept)

lemma blocks_payload:
  "list_all2 (\<lambda>blk r. asterix_data_block c r = Inr blk) bs rs \<Longrightarrow>
     list_all (is_block c) bs \<and> concat (map (drop 3) bs) = concat rs"
  by (induction rule: list_all2_induct) (auto simp: asterix_data_block_iff)

lemma length_concat_member: "x \<in> set xs \<Longrightarrow> length x \<le> length (concat xs)"
  by (induction xs) auto

text \<open>The records of a block that fits a header each fit one.\<close>

lemma records_fit:
  "concat (map snd rs) = data \<Longrightarrow> list_all (\<lambda>(t, r). wf_track t \<and> r \<noteq> []) rs \<Longrightarrow> length data \<le> 65532 \<Longrightarrow>
     list_all (\<lambda>(t, r). wf_track t \<and> length r \<le> 65532) rs"
proof -
  assume a: "concat (map snd rs) = data" "list_all (\<lambda>(t, r). wf_track t \<and> r \<noteq> []) rs" "length data \<le> 65532"
  have "length r \<le> 65532" if "(t, r) \<in> set rs" for t r
    using length_concat_member [of r "map snd rs"] that a(1,3) by force
  with a(2) show ?thesis by (force simp: list_all_iff)
qed

end
