(* ===== verification/Asterix_Cat048.thy ===== *)
theory Asterix_Cat048
  imports Asterix_Publish
begin

text \<open>
  CAT-048, monoradar target reports: one definition per item of the user application
  profile, in the order of the field reference numbers, the record decoder, the placement
  of polar plots, and the block handler. The interpretation \<open>cat48\<close> of
  \<open>category_decoder\<close> shows that the decoder keeps the shared contract.
\<close>

subsection \<open>Items\<close>

definition cat48_i010 :: item where
  "cat48_i010 data d pos = need 2 data d pos (do {
     a \<leftarrow> byte_at data pos;
     b \<leftarrow> byte_at data (pos + 1);
     Some (Next (puts d [(''sac'', VInt a), (''sic'', VInt b)], pos + 2))
   })"

definition cat48_i140 :: item where
  "cat48_i140 data d pos = need 3 data d pos (do {
     raw \<leftarrow> u24 data pos;
     Some (Next (puts d [(''tod_s'', VFloat (of_int raw / 128))], pos + 3))
   })"

definition cat48_typ020 :: "string list" where
  "cat48_typ020 = [''no_detection'', ''psr'', ''ssr'', ''ssr_psr'', ''mode_s_all_call'',
     ''mode_s_roll_call'', ''mode_s_all_call_psr'', ''mode_s_roll_call_psr'']"

definition cat48_i020 :: item where
  "cat48_i020 data d pos = need 1 data d pos (do {
     b \<leftarrow> byte_at data pos;
     ty \<leftarrow> tuple_get cat48_typ020 (bitfield b 5 7);
     let d = puts d ([(''detection_type'', VStr ty)] @
       onlyif (bits b 0x10) [(''simulated'', VBool True)] @
       onlyif (bits b 0x08) [(''rdp_chain'', VBool True)] @
       onlyif (bits b 0x04) [(''spi'', VBool True)] @
       onlyif (bits b 0x02) [(''field_monitor'', VBool True)]);
     (if bits b 0x01 then need 1 data d (pos + 1) (do {
        b \<leftarrow> byte_at data (pos + 1);
        iff \<leftarrow> tuple_get ['''', ''friendly'', ''unknown'', ''no_reply''] (bitfield b 1 3);
        let d = puts d (
          onlyif (bits b 0x80) [(''test_target'', VBool True)] @
          onlyif (bits b 0x40) [(''extended_range'', VBool True)] @
          onlyif (bits b 0x20) [(''x_pulse'', VBool True)] @
          onlyif (bits b 0x10) [(''mil_emergency'', VBool True)] @
          onlyif (bits b 0x08) [(''mil_ident'', VBool True)] @
          onlyif (bitfield b 1 3 \<noteq> 0) [(''iff'', VStr iff)]);
        pos \<leftarrow> skip_fx data b (pos + 2);
        Some (Next (d, pos))
      })
      else Some (Next (d, pos + 1)))
   })"

definition cat48_i040 :: "real option \<Rightarrow> real option \<Rightarrow> item" where
  "cat48_i040 radar_lat radar_lon data d pos = need 4 data d pos (do {
     range_raw \<leftarrow> u16 data pos;
     az_raw \<leftarrow> u16 data (pos + 2);
     let range_nm = of_int range_raw / 256;
     let az_deg = of_int az_raw * 360 / 65536;
     let d = puts d [(''range_nm'', VFloat (py_round range_nm 3)),
       (''azimuth_deg'', VFloat (py_round az_deg 3))];
     Some (Next ((case (radar_lat, radar_lon) of
        (Some lat1, Some lon1) \<Rightarrow>
          if range_nm > 0 then
            let (lat, lon) = polar_to_wgs84 lat1 lon1 range_nm az_deg in
            setdefault ''lon_deg'' (VFloat (py_round lon 6))
              (setdefault ''lat_deg'' (VFloat (py_round lat 6)) d)
          else d
      | _ \<Rightarrow> d), pos + 4))
   })"

definition cat48_i070 :: item where
  "cat48_i070 data d pos = need 2 data d pos (do {
     w \<leftarrow> u16 data pos;
     Some (Next (puts d ([(''squawk'', VStr (fmt_pad 8 4 (w AND 0x0FFF)))] @
       onlyif (bits w 0x8000) [(''squawk_invalid'', VBool True)] @
       onlyif (bits w 0x4000) [(''squawk_garbled'', VBool True)] @
       onlyif (bits w 0x2000) [(''squawk_not_extracted'', VBool True)]), pos + 2))
   })"

definition cat48_i090 :: item where
  "cat48_i090 data d pos = need 2 data d pos (do {
     w \<leftarrow> u16 data pos;
     let raw = w AND 0x3FFF;
     let raw = (if bits raw 0x2000 then raw - 0x4000 else raw);
     Some (Next (puts d ([(''alt_baro_ft'', VInt (raw * 25))] @
       onlyif (bits w 0x8000) [(''alt_baro_invalid'', VBool True)] @
       onlyif (bits w 0x4000) [(''alt_baro_garbled'', VBool True)]), pos + 2))
   })"

definition cat48_names130 :: "string list" where
  "cat48_names130 = [''ssr_runlength_deg'', ''ssr_reply_count'', ''ssr_amplitude_dbm'',
     ''psr_runlength_deg'', ''psr_amplitude_dbm'', ''psr_ssr_range_diff_nm'', ''psr_ssr_az_diff_deg'']"

definition cat48_value130 :: "nat \<Rightarrow> int \<Rightarrow> pyval" where
  "cat48_value130 index v =
     (if index = 0 \<or> index = 3 then VFloat (py_round (of_int v * 360 / 8192) 3)
      else if index = 2 \<or> index = 4 then VInt (unpack_b v)
      else if index = 5 then VFloat (py_round (of_int (unpack_b v) / 256) 4)
      else if index = 6 then VFloat (py_round (of_int (unpack_b v) * 360 / 16384) 4)
      else VInt v)"

fun cat48_loop130 :: "bool list \<Rightarrow> (nat \<times> string) list \<Rightarrow> item" where
  "cat48_loop130 present [] data d pos = Some (Next (d, pos))"
| "cat48_loop130 present ((index, name) # names) data d pos = do {
     p \<leftarrow> tuple_get present (int index);
     (if \<not> p then cat48_loop130 present names data d pos
      else need 1 data d pos (do {
        v \<leftarrow> byte_at data pos;
        cat48_loop130 present names data (puts d [(name, cat48_value130 index v)]) (pos + 1)
      }))
   }"

definition cat48_i130 :: item where
  "cat48_i130 data d pos = (case compound_presence data pos of
     Inl _ \<Rightarrow> Some (Return (d, length data))
   | Inr (present, pos) \<Rightarrow>
       if list_ex id (drop 7 present) then Some (Return (d, length data))
       else cat48_loop130 present (List.enumerate 0 cat48_names130) data d pos)"

definition cat48_i220 :: item where
  "cat48_i220 data d pos = need 3 data d pos (do {
     addr \<leftarrow> u24 data pos;
     Some (Next (puts d [(''icao24'', VStr (fmt_pad 16 6 addr))], pos + 3))
   })"

definition cat48_i240 :: item where
  "cat48_i240 data d pos = need 6 data d pos
     (Some (Next (puts d [(''callsign'', VStr (decode_callsign (py_slice data pos (pos + 6))))], pos + 6)))"

definition cat48_bds250 :: "bytes \<Rightarrow> int \<Rightarrow> dict" where
  "cat48_bds250 mb bds =
     (let bds1 = bitfield bds 4 0x0F; bds2 = bds AND 0x0F in
      if bds1 = 1 \<and> bds2 = 0 then decode_bds10 mb
      else if bds1 = 1 \<and> bds2 = 7 then decode_bds17 mb
      else if bds1 = 3 \<and> bds2 = 0 then decode_bds30 mb
      else if bds1 = 4 \<and> bds2 = 0 then decode_bds40 mb
      else if bds1 = 5 \<and> bds2 = 0 then decode_bds50 mb
      else if bds1 = 6 \<and> bds2 = 0 then decode_bds60 mb
      else [])"

fun cat48_loop250 :: "nat \<Rightarrow> item" where
  "cat48_loop250 0 data d pos = Some (Next (d, pos))"
| "cat48_loop250 (Suc rep) data d pos =
     (if pos + 8 > length data then Some (Next (d, pos))
      else do {
        bds \<leftarrow> byte_at data (pos + 7);
        cat48_loop250 rep data (puts d (cat48_bds250 (py_slice data pos (pos + 7)) bds)) (pos + 8)
      })"

definition cat48_i250 :: item where
  "cat48_i250 data d pos = need 1 data d pos (do {
     rep \<leftarrow> byte_at data pos;
     cat48_loop250 (nat rep) data d (pos + 1)
   })"

definition cat48_i161 :: item where
  "cat48_i161 data d pos = need 2 data d pos (do {
     w \<leftarrow> u16 data pos;
     Some (Next (puts d [(''track_num'', VInt (w AND 0x0FFF))], pos + 2))
   })"

definition cat48_i042 :: item where
  "cat48_i042 data d pos = need 4 data d pos (do {
     x \<leftarrow> s16 data pos;
     y \<leftarrow> s16 data (pos + 2);
     Some (Next (puts d [(''cart_x_nm'', VFloat (py_round (of_int x / 128) 3)),
       (''cart_y_nm'', VFloat (py_round (of_int y / 128) 3))], pos + 4))
   })"

definition cat48_i200 :: item where
  "cat48_i200 data d pos = need 4 data d pos (do {
     spd_raw \<leftarrow> u16 data pos;
     hdg_raw \<leftarrow> u16 data (pos + 2);
     Some (Next (puts d [(''speed_ms'', VFloat (py_round (of_int spd_raw * 1852 / 16384) 2)),
       (''heading_deg'', VFloat (py_round (of_int hdg_raw * 360 / 65536) 2))], pos + 4))
   })"

definition cat48_i170 :: item where
  "cat48_i170 data d pos = need 1 data d pos (do {
     b \<leftarrow> byte_at data pos;
     sensor \<leftarrow> tuple_get [''combined'', ''psr'', ''ssr_mode_s'', ''invalid''] (bitfield b 5 3);
     let cdm = bitfield b 1 3;
     let d = puts d ([(''confirmed'', VBool (\<not> bits b 0x80))] @
       onlyif (bits b 0x80) [(''track_tentative'', VBool True)] @
       [(''track_sensor'', VStr sensor)] @
       onlyif (bits b 0x10) [(''track_doubtful'', VBool True)] @
       onlyif (bits b 0x08) [(''track_manoeuvre'', VBool True)] @
       (if cdm = 1 then [(''vertical_trend'', VStr ''climbing'')]
        else if cdm = 2 then [(''vertical_trend'', VStr ''descending'')]
        else if cdm = 3 then [(''vertical_trend'', VStr ''unknown'')] else []));
     (if bits b 0x01 then need 1 data d (pos + 1) (do {
        b \<leftarrow> byte_at data (pos + 1);
        let d = puts d (
          onlyif (bits b 0x80) [(''track_end'', VBool True)] @
          onlyif (bits b 0x40) [(''track_ghost'', VBool True)] @
          onlyif (bits b 0x20) [(''supported_by_neighbour_node'', VBool True)] @
          onlyif (bits b 0x10) [(''slant_range_correction'', VBool True)]);
        pos \<leftarrow> skip_fx data b (pos + 2);
        Some (Next (d, pos))
      })
      else Some (Next (d, pos + 1)))
   })"

definition cat48_i210 :: item where
  "cat48_i210 data d pos = need 4 data d pos (do {
     x \<leftarrow> byte_at data pos;
     y \<leftarrow> byte_at data (pos + 1);
     v \<leftarrow> byte_at data (pos + 2);
     h \<leftarrow> byte_at data (pos + 3);
     Some (Next (puts d [
       (''track_sigma_x_nm'', VFloat (py_round (of_int x / 128) 4)),
       (''track_sigma_y_nm'', VFloat (py_round (of_int y / 128) 4)),
       (''track_sigma_v_kt'', VFloat (py_round (of_int v * (1 / 2 ^ 14) * 3600) 2)),
       (''track_sigma_heading_deg'', VFloat (py_round (of_int h * 360 / 4096) 2))], pos + 4))
   })"

definition cat48_we030 :: "(int \<times> string) list" where
  "cat48_we030 = [
     (1, ''multipath_reply''), (2, ''sidelobe_reply''), (3, ''split_plot''),
     (4, ''second_time_around''), (5, ''angel''), (6, ''terrestrial_vehicle''),
     (7, ''fixed_psr_plot''), (8, ''slow_psr_target''), (9, ''low_quality_psr''),
     (10, ''phantom_ssr''), (11, ''mode3a_mismatch''), (12, ''abnormal_altitude''),
     (13, ''clutter''), (14, ''max_zero_filter_doppler''), (15, ''transponder_anomaly''),
     (16, ''duplicate_illegal_address''), (17, ''mode_s_error_correction''),
     (18, ''undecodable_altitude''), (19, ''bird''), (20, ''flock_of_birds''),
     (21, ''mode1_present''), (22, ''mode2_present''), (23, ''wind_turbine''),
     (24, ''helicopter''), (25, ''max_surveillance_reinterrogations''),
     (26, ''max_bds_reinterrogations''), (27, ''bds_overlay_incoherence''),
     (28, ''potential_bds_swap''), (29, ''zenithal_gap_update''),
     (30, ''mode_s_track_reacquired''), (31, ''duplicate_mode5_pair''),
     (32, ''wrong_df_format''), (33, ''mode_ac_all_call_anomaly''),
     (34, ''si_capability_anomaly''), (35, ''potential_ic_conflict''),
     (36, ''ic_conflict_detection_possible''), (37, ''duplicate_mode5_pin'')]"

text \<open>The octet loop of the warning conditions, one octet at a time.\<close>

definition cat48_one030 :: "dict \<Rightarrow> int \<Rightarrow> dict option" where
  "cat48_one030 d code = do {
     d \<leftarrow> (case map_of cat48_we030 code of
        None \<Rightarrow> Some d
      | Some name \<Rightarrow> append_to ''warning_error_names'' (VStr name) d);
     Some (puts d (onlyif (code = 6)
       [(''target_type'', VStr ''ground_vehicle''), (''on_ground'', VBool True)]))
   }"

function cat48_loop030 :: "bytes \<Rightarrow> dict \<Rightarrow> int list \<Rightarrow> nat \<Rightarrow> (dict \<times> int list \<times> nat) option" where
  "cat48_loop030 data d codes pos =
     (if pos \<ge> length data then Some (d, codes, pos)
      else do {
        b \<leftarrow> byte_at data pos;
        let code = bitfield b 1 0x7F;
        d \<leftarrow> cat48_one030 d code;
        (if \<not> bits b 1 then Some (d, codes @ [code], pos + 1)
         else cat48_loop030 data d (codes @ [code]) (pos + 1))
      })"
  by pat_completeness auto
termination
  by (relation "measure (\<lambda>(data, d, codes, pos). length data - pos)") auto

declare cat48_loop030.simps [simp del]

definition cat48_i030 :: item where
  "cat48_i030 data d pos = do {
     (d, codes, pos) \<leftarrow> cat48_loop030 data d [] pos;
     Some (Next (puts d (onlyif (codes \<noteq> []) [(''we_conditions'', VList (map VInt codes))]), pos))
   }"

definition cat48_i080 :: item where
  "cat48_i080 data d pos = need 2 data d pos (do {
     w \<leftarrow> u16 data pos;
     Some (Next (puts d [(''squawk_quality_mask'', VInt (w AND 0x0FFF))], pos + 2))
   })"

definition cat48_i100 :: item where
  "cat48_i100 data d pos = need 4 data d pos (do {
     code \<leftarrow> u16 data pos;
     Some (Next (puts d (case gillham_to_ft code of
        None \<Rightarrow> [] | Some alt \<Rightarrow> [(''mode_c_alt_ft'', VInt alt)]), pos + 4))
   })"

definition cat48_i110 :: item where
  "cat48_i110 data d pos = need 2 data d pos (do {
     h \<leftarrow> s16 data pos;
     Some (Next (puts d [(''alt_3d_ft'', VInt (h * 25))], pos + 2))
   })"

definition cat48_cal120 :: item where
  "cat48_cal120 data d pos = need 2 data d pos (do {
     w \<leftarrow> u16 data pos;
     let raw = w AND 0x03FF;
     let raw = (if bits raw 0x0200 then raw - 0x0400 else raw);
     Some (Next (puts d ([(''doppler_ms'', VInt raw),
       (''doppler_kt'', VFloat (py_round (of_int raw * 1.943844) 1))] @
       onlyif (bits w 0x8000) [(''doppler_doubtful'', VBool True)]), pos + 2))
   })"

definition cat48_rds120 :: item where
  "cat48_rds120 data d pos = need 1 data d pos (do {
     rep \<leftarrow> byte_at data pos;
     need (nat rep * 6) data d (pos + 1)
       (if rep > 0 then do {
          speed \<leftarrow> s16 data (pos + 1);
          amb \<leftarrow> u16 data (pos + 3);
          frq \<leftarrow> u16 data (pos + 5);
          Some (Next (puts d [(''doppler_raw_ms'', VInt speed), (''doppler_ambiguity_ms'', VInt amb),
            (''doppler_frequency_mhz'', VInt frq)], pos + 1 + nat rep * 6))
        }
        else Some (Next (d, pos + 1 + nat rep * 6)))
   })"

definition cat48_i120 :: item where
  "cat48_i120 data d pos = (case compound_presence data pos of
     Inl _ \<Rightarrow> Some (Return (d, length data))
   | Inr (present, pos) \<Rightarrow>
       if list_ex id (drop 2 present) then Some (Return (d, length data))
       else do {
         cal \<leftarrow> tuple_get present 0;
         rds \<leftarrow> tuple_get present 1;
         then_item (if cal then cat48_cal120 data d pos else Some (Next (d, pos)))
           (\<lambda>d pos. if rds then cat48_rds120 data d pos else Some (Next (d, pos)))
       })"

definition cat48_stat230 :: "string list" where
  "cat48_stat230 = [''no_alert_no_spi_airborne'', ''no_alert_no_spi_ground'',
     ''alert_no_spi_airborne'', ''alert_no_spi_ground'',
     ''alert_spi'', ''no_alert_spi'', ''unassigned'', ''unknown'']"

definition cat48_i230 :: item where
  "cat48_i230 data d pos = need 2 data d pos (do {
     b0 \<leftarrow> byte_at data pos;
     b1 \<leftarrow> byte_at data (pos + 1);
     let com = bitfield b0 5 7;
     let stat = bitfield b0 2 7;
     status \<leftarrow> tuple_get cat48_stat230 (bitfield b0 2 7);
     Some (Next (puts d ([(''com_capability'', VInt com), (''transponder_status'', VStr status)] @
       onlyif (stat \<in> set [1, 3]) [(''on_ground'', VBool True)] @
       onlyif (stat \<in> set [2, 3, 4]) [(''alert'', VBool True)] @
       onlyif (stat \<in> set [4, 5]) [(''spi'', VBool True)] @
       [(''interrogator_code_capability'', VStr (if bits b0 0x02 then ''II'' else ''SI''))] @
       onlyif (bits b1 0x80) [(''mssc'', VBool True)] @
       onlyif (bits b1 0x40) [(''altitude_25ft'', VBool True)] @
       onlyif (bits b1 0x20) [(''aic'', VBool True)] @
       [(''bds10_b1a'', VBool (bits b1 0x10)), (''bds10_b1b'', VInt (b1 AND 0x0F))]), pos + 2))
   })"

definition cat48_i260 :: item where
  "cat48_i260 data d pos = need 7 data d pos
     (Some (Next (puts d (decode_bds30 (py_slice data pos (pos + 7))), pos + 7)))"

definition cat48_i055 :: item where
  "cat48_i055 data d pos = need 1 data d pos (do {
     b \<leftarrow> byte_at data pos;
     Some (Next (puts d ([(''mode1'', VStr (fmt_pad 8 2 (b AND 0x1F)))] @
       onlyif (bits b 0x80) [(''mode1_invalid'', VBool True)] @
       onlyif (bits b 0x40) [(''mode1_garbled'', VBool True)] @
       onlyif (bits b 0x20) [(''mode1_smoothed'', VBool True)]), pos + 1))
   })"

definition cat48_i050 :: item where
  "cat48_i050 data d pos = need 2 data d pos (do {
     w \<leftarrow> u16 data pos;
     Some (Next (puts d ([(''mode2'', VStr (fmt_pad 8 4 (w AND 0x0FFF)))] @
       onlyif (bits w 0x8000) [(''mode2_invalid'', VBool True)] @
       onlyif (bits w 0x4000) [(''mode2_garbled'', VBool True)] @
       onlyif (bits w 0x2000) [(''mode2_smoothed'', VBool True)]), pos + 2))
   })"

definition cat48_i065 :: item where
  "cat48_i065 data d pos = need 1 data d pos (do {
     b \<leftarrow> byte_at data pos;
     Some (Next (puts d [(''mode1_quality_mask'', VInt b)], pos + 1))
   })"

definition cat48_i060 :: item where
  "cat48_i060 data d pos = need 2 data d pos (do {
     w \<leftarrow> u16 data pos;
     Some (Next (puts d [(''mode2_quality_mask'', VInt w)], pos + 2))
   })"

definition cat48_items :: "real option \<Rightarrow> real option \<Rightarrow> item list" where
  "cat48_items radar_lat radar_lon = [
     cat48_i010, cat48_i140, cat48_i020, cat48_i040 radar_lat radar_lon, cat48_i070, cat48_i090,
     cat48_i130, cat48_i220, cat48_i240, cat48_i250, cat48_i161, cat48_i042, cat48_i200,
     cat48_i170, cat48_i210, cat48_i030, cat48_i080, cat48_i100, cat48_i110, cat48_i120,
     cat48_i230, cat48_i260, cat48_i055, cat48_i050, cat48_i065, cat48_i060, skip_item, skip_item]"

subsection \<open>The record decoder\<close>

text \<open>The clock is the argument \<open>now\<close>.\<close>

definition cat48_track0 :: "real \<Rightarrow> dict" where
  "cat48_track0 now = [(''_ts'', VFloat now), (''_src'', VStr ''ASTERIX CAT-48 Ed.1.32'')]"

definition cat48_finish :: "dict \<Rightarrow> dict option" where
  "cat48_finish track =
     (if \<not> has_key ''icao24'' track then do {
        sac \<leftarrow> val_0d 3 (dict_get track ''sac'' (VInt 0));
        sic \<leftarrow> val_0d 3 (dict_get track ''sic'' (VInt 0));
        num \<leftarrow> val_0d 4 (dict_get track ''track_num'' (VInt 0));
        Some (puts track [(''radar_id'', VStr (''CAT48-'' @ sac @ ''-'' @ sic @ ''-'' @ num))])
      } else Some track)"

definition decode_cat048_record ::
  "real \<Rightarrow> real option \<Rightarrow> real option \<Rightarrow> bytes \<Rightarrow> nat \<Rightarrow> dstate option" where
  "decode_cat048_record now radar_lat radar_lon =
     decode_with (cat48_track0 now) (dispatch (cat48_items radar_lat radar_lon)) cat48_finish"

subsection \<open>The contract of the items\<close>

lemma typed_bds250 [flow_simps]: "typed (cat48_bds250 mb bds)"
  by (simp add: cat48_bds250_def Let_def flow_simps)

lemma cat48_i010_moves [item_ok]: "item_moves cat48_i010"
  by (simp add: item_moves_def cat48_i010_def flow_simps byte_simps Let_def)

lemma cat48_i140_moves [item_ok]: "item_moves cat48_i140"
  by (simp add: item_moves_def cat48_i140_def flow_simps byte_simps Let_def)

lemma cat48_i020_moves [item_ok]: "item_moves cat48_i020"
  by (simp add: item_moves_def cat48_i020_def cat48_typ020_def flow_simps byte_simps Let_def)

lemma cat48_i070_moves [item_ok]: "item_moves cat48_i070"
  by (simp add: item_moves_def cat48_i070_def flow_simps byte_simps Let_def)

lemma cat48_i090_moves [item_ok]: "item_moves cat48_i090"
  by (simp add: item_moves_def cat48_i090_def flow_simps byte_simps Let_def)

lemma cat48_i220_moves [item_ok]: "item_moves cat48_i220"
  by (simp add: item_moves_def cat48_i220_def flow_simps byte_simps Let_def)

lemma cat48_i240_moves [item_ok]: "item_moves cat48_i240"
  by (simp add: item_moves_def cat48_i240_def flow_simps byte_simps Let_def)

lemma cat48_i161_moves [item_ok]: "item_moves cat48_i161"
  by (simp add: item_moves_def cat48_i161_def flow_simps byte_simps Let_def)

lemma cat48_i042_moves [item_ok]: "item_moves cat48_i042"
  by (simp add: item_moves_def cat48_i042_def flow_simps byte_simps Let_def)

lemma cat48_i200_moves [item_ok]: "item_moves cat48_i200"
  by (simp add: item_moves_def cat48_i200_def flow_simps byte_simps Let_def)

lemma cat48_i170_moves [item_ok]: "item_moves cat48_i170"
  by (simp add: item_moves_def cat48_i170_def flow_simps byte_simps Let_def)

lemma cat48_i210_moves [item_ok]: "item_moves cat48_i210"
  by (simp add: item_moves_def cat48_i210_def flow_simps byte_simps Let_def)

lemma cat48_i080_moves [item_ok]: "item_moves cat48_i080"
  by (simp add: item_moves_def cat48_i080_def flow_simps byte_simps Let_def)

lemma cat48_i100_moves [item_ok]: "item_moves cat48_i100"
  by (simp add: item_moves_def cat48_i100_def flow_simps byte_simps Let_def split: option.split)

lemma cat48_i110_moves [item_ok]: "item_moves cat48_i110"
  by (simp add: item_moves_def cat48_i110_def flow_simps byte_simps Let_def)

lemma cat48_cal120_moves [item_ok]: "item_moves cat48_cal120"
  by (simp add: item_moves_def cat48_cal120_def flow_simps byte_simps Let_def)

lemma rep_pos: "0 < uint (b :: byte) \<Longrightarrow> 1 \<le> unat b"
  using uint_nat [of b] by linarith

lemma cat48_rds120_moves [item_ok]: "item_moves cat48_rds120"
proof -
  have "moves p (length data) (cat48_rds120 data d p)" if "wf_track d" "p \<le> length data" for data d p
  proof (cases "p + 1 \<le> length data \<and> 0 < uint (data ! p) \<and> p + 1 + nat (uint (data ! p)) * 6 \<le> length data")
    case True
    then have "p + 7 \<le> length data" using rep_pos [of "data ! p"] by simp
    with True that show ?thesis
      by (simp add: cat48_rds120_def flow_simps byte_simps)
  qed (use that in \<open>auto simp: cat48_rds120_def flow_simps byte_simps\<close>)
  then show ?thesis by (simp add: item_moves_def)
qed

lemma cat48_i230_moves [item_ok]: "item_moves cat48_i230"
  by (simp add: item_moves_def cat48_i230_def cat48_stat230_def flow_simps byte_simps Let_def)

lemma cat48_i260_moves [item_ok]: "item_moves cat48_i260"
  by (simp add: item_moves_def cat48_i260_def flow_simps byte_simps Let_def)

lemma cat48_i055_moves [item_ok]: "item_moves cat48_i055"
  by (simp add: item_moves_def cat48_i055_def flow_simps byte_simps Let_def)

lemma cat48_i050_moves [item_ok]: "item_moves cat48_i050"
  by (simp add: item_moves_def cat48_i050_def flow_simps byte_simps Let_def)

lemma cat48_i065_moves [item_ok]: "item_moves cat48_i065"
  by (simp add: item_moves_def cat48_i065_def flow_simps byte_simps Let_def)

lemma cat48_i060_moves [item_ok]: "item_moves cat48_i060"
  by (simp add: item_moves_def cat48_i060_def flow_simps byte_simps Let_def)


lemma typed_loop130: "wf_track d \<Longrightarrow> length present \<ge> 7 \<Longrightarrow> list_all (\<lambda>(i, name). i < 7 \<and> (\<forall>v. field_ok name v)) names \<Longrightarrow>
   p \<le> q \<Longrightarrow> q \<le> length data \<Longrightarrow> moves p (length data) (cat48_loop130 present names data d q)"
  by (induction present names data d q rule: cat48_loop130.induct)
    (auto simp: flow_simps byte_simps tuple_get_def)

lemma cat48_i130_moves [item_ok]: "item_moves cat48_i130"
proof -
  have "list_all (\<lambda>(i, name). i < 7 \<and> (\<forall>v. field_ok name v)) (List.enumerate 0 cat48_names130)"
    by (simp add: cat48_names130_def field_ok_def)
  then show ?thesis
    by (auto simp: item_moves_def cat48_i130_def flow_simps typed_loop130
        dest!: compound_presence_moves split: sum.split)
qed

lemma loop250_moves: "wf_track d \<Longrightarrow> p \<le> q \<Longrightarrow> q \<le> length data \<Longrightarrow> moves p (length data) (cat48_loop250 rep data d q)"
  by (induction rep data d q rule: cat48_loop250.induct) (auto simp: flow_simps byte_simps)

lemma cat48_i250_moves [item_ok]: "item_moves cat48_i250"
  by (simp add: item_moves_def cat48_i250_def flow_simps byte_simps loop250_moves)

lemma one030_typed: "wf_track d \<Longrightarrow> \<exists>d'. cat48_one030 d code = Some d' \<and> wf_track d'"
proof (cases "map_of cat48_we030 code")
  case (Some name)
  assume "wf_track d"
  then obtain d' where "append_to ''warning_error_names'' (VStr name) d = Some d'" "wf_track d'"
    by (rule append_to_names)
  with Some show ?thesis by (simp add: cat48_one030_def flow_simps)
qed (simp add: cat48_one030_def flow_simps)

lemma loop030_moves:
  "wf_track d \<Longrightarrow> p \<le> q \<Longrightarrow> q \<le> length data \<Longrightarrow> \<exists>d' cs r. cat48_loop030 data d codes q = Some (d', cs, r) \<and> wf_track d' \<and>
     p \<le> r \<and> r \<le> length data"
proof (induction data d codes q rule: cat48_loop030.induct)
  case (1 data d codes q)
  show ?case
  proof (cases "q < length data")
    case True
    then have rd: "byte_at data q = Some (uint (data ! q))" by (simp add: byte_simps)
    obtain d' where d': "cat48_one030 d (bitfield (uint (data ! q)) 1 127) = Some d'" "wf_track d'"
      using one030_typed "1.prems" by blast
    with "1.IH" [OF _ rd refl d'(1)] "1.prems" True rd show ?thesis
      by (auto simp: cat48_loop030.simps [of data d codes q] Let_def)
  qed (use "1.prems" in \<open>simp add: cat48_loop030.simps [of data d codes "length data"]\<close>)
qed

lemma cat48_i030_moves [item_ok]: "item_moves cat48_i030"
proof -
  have "moves p (length data) (cat48_i030 data d p)" if "wf_track d" "p \<le> length data" for data d p
    using loop030_moves [OF that(1) order_refl that(2), of "[]"]
    by (auto simp: cat48_i030_def flow_simps)
  then show ?thesis by (simp add: item_moves_def)
qed

lemma cat48_i120_moves [item_ok]: "item_moves cat48_i120"
proof -
  have "moves p (length data) (cat48_i120 data d p)" if "wf_track d" "p \<le> length data" for data d p
    using that
    by (auto simp: cat48_i120_def flow_simps byte_simps tuple_get_def dest!: compound_presence_moves
       intro!: moves_then_item item_movesD [OF cat48_cal120_moves] item_movesD [OF cat48_rds120_moves] split: sum.split)
  then show ?thesis by (simp add: item_moves_def)
qed

lemma cat48_i040_moves [item_ok]: "item_moves (cat48_i040 rl rn)"
  by (simp add: item_moves_def cat48_i040_def flow_simps byte_simps Let_def split: option.split prod.split)
lemma cat48_items_moves: "list_all item_moves (cat48_items rl rn)"
  by (simp add: cat48_items_def item_ok)

lemma cat48_finish_total: "wf_track d \<Longrightarrow> \<exists>d'. cat48_finish d = Some d' \<and> wf_track d' \<and> 2 < length d'"
proof (cases "has_key ''icao24'' d")
  case False
  assume d: "wf_track d"
  obtain a where "val_0d 3 (dict_get d ''sac'' (VInt 0)) = Some a"
    by (rule wf_0d [OF d, of "''sac''" 3]) auto
  moreover obtain b where "val_0d 3 (dict_get d ''sic'' (VInt 0)) = Some b"
    by (rule wf_0d [OF d, of "''sic''" 3]) auto
  moreover obtain c where "val_0d 4 (dict_get d ''track_num'' (VInt 0)) = Some c"
    by (rule wf_0d [OF d, of "''track_num''" 4]) auto
  ultimately have *: "cat48_finish d = Some (puts d [(''radar_id'', VStr (''CAT48-'' @ a @ ''-'' @ b @ ''-'' @ c))])"
    using False by (simp add: cat48_finish_def)
  have w: "wf_track (puts d [(''radar_id'', VStr (''CAT48-'' @ a @ ''-'' @ b @ ''-'' @ c))])"
    using d by (simp add: flow_simps)
  moreover have "has_key ''radar_id'' (puts d [(''radar_id'', VStr (''CAT48-'' @ a @ ''-'' @ b @ ''-'' @ c))])"
    by (simp add: has_key_def update_conv')
  ultimately show ?thesis using * wf_track_key [OF w] by auto
qed (auto simp: cat48_finish_def dest: wf_track_key)

interpretation cat48: identified_decoder "cat48_track0 now" "dispatch (cat48_items rl rn)" cat48_finish
  for now rl rn
proof unfold_locales
  show "wf_track (cat48_track0 now)"
    by (simp add: cat48_track0_def wf_track_def flow_simps)
  show "moves p (length data) (dispatch (cat48_items rl rn) data frn d p)"
    if "wf_track d" "p \<le> length data" for d p data frn
    using that by (rule dispatch_moves [OF cat48_items_moves])
qed (use cat48_finish_total in fastforce)+

subsection \<open>The block handler\<close>

text \<open>
  The topic constant is formatted with the source; \<open>pre\<close> is the deployment's topic root.
  Console output is not modelled.
\<close>

definition cat48_topic :: "string \<Rightarrow> string \<Rightarrow> string" where
  "cat48_topic pre source = pre @ ''/air/'' @ source @ ''/radar/unknown/aircraft''"

definition cat48_pub :: "string \<Rightarrow> dict \<Rightarrow> event list option" where
  "cat48_pub pre track =
     (if \<not> has_key ''lat_deg'' track \<or> \<not> has_key ''lon_deg'' track then Some []
      else do {
        source \<leftarrow> asterix_source track;
        Some [PubDual (cat48_topic pre source) track ''AsterixCat48Track'']
      })"

definition cat48_publish ::
  "(pyval \<Rightarrow> string) \<Rightarrow> string \<Rightarrow> real option \<times> real option \<Rightarrow> sites \<Rightarrow> dict \<Rightarrow> bytes \<Rightarrow> event list option" where
  "cat48_publish rp pre site sites track raw =
     (if length track > 2 then do {
        (track, located) \<leftarrow> geolocate_from_site track site sites;
        dual \<leftarrow> cat48_pub pre track;
        source \<leftarrow> asterix_source track;
        native \<leftarrow> native_event rp (cat48_topic pre source) track 48 raw ''cat048'';
        Some (dual @ [native])
      } else Some [])"

definition cat48_handler ::
  "(pyval \<Rightarrow> string) \<Rightarrow> string \<Rightarrow> real \<Rightarrow> real option \<times> real option \<Rightarrow> sites \<Rightarrow> bytes \<Rightarrow> event list option" where
  "cat48_handler rp pre now site sites data = do {
     rs \<leftarrow> decode_records (decode_cat048_record now (fst site) (snd site)) data 0;
     handle_records (cat48_publish rp pre site sites) rs
   }"

lemma cat48_publish_native:
  assumes "wf_track t" and "asterix_data_block 48 r = Inr blk"
  shows "\<exists>es. cat48_publish rp pre site sites t r = Some es \<and>
    natives es = (if 2 < length t then [blk] else [])"
proof -
  obtain t' b where g: "geolocate_from_site t site sites = Some (t', b)" and w: "wf_track t'"
    by (rule geolocate_total [OF assms(1)])
  obtain x y where "asterix_source t' = Some (fmt_0d 3 x @ ''-'' @ fmt_0d 3 y)" by (rule wf_source [OF w])
  with g assms(2) show ?thesis by (auto simp: cat48_publish_def cat48_pub_def native_event_def)
qed

text \<open>
  C8: CAT-048 decoding is total. Whatever octets a record holds, the decoder returns
  without an exception, it consumes at least one octet and none beyond the block, and the
  track it returns is well formed: octet sensor codes, a 16-bit track number, a Mode 3/A code of
  four octal digits and an aircraft address of six hexadecimal digits wherever they occur.
\<close>

theorem decode_cat048_record_total:
  assumes "pos < length data"
  shows "\<exists>track p. decode_cat048_record now radar_lat radar_lon data pos = Some (track, p) \<and>
    wf_track track \<and> pos < p \<and> p \<le> length data"
  unfolding decode_cat048_record_def by (rule cat48.decode_moves [OF assms])

theorem decode_cat048_record_total_witness:
  "\<exists>track p. decode_cat048_record 0 None None [0xD0, 48, 10, 1] 0 = Some (track, p) \<and>
    wf_track track \<and> 0 < p \<and> p \<le> 4"
  using decode_cat048_record_total [of 0 "[0xD0, 48, 10, 1]" 0 None None]
  by (simp add: eval_nat_numeral)



end
