(* ===== verification/Asterix_Fields.thy ===== *)
theory Asterix_Fields
  imports Asterix_Cat048
begin

text \<open>
  What the decoders of CAT-020, CAT-021 and CAT-062 share beyond the item library: wider
  reads, bounded presence maps, chains of extents, register loops, and the block handler
  that publishes every record with contents. The locale \<open>track_category\<close> is the contract
  of such a handler.
\<close>

subsection \<open>Reads\<close>

text \<open>\<open>s24\<close>, \<open>s32\<close> and \<open>u32\<close> of a slice: \<open>None\<close> when it is short.\<close>

definition s24 :: "bytes \<Rightarrow> nat \<Rightarrow> int option" where
  "s24 data pos = (if pos + 3 \<le> length data
     then Some (sign_extend 24 (from_bytes_big (py_slice data pos (pos + 3)))) else None)"

definition s32 :: "bytes \<Rightarrow> nat \<Rightarrow> int option" where
  "s32 data pos = (if pos + 4 \<le> length data
     then Some (sign_extend 32 (from_bytes_big (py_slice data pos (pos + 4)))) else None)"

definition u32 :: "bytes \<Rightarrow> nat \<Rightarrow> int option" where
  "u32 data pos = (if pos + 4 \<le> length data
     then Some (from_bytes_big (py_slice data pos (pos + 4))) else None)"

text \<open>\<open>raw.hex()\<close>.\<close>

definition hex_bytes :: "bytes \<Rightarrow> string" where
  "hex_bytes raw = concat (map (\<lambda>b. fmt_pad 16 2 (uint b)) raw)"

definition hypot :: "real \<Rightarrow> real \<Rightarrow> real" where
  "hypot x y = sqrt (x\<^sup>2 + y\<^sup>2)"

text \<open>\<open>x % m\<close> on floats.\<close>

definition float_mod :: "real \<Rightarrow> real \<Rightarrow> real" where
  "float_mod x m = x - m * of_int \<lfloor>x / m\<rfloor>"

text \<open>The speed and heading of a Cartesian velocity, when it is not zero.\<close>

definition ground_vector :: "real \<Rightarrow> real \<Rightarrow> (string \<times> pyval) list" where
  "ground_vector vx vy =
     [(''speed_ms'', VFloat (py_round (hypot vx vy) 2))] @
     onlyif (vx \<noteq> 0 \<or> vy \<noteq> 0)
       [(''heading_deg'', VFloat (py_round (float_mod (degrees (atan2 vx vy)) 360) 2))]"

subsection \<open>Presence maps and extents\<close>

text \<open>A presence map of at most \<open>maximum\<close> octets; \<open>Inl ()\<close> is the \<open>ValueError\<close>.\<close>

fun presence :: "nat \<Rightarrow> bytes \<Rightarrow> nat \<Rightarrow> bool list \<Rightarrow> unit + (bool list \<times> nat)" where
  "presence 0 data pos present = (case byte_at data (pos - 1) of
     None \<Rightarrow> Inl () | Some b \<Rightarrow> if bits b 1 then Inl () else Inr (present, pos))"
| "presence (Suc maximum) data pos present = (case byte_at data pos of
     None \<Rightarrow> Inl ()
   | Some byte \<Rightarrow>
       if \<not> bits byte 1 then Inr (present @ fspec_octet byte, pos + 1)
       else presence maximum data (pos + 1) (present @ fspec_octet byte))"

text \<open>
  \<open>while b & 1: if pos >= len(data): return track, len(data); b = data[pos]; pos += 1;
  extent += 1; ...\<close>, where the updates depend on the extent and its octet.
\<close>

function extents :: "(nat \<Rightarrow> int \<Rightarrow> dict \<Rightarrow> dict) \<Rightarrow> nat \<Rightarrow> int \<Rightarrow> item" where
  "extents update extent b data d pos =
     (if \<not> bits b 1 then Some (Next (d, pos))
      else if pos + 1 > length data then Some (Return (d, length data))
      else do {
        b \<leftarrow> byte_at data pos;
        extents update (extent + 1) b data (update (extent + 1) b d) (pos + 1)
      })"
  by pat_completeness auto
termination
  by (relation "measure (\<lambda>(u, e, b, data, d, pos). length data - pos)") auto

declare extents.simps [simp del]

text \<open>Mode S registers, eight octets each; a short one ends the record.\<close>

fun register_loop :: "nat \<Rightarrow> item" where
  "register_loop 0 data d pos = Some (Next (d, pos))"
| "register_loop (Suc rep) data d pos = need 8 data d pos (do {
     bds \<leftarrow> byte_at data (pos + 7);
     register_loop rep data (puts d (cat48_bds250 (py_slice data pos (pos + 7)) bds)) (pos + 8)
   })"

subsection \<open>Their contracts\<close>

lemma presence_moves:
  assumes "presence m data pos acc = Inr (fs, p)" and "0 < m"
  shows "pos < p \<and> p \<le> length data \<and> length acc + 7 \<le> length fs"
proof -
  have "presence m data pos acc = Inr (fs, p) \<Longrightarrow>
      (if m = 0 then p = pos \<and> fs = acc else pos < p \<and> p \<le> length data \<and> length acc + 7 \<le> length fs)"
  proof (induction m data pos acc rule: presence.induct)
    case (2 maximum data pos present)
    from "2.prems" obtain byte where b: "byte_at data pos = Some byte"
      by (auto split: option.splits)
    then have "pos < length data" by (auto dest: byte_at_SomeD)
    with 2 b show ?case by (cases "maximum = 0") (auto split: if_splits option.splits)
  qed (auto split: option.splits if_splits)
  with assms show ?thesis by simp
qed

declare presence.simps [simp del]

lemma tuple_get_mask [byte_simps]:
  "0 \<le> m \<Longrightarrow> nat m < length t \<Longrightarrow> tuple_get t (x AND m) = Some (t ! nat (x AND m))"
  using tuple_get_bitfield [of m t x 0] by (simp add: bitfield_def)

lemma moves_bind_s24 [flow_simps]:
  "q + 3 \<le> length data \<Longrightarrow> (\<And>v. moves p (length data) (f v)) \<Longrightarrow> moves p (length data) (s24 data q \<bind> f)"
  by (simp add: s24_def)

lemma moves_bind_s32 [flow_simps]:
  "q + 4 \<le> length data \<Longrightarrow> (\<And>v. moves p (length data) (f v)) \<Longrightarrow> moves p (length data) (s32 data q \<bind> f)"
  by (simp add: s32_def)

lemma moves_bind_u32 [flow_simps]:
  "q + 4 \<le> length data \<Longrightarrow> (\<And>v. moves p (length data) (f v)) \<Longrightarrow> moves p (length data) (u32 data q \<bind> f)"
  by (simp add: u32_def)

lemma extents_moves:
  "(\<And>e b d. wf_track d \<Longrightarrow> wf_track (u e b d)) \<Longrightarrow> wf_track d \<Longrightarrow> p \<le> q \<Longrightarrow> q \<le> length data \<Longrightarrow>
     moves p (length data) (extents u e b data d q)"
proof (induction u e b data d q rule: extents.induct)
  case (1 u e b data d q)
  show ?case
  proof (cases "bits b 1 \<and> q < length data")
    case True
    then have rd: "byte_at data q = Some (uint (data ! q))" by (simp add: byte_simps)
    have w: "wf_track (u (e + 1) (uint (data ! q)) d)" by (intro "1.prems"(1,2))
    have "extents u e b data d q = extents u (e + 1) (uint (data ! q)) data (u (e + 1) (uint (data ! q)) d) (q + 1)"
      using True rd by (simp add: extents.simps [of u e b data d q])
    moreover have "moves p (length data) \<dots>"
      using True "1.prems"(3) by (intro "1.IH" [OF _ _ rd] w "1.prems"(1)) auto
    ultimately show ?thesis by simp
  next
    case False
    then have "extents u e b data d q = Some (if bits b 1 then Return (d, length data) else Next (d, q))"
      by (subst extents.simps) auto
    with "1.prems"(2-) show ?thesis by (simp add: moves_simps)
  qed
qed

lemma register_loop_moves [flow_simps]:
  "wf_track d \<Longrightarrow> p \<le> q \<Longrightarrow> q \<le> length data \<Longrightarrow> moves p (length data) (register_loop rep data d q)"
  by (induction rep data d q rule: register_loop.induct) (auto simp: flow_simps byte_simps)

lemma typed_ground_vector [flow_simps]: "typed (ground_vector vx vy)"
  by (simp add: ground_vector_def flow_simps)

text \<open>Three octets in hexadecimal are an aircraft address.\<close>

lemma fmt_pad_snoc:
  assumes "2 \<le> b" and "1 \<le> w" and "0 \<le> n"
  shows "fmt_pad b (Suc w) n = fmt_pad b w (n div int b) @ [digit_char (nat n mod b)]"
proof (cases "nat n < b")
  case True
  then have "n div int b = 0" using assms by (simp add: nat_less_iff)
  moreover have "nat_str b (nat n) = [digit_char (nat n)]" using True by (simp add: nat_str.simps [of b "nat n"])
  moreover have "nat_str b 0 = [CHR ''0'']" using assms(1) by (simp add: nat_str.simps [of b 0] digit_char_def)
  ultimately show ?thesis using True assms(2)
    by (cases w) (simp_all add: fmt_pad_def Let_def replicate_append_same)
next
  case False
  then have "nat_str b (nat n) = nat_str b (nat n div b) @ [digit_char (nat n mod b)]"
    using assms(1) by (simp add: nat_str.simps [of b "nat n"])
  moreover have "nat (n div int b) = nat n div b" using assms by (simp add: nat_div_distrib)
  ultimately show ?thesis by (simp add: fmt_pad_def Let_def)
qed

lemma hex_address:
  "fmt_pad 16 2 (uint (a :: byte)) @ fmt_pad 16 2 (uint (b :: byte)) @ fmt_pad 16 2 (uint (c :: byte)) =
     fmt_pad 16 6 (uint a * 65536 + uint b * 256 + uint c)"
proof -
  have split: "fmt_pad 16 (Suc (Suc w)) (n * 256 + uint x) = fmt_pad 16 w n @ fmt_pad 16 2 (uint x)"
    if "1 \<le> w" "0 \<le> n" for w n and x :: byte
  proof -
    have r: "0 \<le> uint x" "uint x < 256" using byte_range [of x] by auto
    have d: "(n * 256 + uint x) div 16 = n * 16 + uint x div 16" by simp
    have "0 \<le> uint x div 16" "uint x div 16 < 16" using r by linarith+
    then have e: "(n * 16 + uint x div 16) div 16 = n" by simp
    have m: "nat (n * 256 + uint x) mod 16 = nat (uint x) mod 16"
      using r that by (simp add: nat_add_distrib nat_mult_distrib mod_add_eq [symmetric])
    have m': "nat (n * 16 + uint x div 16) mod 16 = nat (uint x div 16) mod 16"
      using r that \<open>0 \<le> uint x div 16\<close> by (simp add: nat_add_distrib nat_mult_distrib)
    have h: "fmt_pad 16 2 (uint x) = [digit_char (nat (uint x div 16) mod 16), digit_char (nat (uint x) mod 16)]"
    proof -
      have "fmt_pad 16 2 (uint x) = fmt_pad 16 1 (uint x div 16) @ [digit_char (nat (uint x) mod 16)]"
        using fmt_pad_snoc [of 16 1 "uint x"] r by (simp add: numeral_2_eq_2)
      moreover have "nat (uint x div 16) < 16" using r by linarith
      ultimately show ?thesis by (simp add: fmt_pad_def Let_def nat_str.simps [of 16 "nat (uint x div 16)"])
    qed
    have "fmt_pad 16 (Suc (Suc w)) (n * 256 + uint x) =
        fmt_pad 16 (Suc w) (n * 16 + uint x div 16) @ [digit_char (nat (uint x) mod 16)]"
      using fmt_pad_snoc [of 16 "Suc w" "n * 256 + uint x"] r that d m by simp
    also have "fmt_pad 16 (Suc w) (n * 16 + uint x div 16) = fmt_pad 16 w n @ [digit_char (nat (uint x div 16) mod 16)]"
      using fmt_pad_snoc [of 16 w "n * 16 + uint x div 16"] r that e m' by simp
    finally show ?thesis by (simp add: h)
  qed
  have "fmt_pad 16 6 ((uint a * 256 + uint b) * 256 + uint c) =
      (fmt_pad 16 2 (uint a) @ fmt_pad 16 2 (uint b)) @ fmt_pad 16 2 (uint c)"
    using split [of 4 "uint a * 256 + uint b" c] split [of 2 "uint a" b] byte_range [of a] byte_range [of b]
    by (simp add: numeral_eq_Suc)
  then show ?thesis by (simp add: algebra_simps)
qed

lemma field_ok_hex [flow_simps]: "q + 3 \<le> length data \<Longrightarrow> field_ok ''icao24'' (VStr (hex_bytes (py_slice data q (q + 3))))"
proof -
  assume "q + 3 \<le> length data"
  then have "py_slice data q (q + 3) = [data ! q, data ! (q + 1), data ! (q + 2)]"
    by (intro nth_equalityI) (auto simp: length_py_slice nth_py_slice less_Suc_eq numeral_3_eq_3)
  then have "hex_bytes (py_slice data q (q + 3)) =
      fmt_pad 16 6 (uint (data ! q) * 65536 + uint (data ! (q + 1)) * 256 + uint (data ! (q + 2)))"
    by (simp add: hex_bytes_def hex_address)
  moreover have "0 \<le> uint (data ! q) * 65536 + uint (data ! (q + 1)) * 256 + uint (data ! (q + 2))"
    "uint (data ! q) * 65536 + uint (data ! (q + 1)) * 256 + uint (data ! (q + 2)) < 2 ^ 24"
    using byte_range [of "data ! q"] byte_range [of "data ! (q + 1)"] byte_range [of "data ! (q + 2)"] by auto
  ultimately show ?thesis by (auto simp: field_ok_def)
qed

subsection \<open>Optional sub-fields\<close>

text \<open>
  \<open>for index, f in enumerate(fields): if index < len(flags) and flags[index]: ...\<close>, where a
  sub-field that is short returns from the record.
\<close>

fun subfields :: "bool list \<Rightarrow> nat \<Rightarrow> item list \<Rightarrow> item" where
  "subfields flags index [] data d pos = Some (Next (d, pos))"
| "subfields flags index (f # fs) data d pos =
     (if index < length flags \<and> flags ! index
      then then_item (f data d pos) (subfields flags (index + 1) fs data)
      else subfields flags (index + 1) fs data d pos)"

text \<open>
  \<open>try: flags, pos = presence(data, pos, maximum) except ValueError: return track, len(data)\<close>.
\<close>

definition presence_item :: "nat \<Rightarrow> (bool list \<Rightarrow> item) \<Rightarrow> item" where
  "presence_item maximum rest data d pos = (case presence maximum data pos [] of
     Inl _ \<Rightarrow> Some (Return (d, length data))
   | Inr (flags, pos) \<Rightarrow> rest flags data d pos)"

text \<open>
  The decoders of the compound items of CAT-062 collect their fields in a dictionary of their
  own: a field goes on, stops early with what there is, or raises \<open>ValueError\<close>.
\<close>

datatype sub = Value_error | More dstate | Done dstate

type_synonym subdecoder = "bytes \<Rightarrow> dict \<Rightarrow> nat \<Rightarrow> sub option"

text \<open>\<open>if pos + width > len(data): return out, len(data); ...; pos += width\<close>.\<close>

definition fixed :: "nat \<Rightarrow> (bytes \<Rightarrow> nat \<Rightarrow> dict option) \<Rightarrow> subdecoder" where
  "fixed width fields data out pos =
     (if pos + width > length data then Some (Done (out, length data))
      else do { extra \<leftarrow> fields data pos; Some (More (puts out extra, pos + width)) })"

fun sub_fields :: "bool list \<Rightarrow> nat \<Rightarrow> subdecoder list \<Rightarrow> bytes \<Rightarrow> dict \<Rightarrow> nat \<Rightarrow> (unit + dstate) option" where
  "sub_fields flags index [] data out pos = Some (Inr (out, pos))"
| "sub_fields flags index (f # fs) data out pos =
     (if index \<ge> length flags \<or> \<not> flags ! index then sub_fields flags (index + 1) fs data out pos
      else do {
        r \<leftarrow> f data out pos;
        (case r of
           Value_error \<Rightarrow> Some (Inl ())
         | Done s \<Rightarrow> Some (Inr s)
         | More (out, pos) \<Rightarrow> sub_fields flags (index + 1) fs data out pos)
      })"

definition sub_decode :: "nat \<Rightarrow> subdecoder list \<Rightarrow> bytes \<Rightarrow> nat \<Rightarrow> (unit + dstate) option" where
  "sub_decode maximum fields data pos = (case presence maximum data pos [] of
     Inl _ \<Rightarrow> Some (Inl ())
   | Inr (flags, pos) \<Rightarrow> sub_fields flags 0 fields data [] pos)"

text \<open>
  \<open>try: extra, pos = ... except ValueError: return track, len(data)\<close>, then
  \<open>track.update(extra)\<close>.
\<close>

definition sub_item :: "(bytes \<Rightarrow> nat \<Rightarrow> (unit + dstate) option) \<Rightarrow> item" where
  "sub_item decode data d pos = do {
     r \<leftarrow> decode data pos;
     (case r of
        Inl _ \<Rightarrow> Some (Return (d, length data))
      | Inr (extra, pos) \<Rightarrow> Some (Next (puts d extra, pos)))
   }"

lemma subfields_moves:
  "list_all item_moves fs \<Longrightarrow> wf_track d \<Longrightarrow> p \<le> q \<Longrightarrow> q \<le> length data \<Longrightarrow>
     moves p (length data) (subfields flags i fs data d q)"
  by (induction flags i fs data d q rule: subfields.induct)
    (auto simp: flow_simps item_movesD)

lemma subfields_item_moves: "list_all item_moves fs \<Longrightarrow> item_moves (subfields flags i fs)"
  by (simp add: item_moves_def [of "subfields flags i fs"] subfields_moves)

lemma presence_item_moves:
  assumes "0 < m" and "\<And>flags. 7 \<le> length flags \<Longrightarrow> item_moves (f flags)"
  shows "item_moves (presence_item m f)"
proof -
  have "moves p (length data) (presence_item m f data d p)" if "wf_track d" "p \<le> length data" for data d p
    using that assms
    by (auto simp: presence_item_def flow_simps dest!: presence_moves intro: item_movesD split: sum.split)
  then show ?thesis by (simp add: item_moves_def)
qed

text \<open>What a sub-field promises, and the decoder built from such sub-fields.\<close>

definition out_typed :: "dict option \<Rightarrow> bool" where
  "out_typed r \<longleftrightarrow> (case r of None \<Rightarrow> False | Some d \<Rightarrow> typed d)"

definition sub_moves :: "nat \<Rightarrow> nat \<Rightarrow> sub option \<Rightarrow> bool" where
  "sub_moves p n r \<longleftrightarrow> (case r of None \<Rightarrow> False | Some Value_error \<Rightarrow> True
     | Some (More (d, q)) \<Rightarrow> typed d \<and> p \<le> q \<and> q \<le> n | Some (Done (d, q)) \<Rightarrow> typed d \<and> p \<le> q \<and> q \<le> n)"

definition subdecoder_moves :: "subdecoder \<Rightarrow> bool" where
  "subdecoder_moves f \<longleftrightarrow> (\<forall>data d p. typed d \<longrightarrow> p \<le> length data \<longrightarrow> sub_moves p (length data) (f data d p))"

lemma sub_moves_simps [flow_simps]:
  "sub_moves p n (Some Value_error)"
  "sub_moves p n (Some (More (d, q))) \<longleftrightarrow> typed d \<and> p \<le> q \<and> q \<le> n"
  "sub_moves p n (Some (Done (d, q))) \<longleftrightarrow> typed d \<and> p \<le> q \<and> q \<le> n"
  by (simp_all add: sub_moves_def)

lemma out_typed_simps [flow_simps]:
  "out_typed (Some d) \<longleftrightarrow> typed d"
  "out_typed (if c then x else y) \<longleftrightarrow> (c \<longrightarrow> out_typed x) \<and> (\<not> c \<longrightarrow> out_typed y)"
  by (simp_all add: out_typed_def)

lemma fixed_moves [item_ok]:
  assumes "\<And>data p. p + width \<le> length data \<Longrightarrow> out_typed (f data p)"
  shows "subdecoder_moves (fixed width f)"
proof -
  have "sub_moves p (length data) (fixed width f data d p)" if "typed d" "p \<le> length data" for data d p
  proof (cases "p + width \<le> length data")
    case True
    with assms [of p data] obtain e where "f data p = Some e" "typed e"
      by (auto simp: out_typed_def split: option.splits)
    with True that show ?thesis by (simp add: fixed_def flow_simps)
  qed (use that in \<open>simp add: fixed_def flow_simps\<close>)
  then show ?thesis by (simp add: subdecoder_moves_def)
qed

lemma sub_fields_moves:
  "list_all subdecoder_moves fs \<Longrightarrow> typed d \<Longrightarrow> p \<le> length data \<Longrightarrow>
     \<exists>r. sub_fields flags i fs data d p = Some r \<and>
       (\<forall>e q. r = Inr (e, q) \<longrightarrow> typed e \<and> p \<le> q \<and> q \<le> length data)"
proof (induction flags i fs data d p rule: sub_fields.induct)
  case (2 flags index f fs data out pos)
  show ?case
  proof (cases "index \<ge> length flags \<or> \<not> flags ! index")
    case False
    have "sub_moves pos (length data) (f data out pos)" using "2.prems" by (simp add: subdecoder_moves_def)
    then obtain s where s: "f data out pos = Some s" "sub_moves pos (length data) (Some s)"
      by (cases "f data out pos") (auto simp: sub_moves_def)
    show ?thesis
    proof (cases s)
      case (More t)
      obtain d' q where t: "t = (d', q)" by force
      with s More have q: "typed d'" "pos \<le> q" "q \<le> length data" by (auto simp: flow_simps)
      have w: "list_all subdecoder_moves fs" using "2.prems" by simp
      from "2.IH"(2) [OF False s(1) More t [symmetric] w q(1,3)] q(2) False s More t show ?thesis
        by (fastforce intro: le_trans)
    qed (use s False in \<open>auto simp: sub_moves_def\<close>)
  qed (use 2 in auto)
qed simp

lemma sub_item_moves:
  assumes "list_all subdecoder_moves fs" and "0 < m"
  shows "item_moves (sub_item (sub_decode m fs))"
proof -
  have "moves p (length data) (sub_item (sub_decode m fs) data d p)" if "wf_track d" "p \<le> length data" for data d p
  proof (cases "presence m data p []")
    case (Inr a)
    obtain flags q where a: "a = (flags, q)" by force
    from presence_moves [OF Inr [unfolded a] assms(2)] have q: "p < q" "q \<le> length data" by auto
    from sub_fields_moves [OF assms(1) typed_Nil q(2), of flags 0] obtain r where
      "sub_fields flags 0 fs data [] q = Some r" "\<forall>e u. r = Inr (e, u) \<longrightarrow> typed e \<and> q \<le> u \<and> u \<le> length data" by blast
    with that Inr a q show ?thesis
      by (cases r) (auto simp: sub_item_def sub_decode_def flow_simps)
  qed (use that in \<open>simp add: sub_item_def sub_decode_def flow_simps\<close>)
  then show ?thesis by (simp add: item_moves_def)
qed

subsection \<open>The handler of a track category\<close>

text \<open>
  The handlers of CAT-020, CAT-021 and CAT-062 differ in their topic, message class, category
  and profile only. A record with contents is published as a track, if it has a position, and
  as it was received.
\<close>

definition publish_record ::
  "(pyval \<Rightarrow> string) \<Rightarrow> (string \<Rightarrow> string) \<Rightarrow> string \<Rightarrow> int \<Rightarrow> string \<Rightarrow> dict \<Rightarrow> bytes \<Rightarrow> event list option" where
  "publish_record rp topic message category profile track raw =
     (if length track > 2 then do {
        source \<leftarrow> asterix_source track;
        native \<leftarrow> native_event rp (topic source) track category raw profile;
        Some ((if \<not> has_key ''lat_deg'' track \<or> \<not> has_key ''lon_deg'' track then []
               else [PubDual (topic source) track message]) @ [native])
      } else Some [])"

lemma publish_record_native:
  assumes "wf_track t" and "asterix_data_block c r = Inr blk"
  shows "\<exists>es. publish_record rp topic message c profile t r = Some es \<and>
    natives es = (if 2 < length t then [blk] else [])"
proof -
  obtain x y where "asterix_source t = Some (fmt_0d 3 x @ ''-'' @ fmt_0d 3 y)" by (rule wf_source [OF assms(1)])
  with assms(2) show ?thesis by (auto simp: publish_record_def native_event_def)
qed

text \<open>
  The contract of a handler that decodes the records of a block one after the other and
  publishes them: its native messages are the blocks of the records with contents.
\<close>

locale track_category = record_decoder decode
  for decode :: "bytes \<Rightarrow> nat \<Rightarrow> dstate option" +
  fixes publish :: "dict \<Rightarrow> bytes \<Rightarrow> event list option" and category :: int
  assumes category_range: "0 \<le> category" "category \<le> 255"
    and publish_native: "wf_track t \<Longrightarrow> asterix_data_block category r = Inr blk \<Longrightarrow>
      \<exists>es. publish t r = Some es \<and> natives es = (if 2 < length t then [blk] else [])"
begin

lemma handler_publishes:
  assumes "length data \<le> 65532"
  shows "\<exists>rs es. decode_records decode data 0 = Some rs \<and> handle_records publish rs = Some es \<and>
    concat (map snd rs) = data \<and> list_all (is_block category) (natives es) \<and>
    concat (map (drop 3) (natives es)) = concat (map snd (filter (\<lambda>(t, r). 2 < length t) rs))"
proof -
  obtain rs where rs: "decode_records decode data 0 = Some rs" "concat (map snd rs) = data"
    "list_all (\<lambda>(t, r). wf_track t \<and> r \<noteq> []) rs" using records_partition [of 0 data] by auto
  from records_fit [OF rs(2,3) assms] obtain es where
    es: "handle_records publish rs = Some es"
    "list_all2 (\<lambda>blk r. asterix_data_block category r = Inr blk) (natives es)
      (map snd (filter (\<lambda>(t, r). 2 < length t) rs))"
    using handle_records_natives [of rs category publish] category_range publish_native by auto
  from blocks_payload [OF es(2)] rs es(1) show ?thesis by auto
qed

end

end
