(* ===== verification/Asterix_Cat020.thy ===== *)
theory Asterix_Cat020
  imports Asterix_Fields
begin

text \<open>
  CAT-020, multilateration target reports: the items in the order of the field reference
  numbers, the record decoder, the block handler, and this category's own decoder of Mode C
  codes, which takes the pulses from other bits than the one of CAT-048 does.
\<close>

subsection \<open>Mode C\<close>

definition cat20_gc3 :: "int \<Rightarrow> int \<Rightarrow> int \<Rightarrow> int" where
  "cat20_gc3 a b c = (let x = a; y = xor x b; z = xor y c in x * 4 + y * 2 + z)"

definition cat20_gillham_to_ft :: "int \<Rightarrow> int option" where
  "cat20_gillham_to_ft code =
     (let v = bit_of code 15; g = bit_of code 14 in
      if v \<noteq> 0 \<or> g \<noteq> 0 then None
      else let
        c1 = bit_of code 13; a1 = bit_of code 12; c2 = bit_of code 11;
        b1 = bit_of code 10; d1 = bit_of code 9; b2 = bit_of code 8;
        d2 = bit_of code 7; b4 = bit_of code 6; a4 = bit_of code 5; c4 = bit_of code 2
      in if d1 \<noteq> 0 \<and> d2 \<noteq> 0 then None
      else let
        n_b = cat20_gc3 b1 b2 b4;
        n_a = a1 * 2 + a4;
        n_c = cat20_gc3 c1 c2 c4
      in if n_c = 0 \<or> n_c > 5 then None
      else let n500 = n_b * 4 + (if n_b mod 2 \<noteq> 0 then n_a else 3 - n_a)
      in Some (n500 * 500 + (n_c - 1) * 100 - 1200))"

subsection \<open>Items\<close>

definition cat20_i010 :: item where
  "cat20_i010 data d pos = need 2 data d pos (do {
     a \<leftarrow> byte_at data pos;
     b \<leftarrow> byte_at data (pos + 1);
     Some (Next (puts d [(''sac'', VInt a), (''sic'', VInt b)], pos + 2))
   })"

definition cat20_technologies :: "(int \<times> string) list" where
  "cat20_technologies = [(0x80, ''non_mode_s_1090_mlat''), (0x40, ''mode_s_1090_mlat''), (0x20, ''hf_mlat''),
     (0x10, ''vdl4_mlat''), (0x08, ''uat_mlat''), (0x04, ''dme_tacan_mlat''), (0x02, ''other_mlat'')]"

definition cat20_i020 :: item where
  "cat20_i020 data d pos = need 1 data d pos (do {
     b \<leftarrow> byte_at data pos;
     let technologies = map snd (filter (\<lambda>(mask, name). bits b mask) cat20_technologies);
     let d = puts d (onlyif (technologies \<noteq> []) [(''mlat_technologies'', VList (map VStr technologies))]);
     (if \<not> bits b 0x01 then Some (Next (d, pos + 1))
      else need 1 data d (pos + 1) (do {
        b \<leftarrow> byte_at data (pos + 1);
        let d = puts d (
          onlyif (bits b 0x80) [(''field_monitor'', VBool True)] @
          onlyif (bits b 0x40) [(''spi'', VBool True)] @
          [(''channel'', VInt (if bits b 0x20 then 2 else 1))] @
          onlyif (bits b 0x10) [(''on_ground'', VBool True)] @
          onlyif (bits b 0x08) [(''corrupted_reply'', VBool True)] @
          onlyif (bits b 0x04) [(''simulated'', VBool True)] @
          onlyif (bits b 0x02) [(''test_target'', VBool True)]);
        (if \<not> bits b 0x01 then Some (Next (d, pos + 2))
         else if pos + 2 \<ge> length data then Some (Break (d, pos + 2))
         else do {
           b \<leftarrow> byte_at data (pos + 2);
           format \<leftarrow> tuple_get [''icao24'', ''non_icao24'', ''non_adsb'', ''unavailable''] (bitfield b 6 3);
           pos \<leftarrow> skip_fx data b (pos + 3);
           Some (Next (puts d [(''address_format'', VStr format)], pos))
         })
      }))
   })"

definition cat20_i140 :: item where
  "cat20_i140 data d pos = need 3 data d pos (do {
     raw \<leftarrow> u24 data pos;
     Some (Next (puts d [(''tod_s'', VFloat (of_int raw / 128))], pos + 3))
   })"

definition cat20_i041 :: item where
  "cat20_i041 data d pos = need 8 data d pos (do {
     lat \<leftarrow> s32 data pos;
     lon \<leftarrow> s32 data (pos + 4);
     Some (Next (puts d [(''lat_deg'', VFloat (py_round (of_int lat * (180 / 2 ^ 25)) 6)),
       (''lon_deg'', VFloat (py_round (of_int lon * (180 / 2 ^ 25)) 6))], pos + 8))
   })"

definition cat20_i042 :: item where
  "cat20_i042 data d pos = need 6 data d pos (do {
     x \<leftarrow> s24 data pos;
     y \<leftarrow> s24 data (pos + 3);
     Some (Next (puts d [(''x_m'', VFloat (py_round (of_int x / 2) 1)),
       (''y_m'', VFloat (py_round (of_int y / 2) 1))], pos + 6))
   })"

definition cat20_i161 :: item where
  "cat20_i161 data d pos = need 2 data d pos (do {
     w \<leftarrow> u16 data pos;
     Some (Next (puts d [(''track_num'', VInt (w AND 0x0FFF))], pos + 2))
   })"

definition cat20_i170 :: item where
  "cat20_i170 data d pos = need 1 data d pos (do {
     b \<leftarrow> byte_at data pos;
     let trend = bitfield b 3 3;
     trend_name \<leftarrow> tuple_get ['''', ''climbing'', ''descending'', ''invalid''] (bitfield b 3 3);
     let d = puts d ([(''confirmed'', VBool (\<not> bits b 0x80))] @
       onlyif (bits b 0x40) [(''_delete'', VBool True)] @
       onlyif (bits b 0x20) [(''coasting'', VBool True)] @
       onlyif (trend \<noteq> 0) [(''vertical_trend'', VStr trend_name)] @
       onlyif (bits b 0x04) [(''manoeuvring'', VBool True)] @
       onlyif (bits b 0x02) [(''smoothed_position'', VBool True)]);
     (if \<not> bits b 0x01 then Some (Next (d, pos + 1))
      else need 1 data d (pos + 1) (do {
        b \<leftarrow> byte_at data (pos + 1);
        pos \<leftarrow> skip_fx data b (pos + 2);
        Some (Next (puts d (onlyif (bits b 0x80) [(''ghost_track'', VBool True)]), pos))
      }))
   })"

definition cat20_i070 :: item where
  "cat20_i070 data d pos = need 2 data d pos (do {
     w \<leftarrow> u16 data pos;
     Some (Next (puts d ([(''squawk'', VStr (fmt_pad 8 4 (w AND 0x0FFF)))] @
       onlyif (bits w 0x8000) [(''squawk_invalid'', VBool True)] @
       onlyif (bits w 0x4000) [(''squawk_garbled'', VBool True)] @
       onlyif (bits w 0x2000) [(''squawk_from_track'', VBool True)]), pos + 2))
   })"

definition cat20_i202 :: item where
  "cat20_i202 data d pos = need 4 data d pos (do {
     x \<leftarrow> s16 data pos;
     y \<leftarrow> s16 data (pos + 2);
     let vx = of_int x / 4;
     let vy = of_int y / 4;
     Some (Next (puts d ([(''velocity_east_ms'', VFloat vx), (''velocity_north_ms'', VFloat vy)] @
       ground_vector vx vy), pos + 4))
   })"

definition cat20_i090 :: item where
  "cat20_i090 data d pos = need 2 data d pos (do {
     w \<leftarrow> u16 data pos;
     let raw = w AND 0x3FFF;
     let raw = (if bits raw 0x2000 then raw - 0x4000 else raw);
     Some (Next (puts d ([(''alt_baro_ft'', VInt (raw * 25))] @
       onlyif (bits w 0x8000) [(''alt_baro_invalid'', VBool True)] @
       onlyif (bits w 0x4000) [(''alt_baro_garbled'', VBool True)]), pos + 2))
   })"

definition cat20_i100 :: item where
  "cat20_i100 data d pos = need 4 data d pos (do {
     code \<leftarrow> u16 data pos;
     Some (Next (puts d (case cat20_gillham_to_ft code of
        None \<Rightarrow> [] | Some alt \<Rightarrow> [(''mode_c_alt_ft'', VInt alt)]), pos + 4))
   })"

definition cat20_i220 :: item where
  "cat20_i220 data d pos = need 3 data d pos (do {
     addr \<leftarrow> u24 data pos;
     Some (Next (puts d [(''icao24'', VStr (fmt_pad 16 6 addr))], pos + 3))
   })"

definition cat20_i245 :: item where
  "cat20_i245 data d pos = need 7 data d pos
     (Some (Next (puts d [(''callsign'', VStr (decode_callsign (py_slice data (pos + 1) (pos + 7))))], pos + 7)))"

definition cat20_i110 :: item where
  "cat20_i110 data d pos = need 2 data d pos (do {
     h \<leftarrow> s16 data pos;
     Some (Next (puts d [(''measured_height_ft'', VFloat (of_int h * (25 / 4)))], pos + 2))
   })"

definition cat20_i105 :: item where
  "cat20_i105 data d pos = need 2 data d pos (do {
     h \<leftarrow> s16 data pos;
     Some (Next (puts d [(''alt_geom_ft'', VInt (round_half_even (of_int h * (25 / 4))))], pos + 2))
   })"

definition cat20_i210 :: item where
  "cat20_i210 data d pos = need 2 data d pos (do {
     x \<leftarrow> byte_at data pos;
     y \<leftarrow> byte_at data (pos + 1);
     Some (Next (puts d [(''accel_east_ms2'', VFloat (of_int (unpack_b x) / 4)),
       (''accel_north_ms2'', VFloat (of_int (unpack_b y) / 4))], pos + 2))
   })"

definition cat20_i300 :: item where
  "cat20_i300 data d pos = need 1 data d pos (do {
     b \<leftarrow> byte_at data pos;
     Some (Next (puts d [(''fleet_id'', VInt b)], pos + 1))
   })"

definition cat20_msg310 :: "string list" where
  "cat20_msg310 = ['''', ''towing_aircraft'', ''follow_me'', ''runway_check'', ''emergency_operation'', ''work_in_progress'']"

definition cat20_i310 :: item where
  "cat20_i310 data d pos = need 1 data d pos (do {
     b \<leftarrow> byte_at data pos;
     let msg_type = b AND 0x7F;
     let msg = (case tuple_get cat20_msg310 msg_type of Some m \<Rightarrow> m | None \<Rightarrow> ''type_'' @ fmt_int msg_type);
     Some (Next (puts d (onlyif (bits b 0x80) [(''in_trouble'', VBool True)] @
       onlyif (msg_type \<noteq> 0) [(''preprog_msg'', VStr msg)]), pos + 1))
   })"

text \<open>The three sub-fields of the position accuracy.\<close>

definition cat20_dop500 :: item where
  "cat20_dop500 data d pos = need 6 data d pos (do {
     x \<leftarrow> u16 data pos;
     y \<leftarrow> u16 data (pos + 2);
     xy \<leftarrow> s16 data (pos + 4);
     Some (Next (puts d [(''dop_x'', VFloat (of_int x / 4)), (''dop_y'', VFloat (of_int y / 4)),
       (''dop_xy'', VFloat (of_int xy / 4))], pos + 6))
   })"

definition cat20_sdp500 :: item where
  "cat20_sdp500 data d pos = need 6 data d pos (do {
     x \<leftarrow> u16 data pos;
     y \<leftarrow> u16 data (pos + 2);
     xy \<leftarrow> s16 data (pos + 4);
     Some (Next (puts d [(''pos_accuracy_x_m'', VFloat (of_int x / 4)), (''pos_accuracy_y_m'', VFloat (of_int y / 4)),
       (''pos_correlation'', VFloat (of_int xy / 4))], pos + 6))
   })"

definition cat20_sdh500 :: item where
  "cat20_sdh500 data d pos = need 2 data d pos (do {
     h \<leftarrow> u16 data pos;
     Some (Next (puts d [(''height_accuracy_m'', VFloat (of_int h / 2))], pos + 2))
   })"

definition cat20_i500 :: item where
  "cat20_i500 data d pos = need 1 data d pos (do {
     psf \<leftarrow> byte_at data pos;
     then_item (then_item
       (if bits psf 0x80 then cat20_dop500 data d (pos + 1) else Some (Next (d, pos + 1)))
       (\<lambda>d pos. if bits psf 0x40 then cat20_sdp500 data d pos else Some (Next (d, pos))))
       (\<lambda>d pos. if bits psf 0x20 then cat20_sdh500 data d pos else Some (Next (d, pos)))
   })"

definition cat20_i400 :: item where
  "cat20_i400 data d pos = need 1 data d pos (do {
     count \<leftarrow> byte_at data pos;
     need (nat count) data d (pos + 1)
       (Some (Next (puts d [(''contributing_device_masks'',
          VList (map (\<lambda>v. VStr (fmt_pad 2 8 (uint v))) (py_slice data (pos + 1) (pos + 1 + nat count))))],
        pos + 1 + nat count)))
   })"

definition cat20_i250 :: item where
  "cat20_i250 data d pos = need 1 data d pos (do {
     rep \<leftarrow> byte_at data pos;
     cat48_loop250 (nat rep) data d (pos + 1)
   })"

definition cat20_i230 :: item where
  "cat20_i230 data d pos = need 2 data d pos
     (Some (Next (puts d [(''comms_acas_raw'', VStr (hex_bytes (py_slice data pos (pos + 2))))], pos + 2)))"

definition cat20_i260 :: item where
  "cat20_i260 data d pos = need 7 data d pos
     (Some (Next (puts d (decode_bds30 (py_slice data pos (pos + 7))), pos + 7)))"

text \<open>The codes of the octets up to the first without an extension bit.\<close>

function cat20_loop030 :: "bytes \<Rightarrow> int list \<Rightarrow> nat \<Rightarrow> (int list \<times> nat) option" where
  "cat20_loop030 data codes pos =
     (if pos \<ge> length data then Some (codes, pos)
      else do {
        b \<leftarrow> byte_at data pos;
        (if \<not> bits b 1 then Some (codes @ [drop_bit 1 b], pos + 1)
         else cat20_loop030 data (codes @ [drop_bit 1 b]) (pos + 1))
      })"
  by pat_completeness auto
termination
  by (relation "measure (\<lambda>(data, codes, pos). length data - pos)") auto

declare cat20_loop030.simps [simp del]

definition cat20_i030 :: item where
  "cat20_i030 data d pos = do {
     (codes, pos) \<leftarrow> cat20_loop030 data [] pos;
     Some (Next (puts d (onlyif (codes \<noteq> []) [(''warning_error_codes'', VList (map VInt codes))]), pos))
   }"

definition cat20_i055 :: item where
  "cat20_i055 data d pos = need 1 data d pos (do {
     b \<leftarrow> byte_at data pos;
     Some (Next (puts d [(''mode1'', VStr (fmt_pad 8 2 (b AND 0x1F)))], pos + 1))
   })"

definition cat20_i050 :: item where
  "cat20_i050 data d pos = need 2 data d pos (do {
     w \<leftarrow> u16 data pos;
     Some (Next (puts d [(''mode2'', VStr (fmt_pad 8 4 (w AND 0x0FFF)))], pos + 2))
   })"

definition cat20_items :: "item list" where
  "cat20_items = [
     cat20_i010, cat20_i020, cat20_i140, cat20_i041, cat20_i042, cat20_i161, cat20_i170,
     cat20_i070, cat20_i202, cat20_i090, cat20_i100, cat20_i220, cat20_i245, cat20_i110,
     cat20_i105, cat20_i210, cat20_i300, cat20_i310, cat20_i500, cat20_i400, cat20_i250,
     cat20_i230, cat20_i260, cat20_i030, cat20_i055, cat20_i050, skip_item, skip_item]"

definition cat20_track0 :: "real \<Rightarrow> dict" where
  "cat20_track0 now = [(''_ts'', VFloat now), (''_src'', VStr ''ASTERIX CAT-20 Ed.1.11'')]"

definition decode_cat020_record :: "real \<Rightarrow> bytes \<Rightarrow> nat \<Rightarrow> dstate option" where
  "decode_cat020_record now = decode_with (cat20_track0 now) (dispatch cat20_items) Some"

definition cat20_topic :: "string \<Rightarrow> string \<Rightarrow> string" where
  "cat20_topic pre source = pre @ ''/air/'' @ source @ ''/mlat/civ/aircraft''"

definition cat20_handler :: "(pyval \<Rightarrow> string) \<Rightarrow> string \<Rightarrow> real \<Rightarrow> bytes \<Rightarrow> event list option" where
  "cat20_handler rp pre now data = do {
     rs \<leftarrow> decode_records (decode_cat020_record now) data 0;
     handle_records (publish_record rp (cat20_topic pre) ''AsterixCat20Track'' 20 ''cat020'') rs
   }"

subsection \<open>The contract of the items\<close>

lemma cat20_fixed_moves [item_ok]:
  "item_moves cat20_i010" "item_moves cat20_i140" "item_moves cat20_i041" "item_moves cat20_i042"
  "item_moves cat20_i161" "item_moves cat20_i070" "item_moves cat20_i202" "item_moves cat20_i090"
  "item_moves cat20_i220" "item_moves cat20_i245" "item_moves cat20_i110" "item_moves cat20_i105"
  "item_moves cat20_i210" "item_moves cat20_i300" "item_moves cat20_i310" "item_moves cat20_i230"
  "item_moves cat20_i260" "item_moves cat20_i055" "item_moves cat20_i050"
  "item_moves cat20_dop500" "item_moves cat20_sdp500" "item_moves cat20_sdh500"
  by (simp_all add: item_moves_def cat20_i010_def cat20_i140_def cat20_i041_def cat20_i042_def cat20_i161_def
      cat20_i070_def cat20_i202_def cat20_i090_def cat20_i220_def cat20_i245_def cat20_i110_def cat20_i105_def
      cat20_i210_def cat20_i300_def cat20_i310_def cat20_i230_def cat20_i260_def cat20_i055_def cat20_i050_def
      cat20_dop500_def cat20_sdp500_def cat20_sdh500_def flow_simps byte_simps Let_def)

lemma cat20_i020_moves [item_ok]: "item_moves cat20_i020"
  by (simp add: item_moves_def cat20_i020_def flow_simps byte_simps Let_def)

lemma cat20_i170_moves [item_ok]: "item_moves cat20_i170"
  by (simp add: item_moves_def cat20_i170_def flow_simps byte_simps Let_def)

lemma cat20_i100_moves [item_ok]: "item_moves cat20_i100"
  by (simp add: item_moves_def cat20_i100_def flow_simps byte_simps Let_def split: option.split)

lemma cat20_i400_moves [item_ok]: "item_moves cat20_i400"
  by (simp add: item_moves_def cat20_i400_def flow_simps byte_simps Let_def)

lemma cat20_i250_moves [item_ok]: "item_moves cat20_i250"
  by (simp add: item_moves_def cat20_i250_def flow_simps byte_simps loop250_moves)

lemma cat20_i500_moves [item_ok]: "item_moves cat20_i500"
proof -
  have "moves p (length data) (cat20_i500 data d p)" if "wf_track d" "p \<le> length data" for data d p
    using that
    by (auto simp: cat20_i500_def flow_simps byte_simps intro!: moves_then_item item_movesD [OF cat20_fixed_moves(20)]
        item_movesD [OF cat20_fixed_moves(21)] item_movesD [OF cat20_fixed_moves(22)])
  then show ?thesis by (simp add: item_moves_def)
qed

lemma cat20_loop030_moves:
  "p \<le> length data \<Longrightarrow> \<exists>cs q. cat20_loop030 data codes p = Some (cs, q) \<and> p \<le> q \<and> q \<le> length data"
proof (induction data codes p rule: cat20_loop030.induct)
  case (1 data codes p)
  show ?case
  proof (cases "p < length data")
    case True
    then have rd: "byte_at data p = Some (uint (data ! p))" by (simp add: byte_simps)
    with "1.IH" [OF _ rd] True show ?thesis
      by (cases "bits (uint (data ! p)) 1") (auto simp: cat20_loop030.simps [of data codes p])
  qed (use 1 in \<open>simp add: cat20_loop030.simps [of data codes "length data"]\<close>)
qed

lemma cat20_i030_moves [item_ok]: "item_moves cat20_i030"
proof -
  have "moves p (length data) (cat20_i030 data d p)" if "wf_track d" "p \<le> length data" for data d p
    using cat20_loop030_moves [OF that(2), of "[]"] that(1) by (auto simp: cat20_i030_def flow_simps)
  then show ?thesis by (simp add: item_moves_def)
qed

lemma cat20_items_moves: "list_all item_moves cat20_items"
  by (simp add: cat20_items_def item_ok)

interpretation cat20: category_decoder "cat20_track0 now" "dispatch cat20_items" Some for now
proof unfold_locales
  show "wf_track (cat20_track0 now)" by (simp add: cat20_track0_def wf_track_def flow_simps)
  show "moves p (length data) (dispatch cat20_items data frn d p)" if "wf_track d" "p \<le> length data" for d p data frn
    using that by (rule dispatch_moves [OF cat20_items_moves])
qed simp

interpretation cat20_handler: track_category "decode_cat020_record now"
    "publish_record rp (cat20_topic pre) ''AsterixCat20Track'' 20 ''cat020''" 20 for now rp pre
proof unfold_locales
  show "\<exists>t p. decode_cat020_record now data pos = Some (t, p) \<and> wf_track t \<and> pos < p \<and> p \<le> length data"
    if "pos < length data" for pos data
    unfolding decode_cat020_record_def by (rule cat20.decode_moves [OF that])
qed (simp_all add: publish_record_native)

end
