(* ===== verification/Asterix_Mode_C.thy ===== *)
theory Asterix_Mode_C
  imports Asterix_Cat020
begin

text \<open>
  The same sixteen bits of a Mode C reply are read by \<open>gillham_to_ft\<close> for CAT-048 and
  by \<open>cat20_gillham_to_ft\<close> for CAT-020. All 4096 codes are compared, 64 by 64.
\<close>

definition mode_c_apart :: "int \<Rightarrow> bool" where
  "mode_c_apart code \<longleftrightarrow> (case gillham_to_ft code of None \<Rightarrow> True
   | Some h \<Rightarrow> (case cat20_gillham_to_ft code of None \<Rightarrow> True | Some k \<Rightarrow> k \<noteq> h \<and> k \<le> 13500))"

definition mode_c_apart_block :: "int \<Rightarrow> bool" where
  "mode_c_apart_block a \<longleftrightarrow> list_all (\<lambda>b. mode_c_apart (64 * a + b)) [0..63]"

lemma mode_c_apart_blocks:
  "list_all mode_c_apart_block [0..15]"
  "list_all mode_c_apart_block [16..31]"
  "list_all mode_c_apart_block [32..47]"
  "list_all mode_c_apart_block [48..63]"
  by code_simp+

lemma mode_c_apart_all:
  assumes "0 \<le> code" and "code < 4096"
  shows "mode_c_apart code"
proof -
  have "code div 64 \<in> {0..15} \<union> {16..31} \<union> {32..47} \<union> {48..63}" using assms by auto
  with mode_c_apart_blocks [unfolded list_all_iff set_upto] have "mode_c_apart_block (code div 64)" by blast
  moreover have "code mod 64 \<in> {0..63}" by simp
  ultimately have "mode_c_apart (64 * (code div 64) + code mod 64)"
    unfolding mode_c_apart_block_def list_all_iff set_upto by (rule bspec)
  then show ?thesis by simp
qed

text \<open>
  The CAT-020 decoder misreads Mode C. On every 12-bit code for which the decoder of
  CAT-048 gives an altitude, the one of CAT-020 gives none or another one, and it never gives one
  above 13500 ft although the code reaches 126700 ft.
\<close>

theorem mode_c_reports_disagree:
  assumes "0 \<le> code" and "code < 4096" and "gillham_to_ft code = Some h"
  shows "cat20_gillham_to_ft code \<noteq> Some h \<and>
    (\<forall>k. cat20_gillham_to_ft code = Some k \<longrightarrow> k \<le> 13500)"
  using mode_c_apart_all [OF assms(1,2)] assms(3) by (auto simp: mode_c_apart_def)

theorem mode_c_reports_disagree_witness:
  "gillham_to_ft 1633 = Some 35000 \<and> cat20_gillham_to_ft 1633 \<noteq> Some 35000"
proof -
  have g: "gillham_to_ft 1633 = Some 35000" by code_simp
  with mode_c_reports_disagree [OF _ _ g] show ?thesis by simp
qed

end
