(* ===== verification/Asterix_Cat021.thy ===== *)
theory Asterix_Cat021
  imports Asterix_Fields
begin

text \<open>
  CAT-021, ADS-B reports: the items in the order of the field reference numbers, the record
  decoder and the block handler. Field reference numbers without an item here are passed over,
  not refused.
\<close>

subsection \<open>Items\<close>

definition cat21_emitter_category :: "(int \<times> string) list" where
  "cat21_emitter_category = [
     (0, ''no info''), (1, ''light''), (2, ''small''), (3, ''medium''),
     (4, ''high vortex large''), (5, ''heavy''), (6, ''manoeuvrable/high speed''),
     (10, ''glider''), (11, ''airship''), (12, ''UAV''), (13, ''space vehicle''),
     (14, ''emergency vehicle''), (15, ''service vehicle''), (16, ''ground obstruction'')]"

definition cat21_nacp_epu_m :: "(int \<times> int option) list" where
  "cat21_nacp_epu_m = [
     (0, None), (1, Some 18520), (2, Some 7408), (3, Some 3704), (4, Some 1852), (5, Some 926),
     (6, Some 556), (7, Some 185), (8, Some 93), (9, Some 30), (10, Some 10), (11, Some 3)]"

text \<open>\<open>time24(name)\<close>: a time of day in 1/128 s.\<close>

definition cat21_time24 :: "string \<Rightarrow> item" where
  "cat21_time24 name data d pos = need 3 data d pos
     (Some (Next (puts d [(name, VFloat (of_int (from_bytes_big (py_slice data pos (pos + 3))) / 128))], pos + 3)))"

definition cat21_i010 :: item where
  "cat21_i010 data d pos = need 2 data d pos (do {
     a \<leftarrow> byte_at data pos;
     b \<leftarrow> byte_at data (pos + 1);
     Some (Next (puts d [(''sac'', VInt a), (''sic'', VInt b)], pos + 2))
   })"

text \<open>The extents of the target report descriptor.\<close>

definition cat21_ext040 :: "nat \<Rightarrow> int \<Rightarrow> dict \<Rightarrow> dict" where
  "cat21_ext040 extent b d =
     (if extent = 1 then puts d (
        onlyif (bits b 0x80) [(''differential_correction'', VBool True)] @
        onlyif (bits b 0x40) [(''on_ground'', VBool True)] @
        onlyif (bits b 0x20) [(''simulated'', VBool True)] @
        onlyif (bits b 0x10) [(''test_target'', VBool True)] @
        onlyif (bits b 0x08) [(''selected_altitude_unavailable'', VBool True)] @
        [(''confidence_level'', VInt (bitfield b 1 3))])
      else if extent = 2 then puts d (
        onlyif (bits b 0x40) [(''list_lookup_suspect'', VBool True)] @
        onlyif (bits b 0x20) [(''independent_position_check_failed'', VBool True)] @
        onlyif (bits b 0x10) [(''ground_station_nogo'', VBool True)] @
        onlyif (bits b 0x08) [(''cpr_validation_failed'', VBool True)] @
        onlyif (bits b 0x04) [(''local_position_jump'', VBool True)] @
        onlyif (bits b 0x02) [(''range_check_failed'', VBool True)])
      else if extent = 3 \<and> bits b 0x80 then puts d [(''total_bits_corrected'', VInt (bitfield b 1 0x3F))]
      else if extent = 4 \<and> bits b 0x80 then puts d [(''maximum_bits_corrected'', VInt (bitfield b 1 0x3F))]
      else d)"

definition cat21_i040 :: item where
  "cat21_i040 data d pos = need 1 data d pos (do {
     b \<leftarrow> byte_at data pos;
     addr_type \<leftarrow> tuple_get [''icao24'', ''duplicate'', ''surface'', ''anonymous'',
       ''reserved'', ''reserved'', ''reserved'', ''reserved''] (bitfield b 5 7);
     alt_res \<leftarrow> tuple_get [''25ft'', ''100ft'', ''unknown'', ''invalid''] (bitfield b 3 3);
     extents cat21_ext040 0 b data (puts d (
       [(''addr_type'', VStr addr_type), (''alt_res'', VStr alt_res)] @
       onlyif (bits b 0x04) [(''range_check_passed_cpr_pending'', VBool True)] @
       onlyif (bits b 0x02) [(''field_monitor'', VBool True)])) (pos + 1)
   })"

definition cat21_i161 :: item where
  "cat21_i161 data d pos = need 2 data d pos (do {
     w \<leftarrow> u16 data pos;
     Some (Next (puts d [(''track_num'', VInt (w AND 0x0FFF))], pos + 2))
   })"

definition cat21_i015 :: item where
  "cat21_i015 data d pos = need 1 data d pos (do {
     b \<leftarrow> byte_at data pos;
     Some (Next (puts d [(''service_id'', VInt b)], pos + 1))
   })"

definition cat21_i130 :: item where
  "cat21_i130 data d pos = need 6 data d pos (do {
     lat \<leftarrow> s24 data pos;
     lon \<leftarrow> s24 data (pos + 3);
     Some (Next (puts d [(''lat_deg'', VFloat (py_round (of_int lat * (180 / 2 ^ 23)) 7)),
       (''lon_deg'', VFloat (py_round (of_int lon * (180 / 2 ^ 23)) 7))], pos + 6))
   })"

definition cat21_i131 :: item where
  "cat21_i131 data d pos = need 8 data d pos (do {
     lat \<leftarrow> s32 data pos;
     lon \<leftarrow> s32 data (pos + 4);
     Some (Next (puts d [(''lat_deg'', VFloat (py_round (of_int lat * (180 / 2 ^ 30)) 8)),
       (''lon_deg'', VFloat (py_round (of_int lon * (180 / 2 ^ 30)) 8))], pos + 8))
   })"

definition cat21_i150 :: item where
  "cat21_i150 data d pos = need 2 data d pos (do {
     w \<leftarrow> u16 data pos;
     Some (Next (puts d (if bits w 0x8000 then [(''mach'', VFloat (py_round (of_int (w AND 0x7FFF) * 0.001) 3))]
       else [(''ias_kt'', VFloat (py_round (of_int (w AND 0x7FFF) * 3600 / 16384) 2))]), pos + 2))
   })"

definition cat21_i151 :: item where
  "cat21_i151 data d pos = need 2 data d pos (do {
     w \<leftarrow> u16 data pos;
     Some (Next (puts d ([(''tas_kt'', VInt (w AND 0x7FFF))] @
       onlyif (bits w 0x8000) [(''tas_range_exceeded'', VBool True)]), pos + 2))
   })"

definition cat21_i080 :: item where
  "cat21_i080 data d pos = need 3 data d pos
     (Some (Next (puts d [(''icao24'', VStr (hex_bytes (py_slice data pos (pos + 3))))], pos + 3)))"

text \<open>The high precision times, I021/074 and I021/076.\<close>

definition cat21_time_hp :: "string \<Rightarrow> item" where
  "cat21_time_hp name data d pos = need 4 data d pos (do {
     w \<leftarrow> u32 data pos;
     Some (Next (puts d [(name, VFloat (py_round (of_int (w AND 0x3FFFFFFF) / 2 ^ 30) 9))], pos + 4))
   })"

definition cat21_i140 :: item where
  "cat21_i140 data d pos = need 2 data d pos (do {
     h \<leftarrow> s16 data pos;
     Some (Next (puts d [(''alt_geom_ft'', VFloat (of_int h * (25 / 4)))], pos + 2))
   })"

definition cat21_ext090 :: "nat \<Rightarrow> int \<Rightarrow> dict \<Rightarrow> dict" where
  "cat21_ext090 extent b d =
     (if extent = 1 then let nac_p = bitfield b 1 15 in puts d (
        [(''nic_baro'', VBool (bits b 0x80)), (''sil'', VInt (bitfield b 5 3)), (''nac_p'', VInt nac_p)] @
        (case map_of cat21_nacp_epu_m nac_p of
           Some (Some epu_m) \<Rightarrow> [(''position_accuracy_m'', VInt epu_m)] | _ \<Rightarrow> []))
      else if extent = 2 then puts d
        [(''sil_per_sample'', VBool (bits b 0x20)), (''sda'', VInt (bitfield b 3 3)), (''gva'', VInt (bitfield b 1 3))]
      else if extent = 3 then puts d
        [(''pic'', VInt (bitfield b 4 15)), (''pic_direct'', VBool (bits b 0x08))]
      else d)"

definition cat21_i090 :: item where
  "cat21_i090 data d pos = need 1 data d pos (do {
     b \<leftarrow> byte_at data pos;
     extents cat21_ext090 0 b data
       (puts d [(''nac_v'', VInt (bitfield b 5 7)), (''nic'', VInt (bitfield b 1 15))]) (pos + 1)
   })"

definition cat21_i210 :: item where
  "cat21_i210 data d pos = need 1 data d pos (do {
     b \<leftarrow> byte_at data pos;
     link \<leftarrow> tuple_get [''other'', ''uat'', ''1090es'', ''vdl4'',
       ''unassigned'', ''unassigned'', ''unassigned'', ''unassigned''] (b AND 7);
     Some (Next (puts d [(''mops_version_unsupported'', VBool (bits b 0x40)),
       (''mops_version'', VInt (bitfield b 3 7)), (''link_technology'', VStr link)], pos + 1))
   })"

definition cat21_i070 :: item where
  "cat21_i070 data d pos = need 2 data d pos (do {
     w \<leftarrow> u16 data pos;
     Some (Next (puts d [(''squawk'', VStr (fmt_pad 8 4 (w AND 0x0FFF)))], pos + 2))
   })"

definition cat21_i230 :: item where
  "cat21_i230 data d pos = need 2 data d pos (do {
     r \<leftarrow> s16 data pos;
     Some (Next (puts d [(''roll_deg'', VFloat (py_round (of_int r * 0.01) 2))], pos + 2))
   })"

definition cat21_i145 :: item where
  "cat21_i145 data d pos = need 2 data d pos (do {
     h \<leftarrow> s16 data pos;
     Some (Next (puts d [(''alt_baro_ft'', VInt (h * 25))], pos + 2))
   })"

definition cat21_i152 :: item where
  "cat21_i152 data d pos = need 2 data d pos (do {
     w \<leftarrow> u16 data pos;
     Some (Next (puts d [(''mag_hdg_deg'', VFloat (py_round (of_int w * 360 / 65536) 3))], pos + 2))
   })"

definition cat21_i200 :: item where
  "cat21_i200 data d pos = need 1 data d pos (do {
     b \<leftarrow> byte_at data pos;
     let status = b AND 3;
     Some (Next (puts d (
       onlyif (bits b 0x80) [(''intent_change'', VBool True)] @
       [(''lnav_engaged'', VBool (\<not> bits b 0x40))] @
       onlyif (bits b 0x20) [(''mil_emergency'', VBool True)] @
       [(''priority_status'', VInt (bitfield b 2 7))] @
       (if status = 1 then [(''alert'', VStr ''permanent'')]
        else if status = 2 then [(''alert'', VStr ''temporary'')]
        else if status = 3 then [(''spi'', VBool True)]
        else [])), pos + 1))
   })"

text \<open>The barometric and the geometric vertical rate, I021/155 and I021/157.\<close>

definition cat21_rate :: "string \<Rightarrow> item" where
  "cat21_rate name data d pos = need 2 data d pos (do {
     w \<leftarrow> u16 data pos;
     let raw = w AND 0x7FFF;
     let raw = (if bits raw 0x4000 then raw - 0x8000 else raw);
     Some (Next (puts d ([(name, VFloat (of_int raw * (25 / 4)))] @
       onlyif (bits w 0x8000) [(''vertical_rate_range_exceeded'', VBool True)]), pos + 2))
   })"

definition cat21_i160 :: item where
  "cat21_i160 data d pos = need 4 data d pos (do {
     speed \<leftarrow> u16 data pos;
     angle \<leftarrow> u16 data (pos + 2);
     Some (Next (puts d (
       [(''speed_ms'', VFloat (py_round (of_int (speed AND 0x7FFF) * (1 / 2 ^ 14) * 1852) 3)),
        (''heading_deg'', VFloat (py_round (of_int angle * 360 / 65536) 3))] @
       onlyif (bits speed 0x8000) [(''ground_speed_range_exceeded'', VBool True)]), pos + 4))
   })"

definition cat21_i165 :: item where
  "cat21_i165 data d pos = need 2 data d pos (do {
     w \<leftarrow> u16 data pos;
     let raw = w AND 0x03FF;
     let raw = (if bits raw 0x0200 then raw - 0x0400 else raw);
     Some (Next (puts d [(''track_angle_rate_degs'', VFloat (py_round (of_int raw / 32) 3))], pos + 2))
   })"

definition cat21_i170 :: item where
  "cat21_i170 data d pos = need 6 data d pos
     (Some (Next (puts d [(''callsign'', VStr (decode_callsign (py_slice data pos (pos + 6))))], pos + 6)))"

definition cat21_i020 :: item where
  "cat21_i020 data d pos = need 1 data d pos (do {
     ec \<leftarrow> byte_at data pos;
     Some (Next (puts d [(''emitter_category'', VInt ec),
       (''emitter_category_str'', VStr (table_get cat21_emitter_category ec (''cat'' @ fmt_int ec)))], pos + 1))
   })"

text \<open>The four sub-fields of the meteorological report.\<close>

definition cat21_met220 :: "item list" where
  "cat21_met220 = [
     \<lambda>data d pos. need 2 data d pos (do {
       v \<leftarrow> u16 data pos; Some (Next (puts d [(''wind_speed_kt'', VInt v)], pos + 2)) }),
     \<lambda>data d pos. need 2 data d pos (do {
       v \<leftarrow> u16 data pos; Some (Next (puts d [(''wind_dir_deg'', VInt v)], pos + 2)) }),
     \<lambda>data d pos. need 2 data d pos (do {
       v \<leftarrow> s16 data pos; Some (Next (puts d [(''temp_c'', VFloat (of_int v / 4))], pos + 2)) }),
     \<lambda>data d pos. need 1 data d pos (do {
       v \<leftarrow> byte_at data pos; Some (Next (puts d [(''turbulence'', VInt v)], pos + 1)) })]"

definition cat21_i220 :: item where
  "cat21_i220 = presence_item 1 (\<lambda>flags. subfields flags 0 cat21_met220)"

text \<open>The selected altitude, I021/146, and the final one, I021/148.\<close>

definition cat21_altitude :: "bool \<Rightarrow> item" where
  "cat21_altitude selected data d pos = need 2 data d pos (do {
     w \<leftarrow> u16 data pos;
     let raw = w AND 0x1FFF;
     let raw = (if bits raw 0x1000 then raw - 0x2000 else raw);
     source \<leftarrow> tuple_get [''unknown'', ''aircraft_altitude'', ''mcp_fcu'', ''fms''] (bitfield w 13 3);
     Some (Next (puts d ([(if selected then ''selected_alt_ft'' else ''final_alt_ft'', VInt (raw * 25))] @
       (if selected then
          [(''selected_alt_source_available'', VBool (bits w 0x8000)), (''selected_alt_source'', VStr source)]
        else
          [(''managed_vertical_mode'', VBool (bits w 0x8000)), (''altitude_hold_mode'', VBool (bits w 0x4000)),
           (''approach_mode'', VBool (bits w 0x2000))])), pos + 2))
   })"

text \<open>The trajectory intent is passed over: a status octet, then 15 octets per point.\<close>

definition cat21_i110 :: item where
  "cat21_i110 = presence_item 1 (\<lambda>flags data d pos. do {
     flag0 \<leftarrow> tuple_get flags 0;
     flag1 \<leftarrow> tuple_get flags 1;
     then_item
       (if flag0 then need 1 data d pos (Some (Next (d, pos + 1))) else Some (Next (d, pos)))
       (\<lambda>d pos. if flag1 then need 1 data d pos (do {
           rep \<leftarrow> byte_at data pos;
           need (nat rep * 15) data d (pos + 1) (Some (Next (d, pos + 1 + nat rep * 15)))
         }) else Some (Next (d, pos)))
   })"

definition cat21_i016 :: item where
  "cat21_i016 data d pos = need 1 data d pos (do {
     b \<leftarrow> byte_at data pos;
     Some (Next (puts d [(''report_period_s'', VFloat (of_int b / 2))], pos + 1))
   })"

definition cat21_i008 :: item where
  "cat21_i008 data d pos = need 1 data d pos (do {
     b \<leftarrow> byte_at data pos;
     tc \<leftarrow> tuple_get [''none'', ''tc_plus_zero'', ''multiple'', ''reserved''] (bitfield b 5 0x03);
     Some (Next (puts d [
       (''aircraft_operational_status_raw'', VInt b),
       (''acas_ra_active'', VBool (bits b 0x80)),
       (''trajectory_change_capability'', VStr tc),
       (''target_state_report_capable'', VBool (bits b 0x10)),
       (''air_ref_velocity_capable'', VBool (bits b 0x08)),
       (''cdti_airborne_operational'', VBool (bits b 0x04)),
       (''tcas_operational'', VBool (\<not> bits b 0x02)),
       (''single_antenna'', VBool (bits b 0x01))], pos + 1))
   })"

definition cat21_i271 :: item where
  "cat21_i271 data d pos = need 1 data d pos (do {
     b \<leftarrow> byte_at data pos;
     let d = puts d (
       onlyif (bits b 0x20) [(''position_offset_applied'', VBool True)] @
       onlyif (bits b 0x10) [(''cdti_surface_operational'', VBool True)] @
       onlyif (bits b 0x08) [(''class_b2_low_power'', VBool True)] @
       onlyif (bits b 0x04) [(''receiving_atc_services'', VBool True)] @
       onlyif (bits b 0x02) [(''ident_switch'', VBool True)]);
     (if \<not> bits b 1 then Some (Next (d, pos + 1))
      else need 1 data d (pos + 1) (do {
        b \<leftarrow> byte_at data (pos + 1);
        extents (\<lambda>extent b d. d) 0 b data
          (puts d [(''surface_length_width_code'', VInt (bitfield b 4 15))]) (pos + 2)
      }))
   })"

definition cat21_i132 :: item where
  "cat21_i132 data d pos = need 1 data d pos (do {
     b \<leftarrow> byte_at data pos;
     Some (Next (puts d [(''message_amplitude_dbm'', VInt (unpack_b b))], pos + 1))
   })"

definition cat21_i250 :: item where
  "cat21_i250 data d pos = need 1 data d pos (do {
     rep \<leftarrow> byte_at data pos;
     register_loop (nat rep) data d (pos + 1)
   })"

definition cat21_i260 :: item where
  "cat21_i260 data d pos = need 7 data d pos
     (Some (Next (puts d (decode_bds30 (py_slice data pos (pos + 7))), pos + 7)))"

definition cat21_i400 :: item where
  "cat21_i400 data d pos = need 1 data d pos (do {
     b \<leftarrow> byte_at data pos;
     Some (Next (puts d [(''receiver_id'', VInt b)], pos + 1))
   })"

definition cat21_names295 :: "string list" where
  "cat21_names295 = [
     ''aircraft_status'', ''target_descriptor'', ''mode3a'', ''quality'', ''trajectory'',
     ''amplitude'', ''geometric_height'', ''flight_level'', ''selected_altitude'',
     ''final_altitude'', ''air_speed'', ''true_air_speed'', ''mag_heading'', ''baro_vr'',
     ''geo_vr'', ''ground_vector'', ''track_angle_rate'', ''target_id'', ''target_status'',
     ''met'', ''roll'', ''acas_ra'', ''surface_capabilities'']"

definition cat21_age295 :: "string \<Rightarrow> item" where
  "cat21_age295 name data d pos = need 1 data d pos (do {
     b \<leftarrow> byte_at data pos;
     Some (Next (puts d [(''data_age_'' @ name @ ''_s'', VFloat (py_round (of_int b * 0.1) 1))], pos + 1))
   })"

definition cat21_i295 :: item where
  "cat21_i295 = presence_item 4 (\<lambda>flags. subfields flags 0 (map cat21_age295 cat21_names295))"

subsection \<open>Records and blocks\<close>

definition cat21_unused :: item where
  "cat21_unused data d pos = Some (Next (d, pos))"

definition cat21_items :: "item list" where
  "cat21_items = [
     cat21_i010, cat21_i040, cat21_i161, cat21_i015, cat21_time24 ''position_time_s'',
     cat21_i130, cat21_i131, cat21_time24 ''velocity_time_s'', cat21_i150, cat21_i151,
     cat21_i080, cat21_time24 ''position_reception_time_s'',
     cat21_time_hp ''position_reception_time_hp'', cat21_time24 ''velocity_reception_time_s'',
     cat21_time_hp ''velocity_reception_time_hp'', cat21_i140, cat21_i090, cat21_i210,
     cat21_i070, cat21_i230, cat21_i145, cat21_i152, cat21_i200, cat21_rate ''baro_vr_fpm'',
     cat21_rate ''geo_vr_fpm'', cat21_i160, cat21_i165, cat21_time24 ''report_transmission_time_s'',
     cat21_i170, cat21_i020, cat21_i220, cat21_altitude True, cat21_altitude False, cat21_i110,
     cat21_i016, cat21_i008, cat21_i271, cat21_i132, cat21_i250, cat21_i260, cat21_i400,
     cat21_i295, cat21_unused, cat21_unused, cat21_unused, cat21_unused, cat21_unused,
     skip_item, skip_item]"

text \<open>\<open>elif frn >= 42: continue\<close>, so the final \<open>else: break\<close> is never reached.\<close>

definition cat21_step :: "bytes \<Rightarrow> nat \<Rightarrow> dict \<Rightarrow> nat \<Rightarrow> flow option" where
  "cat21_step data frn d pos =
     (if frn < length cat21_items then (cat21_items ! frn) data d pos else cat21_unused data d pos)"

definition cat21_track0 :: "real \<Rightarrow> dict" where
  "cat21_track0 now = [(''_ts'', VFloat now), (''_src'', VStr ''ASTERIX CAT-21 Ed.2.7'')]"

definition decode_cat021_record :: "real \<Rightarrow> bytes \<Rightarrow> nat \<Rightarrow> dstate option" where
  "decode_cat021_record now = decode_with (cat21_track0 now) cat21_step Some"

definition cat21_topic :: "string \<Rightarrow> string \<Rightarrow> string" where
  "cat21_topic pre source = pre @ ''/air/'' @ source @ ''/adsb/civ/aircraft''"

definition cat21_handler :: "(pyval \<Rightarrow> string) \<Rightarrow> string \<Rightarrow> real \<Rightarrow> bytes \<Rightarrow> event list option" where
  "cat21_handler rp pre now data = do {
     rs \<leftarrow> decode_records (decode_cat021_record now) data 0;
     handle_records (publish_record rp (cat21_topic pre) ''AsterixCat21Track'' 21 ''cat021'') rs
   }"

subsection \<open>The contract of the items\<close>

lemma cat21_plain_moves [item_ok]:
  "item_moves cat21_i010" "item_moves cat21_i161" "item_moves cat21_i015" "item_moves cat21_i130"
  "item_moves cat21_i131" "item_moves cat21_i150" "item_moves cat21_i151" "item_moves cat21_i080"
  "item_moves cat21_i140" "item_moves cat21_i070" "item_moves cat21_i230" "item_moves cat21_i145"
  "item_moves cat21_i152" "item_moves cat21_i200" "item_moves cat21_i160" "item_moves cat21_i165"
  "item_moves cat21_i170" "item_moves cat21_i020" "item_moves cat21_i016" "item_moves cat21_i008"
  "item_moves cat21_i132" "item_moves cat21_i250" "item_moves cat21_i260" "item_moves cat21_i400"
  "item_moves cat21_unused" "item_moves (cat21_altitude s)"
  by (simp_all add: item_moves_def cat21_i010_def cat21_i161_def cat21_i015_def cat21_i130_def cat21_i131_def
      cat21_i150_def cat21_i151_def cat21_i080_def cat21_i140_def cat21_i070_def cat21_i230_def cat21_i145_def
      cat21_i152_def cat21_i200_def cat21_i160_def cat21_i165_def cat21_i170_def cat21_i020_def cat21_i016_def
      cat21_i008_def cat21_i132_def cat21_i250_def cat21_i260_def cat21_i400_def cat21_unused_def
      cat21_altitude_def flow_simps byte_simps Let_def)

lemma cat21_named_moves [item_ok]:
  assumes "name \<notin> set typed_keys"
  shows "item_moves (cat21_time24 name)" and "item_moves (cat21_time_hp name)" and "item_moves (cat21_rate name)"
  using assms
  by (simp_all add: item_moves_def cat21_time24_def cat21_time_hp_def cat21_rate_def flow_simps byte_simps Let_def)

lemma cat21_ext_typed [flow_simps]:
  "wf_track d \<Longrightarrow> wf_track (cat21_ext040 e b d)" "wf_track d \<Longrightarrow> wf_track (cat21_ext090 e b d)"
  by (simp_all add: cat21_ext040_def cat21_ext090_def flow_simps Let_def split: option.split)

lemma cat21_extended_moves [item_ok]:
  "item_moves cat21_i040" "item_moves cat21_i090" "item_moves cat21_i210" "item_moves cat21_i271"
  by (simp_all add: item_moves_def cat21_i040_def cat21_i090_def cat21_i210_def cat21_i271_def
      flow_simps byte_simps extents_moves Let_def)

lemma cat21_met220_moves: "list_all item_moves cat21_met220"
  by (simp add: cat21_met220_def item_moves_def flow_simps byte_simps)

lemma cat21_age295_moves: "item_moves (cat21_age295 name)"
  by (simp add: item_moves_def cat21_age295_def flow_simps byte_simps field_ok_def)

lemma cat21_optional_moves [item_ok]:
  "item_moves cat21_i220" "item_moves cat21_i295"
  unfolding cat21_i220_def cat21_i295_def
  by (intro presence_item_moves subfields_item_moves cat21_met220_moves;
      simp add: list_all_iff cat21_age295_moves)+

lemma cat21_i110_moves [item_ok]: "item_moves cat21_i110"
  unfolding cat21_i110_def
  by (rule presence_item_moves)
    (auto simp: item_moves_def flow_simps byte_simps tuple_get_def intro!: moves_then_item)

lemma cat21_step_moves:
  "wf_track d \<Longrightarrow> p \<le> length data \<Longrightarrow> moves p (length data) (cat21_step data frn d p)"
proof -
  assume a: "wf_track d" "p \<le> length data"
  have "list_all item_moves cat21_items" by (simp add: cat21_items_def item_ok)
  with a show ?thesis
    by (simp add: cat21_step_def cat21_unused_def item_moves_def list_all_length moves_simps)
qed

interpretation cat21: category_decoder "cat21_track0 now" cat21_step Some for now
proof unfold_locales
  show "wf_track (cat21_track0 now)" by (simp add: cat21_track0_def wf_track_def flow_simps)
qed (simp_all add: cat21_step_moves)

interpretation cat21_handler: track_category "decode_cat021_record now"
    "publish_record rp (cat21_topic pre) ''AsterixCat21Track'' 21 ''cat021''" 21 for now rp pre
proof unfold_locales
  show "\<exists>t p. decode_cat021_record now data pos = Some (t, p) \<and> wf_track t \<and> pos < p \<and> p \<le> length data"
    if "pos < length data" for pos data
    unfolding decode_cat021_record_def by (rule cat21.decode_moves [OF that])
qed (simp_all add: publish_record_native)

end
