(* ===== verification/Asterix_Cat062.thy ===== *)
theory Asterix_Cat062
  imports Asterix_Fields
begin

text \<open>
  CAT-062, system tracks: the four compound items with dictionaries of their own, the items in
  the order of the field reference numbers, the record decoder and the block handler.
\<close>

subsection \<open>Text fields\<close>

text \<open>\<open>strip("\x00 ")\<close>.\<close>

definition strip_pad :: "string \<Rightarrow> string" where
  "strip_pad = strip_by (\<lambda>c. c = CHR 0x00 \<or> c = CHR '' '')"

subsection \<open>Aircraft derived data\<close>

definition cat62_met380 :: "subdecoder list" where
  "cat62_met380 = [
     fixed 2 (\<lambda>data pos. do { v \<leftarrow> u16 data pos; Some [(''wind_speed_kt'', VInt v)] }),
     fixed 2 (\<lambda>data pos. do { v \<leftarrow> u16 data pos; Some [(''wind_dir_deg'', VInt v)] }),
     fixed 2 (\<lambda>data pos. do { v \<leftarrow> s16 data pos; Some [(''temp_c'', VFloat (of_int v / 4))] }),
     fixed 1 (\<lambda>data pos. do { v \<leftarrow> byte_at data pos; Some [(''turbulence'', VInt v)] })]"

text \<open>The trajectory intent: a count and 15 octets each, passed over.\<close>

definition cat62_intent380 :: subdecoder where
  "cat62_intent380 data out pos = (case byte_at data pos of
     None \<Rightarrow> Some (Done (out, length data))
   | Some rep \<Rightarrow> fixed (1 + nat rep * 15) (\<lambda>data pos. Some []) data out pos)"

text \<open>
  The meteorological data: four optional fields, whose flags \<open>met_flags[met_index]\<close> the
  presence octet always has.
\<close>

fun cat62_met_fields :: "bool list \<Rightarrow> subdecoder list \<Rightarrow> subdecoder" where
  "cat62_met_fields (True # flags) (f # fs) data out pos = (case f data out pos of
     Some (More (out, pos)) \<Rightarrow> cat62_met_fields flags fs data out pos | r \<Rightarrow> r)"
| "cat62_met_fields (False # flags) (f # fs) data out pos = cat62_met_fields flags fs data out pos"
| "cat62_met_fields flags [] data out pos = Some (More (out, pos))"
| "cat62_met_fields [] (f # fs) data out pos = None"

definition cat62_meteo380 :: subdecoder where
  "cat62_meteo380 data out pos = (case presence 1 data pos [] of
     Inl _ \<Rightarrow> Some Value_error
   | Inr (met_flags, pos) \<Rightarrow> cat62_met_fields met_flags cat62_met380 data out pos)"

fun cat62_registers :: "nat \<Rightarrow> subdecoder" where
  "cat62_registers 0 data out pos = Some (More (out, pos))"
| "cat62_registers (Suc rep) data out pos =
     (if pos + 8 > length data then Some (Done (out, length data))
      else do {
        bds \<leftarrow> byte_at data (pos + 7);
        cat62_registers rep data (puts out (cat48_bds250 (py_slice data pos (pos + 7)) bds)) (pos + 8)
      })"

definition cat62_bds380 :: subdecoder where
  "cat62_bds380 data out pos = (case byte_at data pos of
     None \<Rightarrow> Some (Done (out, length data))
   | Some rep \<Rightarrow> cat62_registers (nat rep) data out (pos + 1))"

definition cat62_airspeed380 :: "bytes \<Rightarrow> nat \<Rightarrow> dict option" where
  "cat62_airspeed380 data pos = do {
     w \<leftarrow> u16 data pos;
     Some (if bits w 0x8000 then [(''mach'', VFloat (py_round (of_int (w AND 0x7FFF) * 0.001) 3))]
       else [(''ias_kt'', VFloat (py_round (of_int (w AND 0x7FFF) * 3600 / 16384) 2))])
   }"

definition cat62_altitude380 :: "string \<Rightarrow> bytes \<Rightarrow> nat \<Rightarrow> dict option" where
  "cat62_altitude380 name data pos = do {
     w \<leftarrow> u16 data pos;
     let value = w AND 0x1FFF;
     let value = (if bits value 0x1000 then value - 0x2000 else value);
     Some [(name, VInt (value * 25))]
   }"

definition cat62_rate380 :: "string \<Rightarrow> bytes \<Rightarrow> nat \<Rightarrow> dict option" where
  "cat62_rate380 name data pos = do {
     w \<leftarrow> u16 data pos;
     let value = w AND 0x7FFF;
     let value = (if bits value 0x4000 then value - 0x8000 else value);
     Some [(name, VFloat (of_int value * (25 / 4)))]
   }"

definition cat62_turn380 :: "bytes \<Rightarrow> nat \<Rightarrow> dict option" where
  "cat62_turn380 data pos = do {
     w \<leftarrow> u16 data pos;
     let value = w AND 0x03FF;
     let value = (if bits value 0x0200 then value - 0x0400 else value);
     Some [(''track_angle_rate_degs'', VFloat (py_round (of_int value / 32) 3))]
   }"

definition cat62_position380 :: "bytes \<Rightarrow> nat \<Rightarrow> dict option" where
  "cat62_position380 data pos = do {
     lat \<leftarrow> s24 data pos;
     lon \<leftarrow> s24 data (pos + 3);
     Some [(''aircraft_lat_deg'', VFloat (py_round (of_int lat * (180 / 2 ^ 23)) 7)),
       (''aircraft_lon_deg'', VFloat (py_round (of_int lon * (180 / 2 ^ 23)) 7))]
   }"

text \<open>A sub-field of which nothing is kept.\<close>

definition unread :: "nat \<Rightarrow> subdecoder" where
  "unread k = fixed k (\<lambda>data pos. Some [])"

definition cat62_fields380 :: "subdecoder list" where
  "cat62_fields380 = [
     fixed 3 (\<lambda>data pos. Some [(''icao24'', VStr (hex_bytes (py_slice data pos (pos + 3))))]),
     fixed 6 (\<lambda>data pos. Some [(''callsign'', VStr (decode_callsign (py_slice data pos (pos + 6))))]),
     fixed 2 (\<lambda>data pos. do {
       v \<leftarrow> u16 data pos; Some [(''mag_hdg_deg'', VFloat (py_round (of_int v * 360 / 65536) 3))] }),
     fixed 2 cat62_airspeed380,
     fixed 2 (\<lambda>data pos. do { v \<leftarrow> u16 data pos; Some [(''tas_kt'', VInt (v AND 0x7FFF))] }),
     fixed 2 (cat62_altitude380 ''selected_alt_ft''), fixed 2 (cat62_altitude380 ''final_alt_ft''),
     unread 1, cat62_intent380, unread 2, unread 2, unread 7,
     fixed 2 (cat62_rate380 ''baro_vr_fpm''), fixed 2 (cat62_rate380 ''geo_vr_fpm''),
     fixed 2 (\<lambda>data pos. do {
       v \<leftarrow> s16 data pos; Some [(''roll_deg'', VFloat (py_round (of_int v * 0.01) 2))] }),
     fixed 2 cat62_turn380,
     fixed 2 (\<lambda>data pos. do {
       v \<leftarrow> u16 data pos; Some [(''heading_deg'', VFloat (py_round (of_int v * 360 / 65536) 3))] }),
     fixed 2 (\<lambda>data pos. do {
       v \<leftarrow> s16 data pos; Some [(''speed_ms'', VFloat (py_round (of_int v * (1 / 2 ^ 14) * 1852) 3))] }),
     unread 1, cat62_meteo380,
     fixed 1 (\<lambda>data pos. do { b \<leftarrow> byte_at data pos; Some [(''emitter_category'', VInt b)] }),
     fixed 6 cat62_position380,
     fixed 2 (\<lambda>data pos. do { v \<leftarrow> s16 data pos; Some [(''aircraft_geo_alt_ft'', VFloat (of_int v * (25 / 4)))] }),
     unread 1, cat62_bds380,
     fixed 2 (\<lambda>data pos. do { v \<leftarrow> u16 data pos; Some [(''ias_kt'', VInt v)] }),
     fixed 2 (\<lambda>data pos. do { v \<leftarrow> u16 data pos; Some [(''mach'', VFloat (py_round (of_int v * 0.008) 3))] }),
     fixed 2 (\<lambda>data pos. do {
       v \<leftarrow> u16 data pos; Some [(''baro_setting_mb'', VFloat (800 + of_int (v AND 0x0FFF) * 0.1))] })]"

definition cat62_380 :: "bytes \<Rightarrow> nat \<Rightarrow> (unit + dstate) option" where
  "cat62_380 = sub_decode 4 cat62_fields380"

subsection \<open>Flight plan related data\<close>

definition cat62_text390 :: "string \<Rightarrow> nat \<Rightarrow> subdecoder" where
  "cat62_text390 name k =
     fixed k (\<lambda>data pos. Some [(name, VStr (strip_pad (ascii_replace (py_slice data pos (pos + k)))))])"

definition cat62_time390 :: "int \<Rightarrow> pyval" where
  "cat62_time390 val = VDict [
     (''type'', VInt (bitfield val 27 0x1F)),
     (''day'', VInt (bitfield val 25 0x03)),
     (''hour'', VInt (bitfield val 16 0x1F)),
     (''minute'', VInt (bitfield val 8 0x3F)),
     (''seconds_available'', VBool (bits val 0x80)),
     (''second'', VInt (val AND 0x3F))]"

fun cat62_times390 :: "nat \<Rightarrow> bytes \<Rightarrow> pyval list \<Rightarrow> nat \<Rightarrow> pyval list option" where
  "cat62_times390 0 data entries entry_pos = Some entries"
| "cat62_times390 (Suc rep) data entries entry_pos = do {
     val \<leftarrow> u32 data entry_pos;
     cat62_times390 rep data (entries @ [cat62_time390 val]) (entry_pos + 4)
   }"

definition cat62_tod390 :: subdecoder where
  "cat62_tod390 data out pos = (case byte_at data pos of
     None \<Rightarrow> Some (Done (out, length data))
   | Some rep \<Rightarrow> fixed (1 + nat rep * 4) (\<lambda>data pos. do {
       entries \<leftarrow> cat62_times390 (nat rep) data [] (pos + 1);
       Some [(''departure_arrival_times'', VList entries)]
     }) data out pos)"

definition cat62_category390 :: "bytes \<Rightarrow> nat \<Rightarrow> dict option" where
  "cat62_category390 data pos = do {
     b \<leftarrow> byte_at data pos;
     let gat = bitfield b 6 0x03;
     let fr = bitfield b 4 0x03;
     let rvsm = bitfield b 2 0x03;
     gat_name \<leftarrow> tuple_get ['''', ''GAT'', ''OAT'', ''GAT+OAT''] gat;
     fr_name \<leftarrow> tuple_get ['''', ''IFR'', ''VFR'', ''IFR+VFR''] fr;
     Some (onlyif (gat \<noteq> 0) [(''flight_gat'', VStr gat_name)] @
       onlyif (fr \<noteq> 0) [(''flight_rules'', VStr fr_name)] @
       (if rvsm = 1 then [(''rvsm'', VStr ''approved'')]
        else if rvsm = 2 then [(''rvsm'', VStr ''exempt'')]
        else if rvsm = 3 then [(''rvsm'', VStr ''not_approved'')] else []) @
       onlyif (bits b 0x02) [(''high_priority'', VBool True)])
   }"

definition cat62_runway390 :: "bytes \<Rightarrow> nat \<Rightarrow> dict option" where
  "cat62_runway390 data pos = do {
     nu1 \<leftarrow> byte_at data pos;
     nu2 \<leftarrow> byte_at data (pos + 1);
     ltr \<leftarrow> byte_at data (pos + 2);
     let letter = (if 32 < ltr \<and> ltr < 127 then [char_of ltr] else []);
     Some [(''runway'', VStr (fmt_int nu1 @ fmt_int nu2 @ letter)),
       (''runway_nu1'', VInt nu1), (''runway_nu2'', VInt nu2)]
   }"

definition cat62_fields390 :: "subdecoder list" where
  "cat62_fields390 = [
     fixed 2 (\<lambda>data pos. do {
       a \<leftarrow> byte_at data pos; b \<leftarrow> byte_at data (pos + 1);
       Some [(''fpps_sac'', VInt a), (''fpps_sic'', VInt b)] }),
     cat62_text390 ''flight_plan_callsign'' 7,
     fixed 4 (\<lambda>data pos. do {
       val \<leftarrow> u32 data pos;
       Some [(''ifps_id_type'', VInt (bitfield val 30 0x03)), (''ifps_flight_id'', VInt (val AND 0x07FFFFFF))] }),
     fixed 1 cat62_category390,
     cat62_text390 ''aircraft_type'' 4,
     fixed 1 (\<lambda>data pos. do { b \<leftarrow> byte_at data pos; Some [(''wake_turb_cat'', VStr [char_of b])] }),
     cat62_text390 ''departure_icao'' 4, cat62_text390 ''destination_icao'' 4,
     fixed 3 cat62_runway390,
     fixed 2 (\<lambda>data pos. do { v \<leftarrow> s16 data pos; Some [(''cleared_fl'', VFloat (of_int v / 4))] }),
     fixed 2 (\<lambda>data pos. do {
       a \<leftarrow> byte_at data pos; b \<leftarrow> byte_at data (pos + 1);
       Some [(''control_centre'', VInt a), (''control_position'', VInt b)] }),
     cat62_tod390,
     cat62_text390 ''aircraft_stand'' 6,
     fixed 1 (\<lambda>data pos. do {
       b \<leftarrow> byte_at data pos;
       Some [(''stand_emplacement'', VInt (bitfield b 6 0x03)), (''stand_availability'', VInt (bitfield b 4 0x03))] }),
     cat62_text390 ''sid'' 7, cat62_text390 ''star'' 7,
     fixed 2 (\<lambda>data pos. do {
       val \<leftarrow> u16 data pos;
       Some [(''pre_emergency_squawk_valid'', VBool (bits val 0x1000)),
         (''pre_emergency_squawk'', VStr (fmt_pad 8 4 (val AND 0x0FFF)))] }),
     cat62_text390 ''pre_emergency_callsign'' 7]"

definition cat62_390 :: "bytes \<Rightarrow> nat \<Rightarrow> (unit + dstate) option" where
  "cat62_390 = sub_decode 3 cat62_fields390"

subsection \<open>Accuracies and the measurement\<close>

definition cat62_fields500 :: "subdecoder list" where
  "cat62_fields500 = [
     fixed 4 (\<lambda>data pos. do {
       x \<leftarrow> u16 data pos; y \<leftarrow> u16 data (pos + 2);
       Some [(''pos_accuracy_x_m'', VFloat (of_int x / 2)), (''pos_accuracy_y_m'', VFloat (of_int y / 2))] }),
     unread 2, unread 4,
     fixed 1 (\<lambda>data pos. do { b \<leftarrow> byte_at data pos; Some [(''geo_alt_accuracy_ft'', VFloat (of_int b * (25 / 4)))] }),
     fixed 1 (\<lambda>data pos. do { b \<leftarrow> byte_at data pos; Some [(''baro_alt_accuracy_ft'', VInt (b * 25))] }),
     unread 2, unread 2, unread 1]"

definition cat62_500 :: "bytes \<Rightarrow> nat \<Rightarrow> (unit + dstate) option" where
  "cat62_500 = sub_decode 2 cat62_fields500"

definition cat62_fields340 :: "subdecoder list" where
  "cat62_fields340 = [
     fixed 2 (\<lambda>data pos. do {
       a \<leftarrow> byte_at data pos; b \<leftarrow> byte_at data (pos + 1);
       Some [(''measured_by'', VStr (fmt_int a @ ''/'' @ fmt_int b))] }),
     fixed 4 (\<lambda>data pos. do {
       r \<leftarrow> u16 data pos; az \<leftarrow> u16 data (pos + 2);
       Some [(''meas_range_nm'', VFloat (py_round (of_int r / 256) 3)),
         (''meas_az_deg'', VFloat (py_round (of_int az * 360 / 65536) 3))] }),
     fixed 2 (\<lambda>data pos. do { h \<leftarrow> s16 data pos; Some [(''meas_alt_ft'', VInt (h * 25))] }),
     unread 4,
     fixed 2 (\<lambda>data pos. do { w \<leftarrow> u16 data pos; Some [(''squawk'', VStr (fmt_pad 8 4 (w AND 0x0FFF)))] }),
     unread 1]"

definition cat62_340 :: "bytes \<Rightarrow> nat \<Rightarrow> (unit + dstate) option" where
  "cat62_340 = sub_decode 1 cat62_fields340"

subsection \<open>Items\<close>

definition cat62_i010 :: item where
  "cat62_i010 data d pos = need 2 data d pos (do {
     a \<leftarrow> byte_at data pos;
     b \<leftarrow> byte_at data (pos + 1);
     Some (Next (puts d [(''sac'', VInt a), (''sic'', VInt b)], pos + 2))
   })"

text \<open>A reserved or unknown field reference number: nothing is read.\<close>

definition cat62_reserved :: item where
  "cat62_reserved data d pos = Some (Next (d, pos))"

definition cat62_i015 :: item where
  "cat62_i015 data d pos = need 1 data d pos (do {
     b \<leftarrow> byte_at data pos;
     Some (Next (puts d [(''service_id'', VInt b)], pos + 1))
   })"

definition cat62_i070 :: item where
  "cat62_i070 data d pos = need 3 data d pos
     (Some (Next (puts d [(''tod_s'', VFloat (of_int (from_bytes_big (py_slice data pos (pos + 3))) / 128))], pos + 3)))"

definition cat62_i105 :: item where
  "cat62_i105 data d pos = need 8 data d pos (do {
     lat \<leftarrow> s32 data pos;
     lon \<leftarrow> s32 data (pos + 4);
     Some (Next (puts d [(''lat_deg'', VFloat (py_round (of_int lat * (180 / 2 ^ 25)) 7)),
       (''lon_deg'', VFloat (py_round (of_int lon * (180 / 2 ^ 25)) 7))], pos + 8))
   })"

definition cat62_i100 :: item where
  "cat62_i100 data d pos = need 6 data d pos (do {
     x \<leftarrow> s24 data pos;
     y \<leftarrow> s24 data (pos + 3);
     Some (Next (puts d [(''x_m'', VFloat (of_int x / 2)), (''y_m'', VFloat (of_int y / 2))], pos + 6))
   })"

definition cat62_i185 :: item where
  "cat62_i185 data d pos = need 4 data d pos (do {
     x \<leftarrow> s16 data pos;
     y \<leftarrow> s16 data (pos + 2);
     let vx = of_int x / 4;
     let vy = of_int y / 4;
     Some (Next (puts d ([(''vx_ms'', VFloat vx), (''vy_ms'', VFloat vy)] @ ground_vector vx vy), pos + 4))
   })"

definition cat62_i210 :: item where
  "cat62_i210 data d pos = need 2 data d pos (do {
     x \<leftarrow> byte_at data pos;
     y \<leftarrow> byte_at data (pos + 1);
     Some (Next (puts d [(''ax_ms2'', VFloat (of_int (unpack_b x) / 4)),
       (''ay_ms2'', VFloat (of_int (unpack_b y) / 4))], pos + 2))
   })"

definition cat62_i060 :: item where
  "cat62_i060 data d pos = need 2 data d pos (do {
     w \<leftarrow> u16 data pos;
     Some (Next (puts d [(''squawk'', VStr (fmt_pad 8 4 (w AND 0x0FFF)))], pos + 2))
   })"

definition cat62_i245 :: item where
  "cat62_i245 data d pos = need 7 data d pos
     (Some (Next (puts d [(''callsign'', VStr (decode_callsign (py_slice data (pos + 1) (pos + 7))))], pos + 7)))"

definition cat62_i040 :: item where
  "cat62_i040 data d pos = need 2 data d pos (do {
     w \<leftarrow> u16 data pos;
     Some (Next (puts d [(''track_num'', VInt (w AND 0x0FFF))], pos + 2))
   })"

definition cat62_emergency_codes :: "(int \<times> string option) list" where
  "cat62_emergency_codes = [
     (0, None), (1, Some ''GENERAL EMERGENCY''), (2, Some ''LIFEGUARD/MEDICAL''), (3, Some ''MIN FUEL''),
     (4, Some ''NO COMMS''), (5, Some ''UNLAWFUL INTERFERENCE''), (6, Some ''DOWNED AIRCRAFT'')]"

text \<open>The extents of the track status.\<close>

definition cat62_ext080 :: "nat \<Rightarrow> int \<Rightarrow> dict \<Rightarrow> dict" where
  "cat62_ext080 extent b d =
     (if extent = 1 then puts d (
        onlyif (bits b 0x80) [(''simulated'', VBool True)] @
        onlyif (bits b 0x40) [(''_delete'', VBool True)] @
        onlyif (bits b 0x20) [(''track_begin'', VBool True)] @
        onlyif (bits b 0x10) [(''flight_plan_correlated'', VBool True)])
      else if extent = 2 then puts d (
        onlyif (bits b 0x20) [(''mil_emergency'', VBool True), (''is_military'', VBool True)] @
        onlyif (bits b 0x10) [(''mil_id_present'', VBool True), (''is_military'', VBool True)])
      else if extent = 3 then puts d (onlyif (bits b 0x80) [(''coasting'', VBool True)])
      else if extent = 4 then
        let ec = bitfield b 4 0x07 in
        if ec = 0 then d
        else let d = setdefault ''emergency_code'' (VInt ec) d in
          (case map_of cat62_emergency_codes ec of
             Some (Some s) \<Rightarrow> setdefault ''emergency_str'' (VStr s) d | _ \<Rightarrow> d)
      else d)"

definition cat62_i080 :: item where
  "cat62_i080 data d pos = need 1 data d pos (do {
     b \<leftarrow> byte_at data pos;
     extents cat62_ext080 0 b data
       (puts d [(''track_monosensor'', VBool (bits b 0x80)), (''confirmed'', VBool (\<not> bits b 0x02))]) (pos + 1)
   })"

definition cat62_age290 :: "nat \<Rightarrow> string \<Rightarrow> item" where
  "cat62_age290 k name data d pos = need k data d pos
     (Some (Next (puts d [(''track_age_'' @ name @ ''_s'',
        VFloat (of_int (from_bytes_big (py_slice data pos (pos + k))) / 4))], pos + k)))"

definition cat62_i290 :: item where
  "cat62_i290 = presence_item 2 (\<lambda>flags. subfields flags 0 [
     cat62_age290 1 ''track'', cat62_age290 1 ''psr'', cat62_age290 1 ''ssr'', cat62_age290 1 ''mode_s'',
     cat62_age290 2 ''ads_c'', cat62_age290 1 ''ads_b_es'', cat62_age290 1 ''vdl4'', cat62_age290 1 ''uat'',
     cat62_age290 1 ''loop'', cat62_age290 1 ''mlat''])"

definition cat62_i200 :: item where
  "cat62_i200 data d pos = need 1 data d pos (do {
     b \<leftarrow> byte_at data pos;
     lateral \<leftarrow> tuple_get [''constant'', ''right'', ''left'', ''undetermined''] (bitfield b 6 3);
     speed \<leftarrow> tuple_get [''constant'', ''increasing'', ''decreasing'', ''undetermined''] (bitfield b 4 3);
     vertical \<leftarrow> tuple_get [''level'', ''climb'', ''descent'', ''undetermined''] (bitfield b 2 3);
     Some (Next (puts d (
       [(''lateral_trend'', VStr lateral), (''speed_trend'', VStr speed), (''vertical_trend'', VStr vertical)] @
       onlyif (bits b 0x02) [(''alt_discrepancy'', VBool True)]), pos + 1))
   })"

definition cat62_names295 :: "string list" where
  "cat62_names295 = [
     ''mfl'', ''md1'', ''md2'', ''mda'', ''md4'', ''md5'', ''mhg'', ''ias'', ''tas'',
     ''sal'', ''fss'', ''tid'', ''com'', ''sab'', ''acs'', ''bvr'', ''gvr'', ''ran'',
     ''tar'', ''tan'', ''gsp'', ''vun'', ''met'', ''emc'', ''pos'', ''gal'', ''pun'',
     ''mb'', ''iar'', ''mac'', ''bps'']"

text \<open>The ages of the data; \<open>None\<close> is the return on a short record, which drops them.\<close>

fun cat62_ages295 :: "bool list \<Rightarrow> nat \<Rightarrow> string list \<Rightarrow> bytes \<Rightarrow> dict \<Rightarrow> nat \<Rightarrow> dstate option" where
  "cat62_ages295 flags index [] data ages pos = Some (ages, pos)"
| "cat62_ages295 flags index (name # names) data ages pos =
     (if index \<ge> length flags \<or> \<not> flags ! index then cat62_ages295 flags (index + 1) names data ages pos
      else case byte_at data pos of
        None \<Rightarrow> None
      | Some b \<Rightarrow> cat62_ages295 flags (index + 1) names data
          (puts ages [(name, VFloat (of_int b / 4))]) (pos + 1))"

definition cat62_i295 :: item where
  "cat62_i295 = presence_item 5 (\<lambda>flags data d pos. (case cat62_ages295 flags 0 cat62_names295 data [] pos of
     None \<Rightarrow> Some (Return (d, length data))
   | Some (ages, pos) \<Rightarrow> Some (Next (puts d (onlyif (ages \<noteq> []) [(''data_ages_s'', VDict ages)]), pos))))"

definition cat62_i136 :: item where
  "cat62_i136 data d pos = need 2 data d pos (do {
     w \<leftarrow> u16 data pos;
     Some (Next (puts d [(''measured_alt_ft'', VInt (sign_extend 16 w * 25))], pos + 2))
   })"

definition cat62_i130 :: item where
  "cat62_i130 data d pos = need 2 data d pos (do {
     w \<leftarrow> u16 data pos;
     Some (Next (puts d [(''calc_geo_alt_ft'', VFloat (of_int (sign_extend 16 w) * (25 / 4)))], pos + 2))
   })"

definition cat62_i135 :: item where
  "cat62_i135 data d pos = need 2 data d pos (do {
     w \<leftarrow> u16 data pos;
     let raw = w AND 0x7FFF;
     let raw = (if bits raw 0x4000 then raw - 0x8000 else raw);
     Some (Next (puts d [(''calc_baro_alt_ft'', VInt (raw * 25)), (''qnh_corrected'', VBool (bits w 0x8000))], pos + 2))
   })"

definition cat62_i220 :: item where
  "cat62_i220 data d pos = need 2 data d pos (do {
     w \<leftarrow> u16 data pos;
     Some (Next (puts d [(''vertical_rate_fpm'', VFloat (of_int (sign_extend 16 w) * (25 / 4)))], pos + 2))
   })"

definition cat62_ext270 :: "nat \<Rightarrow> int \<Rightarrow> dict \<Rightarrow> dict" where
  "cat62_ext270 extent b d =
     (if extent = 1 then puts d [(''target_orientation_deg'', VFloat (py_round (of_int (drop_bit 1 b) * 360 / 128) 2))]
      else if extent = 2 then puts d [(''target_width_m'', VInt (drop_bit 1 b))]
      else d)"

definition cat62_i270 :: item where
  "cat62_i270 data d pos = need 1 data d pos (do {
     b \<leftarrow> byte_at data pos;
     extents cat62_ext270 0 b data (puts d [(''target_length_m'', VInt (drop_bit 1 b))]) (pos + 1)
   })"

definition cat62_i300 :: item where
  "cat62_i300 data d pos = need 1 data d pos (do {
     b \<leftarrow> byte_at data pos;
     Some (Next (puts d [(''fleet_id'', VInt b)], pos + 1))
   })"

text \<open>The Mode 5 data: seven sub-fields, of which the fifth is kept.\<close>

definition cat62_mode1_110 :: item where
  "cat62_mode1_110 data d pos = need 2 data d pos (do {
     w \<leftarrow> u16 data pos;
     Some (Next (puts d [(''mode1'', VStr (fmt_pad 8 2 (w AND 0x3F)))], pos + 2))
   })"

definition cat62_skip :: "nat \<Rightarrow> item" where
  "cat62_skip k data d pos = need k data d pos (Some (Next (d, pos + k)))"

definition cat62_i110 :: item where
  "cat62_i110 = presence_item 1 (\<lambda>flags. subfields flags 0 [
     cat62_skip 1, cat62_skip 4, cat62_skip 6, cat62_skip 2, cat62_mode1_110, cat62_skip 1, cat62_skip 1])"

definition cat62_i120 :: item where
  "cat62_i120 data d pos = need 2 data d pos (do {
     w \<leftarrow> u16 data pos;
     Some (Next (puts d [(''mode2'', VStr (fmt_pad 8 4 (w AND 0x0FFF)))], pos + 2))
   })"

text \<open>The composed track numbers, three octets each, as long as the last has its extension bit.\<close>

function cat62_i510 :: item where
  "cat62_i510 data d pos =
     (if pos + 3 > length data then Some (Return (d, length data))
      else do {
        b \<leftarrow> byte_at data (pos + 2);
        (if \<not> bits b 1 then Some (Next (d, pos + 3)) else cat62_i510 data d (pos + 3))
      })"
  by pat_completeness auto
termination
  by (relation "measure (\<lambda>(data, d, pos). length data - pos)") auto

declare cat62_i510.simps [simp del]

subsection \<open>Records and blocks\<close>

definition cat62_items :: "item list" where
  "cat62_items = [
     cat62_i010, cat62_reserved, cat62_i015, cat62_i070, cat62_i105, cat62_i100, cat62_i185,
     cat62_i210, cat62_i060, cat62_i245, sub_item cat62_380, cat62_i040, cat62_i080, cat62_i290,
     cat62_i200, cat62_i295, cat62_i136, cat62_i130, cat62_i135, cat62_i220, sub_item cat62_390,
     cat62_i270, cat62_i300, cat62_i110, cat62_i120, cat62_i510, sub_item cat62_500, sub_item cat62_340,
     cat62_reserved, cat62_reserved, cat62_reserved, cat62_reserved, cat62_reserved,
     skip_item, skip_item]"

text \<open>\<open>elif frn >= 28: continue\<close>, so the final \<open>else: break\<close> is never reached.\<close>

definition cat62_step :: "bytes \<Rightarrow> nat \<Rightarrow> dict \<Rightarrow> nat \<Rightarrow> flow option" where
  "cat62_step data frn d pos =
     (if frn < length cat62_items then (cat62_items ! frn) data d pos else cat62_reserved data d pos)"

definition cat62_track0 :: "real \<Rightarrow> dict" where
  "cat62_track0 now = [(''_ts'', VFloat now), (''_src'', VStr ''ASTERIX CAT-62 Ed.1.21'')]"

definition decode_cat62_record :: "real \<Rightarrow> bytes \<Rightarrow> nat \<Rightarrow> dstate option" where
  "decode_cat62_record now = decode_with (cat62_track0 now) cat62_step Some"

definition cat62_topic :: "string \<Rightarrow> string \<Rightarrow> string" where
  "cat62_topic pre source = pre @ ''/air/'' @ source @ ''/fused/unknown/aircraft''"

text \<open>The handler formats the topic it was made with; \<open>cat62_topic pre\<close> is the default.\<close>

definition cat62_handler :: "(pyval \<Rightarrow> string) \<Rightarrow> (string \<Rightarrow> string) \<Rightarrow> real \<Rightarrow> bytes \<Rightarrow> event list option" where
  "cat62_handler rp topic now data = do {
     rs \<leftarrow> decode_records (decode_cat62_record now) data 0;
     handle_records (publish_record rp topic ''Cat62Track'' 62 ''cat062'') rs
   }"

subsection \<open>The contract of the items\<close>

lemma unread_moves [item_ok]: "subdecoder_moves (unread k)"
  unfolding unread_def by (rule fixed_moves) (simp add: flow_simps)

lemma subdecoder_movesD:
  "subdecoder_moves f \<Longrightarrow> typed d \<Longrightarrow> p \<le> length data \<Longrightarrow> sub_moves p (length data) (f data d p)"
  by (simp add: subdecoder_moves_def)

lemma sub_moves_trans: "sub_moves q n r \<Longrightarrow> p \<le> q \<Longrightarrow> sub_moves p n r"
  by (auto simp: sub_moves_def split: option.splits sub.splits)

lemma cat62_met380_moves: "list_all subdecoder_moves cat62_met380"
  by (simp add: cat62_met380_def fixed_moves flow_simps byte_simps)

lemma cat62_met_fields_moves:
  "list_all subdecoder_moves fs \<Longrightarrow> length fs \<le> length flags \<Longrightarrow> typed d \<Longrightarrow> p \<le> length data \<Longrightarrow>
     sub_moves p (length data) (cat62_met_fields flags fs data d p)"
proof (induction flags fs data d p rule: cat62_met_fields.induct)
  case (1 flags f fs data out pos)
  then have m: "sub_moves pos (length data) (f data out pos)" by (simp add: subdecoder_movesD)
  show ?case
  proof (cases "\<exists>d' q. f data out pos = Some (More (d', q))")
    case True
    then obtain d' q where f: "f data out pos = Some (More (d', q))" by blast
    with m have q: "typed d'" "pos \<le> q" "q \<le> length data" by (auto simp: flow_simps)
    with 1 f have "sub_moves q (length data) (cat62_met_fields flags fs data d' q)" by simp
    from sub_moves_trans [OF this q(2)] f show ?thesis by simp
  next
    case False
    then have "cat62_met_fields (True # flags) (f # fs) data out pos = f data out pos"
      by (auto split: option.split sub.split prod.split)
    with m show ?thesis by simp
  qed
qed (auto simp: flow_simps)

lemma cat62_registers_moves:
  "typed d \<Longrightarrow> p \<le> q \<Longrightarrow> q \<le> length data \<Longrightarrow> sub_moves p (length data) (cat62_registers rep data d q)"
  by (induction rep data d q rule: cat62_registers.induct) (auto simp: flow_simps byte_simps)

lemma cat62_counted_moves [item_ok]:
  "subdecoder_moves cat62_bds380" "subdecoder_moves cat62_meteo380" "subdecoder_moves cat62_intent380"
proof -
  show "subdecoder_moves cat62_bds380"
    by (auto simp: subdecoder_moves_def cat62_bds380_def flow_simps
        intro!: cat62_registers_moves dest: byte_at_SomeD split: option.split)
  show "subdecoder_moves cat62_meteo380"
    using cat62_met380_moves
    by (auto simp: subdecoder_moves_def cat62_meteo380_def flow_simps cat62_met380_def
        intro!: sub_moves_trans [OF cat62_met_fields_moves] dest!: presence_moves split: sum.split)
  show "subdecoder_moves cat62_intent380"
    by (auto simp: subdecoder_moves_def cat62_intent380_def fixed_def flow_simps split: option.split)
qed

lemma cat62_fields380_moves: "list_all subdecoder_moves cat62_fields380"
  by (simp add: cat62_fields380_def item_ok fixed_moves cat62_airspeed380_def cat62_altitude380_def
      cat62_rate380_def cat62_turn380_def cat62_position380_def s24_def flow_simps byte_simps Let_def)

lemma cat62_times390_total:
  "p + 4 * rep \<le> length data \<Longrightarrow> \<exists>es. cat62_times390 rep data acc p = Some es"
  by (induction rep data acc p rule: cat62_times390.induct) (auto simp: u32_def)

lemma cat62_tod390_moves [item_ok]: "subdecoder_moves cat62_tod390"
proof -
  have "sub_moves p (length data) (cat62_tod390 data d p)" if "typed d" "p \<le> length data" for data d p
  proof (cases "byte_at data p")
    case (Some rep)
    have "subdecoder_moves (fixed (1 + nat rep * 4) (\<lambda>data pos. do {
        entries \<leftarrow> cat62_times390 (nat rep) data [] (pos + 1);
        Some [(''departure_arrival_times'', VList entries)] }))"
    proof (rule fixed_moves)
      fix data :: bytes and q
      assume "q + (1 + nat rep * 4) \<le> length data"
      then obtain es where "cat62_times390 (nat rep) data [] (q + 1) = Some es"
        using cat62_times390_total [of "q + 1" "nat rep" data "[]"] by auto
      then show "out_typed (do { entries \<leftarrow> cat62_times390 (nat rep) data [] (q + 1);
          Some [(''departure_arrival_times'', VList entries)] })" by (simp add: flow_simps)
    qed
    from subdecoder_movesD [OF this that] Some show ?thesis by (simp add: cat62_tod390_def)
  qed (use that in \<open>simp add: cat62_tod390_def flow_simps\<close>)
  then show ?thesis by (simp add: subdecoder_moves_def)
qed

lemma cat62_fields390_moves: "list_all subdecoder_moves cat62_fields390"
  by (simp add: cat62_fields390_def item_ok fixed_moves cat62_text390_def cat62_category390_def
      cat62_runway390_def u32_def flow_simps byte_simps Let_def)

lemma cat62_small_fields_moves:
  "list_all subdecoder_moves cat62_fields500" "list_all subdecoder_moves cat62_fields340"
  by (simp_all add: cat62_fields500_def cat62_fields340_def item_ok fixed_moves flow_simps byte_simps)

lemma cat62_sub_moves [item_ok]:
  "item_moves (sub_item cat62_380)" "item_moves (sub_item cat62_390)"
  "item_moves (sub_item cat62_500)" "item_moves (sub_item cat62_340)"
  unfolding cat62_380_def cat62_390_def cat62_500_def cat62_340_def
  by (intro sub_item_moves cat62_fields380_moves cat62_fields390_moves cat62_small_fields_moves; simp)+

lemma cat62_ext_typed:
  "wf_track d \<Longrightarrow> wf_track (cat62_ext080 e b d)" "wf_track d \<Longrightarrow> wf_track (cat62_ext270 e b d)"
  by (simp_all add: cat62_ext080_def cat62_ext270_def flow_simps Let_def split: option.split)

lemma cat62_plain_moves [item_ok]:
  "item_moves cat62_i010" "item_moves cat62_reserved" "item_moves cat62_i015" "item_moves cat62_i070"
  "item_moves cat62_i105" "item_moves cat62_i100" "item_moves cat62_i185" "item_moves cat62_i210"
  "item_moves cat62_i060" "item_moves cat62_i245" "item_moves cat62_i040" "item_moves cat62_i080"
  "item_moves cat62_i200" "item_moves cat62_i136" "item_moves cat62_i130" "item_moves cat62_i135"
  "item_moves cat62_i220" "item_moves cat62_i270" "item_moves cat62_i300" "item_moves cat62_i120"
  "item_moves cat62_mode1_110" "item_moves (cat62_skip k)"
  by (simp_all add: item_moves_def cat62_i010_def cat62_reserved_def cat62_i015_def cat62_i070_def
      cat62_i105_def cat62_i100_def cat62_i185_def cat62_i210_def cat62_i060_def cat62_i245_def cat62_i040_def
      cat62_i080_def cat62_i200_def cat62_i136_def cat62_i130_def cat62_i135_def cat62_i220_def cat62_i270_def
      cat62_i300_def cat62_i120_def cat62_mode1_110_def cat62_skip_def cat62_ext_typed extents_moves
      flow_simps byte_simps Let_def)

lemma cat62_age290_moves [item_ok]: "item_moves (cat62_age290 k name)"
  by (simp add: item_moves_def cat62_age290_def flow_simps byte_simps field_ok_def)

lemma cat62_ages295_moves:
  "p \<le> length data \<Longrightarrow> cat62_ages295 flags i names data ages p = Some (a, q) \<Longrightarrow> p \<le> q \<and> q \<le> length data"
  by (induction flags i names data ages p rule: cat62_ages295.induct)
    (auto split: if_splits option.splits dest: byte_at_SomeD)

lemma cat62_compound_moves [item_ok]:
  "item_moves cat62_i290" "item_moves cat62_i110" "item_moves cat62_i295"
proof -
  show "item_moves cat62_i290" "item_moves cat62_i110"
    unfolding cat62_i290_def cat62_i110_def
    by (intro presence_item_moves subfields_item_moves; simp add: item_ok)+
  show "item_moves cat62_i295"
    unfolding cat62_i295_def
    by (rule presence_item_moves)
      (auto simp: item_moves_def flow_simps dest: cat62_ages295_moves split: option.split)
qed

lemma cat62_i510_moves [item_ok]: "item_moves cat62_i510"
proof -
  have "moves p (length data) (cat62_i510 data d q)" if "wf_track d" "p \<le> q" "q \<le> length data" for data d p q
    using that
  proof (induction data d q rule: cat62_i510.induct)
    case (1 data d q)
    show ?case
    proof (cases "q + 3 \<le> length data")
      case True
      then have rd: "byte_at data (q + 2) = Some (uint (data ! (q + 2)))" by (simp add: byte_simps)
      with 1 True show ?thesis
        by (cases "bits (uint (data ! (q + 2))) 1")
          (simp_all add: cat62_i510.simps [of data d q] moves_simps)
    qed (use 1 in \<open>simp add: cat62_i510.simps [of data d q] moves_simps\<close>)
  qed
  then show ?thesis by (simp add: item_moves_def)
qed

lemma cat62_step_moves:
  "wf_track d \<Longrightarrow> p \<le> length data \<Longrightarrow> moves p (length data) (cat62_step data frn d p)"
proof -
  assume a: "wf_track d" "p \<le> length data"
  have "list_all item_moves cat62_items" by (simp add: cat62_items_def item_ok)
  with a show ?thesis
    by (simp add: cat62_step_def cat62_reserved_def item_moves_def list_all_length moves_simps)
qed

interpretation cat62: category_decoder "cat62_track0 now" cat62_step Some for now
proof unfold_locales
  show "wf_track (cat62_track0 now)" by (simp add: cat62_track0_def wf_track_def flow_simps)
qed (simp_all add: cat62_step_moves)

interpretation cat62_handler: track_category "decode_cat62_record now"
    "publish_record rp topic ''Cat62Track'' 62 ''cat062''" 62 for now rp topic
proof unfold_locales
  show "\<exists>t p. decode_cat62_record now data pos = Some (t, p) \<and> wf_track t \<and> pos < p \<and> p \<le> length data"
    if "pos < length data" for pos data
    unfolding decode_cat62_record_def by (rule cat62.decode_moves [OF that])
qed (simp_all add: publish_record_native)

end
