(* ===== verification/Asterix_Ingest.thy ===== *)
theory Asterix_Ingest
  imports Asterix_Cat020 Asterix_Cat021 Asterix_Cat062
begin

text \<open>
  The translators end to end: one process per category takes frames from datagrams, from TCP
  connections or from raw publications and hands the payloads of its category to the block
  handler. The lemmas lift the contract of the handlers to whole datagrams.
\<close>

subsection \<open>The input side of a translator\<close>

type_synonym handler = "bytes \<Rightarrow> event list option"

text \<open>\<open>process_stream\<close> with the handlers \<open>{category: handler}\<close>.\<close>

fun process_stream :: "int \<Rightarrow> handler \<Rightarrow> (int \<times> bytes) list \<Rightarrow> event list option" where
  "process_stream category handler [] = Some []"
| "process_stream category handler ((cat, data) # frames) =
     (if cat = category then do {
        es \<leftarrow> handler data;
        fs \<leftarrow> process_stream category handler frames;
        Some (es @ fs)
      } else process_stream category handler frames)"

text \<open>One datagram of the UDP input: an exception ends the process.\<close>

definition udp_translator :: "int \<Rightarrow> handler \<Rightarrow> bytes \<Rightarrow> event list option" where
  "udp_translator category handler datagram = do {
     frames \<leftarrow> iter_frames_udp datagram;
     process_stream category handler frames
   }"

text \<open>
  One sample of the raw input: a frame that is not one block of the category is reported and
  ignored.
\<close>

definition raw_translator :: "int \<Rightarrow> handler \<Rightarrow> bytes \<Rightarrow> event list option" where
  "raw_translator category handler payload = (case raw_frame_payload payload category of
     Inl Uncaught \<Rightarrow> None | Inl _ \<Rightarrow> Some [] | Inr data \<Rightarrow> handler data)"

text \<open>
  The translators modelled here: their category, their record decoder and their handler.
\<close>

definition translators ::
  "(pyval \<Rightarrow> string) \<Rightarrow> string \<Rightarrow> real \<Rightarrow> real option \<times> real option \<Rightarrow> sites \<Rightarrow>
   (int \<times> (bytes \<Rightarrow> nat \<Rightarrow> dstate option) \<times> handler) list" where
  "translators rp pre now site sites = [
     (20, decode_cat020_record now, cat20_handler rp pre now),
     (21, decode_cat021_record now, cat21_handler rp pre now),
     (48, decode_cat048_record now (fst site) (snd site), cat48_handler rp pre now site sites),
     (62, decode_cat62_record now, cat62_handler rp (cat62_topic pre) now)]"

subsection \<open>Whole datagrams\<close>

text \<open>The records of some payloads, each with what it decoded to.\<close>

fun all_records :: "(bytes \<Rightarrow> nat \<Rightarrow> dstate option) \<Rightarrow> bytes list \<Rightarrow> (dict \<times> bytes) list option" where
  "all_records decode [] = Some []"
| "all_records decode (p # ps) = do {
     rs \<leftarrow> decode_records decode p 0;
     qs \<leftarrow> all_records decode ps;
     Some (rs @ qs)
   }"

text \<open>The payloads of one category among the blocks of a datagram.\<close>

definition payloads_of :: "int \<Rightarrow> (int \<times> bytes) list \<Rightarrow> bytes list" where
  "payloads_of c gs = map (\<lambda>(k, f). drop 3 f) (filter (\<lambda>(k, f). k = c) gs)"

text \<open>The octets of the records that decoded to more than their stamp.\<close>

definition with_contents :: "(dict \<times> bytes) list \<Rightarrow> bytes" where
  "with_contents rs = concat (map snd (filter (\<lambda>(t, r). 2 < length t) rs))"

context track_category
begin

lemma stream_publishes:
  assumes "\<And>data. handler data = do { rs \<leftarrow> decode_records decode data 0; handle_records publish rs }"
    and "\<forall>(c, f) \<in> set gs. length f \<le> 65535"
  shows "\<exists>rs es. all_records decode (payloads_of category gs) = Some rs \<and>
    process_stream category handler (payloads gs) = Some es \<and>
    concat (map snd rs) = concat (payloads_of category gs) \<and>
    list_all (is_block category) (natives es) \<and> concat (map (drop 3) (natives es)) = with_contents rs"
  using assms(2)
proof (induction gs)
  case (Cons g gs)
  obtain c f where g: "g = (c, f)" by force
  from Cons obtain rs es where ih: "all_records decode (payloads_of category gs) = Some rs"
    "process_stream category handler (payloads gs) = Some es"
    "concat (map snd rs) = concat (payloads_of category gs)"
    "list_all (is_block category) (natives es)" "concat (map (drop 3) (natives es)) = with_contents rs" by auto
  show ?case
  proof (cases "c = category")
    case True
    have "length (drop 3 f) \<le> 65532" using Cons.prems g by auto
    from handler_publishes [OF this] obtain rs' es' where
      "decode_records decode (drop 3 f) 0 = Some rs'" "handle_records publish rs' = Some es'"
      "concat (map snd rs') = drop 3 f" "list_all (is_block category) (natives es')"
      "concat (map (drop 3) (natives es')) = with_contents rs'" by (auto simp: with_contents_def)
    moreover from this(1,2) have "handler (drop 3 f) = Some es'" by (simp add: assms(1))
    ultimately show ?thesis using ih True
      by (simp add: g payloads_def payloads_of_def with_contents_def)
  qed (use ih g in \<open>simp add: payloads_def payloads_of_def\<close>)
qed (simp add: payloads_def payloads_of_def with_contents_def)

lemma datagram_publishes:
  assumes "\<And>data. handler data = do { rs \<leftarrow> decode_records decode data 0; handle_records publish rs }"
    and "length d \<le> 65535"
  shows "\<exists>gs rest rs es. d = concat (map snd gs) @ rest \<and> (\<forall>(c, f) \<in> set gs. is_block c f) \<and>
    all_records decode (payloads_of category gs) = Some rs \<and>
    udp_translator category handler d = Some es \<and>
    concat (map snd rs) = concat (payloads_of category gs) \<and>
    list_all (is_block category) (natives es) \<and> concat (map (drop 3) (natives es)) = with_contents rs"
proof -
  from udp_frames_loop_prefix [of 0 d "[]"] obtain gs rest where gs: "iter_frames_udp d = Some (payloads gs)"
    "d = concat (map snd gs) @ rest" "\<forall>(c, f) \<in> set gs. is_block c f" by (auto simp: iter_frames_udp_def)
  have "length f \<le> 65535" if "(c, f) \<in> set gs" for c f
    using length_concat_member [of f "map snd gs"] that assms(2) gs(2) by force
  then have "\<forall>(c, f) \<in> set gs. length f \<le> 65535" by auto
  from stream_publishes [OF assms(1) this] obtain rs es where
    "all_records decode (payloads_of category gs) = Some rs"
    "process_stream category handler (payloads gs) = Some es"
    "concat (map snd rs) = concat (payloads_of category gs)"
    "list_all (is_block category) (natives es)" "concat (map (drop 3) (natives es)) = with_contents rs" by blast
  with gs show ?thesis
    by (intro exI [of _ gs] exI [of _ rest] exI [of _ rs] exI [of _ es]) (simp add: udp_translator_def)
qed

end

interpretation cat48_handler: track_category "decode_cat048_record now (fst site) (snd site)"
    "cat48_publish rp pre site sites" 48 for now site rp pre sites
proof unfold_locales
  show "\<exists>t p. decode_cat048_record now (fst site) (snd site) data pos = Some (t, p) \<and> wf_track t \<and>
      pos < p \<and> p \<le> length data" if "pos < length data" for pos data
    unfolding decode_cat048_record_def by (rule cat48.decode_moves [OF that])
qed (simp_all add: cat48_publish_native)



subsection \<open>A position report end to end\<close>

text \<open>A signed value in three octets, and an ADS-B position report: items 010, 130 and 080.\<close>

definition octets24 :: "int \<Rightarrow> bytes" where
  "octets24 n = [word_of_int (n div 65536), word_of_int (n div 256), word_of_int n]"

definition adsb_record :: "int \<Rightarrow> int \<Rightarrow> int \<Rightarrow> int \<Rightarrow> int \<Rightarrow> bytes" where
  "adsb_record sac sic lat lon addr =
     [0x85, 0x10, word_of_int sac, word_of_int sic] @ octets24 lat @ octets24 lon @ octets24 addr"

definition adsb_track :: "real \<Rightarrow> int \<Rightarrow> int \<Rightarrow> int \<Rightarrow> int \<Rightarrow> int \<Rightarrow> dict" where
  "adsb_track now sac sic lat lon addr = cat21_track0 now @
     [(''sac'', VInt sac), (''sic'', VInt sic),
      (''lat_deg'', VFloat (py_round (of_int lat * (180 / 2 ^ 23)) 7)),
      (''lon_deg'', VFloat (py_round (of_int lon * (180 / 2 ^ 23)) 7)),
      (''icao24'', VStr (fmt_pad 16 6 addr))]"

lemma octets24_value: "from_bytes_big (octets24 n) = n mod 2 ^ 24"
proof -
  have "from_bytes_big (octets24 n) = (n div 65536 mod 256 * 256 + n div 256 mod 256) * 256 + n mod 256"
    by (simp add: octets24_def from_bytes_big_def uint_word_of_int)
  also have "n div 65536 mod 256 * 256 + n div 256 mod 256 = n div 256 mod 65536"
  proof -
    have "n div 65536 = n div 256 div 256" by (simp add: zdiv_zmult2_eq [symmetric])
    then show ?thesis using zmod_zmult2_eq [of 256 "n div 256" 256] by simp
  qed
  also have "\<dots> * 256 + n mod 256 = n mod 2 ^ 24"
    using zmod_zmult2_eq [of 65536 n 256] by simp
  finally show ?thesis .
qed

lemma octets24_signed:
  assumes "- (2 ^ 23) \<le> n" and "n < 2 ^ 23"
  shows "sign_extend 24 (from_bytes_big (octets24 n)) = n"
proof (cases "0 \<le> n")
  case False
  then have "(n + 2 ^ 24) mod 2 ^ 24 = n + 2 ^ 24" using assms by (intro mod_pos_pos_trivial) auto
  then have "n mod 2 ^ 24 = n + 2 ^ 24" by simp
  with False assms show ?thesis by (simp add: octets24_value sign_extend_def)
qed (use assms in \<open>simp add: octets24_value sign_extend_def\<close>)

lemma octets24_hex:
  assumes "0 \<le> n" and "n < 2 ^ 24"
  shows "hex_bytes (octets24 n) = fmt_pad 16 6 n"
proof -
  have "hex_bytes (octets24 n) = fmt_pad 16 6 (from_bytes_big (octets24 n))"
    by (simp add: octets24_def hex_bytes_def hex_address from_bytes_big_def algebra_simps)
  with assms show ?thesis by (simp add: octets24_value)
qed

lemma length_octets24 [simp]: "length (octets24 n) = 3"
  by (simp add: octets24_def)

lemma s24_octets: "length xs = p \<Longrightarrow> - (2 ^ 23) \<le> n \<Longrightarrow> n < 2 ^ 23 \<Longrightarrow> s24 (xs @ octets24 n @ ys) p = Some n"
  using octets24_signed [of n] by (auto simp: s24_def py_slice_def)

lemma adsb_decoded:
  assumes "0 \<le> sac" "sac \<le> 255" "0 \<le> sic" "sic \<le> 255" "- (2 ^ 23) \<le> lat" "lat < 2 ^ 23"
    "- (2 ^ 23) \<le> lon" "lon < 2 ^ 23" "0 \<le> addr" "addr < 2 ^ 24"
  shows "decode_cat021_record now (adsb_record sac sic lat lon addr) 0 =
    Some (adsb_track now sac sic lat lon addr, 13)"
proof -
  let ?d = "adsb_record sac sic lat lon addr"
  have len: "length ?d = 13" by (simp add: adsb_record_def)
  have ids: "uint (word_of_int sac :: byte) = sac" "uint (word_of_int sic :: byte) = sic"
    using assms by (simp_all add: uint_word_of_int)
  have at: "?d ! 0 = 0x85" "?d ! Suc 0 = 0x10" "?d ! 2 = word_of_int sac" "?d ! 3 = word_of_int sic"
    by (simp_all add: adsb_record_def)
  have fs: "parse_fspec ?d 0 = Some ([True, False, False, False, False, True, False, False, False, False, True, False, False, False], 2)"
    by (simp add: parse_fspec_def parse_fspec_loop.simps byte_simps len at fspec_octet_def bits_def)
  have lat: "s24 ?d 4 = Some lat" unfolding adsb_record_def by (rule s24_octets) (use assms in auto)
  have lon: "s24 ?d 7 = Some lon"
    using s24_octets [of "[0x85, 0x10, word_of_int sac, word_of_int sic] @ octets24 lat" 7 lon "octets24 addr"] assms
    by (simp add: adsb_record_def)
  have addr: "hex_bytes (py_slice ?d 10 13) = fmt_pad 16 6 addr"
    using octets24_hex [of addr] assms by (simp add: adsb_record_def py_slice_def)
  show ?thesis
    by (simp add: decode_cat021_record_def decode_with_def fs cat21_step_def cat21_items_def cat21_i010_def
        cat21_i130_def cat21_i080_def need_def len byte_simps at ids lat lon addr cat21_track0_def adsb_track_def)
qed

text \<open>
  C7: An ADS-B position report goes all the way. A datagram with one CAT-021 record that reports
  a source, a position and an aircraft address makes the translator publish exactly two
  messages: the track, under the topic of its source, with the position in degrees (rounded to
  seven places), and the record itself, as it was received, under the raw topic of the
  aircraft.
\<close>

theorem adsb_report_published:
  assumes "0 \<le> sac" "sac \<le> 255" "0 \<le> sic" "sic \<le> 255" "- (2 ^ 23) \<le> lat" "lat < 2 ^ 23"
    "- (2 ^ 23) \<le> lon" "lon < 2 ^ 23" "0 \<le> addr" "addr < 2 ^ 24"
    and "topic = cat21_topic pre (fmt_0d 3 sac @ ''-'' @ fmt_0d 3 sic)"
    and "track = adsb_track now sac sic lat lon addr"
    and "block = [21, 0, 16] @ adsb_record sac sic lat lon addr"
  shows "udp_translator 21 (cat21_handler rp pre now) block =
    Some [PubDual topic track ''AsterixCat21Track'',
      PubNative (native_topic (semantic_topic rp topic track)) block ''asterix'' ''cat021'']"
proof -
  let ?r = "adsb_record sac sic lat lon addr"
  have len: "length ?r = 13" by (simp add: adsb_record_def)
  have blk: "asterix_data_block 21 ?r = Inr block"
    by (simp add: asterix_data_block_def len pack_H_def assms(13))
  then have "is_block 21 block" by (simp add: asterix_data_block_iff)
  then have frames: "iter_frames_udp block = Some [(21, ?r)]"
    using udp_frames_loop_blocks [of "[(21, block)]" 0 block "[]"] assms(13)
    by (simp add: iter_frames_udp_def payloads_def)
  have source: "asterix_source track = Some (fmt_0d 3 sac @ ''-'' @ fmt_0d 3 sic)"
    by (simp add: assms(12) adsb_track_def cat21_track0_def asterix_source_def get_or_zero_def dget_def
        truthy_def val_0d_def)
  have records: "decode_records (decode_cat021_record now) ?r 0 = Some [(track, ?r)]"
    using adsb_decoded [OF assms(1-10), of now] len py_slice_full [of ?r]
    by (simp add: decode_records.simps [of _ ?r] assms(12))
  have "publish_record rp (cat21_topic pre) ''AsterixCat21Track'' 21 ''cat021'' track ?r =
      Some [PubDual topic track ''AsterixCat21Track'',
        PubNative (native_topic (semantic_topic rp topic track)) block ''asterix'' ''cat021'']"
    by (simp add: publish_record_def source assms(11) native_event_def blk)
      (simp add: assms(12) adsb_track_def cat21_track0_def has_key_def dget_def)
  then show ?thesis
    by (simp add: udp_translator_def frames cat21_handler_def records)
qed

theorem adsb_report_published_witness:
  "udp_translator 21 (cat21_handler (\<lambda>_. []) ''EFDI'' 0)
      ([21, 0, 16] @ adsb_record 1 2 2548563 (-1177000) 0x4CA2BF) =
    Some [PubDual (cat21_topic ''EFDI'' (fmt_0d 3 1 @ ''-'' @ fmt_0d 3 2))
        (adsb_track 0 1 2 2548563 (-1177000) 0x4CA2BF) ''AsterixCat21Track'',
      PubNative (native_topic (semantic_topic (\<lambda>_. []) (cat21_topic ''EFDI'' (fmt_0d 3 1 @ ''-'' @ fmt_0d 3 2))
          (adsb_track 0 1 2 2548563 (-1177000) 0x4CA2BF)))
        ([21, 0, 16] @ adsb_record 1 2 2548563 (-1177000) 0x4CA2BF) ''asterix'' ''cat021'']"
  by (rule adsb_report_published) simp_all

end
