(* ===== verification/Trust_Types.thy ===== *)
theory Trust_Types
  imports Py_Text
begin

text \<open>
  Delegation grants (\<open>trust_types.py\<close>): the key scopes of a grant, the validators of its
  fields, and the subset relation between a grant and the one it was delegated from. The
  scopes get a denotation, the set of keys they match, and \<open>scope_contains\<close> is shown to
  decide inclusion. The locale \<open>delegation_order\<close> is what a chain of delegations relies
  on; it is interpreted on \<open>grant_is_subset\<close>.
\<close>

subsection \<open>Key scopes\<close>

definition is_lower_hex :: "char \<Rightarrow> bool" where
  "is_lower_hex c \<longleftrightarrow> is_ascii_digit c \<or> 97 \<le> (of_char c :: nat) \<and> (of_char c :: nat) \<le> 102"

definition is_ascii_upper :: "char \<Rightarrow> bool" where
  "is_ascii_upper c \<longleftrightarrow> 65 \<le> (of_char c :: nat) \<and> (of_char c :: nat) \<le> 90"

definition is_ascii_lower :: "char \<Rightarrow> bool" where
  "is_ascii_lower c \<longleftrightarrow> 97 \<le> (of_char c :: nat) \<and> (of_char c :: nat) \<le> 122"

definition segment_char :: "char \<Rightarrow> bool" where
  "segment_char c \<longleftrightarrow> is_ascii_upper c \<or> is_ascii_lower c \<or> is_ascii_digit c \<or> c \<in> set ''._-''"

text \<open>\<open>_SEGMENT_RE\<close>, \<open>_FINGERPRINT_RE\<close> and \<open>_IDENTITY_RE\<close>, with \<open>fullmatch\<close>.\<close>

definition segment_re :: "string \<Rightarrow> bool" where
  "segment_re s \<longleftrightarrow> 1 \<le> length s \<and> length s \<le> 128 \<and> list_all segment_char s"

definition fingerprint_re :: "string \<Rightarrow> bool" where
  "fingerprint_re s \<longleftrightarrow> length s = 64 \<and> list_all is_lower_hex s"

definition identity_re :: "string \<Rightarrow> bool" where
  "identity_re s \<longleftrightarrow> take 9 s = ''spiffe://'' \<and>
     (let rest = drop 9 s;
          host = takeWhile (\<lambda>c. c \<noteq> CHR ''/'') rest;
          path = drop (length host) rest
      in 1 \<le> length host \<and> length host \<le> 253 \<and>
         list_all (\<lambda>c. is_ascii_lower c \<or> is_ascii_digit c \<or> c \<in> set ''.-'') host \<and>
         take 8 path = ''/router/'' \<and> 1 \<le> length (drop 8 path) \<and> length (drop 8 path) \<le> 512 \<and>
         list_all (\<lambda>c. segment_char c \<or> c \<in> set ''~%/'') (drop 8 path))"

text \<open>\<open>parse_key_scope\<close>: the literal segments and the wildcard; \<open>None\<close> is \<open>ValueError\<close>.\<close>

definition parse_key_scope :: "string \<Rightarrow> (string list \<times> bool) option" where
  "parse_key_scope expression =
     (if \<not> (1 \<le> length expression \<and> length expression \<le> 1024) then None
      else if hd expression = CHR ''/'' \<or> last expression = CHR ''/'' then None
      else let parts = py_split CHR ''/'' expression;
               wildcard = (last parts = ''**'');
               literal = (if wildcard then butlast parts else parts)
           in if literal = [] \<or> list_ex (\<lambda>p. \<not> segment_re p) literal then None
              else if list_ex (\<lambda>p. p \<in> set [''*'', ''**'']) literal then None
              else Some (literal, wildcard))"

definition scope_contains :: "string \<Rightarrow> string \<Rightarrow> bool option" where
  "scope_contains parent child = do {
     (parent_parts, parent_wildcard) \<leftarrow> parse_key_scope parent;
     (child_parts, child_wildcard) \<leftarrow> parse_key_scope child;
     Some (if \<not> parent_wildcard then \<not> child_wildcard \<and> child_parts = parent_parts
           else length child_parts \<ge> length parent_parts \<and>
                take (length parent_parts) child_parts = parent_parts)
   }"

text \<open>
  What a scope means: the keys, as lists of segments, that it matches. A terminal \<open>**\<close>
  matches any number of segments, none included.
\<close>

definition scope_matches :: "string \<Rightarrow> string list \<Rightarrow> bool" where
  "scope_matches scope key = (case parse_key_scope scope of
     None \<Rightarrow> False
   | Some (literal, wildcard) \<Rightarrow>
       if wildcard then take (length literal) key = literal else key = literal)"

definition scope_valid :: "string \<Rightarrow> bool" where
  "scope_valid s \<longleftrightarrow> parse_key_scope s \<noteq> None"

lemma take_prefix: "take (length p) k = p \<longleftrightarrow> (\<exists>r. k = p @ r)"
  by (metis append_eq_conv_conj)

lemma scope_contains_total:
  "scope_valid p \<Longrightarrow> scope_valid c \<Longrightarrow> \<exists>b. scope_contains p c = Some b"
  by (auto simp: scope_valid_def scope_contains_def)

lemma scope_contains_keys:
  assumes "scope_contains p c = Some True" and "scope_matches c k"
  shows "scope_matches p k"
proof -
  from assms(1) obtain pl pw cl cw where p: "parse_key_scope p = Some (pl, pw)"
    and c: "parse_key_scope c = Some (cl, cw)"
    and sub: "if \<not> pw then \<not> cw \<and> cl = pl else length cl \<ge> length pl \<and> take (length pl) cl = pl"
    by (auto simp: scope_contains_def split: bind_splits)
  from assms(2) c have "\<exists>r. k = cl @ r" "\<not> cw \<longrightarrow> k = cl"
    by (auto simp: scope_matches_def take_prefix split: if_splits)
  with sub p show ?thesis by (auto simp: scope_matches_def take_prefix)
qed

lemma scope_contains_complete:
  assumes "scope_valid p" and "scope_valid c" and "\<And>k. scope_matches c k \<Longrightarrow> scope_matches p k"
  shows "scope_contains p c = Some True"
proof -
  obtain pl pw cl cw where p: "parse_key_scope p = Some (pl, pw)" and c: "parse_key_scope c = Some (cl, cw)"
    using assms(1,2) by (auto simp: scope_valid_def)
  have 1: "scope_matches p cl" using assms(3) [of cl] c by (simp add: scope_matches_def)
  have 2: "scope_matches p (cl @ [''x''])" if cw
    using assms(3) [of "cl @ [''x'']"] c that by (simp add: scope_matches_def)
  show ?thesis
  proof (cases pw)
    case True
    with 1 p have "take (length pl) cl = pl" by (simp add: scope_matches_def)
    then have "length pl \<le> length cl" by (metis length_take min.cobounded1)
    with True p c \<open>take (length pl) cl = pl\<close> show ?thesis by (simp add: scope_contains_def)
  next
    case False
    with 1 2 p have "cl = pl" "\<not> cw" by (auto simp: scope_matches_def)
    with False p c show ?thesis by (simp add: scope_contains_def)
  qed
qed

text \<open>
  C10: Scope containment is exact. For two valid scopes the check answers yes exactly when
  every key that the child scope matches is matched by the parent scope: it neither admits an
  escape nor refuses a narrower scope.
\<close>

theorem scope_contains_iff_keys:
  assumes "scope_valid p" and "scope_valid c"
  shows "scope_contains p c = Some True \<longleftrightarrow> (\<forall>k. scope_matches c k \<longrightarrow> scope_matches p k)"
  using scope_contains_keys scope_contains_complete [OF assms] by blast

theorem scope_contains_iff_keys_witness:
  "scope_matches ''EFDI/LTU/**'' [''EFDI'', ''LTU'', ''air'', ''7''] \<and>
   (\<exists>k. scope_matches ''EFDI/LTUX/**'' k \<and> \<not> scope_matches ''EFDI/LTU/**'' k)"
proof -
  have v: "scope_valid ''EFDI/LTU/air/**''" "scope_valid ''EFDI/LTU/**''" "scope_valid ''EFDI/LTUX/**''"
    and y: "scope_contains ''EFDI/LTU/**'' ''EFDI/LTU/air/**'' = Some True"
    and n: "scope_contains ''EFDI/LTU/**'' ''EFDI/LTUX/**'' \<noteq> Some True"
    and k: "scope_matches ''EFDI/LTU/air/**'' [''EFDI'', ''LTU'', ''air'', ''7'']" by code_simp+
  from scope_contains_iff_keys [OF v(2) v(1)] scope_contains_iff_keys [OF v(2) v(3)] y n k
  show ?thesis by blast
qed

subsection \<open>Grants\<close>

datatype router_role = RouterCa | Router | WorkloadIssuer

datatype control_action = Topology | Status | ConfigFromParent | ManageChildren

text \<open>Times are instants in UTC. The fields are those of \<open>DelegationGrant\<close>.\<close>

record grant =
  g_id :: string
  issuer_identity :: string
  subject_ca_sha256 :: string
  subject_identity :: string
  namespace :: string
  roles :: "router_role list"
  publish :: "string list"
  subscribe :: "string list"
  control :: "control_action list"
  max_delegation_depth :: int
  sequence :: int
  not_before :: int
  not_after :: int

text \<open>\<open>s.rstrip("/")\<close>.\<close>

definition rstrip_slash :: "string \<Rightarrow> string" where
  "rstrip_slash s = rev (dropWhile (\<lambda>c. c = CHR ''/'') (rev s))"

definition validate_namespace :: "string \<Rightarrow> bool" where
  "validate_namespace value = (case parse_key_scope value of
     None \<Rightarrow> False | Some (_, wildcard) \<Rightarrow> wildcard)"

definition validate_scopes :: "string list \<Rightarrow> bool" where
  "validate_scopes vs \<longleftrightarrow> distinct vs \<and> list_all scope_valid vs"

definition validate_contract :: "grant \<Rightarrow> bool" where
  "validate_contract g \<longleftrightarrow>
     \<not> not_after g \<le> not_before g \<and>
     issuer_identity g \<noteq> subject_identity g \<and>
     take (length (rstrip_slash (issuer_identity g)) + 1) (subject_identity g) =
       rstrip_slash (issuer_identity g) @ ''/'' \<and>
     list_all (\<lambda>e. scope_contains (namespace g) e = Some True) (publish g)"

text \<open>A grant that \<open>DelegationGrant.model_validate\<close> lets through.\<close>

definition grant_valid :: "grant \<Rightarrow> bool" where
  "grant_valid g \<longleftrightarrow>
     identity_re (issuer_identity g) \<and> identity_re (subject_identity g) \<and>
     fingerprint_re (subject_ca_sha256 g) \<and> validate_namespace (namespace g) \<and>
     1 \<le> length (roles g) \<and> length (roles g) \<le> 3 \<and> distinct (roles g) \<and>
     length (publish g) \<le> 128 \<and> validate_scopes (publish g) \<and>
     length (subscribe g) \<le> 128 \<and> validate_scopes (subscribe g) \<and>
     length (control g) \<le> 4 \<and> distinct (control g) \<and>
     0 \<le> max_delegation_depth g \<and> max_delegation_depth g \<le> 32 \<and> 0 \<le> sequence g \<and>
     validate_contract g"

text \<open>
  \<open>any\<close> over a generator whose test may raise: \<open>None\<close> is the exception.
\<close>

fun any_opt :: "('a \<Rightarrow> bool option) \<Rightarrow> 'a list \<Rightarrow> bool option" where
  "any_opt f [] = Some False"
| "any_opt f (x # xs) = do { b \<leftarrow> f x; if b then Some True else any_opt f xs }"

text \<open>\<open>any(not any(scope_contains(p, s) for p in allowed) for s in requested)\<close>.\<close>

definition widens :: "string list \<Rightarrow> string list \<Rightarrow> bool option" where
  "widens requested allowed =
     any_opt (\<lambda>s. do { b \<leftarrow> any_opt (\<lambda>p. scope_contains p s) allowed; Some (\<not> b) }) requested"

definition grant_is_subset :: "grant \<Rightarrow> grant \<Rightarrow> bool option" where
  "grant_is_subset child parent =
     (if issuer_identity child \<noteq> subject_identity parent then Some False
      else do {
        inside \<leftarrow> scope_contains (namespace parent) (namespace child);
        (if \<not> inside then Some False
         else if namespace child = namespace parent then Some False
         else if \<not> set (roles child) \<subseteq> set (roles parent) then Some False
         else if \<not> set (control child) \<subseteq> set (control parent) then Some False
         else if max_delegation_depth child \<ge> max_delegation_depth parent then Some False
         else if not_before child < not_before parent \<or> not_after child > not_after parent then Some False
         else do {
           w1 \<leftarrow> widens (publish child) (publish parent);
           (if w1 then Some False
            else do {
              w2 \<leftarrow> widens (subscribe child) (subscribe parent);
              Some (\<not> w2)
            })
         })
      })"

text \<open>What a grant lets its subject do.\<close>

datatype authority =
    MayPublish "string list"
  | MaySubscribe "string list"
  | MayName "string list"
  | MayAct router_role
  | MayControl control_action
  | MayAt int

definition grants :: "grant \<Rightarrow> authority \<Rightarrow> bool" where
  "grants g a = (case a of
     MayPublish k \<Rightarrow> list_ex (\<lambda>s. scope_matches s k) (publish g)
   | MaySubscribe k \<Rightarrow> list_ex (\<lambda>s. scope_matches s k) (subscribe g)
   | MayName k \<Rightarrow> scope_matches (namespace g) k
   | MayAct r \<Rightarrow> r \<in> set (roles g)
   | MayControl c \<Rightarrow> c \<in> set (control g)
   | MayAt t \<Rightarrow> not_before g \<le> t \<and> t < not_after g)"

lemma any_opt_False: "any_opt f xs = Some False \<Longrightarrow> x \<in> set xs \<Longrightarrow> f x = Some False"
  by (induction xs) (auto split: bind_splits if_splits)

lemma any_opt_True: "any_opt f xs = Some True \<Longrightarrow> \<exists>x \<in> set xs. f x = Some True"
  by (induction xs) (auto split: bind_splits if_splits)

lemma any_opt_total: "\<forall>x \<in> set xs. f x \<noteq> None \<Longrightarrow> any_opt f xs \<noteq> None"
  by (induction xs) auto

lemma widens_no:
  assumes "widens requested allowed = Some False" and "s \<in> set requested" and "scope_matches s k"
  shows "\<exists>p \<in> set allowed. scope_matches p k"
proof -
  from any_opt_False [OF assms(1) [unfolded widens_def] assms(2)]
  have "any_opt (\<lambda>p. scope_contains p s) allowed = Some True" by (auto split: bind_splits)
  then show ?thesis using any_opt_True scope_contains_keys [OF _ assms(3)] by blast
qed

lemma widens_total:
  "list_all scope_valid requested \<Longrightarrow> list_all scope_valid allowed \<Longrightarrow> widens requested allowed \<noteq> None"
proof -
  assume r: "list_all scope_valid requested" and al: "list_all scope_valid allowed"
  have "any_opt (\<lambda>p. scope_contains p s) allowed \<noteq> None" if "s \<in> set requested" for s
    using that r al scope_contains_total by (intro any_opt_total) (fastforce simp: list_all_iff)
  then show ?thesis unfolding widens_def by (intro any_opt_total) fastforce
qed

lemma grant_is_subset_conds:
  assumes "grant_is_subset c p = Some True"
  shows "issuer_identity c = subject_identity p"
    and "scope_contains (namespace p) (namespace c) = Some True" and "namespace c \<noteq> namespace p"
    and "set (roles c) \<subseteq> set (roles p)" and "set (control c) \<subseteq> set (control p)"
    and "max_delegation_depth c < max_delegation_depth p"
    and "not_before p \<le> not_before c" and "not_after c \<le> not_after p"
    and "widens (publish c) (publish p) = Some False" and "widens (subscribe c) (subscribe p) = Some False"
  using assms by (auto simp: grant_is_subset_def split: bind_splits if_splits)

lemma grant_is_subset_grants: "grant_is_subset c p = Some True \<Longrightarrow> grants c a \<Longrightarrow> grants p a"
proof (cases a)
  case (MayPublish k)
  then show "grant_is_subset c p = Some True \<Longrightarrow> grants c a \<Longrightarrow> grants p a"
    using widens_no [OF grant_is_subset_conds(9)] by (fastforce simp: grants_def list_ex_iff)
next
  case (MaySubscribe k)
  then show "grant_is_subset c p = Some True \<Longrightarrow> grants c a \<Longrightarrow> grants p a"
    using widens_no [OF grant_is_subset_conds(10)] by (fastforce simp: grants_def list_ex_iff)
qed (auto simp: grants_def dest: grant_is_subset_conds scope_contains_keys
    intro: scope_contains_keys [OF grant_is_subset_conds(2)])

lemma validate_namespace_valid: "validate_namespace n \<Longrightarrow> scope_valid n"
  by (auto simp: validate_namespace_def scope_valid_def split: option.splits)

lemma grant_is_subset_total:
  "grant_valid c \<Longrightarrow> grant_valid p \<Longrightarrow> grant_is_subset c p \<noteq> None"
  using scope_contains_total [of "namespace p" "namespace c"]
    widens_total [of "publish c" "publish p"] widens_total [of "subscribe c" "subscribe p"]
  by (auto simp: grant_is_subset_def grant_valid_def validate_scopes_def validate_namespace_valid)

subsection \<open>Chains of delegations\<close>

text \<open>
  A step of delegation lowers the remaining depth and adds no authority. Then a chain of
  them is no longer than the depth it started from, and its end has no authority that its
  beginning lacked.
\<close>

locale delegation_order =
  fixes narrower :: "'g \<Rightarrow> 'g \<Rightarrow> bool"
    and depth :: "'g \<Rightarrow> int"
    and may :: "'g \<Rightarrow> 'a \<Rightarrow> bool"
  assumes narrower_depth: "narrower c p \<Longrightarrow> depth c < depth p"
    and narrower_may: "narrower c p \<Longrightarrow> may c a \<Longrightarrow> may p a"
begin

fun chain :: "'g list \<Rightarrow> bool" where
  "chain (p # c # gs) \<longleftrightarrow> narrower c p \<and> chain (c # gs)"
| "chain _ \<longleftrightarrow> True"

lemma chain_may: "chain (g # gs) \<Longrightarrow> may (last (g # gs)) a \<Longrightarrow> may g a"
  by (induction gs arbitrary: g) (auto dest: narrower_may split: if_splits)

lemma chain_depth: "chain (g # gs) \<Longrightarrow> depth (last (g # gs)) + int (length gs) \<le> depth g"
  by (induction gs arbitrary: g) (fastforce dest: narrower_depth)+

lemma chain_snoc: "chain (gs @ [p]) \<Longrightarrow> narrower c p \<Longrightarrow> chain (gs @ [p, c])"
  by (induction gs rule: chain.induct) auto

end

interpretation delegation: delegation_order
  "\<lambda>c p. grant_is_subset c p = Some True" max_delegation_depth grants
  by unfold_locales (auto dest: grant_is_subset_conds grant_is_subset_grants)

definition delegated :: "grant list \<Rightarrow> bool" where
  "delegated gs = delegation.chain gs"

text \<open>
  C11: No privilege escalation. In a chain of grants each of which passed the subset check
  against its predecessor, the last grant allows nothing - no key to publish or subscribe, no
  namespace, no role, no control action, no instant - that the first one does not allow, and the
  chain is no longer than the delegation depth of its first grant.
\<close>

theorem delegation_chain_narrows:
  assumes "delegated (g # gs)"
  shows "(\<forall>a. grants (last (g # gs)) a \<longrightarrow> grants g a) \<and>
    max_delegation_depth (last (g # gs)) + int (length gs) \<le> max_delegation_depth g"
  using delegation.chain_may delegation.chain_depth assms unfolding delegated_def by blast

definition sample_grant :: "string \<Rightarrow> string \<Rightarrow> string \<Rightarrow> int \<Rightarrow> grant" where
  "sample_grant iss sub ns depth = \<lparr> g_id = [], issuer_identity = iss, subject_ca_sha256 = replicate 64 CHR ''a'',
     subject_identity = sub, namespace = ns @ ''/**'', roles = [Router], publish = [ns @ ''/**''],
     subscribe = [''EFDI/**''], control = [Topology], max_delegation_depth = depth, sequence = 1,
     not_before = 0, not_after = 100 \<rparr>"

theorem delegation_chain_narrows_witness:
  "grants (sample_grant ''a'' ''b'' ''EFDI/LTU'' 2) (MayPublish [''EFDI'', ''LTU'', ''x'', ''7'']) \<and>
   \<not> grants (sample_grant ''b'' ''c'' ''EFDI/LTU/x'' 1) (MayPublish [''EFDI'', ''LTU'', ''y''])"
proof -
  have "grant_is_subset (sample_grant ''b'' ''c'' ''EFDI/LTU/x'' 1) (sample_grant ''a'' ''b'' ''EFDI/LTU'' 2) = Some True"
    by code_simp
  then have "delegated [sample_grant ''a'' ''b'' ''EFDI/LTU'' 2, sample_grant ''b'' ''c'' ''EFDI/LTU/x'' 1]"
    by (auto simp: delegated_def)
  moreover have "grants (sample_grant ''b'' ''c'' ''EFDI/LTU/x'' 1) (MayPublish [''EFDI'', ''LTU'', ''x'', ''7''])"
    and "\<not> grants (sample_grant ''b'' ''c'' ''EFDI/LTU/x'' 1) (MayPublish [''EFDI'', ''LTU'', ''y''])" by code_simp+
  ultimately show ?thesis using delegation_chain_narrows by fastforce
qed

end
