(* ===== verification/Trust_Chain.thy ===== *)
theory Trust_Chain
  imports Trust_Types
begin

text \<open>
  The verification of a trust chain (\<open>trust_crypto.py\<close>, \<open>trust_store.py\<close>): a signed grant
  is checked against the expected signer, and a proof, a JSON document, is followed from a
  local trust anchor step by step, each step naming the next issuer. X.509, ECDSA, Base64,
  the JSON text parser and the field parsing of pydantic are third-party code: they are the
  functions of the record \<open>ops\<close>, which every definition takes.
\<close>

subsection \<open>The third-party operations\<close>

datatype key_kind = NotEc | EcOther | EcP256

text \<open>
  The signed document after pydantic has read it: \<open>payload\<close>, \<open>signature\<close>,
  \<open>signer_certificate\<close> and \<open>signer_sha256\<close>.
\<close>

record envelope =
  payload :: pyval
  signature :: string
  signer_certificate :: string
  signer_sha256 :: string

record 'c ops =
  json_loads :: "string \<Rightarrow> pyval option"
  parse_envelope :: "pyval \<Rightarrow> envelope option"
  parse_grant :: "pyval \<Rightarrow> grant option"
  canonical_grant :: "grant \<Rightarrow> string"
  load_pem :: "string \<Rightarrow> 'c option"
  cert_sha256 :: "'c \<Rightarrow> string"
  uri_sans :: "'c \<Rightarrow> string list option"
  key_kind :: "'c \<Rightarrow> key_kind"
  b64decode :: "string \<Rightarrow> string option"
  ecdsa_verify :: "'c \<Rightarrow> string \<Rightarrow> string \<Rightarrow> bool"
  cert_from :: "'c \<Rightarrow> int"
  cert_until :: "'c \<Rightarrow> int"
  issuer_name :: "'c \<Rightarrow> string"
  subject_name :: "'c \<Rightarrow> string"
  cert_signed_by :: "'c \<Rightarrow> 'c \<Rightarrow> bool"
  basic_constraints :: "'c \<Rightarrow> (bool \<times> int option) option"
  key_usage :: "'c \<Rightarrow> (bool \<times> bool) option"
  extended_usage :: "'c \<Rightarrow> string list option"
  isoformat :: "int \<Rightarrow> string"
  sha256_hex :: "string \<Rightarrow> string"

subsection \<open>Errors\<close>

text \<open>The \<open>TrustVerifyError\<close>s and \<open>TrustStoreError\<close>s by what they report.\<close>

datatype trust_error =
    InvalidJson
  | InvalidEnvelope
  | NoUriSan
  | NotOneSpiffe
  | FingerprintMismatch
  | UnexpectedSigner
  | SignerNotIssuer
  | SignerNotP256
  | BadSignature
  | GrantNotCurrent
  | SignerNotCurrent
  | ChainShape
  | ChainSchema
  | AnchorShape
  | AnchorUntrusted string
  | ChainLength
  | AnchorInactive
  | NoPolicySigner
  | StepShape nat
  | StepCertificate nat
  | WrongIssuer nat
  | Widens nat
  | DepthNotReduced nat
  | MalformedCertificate nat
  | IssuerNotEc
  | IssuerMismatch
  | NotIssuedBy
  | CaConstraintsMissing
  | CaProfile
  | CaNotP256
  | PolicyConstraintsMissing
  | PolicyProfile
  | PolicyIdentity
  | PolicyNotP256
  | CaNotGranted nat
  | StepRevoked nat
  | StepNotYetValid nat
  | StepExpired nat
  | ScopeError
  | NoSignerCertificate
  | IssuerInactive
  | NotActiveSigner
  | ExceedsGrant
  | DepthNotLower
  | StaleSequence
  | CaNotCurrent
  | CaNotInGrant
  | PolicyNotCurrent
  | SubjectExists
  | DbConflict
  | ChainTooDeep
  | MissingParent
  | NoActiveDelegation

type_synonym 'a result = "trust_error + 'a"

definition and_then :: "'a result \<Rightarrow> ('a \<Rightarrow> 'b result) \<Rightarrow> 'b result" where
  "and_then r f = (case r of Inl e \<Rightarrow> Inl e | Inr x \<Rightarrow> f x)"

text \<open>\<open>if not c: raise e\<close>, and a value that must be there.\<close>

definition ensure :: "bool \<Rightarrow> trust_error \<Rightarrow> 'a result \<Rightarrow> 'a result" where
  "ensure c e r = (if c then r else Inl e)"

definition some_or :: "'a option \<Rightarrow> trust_error \<Rightarrow> 'a result" where
  "some_or v e = (case v of None \<Rightarrow> Inl e | Some x \<Rightarrow> Inr x)"

lemma and_then_Inr [simp]: "and_then r f = Inr y \<longleftrightarrow> (\<exists>x. r = Inr x \<and> f x = Inr y)"
  by (simp add: and_then_def split: sum.split)

lemma ensure_Inr [simp]: "ensure c e r = Inr y \<longleftrightarrow> c \<and> r = Inr y"
  by (simp add: ensure_def)

lemma some_or_Inr [simp]: "some_or v e = Inr y \<longleftrightarrow> v = Some y"
  by (simp add: some_or_def split: option.split)

subsection \<open>Signed grants\<close>

definition certificate_router_identity :: "('c, 'z) ops_scheme \<Rightarrow> 'c \<Rightarrow> string result" where
  "certificate_router_identity x certificate =
     and_then (some_or (uri_sans x certificate) NoUriSan) (\<lambda>identities.
       if length identities \<noteq> 1 \<or> take 9 (identities ! 0) \<noteq> ''spiffe://'' then Inl NotOneSpiffe
       else Inr (identities ! 0))"

text \<open>The validators of the grant's fields, the fingerprint lowered first.\<close>

definition validate_grant :: "grant \<Rightarrow> grant option" where
  "validate_grant g =
     (let g = g\<lparr>subject_ca_sha256 := py_lower (subject_ca_sha256 g)\<rparr> in
      if grant_valid g then Some g else None)"

definition validate_envelope :: "envelope \<Rightarrow> envelope option" where
  "validate_envelope e =
     (let e = e\<lparr>signer_sha256 := py_lower (signer_sha256 e)\<rparr> in
      if 8 \<le> length (signature e) \<and> length (signature e) \<le> 1024 \<and>
         64 \<le> length (signer_certificate e) \<and> length (signer_certificate e) \<le> 65536 \<and>
         fingerprint_re (signer_sha256 e) then Some e else None)"

text \<open>The zero octet that ends the domain separation prefix is \<open>char_of 0\<close>.\<close>

definition signing_domain :: string where
  "signing_domain = ''EFDI-DELEGATION-V1'' @ [char_of (0 :: nat)]"

definition verify_grant_envelope ::
  "('c, 'z) ops_scheme \<Rightarrow> pyval \<Rightarrow> string option \<Rightarrow> int \<Rightarrow> (grant \<times> 'c) result" where
  "verify_grant_envelope x raw expected_signer now =
     and_then (case raw of VStr s \<Rightarrow> some_or (json_loads x s) InvalidJson | _ \<Rightarrow> Inr raw) (\<lambda>document.
     and_then (some_or (parse_envelope x document \<bind> validate_envelope) InvalidEnvelope) (\<lambda>env.
     and_then (some_or (parse_grant x (payload env) \<bind> validate_grant) InvalidEnvelope) (\<lambda>grant.
     and_then (some_or (load_pem x (signer_certificate env)) InvalidEnvelope) (\<lambda>certificate.
     let fingerprint = cert_sha256 x certificate in
     ensure (fingerprint = signer_sha256 env) FingerprintMismatch (
     ensure (case expected_signer of None \<Rightarrow> True
        | Some s \<Rightarrow> s = [] \<or> fingerprint = py_lower s) UnexpectedSigner (
     and_then (certificate_router_identity x certificate) (\<lambda>identity.
     ensure (identity = issuer_identity grant) SignerNotIssuer (
     ensure (key_kind x certificate = EcP256) SignerNotP256 (
     ensure (case b64decode x (signature env) of None \<Rightarrow> False
        | Some sig \<Rightarrow> ecdsa_verify x certificate sig (signing_domain @ canonical_grant x grant)) BadSignature (
     ensure (\<not> (now < not_before grant \<or> now \<ge> not_after grant)) GrantNotCurrent (
     ensure (\<not> (now < cert_from x certificate \<or> now \<ge> cert_until x certificate)) SignerNotCurrent (
       Inr (grant, certificate)))))))))))))"

subsection \<open>Certificate profiles\<close>

definition verify_issued_by :: "('c, 'z) ops_scheme \<Rightarrow> 'c \<Rightarrow> 'c \<Rightarrow> unit result" where
  "verify_issued_by x certificate issuer =
     ensure (key_kind x issuer \<noteq> NotEc) IssuerNotEc (
     ensure (issuer_name x certificate = subject_name x issuer) IssuerMismatch (
     ensure (cert_signed_by x certificate issuer) NotIssuedBy (Inr ())))"

definition verify_ca_profile :: "('c, 'z) ops_scheme \<Rightarrow> 'c \<Rightarrow> unit result" where
  "verify_ca_profile x certificate =
     and_then (some_or (basic_constraints x certificate) CaConstraintsMissing) (\<lambda>(ca, path_length).
     and_then (some_or (key_usage x certificate) CaConstraintsMissing) (\<lambda>(digital_signature, key_cert_sign).
     ensure (\<not> (\<not> ca \<or> path_length = None \<or> \<not> key_cert_sign)) CaProfile (
     ensure (key_kind x certificate = EcP256) CaNotP256 (Inr ()))))"

definition policy_signer_eku :: string where
  "policy_signer_eku = ''1.3.6.1.4.1.55555.1.1''"

definition verify_policy_profile :: "('c, 'z) ops_scheme \<Rightarrow> 'c \<Rightarrow> string \<Rightarrow> unit result" where
  "verify_policy_profile x certificate identity =
     and_then (some_or (basic_constraints x certificate) PolicyConstraintsMissing) (\<lambda>(ca, path_length).
     and_then (some_or (key_usage x certificate) PolicyConstraintsMissing) (\<lambda>(digital_signature, key_cert_sign).
     and_then (some_or (extended_usage x certificate) PolicyConstraintsMissing) (\<lambda>extended.
     ensure (\<not> (ca \<or> \<not> digital_signature \<or> policy_signer_eku \<notin> set extended)) PolicyProfile (
     and_then (certificate_router_identity x certificate) (\<lambda>ident.
     ensure (ident = identity) PolicyIdentity (
     ensure (key_kind x certificate = EcP256) PolicyNotP256 (Inr ())))))))"

subsection \<open>Authorities\<close>

text \<open>A row of \<open>trust_authorities\<close>, and the result of a verification.\<close>

record trust_authority =
  ta_id :: string
  identity_uri :: string
  namespace_scope :: string
  ca_fingerprint :: string
  ca_cert_pem :: string
  policy_signer_fingerprint :: "string option"
  policy_signer_cert_pem :: "string option"
  parent_id :: "string option"
  ta_max_depth :: int
  ta_state :: string
  ta_not_after :: int

record verified_authority =
  va_identity :: string
  va_namespace :: string
  va_ca_fingerprint :: string
  va_ca_cert_pem :: string
  va_signer_fingerprint :: string
  va_signer_cert_pem :: string
  va_max_depth :: int
  va_not_after :: int
  effective_grant :: "grant option"

definition authority_record :: "trust_authority \<Rightarrow> grant option \<Rightarrow> verified_authority result" where
  "authority_record a g = (case (policy_signer_fingerprint a, policy_signer_cert_pem a) of
     (Some fp, Some pem) \<Rightarrow>
       if fp = [] \<or> pem = [] then Inl NoPolicySigner
       else Inr \<lparr> va_identity = identity_uri a, va_namespace = namespace_scope a,
         va_ca_fingerprint = ca_fingerprint a, va_ca_cert_pem = ca_cert_pem a,
         va_signer_fingerprint = fp, va_signer_cert_pem = pem,
         va_max_depth = ta_max_depth a, va_not_after = ta_not_after a, effective_grant = g \<rparr>
   | _ \<Rightarrow> Inl NoPolicySigner)"

subsection \<open>Following the chain\<close>

text \<open>\<open>isinstance(v, dict) and set(v) == keys\<close>: the fields of \<open>v\<close>.\<close>

definition dict_with :: "string list \<Rightarrow> pyval \<Rightarrow> dict option" where
  "dict_with keys v = (case v of
     VDict d \<Rightarrow> if set (map fst d) = set keys then Some d else None
   | _ \<Rightarrow> None)"

definition max_certificate_bytes :: nat where
  "max_certificate_bytes = 64 * 1024"

text \<open>\<open>len(s.encode())\<close> of Latin-1 text in UTF-8.\<close>

definition utf8_len :: "string \<Rightarrow> nat" where
  "utf8_len s = sum_list (map (\<lambda>c. if (of_char c :: nat) < 128 then 1 else 2) s)"

definition cert_text :: "pyval option \<Rightarrow> string option" where
  "cert_text v = (case v of
     Some (VStr s) \<Rightarrow> if utf8_len s > max_certificate_bytes then None else Some s
   | _ \<Rightarrow> None)"

definition chain_step ::
  "('c, 'z) ops_scheme \<Rightarrow> int \<Rightarrow> string list \<Rightarrow> nat \<Rightarrow> pyval \<Rightarrow> verified_authority \<Rightarrow> verified_authority result" where
  "chain_step x now revoked index step issuer =
     and_then (some_or (dict_with [''delegation_envelope'', ''subject_ca_certificate'',
       ''subject_policy_signer_certificate''] step) (StepShape index)) (\<lambda>step.
     and_then (some_or (cert_text (dget step ''subject_ca_certificate'')) (StepCertificate index)) (\<lambda>ca_pem.
     and_then (some_or (cert_text (dget step ''subject_policy_signer_certificate'')) (StepCertificate index)) (\<lambda>policy_pem.
     and_then (some_or (dget step ''delegation_envelope'') (StepShape index)) (\<lambda>env.
     and_then (verify_grant_envelope x env (Some (va_signer_fingerprint issuer)) now) (\<lambda>(grant, _).
     ensure (issuer_identity grant = va_identity issuer) (WrongIssuer index) (
     and_then (case effective_grant issuer of
         Some g \<Rightarrow> and_then (some_or (grant_is_subset grant g) ScopeError)
           (\<lambda>narrower. ensure narrower (Widens index) (Inr ()))
       | None \<Rightarrow> ensure (\<not> max_delegation_depth grant \<ge> va_max_depth issuer) (DepthNotReduced index) (Inr ())) (\<lambda>_.
     and_then (some_or (load_pem x ca_pem) (MalformedCertificate index)) (\<lambda>ca.
     and_then (some_or (load_pem x policy_pem) (MalformedCertificate index)) (\<lambda>policy.
     and_then (some_or (load_pem x (va_ca_cert_pem issuer)) (MalformedCertificate index)) (\<lambda>issuer_ca.
     and_then (verify_issued_by x ca issuer_ca) (\<lambda>_.
     and_then (verify_issued_by x policy issuer_ca) (\<lambda>_.
     and_then (verify_ca_profile x ca) (\<lambda>_.
     and_then (verify_policy_profile x policy (subject_identity grant)) (\<lambda>_.
     let ca_fp = cert_sha256 x ca;
         policy_fp = cert_sha256 x policy;
         until = min (not_after grant) (min (cert_until x ca) (cert_until x policy)) in
     ensure (ca_fp = subject_ca_sha256 grant) (CaNotGranted index) (
     ensure (\<not> (subject_identity grant \<in> set revoked \<or> ca_fp \<in> set revoked \<or> policy_fp \<in> set revoked)) (StepRevoked index) (
     ensure (\<not> (now < cert_from x ca \<or> now < cert_from x policy)) (StepNotYetValid index) (
     ensure (\<not> until \<le> now) (StepExpired index) (
       Inr \<lparr> va_identity = subject_identity grant, va_namespace = namespace grant,
         va_ca_fingerprint = ca_fp, va_ca_cert_pem = ca_pem,
         va_signer_fingerprint = policy_fp, va_signer_cert_pem = policy_pem,
         va_max_depth = max_delegation_depth grant, va_not_after = until,
         effective_grant = Some grant \<rparr>))))))))))))))))))"

fun chain_steps ::
  "('c, 'z) ops_scheme \<Rightarrow> int \<Rightarrow> string list \<Rightarrow> nat \<Rightarrow> pyval list \<Rightarrow> verified_authority \<Rightarrow> verified_authority result" where
  "chain_steps x now revoked index [] issuer = Inr issuer"
| "chain_steps x now revoked index (step # steps) issuer =
     and_then (chain_step x now revoked index step issuer)
       (chain_steps x now revoked (index + 1) steps)"

definition max_trust_chain_depth :: nat where
  "max_trust_chain_depth = 33"

text \<open>Equality of a JSON value with a number.\<close>

definition eq_int :: "pyval option \<Rightarrow> int \<Rightarrow> bool" where
  "eq_int v i = (case v of
     Some (VInt j) \<Rightarrow> j = i
   | Some (VBool b) \<Rightarrow> (if b then 1 else 0) = i
   | Some (VFloat r) \<Rightarrow> r = of_int i
   | _ \<Rightarrow> False)"

definition eq_str :: "pyval option \<Rightarrow> string option \<Rightarrow> bool" where
  "eq_str v s = (case (v, s) of
     (Some (VStr t), Some u) \<Rightarrow> t = u
   | (Some VNone, None) \<Rightarrow> True
   | _ \<Rightarrow> False)"

definition anchor_check ::
  "('c, 'z) ops_scheme \<Rightarrow> dict \<Rightarrow> trust_authority \<Rightarrow> unit result" where
  "anchor_check x anchor trusted =
     ensure (eq_str (dget anchor ''identity_uri'') (Some (identity_uri trusted))) (AnchorUntrusted ''identity'') (
     ensure (eq_str (dget anchor ''ca_sha256'') (Some (ca_fingerprint trusted))) (AnchorUntrusted ''fingerprint'') (
     ensure (eq_str (dget anchor ''ca_certificate'') (Some (ca_cert_pem trusted))) (AnchorUntrusted ''certificate'') (
     ensure (eq_str (dget anchor ''policy_signer_sha256'') (policy_signer_fingerprint trusted)) (AnchorUntrusted ''policy signer'') (
     ensure (eq_str (dget anchor ''policy_signer_certificate'') (policy_signer_cert_pem trusted)) (AnchorUntrusted ''policy certificate'') (
     ensure (eq_str (dget anchor ''namespace_scope'') (Some (namespace_scope trusted))) (AnchorUntrusted ''namespace'') (
     ensure (eq_int (dget anchor ''max_delegation_depth'') (ta_max_depth trusted)) (AnchorUntrusted ''depth'') (
     ensure (eq_str (dget anchor ''not_after'') (Some (isoformat x (ta_not_after trusted)))) (AnchorUntrusted ''lifetime'') (
       Inr ()))))))))"

definition verify_trust_chain ::
  "('c, 'z) ops_scheme \<Rightarrow> pyval \<Rightarrow> trust_authority \<Rightarrow> string list \<Rightarrow> int \<Rightarrow> verified_authority result" where
  "verify_trust_chain x proof_doc trusted revoked now =
     and_then (some_or (dict_with [''schema'', ''anchor'', ''steps''] proof_doc) ChainShape) (\<lambda>doc.
     ensure (eq_str (dget doc ''schema'') (Some ''efdi.trust-chain/v1'')) ChainSchema (
     and_then (some_or (dget doc ''anchor'' \<bind> dict_with [''identity_uri'', ''namespace_scope'', ''ca_sha256'',
       ''ca_certificate'', ''policy_signer_sha256'', ''policy_signer_certificate'',
       ''max_delegation_depth'', ''not_after'']) AnchorShape) (\<lambda>anchor.
     and_then (anchor_check x anchor trusted) (\<lambda>_.
     and_then (case dget doc ''steps'' of
         Some (VList steps) \<Rightarrow> ensure (1 \<le> length steps \<and> length steps < max_trust_chain_depth) ChainLength (Inr steps)
       | _ \<Rightarrow> Inl ChainLength) (\<lambda>steps.
     ensure (\<not> (ta_state trusted \<noteq> ''active'' \<or> identity_uri trusted \<in> set revoked \<or>
         ca_fingerprint trusted \<in> set revoked \<or> ta_not_after trusted \<le> now)) AnchorInactive (
     and_then (authority_record trusted None) (\<lambda>issuer.
       chain_steps x now revoked 0 steps issuer)))))))"

subsection \<open>What a verified chain guarantees\<close>

text \<open>A grant carries a valid signature of a P-256 certificate of its issuer.\<close>

definition signed_grant :: "('c, 'z) ops_scheme \<Rightarrow> grant \<Rightarrow> bool" where
  "signed_grant x g \<longleftrightarrow> (\<exists>cert sg. uri_sans x cert = Some [issuer_identity g] \<and> key_kind x cert = EcP256 \<and>
     ecdsa_verify x cert sg (signing_domain @ canonical_grant x g))"

definition in_force :: "('c, 'z) ops_scheme \<Rightarrow> int \<Rightarrow> string list \<Rightarrow> grant \<Rightarrow> bool" where
  "in_force x now revoked g \<longleftrightarrow> grant_valid g \<and> signed_grant x g \<and>
     not_before g \<le> now \<and> now < not_after g \<and>
     subject_identity g \<notin> set revoked \<and> subject_ca_sha256 g \<notin> set revoked"

lemma router_identity_Inr:
  "certificate_router_identity x c = Inr i \<Longrightarrow> uri_sans x c = Some [i]"
  by (auto simp: certificate_router_identity_def length_Suc_conv split: if_splits)

lemma verify_grant_envelope_signed:
  assumes "verify_grant_envelope x raw s now = Inr (g, c)"
  shows "grant_valid g \<and> signed_grant x g \<and> not_before g \<le> now \<and> now < not_after g"
proof -
  from assms obtain env sg where "grant_valid g" and "certificate_router_identity x c = Inr (issuer_identity g)"
    "key_kind x c = EcP256" "ecdsa_verify x c sg (signing_domain @ canonical_grant x g)"
    "\<not> (now < not_before g \<or> now \<ge> not_after g)"
    by (auto simp: verify_grant_envelope_def Let_def validate_grant_def bind_eq_Some_conv
        split: option.splits if_splits)
  then show ?thesis by (auto simp: signed_grant_def dest: router_identity_Inr)
qed

definition narrows_issuer :: "verified_authority \<Rightarrow> grant \<Rightarrow> bool" where
  "narrows_issuer issuer g \<longleftrightarrow> (case effective_grant issuer of
     Some p \<Rightarrow> grant_is_subset g p = Some True
   | None \<Rightarrow> max_delegation_depth g < va_max_depth issuer)"

lemma narrows_issuer_check:
  "(case effective_grant issuer of
      Some p \<Rightarrow> and_then (some_or (grant_is_subset g p) ScopeError)
        (\<lambda>narrower. ensure narrower (Widens i) (Inr ()))
    | None \<Rightarrow> ensure (\<not> max_delegation_depth g \<ge> va_max_depth issuer) (DepthNotReduced i) (Inr ())) = Inr u
   \<longleftrightarrow> narrows_issuer issuer g"
  by (auto simp: narrows_issuer_def split: option.split)

lemma chain_step_grant:
  assumes "chain_step x now revoked i step issuer = Inr a"
  obtains g where "effective_grant a = Some g" "va_identity a = subject_identity g"
    "va_namespace a = namespace g" "va_max_depth a = max_delegation_depth g"
    "issuer_identity g = va_identity issuer" "in_force x now revoked g" "now < va_not_after a"
    "narrows_issuer issuer g"
proof -
  from assms have "\<exists>env g c. verify_grant_envelope x env (Some (va_signer_fingerprint issuer)) now = Inr (g, c)
      \<and> effective_grant a = Some g \<and> va_identity a = subject_identity g \<and> va_namespace a = namespace g
      \<and> va_max_depth a = max_delegation_depth g \<and> issuer_identity g = va_identity issuer
      \<and> subject_identity g \<notin> set revoked \<and> subject_ca_sha256 g \<notin> set revoked \<and> now < va_not_after a
      \<and> narrows_issuer issuer g"
    unfolding chain_step_def Let_def narrows_issuer_check
    by (clarsimp simp only: and_then_Inr ensure_Inr some_or_Inr narrows_issuer_check) (fastforce simp: not_le)
  then show ?thesis using that verify_grant_envelope_signed by (fastforce simp: in_force_def)
qed

lemma delegated_snoc:
  "delegated (gs @ [p]) \<Longrightarrow> grant_is_subset c p = Some True \<Longrightarrow> delegated (gs @ [p, c])"
  unfolding delegated_def by (rule delegation.chain_snoc)

lemma chain_steps_delegated:
  "chain_steps x now revoked i steps issuer = Inr a \<Longrightarrow>
     effective_grant issuer = Some p \<Longrightarrow> delegated (gs @ [p]) \<Longrightarrow> va_identity issuer = subject_identity p \<Longrightarrow>
     va_max_depth issuer = max_delegation_depth p \<Longrightarrow> now < va_not_after issuer \<Longrightarrow>
     \<exists>hs. length hs = length steps \<and> delegated (gs @ p # hs) \<and> list_all (in_force x now revoked) hs \<and>
       effective_grant a = Some (last (p # hs)) \<and> va_identity a = subject_identity (last (p # hs)) \<and>
       va_max_depth a = max_delegation_depth (last (p # hs)) \<and> now < va_not_after a"
proof (induction x now revoked i steps issuer arbitrary: p gs rule: chain_steps.induct)
  case (2 x now revoked i step steps issuer)
  from "2.prems"(1) obtain b where b: "chain_step x now revoked i step issuer = Inr b"
    and rest: "chain_steps x now revoked (i + 1) steps b = Inr a" by auto
  from "2.prems"(2) have eff: "narrows_issuer issuer h \<longleftrightarrow> grant_is_subset h p = Some True" for h
    by (simp add: narrows_issuer_def)
  from chain_step_grant [OF b, unfolded eff] obtain g where g: "effective_grant b = Some g"
    "va_identity b = subject_identity g" "va_max_depth b = max_delegation_depth g"
    "in_force x now revoked g" "now < va_not_after b" "grant_is_subset g p = Some True"
    by blast
  from delegated_snoc [OF "2.prems"(3) g(6)] have d: "delegated ((gs @ [p]) @ [g])" by simp
  from "2.IH" [OF rest g(1) d g(2,3,5)] obtain hs where "length hs = length steps"
    "delegated ((gs @ [p]) @ g # hs)" "list_all (in_force x now revoked) hs"
    "effective_grant a = Some (last (g # hs))" "va_identity a = subject_identity (last (g # hs))"
    "va_max_depth a = max_delegation_depth (last (g # hs))" "now < va_not_after a" by blast
  with g(4) show ?case by (intro exI [of _ "g # hs"]) simp
qed auto

lemma steps_check:
  "(case v of Some (VList steps) \<Rightarrow> ensure (P steps) e (Inr steps) | _ \<Rightarrow> Inl e') = Inr s \<longleftrightarrow>
     v = Some (VList s) \<and> P s"
  by (auto split: option.split pyval.split)

lemma verify_trust_chain_path:
  assumes "verify_trust_chain x doc trusted revoked now = Inr a"
  obtains g gs where "delegated (g # gs)" "issuer_identity g = identity_uri trusted"
    "list_all (in_force x now revoked) (g # gs)" "effective_grant a = Some (last (g # gs))"
    "va_identity a = subject_identity (last (g # gs))" "va_max_depth a = max_delegation_depth (last (g # gs))"
    "max_delegation_depth g < ta_max_depth trusted" "length (g # gs) \<le> 32" "now < va_not_after a"
proof -
  from assms obtain steps r where r: "authority_record trusted None = Inr r"
    and run: "chain_steps x now revoked 0 steps r = Inr a"
    and len: "1 \<le> length steps" "length steps < max_trust_chain_depth"
    unfolding verify_trust_chain_def
    by (clarsimp simp only: and_then_Inr ensure_Inr some_or_Inr steps_check Let_def) blast
  have r': "effective_grant r = None" "va_identity r = identity_uri trusted" "va_max_depth r = ta_max_depth trusted"
    using r by (auto simp: authority_record_def split: option.splits if_splits)
  from len obtain st sts where steps: "steps = st # sts" by (cases steps) auto
  with run obtain b where b: "chain_step x now revoked 0 st r = Inr b"
    and rest: "chain_steps x now revoked 1 sts b = Inr a" by auto
  have eff: "narrows_issuer r h \<longleftrightarrow> max_delegation_depth h < ta_max_depth trusted" for h
    by (simp add: narrows_issuer_def r')
  from chain_step_grant [OF b, unfolded eff r'] obtain g where g: "effective_grant b = Some g"
    "va_identity b = subject_identity g" "va_max_depth b = max_delegation_depth g"
    "issuer_identity g = identity_uri trusted" "in_force x now revoked g" "now < va_not_after b"
    "max_delegation_depth g < ta_max_depth trusted" by blast
  have "delegated ([] @ [g])" by (simp add: delegated_def)
  from chain_steps_delegated [OF rest g(1) this g(2,3,6)] obtain hs where "length hs = length sts"
    "delegated (g # hs)" "list_all (in_force x now revoked) hs"
    "effective_grant a = Some (last (g # hs))" "va_identity a = subject_identity (last (g # hs))"
    "va_max_depth a = max_delegation_depth (last (g # hs))" "now < va_not_after a" by auto
  with g steps len show ?thesis
    by (intro that [of g hs]) (auto simp: max_trust_chain_depth_def)
qed


subsection \<open>An anchor's namespace\<close>

text \<open>
  A concrete instance of the third-party operations: a certificate is a number, and its PEM
  text, fingerprint and names are derived from it. Certificate 4 is the anchor's CA, 5 its
  policy signer, 6 and 7 the CA and the policy signer of the router \<open>b\<close>.
\<close>

definition demo_fp :: "nat \<Rightarrow> string" where
  "demo_fp c = replicate 63 CHR ''0'' @ [digit_char c]"

definition demo_pem :: "nat \<Rightarrow> string" where
  "demo_pem c = replicate 64 (digit_char c)"

definition demo_grant :: "string \<Rightarrow> grant" where
  "demo_grant ns = \<lparr> g_id = ''g'', issuer_identity = ''spiffe://t/router/a'', subject_ca_sha256 = demo_fp 6,
     subject_identity = ''spiffe://t/router/a/b'', namespace = ns, roles = [Router], publish = [ns],
     subscribe = [], control = [], max_delegation_depth = 1, sequence = 1, not_before = 0, not_after = 100 \<rparr>"

definition demo_ops :: "string \<Rightarrow> nat ops" where
  "demo_ops ns = \<lparr> json_loads = (\<lambda>s. None),
     parse_envelope = (\<lambda>v. Some \<lparr> payload = v, signature = replicate 8 CHR ''s'',
       signer_certificate = demo_pem 5, signer_sha256 = demo_fp 5 \<rparr>),
     parse_grant = (\<lambda>v. Some (demo_grant ns)),
     canonical_grant = (\<lambda>g. []),
     load_pem = (\<lambda>s. Some (digit_val (hd s))),
     cert_sha256 = demo_fp,
     uri_sans = (\<lambda>c. Some [if c < 6 then ''spiffe://t/router/a'' else ''spiffe://t/router/a/b'']),
     key_kind = (\<lambda>c. EcP256),
     b64decode = (\<lambda>s. Some s),
     ecdsa_verify = (\<lambda>c s m. True),
     cert_from = (\<lambda>c. 0), cert_until = (\<lambda>c. 100),
     issuer_name = (\<lambda>c. ''a''), subject_name = (\<lambda>c. ''a''),
     cert_signed_by = (\<lambda>c i. i = 4),
     basic_constraints = (\<lambda>c. Some (c \<in> set [4, 6], Some 1)),
     key_usage = (\<lambda>c. Some (True, c \<in> set [4, 6])),
     extended_usage = (\<lambda>c. Some [policy_signer_eku]),
     isoformat = (\<lambda>t. ''t''), sha256_hex = (\<lambda>s. s) \<rparr>"

definition demo_anchor :: trust_authority where
  "demo_anchor = \<lparr> ta_id = ''1'', identity_uri = ''spiffe://t/router/a'', namespace_scope = ''EFDI/LTU/**'',
     ca_fingerprint = demo_fp 4, ca_cert_pem = demo_pem 4, policy_signer_fingerprint = Some (demo_fp 5),
     policy_signer_cert_pem = Some (demo_pem 5), parent_id = None, ta_max_depth = 2,
     ta_state = ''active'', ta_not_after = 100 \<rparr>"

definition demo_proof :: pyval where
  "demo_proof = VDict [(''schema'', VStr ''efdi.trust-chain/v1''),
     (''anchor'', VDict [(''identity_uri'', VStr ''spiffe://t/router/a''), (''namespace_scope'', VStr ''EFDI/LTU/**''),
       (''ca_sha256'', VStr (demo_fp 4)), (''ca_certificate'', VStr (demo_pem 4)),
       (''policy_signer_sha256'', VStr (demo_fp 5)), (''policy_signer_certificate'', VStr (demo_pem 5)),
       (''max_delegation_depth'', VInt 2), (''not_after'', VStr ''t'')]),
     (''steps'', VList [VDict [(''delegation_envelope'', VDict []),
       (''subject_ca_certificate'', VStr (demo_pem 6)), (''subject_policy_signer_certificate'', VStr (demo_pem 7))]])]"

lemma demo_grant_valid: "validate_grant (demo_grant ''OTHER/**'') = Some (demo_grant ''OTHER/**'')"
  by code_simp
lemma demo_fp_re: "fingerprint_re (demo_fp 5)" "py_lower (demo_fp 5) = demo_fp 5"
  by code_simp+
lemma demo_text: "cert_text (Some (VStr (demo_pem 6))) = Some (demo_pem 6)" "cert_text (Some (VStr (demo_pem 7))) = Some (demo_pem 7)"
  by (simp_all add: cert_text_def utf8_len_def max_certificate_bytes_def demo_pem_def sum_list_replicate)
lemma demo_vals: "digit_val (hd (demo_pem 4)) = 4" "digit_val (hd (demo_pem 5)) = 5" "digit_val (hd (demo_pem 6)) = 6" "digit_val (hd (demo_pem 7)) = 7"
  by code_simp+
lemma demo_anchor_ok: "anchor_check (demo_ops ns) [(''identity_uri'', VStr ''spiffe://t/router/a''), (''namespace_scope'', VStr ''EFDI/LTU/**''),
       (''ca_sha256'', VStr (demo_fp 4)), (''ca_certificate'', VStr (demo_pem 4)),
       (''policy_signer_sha256'', VStr (demo_fp 5)), (''policy_signer_certificate'', VStr (demo_pem 5)),
       (''max_delegation_depth'', VInt 2), (''not_after'', VStr ''t'')] demo_anchor = Inr ()"
  by (simp add: anchor_check_def ensure_def eq_str_def eq_int_def dget_def demo_anchor_def demo_ops_def)
lemma demo_envelope:
  "verify_grant_envelope (demo_ops ''OTHER/**'') (VDict []) (Some (demo_fp 5)) 5 = Inr (demo_grant ''OTHER/**'', 5)"
  by (simp add: verify_grant_envelope_def and_then_def some_or_def ensure_def demo_ops_def validate_envelope_def demo_fp_re
     demo_grant_valid demo_vals Let_def certificate_router_identity_def)
    (simp add: demo_grant_def demo_pem_def)

lemma demo_step:
  "chain_step (demo_ops ''OTHER/**'') 5 [] 0 (VDict [(''delegation_envelope'', VDict []),
       (''subject_ca_certificate'', VStr (demo_pem 6)), (''subject_policy_signer_certificate'', VStr (demo_pem 7))])
     \<lparr> va_identity = ''spiffe://t/router/a'', va_namespace = ''EFDI/LTU/**'', va_ca_fingerprint = demo_fp 4,
       va_ca_cert_pem = demo_pem 4, va_signer_fingerprint = demo_fp 5, va_signer_cert_pem = demo_pem 5,
       va_max_depth = 2, va_not_after = 100, effective_grant = None \<rparr> =
   Inr \<lparr>va_identity = ''spiffe://t/router/a/b'', va_namespace = ''OTHER/**'',
     va_ca_fingerprint = demo_fp 6, va_ca_cert_pem = demo_pem 6, va_signer_fingerprint = demo_fp 7, va_signer_cert_pem = demo_pem 7,
     va_max_depth = 1, va_not_after = 100, effective_grant = Some (demo_grant ''OTHER/**'')\<rparr>"
proof -
  have c: "load_pem (demo_ops ns) (demo_pem 4) = Some 4" "load_pem (demo_ops ns) (demo_pem 6) = Some 6"
    "load_pem (demo_ops ns) (demo_pem 7) = Some 7" for ns by (simp_all add: demo_ops_def demo_vals)
  have i: "verify_issued_by (demo_ops ns) 6 4 = Inr ()" "verify_issued_by (demo_ops ns) 7 4 = Inr ()"
    "verify_ca_profile (demo_ops ns) 6 = Inr ()"
    "verify_policy_profile (demo_ops ns) 7 ''spiffe://t/router/a/b'' = Inr ()" for ns
    by (simp_all add: demo_ops_def verify_issued_by_def verify_ca_profile_def verify_policy_profile_def
      certificate_router_identity_def and_then_def some_or_def ensure_def)
  have o: "cert_sha256 (demo_ops ns) = demo_fp" "cert_from (demo_ops ns) n = 0" "cert_until (demo_ops ns) n = 100" for ns n
    by (simp_all add: demo_ops_def)
  have g: "issuer_identity (demo_grant ns) = ''spiffe://t/router/a''" "subject_identity (demo_grant ns) = ''spiffe://t/router/a/b''"
    "namespace (demo_grant ns) = ns" "max_delegation_depth (demo_grant ns) = 1" "not_after (demo_grant ns) = 100"
    "subject_ca_sha256 (demo_grant ns) = demo_fp 6" for ns by (simp_all add: demo_grant_def)
  show ?thesis
    by (simp add: chain_step_def dict_with_def dget_def demo_text demo_envelope Let_def insert_commute c i o g ensure_def)
qed
definition demo_result :: verified_authority where
  "demo_result = \<lparr>va_identity = ''spiffe://t/router/a/b'', va_namespace = ''OTHER/**'',
     va_ca_fingerprint = demo_fp 6, va_ca_cert_pem = demo_pem 6, va_signer_fingerprint = demo_fp 7,
     va_signer_cert_pem = demo_pem 7, va_max_depth = 1, va_not_after = 100,
     effective_grant = Some (demo_grant ''OTHER/**'')\<rparr>"

lemma demo_accepted: "verify_trust_chain (demo_ops ''OTHER/**'') demo_proof demo_anchor [] 5 = Inr demo_result"
proof -
  have r: "authority_record demo_anchor None = Inr \<lparr> va_identity = ''spiffe://t/router/a'', va_namespace = ''EFDI/LTU/**'',
      va_ca_fingerprint = demo_fp 4, va_ca_cert_pem = demo_pem 4, va_signer_fingerprint = demo_fp 5,
      va_signer_cert_pem = demo_pem 5, va_max_depth = 2, va_not_after = 100, effective_grant = None \<rparr>"
    by (simp add: authority_record_def demo_anchor_def demo_fp_def demo_pem_def)
  have s: "ta_state demo_anchor = ''active''" "ta_not_after demo_anchor = 100" by (simp_all add: demo_anchor_def)
  show ?thesis
    by (simp add: verify_trust_chain_def demo_proof_def dict_with_def dget_def insert_commute eq_str_def
        demo_anchor_ok r s demo_step demo_result_def max_trust_chain_depth_def)
qed


text \<open>
  The first step leaves the anchor's namespace. The verification compares the first
  grant's delegation depth with the anchor but not its namespace: a proof whose anchor is trusted
  for EFDI/LTU and whose first grant hands out OTHER verifies, although the scope of the anchor does
  not contain the namespace of the authority that comes out.
\<close>

theorem anchor_namespace_unchecked:
  "\<exists>a. verify_trust_chain (demo_ops ''OTHER/**'') demo_proof demo_anchor [] 5 = Inr a \<and>
     scope_contains (namespace_scope demo_anchor) (va_namespace a) = Some False"
proof -
  have "scope_contains ''EFDI/LTU/**'' ''OTHER/**'' = Some False" by code_simp
  moreover have "va_namespace demo_result = ''OTHER/**''" "namespace_scope demo_anchor = ''EFDI/LTU/**''"
    by (simp_all add: demo_result_def demo_anchor_def)
  ultimately show ?thesis using demo_accepted by auto
qed

end
