(* ===== verification/Trust_Store.thy ===== *)
theory Trust_Store
  imports Trust_Chain
begin

text \<open>
  The persistent trust state (\<open>trust_store.py\<close>) and the lifecycle controls of an authority
  (\<open>trust_api.py\<close>): accepting a delegation, exporting a chain, quarantine, restoration and
  decommissioning. The database is a record of its tables; a unique constraint that a flush
  would violate is an error. Fresh identifiers are an argument.
\<close>

subsection \<open>Tables\<close>

record delegation =
  d_grant_id :: string
  d_issuer :: string
  d_subject :: string
  d_sequence :: int
  d_envelope :: pyval
  d_sha256 :: string
  d_state :: string
  d_from :: int
  d_until :: int

record revocation =
  r_target_type :: string
  r_target :: string
  r_reason :: string
  r_sequence :: int
  r_state :: string

text \<open>
  An issued identity or a link credential: its authority, its state, its profile, and the
  common name or the user name it stands for. The newest row is the last one.
\<close>

record credential =
  c_authority :: string
  c_state :: string
  c_profile :: string
  c_name :: string

record db =
  authorities :: "trust_authority list"
  delegations :: "delegation list"
  revocations :: "revocation list"
  identities :: "credential list"
  links :: "credential list"

definition authority_by_identity :: "db \<Rightarrow> string \<Rightarrow> trust_authority option" where
  "authority_by_identity db uri = find (\<lambda>a. identity_uri a = uri) (authorities db)"

definition authority_by_id :: "db \<Rightarrow> string \<Rightarrow> trust_authority option" where
  "authority_by_id db i = find (\<lambda>a. ta_id a = i) (authorities db)"

definition authority_is_revoked :: "db \<Rightarrow> trust_authority \<Rightarrow> bool" where
  "authority_is_revoked db a = list_ex (\<lambda>r. r_state r = ''active'' \<and>
     r_target r \<in> set [ca_fingerprint a, identity_uri a]) (revocations db)"

text \<open>\<open>order_by(Delegation.sequence.desc()).limit(1)\<close>.\<close>

fun latest :: "delegation list \<Rightarrow> delegation option" where
  "latest [] = None"
| "latest (d # ds) = (case latest ds of
     None \<Rightarrow> Some d
   | Some e \<Rightarrow> Some (if d_sequence d \<ge> d_sequence e then d else e))"

definition active_delegation :: "db \<Rightarrow> string \<Rightarrow> delegation option" where
  "active_delegation db subject =
     latest (filter (\<lambda>d. d_subject d = subject \<and> d_state d = ''active'') (delegations db))"

subsection \<open>Accepting a delegation\<close>

text \<open>The parent's grant as stored: its envelope is verified again.\<close>

definition parent_check ::
  "('c, 'z) ops_scheme \<Rightarrow> db \<Rightarrow> int \<Rightarrow> trust_authority \<Rightarrow> grant \<Rightarrow> unit result" where
  "parent_check x db now issuer grant = (case active_delegation db (ta_id issuer) of
     Some d \<Rightarrow>
       and_then (case d_envelope d of
           VDict e \<Rightarrow> (case dget e ''signer_sha256'' of Some (VStr s) \<Rightarrow> Inr s | _ \<Rightarrow> Inl InvalidEnvelope)
         | _ \<Rightarrow> Inl InvalidEnvelope) (\<lambda>signer.
       and_then (verify_grant_envelope x (d_envelope d) (Some signer) now) (\<lambda>(parent_grant, _).
       and_then (some_or (grant_is_subset grant parent_grant) ScopeError) (\<lambda>narrower.
         ensure narrower ExceedsGrant (Inr ()))))
   | None \<Rightarrow> ensure (\<not> max_delegation_depth grant \<ge> ta_max_depth issuer) DepthNotLower (Inr ()))"

definition policy_check ::
  "('c, 'z) ops_scheme \<Rightarrow> int \<Rightarrow> grant \<Rightarrow> 'c \<Rightarrow> string option \<Rightarrow> string option result" where
  "policy_check x now grant issuer_ca pem = (case pem of
     None \<Rightarrow> Inr None
   | Some p \<Rightarrow> if p = [] then Inr None else
       and_then (some_or (load_pem x p) (MalformedCertificate 0)) (\<lambda>policy.
       and_then (verify_issued_by x policy issuer_ca) (\<lambda>_.
       and_then (verify_policy_profile x policy (subject_identity grant)) (\<lambda>_.
       ensure (\<not> (now < cert_from x policy \<or> now \<ge> cert_until x policy)) PolicyNotCurrent (
         Inr (Some (cert_sha256 x policy)))))))"

text \<open>The unique constraints of the two tables.\<close>

definition fits :: "db \<Rightarrow> trust_authority \<Rightarrow> delegation \<Rightarrow> bool" where
  "fits db a d \<longleftrightarrow>
     list_all (\<lambda>b. ta_id b \<noteq> ta_id a \<and> identity_uri b \<noteq> identity_uri a \<and> ca_fingerprint b \<noteq> ca_fingerprint a \<and>
       (policy_signer_fingerprint a = None \<or> policy_signer_fingerprint b \<noteq> policy_signer_fingerprint a)) (authorities db) \<and>
     list_all (\<lambda>e. d_grant_id e \<noteq> d_grant_id d \<and> d_sha256 e \<noteq> d_sha256 d \<and>
       \<not> (d_issuer e = d_issuer d \<and> d_sequence e = d_sequence d)) (delegations db)"

text \<open>\<open>highest_sequence is not None and grant.sequence <= highest_sequence\<close>.\<close>

definition stale_sequence :: "db \<Rightarrow> trust_authority \<Rightarrow> grant \<Rightarrow> bool" where
  "stale_sequence db issuer grant \<longleftrightarrow>
     list_ex (\<lambda>d. d_issuer d = ta_id issuer \<and> sequence grant \<le> d_sequence d) (delegations db)"

text \<open>The two rows that are added.\<close>

definition new_authority ::
  "string \<Rightarrow> trust_authority \<Rightarrow> grant \<Rightarrow> string \<Rightarrow> int \<Rightarrow> string \<Rightarrow> string option \<Rightarrow> string option \<Rightarrow> trust_authority" where
  "new_authority new_id issuer grant ca_fp ca_until ca_pem policy_fp policy_pem =
     \<lparr> ta_id = new_id, identity_uri = subject_identity grant, namespace_scope = namespace grant,
       ca_fingerprint = ca_fp, ca_cert_pem = ca_pem, policy_signer_fingerprint = policy_fp,
       policy_signer_cert_pem = policy_pem, parent_id = Some (ta_id issuer),
       ta_max_depth = max_delegation_depth grant, ta_state = ''active'',
       ta_not_after = min (not_after grant) ca_until \<rparr>"

definition new_delegation ::
  "('c, 'z) ops_scheme \<Rightarrow> string \<Rightarrow> trust_authority \<Rightarrow> grant \<Rightarrow> dict \<Rightarrow> delegation" where
  "new_delegation x new_id issuer grant envelope =
     \<lparr> d_grant_id = g_id grant, d_issuer = ta_id issuer, d_subject = new_id,
       d_sequence = sequence grant, d_envelope = VDict envelope,
       d_sha256 = sha256_hex x (canonical_grant x grant), d_state = ''active'',
       d_from = not_before grant, d_until = not_after grant \<rparr>"

definition add_rows :: "db \<Rightarrow> trust_authority \<Rightarrow> delegation \<Rightarrow> db" where
  "add_rows db a d = db\<lparr>authorities := authorities db @ [a], delegations := delegations db @ [d]\<rparr>"

definition accept_delegation ::
  "('c, 'z) ops_scheme \<Rightarrow> int \<Rightarrow> string \<Rightarrow> dict \<Rightarrow> string \<Rightarrow> string option \<Rightarrow> db \<Rightarrow> db result" where
  "accept_delegation x now new_id envelope subject_ca_pem subject_policy_pem db =
     and_then (case dget envelope ''signer_certificate'' of
         Some (VStr s) \<Rightarrow> Inr s | _ \<Rightarrow> Inl NoSignerCertificate) (\<lambda>raw_signer.
     and_then (some_or (load_pem x raw_signer) (MalformedCertificate 0)) (\<lambda>signer.
     let signer_fp = cert_sha256 x signer in
     and_then (verify_grant_envelope x (VDict envelope) (Some signer_fp) now) (\<lambda>(grant, _).
     and_then (some_or (authority_by_identity db (issuer_identity grant)) IssuerInactive) (\<lambda>issuer.
     ensure (\<not> (ta_state issuer \<noteq> ''active'' \<or> authority_is_revoked db issuer)) IssuerInactive (
     ensure (policy_signer_fingerprint issuer = Some signer_fp) NotActiveSigner (
     and_then (parent_check x db now issuer grant) (\<lambda>_.
     ensure (\<not> stale_sequence db issuer grant) StaleSequence (
     and_then (some_or (load_pem x subject_ca_pem) (MalformedCertificate 0)) (\<lambda>ca.
     and_then (some_or (load_pem x (ca_cert_pem issuer)) (MalformedCertificate 0)) (\<lambda>issuer_ca.
     and_then (verify_issued_by x ca issuer_ca) (\<lambda>_.
     and_then (verify_ca_profile x ca) (\<lambda>_.
     ensure (\<not> (now < cert_from x ca \<or> now \<ge> cert_until x ca)) CaNotCurrent (
     ensure (cert_sha256 x ca = subject_ca_sha256 grant) CaNotInGrant (
     and_then (policy_check x now grant issuer_ca subject_policy_pem) (\<lambda>policy_fp.
     ensure (authority_by_identity db (subject_identity grant) = None) SubjectExists (
     let authority = new_authority new_id issuer grant (cert_sha256 x ca) (cert_until x ca) subject_ca_pem policy_fp subject_policy_pem;
         delegation = new_delegation x new_id issuer grant envelope in
     ensure (fits db authority delegation) DbConflict (
       Inr (add_rows db authority delegation))))))))))))))))))"

subsection \<open>Exporting a chain\<close>

text \<open>The authorities from a trust anchor down to one, bounded by the chain depth.\<close>

fun lineage_loop :: "nat \<Rightarrow> db \<Rightarrow> trust_authority list \<Rightarrow> trust_authority \<Rightarrow> trust_authority list result" where
  "lineage_loop 0 db lineage current = Inl ChainTooDeep"
| "lineage_loop (Suc fuel) db lineage current = (case parent_id current of
     None \<Rightarrow> Inr (rev lineage)
   | Some p \<Rightarrow>
       ensure (\<not> length lineage \<ge> max_trust_chain_depth) ChainTooDeep (
       and_then (some_or (authority_by_id db p) MissingParent) (\<lambda>parent.
         lineage_loop fuel db (lineage @ [parent]) parent)))"

definition lineage :: "db \<Rightarrow> trust_authority \<Rightarrow> trust_authority list result" where
  "lineage db authority = lineage_loop (max_trust_chain_depth + 1) db [authority] authority"

fun export_steps :: "db \<Rightarrow> trust_authority list \<Rightarrow> pyval list result" where
  "export_steps db [] = Inr []"
| "export_steps db (subject # rest) =
     and_then (some_or (active_delegation db (ta_id subject)) NoActiveDelegation) (\<lambda>d.
     and_then (export_steps db rest) (\<lambda>steps.
       Inr (VDict [(''delegation_envelope'', d_envelope d),
         (''subject_ca_certificate'', VStr (ca_cert_pem subject)),
         (''subject_policy_signer_certificate'',
           (case policy_signer_cert_pem subject of None \<Rightarrow> VNone | Some s \<Rightarrow> VStr s))] # steps)))"

definition opt_val :: "string option \<Rightarrow> pyval" where
  "opt_val s = (case s of None \<Rightarrow> VNone | Some s \<Rightarrow> VStr s)"

definition export_trust_chain :: "('c, 'z) ops_scheme \<Rightarrow> db \<Rightarrow> trust_authority \<Rightarrow> pyval result" where
  "export_trust_chain x db authority =
     and_then (lineage db authority) (\<lambda>ls.
     and_then (export_steps db (drop 1 ls)) (\<lambda>steps.
     let anchor = hd ls in
       Inr (VDict [(''schema'', VStr ''efdi.trust-chain/v1''),
         (''anchor'', VDict [
           (''identity_uri'', VStr (identity_uri anchor)),
           (''namespace_scope'', VStr (namespace_scope anchor)),
           (''ca_sha256'', VStr (ca_fingerprint anchor)),
           (''ca_certificate'', VStr (ca_cert_pem anchor)),
           (''policy_signer_sha256'', opt_val (policy_signer_fingerprint anchor)),
           (''policy_signer_certificate'', opt_val (policy_signer_cert_pem anchor)),
           (''max_delegation_depth'', VInt (ta_max_depth anchor)),
           (''not_after'', VStr (isoformat x (ta_not_after anchor)))]),
         (''steps'', VList steps)])))"

subsection \<open>Lifecycle\<close>

text \<open>
  The operations on a direct child of the local authority; \<open>Inl\<close> is the HTTP status. The
  audit entry and the reason check of the request body are not part of the state.
\<close>

definition direct_child :: "db \<Rightarrow> string \<Rightarrow> string \<Rightarrow> int + trust_authority" where
  "direct_child db local i = (case authority_by_id db i of
     None \<Rightarrow> Inl 404
   | Some a \<Rightarrow> if parent_id a \<noteq> Some local then Inl 403 else Inr a)"

definition set_state :: "string \<Rightarrow> string \<Rightarrow> trust_authority list \<Rightarrow> trust_authority list" where
  "set_state i st = map (\<lambda>a. if ta_id a = i then a\<lparr>ta_state := st\<rparr> else a)"

definition quarantine_authority :: "db \<Rightarrow> string \<Rightarrow> string \<Rightarrow> int + db" where
  "quarantine_authority db local i = (case direct_child db local i of
     Inl e \<Rightarrow> Inl e
   | Inr a \<Rightarrow> if ta_state a = ''decommissioned'' then Inl 409
       else Inr (db\<lparr>authorities := set_state i ''quarantined'' (authorities db)\<rparr>))"

definition restore_authority :: "db \<Rightarrow> string \<Rightarrow> string \<Rightarrow> int + db" where
  "restore_authority db local i = (case direct_child db local i of
     Inl e \<Rightarrow> Inl e
   | Inr a \<Rightarrow> if ta_state a \<noteq> ''quarantined'' then Inl 409
       else Inr (db\<lparr>authorities := set_state i ''active'' (authorities db)\<rparr>))"

definition revoke_credentials :: "string \<Rightarrow> credential list \<Rightarrow> credential list" where
  "revoke_credentials i = map (\<lambda>c. if c_authority c = i then c\<lparr>c_state := ''revoked''\<rparr> else c)"

definition decommission_authority :: "db \<Rightarrow> string \<Rightarrow> string \<Rightarrow> string \<Rightarrow> int + db" where
  "decommission_authority db local i reason = (case direct_child db local i of
     Inl e \<Rightarrow> Inl e
   | Inr a \<Rightarrow> if ta_state a = ''decommissioned'' then Inl 409
       else if list_ex (\<lambda>r. r_target_type r = ''authority'' \<and> r_target r = identity_uri a) (revocations db) then Inl 500
       else let seq = (if revocations db = [] then 0 else Max (set (map r_sequence (revocations db)))) + 1 in
         Inr (db\<lparr>
           authorities := set_state i ''decommissioned'' (authorities db),
           delegations := map (\<lambda>d. if d_subject d = i then d\<lparr>d_state := ''revoked''\<rparr> else d) (delegations db),
           identities := revoke_credentials i (identities db),
           links := revoke_credentials i (links db),
           revocations := revocations db @ [\<lparr> r_target_type = ''authority'', r_target = identity_uri a,
             r_reason = reason, r_sequence = seq, r_state = ''active'' \<rparr>]\<rparr>))"

subsection \<open>The state machine\<close>

text \<open>
  A step is one successful operation, with a fresh identifier for a new authority. A store
  starts with trust anchors only.
\<close>

inductive store_step :: "('c, 'z) ops_scheme \<Rightarrow> string \<Rightarrow> db \<Rightarrow> db \<Rightarrow> bool" for x local where
  Accept: "accept_delegation x now new_id env ca pol db = Inr db' \<Longrightarrow> store_step x local db db'"
| Quarantine: "quarantine_authority db local i = Inr db' \<Longrightarrow> store_step x local db db'"
| Restore: "restore_authority db local i = Inr db' \<Longrightarrow> store_step x local db db'"
| Decommission: "decommission_authority db local i reason = Inr db' \<Longrightarrow> store_step x local db db'"

definition initial_store :: "db \<Rightarrow> bool" where
  "initial_store db \<longleftrightarrow> distinct (map ta_id (authorities db)) \<and> distinct (map identity_uri (authorities db)) \<and>
     list_all (\<lambda>a. parent_id a = None \<and> 0 \<le> ta_max_depth a \<and> ta_max_depth a \<le> 32 \<and> ta_state a = ''active'') (authorities db) \<and>
     delegations db = [] \<and> revocations db = []"

inductive reachable :: "('c, 'z) ops_scheme \<Rightarrow> string \<Rightarrow> db \<Rightarrow> bool" for x local where
  Init: "initial_store db \<Longrightarrow> reachable x local db"
| Step: "reachable x local db \<Longrightarrow> store_step x local db db' \<Longrightarrow> reachable x local db'"

inductive_cases store_stepE: "store_step x local db db'"

subsection \<open>The invariant\<close>

definition parsed_grant :: "('c, 'z) ops_scheme \<Rightarrow> pyval \<Rightarrow> grant option" where
  "parsed_grant x raw = do {
     document \<leftarrow> (case raw of VStr s \<Rightarrow> json_loads x s | _ \<Rightarrow> Some raw);
     env \<leftarrow> parse_envelope x document \<bind> validate_envelope;
     parse_grant x (payload env) \<bind> validate_grant
   }"

definition parent_ok :: "trust_authority list \<Rightarrow> trust_authority \<Rightarrow> bool" where
  "parent_ok as a \<longleftrightarrow> (case parent_id a of None \<Rightarrow> True
     | Some p \<Rightarrow> (\<exists>b \<in> set as. ta_id b = p \<and> ta_max_depth a < ta_max_depth b))"

definition delegation_ok :: "('c, 'z) ops_scheme \<Rightarrow> trust_authority list \<Rightarrow> delegation \<Rightarrow> bool" where
  "delegation_ok x as d \<longleftrightarrow> (\<exists>g. parsed_grant x (d_envelope d) = Some g \<and>
     (\<exists>a \<in> set as. ta_id a = d_subject d \<and> ta_max_depth a = max_delegation_depth g))"

text \<open>A decommissioned authority is revoked and no delegation to it is active.\<close>

definition retired_ok :: "db \<Rightarrow> trust_authority \<Rightarrow> bool" where
  "retired_ok db a \<longleftrightarrow> (ta_state a = ''decommissioned'' \<longrightarrow>
     (\<exists>r \<in> set (revocations db). r_state r = ''active'' \<and> r_target r = identity_uri a) \<and>
     (\<forall>d \<in> set (delegations db). d_subject d = ta_id a \<longrightarrow> d_state d \<noteq> ''active''))"

definition store_inv :: "('c, 'z) ops_scheme \<Rightarrow> db \<Rightarrow> bool" where
  "store_inv x db \<longleftrightarrow> distinct (map ta_id (authorities db)) \<and> distinct (map identity_uri (authorities db)) \<and>
     (\<forall>a \<in> set (authorities db). parent_ok (authorities db) a \<and> 0 \<le> ta_max_depth a \<and> ta_max_depth a \<le> 32 \<and>
        retired_ok db a) \<and>
     (\<forall>d \<in> set (delegations db). delegation_ok x (authorities db) d)"

lemma verify_grant_envelope_parsed:
  "verify_grant_envelope x raw s now = Inr (g, c) \<Longrightarrow> parsed_grant x raw = Some g \<and> grant_valid g"
proof -
  assume v: "verify_grant_envelope x raw s now = Inr (g, c)"
  have r: "(case raw of VStr s \<Rightarrow> some_or (json_loads x s) InvalidJson | _ \<Rightarrow> Inr raw) = Inr d \<longleftrightarrow>
      (case raw of VStr s \<Rightarrow> json_loads x s | _ \<Rightarrow> Some raw) = Some d" for d
    by (auto split: pyval.split)
  from v have "parsed_grant x raw = Some g"
    unfolding verify_grant_envelope_def parsed_grant_def
    by (clarsimp simp only: and_then_Inr ensure_Inr some_or_Inr r Let_def bind.bind_lunit prod.inject sum.inject)
  with verify_grant_envelope_signed [OF v] show ?thesis by blast
qed

lemma find_SomeD: "find P xs = Some y \<Longrightarrow> y \<in> set xs \<and> P y"
  by (auto simp: find_Some_iff)

lemma latest_member: "latest ds = Some d \<Longrightarrow> d \<in> set ds"
  by (induction ds arbitrary: d) (auto split: option.splits if_splits)

lemma active_delegation_member:
  "active_delegation db i = Some d \<Longrightarrow> d \<in> set (delegations db) \<and> d_subject d = i \<and> d_state d = ''active''"
  by (auto simp: active_delegation_def dest!: latest_member)

lemma same_id:
  "distinct (map ta_id as) \<Longrightarrow> a \<in> set as \<Longrightarrow> b \<in> set as \<Longrightarrow> ta_id a = ta_id b \<Longrightarrow> a = b"
  by (auto simp: distinct_map dest: inj_onD)

lemma same_uri:
  "distinct (map identity_uri as) \<Longrightarrow> a \<in> set as \<Longrightarrow> b \<in> set as \<Longrightarrow> identity_uri a = identity_uri b \<Longrightarrow> a = b"
  by (auto simp: distinct_map dest: inj_onD)

text \<open>What an accepted delegation adds.\<close>

lemma ex_unit: "(\<exists>u :: unit. P u) \<longleftrightarrow> P ()"
  by (metis old.unit.exhaust)

lemma accept_delegationE:
  assumes "accept_delegation x now new_id env ca_pem pol db = Inr db'"
  obtains g issuer a d where
    "parsed_grant x (VDict env) = Some g" "grant_valid g"
    "authority_by_identity db (issuer_identity g) = Some issuer" "ta_state issuer = ''active''"
    "\<not> authority_is_revoked db issuer" "parent_check x db now issuer g = Inr ()"
    "\<forall>e \<in> set (delegations db). d_issuer e = ta_id issuer \<longrightarrow> d_sequence e < sequence g"
    "ta_id a = new_id" "identity_uri a = subject_identity g" "parent_id a = Some (ta_id issuer)"
    "ta_max_depth a = max_delegation_depth g" "ta_state a = ''active''" "namespace_scope a = namespace g"
    "d_issuer d = ta_id issuer" "d_subject d = new_id" "d_sequence d = sequence g"
    "d_envelope d = VDict env" "d_state d = ''active''" "fits db a d"
    "db' = add_rows db a d"
proof -
  from assms obtain g c issuer fp until pfp s where v: "verify_grant_envelope x (VDict env) (Some s) now = Inr (g, c)"
    and i: "authority_by_identity db (issuer_identity g) = Some issuer" "ta_state issuer = ''active''"
    "\<not> authority_is_revoked db issuer" "parent_check x db now issuer g = Inr ()"
    "\<not> stale_sequence db issuer g"
    and rest: "fits db (new_authority new_id issuer g fp until ca_pem pfp pol) (new_delegation x new_id issuer g env)"
      "db' = add_rows db (new_authority new_id issuer g fp until ca_pem pfp pol) (new_delegation x new_id issuer g env)"
    unfolding accept_delegation_def Let_def
    by (clarsimp simp only: and_then_Inr ensure_Inr some_or_Inr prod.inject sum.inject ex_unit) blast
  from verify_grant_envelope_parsed [OF v] have "parsed_grant x (VDict env) = Some g" "grant_valid g" by blast+
  from that [OF this i(1-4) _ _ _ _ _ _ _ _ _ _ _ _ rest] i(5) show ?thesis
    by (simp add: new_authority_def new_delegation_def stale_sequence_def list_ex_iff not_le)
qed

lemma parent_check_depth:
  assumes inv: "store_inv x db" and p: "parent_check x db now issuer g = Inr ()" and m: "issuer \<in> set (authorities db)"
  shows "max_delegation_depth g < ta_max_depth issuer"
proof (cases "active_delegation db (ta_id issuer)")
  case None
  with p show ?thesis by (auto simp: parent_check_def)
next
  case (Some d)
  with p obtain s h c where v: "verify_grant_envelope x (d_envelope d) (Some s) now = Inr (h, c)"
    and sub: "grant_is_subset g h = Some True"
    unfolding parent_check_def
    by (clarsimp simp only: option.case and_then_Inr ensure_Inr some_or_Inr ex_unit)
  from active_delegation_member [OF Some] inv have "delegation_ok x (authorities db) d"
    and sj: "d_subject d = ta_id issuer" by (auto simp: store_inv_def)
  then obtain k a where k: "parsed_grant x (d_envelope d) = Some k" and a: "a \<in> set (authorities db)"
    "ta_id a = d_subject d" "ta_max_depth a = max_delegation_depth k" by (auto simp: delegation_ok_def)
  have "a = issuer" using same_id [OF _ a(1) m] inv a(2) sj by (simp add: store_inv_def)
  moreover have "k = h" using verify_grant_envelope_parsed [OF v] k by simp
  ultimately show ?thesis using grant_is_subset_conds(6) [OF sub] a(3) by simp
qed

lemma parent_ok_mono: "parent_ok as a \<Longrightarrow> set as \<subseteq> set bs \<Longrightarrow> parent_ok bs a"
  by (auto simp: parent_ok_def split: option.splits)

lemma delegation_ok_mono: "delegation_ok x as d \<Longrightarrow> set as \<subseteq> set bs \<Longrightarrow> delegation_ok x bs d"
  by (auto simp: delegation_ok_def)

lemma accept_preserves:
  assumes inv: "store_inv x db" and acc: "accept_delegation x now new_id env ca pol db = Inr db'"
  shows "store_inv x db'"
proof -
  from acc obtain g issuer a d where
    g: "parsed_grant x (VDict env) = Some g" "grant_valid g" and
    i: "authority_by_identity db (issuer_identity g) = Some issuer" and
    p: "parent_check x db now issuer g = Inr ()" and
    a: "ta_id a = new_id" "parent_id a = Some (ta_id issuer)" "ta_max_depth a = max_delegation_depth g"
      "ta_state a = ''active''" and
    d: "d_subject d = new_id" "d_envelope d = VDict env" and f: "fits db a d" and db': "db' = add_rows db a d"
    by (rule accept_delegationE)
  have m: "issuer \<in> set (authorities db)" using i by (auto simp: authority_by_identity_def dest: find_SomeD)
  have lt: "ta_max_depth a < ta_max_depth issuer" using parent_check_depth [OF inv p m] a by simp
  have r: "0 \<le> ta_max_depth a" "ta_max_depth a \<le> 32" using g(2) a by (auto simp: grant_valid_def)
  have new: "ta_id b \<noteq> new_id" if "b \<in> set (authorities db)" for b
    using f that a by (auto simp: fits_def list_all_iff)
  have old: "retired_ok db' b" if "b \<in> set (authorities db)" for b
    using inv that new [OF that] d by (auto simp: store_inv_def retired_ok_def db' add_rows_def)
  have as: "authorities db' = authorities db @ [a]" "delegations db' = delegations db @ [d]"
    by (simp_all add: db' add_rows_def)
  have "distinct (map ta_id (authorities db'))" "distinct (map identity_uri (authorities db'))"
    using inv f by (auto simp: as store_inv_def fits_def list_all_iff)
  moreover have "parent_ok (authorities db') b \<and> 0 \<le> ta_max_depth b \<and> ta_max_depth b \<le> 32 \<and> retired_ok db' b"
    if "b \<in> set (authorities db')" for b
  proof (cases "b = a")
    case True
    with a(2,4) lt m r show ?thesis by (auto simp: parent_ok_def retired_ok_def as)
  next
    case False
    with that have b: "b \<in> set (authorities db)" by (simp add: as)
    with inv old parent_ok_mono [of "authorities db" b "authorities db'"] show ?thesis
      by (auto simp: store_inv_def as)
  qed
  moreover have "delegation_ok x (authorities db') e" if "e \<in> set (delegations db')" for e
  proof (cases "e = d")
    case True
    with g d a show ?thesis by (auto simp: delegation_ok_def as)
  next
    case False
    with that inv delegation_ok_mono [of x "authorities db" e "authorities db'"] show ?thesis
      by (auto simp: store_inv_def as)
  qed
  ultimately show ?thesis unfolding store_inv_def by blast
qed

lemma set_state_fields [simp]:
  "map ta_id (set_state i st as) = map ta_id as"
  "map identity_uri (set_state i st as) = map identity_uri as"
  by (auto simp: set_state_def)

definition with_state :: "string \<Rightarrow> string \<Rightarrow> trust_authority \<Rightarrow> trust_authority" where
  "with_state i st a = (if ta_id a = i then a\<lparr>ta_state := st\<rparr> else a)"

lemma set_state_map: "set_state i st as = map (with_state i st) as"
  by (simp add: set_state_def with_state_def)

lemma with_state_fields [simp]:
  "ta_id (with_state i st a) = ta_id a" "identity_uri (with_state i st a) = identity_uri a"
  "parent_id (with_state i st a) = parent_id a" "ta_max_depth (with_state i st a) = ta_max_depth a"
  by (simp_all add: with_state_def)

lemma with_state_parent: "parent_ok as a \<Longrightarrow> parent_ok (map (with_state i st) as) (with_state i st a)"
  by (auto simp: parent_ok_def split: option.splits)

lemma with_state_delegation:
  "delegation_ok x as d \<Longrightarrow> d_envelope e = d_envelope d \<Longrightarrow> d_subject e = d_subject d \<Longrightarrow>
     delegation_ok x (map (with_state i st) as) e"
  by (auto simp: delegation_ok_def)

text \<open>A change of state and of the delegations' states keeps the invariant.\<close>

lemma restate_preserves:
  assumes inv: "store_inv x db" and as: "authorities db' = set_state i st (authorities db)"
    and ds: "delegations db' = map h (delegations db)" "\<And>d. d_envelope (h d) = d_envelope d" "\<And>d. d_subject (h d) = d_subject d"
    and ret: "\<And>a. a \<in> set (authorities db) \<Longrightarrow> retired_ok db' (with_state i st a)"
  shows "store_inv x db'"
proof -
  have "parent_ok (authorities db') b \<and> 0 \<le> ta_max_depth b \<and> ta_max_depth b \<le> 32 \<and> retired_ok db' b"
    if b: "b \<in> set (authorities db')" for b
  proof -
    from b as obtain a where "a \<in> set (authorities db)" "b = with_state i st a" by (auto simp: set_state_map)
    with inv ret show ?thesis by (simp add: store_inv_def as set_state_map with_state_parent)
  qed
  moreover have "delegation_ok x (authorities db') e" if e: "e \<in> set (delegations db')" for e
  proof -
    from e ds obtain d where "d \<in> set (delegations db)" "e = h d" by auto
    with inv ds show ?thesis by (auto simp: store_inv_def as set_state_map intro: with_state_delegation)
  qed
  ultimately show ?thesis using inv by (simp add: store_inv_def as)
qed

lemma direct_childE:
  assumes "direct_child db local i = Inr a"
  obtains "a \<in> set (authorities db)" "ta_id a = i" "parent_id a = Some local"
  using assms by (auto simp: direct_child_def authority_by_id_def dest: find_SomeD split: option.splits if_splits)

lemma change_preserves:
  assumes inv: "store_inv x db" and st: "st \<noteq> ''decommissioned''"
  shows "store_inv x (db\<lparr>authorities := set_state i st (authorities db)\<rparr>)"
proof (rule restate_preserves [OF inv, of _ i st id])
  fix a
  assume "a \<in> set (authorities db)"
  with inv st show "retired_ok (db\<lparr>authorities := set_state i st (authorities db)\<rparr>) (with_state i st a)"
    by (auto simp: store_inv_def retired_ok_def with_state_def)
qed simp_all

lemma decommissionE:
  assumes "decommission_authority db local i reason = Inr db'"
  obtains a r where "direct_child db local i = Inr a" "ta_state a \<noteq> ''decommissioned''"
    "r_state r = ''active''" "r_target r = identity_uri a"
    "authorities db' = set_state i ''decommissioned'' (authorities db)"
    "delegations db' = map (\<lambda>d. if d_subject d = i then d\<lparr>d_state := ''revoked''\<rparr> else d) (delegations db)"
    "revocations db' = revocations db @ [r]"
proof (cases "direct_child db local i")
  case (Inr a)
  show ?thesis
    by (rule that [of a "last (revocations db')"])
      (use assms Inr in \<open>auto simp: decommission_authority_def Let_def split: if_splits\<close>)
qed (use assms in \<open>simp add: decommission_authority_def\<close>)

lemma decommission_preserves:
  assumes inv: "store_inv x db" and dec: "decommission_authority db local i reason = Inr db'"
  shows "store_inv x db'"
proof -
  from dec obtain a r where a: "direct_child db local i = Inr a" and r: "r_state r = ''active''" "r_target r = identity_uri a"
    and db': "authorities db' = set_state i ''decommissioned'' (authorities db)"
    "delegations db' = map (\<lambda>d. if d_subject d = i then d\<lparr>d_state := ''revoked''\<rparr> else d) (delegations db)"
    "revocations db' = revocations db @ [r]" by (rule decommissionE)
  from a have a': "a \<in> set (authorities db)" "ta_id a = i" by (auto elim: direct_childE)
  have one: "b = a" if "b \<in> set (authorities db)" "ta_id b = i" for b
    using same_id [OF _ that(1) a'(1)] inv that(2) a'(2) by (simp add: store_inv_def)
  have "retired_ok db' (with_state i ''decommissioned'' b)" if "b \<in> set (authorities db)" for b
    using inv that one [OF that] r by (auto simp: store_inv_def retired_ok_def db' with_state_def)
  then show ?thesis by (intro restate_preserves [OF inv db'(1,2)]) auto
qed

lemma step_preserves: "store_inv x db \<Longrightarrow> store_step x local db db' \<Longrightarrow> store_inv x db'"
  by (erule store_stepE)
    (auto simp: quarantine_authority_def restore_authority_def split: sum.splits if_splits
      intro: accept_preserves decommission_preserves change_preserves)

lemma initial_inv: "initial_store db \<Longrightarrow> store_inv x db"
  by (auto simp: initial_store_def store_inv_def list_all_iff parent_ok_def retired_ok_def)

lemma reachable_inv: "reachable x local db \<Longrightarrow> store_inv x db"
  by (induction rule: reachable.induct) (auto intro: initial_inv step_preserves)

lemma steps_inv: "(store_step x local)\<^sup>*\<^sup>* db db' \<Longrightarrow> store_inv x db \<Longrightarrow> store_inv x db'"
  by (induction rule: rtranclp_induct) (auto intro: step_preserves)

subsection \<open>Lineages end at an anchor\<close>

definition parent_of :: "trust_authority \<Rightarrow> trust_authority \<Rightarrow> bool" where
  "parent_of p c \<longleftrightarrow> parent_id c = Some (ta_id p) \<and> ta_max_depth c < ta_max_depth p"

lemma store_inv_parent:
  assumes "store_inv x db" and "c \<in> set (authorities db)" and "parent_id c = Some p"
  obtains b where "authority_by_id db p = Some b" "b \<in> set (authorities db)" "parent_of b c"
proof -
  from assms obtain b where b: "b \<in> set (authorities db)" "ta_id b = p" "ta_max_depth c < ta_max_depth b"
    by (fastforce simp: store_inv_def parent_ok_def)
  then have "authority_by_id db p \<noteq> None" by (auto simp: authority_by_id_def find_None_iff)
  then obtain e where e: "authority_by_id db p = Some e" by blast
  then have "e \<in> set (authorities db)" "ta_id e = p" by (auto simp: authority_by_id_def dest: find_SomeD)
  then have "e = b" using same_id [of "authorities db" e b] assms(1) b by (simp add: store_inv_def)
  with e b assms(3) show ?thesis by (intro that [of b]) (auto simp: parent_of_def)
qed

lemma lineage_loop_total:
  assumes inv: "store_inv x db"
  shows "c \<in> set (authorities db) \<Longrightarrow> int (length ls) \<le> ta_max_depth c + 1 \<Longrightarrow> 34 \<le> fuel + length ls \<Longrightarrow>
    \<exists>rs. lineage_loop fuel db ls c = Inr (rev (ls @ rs)) \<and> parent_id (last (c # rs)) = None \<and>
      successively (\<lambda>c p. parent_of p c) (c # rs) \<and> length (ls @ rs) \<le> 33"
proof (induction fuel arbitrary: c ls)
  case 0
  with inv show ?case by (fastforce simp: store_inv_def)
next
  case (Suc fuel)
  from inv Suc.prems(1) have c32: "ta_max_depth c \<le> 32" by (auto simp: store_inv_def)
  show ?case
  proof (cases "parent_id c")
    case None
    with Suc.prems c32 show ?thesis by (intro exI [of _ "[]"]) simp
  next
    case (Some p)
    from store_inv_parent [OF inv Suc.prems(1) Some] obtain b where b: "authority_by_id db p = Some b"
      "b \<in> set (authorities db)" "parent_of b c" .
    have lt: "ta_max_depth c < ta_max_depth b" "ta_max_depth b \<le> 32"
      using b inv by (auto simp: parent_of_def store_inv_def)
    with Suc.prems Suc.IH [OF b(2), of "ls @ [b]"] obtain rs where
      "lineage_loop fuel db (ls @ [b]) b = Inr (rev ((ls @ [b]) @ rs))" "parent_id (last (b # rs)) = None"
      "successively (\<lambda>c p. parent_of p c) (b # rs)" "length ((ls @ [b]) @ rs) \<le> 33" by auto
    moreover have "\<not> length ls \<ge> max_trust_chain_depth"
      using Suc.prems(2) lt by (simp add: max_trust_chain_depth_def)
    ultimately show ?thesis using Some b
      by (intro exI [of _ "b # rs"]) (simp add: ensure_def and_then_def some_or_def)
  qed
qed

lemma lineage_ok:
  assumes "store_inv x db" and "a \<in> set (authorities db)"
  shows "\<exists>ls. lineage db a = Inr ls \<and> ls \<noteq> [] \<and> last ls = a \<and> parent_id (hd ls) = None \<and>
    successively parent_of ls \<and> length ls \<le> 33"
proof -
  from assms have "0 \<le> ta_max_depth a" by (auto simp: store_inv_def)
  with lineage_loop_total [OF assms, of "[a]" 34] obtain rs where
    r: "lineage_loop 34 db [a] a = Inr (rev ([a] @ rs))" "parent_id (last (a # rs)) = None"
    "successively (\<lambda>c p. parent_of p c) (a # rs)" "length ([a] @ rs) \<le> 33" by auto
  show ?thesis
    by (rule exI [of _ "rev ([a] @ rs)"])
      (use r in \<open>auto simp: lineage_def max_trust_chain_depth_def successively_rev hd_rev last_rev simp del: rev.simps\<close>)
qed

text \<open>
  C14: Lineages. In every state that acceptances, quarantines, restorations and
  decommissionings can reach from a store of anchors, walking from an authority to its parents ends
  at a trust anchor after at most 33 authorities, each below the one before it in remaining depth.
  The export's errors for a missing parent and for an excessive depth cannot occur.
\<close>

theorem lineage_reaches_anchor:
  assumes "reachable x local db" and "a \<in> set (authorities db)"
  shows "\<exists>ls. lineage db a = Inr ls \<and> ls \<noteq> [] \<and> last ls = a \<and> parent_id (hd ls) = None \<and>
    successively parent_of ls \<and> length ls \<le> 33"
  by (rule lineage_ok [OF reachable_inv [OF assms(1)] assms(2)])

definition demo_store :: db where
  "demo_store = \<lparr> authorities = [demo_anchor], delegations = [], revocations = [], identities = [], links = [] \<rparr>"

lemma demo_reachable: "reachable x local demo_store"
  by (rule Init) (simp add: initial_store_def demo_store_def demo_anchor_def)

theorem lineage_reaches_anchor_witness:
  "\<exists>ls. lineage demo_store demo_anchor = Inr ls \<and> last ls = demo_anchor \<and> length ls \<le> 33"
  using lineage_reaches_anchor [OF demo_reachable, of demo_anchor] by (auto simp: demo_store_def)

subsection \<open>Replay\<close>

definition recorded :: "db \<Rightarrow> grant \<Rightarrow> bool" where
  "recorded db g \<longleftrightarrow> (\<exists>d \<in> set (delegations db). \<exists>a \<in> set (authorities db).
     identity_uri a = issuer_identity g \<and> ta_id a = d_issuer d \<and> sequence g \<le> d_sequence d)"

lemma recorded_step: "store_step x local db db' \<Longrightarrow> recorded db g \<Longrightarrow> recorded db' g"
proof (erule store_stepE)
  fix now new_id env ca pol
  assume acc: "accept_delegation x now new_id env ca pol db = Inr db'" and r: "recorded db g"
  from acc obtain a d where "db' = add_rows db a d" by (rule accept_delegationE)
  with r show ?thesis by (auto simp: recorded_def add_rows_def)
next
  fix i assume "quarantine_authority db local i = Inr db'" "recorded db g"
  then show ?thesis
    by (fastforce simp: quarantine_authority_def recorded_def set_state_map split: sum.splits if_splits)
next
  fix i assume "restore_authority db local i = Inr db'" "recorded db g"
  then show ?thesis
    by (fastforce simp: restore_authority_def recorded_def set_state_map split: sum.splits if_splits)
next
  fix i reason assume dec: "decommission_authority db local i reason = Inr db'" and r: "recorded db g"
  from dec have "authorities db' = set_state i ''decommissioned'' (authorities db)"
    "delegations db' = map (\<lambda>d. if d_subject d = i then d\<lparr>d_state := ''revoked''\<rparr> else d) (delegations db)"
    by (auto elim: decommissionE)
  moreover from r obtain d a where "d \<in> set (delegations db)" "a \<in> set (authorities db)"
    "identity_uri a = issuer_identity g" "ta_id a = d_issuer d" "sequence g \<le> d_sequence d"
    by (auto simp: recorded_def)
  ultimately show ?thesis unfolding recorded_def
    by (intro bexI [of _ "if d_subject d = i then d\<lparr>d_state := ''revoked''\<rparr> else d"]
        bexI [of _ "with_state i ''decommissioned'' a"]) (auto simp: set_state_map)
qed

lemma recorded_steps: "(store_step x local)\<^sup>*\<^sup>* db db' \<Longrightarrow> recorded db g \<Longrightarrow> recorded db' g"
  by (induction rule: rtranclp_induct) (auto intro: recorded_step)

lemma recorded_refused:
  assumes inv: "store_inv x db" and r: "recorded db g" and g: "parsed_grant x (VDict env) = Some g"
  shows "accept_delegation x now new_id env ca pol db \<noteq> Inr db'"
proof
  assume "accept_delegation x now new_id env ca pol db = Inr db'"
  then obtain h issuer where h: "parsed_grant x (VDict env) = Some h"
    and i: "authority_by_identity db (issuer_identity h) = Some issuer"
    and fresh: "\<forall>e \<in> set (delegations db). d_issuer e = ta_id issuer \<longrightarrow> d_sequence e < sequence h"
    by (rule accept_delegationE)
  from r obtain d a where da: "d \<in> set (delegations db)" "a \<in> set (authorities db)"
    "identity_uri a = issuer_identity g" "ta_id a = d_issuer d" "sequence g \<le> d_sequence d"
    by (auto simp: recorded_def)
  from i have "issuer \<in> set (authorities db)" "identity_uri issuer = issuer_identity h"
    by (auto simp: authority_by_identity_def dest: find_SomeD)
  then have "issuer = a" using inv da(2,3) g h same_uri [of "authorities db" issuer a]
    by (simp add: store_inv_def)
  with fresh da g h show False by fastforce
qed

text \<open>
  C12: No replay. Once a delegation was accepted, the same envelope is refused in every later
  state of the store, whatever the time, the certificates presented with it and the operations in
  between, quarantine, restoration and decommissioning included.
\<close>

theorem accepted_delegation_not_replayed:
  assumes "reachable x local db" and "accept_delegation x now new_id env ca pol db = Inr db1"
    and "(store_step x local)\<^sup>*\<^sup>* db1 db2"
  shows "accept_delegation x now' new_id' env ca' pol' db2 \<noteq> Inr db3"
proof -
  have inv: "store_inv x db" by (rule reachable_inv [OF assms(1)])
  from assms(2) obtain g issuer a d where g: "parsed_grant x (VDict env) = Some g"
    and i: "authority_by_identity db (issuer_identity g) = Some issuer"
    and d: "d_issuer d = ta_id issuer" "d_sequence d = sequence g" and db1: "db1 = add_rows db a d"
    by (rule accept_delegationE)
  from i have "issuer \<in> set (authorities db)" "identity_uri issuer = issuer_identity g"
    by (auto simp: authority_by_identity_def dest: find_SomeD)
  with d have "recorded db1 g" by (auto simp: recorded_def db1 add_rows_def)
  then have "recorded db2 g" by (rule recorded_steps [OF assms(3)])
  moreover have "store_inv x db2" by (rule steps_inv [OF assms(3) accept_preserves [OF inv assms(2)]])
  ultimately show ?thesis using recorded_refused g by blast
qed

text \<open>The sample certificates of \<open>Trust_Chain\<close>, accepted into the sample store.\<close>

definition demo_envelope_doc :: dict where
  "demo_envelope_doc = [(''signer_certificate'', VStr (demo_pem 5))]"

lemma demo_envelope_at:
  "verify_grant_envelope (demo_ops ''OTHER/**'') (VDict demo_envelope_doc) (Some (demo_fp 5)) 5 =
     Inr (demo_grant ''OTHER/**'', 5)"
  by (simp add: verify_grant_envelope_def and_then_def some_or_def ensure_def demo_ops_def validate_envelope_def demo_fp_re
     demo_grant_valid demo_vals Let_def certificate_router_identity_def)
    (simp add: demo_grant_def demo_pem_def)

lemma demo_accept:
  "\<exists>db1. accept_delegation (demo_ops ''OTHER/**'') 5 ''2'' demo_envelope_doc (demo_pem 6) (Some (demo_pem 7)) demo_store = Inr db1"
proof -
  have c: "load_pem (demo_ops ns) (demo_pem n) = Some n" if "n \<in> set [4, 5, 6, 7]" for ns n
    using that by (auto simp: demo_ops_def demo_vals)
  have i: "verify_issued_by (demo_ops ns) 6 4 = Inr ()" "verify_issued_by (demo_ops ns) 7 4 = Inr ()"
    "verify_ca_profile (demo_ops ns) 6 = Inr ()"
    "verify_policy_profile (demo_ops ns) 7 ''spiffe://t/router/a/b'' = Inr ()" for ns
    by (simp_all add: demo_ops_def verify_issued_by_def verify_ca_profile_def verify_policy_profile_def
      certificate_router_identity_def and_then_def some_or_def ensure_def)
  have o: "cert_sha256 (demo_ops ns) = demo_fp" "cert_from (demo_ops ns) n = 0" "cert_until (demo_ops ns) n = 100" for ns n
    by (simp_all add: demo_ops_def)
  have g: "issuer_identity (demo_grant ns) = ''spiffe://t/router/a''" "subject_identity (demo_grant ns) = ''spiffe://t/router/a/b''"
    "max_delegation_depth (demo_grant ns) = 1" "subject_ca_sha256 (demo_grant ns) = demo_fp 6" for ns
    by (simp_all add: demo_grant_def)
  have a: "identity_uri demo_anchor = ''spiffe://t/router/a''" "ta_state demo_anchor = ''active''"
    "policy_signer_fingerprint demo_anchor = Some (demo_fp 5)" "ta_max_depth demo_anchor = 2" "ca_cert_pem demo_anchor = demo_pem 4"
    by (simp_all add: demo_anchor_def)
  have f: "fits demo_store (new_authority ''2'' demo_anchor (demo_grant ''OTHER/**'') (demo_fp 6) 100 (demo_pem 6) (Some (demo_fp 7)) (Some (demo_pem 7))) d" for d
    by (simp add: fits_def demo_store_def new_authority_def demo_anchor_def demo_grant_def demo_fp_def digit_char_def)
  have p: "demo_pem 7 \<noteq> []" by (simp add: demo_pem_def)
  have ds: "authorities demo_store = [demo_anchor]" "delegations demo_store = []" "revocations demo_store = []"
    by (simp_all add: demo_store_def)
  have e: "dget demo_envelope_doc ''signer_certificate'' = Some (VStr (demo_pem 5))"
    by (simp add: demo_envelope_doc_def dget_def)
  show ?thesis
    by (simp add: accept_delegation_def c i o g a f p ds e demo_envelope_at Let_def
        authority_by_identity_def authority_is_revoked_def parent_check_def active_delegation_def stale_sequence_def
        policy_check_def)
qed

theorem accepted_delegation_not_replayed_witness:
  "\<exists>db1. accept_delegation (demo_ops ''OTHER/**'') 5 ''2'' demo_envelope_doc (demo_pem 6) (Some (demo_pem 7)) demo_store = Inr db1 \<and>
     (\<forall>db2. accept_delegation (demo_ops ''OTHER/**'') 5 ''3'' demo_envelope_doc (demo_pem 6) (Some (demo_pem 7)) db1 \<noteq> Inr db2)"
proof -
  obtain db1 where acc: "accept_delegation (demo_ops ''OTHER/**'') 5 ''2'' demo_envelope_doc (demo_pem 6) (Some (demo_pem 7)) demo_store = Inr db1"
    using demo_accept by blast
  from accepted_delegation_not_replayed [OF demo_reachable acc rtranclp.rtrancl_refl [of "store_step (demo_ops ''OTHER/**'') ''1''"]] acc
  show ?thesis by blast
qed

subsection \<open>Decommissioning\<close>

definition decommissioned :: "db \<Rightarrow> string \<Rightarrow> bool" where
  "decommissioned db i \<longleftrightarrow> (\<exists>a \<in> set (authorities db). ta_id a = i \<and> ta_state a = ''decommissioned'')"

definition children :: "db \<Rightarrow> string \<Rightarrow> string list" where
  "children db i = map ta_id (filter (\<lambda>b. parent_id b = Some i) (authorities db))"

lemma decommissioned_lookup:
  assumes "store_inv x db" and "decommissioned db i" and "authority_by_id db i = Some a"
  shows "ta_state a = ''decommissioned''"
  using assms same_id [of "authorities db" a]
  by (fastforce simp: decommissioned_def store_inv_def authority_by_id_def dest: find_SomeD)

lemma set_state_other:
  "i \<noteq> j \<Longrightarrow> decommissioned db j \<Longrightarrow> authorities db' = set_state i st (authorities db) \<Longrightarrow> decommissioned db' j"
  by (fastforce simp: decommissioned_def set_state_map with_state_def)

lemma set_state_children: "authorities db' = set_state i st (authorities db) \<Longrightarrow> children db' j = children db j"
  by (simp add: children_def set_state_map filter_map o_def)

lemma decommissioned_step:
  assumes inv: "store_inv x db" and st: "store_step x local db db'" and dec: "decommissioned db j"
  shows "decommissioned db' j \<and> children db' j = children db j"
  using st
proof (cases rule: store_step.cases)
  case (Accept now new_id env ca pol)
  from Accept obtain g :: grant and issuer a d where i: "authority_by_identity db (issuer_identity g) = Some issuer"
    "ta_state issuer = ''active''" and a: "parent_id a = Some (ta_id issuer)" and db': "db' = add_rows db a d"
    by (rule accept_delegationE)
  from i(1) have "issuer \<in> set (authorities db)" by (auto simp: authority_by_identity_def dest: find_SomeD)
  with dec inv i(2) have "ta_id issuer \<noteq> j"
    using same_id [of "authorities db" issuer] by (force simp: decommissioned_def store_inv_def)
  with a dec show ?thesis by (auto simp: decommissioned_def children_def db' add_rows_def)
next
  case (Quarantine i)
  then obtain a where a: "authority_by_id db i = Some a" "ta_state a \<noteq> ''decommissioned''"
    "db' = db\<lparr>authorities := set_state i ''quarantined'' (authorities db)\<rparr>"
    by (auto simp: quarantine_authority_def direct_child_def split: sum.splits option.splits if_splits)
  with decommissioned_lookup [OF inv dec] have "i \<noteq> j" by auto
  with set_state_other [OF _ dec] set_state_children a(3) show ?thesis by auto
next
  case (Restore i)
  then obtain a where a: "authority_by_id db i = Some a" "ta_state a = ''quarantined''"
    "db' = db\<lparr>authorities := set_state i ''active'' (authorities db)\<rparr>"
    by (auto simp: restore_authority_def direct_child_def split: sum.splits option.splits if_splits)
  with decommissioned_lookup [OF inv dec] have "i \<noteq> j" by auto
  with set_state_other [OF _ dec] set_state_children a(3) show ?thesis by auto
next
  case (Decommission i reason)
  then have as: "authorities db' = set_state i ''decommissioned'' (authorities db)" by (auto elim: decommissionE)
  moreover from dec obtain a where "a \<in> set (authorities db)" "ta_id a = j" "ta_state a = ''decommissioned''"
    by (auto simp: decommissioned_def)
  ultimately have "with_state i ''decommissioned'' a \<in> set (authorities db')"
    "ta_id (with_state i ''decommissioned'' a) = j" "ta_state (with_state i ''decommissioned'' a) = ''decommissioned''"
    by (simp_all add: set_state_map) (simp add: with_state_def)
  then have "decommissioned db' j" unfolding decommissioned_def by blast
  with set_state_children [OF as] show ?thesis by simp
qed

lemma decommissioned_steps:
  "(store_step x local)\<^sup>*\<^sup>* db db' \<Longrightarrow> store_inv x db \<Longrightarrow> decommissioned db j \<Longrightarrow>
     decommissioned db' j \<and> children db' j = children db j"
proof (induction rule: rtranclp_induct)
  case (step y z)
  with decommissioned_step [of x y local z j] steps_inv [OF step(1)] show ?case by auto
qed simp

lemma retired_no_delegation:
  assumes "store_inv x db" and "decommissioned db i"
  shows "active_delegation db i = None"
proof -
  from assms obtain a where a: "a \<in> set (authorities db)" "ta_id a = i" "ta_state a = ''decommissioned''"
    by (auto simp: decommissioned_def)
  with assms(1) have "retired_ok db a" by (simp add: store_inv_def)
  with a active_delegation_member [of db i] show ?thesis
    by (cases "active_delegation db i") (auto simp: retired_ok_def)
qed

text \<open>No operation removes a child.\<close>

lemma children_grow:
  "(store_step x local)\<^sup>*\<^sup>* db db' \<Longrightarrow> set (children db j) \<subseteq> set (children db' j)"
proof (induction rule: rtranclp_induct)
  case (step y z)
  from step(2) have "set (children y j) \<subseteq> set (children z j)"
  proof (cases rule: store_step.cases)
    case (Accept now new_id env ca pol)
    from Accept obtain g :: grant and issuer a d where "z = add_rows y a d" by (rule accept_delegationE)
    then show ?thesis by (auto simp: children_def add_rows_def)
  next
    case (Quarantine i)
    then show ?thesis
      by (auto simp: quarantine_authority_def set_state_children [of _ i "''quarantined''"] split: sum.splits if_splits)
  next
    case (Restore i)
    then show ?thesis
      by (auto simp: restore_authority_def set_state_children [of _ i "''active''"] split: sum.splits if_splits)
  next
    case (Decommission i reason)
    then have "authorities z = set_state i ''decommissioned'' (authorities y)" by (auto elim: decommissionE)
    then show ?thesis using set_state_children by auto
  qed
  with step(3) show ?case by blast
qed simp

text \<open>
  C13: Decommissioning is final. Once an authority is decommissioned, no sequence of
  operations makes it active or quarantined again or adds an authority below it, and in every later
  state an active revocation names it and no active delegation leads to it.
\<close>

theorem decommission_final:
  assumes "reachable x local db" and "decommissioned db i" and "(store_step x local)\<^sup>*\<^sup>* db db'"
  shows "decommissioned db' i \<and> children db' i = children db i \<and> active_delegation db' i = None \<and>
    (\<exists>a \<in> set (authorities db'). ta_id a = i \<and> authority_is_revoked db' a)"
proof -
  have inv: "store_inv x db" by (rule reachable_inv [OF assms(1)])
  have inv': "store_inv x db'" by (rule steps_inv [OF assms(3) inv])
  have d: "decommissioned db' i" "children db' i = children db i"
    using decommissioned_steps [OF assms(3) inv assms(2)] by auto
  then obtain a where a: "a \<in> set (authorities db')" "ta_id a = i" "ta_state a = ''decommissioned''"
    by (auto simp: decommissioned_def)
  with inv' have r: "retired_ok db' a" by (simp add: store_inv_def)
  have "active_delegation db' i = None"
    using r a active_delegation_member [of db' i] by (cases "active_delegation db' i") (auto simp: retired_ok_def)
  moreover have "authority_is_revoked db' a"
    using r a(3) by (auto simp: retired_ok_def authority_is_revoked_def list_ex_iff)
  ultimately show ?thesis using d a by blast
qed

text \<open>Two authorities below an anchor, for the witness: one is decommissioned, then the other.\<close>

lemma demo_decommission:
  assumes "accept_delegation x now ''2'' env ca pol demo_store = Inr db1"
  shows "\<exists>db2. decommission_authority db1 ''1'' ''2'' ''lost'' = Inr db2 \<and> decommissioned db2 ''2'' \<and>
    ''2'' \<in> set (children db2 ''1'')"
proof -
  from assms obtain g :: grant and issuer a d where i: "authority_by_identity demo_store (issuer_identity g) = Some issuer"
    and a: "ta_id a = ''2''" "parent_id a = Some (ta_id issuer)" "ta_state a = ''active''" and db1: "db1 = add_rows demo_store a d"
    by (rule accept_delegationE)
  have "ta_id issuer = ''1''" "ta_id demo_anchor = ''1''"
    using i by (auto simp: demo_store_def authority_by_identity_def demo_anchor_def split: if_splits)
  with a have "parent_id a = Some ''1''" "ta_id demo_anchor = ''1''" by auto
  then have rows: "authorities db1 = [demo_anchor, a]" "revocations db1 = []"
    and d: "direct_child db1 ''1'' ''2'' = Inr a"
    using a by (simp_all add: direct_child_def authority_by_id_def db1 add_rows_def demo_store_def)
  have st: "set_state ''2'' ''decommissioned'' (authorities db1) = [demo_anchor, a\<lparr>ta_state := ''decommissioned''\<rparr>]"
    using a \<open>ta_id demo_anchor = ''1''\<close> by (simp add: rows set_state_def)
  show ?thesis using a(1,3) \<open>parent_id a = Some ''1''\<close>
    by (simp add: decommission_authority_def d rows st [unfolded rows] Let_def decommissioned_def children_def image_iff conj_disj_distribR ex_disj_distrib)
qed

theorem decommission_final_witness:
  "\<exists>db. decommissioned db ''2'' \<and> active_delegation db ''2'' = None"
proof -
  obtain db1 where acc: "accept_delegation (demo_ops ''OTHER/**'') 5 ''2'' demo_envelope_doc (demo_pem 6) (Some (demo_pem 7)) demo_store = Inr db1"
    using demo_accept by blast
  obtain db2 where dec: "decommission_authority db1 ''1'' ''2'' ''lost'' = Inr db2" "decommissioned db2 ''2''"
    using demo_decommission [OF acc] by blast
  have "reachable (demo_ops ''OTHER/**'') ''1'' db2"
    using reachable.Step [OF reachable.Step [OF demo_reachable store_step.Accept [OF acc]] store_step.Decommission [OF dec(1)]] .
  from decommission_final [OF this dec(2) rtranclp.rtrancl_refl] dec(2) show ?thesis by blast
qed

end
