(* ===== verification/Acl_Policy.thy ===== *)
theory Acl_Policy
  imports Trust_Store "HOL-Library.List_Lexorder" "HOL-Library.Char_ord" "HOL-Library.Product_Lexorder"
begin

text \<open>
  The ACL compiler (\<open>acl_policy.py\<close>) and the collection of the peers it compiles from the
  trust store (\<open>managed_acl.py\<close>). The compiled document gets a denotation, which subject is
  granted which message on which key expression, and the lemmas show what a peer is granted.
  \<open>digest\<close> is the truncated SHA-256 of a grant's identifier.
\<close>

subsection \<open>Documents\<close>

record peer_policy =
  p_grant_id :: string
  p_identity :: string
  cert_common_name :: string
  username :: string
  relationship :: string
  p_namespace :: string
  p_publish :: "string list"
  p_subscribe :: "string list"
  quarantined :: bool

record acl_rule =
  rule_id :: string
  messages :: "string list"
  flows :: "string list"
  permission :: string
  key_exprs :: "string list"

record acl_subject =
  subject_id :: string
  common_names :: "string list"
  usernames :: "string list"
  link_protocols :: "string list"

record acl_policy =
  policy_id :: string
  policy_rules :: "string list"
  policy_subjects :: "string list"

record access_control =
  enabled :: bool
  default_permission :: string
  rules :: "acl_rule list"
  subjects :: "acl_subject list"
  policies :: "acl_policy list"

datatype acl_error =
    InvalidScope
  | InvalidRoot
  | InvalidPeer
  | DuplicateUsername
  | DuplicateCommonName
  | IncompleteTrust
  | UnmanagedUplink

definition all_messages :: "string list" where
  "all_messages = [''put'', ''delete'', ''declare_subscriber'', ''query'', ''declare_queryable'', ''reply'',
     ''liveliness_token'', ''liveliness_query'', ''declare_liveliness_subscriber'']"

text \<open>\<open>PeerPolicy.__post_init__\<close>.\<close>

definition peer_valid :: "peer_policy \<Rightarrow> bool" where
  "peer_valid p \<longleftrightarrow> relationship p \<in> set [''parent'', ''child''] \<and>
     1 \<le> length (cert_common_name p) \<and> length (cert_common_name p) \<le> 255 \<and>
     list_all (\<lambda>c. segment_char c \<or> c = CHR ''/'') (cert_common_name p) \<and>
     segment_re (username p) \<and> scope_valid (p_namespace p) \<and>
     list_all scope_valid (p_publish p @ p_subscribe p)"

definition stable_id :: "(string \<Rightarrow> string) \<Rightarrow> string \<Rightarrow> string \<Rightarrow> string" where
  "stable_id digest prefix grant_id = prefix @ ''-'' @ digest grant_id"

definition rule_of :: "string \<Rightarrow> string list \<Rightarrow> string list \<Rightarrow> string list \<Rightarrow> string \<Rightarrow> acl_rule" where
  "rule_of i msgs fls exprs perm =
     \<lparr> rule_id = i, messages = msgs, flows = fls, permission = perm,
       key_exprs = sorted_list_of_set (set exprs) \<rparr>"

text \<open>\<open>namespace.removesuffix('/**')\<close>.\<close>

definition bare_namespace :: "string \<Rightarrow> string" where
  "bare_namespace ns = (if length ns \<ge> 3 \<and> drop (length ns - 3) ns = ''/**'' then take (length ns - 3) ns else ns)"

definition child_definitions :: "peer_policy \<Rightarrow> (string \<times> string list \<times> string list \<times> string list) list" where
  "child_definitions peer = [
     (''publish'', [''put'', ''delete''], [''ingress''], p_publish peer),
     (''publish-interest'', [''declare_subscriber'', ''query''], [''egress''], p_publish peer),
     (''subscribe-declare'', [''declare_subscriber'', ''query''], [''ingress''], p_subscribe peer),
     (''subscribe-deliver'', [''put'', ''reply''], [''egress''], p_subscribe peer),
     (''control-in'', [''put''], [''ingress''], [
        bare_namespace (p_namespace peer) @ ''/@config/status/v1'',
        bare_namespace (p_namespace peer) @ ''/@topology'']),
     (''control-out'', [''put'', ''declare_subscriber''], [''egress''], [
        bare_namespace (p_namespace peer) @ ''/@config/v1'',
        bare_namespace (p_namespace peer) @ ''/@config/relay/v1''])]"

definition parent_definitions :: "string \<Rightarrow> peer_policy \<Rightarrow> (string \<times> string list \<times> string list \<times> string list) list" where
  "parent_definitions local_namespace peer = [
     (''own-publish'', [''put'', ''delete''], [''egress''], p_publish peer),
     (''own-publish-interest'', [''declare_subscriber'', ''query''], [''ingress''], p_publish peer),
     (''approved-in'', [''put'', ''reply''], [''ingress''], p_subscribe peer),
     (''approved-declare'', [''declare_subscriber'', ''query''], [''egress''], p_subscribe peer),
     (''control-in'', [''put'', ''declare_subscriber''], [''ingress''], [
        local_namespace @ ''/@config/v1'',
        local_namespace @ ''/@config/relay/v1'']),
     (''control-out'', [''put''], [''egress''], [
        local_namespace @ ''/@config/status/v1'',
        local_namespace @ ''/@topology''])]"

definition peer_stem :: "(string \<Rightarrow> string) \<Rightarrow> peer_policy \<Rightarrow> string" where
  "peer_stem digest peer = stable_id digest ''peer'' (p_grant_id peer)"

definition peer_subject :: "(string \<Rightarrow> string) \<Rightarrow> peer_policy \<Rightarrow> acl_subject" where
  "peer_subject digest peer =
     \<lparr> subject_id = peer_stem digest peer @ ''-identity'', common_names = [cert_common_name peer],
       usernames = (if relationship peer = ''child'' then [username peer] else []), link_protocols = [] \<rparr>"

definition peer_rules :: "(string \<Rightarrow> string) \<Rightarrow> string \<Rightarrow> peer_policy \<Rightarrow> acl_rule list" where
  "peer_rules digest local_namespace peer =
     (let stem = peer_stem digest peer in
      if quarantined peer then
        [rule_of (stem @ ''-quarantine'') all_messages [''ingress'', ''egress''] [''**''] ''deny'']
      else map (\<lambda>(suffix, msgs, fls, scopes). rule_of (stem @ ''-'' @ suffix) msgs fls scopes ''allow'')
        (filter (\<lambda>(suffix, msgs, fls, scopes). scopes \<noteq> [])
          (if relationship peer = ''child'' then child_definitions peer
           else parent_definitions local_namespace peer)))"

definition peer_entry :: "(string \<Rightarrow> string) \<Rightarrow> string \<Rightarrow> peer_policy \<Rightarrow> acl_policy" where
  "peer_entry digest local_namespace peer =
     \<lparr> policy_id = peer_stem digest peer @ ''-policy'',
       policy_rules = map rule_id (peer_rules digest local_namespace peer),
       policy_subjects = [peer_stem digest peer @ ''-identity''] \<rparr>"

text \<open>The loop over the peers, with the user names and common names seen so far.\<close>

fun compile_peers ::
  "(string \<Rightarrow> string) \<Rightarrow> string \<Rightarrow> peer_policy list \<Rightarrow> string list \<Rightarrow> string list \<Rightarrow>
   acl_error + (acl_rule list \<times> acl_subject list \<times> acl_policy list)" where
  "compile_peers digest lns [] users cns = Inr ([], [], [])"
| "compile_peers digest lns (peer # peers) users cns =
     (if relationship peer = ''child'' \<and> username peer \<in> set users then Inl DuplicateUsername
      else if cert_common_name peer \<in> set cns then Inl DuplicateCommonName
      else case compile_peers digest lns peers
          (if relationship peer = ''child'' then username peer # users else users) (cert_common_name peer # cns) of
        Inl e \<Rightarrow> Inl e
      | Inr (rs, ss, ps) \<Rightarrow>
          Inr (peer_rules digest lns peer @ rs, peer_subject digest peer # ss, peer_entry digest lns peer # ps))"

definition local_rules :: "string \<Rightarrow> string \<Rightarrow> string \<Rightarrow> acl_rule list" where
  "local_rules local_data_scope inbound_scope federation_root = [
     rule_of ''local-data'' [''put'', ''delete'', ''declare_subscriber'', ''query'', ''declare_queryable'', ''reply'']
       [''ingress'', ''egress''] [local_data_scope] ''allow'',
     rule_of ''local-inbound'' [''put'', ''declare_subscriber'', ''query'', ''reply'']
       [''ingress'', ''egress''] [inbound_scope] ''allow'',
     rule_of ''local-admin-read'' [''query'', ''reply''] [''ingress'', ''egress''] [''@/**''] ''allow'',
     rule_of ''local-federation'' [''put'', ''declare_subscriber''] [''ingress'', ''egress''] [
       federation_root @ ''/**/@config/v1'', federation_root @ ''/**/@config/relay/v1'',
       federation_root @ ''/**/@config/status/v1'', federation_root @ ''/**/@topology''] ''allow'']"

definition compile_acl ::
  "(string \<Rightarrow> string) \<Rightarrow> string \<Rightarrow> string \<Rightarrow> string \<Rightarrow> string \<Rightarrow> peer_policy list \<Rightarrow> acl_error + access_control" where
  "compile_acl digest local_data_scope inbound_scope federation_root local_namespace peers =
     (if \<not> scope_valid local_data_scope \<or> \<not> scope_valid inbound_scope then Inl InvalidScope
      else if \<not> segment_re federation_root then Inl InvalidRoot
      else let lrules = local_rules local_data_scope inbound_scope federation_root in
        case compile_peers digest local_namespace
            (sort_key (\<lambda>p. (relationship p, p_identity p)) peers) [] [] of
          Inl e \<Rightarrow> Inl e
        | Inr (rs, ss, ps) \<Rightarrow> Inr \<lparr>
            enabled = True, default_permission = ''deny'',
            rules = lrules @ rs,
            subjects = \<lparr> subject_id = ''local-tcp'', common_names = [], usernames = [], link_protocols = [''tcp''] \<rparr> # ss,
            policies = \<lparr> policy_id = ''local-policy'', policy_rules = map rule_id lrules,
              policy_subjects = [''local-tcp''] \<rparr> # ps \<rparr>)"

subsection \<open>What a document grants\<close>

text \<open>
  A subject is granted a message in a direction on a key expression when a policy of the
  subject names a rule of the document that allows it. Everything else is denied by default.
\<close>

definition attached :: "access_control \<Rightarrow> string \<Rightarrow> acl_rule \<Rightarrow> bool" where
  "attached acl subject r \<longleftrightarrow> r \<in> set (rules acl) \<and>
     list_ex (\<lambda>p. subject \<in> set (policy_subjects p) \<and> rule_id r \<in> set (policy_rules p)) (policies acl)"

definition granted :: "access_control \<Rightarrow> string \<Rightarrow> string \<Rightarrow> string \<Rightarrow> string \<Rightarrow> bool" where
  "granted acl subject msg flow expr \<longleftrightarrow> (\<exists>r. attached acl subject r \<and> permission r = ''allow'' \<and>
     msg \<in> set (messages r) \<and> flow \<in> set (flows r) \<and> expr \<in> set (key_exprs r))"

text \<open>
  The digests of the grants in use have the length of the truncation and do not collide.
\<close>

definition digests_ok :: "(string \<Rightarrow> string) \<Rightarrow> peer_policy list \<Rightarrow> bool" where
  "digests_ok digest peers \<longleftrightarrow> list_all (\<lambda>p. length (digest (p_grant_id p)) = 20) peers \<and>
     distinct (map (digest \<circ> p_grant_id) peers)"

lemma set_rule_of [simp]: "set (key_exprs (rule_of i ms fs es p)) = set es"
  by (simp add: rule_of_def)

lemma rule_of_fields [simp]:
  "rule_id (rule_of i ms fs es p) = i" "messages (rule_of i ms fs es p) = ms" "flows (rule_of i ms fs es p) = fs"
  "permission (rule_of i ms fs es p) = p"
  by (simp_all add: rule_of_def)

lemma compile_peers_result:
  "compile_peers digest lns peers users cns = Inr (rs, ss, ps) \<Longrightarrow>
     rs = concat (map (peer_rules digest lns) peers) \<and> ss = map (peer_subject digest) peers \<and>
     ps = map (peer_entry digest lns) peers \<and> distinct (map cert_common_name peers) \<and>
     (\<forall>p \<in> set peers. cert_common_name p \<notin> set cns)"
proof (induction digest lns peers users cns arbitrary: rs ss ps rule: compile_peers.induct)
  case (2 digest lns peer peers users cns)
  define us where "us = (if relationship peer = ''child'' then username peer # users else users)"
  from "2.prems" obtain rs' ss' ps' where new: "cert_common_name peer \<notin> set cns"
    "\<not> (relationship peer = ''child'' \<and> username peer \<in> set users)"
    and rest: "compile_peers digest lns peers us (cert_common_name peer # cns) = Inr (rs', ss', ps')"
    and out: "rs = peer_rules digest lns peer @ rs'" "ss = peer_subject digest peer # ss'"
      "ps = peer_entry digest lns peer # ps'"
    by (auto simp: us_def split: if_splits sum.splits)
  from "2.IH" [OF new(2,1) rest [unfolded us_def]] new out show ?case by auto
qed simp

lemma compile_acl_result:
  assumes "compile_acl digest ds is fr lns peers = Inr acl"
  obtains sorted where "set sorted = set peers"
    "rules acl = local_rules ds is fr @ concat (map (peer_rules digest lns) sorted)"
    "subjects acl = \<lparr> subject_id = ''local-tcp'', common_names = [], usernames = [], link_protocols = [''tcp''] \<rparr>
       # map (peer_subject digest) sorted"
    "policies acl = \<lparr> policy_id = ''local-policy'', policy_rules = map rule_id (local_rules ds is fr),
       policy_subjects = [''local-tcp''] \<rparr> # map (peer_entry digest lns) sorted"
    "distinct (map cert_common_name sorted)" "default_permission acl = ''deny''"
proof -
  let ?s = "sort_key (\<lambda>p. (relationship p, p_identity p)) peers"
  from assms obtain rs ss ps where c: "compile_peers digest lns ?s [] [] = Inr (rs, ss, ps)"
    and acl: "rules acl = local_rules ds is fr @ rs"
    "subjects acl = \<lparr> subject_id = ''local-tcp'', common_names = [], usernames = [], link_protocols = [''tcp''] \<rparr> # ss"
    "policies acl = \<lparr> policy_id = ''local-policy'', policy_rules = map rule_id (local_rules ds is fr),
       policy_subjects = [''local-tcp''] \<rparr> # ps" "default_permission acl = ''deny''"
    by (auto simp: compile_acl_def Let_def split: if_splits sum.splits prod.splits)
  show ?thesis
    by (rule that [of ?s]) (use compile_peers_result [OF c] acl in auto)
qed

lemma peer_rule_ids:
  "r \<in> set (peer_rules digest lns p) \<Longrightarrow> \<exists>suffix. rule_id r = peer_stem digest p @ ''-'' @ suffix"
  by (auto simp: peer_rules_def Let_def split: if_splits)

lemma stem_eq:
  assumes "length (digest (p_grant_id p)) = 20" "length (digest (p_grant_id q)) = 20"
    and "peer_stem digest p @ ''-'' @ s = peer_stem digest q @ ''-'' @ t"
  shows "digest (p_grant_id p) = digest (p_grant_id q)"
  using assms by (simp add: peer_stem_def stable_id_def append_eq_append_conv)

lemma local_rule_ids: "r \<in> set (local_rules ds is fr) \<Longrightarrow> take 5 (rule_id r) = ''local''"
  by (auto simp: local_rules_def)

lemma stem_take: "take 5 (peer_stem digest p @ s) = ''peer-''"
  by (simp add: peer_stem_def stable_id_def)

lemma attached_peer:
  assumes acl: "compile_acl digest ds is fr lns peers = Inr acl" and ok: "digests_ok digest peers"
    and p: "p \<in> set peers"
  shows "attached acl (peer_stem digest p @ ''-identity'') r \<longleftrightarrow> r \<in> set (peer_rules digest lns p)"
proof -
  from acl obtain sp where sp: "set sp = set peers"
    and rules: "rules acl = local_rules ds is fr @ concat (map (peer_rules digest lns) sp)"
    and pol: "policies acl = \<lparr> policy_id = ''local-policy'', policy_rules = map rule_id (local_rules ds is fr),
       policy_subjects = [''local-tcp''] \<rparr> # map (peer_entry digest lns) sp"
    by (rule compile_acl_result)
  have len: "length (digest (p_grant_id q)) = 20" if "q \<in> set peers" for q
    using ok that by (simp add: digests_ok_def list_all_iff)
  have same: "q = q'" if "q \<in> set peers" "q' \<in> set peers" "peer_stem digest q @ ''-'' @ s = peer_stem digest q' @ ''-'' @ t"
    for q q' s t
    using stem_eq [OF len [OF that(1)] len [OF that(2)] that(3)] ok that(1,2)
    by (simp add: digests_ok_def distinct_map inj_on_def)
  have notlocal: "peer_stem digest p @ ''-identity'' \<noteq> ''local-tcp''"
    using stem_take [of digest p "''-identity''"] by auto
  show ?thesis
  proof
    assume "attached acl (peer_stem digest p @ ''-identity'') r"
    with notlocal obtain q where q: "q \<in> set peers" and sub: "peer_stem digest p @ ''-identity'' = peer_stem digest q @ ''-identity''"
      and r: "rule_id r \<in> set (map rule_id (peer_rules digest lns q))" and mem: "r \<in> set (rules acl)"
      by (auto simp: attached_def pol list_ex_iff peer_entry_def sp)
    from same [of p q "''identity''" "''identity''"] sub p q have "q = p" by simp
    with r obtain s where i: "rule_id r = peer_stem digest p @ ''-'' @ s" using peer_rule_ids by fastforce
    then have "r \<notin> set (local_rules ds is fr)"
      using local_rule_ids [of r] stem_take [of digest p "''-'' @ s"] by auto
    with mem obtain q' where q': "q' \<in> set peers" "r \<in> set (peer_rules digest lns q')"
      by (auto simp: rules sp)
    with peer_rule_ids [OF q'(2)] i same [OF p q'(1)] show "r \<in> set (peer_rules digest lns p)" by metis
  next
    assume "r \<in> set (peer_rules digest lns p)"
    with p show "attached acl (peer_stem digest p @ ''-identity'') r"
      by (auto simp: attached_def rules pol list_ex_iff sp peer_entry_def intro!: exI [of _ "peer_entry digest lns p"])
  qed
qed

text \<open>
  C5: A child is confined. In a compiled policy a child peer that is not quarantined may put
  or delete data towards this router only on the key expressions of its delegated publish scopes and
  on its two own control topics; what is delivered to it are its delegated subscriptions and its two
  configuration topics.
\<close>

theorem acl_child_confined:
  assumes "compile_acl digest ds is fr lns peers = Inr acl" and "digests_ok digest peers"
    and "p \<in> set peers" and "relationship p = ''child''" and "\<not> quarantined p"
  shows "(granted acl (peer_stem digest p @ ''-identity'') ''put'' ''ingress'' e \<longleftrightarrow>
      e \<in> set (p_publish p) \<or> e \<in> set [bare_namespace (p_namespace p) @ ''/@config/status/v1'',
        bare_namespace (p_namespace p) @ ''/@topology'']) \<and>
    (granted acl (peer_stem digest p @ ''-identity'') ''delete'' ''ingress'' e \<longleftrightarrow> e \<in> set (p_publish p)) \<and>
    (granted acl (peer_stem digest p @ ''-identity'') ''put'' ''egress'' e \<longleftrightarrow>
      e \<in> set (p_subscribe p) \<or> e \<in> set [bare_namespace (p_namespace p) @ ''/@config/v1'',
        bare_namespace (p_namespace p) @ ''/@config/relay/v1''])"
  unfolding granted_def attached_peer [OF assms(1-3)]
  using assms(4,5) by (auto simp: peer_rules_def child_definitions_def Let_def)

text \<open>One child peer, in force or quarantined, for the witnesses.\<close>

definition demo_peer :: "bool \<Rightarrow> peer_policy" where
  "demo_peer q = \<lparr> p_grant_id = ''g'', p_identity = ''spiffe://t/router/a/b'', cert_common_name = ''b'', username = ''b'',
     relationship = ''child'', p_namespace = ''EFDI/LTU/b/**'', p_publish = [''EFDI/LTU/b/**''],
     p_subscribe = [''EFDI/**''], quarantined = q \<rparr>"

definition demo_digest :: "string \<Rightarrow> string" where
  "demo_digest s = replicate 20 CHR ''d''"

lemma demo_compiles: "\<exists>acl. compile_acl demo_digest ''EFDI/LTU/**'' ''IN/**'' ''EFDI'' ''EFDI/LTU'' [demo_peer q] = Inr acl"
proof -
  have "scope_valid ''EFDI/LTU/**''" "scope_valid ''IN/**''" "segment_re ''EFDI''" by code_simp+
  then show ?thesis by (simp add: compile_acl_def Let_def)
qed

lemma demo_digests: "digests_ok demo_digest [demo_peer q]"
  by (simp add: digests_ok_def demo_digest_def)

theorem acl_child_confined_witness:
  "\<exists>acl. \<not> granted acl (peer_stem demo_digest (demo_peer False) @ ''-identity'') ''put'' ''ingress'' ''EFDI/LTU/c/**'' \<and>
     granted acl (peer_stem demo_digest (demo_peer False) @ ''-identity'') ''put'' ''ingress'' ''EFDI/LTU/b/**''"
proof -
  obtain acl where acl: "compile_acl demo_digest ''EFDI/LTU/**'' ''IN/**'' ''EFDI'' ''EFDI/LTU'' [demo_peer False] = Inr acl"
    using demo_compiles by blast
  have p: "p_publish (demo_peer False) = [''EFDI/LTU/b/**'']" "bare_namespace (p_namespace (demo_peer False)) = ''EFDI/LTU/b''"
    by (simp_all add: demo_peer_def bare_namespace_def)
  from acl_child_confined [OF acl demo_digests, of "demo_peer False"] show ?thesis
    unfolding p by (intro exI [of _ acl]) (simp add: demo_peer_def)
qed

text \<open>
  Quarantine cuts off. A quarantined peer, child or parent, is granted nothing, and the
  only rule attached to its subject denies every message in both directions on every key.
\<close>

theorem acl_quarantined_denied:
  assumes "compile_acl digest ds is fr lns peers = Inr acl" and "digests_ok digest peers"
    and "p \<in> set peers" and "quarantined p"
  shows "\<not> granted acl (peer_stem digest p @ ''-identity'') msg flow e \<and>
    (attached acl (peer_stem digest p @ ''-identity'') r \<longleftrightarrow>
      r = rule_of (peer_stem digest p @ ''-quarantine'') all_messages [''ingress'', ''egress''] [''**''] ''deny'')"
  unfolding granted_def attached_peer [OF assms(1-3)]
  using assms(4) by (auto simp: peer_rules_def Let_def)

theorem acl_quarantined_denied_witness:
  "\<exists>acl. \<not> granted acl (peer_stem demo_digest (demo_peer True) @ ''-identity'') ''put'' ''ingress'' ''EFDI/LTU/b/**''"
proof -
  obtain acl where acl: "compile_acl demo_digest ''EFDI/LTU/**'' ''IN/**'' ''EFDI'' ''EFDI/LTU'' [demo_peer True] = Inr acl"
    using demo_compiles by blast
  have "quarantined (demo_peer True)" by (simp add: demo_peer_def)
  with acl_quarantined_denied [OF acl demo_digests, of "demo_peer True"] show ?thesis by (intro exI [of _ acl]) simp
qed

subsection \<open>The peers of the current policy\<close>

text \<open>The newest active row of an authority.\<close>

definition newest :: "(credential \<Rightarrow> bool) \<Rightarrow> credential list \<Rightarrow> string \<Rightarrow> credential option" where
  "newest P rows authority = find (\<lambda>c. c_authority c = authority \<and> c_state c = ''active'' \<and> P c) (rev rows)"

definition transport_identity :: "db \<Rightarrow> string \<Rightarrow> credential option" where
  "transport_identity db authority = newest (\<lambda>c. c_profile c = ''transport'') (identities db) authority"

definition retired_state :: "string \<Rightarrow> bool" where
  "retired_state st \<longleftrightarrow> st \<in> set [''quarantined'', ''decommissioned'']"

definition make_peer ::
  "('c, 'z) ops_scheme \<Rightarrow> int \<Rightarrow> delegation \<Rightarrow> trust_authority \<Rightarrow> string \<Rightarrow> string \<Rightarrow> string \<Rightarrow> acl_error + peer_policy" where
  "make_peer x now d authority cn user rel = (case verify_grant_envelope x (d_envelope d) None now of
     Inl _ \<Rightarrow> Inl IncompleteTrust
   | Inr (grant, _) \<Rightarrow>
       let p = \<lparr> p_grant_id = d_grant_id d, p_identity = identity_uri authority, cert_common_name = cn,
         username = user, relationship = rel, p_namespace = namespace grant, p_publish = publish grant,
         p_subscribe = subscribe grant, quarantined = retired_state (ta_state authority) \<rparr> in
       if peer_valid p then Inr p else Inl InvalidPeer)"

text \<open>\<open>secret\<close>: the authorities for which the runtime has a link secret.\<close>

fun child_peers ::
  "('c, 'z) ops_scheme \<Rightarrow> int \<Rightarrow> db \<Rightarrow> (string \<Rightarrow> bool) \<Rightarrow> trust_authority list \<Rightarrow> acl_error + peer_policy list" where
  "child_peers x now db secret [] = Inr []"
| "child_peers x now db secret (child # cs) =
     (case (active_delegation db (ta_id child), transport_identity db (ta_id child), newest (\<lambda>c. True) (links db) (ta_id child)) of
        (Some d, Some identity, Some credential) \<Rightarrow>
          if \<not> secret (ta_id child) then Inl IncompleteTrust
          else (case make_peer x now d child (c_name identity) (c_name credential) ''child'' of
             Inl e \<Rightarrow> Inl e
           | Inr p \<Rightarrow> (case child_peers x now db secret cs of Inl e \<Rightarrow> Inl e | Inr ps \<Rightarrow> Inr (p # ps)))
      | _ \<Rightarrow> Inl IncompleteTrust)"

text \<open>
  \<open>uplink\<close>: the common name of the parent's certificate on disk and the link's user name,
  when both are there.
\<close>

definition parent_peers ::
  "('c, 'z) ops_scheme \<Rightarrow> int \<Rightarrow> db \<Rightarrow> (string \<times> string) option \<Rightarrow> trust_authority \<Rightarrow> acl_error + peer_policy list" where
  "parent_peers x now db uplink local = (case parent_id local of
     None \<Rightarrow> Inr []
   | Some pid \<Rightarrow> (case (authority_by_id db pid, active_delegation db (ta_id local), uplink) of
       (Some parent, Some d, Some (cn, user)) \<Rightarrow>
         (case make_peer x now d parent cn user ''parent'' of Inl e \<Rightarrow> Inl e | Inr p \<Rightarrow> Inr [p])
     | _ \<Rightarrow> Inl IncompleteTrust))"

text \<open>The scopes come from the router's configuration, and are arguments.\<close>

definition compile_current_policy ::
  "('c, 'z) ops_scheme \<Rightarrow> int \<Rightarrow> db \<Rightarrow> trust_authority \<Rightarrow> bool \<Rightarrow> (string \<Rightarrow> bool) \<Rightarrow> (string \<times> string) option \<Rightarrow>
   (string \<Rightarrow> string) \<Rightarrow> string \<Rightarrow> string \<Rightarrow> string \<Rightarrow> string \<Rightarrow> acl_error + access_control" where
  "compile_current_policy x now db local fabric secret uplink digest ds is fr lns =
     (if fabric \<and> parent_id local = None then Inl UnmanagedUplink
      else case child_peers x now db secret (filter (\<lambda>a. parent_id a = Some (ta_id local)) (authorities db)) of
        Inl e \<Rightarrow> Inl e
      | Inr cs \<Rightarrow> (case parent_peers x now db uplink local of
          Inl e \<Rightarrow> Inl e
        | Inr ps \<Rightarrow> compile_acl digest ds is fr lns (cs @ ps)))"

lemma child_peers_blocked:
  "c \<in> set cs \<Longrightarrow> active_delegation db (ta_id c) = None \<Longrightarrow> \<exists>e. child_peers x now db secret cs = Inl e"
proof (induction cs)
  case (Cons a cs)
  then show ?case by (cases "c = a") (auto split: option.split sum.split)
qed simp

text \<open>
  Decommissioning blocks the policy. Once a direct child has been decommissioned,
  compiling the ACL of its parent fails in every later state, for any time, secrets and scopes: the
  compiler looks for the child's active delegation, which decommissioning has revoked. The deny rule
  it means to emit for a decommissioned child is never produced, and the policy that was active
  before, with the child's grants, cannot be replaced.
\<close>

theorem decommission_blocks_policy:
  assumes "reachable x (ta_id local) db" and "decommissioned db i" and "i \<in> set (children db (ta_id local))"
    and "(store_step x (ta_id local))\<^sup>*\<^sup>* db db'"
  shows "\<exists>e. compile_current_policy y now db' local fabric secret uplink digest ds is fr lns = Inl e"
proof -
  have inv: "store_inv x db" by (rule reachable_inv [OF assms(1)])
  have inv': "store_inv x db'" by (rule steps_inv [OF assms(4) inv])
  have none: "active_delegation db' i = None" and dec: "decommissioned db' i"
    using retired_no_delegation [OF inv'] decommissioned_steps [OF assms(4) inv assms(2)] by blast+
  have "i \<in> set (children db' (ta_id local))"
    using children_grow [OF assms(4)] assms(3) by blast
  then obtain c where "c \<in> set (filter (\<lambda>a. parent_id a = Some (ta_id local)) (authorities db'))" "ta_id c = i"
    by (auto simp: children_def)
  with none child_peers_blocked obtain e where
    "child_peers y now db' secret (filter (\<lambda>a. parent_id a = Some (ta_id local)) (authorities db')) = Inl e"
    by blast
  then show ?thesis by (simp add: compile_current_policy_def)
qed

theorem decommission_blocks_policy_witness:
  "\<exists>db. decommissioned db ''2'' \<and>
     (\<exists>e. compile_current_policy (demo_ops ''OTHER/**'') 5 db demo_anchor False (\<lambda>_. True) None demo_digest
        ''EFDI/LTU/**'' ''IN/**'' ''EFDI'' ''EFDI/LTU'' = Inl e)"
proof -
  obtain db1 where acc: "accept_delegation (demo_ops ''OTHER/**'') 5 ''2'' demo_envelope_doc (demo_pem 6) (Some (demo_pem 7)) demo_store = Inr db1"
    using demo_accept by blast
  obtain db2 where dec: "decommission_authority db1 ''1'' ''2'' ''lost'' = Inr db2" "decommissioned db2 ''2''"
    "''2'' \<in> set (children db2 ''1'')"
    using demo_decommission [OF acc] by blast
  have i: "ta_id demo_anchor = ''1''" by (simp add: demo_anchor_def)
  have "reachable (demo_ops ''OTHER/**'') (ta_id demo_anchor) db2"
    unfolding i using reachable.Step [OF reachable.Step [OF demo_reachable store_step.Accept [OF acc]] store_step.Decommission [OF dec(1)]] .
  from decommission_blocks_policy [OF this dec(2) _ rtranclp.rtrancl_refl] dec(2,3) show ?thesis
    unfolding i by blast
qed

end
