(* ===== verification/Service_Status.thy ===== *)
theory Service_Status
  imports Py_Text
begin

text \<open>
  The state of the host-managed services (\<open>admin_control.py\<close>): the pid files, the
  processes behind them, and the status that is derived from them. A host is what the
  functions read: the pid directory, \<open>/proc\<close>, the environment file, the launcher's
  report of prerequisites, \<open>docker compose ps\<close> and the health probe of the NVG feed.
  Command lines are decoded text in which the separating zero octets are kept.
\<close>

subsection \<open>The host\<close>

record host =
  pid_files :: "(string \<times> string) list"
  proc :: "(string \<times> string option) list"
  env_values :: "(string \<times> string) list"
  prereqs :: "(string \<times> bool \<times> string) list"
  zenoh_ps :: "string option"
  nvg_health :: pyval

text \<open>\<open>/proc\<close> maps entry names to command lines; \<open>None\<close> is one that cannot be read.\<close>

definition proc_exists :: "host \<Rightarrow> int \<Rightarrow> bool" where
  "proc_exists h pid \<longleftrightarrow> map_of (proc h) (fmt_int pid) \<noteq> None"

definition env_get :: "host \<Rightarrow> string \<Rightarrow> string \<Rightarrow> string" where
  "env_get h key def = (case map_of (env_values h) key of None \<Rightarrow> def | Some v \<Rightarrow> v)"

record service_state =
  running :: bool
  status :: string

definition state_of :: "bool \<Rightarrow> string \<Rightarrow> service_state" where
  "state_of r st = \<lparr> running = r, status = st \<rparr>"

subsection \<open>Pid files\<close>

definition pid_record :: "host \<Rightarrow> string \<Rightarrow> int option \<times> bool" where
  "pid_record h name = (case map_of (pid_files h) name of
     None \<Rightarrow> (None, False)
   | Some text \<Rightarrow> (case int_of_str (py_strip text) of
       None \<Rightarrow> (None, False)
     | Some pid \<Rightarrow> if pid \<le> 0 then (None, True) else (Some pid, True)))"

definition pid_is_service :: "host \<Rightarrow> string \<Rightarrow> int \<Rightarrow> bool" where
  "pid_is_service h source pid = (if \<not> ends_with ''.py'' source then True
     else (case map_of (proc h) (fmt_int pid) of
       Some (Some raw) \<Rightarrow> contains_str source (map (\<lambda>c. if c = char_of (0 :: nat) then CHR '' '' else c) raw)
     | _ \<Rightarrow> False))"

definition pid_alive :: "host \<Rightarrow> string \<Rightarrow> int option \<Rightarrow> bool" where
  "pid_alive h source pid = (case pid of
     None \<Rightarrow> False | Some p \<Rightarrow> proc_exists h p \<and> pid_is_service h source p)"

text \<open>
  The ASTERIX bundle has a pid file per child. The order in which the files are counted
  does not matter.
\<close>

definition bundle_children :: "host \<Rightarrow> string list" where
  "bundle_children h = filter (starts_with ''asterix-cat'') (map fst (pid_files h)) @
     filter (\<lambda>n. map_of (pid_files h) n \<noteq> None) [''asterix-bridge'', ''udp-ingress'']"

definition child_up :: "host \<Rightarrow> string \<Rightarrow> bool" where
  "child_up h name = (case map_of (pid_files h) name of
     None \<Rightarrow> False
   | Some text \<Rightarrow> (case int_of_str (py_strip text) of
       None \<Rightarrow> False | Some pid \<Rightarrow> pid > 0 \<and> proc_exists h pid))"

definition bundle_status :: "host \<Rightarrow> service_state" where
  "bundle_status h =
     (let present = bundle_children h;
          up = length (filter (child_up h) present);
          down = length (filter (\<lambda>n. \<not> child_up h n) present)
      in if present = [] then state_of False ''stopped''
         else if up \<noteq> 0 \<and> down = 0 then state_of True ''running''
         else if up \<noteq> 0 \<and> down \<noteq> 0 then state_of True ''degraded''
         else state_of False ''crashed'')"

subsection \<open>The NVG feed's health\<close>

text \<open>
  \<open>isinstance(v, bool) or not isinstance(v, int)\<close> and its counterpart for numbers. A missing
  key and \<open>null\<close> read the same.
\<close>

definition nonnegative_int :: "pyval option \<Rightarrow> int option" where
  "nonnegative_int v = (case v of Some (VInt i) \<Rightarrow> if i < 0 then None else Some i | _ \<Rightarrow> None)"

definition nonnegative_number :: "pyval option \<Rightarrow> real option" where
  "nonnegative_number v = (case v of
     Some (VInt i) \<Rightarrow> if i < 0 then None else Some (of_int i)
   | Some (VFloat r) \<Rightarrow> if r < 0 then None else Some r
   | _ \<Rightarrow> None)"

text \<open>An optional text field: \<open>None\<close> is a value of another type.\<close>

definition optional_text :: "pyval option \<Rightarrow> string option option" where
  "optional_text v = (case v of
     None \<Rightarrow> Some None | Some VNone \<Rightarrow> Some None | Some (VStr s) \<Rightarrow> Some (Some s) | _ \<Rightarrow> None)"

text \<open>\<open>a > b\<close> on text, by code points.\<close>

fun text_less :: "string \<Rightarrow> string \<Rightarrow> bool" where
  "text_less s [] \<longleftrightarrow> False"
| "text_less [] (c # t) \<longleftrightarrow> True"
| "text_less (a # s) (b # t) \<longleftrightarrow> (of_char a :: nat) < of_char b \<or> a = b \<and> text_less s t"

definition pull_stale_seconds :: real where
  "pull_stale_seconds = 60"

definition classify_health :: "pyval \<Rightarrow> string" where
  "classify_health health = (case health of
     VDict d \<Rightarrow>
       if dget d ''status'' \<noteq> Some (VStr ''ok'') then ''health-unavailable''
       else (case dget d ''feed_requests'' of
         Some (VDict f) \<Rightarrow>
           (case (nonnegative_int (dget d ''tracks''), nonnegative_int (dget f ''successful_requests''),
                  nonnegative_int (dget f ''unauthorized_requests'')) of
              (Some _, Some successful, Some _) \<Rightarrow>
                (case (optional_text (dget f ''last_successful_request''),
                       optional_text (dget f ''last_unauthorized_request'')) of
                   (Some last_success, Some last_unauthorized) \<Rightarrow>
                     if (case (last_unauthorized, last_success) of
                          (None, _) \<Rightarrow> False | (Some _, None) \<Rightarrow> True | (Some u, Some s) \<Rightarrow> text_less s u)
                     then ''auth-failed''
                     else if successful = 0 then ''waiting-for-client''
                     else (case nonnegative_number (dget f ''seconds_since_last_success'') of
                       None \<Rightarrow> ''health-unavailable''
                     | Some age \<Rightarrow> if age > pull_stale_seconds then ''client-stale'' else ''client-connected'')
                 | _ \<Rightarrow> ''health-unavailable'')
            | _ \<Rightarrow> ''health-unavailable'')
       | _ \<Rightarrow> ''health-unavailable'')
   | _ \<Rightarrow> ''health-unavailable'')"

subsection \<open>The status of a service\<close>

definition required_keys :: "(string \<times> string list) list" where
  "required_keys =
    [(''sitaware'', [''SITAWARE_URL'', ''SITAWARE_API_PATH'']),
     (''intcore_layer'', [''INTCORE_URL'', ''INTCORE_API_KEY'', ''INTCORE_TOPIC_ID'']),
     (''nffi_layer'', [''NFFI_LAYER_CONNECT'']),
     (''ffi_layer'', [''FFI_LAYER_CONNECT'']),
     (''nffi-bridge'', [''NFFI_HOST'', ''NFFI_PORT'']),
     (''ffi-bridge'', [''FFI_HOST'', ''FFI_PORT''])]"

definition service_required :: "host \<Rightarrow> string \<Rightarrow> string list" where
  "service_required h name =
     (if name = ''sitaware'' \<and> env_get h ''SITAWARE_DISCOVER'' [] = ''1'' then []
      else case map_of required_keys name of None \<Rightarrow> [] | Some ks \<Rightarrow> ks)"

definition blocked_reason :: "host \<Rightarrow> string \<Rightarrow> string" where
  "blocked_reason h name = (case map_of (prereqs h) name of
     None \<Rightarrow> []
   | Some (ready, hint) \<Rightarrow> if ready then []
       else if hint \<noteq> [] then hint else ''required configuration is missing'')"

definition service_status :: "host \<Rightarrow> (string \<Rightarrow> string) \<Rightarrow> string \<Rightarrow> service_state" where
  "service_status h sources name =
     (if name = ''asterix'' then bundle_status h
      else case pid_record h name of (pid, pid_file_present) \<Rightarrow>
        let required = service_required h name;
            proc_there = (case pid of None \<Rightarrow> False | Some p \<Rightarrow> proc_exists h p) in
        if required \<noteq> [] \<and> \<not> list_all (\<lambda>key. env_get h key [] \<noteq> []) required then state_of False ''needs-config''
        else if blocked_reason h name \<noteq> [] \<and> \<not> proc_there then state_of False ''needs-config''
        else if name = ''zenoh'' then
          (case zenoh_ps h of
             None \<Rightarrow> state_of False ''unavailable''
           | Some out \<Rightarrow>
               let st = (if py_strip out \<noteq> [] then py_strip out else ''stopped'') in
               state_of (contains_str ''up'' (py_lower st) \<or> contains_str ''healthy'' (py_lower st)) st)
        else if pid_alive h (sources name) pid then
          (if name = ''sitaware-hq-nvg'' then state_of True (classify_health (nvg_health h))
           else state_of True ''running'')
        else if pid_file_present then state_of False ''crashed''
        else state_of False ''stopped'')"

lemma running_state_of [simp]: "running (state_of r st) = r" "status (state_of r st) = st"
  by (simp_all add: state_of_def)

text \<open>
  A service reported as stopped or crashed has no process of its own behind its pid file.
\<close>

lemma crashed_not_alive:
  assumes "status (service_status h sources name) = ''crashed''" and "name \<noteq> ''asterix''" and "name \<noteq> ''zenoh''"
  shows "\<not> running (service_status h sources name)" "snd (pid_record h name)"
    "\<not> pid_alive h (sources name) (fst (pid_record h name))"
proof -
  have "classify_health v \<noteq> ''crashed''" for v
    by (simp add: classify_health_def split: pyval.split option.split prod.split)
  with assms show "\<not> running (service_status h sources name)" "snd (pid_record h name)"
    "\<not> pid_alive h (sources name) (fst (pid_record h name))"
    by (auto simp: service_status_def Let_def split: if_splits prod.splits)
qed

end
