(* ===== verification/Supervisor.thy ===== *)
theory Supervisor
  imports Service_Status "HOL-Library.List_Lexorder" "HOL-Library.Char_ord"
begin

text \<open>
  The supervisor (\<open>supervisor.py\<close>): one sweep over the watched services, and the loop of
  sweeps. What a sweep reads of the world is a \<open>probe\<close> per service: the host when the
  service is visited, the outcome of \<open>start.sh\<close>, the polls that follow, and the clock after
  them. Times are reals. The lemmas show when a service is started, that a crashed service is
  started within the longest backoff, and what the backoff does not do.
\<close>

subsection \<open>Watched services\<close>

definition service_kind :: "string \<Rightarrow> string" where
  "service_kind source =
     (if starts_with ''layers/'' source then ''layer''
      else if starts_with ''protocols/'' source then ''protocol''
      else if starts_with ''bridges/'' source then ''bridge''
      else ''infrastructure'')"

definition supervisable :: "string list \<Rightarrow> (string \<Rightarrow> string) \<Rightarrow> string list" where
  "supervisable service_names sources =
     sort (filter (\<lambda>n. service_kind (sources n) \<in> set [''bridge'', ''protocol'', ''layer'']) (remdups service_names))"

subsection \<open>Orphans\<close>

text \<open>\<open>Path(s).name\<close>.\<close>

definition path_name :: "string \<Rightarrow> string" where
  "path_name s = (let parts = filter (\<lambda>p. p \<noteq> [] \<and> p \<noteq> ''.'') (py_split CHR ''/'' s) in
     if parts = [] then [] else last parts)"

definition is_instance :: "string \<Rightarrow> string \<Rightarrow> bool" where
  "is_instance source raw =
     (let argv = filter (\<lambda>part. part \<noteq> []) (py_split (char_of (0 :: nat)) raw) in
      \<not> length argv < 2 \<and> starts_with ''python'' (path_name (hd argv)) \<and>
      list_ex (\<lambda>arg. arg = source \<or> ends_with (''/'' @ source) arg) (tl argv))"

fun orphan_loop :: "string \<Rightarrow> int option \<Rightarrow> int \<Rightarrow> (string \<times> string option) list \<Rightarrow> int list option" where
  "orphan_loop source known self [] = Some []"
| "orphan_loop source known self ((entry, cmdline) # es) =
     (if \<not> py_isdigit entry then orphan_loop source known self es
      else case int_of_str entry of
        None \<Rightarrow> None
      | Some pid \<Rightarrow>
          if Some pid = known \<or> pid = self then orphan_loop source known self es
          else (case cmdline of
              None \<Rightarrow> orphan_loop source known self es
            | Some raw \<Rightarrow> if is_instance source raw
                then map_option ((#) pid) (orphan_loop source known self es)
                else orphan_loop source known self es))"

definition orphan_pids :: "host \<Rightarrow> (string \<Rightarrow> string) \<Rightarrow> int \<Rightarrow> string \<Rightarrow> int list option" where
  "orphan_pids h sources self name =
     (if \<not> ends_with ''.py'' (sources name) then Some []
      else orphan_loop (sources name)
        (case map_of (pid_files h) name of None \<Rightarrow> None | Some text \<Rightarrow> int_of_str (py_strip text))
        self (proc h))"

lemma orphan_loop_none:
  assumes "orphan_loop source known self es = Some []" and "(entry, Some raw) \<in> set es"
    and "py_isdigit entry" and "int_of_str entry = Some pid" and "Some pid \<noteq> known" and "pid \<noteq> self"
  shows "\<not> is_instance source raw"
  using assms by (induction source known self es rule: orphan_loop.induct) (auto split: if_splits option.splits)

subsection \<open>Backoff\<close>

text \<open>
  An integer in a product with a float is converted first: \<open>None\<close> is the
  \<open>OverflowError\<close> of one that rounds beyond the largest float.
\<close>

definition int_to_float :: "int \<Rightarrow> real option" where
  "int_to_float i = (if \<bar>i\<bar> \<ge> 2 ^ 1024 - 2 ^ 970 then None else Some (of_int i))"

definition backoff_base :: real where
  "backoff_base = 15"

definition backoff_max :: real where
  "backoff_max = 600"

definition backoff :: "nat \<Rightarrow> real option" where
  "backoff failures = (case int_to_float (2 ^ (failures - 1)) of
     None \<Rightarrow> None | Some f \<Rightarrow> Some (min (backoff_base * f) backoff_max))"

lemma backoff_overflow: "backoff k = None \<longleftrightarrow> 1024 < k"
proof -
  have "(2 :: int) ^ 1024 - 2 ^ 970 \<le> 2 ^ (k - 1) \<longleftrightarrow> 1024 \<le> k - 1"
  proof
    assume "(2 :: int) ^ 1024 - 2 ^ 970 \<le> 2 ^ (k - 1)"
    moreover have "(2 :: int) ^ 1023 < 2 ^ 1024 - 2 ^ 970" by code_simp
    ultimately have "(2 :: int) ^ 1023 < 2 ^ (k - 1)" by linarith
    then have "1023 < k - 1" by (rule power_less_imp_less_exp [rotated]) simp
    then show "1024 \<le> k - 1" by simp
  next
    assume "1024 \<le> k - 1"
    then have "(2 :: int) ^ 1024 \<le> 2 ^ (k - 1)" by (rule power_increasing) simp
    then show "(2 :: int) ^ 1024 - 2 ^ 970 \<le> 2 ^ (k - 1)"
      using zero_le_power [of "2 :: int" 970] by linarith
  qed
  then show ?thesis by (auto simp: backoff_def int_to_float_def)
qed

lemma backoff_bounds:
  assumes "backoff k = Some d"
  shows "15 \<le> d" "d \<le> 600"
proof -
  have "(1 :: real) \<le> 2 ^ (k - 1)" by simp
  then have "(15 :: real) \<le> 15 * 2 ^ (k - 1)" by linarith
  with assms show "15 \<le> d" "d \<le> 600"
    by (auto simp: backoff_def int_to_float_def backoff_base_def backoff_max_def split: if_splits)
qed


subsection \<open>A sweep\<close>

record entry =
  failures :: nat
  next_attempt :: real
  started_at :: real

definition new_entry :: entry where
  "new_entry = \<lparr> failures = 0, next_attempt = 0, started_at = 0 \<rparr>"

record probe =
  p_host :: host
  p_ok :: bool
  p_deadline :: real
  p_polls :: "(bool \<times> real) list"
  p_clock :: real

record config =
  start_stopped :: bool
  dry_run :: bool
  selected :: "string list"
  sources :: "string \<Rightarrow> string"
  own_pid :: int

datatype action = Adopt string int | Start string

primrec action_name :: "action \<Rightarrow> string" where
  "action_name (Adopt n pid) = n"
| "action_name (Start n) = n"

text \<open>
  The readings of status and clock, in order; the list ends with the reading at which the
  loop returns.
\<close>

fun wait_running :: "real \<Rightarrow> (bool \<times> real) list \<Rightarrow> bool" where
  "wait_running deadline [] = False"
| "wait_running deadline ((up, now) # polls) =
     (if up then True else if now \<ge> deadline then False else wait_running deadline polls)"

definition stable_after :: real where
  "stable_after = 60"

definition stable_again :: "real \<Rightarrow> entry \<Rightarrow> bool" where
  "stable_again now e \<longleftrightarrow> failures e \<noteq> 0 \<and> started_at e \<noteq> 0 \<and> now - started_at e \<ge> stable_after"

definition wanted :: "config \<Rightarrow> string \<Rightarrow> string \<Rightarrow> bool" where
  "wanted cfg name st =
     (if st = ''crashed'' then True
      else start_stopped cfg \<and> st = ''stopped'' \<and> name \<in> set (selected cfg))"

text \<open>The restart: the new entry, and whether computing the backoff raised.\<close>

definition restart :: "probe \<Rightarrow> entry \<Rightarrow> entry \<times> bool" where
  "restart p e =
     (if p_ok p \<and> wait_running (p_deadline p) (p_polls p)
      then (\<lparr> failures = 0, next_attempt = 0, started_at = p_clock p \<rparr>, False)
      else let e = e\<lparr>failures := failures e + 1\<rparr> in
        (case backoff (failures e) of
           None \<Rightarrow> (e, True)
         | Some delay \<Rightarrow> (e\<lparr>next_attempt := p_clock p + delay, started_at := 0\<rparr>, False)))"

definition sweep_service :: "config \<Rightarrow> real \<Rightarrow> probe \<Rightarrow> string \<Rightarrow> entry \<Rightarrow> entry \<times> action list \<times> bool" where
  "sweep_service cfg now p name e =
     (let st = service_status (p_host p) (sources cfg) name in
      if running st then
        (if stable_again now e then e\<lparr>failures := 0, started_at := 0\<rparr> else e, [], False)
      else if \<not> wanted cfg name (status st) then (e, [], False)
      else if now < next_attempt e then (e, [], False)
      else (case orphan_pids (p_host p) (sources cfg) (own_pid cfg) name of
          None \<Rightarrow> (e, [], True)
        | Some (pid # _) \<Rightarrow> (e, if dry_run cfg then [] else [Adopt name pid], False)
        | Some [] \<Rightarrow>
            if dry_run cfg then (e, [], False)
            else (case restart p e of (e', raised) \<Rightarrow> (e', [Start name], raised))))"

definition entry_of :: "(string \<rightharpoonup> entry) \<Rightarrow> string \<Rightarrow> entry" where
  "entry_of state name = (case state name of None \<Rightarrow> new_entry | Some e \<Rightarrow> e)"

fun sweep_names ::
  "config \<Rightarrow> real \<Rightarrow> (string \<Rightarrow> probe) \<Rightarrow> string list \<Rightarrow> (string \<rightharpoonup> entry) \<Rightarrow> (string \<rightharpoonup> entry) \<times> action list \<times> bool" where
  "sweep_names cfg now probes [] state = (state, [], False)"
| "sweep_names cfg now probes (name # names) state =
     (case sweep_service cfg now (probes name) name (entry_of state name) of
        (e, acts, raised) \<Rightarrow>
          if raised then (state(name \<mapsto> e), acts, True)
          else (case sweep_names cfg now probes names (state(name \<mapsto> e)) of
              (state', acts', raised') \<Rightarrow> (state', acts @ acts', raised')))"

text \<open>
  The main loop: a sweep that raises is logged and the next one follows. The result has the
  actions of every sweep and whether it was cut short.
\<close>

fun supervise ::
  "config \<Rightarrow> string list \<Rightarrow> (real \<times> (string \<Rightarrow> probe)) list \<Rightarrow> (string \<rightharpoonup> entry) \<Rightarrow> (string \<rightharpoonup> entry) \<times> (action list \<times> bool) list" where
  "supervise cfg names [] state = (state, [])"
| "supervise cfg names ((now, probes) # sweeps) state =
     (case sweep_names cfg now probes names state of
        (state', acts, raised) \<Rightarrow>
          (case supervise cfg names sweeps state' of
             (state'', rest) \<Rightarrow> (state'', (acts, raised) # rest)))"

subsection \<open>One service in a sweep\<close>

lemma entry_of_upd [simp]: "entry_of (state(n \<mapsto> e)) m = (if m = n then e else entry_of state m)"
  by (simp add: entry_of_def)

lemma sweep_names_other:
  assumes "sweep_names cfg now probes names state = (state', acts, raised)" and "n \<notin> set names"
  shows "state' n = state n" "a \<in> set acts \<Longrightarrow> action_name a \<noteq> n"
proof -
  have "state' n = state n \<and> (\<forall>a \<in> set acts. action_name a \<noteq> n)"
    using assms
  proof (induction names arbitrary: state acts)
    case (Cons m ms)
    obtain e as r where s: "sweep_service cfg now (probes m) m (entry_of state m) = (e, as, r)"
      by (cases "sweep_service cfg now (probes m) m (entry_of state m)") auto
    then have "\<forall>a \<in> set as. action_name a = m"
      by (auto simp: sweep_service_def Let_def split: if_splits option.splits list.splits prod.splits)
    with Cons s show ?case by (fastforce split: if_splits prod.splits)
  qed simp
  then show "state' n = state n" "a \<in> set acts \<Longrightarrow> action_name a \<noteq> n" by auto
qed

text \<open>
  What a sweep that reaches a service does to its entry, and the actions it takes for it.
\<close>

lemma sweep_names_visit:
  assumes "sweep_names cfg now probes names state = (state', acts, raised)"
    and "distinct names" and "n \<in> set names" and "\<not> raised"
  obtains e as where "sweep_service cfg now (probes n) n (entry_of state n) = (e, as, False)"
    and "state' n = Some e" and "filter (\<lambda>a. action_name a = n) acts = as"
proof -
  have "\<exists>e as. sweep_service cfg now (probes n) n (entry_of state n) = (e, as, False) \<and>
      state' n = Some e \<and> filter (\<lambda>a. action_name a = n) acts = as"
    using assms
  proof (induction names arbitrary: state acts)
    case (Cons m ms)
    obtain e as r where s: "sweep_service cfg now (probes m) m (entry_of state m) = (e, as, r)"
      by (cases "sweep_service cfg now (probes m) m (entry_of state m)") auto
    then have own: "\<forall>a \<in> set as. action_name a = m"
      by (auto simp: sweep_service_def Let_def split: if_splits option.splits list.splits prod.splits)
    from Cons.prems s obtain st acts' where rec: "sweep_names cfg now probes ms (state(m \<mapsto> e)) = (state', acts', raised)"
      and acts: "acts = as @ acts'" and r: "\<not> r"
      by (auto split: if_splits prod.splits)
    show ?case
    proof (cases "n = m")
      case True
      with Cons.prems have "n \<notin> set ms" by auto
      from sweep_names_other [OF rec this] have "state' n = Some e" "filter (\<lambda>a. action_name a = n) acts' = []"
        using True by (auto simp: filter_empty_conv)
      with own True s r acts show ?thesis by (auto simp: filter_id_conv)
    next
      case False
      with Cons.prems have "n \<in> set ms" "distinct ms" by auto
      have "filter (\<lambda>a. action_name a = n) acts = filter (\<lambda>a. action_name a = n) acts'"
        using own acts False by (auto simp: filter_empty_conv)
      with Cons.IH [OF rec \<open>distinct ms\<close> \<open>n \<in> set ms\<close> Cons.prems(4)] False show ?thesis
        unfolding entry_of_upd by simp
    qed
  qed simp
  with that show thesis by blast
qed

lemma sweep_names_action:
  assumes "sweep_names cfg now probes names state = (state', acts, raised)" and "distinct names" and "a \<in> set acts"
  obtains e as r where "sweep_service cfg now (probes (action_name a)) (action_name a) (entry_of state (action_name a)) = (e, as, r)"
    and "a \<in> set as" and "action_name a \<in> set names"
proof -
  have "\<exists>e as r. sweep_service cfg now (probes (action_name a)) (action_name a) (entry_of state (action_name a)) = (e, as, r)
      \<and> a \<in> set as \<and> action_name a \<in> set names"
    using assms
  proof (induction names arbitrary: state acts)
    case (Cons m ms)
    obtain e as r where s: "sweep_service cfg now (probes m) m (entry_of state m) = (e, as, r)"
      by (cases "sweep_service cfg now (probes m) m (entry_of state m)") auto
    then have own: "\<forall>a \<in> set as. action_name a = m"
      by (auto simp: sweep_service_def Let_def split: if_splits option.splits list.splits prod.splits)
    show ?case
    proof (cases "a \<in> set as")
      case True
      with own s show ?thesis by fastforce
    next
      case False
      with Cons.prems s obtain acts' where rec: "sweep_names cfg now probes ms (state(m \<mapsto> e)) = (state', acts', raised)"
        and a: "a \<in> set acts'"
        by (auto split: if_splits prod.splits)
      with Cons obtain e' as' r' where IH: "sweep_service cfg now (probes (action_name a)) (action_name a)
          (entry_of (state(m \<mapsto> e)) (action_name a)) = (e', as', r')" "a \<in> set as'" "action_name a \<in> set ms"
        by (metis distinct.simps(2))
      with Cons.prems(2) have "action_name a \<noteq> m" by auto
      with IH show ?thesis unfolding entry_of_upd by auto
    qed
  qed simp
  with that show thesis by blast
qed

text \<open>A service that is down: crashed, and no process of it is left.\<close>

definition down :: "config \<Rightarrow> string \<Rightarrow> probe \<Rightarrow> bool" where
  "down cfg name p \<longleftrightarrow>
     (let st = service_status (p_host p) (sources cfg) name in status st = ''crashed'' \<and> \<not> running st) \<and>
     orphan_pids (p_host p) (sources cfg) (own_pid cfg) name = Some []"

lemma sweep_service_down:
  "down cfg n p \<Longrightarrow> \<not> dry_run cfg \<Longrightarrow> sweep_service cfg now p n e =
     (if now < next_attempt e then (e, [], False)
      else (case restart p e of (e', raised) \<Rightarrow> (e', [Start n], raised)))"
  by (auto simp: down_def sweep_service_def Let_def wanted_def)

subsection \<open>When a service is started\<close>

text \<open>
  C6: No start without cause. A sweep starts a service only outside a dry run, when the
  service has crashed, or, in a boot sweep, is stopped and selected; its backoff has run out; and
  no process other than the supervisor and the one its pid file names runs the service's script.
\<close>

theorem sweep_start_justified:
  assumes "sweep_names cfg now probes names state = (state', acts, raised)" and "distinct names"
    and "Start n \<in> set acts"
  shows "\<not> dry_run cfg \<and> n \<in> set names \<and> next_attempt (entry_of state n) \<le> now \<and>
    (let h = p_host (probes n); st = service_status h (sources cfg) n in
      \<not> running st \<and>
      (status st = ''crashed'' \<or> start_stopped cfg \<and> status st = ''stopped'' \<and> n \<in> set (selected cfg)) \<and>
      (\<forall>entry raw pid. ends_with ''.py'' (sources cfg n) \<and> (entry, Some raw) \<in> set (proc h) \<and> py_isdigit entry \<and>
         int_of_str entry = Some pid \<and> pid \<noteq> own_pid cfg \<and>
         Some pid \<noteq> Option.bind (map_of (pid_files h) n) (\<lambda>text. int_of_str (py_strip text)) \<longrightarrow>
         \<not> is_instance (sources cfg n) raw))"
proof -
  obtain e as r where s: "sweep_service cfg now (probes n) n (entry_of state n) = (e, as, r)"
    and a: "Start n \<in> set as" and n: "n \<in> set names"
    using sweep_names_action [OF assms] by auto
  let ?h = "p_host (probes n)"
  have facts: "\<not> dry_run cfg" "next_attempt (entry_of state n) \<le> now"
      "\<not> running (service_status ?h (sources cfg) n)"
      "wanted cfg n (status (service_status ?h (sources cfg) n))"
      "orphan_pids ?h (sources cfg) (own_pid cfg) n = Some []"
    using s a by (auto simp: sweep_service_def Let_def split: if_splits option.splits list.splits prod.splits)
  have "\<not> is_instance (sources cfg n) raw"
    if "ends_with ''.py'' (sources cfg n)" "(entry, Some raw) \<in> set (proc ?h)" "py_isdigit entry"
      "int_of_str entry = Some pid" "pid \<noteq> own_pid cfg"
      "Some pid \<noteq> Option.bind (map_of (pid_files ?h) n) (\<lambda>text. int_of_str (py_strip text))" for entry raw pid
    using facts(5) that(1) orphan_loop_none [OF _ that(2-4) _ that(5)] that(6)
    by (auto simp: orphan_pids_def Option.bind_def split: option.splits)
  with facts n show ?thesis by (auto simp: wanted_def Let_def split: if_splits)
qed

subsection \<open>Reachable states\<close>

text \<open>The states after any number of sweeps, with the time of the last clock reading.\<close>

inductive supervised :: "config \<Rightarrow> string list \<Rightarrow> real \<Rightarrow> (string \<rightharpoonup> entry) \<Rightarrow> bool" for cfg names where
  Boot: "0 \<le> t \<Longrightarrow> supervised cfg names t Map.empty"
| Sweep: "supervised cfg names t state \<Longrightarrow> t \<le> now \<Longrightarrow> (\<And>n. now \<le> p_clock (probes n) \<and> p_clock (probes n) \<le> t') \<Longrightarrow>
    sweep_names cfg now probes names state = (state', acts, raised) \<Longrightarrow> supervised cfg names t' state'"

definition entry_ok :: "real \<Rightarrow> entry \<Rightarrow> bool" where
  "entry_ok t e \<longleftrightarrow> (failures e \<noteq> 0 \<longrightarrow> started_at e = 0) \<and> next_attempt e \<le> t + backoff_max"

lemma entry_ok_mono: "entry_ok t e \<Longrightarrow> t \<le> t' \<Longrightarrow> entry_ok t' e"
  by (auto simp: entry_ok_def)

lemma restart_ok:
  assumes "restart p e = (e', raised)" and "entry_ok t e" and "t \<le> p_clock p" and "0 \<le> t"
  shows "entry_ok (p_clock p) e'"
proof (cases "p_ok p \<and> wait_running (p_deadline p) (p_polls p)")
  case True
  with assms show ?thesis by (auto simp: restart_def entry_ok_def backoff_max_def)
next
  case False
  show ?thesis
  proof (cases "backoff (failures e + 1)")
    case None
    then have "failures e \<noteq> 0" using backoff_overflow [of "failures e + 1"] by auto
    with assms False None show ?thesis by (auto simp: restart_def entry_ok_def Let_def)
  next
    case (Some d)
    with assms False backoff_bounds [OF Some] show ?thesis
      by (auto simp: restart_def entry_ok_def Let_def backoff_max_def)
  qed
qed

lemma sweep_service_ok:
  assumes "sweep_service cfg now p n e = (e', as, raised)" and "entry_ok t e" and "t \<le> now" and "now \<le> p_clock p" and "0 \<le> t"
  shows "entry_ok (p_clock p) e'"
proof -
  have "entry_ok (p_clock p) e" using assms entry_ok_mono by (meson order_trans)
  then show ?thesis
    using assms restart_ok [of p e e' raised now] entry_ok_mono [of t e now]
    by (auto simp: sweep_service_def Let_def entry_ok_def split: if_splits option.splits list.splits prod.splits)
qed

lemma sweep_names_ok:
  assumes "sweep_names cfg now probes names state = (state', acts, raised)"
    and "\<And>n. entry_ok t (entry_of state n)" and "t \<le> now" and "\<And>n. now \<le> p_clock (probes n) \<and> p_clock (probes n) \<le> t'"
    and "0 \<le> t" and "distinct names"
  shows "entry_ok t' (entry_of state' n)"
proof -
  have "t \<le> t'" using assms(3,4) by (meson order_trans)
  have "entry_ok t' (entry_of state' n)"
    if "sweep_names cfg now probes ms state = (state', acts, raised)" "distinct ms"
      "\<And>n. n \<in> set ms \<Longrightarrow> entry_ok t (entry_of state n)" "\<And>n. entry_ok t' (entry_of state n)" for ms
    using that
  proof (induction ms arbitrary: state acts)
    case (Cons m ms)
    obtain e as r where s: "sweep_service cfg now (probes m) m (entry_of state m) = (e, as, r)"
      by (cases "sweep_service cfg now (probes m) m (entry_of state m)") auto
    have "entry_ok (p_clock (probes m)) e"
      using sweep_service_ok [OF s] Cons.prems(3) assms(3-5) by auto
    then have e: "entry_ok t' e" using entry_ok_mono assms(4) by blast
    have ms: "entry_ok t (entry_of (state(m \<mapsto> e)) k)" if "k \<in> set ms" for k
      using Cons.prems(2,3) that unfolding entry_of_upd by auto
    have all: "entry_ok t' (entry_of (state(m \<mapsto> e)) k)" for k
      using Cons.prems(4) e unfolding entry_of_upd by auto
    show ?case
    proof (cases r)
      case True
      with s Cons.prems(1) have "state' = state(m \<mapsto> e)" by simp
      then show ?thesis using all by (simp only:)
    next
      case False
      with s Cons.prems(1) obtain acts' where "sweep_names cfg now probes ms (state(m \<mapsto> e)) = (state', acts', raised)"
        by (auto split: prod.splits)
      from Cons.IH [OF this _ ms all] Cons.prems(2) show ?thesis by simp
    qed
  qed simp
  from this [OF assms(1,6)] assms(2) entry_ok_mono \<open>t \<le> t'\<close> show ?thesis by blast
qed

lemma supervised_ok:
  assumes "supervised cfg names t state" and "distinct names"
  shows "0 \<le> t \<and> entry_ok t (entry_of state n)"
  using assms
proof (induction arbitrary: n rule: supervised.induct)
  case (Boot t)
  then show ?case by (simp add: entry_of_def new_entry_def entry_ok_def backoff_max_def)
next
  case (Sweep t state now probes t' state' acts raised)
  then have "t \<le> t'" by (meson order_trans)
  then show ?case
    using sweep_names_ok [OF Sweep.hyps(4) _ Sweep.hyps(2,3)] Sweep.IH Sweep.prems by fastforce
qed

text \<open>
  C15: Bounded backoff, dead probation. In every state the supervisor can reach, the next
  attempt at a service is at most ten minutes after the last clock reading, and the branch that
  clears the backoff of a service that stayed up for a minute is never taken: a service with
  recorded failures has no start time, for a restart that succeeds clears the failures at once.
\<close>

theorem supervisor_invariant:
  assumes "supervised cfg names t state" and "distinct names"
  shows "next_attempt (entry_of state n) \<le> t + 600 \<and> \<not> stable_again now (entry_of state n)"
  using supervised_ok [OF assms, of n] by (auto simp: entry_ok_def stable_again_def backoff_max_def)

text \<open>One service whose pid file names a process that is gone, for the witnesses.\<close>

definition demo_host :: host where
  "demo_host = \<lparr> pid_files = [(''a'', ''7''), (''b'', ''8'')], proc = [(''1'', Some ''init''), (''self'', None)],
     env_values = [], prereqs = [], zenoh_ps = None, nvg_health = VNone \<rparr>"

definition demo_config :: config where
  "demo_config = \<lparr> start_stopped = False, dry_run = False, selected = [], sources = (\<lambda>n. ''bridges/'' @ n @ ''.py''), own_pid = 1 \<rparr>"

definition demo_probe :: "bool \<Rightarrow> real \<Rightarrow> probe" where
  "demo_probe ok clock = \<lparr> p_host = demo_host, p_ok = ok, p_deadline = clock, p_polls = [(True, clock)], p_clock = clock \<rparr>"

lemma demo_down: "down demo_config ''a'' (demo_probe ok clock)" "down demo_config ''b'' (demo_probe ok clock)"
proof -
  have s: "status (service_status demo_host (\<lambda>n. ''bridges/'' @ n @ ''.py'') n) = ''crashed'' \<and>
      \<not> running (service_status demo_host (\<lambda>n. ''bridges/'' @ n @ ''.py'') n) \<and>
      orphan_pids demo_host (\<lambda>n. ''bridges/'' @ n @ ''.py'') 1 n = Some []" if "n \<in> set [''a'', ''b'']" for n
  proof -
    have "\<forall>n \<in> set [''a'', ''b'']. status (service_status demo_host (\<lambda>n. ''bridges/'' @ n @ ''.py'') n) = ''crashed'' \<and>
      \<not> running (service_status demo_host (\<lambda>n. ''bridges/'' @ n @ ''.py'') n) \<and>
      orphan_pids demo_host (\<lambda>n. ''bridges/'' @ n @ ''.py'') 1 n = Some []" by code_simp
    with that show ?thesis by blast
  qed
  show "down demo_config ''a'' (demo_probe ok clock)" "down demo_config ''b'' (demo_probe ok clock)"
    using s [of "''a''"] s [of "''b''"] by (simp_all add: down_def demo_config_def demo_probe_def Let_def)
qed

lemma demo_not_dry: "\<not> dry_run demo_config"
  by (simp add: demo_config_def)

lemma demo_first_start:
  "sweep_names demo_config 30 (\<lambda>_. demo_probe True 30) [''a''] Map.empty =
     ([''a'' \<mapsto> \<lparr> failures = 0, next_attempt = 0, started_at = 30 \<rparr>], [Start ''a''], False)"
  by (simp add: sweep_service_down [OF demo_down(1) demo_not_dry] entry_of_def new_entry_def restart_def)
    (simp add: demo_probe_def)

theorem sweep_start_justified_witness:
  "next_attempt new_entry \<le> 30 \<and> \<not> dry_run demo_config"
  using sweep_start_justified [OF demo_first_start, of "''a''"] by (simp add: entry_of_def)

theorem supervisor_invariant_witness:
  "\<not> stable_again 90 (entry_of [''a'' \<mapsto> \<lparr> failures = 0, next_attempt = 0, started_at = 30 \<rparr>] ''a'')"
proof -
  have "supervised demo_config [''a''] 30 [''a'' \<mapsto> \<lparr> failures = 0, next_attempt = 0, started_at = 30 \<rparr>]"
    by (rule supervised.Sweep [OF supervised.Boot [OF order_refl] _ _ demo_first_start]) (simp_all add: demo_probe_def)
  from supervisor_invariant [OF this, of "''a''" 90] show ?thesis by simp
qed

subsection \<open>A crashed service is started\<close>

lemma restart_waits:
  assumes "supervise cfg names sweeps state = (state', res)" and "distinct names" and "n \<in> set names"
    and "\<not> dry_run cfg" and "\<forall>(acts, raised) \<in> set res. \<not> raised"
    and "\<forall>(now, probes) \<in> set sweeps. down cfg n (probes n)"
    and "next_attempt (entry_of state n) \<le> b" and "\<exists>(now, probes) \<in> set sweeps. b \<le> now"
  shows "\<exists>(acts, raised) \<in> set res. Start n \<in> set acts"
  using assms
proof (induction sweeps arbitrary: state res)
  case (Cons s sweeps)
  obtain now probes where s: "s = (now, probes)" by force
  obtain st acts r where sw: "sweep_names cfg now probes names state = (st, acts, r)"
    by (cases "sweep_names cfg now probes names state") auto
  with Cons.prems(1) s obtain rest where res: "res = (acts, r) # rest" and rec: "supervise cfg names sweeps st = (state', rest)"
    by (auto split: prod.splits)
  with Cons.prems have "\<not> r" "down cfg n (probes n)" using s by auto
  obtain e as where v: "sweep_service cfg now (probes n) n (entry_of state n) = (e, as, False)"
      "st n = Some e" "filter (\<lambda>a. action_name a = n) acts = as"
    using sweep_names_visit [OF sw Cons.prems(2,3) \<open>\<not> r\<close>] by blast
  show ?case
  proof (cases "now < next_attempt (entry_of state n)")
    case True
    with v(1) sweep_service_down [OF \<open>down cfg n (probes n)\<close> Cons.prems(4)] have "e = entry_of state n" by simp
    with v(2) have "entry_of st n = entry_of state n" by (simp add: entry_of_def)
    with True Cons.prems res s have "\<exists>(acts, raised) \<in> set rest. Start n \<in> set acts"
      by (intro Cons.IH [OF rec]) auto
    with res show ?thesis by auto
  next
    case False
    with v(1) sweep_service_down [OF \<open>down cfg n (probes n)\<close> Cons.prems(4)] have "as = [Start n]"
      by (auto split: prod.splits)
    with v(3) have "Start n \<in> set (filter (\<lambda>a. action_name a = n) acts)" by simp
    then have "Start n \<in> set acts" by simp
    with res show ?thesis by auto
  qed
qed simp

text \<open>
  C16: Crashed services are started again. Whatever happened before, a watched service
  that stays crashed with no process left is started by one of the following sweeps, at the latest
  by the first that begins ten minutes after the last clock reading, unless a sweep is cut short.
\<close>

theorem crashed_service_started:
  assumes "supervised cfg names t state" and "distinct names" and "n \<in> set names" and "\<not> dry_run cfg"
    and "supervise cfg names sweeps state = (state', res)" and "\<forall>(acts, raised) \<in> set res. \<not> raised"
    and "\<forall>(now, probes) \<in> set sweeps. down cfg n (probes n)" and "\<exists>(now, probes) \<in> set sweeps. t + 600 \<le> now"
  shows "\<exists>(acts, raised) \<in> set res. Start n \<in> set acts"
proof -
  have "next_attempt (entry_of state n) \<le> t + 600"
    using supervised_ok [OF assms(1,2), of n] by (simp add: entry_ok_def backoff_max_def)
  from restart_waits [OF assms(5,2,3,4,6,7) this assms(8)] show ?thesis .
qed

theorem crashed_service_started_witness:
  "\<exists>(acts, raised) \<in> set (snd (supervise demo_config [''a''] [(600, \<lambda>_. demo_probe True 600)] Map.empty)). Start ''a'' \<in> set acts"
proof -
  have run: "supervise demo_config [''a''] [(600, \<lambda>_. demo_probe True 600)] Map.empty =
      ([''a'' \<mapsto> \<lparr> failures = 0, next_attempt = 0, started_at = 600 \<rparr>], [([Start ''a''], False)])"
    by (simp add: sweep_service_down [OF demo_down(1) demo_not_dry] entry_of_def new_entry_def restart_def)
      (simp add: demo_probe_def)
  have "supervised demo_config [''a''] 0 Map.empty" by (rule supervised.Boot) simp
  from crashed_service_started [OF this _ _ demo_not_dry run, of "''a''"] show ?thesis
    unfolding run by (simp add: demo_down)
qed

subsection \<open>What the backoff does not do\<close>

text \<open>
  A flapping service is never backed off. A service that comes up at every start, stays
  up for the polls and has crashed again by the next sweep is started in every sweep, at whatever
  distance the sweeps follow each other: none of its crashes counts as a failed attempt.
\<close>

theorem flapping_never_backed_off:
  assumes "\<not> dry_run cfg"
    and "\<forall>(now, probes) \<in> set sweeps. 0 \<le> now \<and> down cfg n (probes n) \<and> p_ok (probes n) \<and>
      wait_running (p_deadline (probes n)) (p_polls (probes n))"
  shows "snd (supervise cfg [n] sweeps Map.empty) = map (\<lambda>_. ([Start n], False)) sweeps"
proof -
  have "snd (supervise cfg [n] sweeps state) = map (\<lambda>_. ([Start n], False)) sweeps"
    if "next_attempt (entry_of state n) \<le> 0" for state
    using assms(2) that
  proof (induction sweeps arbitrary: state)
    case (Cons s sweeps)
    obtain now probes where s: "s = (now, probes)" by force
    with Cons.prems have d: "down cfg n (probes n)" and now: "\<not> now < next_attempt (entry_of state n)"
      and ok: "p_ok (probes n)" "wait_running (p_deadline (probes n)) (p_polls (probes n))" by auto
    let ?e = "\<lparr> failures = 0, next_attempt = 0, started_at = p_clock (probes n) \<rparr>"
    have sw: "sweep_names cfg now probes [n] state = (state(n \<mapsto> ?e), [Start n], False)"
      using now ok by (simp add: sweep_service_down [OF d assms(1)] restart_def)
    have "next_attempt (entry_of (state(n \<mapsto> ?e)) n) \<le> 0" unfolding entry_of_upd by simp
    then have "snd (supervise cfg [n] sweeps (state(n \<mapsto> ?e))) = map (\<lambda>_. ([Start n], False)) sweeps"
      by (rule Cons.IH [rotated]) (use Cons.prems(1) in auto)
    then show ?case unfolding s supervise.simps(2) sw by (simp only: split_beta prod.sel list.map)
  qed simp
  then show ?thesis by (simp add: entry_of_def new_entry_def)
qed

theorem flapping_never_backed_off_witness:
  "snd (supervise demo_config [''a''] [(0, \<lambda>_. demo_probe True 1), (2, \<lambda>_. demo_probe True 3)] Map.empty) =
     [([Start ''a''], False), ([Start ''a''], False)]"
  using flapping_never_backed_off [OF demo_not_dry, of "[(0, \<lambda>_. demo_probe True 1), (2, \<lambda>_. demo_probe True 3)]" "''a''"]
  by (simp add: demo_down) (simp add: demo_probe_def)

text \<open>Sweeps in each of which the backoff of a service, ten minutes at most, has run out.\<close>

fun due :: "real \<Rightarrow> string \<Rightarrow> (real \<times> (string \<Rightarrow> probe)) list \<Rightarrow> bool" where
  "due b n [] \<longleftrightarrow> True"
| "due b n ((now, probes) # sweeps) \<longleftrightarrow>
     b \<le> now \<and> now \<le> p_clock (probes n) \<and> due (p_clock (probes n) + 600) n sweeps"

definition failing :: "config \<Rightarrow> string \<Rightarrow> probe \<Rightarrow> bool" where
  "failing cfg n p \<longleftrightarrow> down cfg n p \<and> \<not> (p_ok p \<and> wait_running (p_deadline p) (p_polls p))"

lemma due_mono: "due b n sweeps \<Longrightarrow> c \<le> b \<Longrightarrow> due c n sweeps"
  by (cases sweeps) auto

lemma failing_sweep:
  assumes "failing cfg n (probes n)" and "\<not> dry_run cfg" and "next_attempt (entry_of state n) \<le> now"
    and "now \<le> p_clock (probes n)" and "n \<notin> set names"
    and "sweep_names cfg now probes (n # names) state = (state', acts, raised)"
  shows "failures (entry_of state' n) = failures (entry_of state n) + 1"
    "next_attempt (entry_of state' n) \<le> p_clock (probes n) + 600"
    "1024 \<le> failures (entry_of state n) \<Longrightarrow> acts = [Start n] \<and> raised"
proof -
  let ?e = "entry_of state n"
  have sv: "sweep_service cfg now (probes n) n ?e = (case restart (probes n) ?e of (e', r) \<Rightarrow> (e', [Start n], r))"
    using assms(1-3) by (simp add: failing_def sweep_service_down)
  obtain e r where rs: "restart (probes n) ?e = (e, r)" by force
  have r: "r \<longleftrightarrow> 1024 \<le> failures ?e" and f: "failures e = failures ?e + 1"
    and na: "next_attempt e \<le> p_clock (probes n) + 600"
    using rs assms(1,3,4) backoff_overflow [of "failures ?e + 1"] backoff_bounds [of "failures ?e + 1"]
    by (auto simp: restart_def failing_def Let_def split: if_splits option.splits)
  have st: "entry_of state' n = e"
  proof (cases r)
    case True
    with assms(6) sv rs have "state' = state(n \<mapsto> e)" by simp
    then show ?thesis by (simp add: entry_of_def)
  next
    case False
    with assms(6) sv rs obtain acts' where "sweep_names cfg now probes names (state(n \<mapsto> e)) = (state', acts', raised)"
      by (auto split: prod.splits)
    from sweep_names_other(1) [OF this assms(5)] show ?thesis by (simp add: entry_of_def)
  qed
  show "failures (entry_of state' n) = failures ?e + 1" "next_attempt (entry_of state' n) \<le> p_clock (probes n) + 600"
    using st f na by simp_all
  show "acts = [Start n] \<and> raised" if "1024 \<le> failures ?e"
    using assms(6) sv rs r that by simp
qed

text \<open>
  A service that cannot start stops the supervision of the others. When the first
  watched service fails every start, the 1025th attempt overflows the computation of its backoff:
  that sweep and every later one in which the service is due are cut short right after its start,
  and no other service is looked at.
\<close>

theorem overflow_starves_others:
  assumes "distinct (n # names)" and "\<not> dry_run cfg"
    and "\<forall>(now, probes) \<in> set sweeps. failing cfg n (probes n)" and "due 0 n sweeps"
    and "supervise cfg (n # names) sweeps Map.empty = (state', res)" and "i < length sweeps" and "1024 \<le> i"
  shows "res ! i = ([Start n], True)"
proof -
  have "res ! i = ([Start n], True)"
    if "failures (entry_of state n) = k" "next_attempt (entry_of state n) \<le> b" "due b n sweeps"
      "supervise cfg (n # names) sweeps state = (state', res)" "i < length sweeps" "1024 \<le> k + i" for state k b i
    using assms(3) that
  proof (induction sweeps arbitrary: state k b i res)
    case (Cons s sweeps)
    obtain now probes where s: "s = (now, probes)" by force
    obtain st acts r where sw: "sweep_names cfg now probes (n # names) state = (st, acts, r)"
      by (cases "sweep_names cfg now probes (n # names) state") auto
    from Cons.prems(5) sw s obtain rest where res: "res = (acts, r) # rest"
      and rec: "supervise cfg (n # names) sweeps st = (state', rest)"
      by (auto split: prod.splits)
    have p: "failing cfg n (probes n)" "next_attempt (entry_of state n) \<le> now" "now \<le> p_clock (probes n)"
      and d: "due (p_clock (probes n) + 600) n sweeps"
      using Cons.prems(1,3,4) s by auto
    note step = failing_sweep [OF p(1) assms(2) p(2,3) _ sw]
    show ?case
    proof (cases i)
      case 0
      with Cons.prems step(3) assms(1) res show ?thesis by simp
    next
      case (Suc j)
      have "rest ! j = ([Start n], True)"
        using Cons.IH [OF _ _ step(2) d rec, of "k + 1" j] Cons.prems assms(1) step(1) Suc by simp
      with res Suc show ?thesis by simp
    qed
  qed simp
  from this [of Map.empty 0 0 i] assms show ?thesis by (simp add: entry_of_def new_entry_def)
qed

lemma due_regular:
  "due b ''a'' (map (\<lambda>i. (600 * real i, \<lambda>_. demo_probe False (600 * real i))) [m..<n]) \<longleftrightarrow> m < n \<longrightarrow> b \<le> 600 * real m"
proof (induction "n - m" arbitrary: m b)
  case (Suc d)
  then have "m < n" by simp
  with Suc show ?case by (simp add: upt_conv_Cons demo_probe_def algebra_simps)
qed simp

theorem overflow_starves_others_witness:
  "\<exists>sweeps state' res. supervise demo_config [''a'', ''b''] sweeps Map.empty = (state', res) \<and> res ! 1024 = ([Start ''a''], True)"
proof -
  define sweeps where "sweeps = map (\<lambda>i. (600 * real i, \<lambda>_ :: string. demo_probe False (600 * real i))) [0..<1025]"
  obtain state' res where run: "supervise demo_config [''a'', ''b''] sweeps Map.empty = (state', res)" by force
  have "\<forall>(now, probes) \<in> set sweeps. failing demo_config ''a'' (probes ''a'')"
    by (auto simp: sweeps_def failing_def demo_down) (auto simp: demo_probe_def)
  from overflow_starves_others [OF _ demo_not_dry this _ run, of 1024] run show ?thesis
    by (auto simp: due_regular sweeps_def)
qed

end
