(* ===== verification/Relay.thy ===== *)
theory Relay
  imports Asterix_Frame Py_Text
begin

text \<open>
  The path of a raw ASTERIX block between routers: the namespace a process publishes
  under (\<open>namespace_prefix.py\<close>), the UDP ingress that publishes blocks per category
  (\<open>udp_ingress_bridge.py\<close>), and the relay that copies them from an upstream router and
  drops its own reflections (\<open>asterix_bridge.py\<close>). Fingerprints are those of a function
  that stands for the keyed hash of topic and frame; clocks are reals.
\<close>

subsection \<open>The namespace\<close>

definition strip_slash :: "string \<Rightarrow> string" where
  "strip_slash = strip_by (\<lambda>c. c = CHR ''/'')"

record deployment =
  environ :: "(string \<times> string) list"
  files :: "(string \<times> string) list"
  here :: string

text \<open>\<open>os.path.join(a, b)\<close> for a relative \<open>b\<close>.\<close>

definition path_join :: "string \<Rightarrow> string \<Rightarrow> string" where
  "path_join a b = (if a = [] \<or> ends_with ''/'' a then a @ b else a @ ''/'' @ b)"

definition state_candidates :: "deployment \<Rightarrow> string \<Rightarrow> string list" where
  "state_candidates w basename =
     (case map_of (environ w) ''POD_STATE_DIR'' of
        None \<Rightarrow> [] | Some d \<Rightarrow> if d = [] then [] else [path_join d basename]) @
     [path_join (path_join (here w) ''state'') basename, ''/'' @ basename]"

fun read_first :: "(string \<times> string) list \<Rightarrow> string list \<Rightarrow> string option" where
  "read_first fs [] = None"
| "read_first fs (path # paths) = (case map_of fs path of
     Some text \<Rightarrow> Some (strip_slash (py_strip text))
   | None \<Rightarrow> read_first fs paths)"

definition read_state :: "deployment \<Rightarrow> string \<Rightarrow> string \<Rightarrow> string option" where
  "read_state w env_var basename =
     (let candidates = (case map_of (environ w) env_var of
        None \<Rightarrow> state_candidates w basename
      | Some override \<Rightarrow> if override = [] then state_candidates w basename else [override])
      in read_first (files w) candidates)"

definition default_prefix :: string where
  "default_prefix = ''EFDI''"

definition namespace_prefix :: "deployment \<Rightarrow> string" where
  "namespace_prefix w =
     (case read_state w ''DATA_NAMESPACE_PREFIX_FILE'' ''data-topic-prefix'' of
        Some data \<Rightarrow> data
      | None \<Rightarrow> (case map_of (environ w) ''DATA_NAMESPACE_PREFIX'' of
          Some v \<Rightarrow> strip_slash (py_strip v)
        | None \<Rightarrow>
          let legacy = read_state w ''NAMESPACE_PREFIX_FILE'' ''namespace-prefix'';
              last_resort = (case map_of (environ w) ''NAMESPACE_PREFIX'' of None \<Rightarrow> default_prefix | Some v \<Rightarrow> v) in
          (case legacy of None \<Rightarrow> last_resort | Some l \<Rightarrow> if l \<noteq> [] then l else last_resort)))"

definition topic_root :: "deployment \<Rightarrow> string option \<Rightarrow> string" where
  "topic_root w org =
     (let organization = (case org of Some g \<Rightarrow> g
        | None \<Rightarrow> (case map_of (environ w) ''PARTNER_NAMESPACE'' of None \<Rightarrow> [] | Some g \<Rightarrow> g))
      in py_join ''/'' (filter (\<lambda>part. part \<noteq> []) [namespace_prefix w, strip_slash organization]))"

subsection \<open>The UDP ingress\<close>

text \<open>\<open>int(item, 10)\<close> of the items of a comma-separated list.\<close>

fun parse_category_items :: "string list \<Rightarrow> int list \<Rightarrow> int list option" where
  "parse_category_items [] categories = Some categories"
| "parse_category_items (item # rest) categories =
     (let item = py_strip item in
      if item = [] then parse_category_items rest categories
      else case int_of_str item of
        None \<Rightarrow> None
      | Some category \<Rightarrow>
          if \<not> (0 \<le> category \<and> category \<le> 255) then None
          else parse_category_items rest (List.insert category categories))"

definition parse_categories :: "string \<Rightarrow> int list option" where
  "parse_categories value = (case parse_category_items (py_split CHR '','' value) [] of
     None \<Rightarrow> None
   | Some categories \<Rightarrow> if categories = [] then None else Some categories)"

text \<open>IPv4 networks as base address and mask; \<open>address in network\<close>.\<close>

definition source_allowed :: "32 word \<Rightarrow> (32 word \<times> 32 word) list \<Rightarrow> bool" where
  "source_allowed source networks =
     (if networks = [] then True
      else list_ex (\<lambda>(base, mask). and source mask = base) networks)"

record raw_record =
  e_protocol :: string
  e_profile :: string
  e_source :: "32 word \<times> int"
  e_sequence :: nat
  e_payload :: bytes

datatype put = RawPut raw_record | FramePut string bytes

definition frame_topic :: "string \<Rightarrow> int \<Rightarrow> string" where
  "frame_topic base category = base @ ''/raw/asterix/cat'' @ fmt_int category"

definition frame_puts :: "string \<Rightarrow> int list \<Rightarrow> (int \<times> bytes) list \<Rightarrow> put list" where
  "frame_puts topic categories frames =
     map (\<lambda>(category, frame). FramePut (frame_topic topic category) frame)
       (filter (\<lambda>(category, frame). category \<in> set categories) frames)"

text \<open>One turn of the receive loop: the sequence number and what is put.\<close>

definition ingress_step ::
  "string \<Rightarrow> int list \<Rightarrow> (32 word \<times> 32 word) list \<Rightarrow> nat \<Rightarrow> (32 word \<times> int) \<times> bytes \<Rightarrow> nat \<times> put list" where
  "ingress_step topic categories networks seq packet = (case packet of (address, datagram) \<Rightarrow>
     if \<not> source_allowed (fst address) networks then (seq, [])
     else
       let seq = seq + 1;
           (protocol, profile, frames) = (case split_asterix_datagram datagram of
             Inl _ \<Rightarrow> (''unknown'', [], [])
           | Inr frames \<Rightarrow> (''asterix'', py_join '','' (map (\<lambda>(category, _). ''cat'' @ fmt_int category) frames), frames))
       in (seq, RawPut \<lparr> e_protocol = protocol, e_profile = profile, e_source = address,
             e_sequence = seq, e_payload = datagram \<rparr> # frame_puts topic categories frames))"

fun ingress_loop ::
  "string \<Rightarrow> int list \<Rightarrow> (32 word \<times> 32 word) list \<Rightarrow> nat \<Rightarrow> ((32 word \<times> int) \<times> bytes) list \<Rightarrow> put list" where
  "ingress_loop topic categories networks seq [] = []"
| "ingress_loop topic categories networks seq (packet # packets) =
     (case ingress_step topic categories networks seq packet of
        (seq', out) \<Rightarrow> out @ ingress_loop topic categories networks seq' packets)"

subsection \<open>The cache of recent frames\<close>

type_synonym 'f recent = "('f \<times> real) list"

text \<open>The oldest entries go first; a hit moves the entry to the end.\<close>

fun drop_expired :: "real \<Rightarrow> 'f recent \<Rightarrow> 'f recent" where
  "drop_expired cutoff [] = []"
| "drop_expired cutoff ((f, oldest) # items) =
     (if oldest \<ge> cutoff then (f, oldest) # items else drop_expired cutoff items)"

definition recent_ttl :: real where
  "recent_ttl = 1"

definition recent_limit :: nat where
  "recent_limit = 4096"

definition seen :: "real \<Rightarrow> nat \<Rightarrow> 'f \<Rightarrow> real \<Rightarrow> 'f recent \<Rightarrow> 'f recent \<times> bool" where
  "seen ttl limit fingerprint now items =
     (let items = drop_expired (now - ttl) items in
      if fingerprint \<in> set (map fst items)
      then (filter (\<lambda>(f, _). f \<noteq> fingerprint) items @ [(fingerprint, now)], True)
      else let items = items @ [(fingerprint, now)] in (drop (length items - limit) items, False))"

subsection \<open>The relay\<close>

definition category_from_key :: "string \<Rightarrow> string \<Rightarrow> int option" where
  "category_from_key key base =
     (let pre = strip_slash base @ ''/raw/asterix/cat'' in
      if \<not> starts_with pre key then None
      else let suffix = drop (length pre) key in
        if \<not> py_isdigit suffix then None
        else case int_of_str suffix of
          None \<Rightarrow> None
        | Some category \<Rightarrow> if \<not> (0 \<le> category \<and> category \<le> 255) then None else Some category)"

text \<open>\<open>None\<close> is a rejected sample; the inner option is the destination, if any.\<close>

definition relay_sample ::
  "(string \<Rightarrow> bytes \<Rightarrow> 'f) \<Rightarrow> string \<Rightarrow> string \<Rightarrow> real \<Rightarrow> string \<Rightarrow> bytes \<Rightarrow> 'f recent \<Rightarrow> 'f recent \<times> put option option" where
  "relay_sample fp upstream_root local_root now source_key frame recent =
     (case category_from_key source_key upstream_root of
        None \<Rightarrow> (recent, None)
      | Some category \<Rightarrow> (case validate_frame frame category of
          Inl _ \<Rightarrow> (recent, None)
        | Inr _ \<Rightarrow>
            let destination = frame_topic (strip_slash local_root) category in
            (case seen recent_ttl recent_limit (fp destination frame) now recent of
               (recent', True) \<Rightarrow> (recent', Some None)
             | (recent', False) \<Rightarrow> (recent', Some (Some (FramePut destination frame))))))"

subsection \<open>The cache remembers exactly the window\<close>

lemma drop_expired_filter:
  "sorted (map snd items) \<Longrightarrow> drop_expired cutoff items = filter (\<lambda>(f, t). cutoff \<le> t) items"
proof (induction items)
  case (Cons x xs)
  then have "cutoff \<le> snd x \<Longrightarrow> filter (\<lambda>(f, t). cutoff \<le> t) xs = xs"
    by (auto simp: filter_id_conv)
  with Cons show ?case by (cases x) auto
qed simp

text \<open>The cache after a history of sightings.\<close>

definition cache :: "real \<Rightarrow> nat \<Rightarrow> ('f \<times> real) list \<Rightarrow> 'f recent" where
  "cache ttl limit history = fold (\<lambda>(f, t) items. fst (seen ttl limit f t items)) history []"

lemma cache_snoc: "cache ttl limit (h @ [(f, t)]) = fst (seen ttl limit f t (cache ttl limit h))"
  by (simp add: cache_def)

definition sighted :: "('f \<times> real) list \<Rightarrow> real \<Rightarrow> 'f set" where
  "sighted h since = fst ` set (filter (\<lambda>(f, t). since \<le> t) h)"

definition cache_inv :: "nat \<Rightarrow> real \<Rightarrow> ('f \<times> real) list \<Rightarrow> 'f recent \<Rightarrow> bool" where
  "cache_inv limit now h items \<longleftrightarrow>
     distinct (map fst items) \<and> sorted (map snd items) \<and> length items \<le> limit \<and>
     (\<forall>(f, t) \<in> set items. t \<le> now \<and> (f, t) \<in> set h)"

lemma seen_inv:
  assumes "cache_inv limit before h items" and "before \<le> now" and "0 \<le> ttl"
    and "seen ttl limit f now items = (items', b)"
  shows "cache_inv limit now (h @ [(f, now)]) items'"
proof -
  let ?live = "filter (\<lambda>(f, t). now - ttl \<le> t) items"
  have live: "drop_expired (now - ttl) items = ?live"
    using assms(1) by (simp add: drop_expired_filter cache_inv_def)
  have inv: "distinct (map fst ?live)" "sorted (map snd ?live)" "length ?live \<le> limit"
    and mem: "\<And>g t. (g, t) \<in> set ?live \<Longrightarrow> t \<le> now \<and> (g, t) \<in> set h"
    using assms(1,2) order_trans [OF length_filter_le [of "\<lambda>(f, t). now - ttl \<le> t" items]]
    by (fastforce simp: cache_inv_def distinct_map_filter sorted_filter)+
  have app: "distinct (map fst (xs @ [(f, now)])) \<and> sorted (map snd (xs @ [(f, now)]))"
    if "distinct (map fst xs)" "sorted (map snd xs)" "f \<notin> set (map fst xs)" "set xs \<subseteq> set ?live" for xs
    using that mem by (fastforce simp: sorted_append)
  show ?thesis
  proof (cases "f \<in> set (map fst ?live)")
    case True
    let ?xs = "filter (\<lambda>(g, _). g \<noteq> f) ?live"
    have "distinct (map fst (?xs @ [(f, now)])) \<and> sorted (map snd (?xs @ [(f, now)]))"
      using inv by (intro app) (auto simp: distinct_map_filter sorted_filter simp del: filter_filter)
    moreover from True obtain t where "(f, t) \<in> set ?live" by auto
    then have "length ?xs < length ?live" by (rule length_filter_less) simp
    ultimately show ?thesis using assms(4) live True inv(3) mem
      by (auto simp: seen_def Let_def cache_inv_def)
  next
    case False
    let ?ys = "?live @ [(f, now)]"
    have "distinct (map fst ?ys) \<and> sorted (map snd ?ys)" using inv False by (intro app) auto
    then have "distinct (map fst (drop n ?ys))" "sorted (map snd (drop n ?ys))" for n
      by (simp_all only: drop_map [symmetric] distinct_drop sorted_wrt_drop)
    moreover have "t \<le> now \<and> (g, t) \<in> set (h @ [(f, now)])" if "(g, t) \<in> set (drop n ?ys)" for g t n
      using in_set_dropD [OF that] mem [of g t] by auto
    moreover have "items' = drop (length ?ys - limit) ?ys"
      using assms(4) live False by (simp add: seen_def Let_def)
    ultimately show ?thesis unfolding cache_inv_def by (auto simp del: append_Cons drop_append set_append)
  qed
qed

lemma cache_inv_cache:
  assumes "sorted (map snd h @ [now])" and "0 \<le> ttl"
  shows "cache_inv limit now h (cache ttl limit h)"
  using assms(1)
proof (induction h arbitrary: now rule: rev_induct)
  case Nil
  then show ?case by (simp add: cache_inv_def cache_def)
next
  case (snoc x h)
  obtain f t where x: "x = (f, t)" by force
  with snoc.prems have "sorted (map snd h @ [t])" "t \<le> now" by (auto simp: sorted_append)
  with seen_inv [OF snoc.IH order_refl assms(2)] have "cache_inv limit t (h @ [x]) (cache ttl limit (h @ [x]))"
    by (metis cache_snoc prod.collapse x)
  with \<open>t \<le> now\<close> show ?case by (fastforce simp: cache_inv_def)
qed

text \<open>No sighting of the history found the limit reached by other frames of its window.\<close>

definition sparse :: "real \<Rightarrow> nat \<Rightarrow> ('f \<times> real) list \<Rightarrow> bool" where
  "sparse ttl limit h \<longleftrightarrow> (\<forall>i \<in> set [0..<length h]. card (sighted (take i h) (snd (h ! i) - ttl)) < limit)"

lemma sparse_snoc:
  "sparse ttl limit (h @ [(f, t)]) \<longleftrightarrow> sparse ttl limit h \<and> card (sighted h (t - ttl)) < limit"
  by (auto simp: sparse_def nth_append less_Suc_eq)

lemma cache_complete:
  assumes "sorted (map snd h @ [now])" and "0 \<le> ttl" and "sparse ttl limit h"
    and "(f, t) \<in> set h" and "now - ttl \<le> t"
  shows "\<exists>t'. t \<le> t' \<and> (f, t') \<in> set (cache ttl limit h)"
  using assms(1,3-5)
proof (induction h arbitrary: now rule: rev_induct)
  case (snoc x h)
  obtain g u where x: "x = (g, u)" by force
  with snoc.prems have h: "sorted (map snd h @ [u])" "u \<le> now" "\<forall>p \<in> set h. snd p \<le> u"
    and sp: "sparse ttl limit h" "card (sighted h (u - ttl)) < limit"
    by (auto simp: sorted_append sparse_snoc)
  let ?items = "cache ttl limit h"
  let ?live = "filter (\<lambda>(f, t). u - ttl \<le> t) ?items"
  have inv: "cache_inv limit u h ?items" by (rule cache_inv_cache [OF h(1) assms(2)])
  then have live: "drop_expired (u - ttl) ?items = ?live" by (simp add: drop_expired_filter cache_inv_def)
  have "length ?live = card (set (map fst ?live))"
    using inv distinct_card [of "map fst ?live"] by (simp add: cache_inv_def distinct_map_filter del: set_map set_filter)
  also have "\<dots> \<le> card (sighted h (u - ttl))"
    using inv by (intro card_mono) (fastforce simp: sighted_def cache_inv_def)+
  finally have "length ?live < limit" using sp(2) by simp
  then have new: "set (cache ttl limit (h @ [x])) = insert (g, u) (set (filter (\<lambda>(f, _). f \<noteq> g) ?live))"
    by (auto simp: cache_snoc x seen_def live Let_def image_iff)
  show ?case
  proof (cases "f = g")
    case True
    have "t \<le> u" using snoc.prems(3) x h(3) by fastforce
    with True new show ?thesis by blast
  next
    case False
    with snoc.prems(3) x have "(f, t) \<in> set h" by simp
    moreover have "u - ttl \<le> t" using snoc.prems(4) h(2) by simp
    ultimately obtain t' where "t \<le> t'" "(f, t') \<in> set ?items" using snoc.IH [OF h(1) sp(1)] by blast
    with False new \<open>u - ttl \<le> t\<close> show ?thesis by (intro exI [of _ t']) auto
  qed
qed simp

text \<open>
  C4: The reflection cache is exact. For every history of sightings in order of time, the
  cache holds at most its limit; it calls a frame seen only when the same frame was sighted within
  the time to live, and, as long as the limit was not reached, always then, however often the frame
  came back.
\<close>

theorem recent_frames_exact:
  assumes "sorted (map snd h @ [now])" and "0 \<le> ttl"
  shows "length (cache ttl limit h) \<le> limit \<and>
    (snd (seen ttl limit f now (cache ttl limit h)) \<longrightarrow> f \<in> sighted h (now - ttl)) \<and>
    (sparse ttl limit h \<and> f \<in> sighted h (now - ttl) \<longrightarrow> snd (seen ttl limit f now (cache ttl limit h)))"
proof -
  let ?items = "cache ttl limit h"
  have inv: "cache_inv limit now h ?items" by (rule cache_inv_cache [OF assms])
  then have live: "drop_expired (now - ttl) ?items = filter (\<lambda>(f, t). now - ttl \<le> t) ?items"
    by (simp add: drop_expired_filter cache_inv_def)
  then have seen: "snd (seen ttl limit f now ?items) \<longleftrightarrow> f \<in> sighted ?items (now - ttl)"
    by (auto simp: seen_def Let_def sighted_def)
  have "f \<in> sighted h (now - ttl)" if "f \<in> sighted ?items (now - ttl)"
    using that inv by (force simp: sighted_def cache_inv_def)
  moreover have "f \<in> sighted ?items (now - ttl)" if sp: "sparse ttl limit h" and s: "f \<in> sighted h (now - ttl)"
  proof -
    from s obtain t where t: "(f, t) \<in> set h" "now - ttl \<le> t" by (auto simp: sighted_def)
    obtain t' where "t \<le> t'" "(f, t') \<in> set ?items" using cache_complete [OF assms sp t] by blast
    with t(2) show ?thesis by (force simp: sighted_def)
  qed
  ultimately show ?thesis using inv seen by (auto simp: cache_inv_def)
qed

theorem recent_frames_exact_witness:
  "snd (seen 1 2 ''a'' 3 (cache 1 2 [(''a'', 2), (''b'', 5 / 2)])) \<and>
   \<not> snd (seen 1 2 ''a'' 4 (cache 1 2 [(''a'', 2), (''b'', 5 / 2)]))"
proof -
  let ?h = "[(''a'', 2), (''b'', 5 / 2 :: real)]"
  have s: "sorted (map snd ?h @ [3])" "sorted (map snd ?h @ [4])" "sparse 1 2 ?h"
    and m: "''a'' \<in> sighted ?h (3 - 1)" "''a'' \<notin> sighted ?h (4 - 1)"
    by (auto simp: sparse_def sighted_def less_Suc_eq numeral_2_eq_2 simp del: set_filter)
  show ?thesis
    using recent_frames_exact [OF s(1), of 1 2 "''a''"] recent_frames_exact [OF s(2), of 1 2 "''a''"] s(3) m by simp
qed

subsection \<open>From the ingress to the relay\<close>

lemma category_from_frame_topic:
  assumes "strip_slash base = base" and "0 \<le> c" and "c < 256"
  shows "category_from_key (frame_topic base c) base = Some c"
  using assms int_of_str_fmt_int [of c] py_isdigit_fmt_int [of c]
  by (simp add: category_from_key_def frame_topic_def starts_with_def)

definition accepted_frames :: "int list \<Rightarrow> bytes \<Rightarrow> (int \<times> bytes) list" where
  "accepted_frames categories datagram = (case split_asterix_datagram datagram of
     Inl _ \<Rightarrow> [] | Inr frames \<Rightarrow> filter (\<lambda>(c, f). c \<in> set categories) frames)"

definition raw_records :: "put list \<Rightarrow> raw_record list" where
  "raw_records ps = List.map_filter (\<lambda>p. case p of RawPut e \<Rightarrow> Some e | FramePut _ _ \<Rightarrow> None) ps"

definition frame_records :: "put list \<Rightarrow> (string \<times> bytes) list" where
  "frame_records ps = List.map_filter (\<lambda>p. case p of RawPut e \<Rightarrow> None | FramePut k f \<Rightarrow> Some (k, f)) ps"

lemma put_records [simp]:
  "raw_records [] = []" "frame_records [] = []"
  "raw_records (ps @ qs) = raw_records ps @ raw_records qs"
  "frame_records (ps @ qs) = frame_records ps @ frame_records qs"
  "raw_records (RawPut e # ps) = e # raw_records ps" "frame_records (RawPut e # ps) = frame_records ps"
  "raw_records (frame_puts topic cats fs) = []"
  "frame_records (frame_puts topic cats fs) =
     map (\<lambda>(c, f). (frame_topic topic c, f)) (filter (\<lambda>(c, f). c \<in> set cats) fs)"
  by (auto simp: raw_records_def frame_records_def frame_puts_def List.map_filter_def split_beta' filter_map comp_def)

definition accepted :: "(32 word \<times> 32 word) list \<Rightarrow> ((32 word \<times> int) \<times> bytes) list \<Rightarrow> bytes list" where
  "accepted networks packets = map snd (filter (\<lambda>(a, d). source_allowed (fst a) networks) packets)"

lemma ingress_loop_records:
  "map e_payload (raw_records (ingress_loop topic cats nets seq packets)) = accepted nets packets \<and>
   map e_sequence (raw_records (ingress_loop topic cats nets seq packets)) = [seq + 1..<seq + 1 + length (accepted nets packets)] \<and>
   frame_records (ingress_loop topic cats nets seq packets) =
     map (\<lambda>(c, f). (frame_topic topic c, f)) (concat (map (accepted_frames cats) (accepted nets packets)))"
proof (induction packets arbitrary: seq)
  case (Cons p packets)
  obtain a d where p: "p = (a, d)" by (cases p)
  show ?case
    using Cons.IH [of seq] Cons.IH [of "seq + 1"]
    by (cases "split_asterix_datagram d")
      (auto simp: p ingress_step_def accepted_def accepted_frames_def Let_def upt_conv_Cons frame_puts_def
        simp flip: frame_puts_def)
qed (simp add: accepted_def)

lemma accepted_frames_block: "(c, f) \<in> set (accepted_frames cats d) \<Longrightarrow> is_block c f \<and> c \<in> set cats"
  using split_iff [of d] by (fastforce simp: accepted_frames_def split: sum.splits)

lemma is_block_category: "is_block c f \<Longrightarrow> 0 \<le> c \<and> c < 256"
  using uint_bounded [of "f ! 0"] by (auto simp: is_block_def)

text \<open>
  Ingress to relay. The ingress publishes every datagram of an allowed source verbatim,
  numbered without gaps, and the blocks of the selected categories of those datagrams that are
  ASTERIX throughout, in order; and a relay that sees one of those blocks for the first time
  accepts its key and contents and puts it, unchanged, on the topic of its category under its own
  namespace.
\<close>

theorem ingress_to_relay:
  assumes "strip_slash topic = topic"
  shows "map e_payload (raw_records (ingress_loop topic cats nets 0 packets)) = accepted nets packets \<and>
    map e_sequence (raw_records (ingress_loop topic cats nets 0 packets)) = [1..<1 + length (accepted nets packets)] \<and>
    map (\<lambda>(key, frame). snd (relay_sample fp topic local now key frame [])) (frame_records (ingress_loop topic cats nets 0 packets)) =
      map (\<lambda>(c, f). Some (Some (FramePut (frame_topic (strip_slash local) c) f)))
        (concat (map (accepted_frames cats) (accepted nets packets)))"
proof -
  have "snd (relay_sample fp topic local now (frame_topic topic c) f []) =
      Some (Some (FramePut (frame_topic (strip_slash local) c) f))"
    if "(c, f) \<in> set (concat (map (accepted_frames cats) (accepted nets packets)))" for c f
  proof -
    from that have b: "is_block c f" using accepted_frames_block by auto
    with is_block_category have "category_from_key (frame_topic topic c) topic = Some c"
      using category_from_frame_topic [OF assms] by blast
    moreover have "validate_frame f c = Inr ()" using b by (simp add: validate_frame_iff)
    ultimately show ?thesis
      by (simp add: relay_sample_def seen_def recent_limit_def Let_def)
  qed
  then show ?thesis
    using ingress_loop_records [of topic cats nets 0 packets] by (auto simp: comp_def split_beta)
qed

theorem ingress_to_relay_witness:
  "map (\<lambda>(key, frame). snd (relay_sample (\<lambda>k f. (k, f)) ''EFDI/LTU'' ''/EFDI/EST/'' 0 key frame []))
      (frame_records (ingress_loop ''EFDI/LTU'' [48] [] 0 [((1, 50000), [34, 0, 4, 9, 48, 0, 3])])) =
     [Some (Some (FramePut ''EFDI/EST/raw/asterix/cat48'' [48, 0, 3]))]"
proof -
  have r: "strip_slash ''EFDI/LTU'' = ''EFDI/LTU''" by code_simp
  have e: "concat (map (accepted_frames [48]) (accepted [] [((1, 50000), [34, 0, 4, 9, 48, 0, 3])])) = [(48, [48, 0, 3])]"
    by code_simp
  have d: "frame_topic (strip_slash ''/EFDI/EST/'') 48 = ''EFDI/EST/raw/asterix/cat48''" by code_simp
  from ingress_to_relay [OF r, of "[48]" "[]" "[((1, 50000), [34, 0, 4, 9, 48, 0, 3])]" "\<lambda>k f. (k, f)" "''/EFDI/EST/''" 0]
  show ?thesis unfolding e by (simp add: d)
qed

text \<open>
  A stray slash breaks the relay. A namespace from the environment, unlike one from a
  state file, keeps its slashes: with NAMESPACE_PREFIX set to /EFDI the topic root starts with a
  slash, and a relay configured with that very root rejects every block the ingress publishes; with
  EFDI/ the root has an empty segment. The same text in a state file gives the clean root.
\<close>

theorem stray_slash_breaks_relay:
  "topic_root \<lparr> environ = [(''NAMESPACE_PREFIX'', ''/EFDI'')], files = [], here = ''/app'' \<rparr> (Some ''LTU'') = ''/EFDI/LTU'' \<and>
   category_from_key (frame_topic ''/EFDI/LTU'' 48) ''/EFDI/LTU'' = None \<and>
   topic_root \<lparr> environ = [(''NAMESPACE_PREFIX'', ''EFDI/'')], files = [], here = ''/app'' \<rparr> (Some ''LTU'') = ''EFDI//LTU'' \<and>
   topic_root \<lparr> environ = [], files = [(''/namespace-prefix'', ''/EFDI/'')], here = ''/app'' \<rparr> (Some ''/LTU/'') = ''EFDI/LTU''"
  by (intro conjI; code_simp)

end
