(* ===== verification/Reconcile.thy ===== *)
theory Reconcile
  imports Py_Text "HOL-Library.List_Lexorder" "HOL-Library.Char_ord"
begin

text \<open>
  The delivery reconciler (\<open>delivery_reconcile.py\<close>): the ledger of topics a producer has
  put, its bound, and the periodic read-back. The keys that a read-back finds are an argument of
  a tick. Topics compare by code points, as the order of the library does.
\<close>

record reconciler =
  ledger :: "string set"
  sent_count :: nat
  max_ledger :: nat

record heartbeat =
  hb_sent :: nat
  hb_ledger_size :: nat

definition new_reconciler :: "nat \<Rightarrow> reconciler" where
  "new_reconciler limit = \<lparr> ledger = {}, sent_count = 0, max_ledger = limit \<rparr>"

text \<open>\<open>xs[-k:]\<close>, which is the whole list for \<open>k = 0\<close>.\<close>

definition last_slice :: "nat \<Rightarrow> 'a list \<Rightarrow> 'a list" where
  "last_slice k xs = (if k = 0 then xs else drop (length xs - k) xs)"

definition sent :: "string \<Rightarrow> reconciler \<Rightarrow> reconciler" where
  "sent topic r =
     (let l = insert topic (ledger r);
          r = r\<lparr>ledger := l, sent_count := sent_count r + 1\<rparr>
      in if card l > max_ledger r
         then r\<lparr>ledger := set (last_slice (max_ledger r div 2) (sorted_list_of_set l))\<rparr> else r)"

definition self_canary :: "string set \<Rightarrow> reconciler \<Rightarrow> string set" where
  "self_canary landed r = ledger r - landed"

text \<open>The gap, if anything is tracked, and the heartbeat; the count starts again.\<close>

definition tick :: "string set \<Rightarrow> reconciler \<Rightarrow> reconciler \<times> string set option \<times> heartbeat" where
  "tick landed r =
     (let gap = (if ledger r \<noteq> {} then Some (self_canary landed r) else None)
      in (r\<lparr>sent_count := 0\<rparr>, gap, \<lparr> hb_sent = sent_count r, hb_ledger_size = card (ledger r) \<rparr>))"

subsection \<open>The ledger\<close>

datatype use = Sent string | Tick "string set"

fun run :: "use list \<Rightarrow> reconciler \<Rightarrow> reconciler" where
  "run [] r = r"
| "run (Sent topic # us) r = run us (sent topic r)"
| "run (Tick landed # us) r = run us (fst (tick landed r))"

lemma set_last_slice: "set (last_slice k xs) \<subseteq> set xs"
  by (simp add: last_slice_def set_drop_subset)

lemma sent_ledger:
  assumes "finite (ledger r)"
  shows "finite (ledger (sent topic r))" "ledger (sent topic r) \<subseteq> insert topic (ledger r)"
    "max_ledger (sent topic r) = max_ledger r"
    "2 \<le> max_ledger r \<Longrightarrow> card (ledger r) \<le> max_ledger r \<Longrightarrow> card (ledger (sent topic r)) \<le> max_ledger r"
proof -
  let ?l = "insert topic (ledger r)"
  have fin: "finite ?l" using assms by simp
  then have sub: "set (last_slice k (sorted_list_of_set ?l)) \<subseteq> ?l" for k
    using set_last_slice [of k "sorted_list_of_set ?l"] set_sorted_list_of_set [OF fin] by blast
  show "finite (ledger (sent topic r))" "ledger (sent topic r) \<subseteq> insert topic (ledger r)"
      "max_ledger (sent topic r) = max_ledger r"
    using fin sub by (auto simp: sent_def Let_def)
  have "card (set (last_slice (max_ledger r div 2) (sorted_list_of_set ?l))) \<le> max_ledger r" if "2 \<le> max_ledger r"
  proof -
    have "length (last_slice (max_ledger r div 2) (sorted_list_of_set ?l)) \<le> max_ledger r"
      using that by (auto simp: last_slice_def)
    then show ?thesis by (rule order_trans [OF card_length])
  qed
  then show "card (ledger (sent topic r)) \<le> max_ledger r" if "2 \<le> max_ledger r" "card (ledger r) \<le> max_ledger r"
    using that by (simp add: sent_def Let_def)
qed

lemma run_ledger:
  assumes "finite (ledger r)" and "2 \<le> max_ledger r" and "card (ledger r) \<le> max_ledger r"
  shows "finite (ledger (run us r)) \<and> card (ledger (run us r)) \<le> max_ledger r \<and> max_ledger (run us r) = max_ledger r \<and>
    ledger (run us r) \<subseteq> ledger r \<union> {topic. Sent topic \<in> set us}"
  using assms
proof (induction us arbitrary: r)
  case (Cons u us)
  show ?case
  proof (cases u)
    case (Sent topic)
    note s = sent_ledger [OF Cons.prems(1), of topic]
    have "finite (ledger (sent topic r))" "2 \<le> max_ledger (sent topic r)"
        "card (ledger (sent topic r)) \<le> max_ledger (sent topic r)"
      using s Cons.prems by simp_all
    from Cons.IH [OF this] s(2,3) Sent show ?thesis by auto
  next
    case (Tick landed)
    have "finite (ledger (fst (tick landed r)))" "2 \<le> max_ledger (fst (tick landed r))"
        "card (ledger (fst (tick landed r))) \<le> max_ledger (fst (tick landed r))"
      using Cons.prems by (simp_all add: tick_def Let_def)
    from Cons.IH [OF this] Tick show ?thesis by (auto simp: tick_def Let_def)
  qed
qed simp

text \<open>
  Which topics the ledger forgets. The ledger never outgrows its bound and holds only
  topics that were sent, so a gap never names a topic that was not; but when it overflows, the half
  that is kept is the upper half in the order of the names, not the newest: a topic that sorts before
  all tracked ones is dropped by the very call that records it, and no later read-back can report it
  missing until it is sent again.
\<close>

theorem reconciler_forgets_by_name:
  assumes "2 \<le> limit" and "r = run us (new_reconciler limit)" and "card (ledger r) = limit"
    and "\<forall>t \<in> ledger r. topic < t" and "Sent topic \<notin> set later" and "snd (tick landed (run later (sent topic r))) = (Some gap, hb)"
  shows "card (ledger r) \<le> limit \<and> ledger r \<subseteq> {t. Sent t \<in> set us} \<and> topic \<notin> gap"
proof -
  have new: "finite (ledger (new_reconciler limit))" "max_ledger (new_reconciler limit) = limit" "card (ledger (new_reconciler limit)) \<le> limit"
    by (simp_all add: new_reconciler_def)
  have r: "finite (ledger r)" "max_ledger r = limit" "card (ledger r) \<le> limit" "ledger r \<subseteq> {t. Sent t \<in> set us}"
    using run_ledger [of "new_reconciler limit" us] new assms(1,2) by (auto simp: new_reconciler_def)
  let ?l = "insert topic (ledger r)"
  have fresh: "topic \<notin> ledger r" using assms(4) by auto
  have srt: "sorted_list_of_set ?l = topic # sorted_list_of_set (ledger r)"
    using fresh r(1) assms(4) by (simp add: sorted_list_of_set_insert insort_is_Cons less_imp_le)
  have "ledger (sent topic r) = set (drop (limit + 1 - limit div 2) (topic # sorted_list_of_set (ledger r)))"
    using r fresh assms(1,3) srt by (simp add: sent_def Let_def last_slice_def)
  moreover have "limit + 1 - limit div 2 = Suc (limit - limit div 2)" by simp
  ultimately have "ledger (sent topic r) \<subseteq> ledger r"
    using set_drop_subset [of "limit - limit div 2" "sorted_list_of_set (ledger r)"] set_sorted_list_of_set [OF r(1)]
    by (metis drop_Suc_Cons)
  then have gone: "topic \<notin> ledger (sent topic r)" using fresh by blast
  have "topic \<notin> ledger (run later (sent topic r))"
    using run_ledger [of "sent topic r" later] sent_ledger [OF r(1), of topic] r assms(1,5) gone by auto
  with assms(6) r show ?thesis by (auto simp: tick_def Let_def self_canary_def split: if_splits)
qed

theorem reconciler_forgets_by_name_witness:
  "''a'' \<notin> {''b'', ''c''} \<and>
   (\<exists>gap. snd (tick {} (run [] (sent ''a'' (run [Sent ''c'', Sent ''b''] (new_reconciler 2))))) =
      (Some gap, \<lparr> hb_sent = 3, hb_ledger_size = 1 \<rparr>) \<and> ''a'' \<notin> gap)"
proof -
  have l: "ledger (run [Sent ''c'', Sent ''b''] (new_reconciler 2)) = {''b'', ''c''}"
    by (auto simp: new_reconciler_def sent_def Let_def)
  have e: "snd (tick {} (run [] (sent ''a'' (run [Sent ''c'', Sent ''b''] (new_reconciler 2))))) =
      (Some {''c''}, \<lparr> hb_sent = 3, hb_ledger_size = 1 \<rparr>)" by code_simp
  have "\<forall>t \<in> ledger (run [Sent ''c'', Sent ''b''] (new_reconciler 2)). ''a'' < t"
    unfolding l by (simp add: Cons_less_Cons)
  from reconciler_forgets_by_name [OF _ refl _ this _ e] l e show ?thesis by auto
qed

end
