(* ===== verification/Fusion_Filters.thy ===== *)
theory Fusion_Filters
  imports Py_Text "HOL-Library.List_Lexorder" "HOL-Library.Char_ord" "HOL-Library.Product_Lexorder"
begin

text \<open>
  The duplicate filters of the track fusion (\<open>fusion.py\<close>): copies of an aircraft without its
  address (\<open>TwinIndex\<close>, \<open>TwinSuppressions\<close>, \<open>TwinFilter\<close>), strike markers reported twice
  (\<open>StrikeIndex\<close>), our own objects sent back (\<open>EchoFilter\<close>), corrupted addresses
  (\<open>GhostFilter\<close>) and flipping affiliations (\<open>MarkerMemory\<close>). A table is an association list in
  insertion order; the clock is an argument. An operation that may raise returns the state it
  leaves behind and an optional result.
\<close>

subsection \<open>Fields of a track\<close>

text \<open>\<open>track.get(k) is None\<close>, \<open>track.get(k)\<close> as a condition, and \<open>str(track.get(k) or "")\<close>.\<close>

definition absent :: "dict \<Rightarrow> string \<Rightarrow> bool" where
  "absent d k \<longleftrightarrow> dget d k = None \<or> dget d k = Some VNone"

definition holds :: "dict \<Rightarrow> string \<Rightarrow> bool" where
  "holds d k \<longleftrightarrow> (case dget d k of None \<Rightarrow> False | Some v \<Rightarrow> truthy v)"

definition text_of :: "(pyval \<Rightarrow> string) \<Rightarrow> dict \<Rightarrow> string \<Rightarrow> string" where
  "text_of rp d k = (case dget d k of None \<Rightarrow> '''' | Some v \<Rightarrow> if truthy v then py_str rp v else '''')"

text \<open>A number in arithmetic: \<open>None\<close> is the \<open>TypeError\<close>.\<close>

definition number :: "pyval \<Rightarrow> real option" where
  "number v = (case v of VInt i \<Rightarrow> Some (of_int i) | VFloat r \<Rightarrow> Some r
     | VBool b \<Rightarrow> Some (if b then 1 else 0) | _ \<Rightarrow> None)"

text \<open>
  \<open>str.upper\<close>: two letters of Latin-1 have their capital outside it and stand for it here;
  sharp s becomes two letters.
\<close>

definition char_upper :: "char \<Rightarrow> string" where
  "char_upper c = (let n = of_char c :: nat in
     if 97 \<le> n \<and> n \<le> 122 \<or> 224 \<le> n \<and> n \<le> 254 \<and> n \<noteq> 247 then [char_of (n - 32)]
     else if n = 223 then ''SS'' else [c])"

definition py_upper :: "string \<Rightarrow> string" where
  "py_upper s = concat (map char_upper s)"

fun filter_opt :: "('a \<Rightarrow> bool option) \<Rightarrow> 'a list \<Rightarrow> 'a list option" where
  "filter_opt P [] = Some []"
| "filter_opt P (x # xs) = do {
     b \<leftarrow> P x;
     ys \<leftarrow> filter_opt P xs;
     Some (if b then x # ys else ys)
   }"

lemma filter_opt_set: "filter_opt P xs = Some ys \<Longrightarrow> x \<in> set ys \<longleftrightarrow> x \<in> set xs \<and> P x = Some True"
  by (induction xs arbitrary: ys) (auto split: bind_splits if_splits)

lemma filter_opt_total: "(\<And>x. x \<in> set xs \<Longrightarrow> P x \<noteq> None) \<Longrightarrow> \<exists>ys. filter_opt P xs = Some ys"
proof (induction xs)
  case (Cons x xs)
  then obtain b ys where "P x = Some b" "filter_opt P xs = Some ys" by fastforce
  then show ?case by simp
qed simp

text \<open>\<open>_km\<close> on the coordinates of two tracks.\<close>

definition km :: "pyval \<Rightarrow> pyval \<Rightarrow> pyval \<Rightarrow> pyval \<Rightarrow> real option" where
  "km lat1 lon1 lat2 lon2 = do {
     la1 \<leftarrow> number lat1;
     lo1 \<leftarrow> number lon1;
     la2 \<leftarrow> number lat2;
     lo2 \<leftarrow> number lon2;
     let a = (sin (pi * (la2 - la1) / 180 / 2))\<^sup>2 +
       cos (pi * la1 / 180) * cos (pi * la2 / 180) * (sin (pi * (lo2 - lo1) / 180 / 2))\<^sup>2;
     Some (12742 * arcsin (sqrt a))
   }"

subsection \<open>Names of an object\<close>

definition is_hex_char :: "char \<Rightarrow> bool" where
  "is_hex_char c \<longleftrightarrow> c \<in> set ''0123456789abcdefABCDEF''"

definition is_letter :: "char \<Rightarrow> bool" where
  "is_letter c \<longleftrightarrow> (let n = of_char c :: nat in 65 \<le> n \<and> n \<le> 90 \<or> 97 \<le> n \<and> n \<le> 122)"

text \<open>\<open>(?:[A-Za-z]+[:_-])*\<close> on the whole string.\<close>

function tag_prefix :: "string \<Rightarrow> bool" where
  "tag_prefix s =
     (if s = [] then True
      else let rest = dropWhile is_letter s in
        if takeWhile is_letter s = [] \<or> rest = [] then False
        else if hd rest \<notin> set '':_-'' then False
        else tag_prefix (tl rest))"
  by pat_completeness auto
termination
proof (relation "measure length")
  fix s x :: string
  assume x: "x = dropWhile is_letter s" and "\<not> (takeWhile is_letter s = [] \<or> x = [])"
  then have "length (tl x) < length x" by simp
  moreover have "length x \<le> length s" unfolding x by (rule length_dropWhile_le)
  ultimately show "(tl x, s) \<in> measure length" by simp
qed simp

declare tag_prefix.simps [simp del]

text \<open>\<open>_address\<close>: the six hexadecimal digits at the end of an identifier with tags.\<close>

definition address_in :: "string \<Rightarrow> string option" where
  "address_in text = (let s = py_strip text; k = length s - 6 in
     if length s \<ge> 6 \<and> list_all is_hex_char (drop k s) \<and> tag_prefix (take k s)
     then Some (py_lower (drop k s)) else None)"

definition callsign_of :: "(pyval \<Rightarrow> string) \<Rightarrow> dict \<Rightarrow> string" where
  "callsign_of rp track = py_upper (py_strip (text_of rp track ''callsign''))"

definition name_min_len :: nat where
  "name_min_len = 8"

text \<open>The last part of \<open>re.split(r"[:/]", s)\<close>.\<close>

definition last_part :: "string \<Rightarrow> string" where
  "last_part s = rev (takeWhile (\<lambda>c. c \<noteq> CHR '':'' \<and> c \<noteq> CHR ''/'') (rev s))"

fun name_key :: "(pyval \<Rightarrow> string) \<Rightarrow> dict \<Rightarrow> string list \<Rightarrow> string option" where
  "name_key rp track [] = None"
| "name_key rp track (field # fields) =
     (let token = py_lower (py_strip (last_part (text_of rp track field))) in
      if length token \<ge> name_min_len \<and> list_ex is_ascii_digit token then Some token
      else name_key rp track fields)"

definition dimension_of :: "string \<Rightarrow> string" where
  "dimension_of topic = (case find (\<lambda>part. part \<in> set [''air'', ''land'', ''sea'', ''space''])
       (py_split CHR ''/'' topic) of None \<Rightarrow> '''' | Some part \<Rightarrow> part)"

definition rank :: "dict \<Rightarrow> string \<Rightarrow> int" where
  "rank track topic =
     2 * of_bool (list_ex (\<lambda>part. part \<in> set [''friendly'', ''hostile'', ''neutral'']) (py_split CHR ''/'' topic)) +
     of_bool (\<not> absent track ''heading_deg'' \<or> \<not> absent track ''speed_mps'')"

subsection \<open>Twin index\<close>

record keyed_entry =
  k_seen :: real
  k_lat :: pyval
  k_lon :: pyval
  k_name :: string

record loose_entry =
  l_seen :: real
  l_address :: "string option"
  l_lat :: pyval
  l_lon :: pyval
  l_callsign :: string

record named_entry =
  n_seen :: real
  n_lat :: pyval
  n_lon :: pyval
  n_rank :: int

type_synonym group = "(string \<times> named_entry) list"

text \<open>The last field of an entry of \<open>_keyed\<close> is the callsign, of \<open>_by_call\<close> the address.\<close>

record twin_index =
  keyed :: "(string \<times> keyed_entry) list"
  by_call :: "(string \<times> keyed_entry) list"
  loose :: "(string \<times> loose_entry) list"
  named :: "((string \<times> string) \<times> group) list"

definition new_twin_index :: twin_index where
  "new_twin_index = \<lparr> keyed = [], by_call = [], loose = [], named = [] \<rparr>"

definition twin_fresh_s :: real where
  "twin_fresh_s = 120"

definition twin_near_km :: real where
  "twin_near_km = 10"

definition entry_is_twin :: "twin_index \<Rightarrow> real \<Rightarrow> loose_entry \<Rightarrow> bool option" where
  "entry_is_twin x now e =
     (if now - l_seen e > twin_fresh_s then Some False
      else if (case l_address e of None \<Rightarrow> False
          | Some a \<Rightarrow> (case map_of (keyed x) a of None \<Rightarrow> False | Some k \<Rightarrow> now - k_seen k \<le> twin_fresh_s))
        then Some True
      else (case (if length (l_callsign e) \<ge> 4 then map_of (by_call x) (l_callsign e) else None) of
          None \<Rightarrow> Some False
        | Some same \<Rightarrow>
            if now - k_seen same > twin_fresh_s then Some False
            else do { d \<leftarrow> km (l_lat e) (l_lon e) (k_lat same) (k_lon same); Some (d \<le> twin_near_km) }))"

definition forget :: "real \<Rightarrow> twin_index \<Rightarrow> twin_index" where
  "forget now x = x\<lparr>
     keyed := filter (\<lambda>(k, v). \<not> now - k_seen v > 3600) (keyed x),
     by_call := filter (\<lambda>(k, v). \<not> now - k_seen v > 3600) (by_call x),
     loose := filter (\<lambda>(k, v). \<not> now - l_seen v > 3600) (loose x),
     named := filter (\<lambda>(k, g). \<not> list_all (\<lambda>(m, v). now - n_seen v > 3600) g) (named x)\<rparr>"

text \<open>\<open>min(group, key=lambda m: (-group[m][3], m))\<close>.\<close>

definition best_of :: "group \<Rightarrow> string" where
  "best_of g = snd (Min (set (map (\<lambda>(m, v). (- n_rank v, m)) g)))"

definition named_twins ::
  "(pyval \<Rightarrow> string) \<Rightarrow> dict \<Rightarrow> string \<Rightarrow> pyval \<Rightarrow> pyval \<Rightarrow> string \<Rightarrow> real \<Rightarrow> twin_index \<Rightarrow> twin_index \<times> string list option" where
  "named_twins rp track uid lat lon topic now x =
     (case name_key rp track [''callsign'', ''label'', ''uid''] of
        None \<Rightarrow> (x, Some [])
      | Some name \<Rightarrow>
          let key = (dimension_of topic, name);
              group = (case map_of (named x) key of None \<Rightarrow> [] | Some g \<Rightarrow> g);
              group = AList.update uid \<lparr> n_seen = now, n_lat = lat, n_lon = lon, n_rank = rank track topic \<rparr> group;
              group = filter (\<lambda>(m, v). \<not> now - n_seen v > twin_fresh_s) group;
              best = best_of group
          in (x\<lparr>named := AList.update key group (named x)\<rparr>,
              case map_of group best of
                None \<Rightarrow> None
              | Some b \<Rightarrow> map_option (map fst) (filter_opt (\<lambda>(m, v).
                  if m = best then Some False
                  else do { d \<leftarrow> km (n_lat v) (n_lon v) (n_lat b) (n_lon b); Some (d \<le> twin_near_km) }) group)))"

text \<open>\<open>track.get("uid") or track.get("icao24")\<close>; \<open>None\<close> when it is false.\<close>

definition uid_or_address :: "dict \<Rightarrow> pyval option" where
  "uid_or_address track = (if holds track ''uid'' then dget track ''uid''
     else if holds track ''icao24'' then dget track ''icao24'' else None)"

definition twin_observe ::
  "(pyval \<Rightarrow> string) \<Rightarrow> dict \<Rightarrow> real \<Rightarrow> string \<Rightarrow> twin_index \<Rightarrow> twin_index \<times> string list option" where
  "twin_observe rp track now topic x =
     (case (dget track ''lat_deg'', dget track ''lon_deg'', uid_or_address track) of
        (Some lat, Some lon, Some u) \<Rightarrow>
          let uid = py_str rp u in
          if holds track ''_delete'' \<or> lat = VNone \<or> lon = VNone \<or> holds track ''geometry'' \<or>
             ends_with ''-TRAIL'' uid
          then (x, Some [])
          else let
            callsign = callsign_of rp track;
            icao = py_lower (py_strip (text_of rp track ''icao24''))
          in if icao \<noteq> [] then let
              x = x\<lparr>keyed := AList.update icao \<lparr> k_seen = now, k_lat = lat, k_lon = lon, k_name = callsign \<rparr> (keyed x)\<rparr>;
              x = (if length callsign \<ge> 4
                then x\<lparr>by_call := AList.update callsign \<lparr> k_seen = now, k_lat = lat, k_lon = lon, k_name = icao \<rparr> (by_call x)\<rparr>
                else x)
            in (x, map_option (map fst) (filter_opt (\<lambda>(u, e). entry_is_twin x now e) (loose x)))
          else let
            address = (case address_in uid of Some a \<Rightarrow> Some a | None \<Rightarrow> address_in (text_of rp track ''callsign''));
            e = \<lparr> l_seen = now, l_address = address, l_lat = lat, l_lon = lon, l_callsign = callsign \<rparr>;
            x = forget now (x\<lparr>loose := AList.update uid e (loose x)\<rparr>)
          in (case entry_is_twin x now e of
                None \<Rightarrow> (x, None)
              | Some True \<Rightarrow> (x, Some [uid])
              | Some False \<Rightarrow> named_twins rp track uid lat lon topic now x)
      | _ \<Rightarrow> (x, Some []))"

subsection \<open>Suppressions at a layer\<close>

record suppressions =
  until :: "(string \<times> real) list"
  military :: "(string \<times> real) list"

text \<open>
  The document of an announcement: \<open>None\<close> is a payload that is not JSON. Anything but a
  dictionary is ignored.
\<close>

definition on_twin_sample :: "(pyval \<Rightarrow> string) \<Rightarrow> real \<Rightarrow> pyval option \<Rightarrow> real \<Rightarrow> suppressions \<Rightarrow> suppressions" where
  "on_twin_sample rp ttl doc now s = (case doc of
     Some (VDict d) \<Rightarrow>
       (if holds d ''uid'' then s\<lparr>until := AList.update (text_of rp d ''uid'') (now + ttl) (until s)\<rparr> else s)
   | _ \<Rightarrow> s)"

definition on_military :: "(pyval \<Rightarrow> string) \<Rightarrow> real \<Rightarrow> pyval option \<Rightarrow> real \<Rightarrow> suppressions \<Rightarrow> suppressions" where
  "on_military rp ttl doc now s = (case doc of
     Some (VDict d) \<Rightarrow> (let icao = py_lower (text_of rp d ''icao24'') in
       if icao \<noteq> [] then s\<lparr>military := AList.update icao (now + ttl) (military s)\<rparr> else s)
   | _ \<Rightarrow> s)"

definition runs_until :: "(string \<times> real) list \<Rightarrow> string \<Rightarrow> real" where
  "runs_until t k = (case map_of t k of None \<Rightarrow> 0 | Some v \<Rightarrow> v)"

definition is_civil_copy :: "(pyval \<Rightarrow> string) \<Rightarrow> dict \<Rightarrow> string \<Rightarrow> real \<Rightarrow> suppressions \<Rightarrow> bool" where
  "is_civil_copy rp track topic now s = (let icao = py_lower (text_of rp track ''icao24'') in
     icao \<noteq> [] \<and> contains_str ''/civ/aircraft'' topic \<and> runs_until (military s) icao > now)"

definition is_suppressed :: "(pyval \<Rightarrow> string) \<Rightarrow> dict \<Rightarrow> real \<Rightarrow> suppressions \<Rightarrow> bool" where
  "is_suppressed rp track now s \<longleftrightarrow>
     \<not> holds track ''icao24'' \<and> holds track ''uid'' \<and> runs_until (until s) (text_of rp track ''uid'') > now"

subsection \<open>Strike index\<close>

text \<open>\<open>time.strftime("%Y-%m-%d", time.gmtime(t))\<close>, for years of four digits.\<close>

definition utc_day :: "real \<Rightarrow> string" where
  "utc_day t = civil_day (\<lfloor>t\<rfloor> div 86400)"

text \<open>\<open>\d\{4\}-\d\{2\}-\d\{2\}\<close> at the start of a text, and its first occurrence.\<close>

definition day_at :: "string \<Rightarrow> bool" where
  "day_at s \<longleftrightarrow> length s \<ge> 10 \<and>
     list_all2 (\<lambda>c k. if k = (0 :: nat) then is_ascii_digit c else c = CHR ''-'')
       (take 10 s) [0, 0, 0, 0, 1, 0, 0, 1, 0, 0]"

fun find_day :: "string \<Rightarrow> string option" where
  "find_day [] = None"
| "find_day (c # s) = (if day_at (c # s) then Some (take 10 (c # s)) else find_day s)"

definition strike_day :: "(pyval \<Rightarrow> string) \<Rightarrow> dict \<Rightarrow> real \<Rightarrow> string option" where
  "strike_day rp track clock = (case find_day (text_of rp track ''event_date'') of
     Some d \<Rightarrow> Some d
   | None \<Rightarrow> (case find_day (text_of rp track ''uid'') of
       Some d \<Rightarrow> Some d
     | None \<Rightarrow> map_option utc_day
         (if holds track ''_ts'' then dget track ''_ts'' \<bind> number else Some clock)))"

definition strike_sources :: "string list" where
  "strike_sources = [''/land/dronestrikemap/strike/'', ''/land/geoconfirmed/event/'']"

definition is_strike_topic :: "string \<Rightarrow> bool" where
  "is_strike_topic topic \<longleftrightarrow> list_ex (\<lambda>src. contains_str src topic) strike_sources"

text \<open>The segment that \<open>/(friendly|hostile|neutral|unknown)/\<close> finds first.\<close>

definition side_of :: "string \<Rightarrow> string option" where
  "side_of topic = find (\<lambda>p. p \<in> set [''friendly'', ''hostile'', ''neutral'', ''unknown''])
     (butlast (tl (py_split CHR ''/'' topic)))"

record strike =
  s_seen :: real
  s_lat :: real
  s_lon :: real
  s_uncertainty :: real
  s_topic :: string
  s_type :: string

type_synonym strike_group = "(string \<times> strike) list"
type_synonym strike_index = "((string \<times> string) \<times> strike_group) list"

definition metres :: "strike \<Rightarrow> strike \<Rightarrow> real" where
  "metres a b = (let dlat = (s_lat a - s_lat b) * 111320;
     dlon = (s_lon a - s_lon b) * 111320 * cos (pi * s_lat a / 180)
   in sqrt (dlat\<^sup>2 + dlon\<^sup>2))"

definition strike_fresh_s :: real where
  "strike_fresh_s = 3 * 3600"

text \<open>The members in the order of uncertainty and identity; who is near a kept one goes.\<close>

fun settle_strikes :: "real \<Rightarrow> strike_group \<Rightarrow> strike_group \<Rightarrow> strike_group \<Rightarrow> strike_group \<times> strike_group" where
  "settle_strikes near [] kept retract = (kept, retract)"
| "settle_strikes near ((m, v) # ms) kept retract =
     (if list_ex (\<lambda>(k, w). metres v w \<le> near) kept then settle_strikes near ms kept (retract @ [(m, v)])
      else settle_strikes near ms (kept @ [(m, v)]) retract)"

definition by_uncertainty :: "strike_group \<Rightarrow> strike_group" where
  "by_uncertainty g = sort_key (\<lambda>(m, v). (s_uncertainty v, m)) g"

text \<open>A marker joins its group: the group, and the markers to retract.\<close>

definition strike_join ::
  "real \<Rightarrow> real \<Rightarrow> string \<Rightarrow> strike \<Rightarrow> strike_group \<Rightarrow> strike_group \<times> (string \<times> string \<times> string) list" where
  "strike_join near now uid v grp =
     (let grp = filter (\<lambda>(m, v). \<not> now - s_seen v > strike_fresh_s) (AList.update uid v grp);
          (kept, retract) = settle_strikes near (by_uncertainty grp) [] []
      in (grp, map (\<lambda>(m, v). (m, s_topic v, s_type v)) retract))"

text \<open>
  \<open>observe\<close>: the index, and the markers to retract with their topic and type. \<open>near\<close> is the
  configured radius.
\<close>

definition strike_observe ::
  "(pyval \<Rightarrow> string) \<Rightarrow> real \<Rightarrow> dict \<Rightarrow> real \<Rightarrow> string \<Rightarrow> strike_index \<Rightarrow> strike_index \<times> (string \<times> string \<times> string) list option" where
  "strike_observe rp near track now topic x =
     (let uid = text_of rp track ''uid'' in
      case side_of topic of
        None \<Rightarrow> (x, Some [])
      | Some side \<Rightarrow>
          if uid = [] \<or> \<not> is_strike_topic topic \<or> dget track ''role'' = Some (VStr ''other'') then (x, Some [])
          else if holds track ''_delete'' then (map (\<lambda>(k, g). (k, AList.delete uid g)) x, Some [])
          else case do {
              lat \<leftarrow> dget track ''lat_deg'' \<bind> py_float;
              lon \<leftarrow> dget track ''lon_deg'' \<bind> py_float;
              uncertainty \<leftarrow> (if holds track ''position_uncertainty_m''
                then dget track ''position_uncertainty_m'' \<bind> py_float else Some 0);
              Some (lat, lon, uncertainty)
            } of
              None \<Rightarrow> (x, Some [])
            | Some (lat, lon, uncertainty) \<Rightarrow>
                let x = filter (\<lambda>(k, g). \<not> list_all (\<lambda>(m, v). now - s_seen v > strike_fresh_s) g) x in
                (case strike_day rp track now of
                   None \<Rightarrow> (x, None)
                 | Some day \<Rightarrow>
                     let key = (side, day);
                         group = (case map_of x key of None \<Rightarrow> [] | Some g \<Rightarrow> g);
                         v = \<lparr> s_seen = now, s_lat = lat, s_lon = lon, s_uncertainty = uncertainty, s_topic = topic,
                           s_type = (if holds track ''type'' then text_of rp track ''type'' else ''strike'') \<rparr>;
                         (group, retract) = strike_join near now uid v group
                     in (AList.update key group x, Some retract)))"

subsection \<open>Echo filter\<close>

record echo_filter =
  ids :: "(string \<times> real) list"
  names :: "(string \<times> real) list"
  cells :: "((int \<times> int) \<times> real) list"

definition min_id_len :: nat where "min_id_len = 10"
definition min_name_len :: nat where "min_name_len = 8"
definition max_remembered :: nat where "max_remembered = 50000"
definition generic_names :: "string list" where "generic_names = [''dronu-sensor'', ''sensor'', ''unknown'']"

text \<open>\<open>int(x / POSITION_CELL_DEG)\<close> truncates toward zero.\<close>

definition cell_index :: "real \<Rightarrow> int" where
  "cell_index x = (let y = x / (1 / 10000) in if y \<ge> 0 then \<lfloor>y\<rfloor> else \<lceil>y\<rceil>)"

definition cell_of :: "pyval \<Rightarrow> pyval \<Rightarrow> (int \<times> int) option" where
  "cell_of lat lon = do {
     la \<leftarrow> py_float lat;
     lo \<leftarrow> py_float lon;
     Some (cell_index la, cell_index lo)
   }"

text \<open>The texts of some fields that are not empty, once each.\<close>

definition field_texts :: "(string \<Rightarrow> string) \<Rightarrow> (pyval \<Rightarrow> string) \<Rightarrow> dict \<Rightarrow> string list \<Rightarrow> string list" where
  "field_texts f rp d ks = remdups (map (\<lambda>k. f (text_of rp d k)) (filter (holds d) ks))"

definition stamp_all :: "real \<Rightarrow> string list \<Rightarrow> (string \<times> real) list \<Rightarrow> (string \<times> real) list" where
  "stamp_all now ks t = fold (\<lambda>k. AList.update k now) ks t"

text \<open>\<open>for stale in sorted(table, key=table.get)[:len(table) - MAX]: del table[stale]\<close>.\<close>

definition forget_oldest :: "nat \<Rightarrow> (string \<times> real) list \<Rightarrow> (string \<times> real) list" where
  "forget_oldest limit t =
     (let stale = map fst (take (length t - limit) (sort_key snd t))
      in filter (\<lambda>(k, v). k \<notin> set stale) t)"

definition echo_sample :: "(pyval \<Rightarrow> string) \<Rightarrow> nat \<Rightarrow> pyval option \<Rightarrow> real \<Rightarrow> echo_filter \<Rightarrow> echo_filter option" where
  "echo_sample rp limit doc now x = (case doc of
     Some (VDict data) \<Rightarrow>
       if holds data ''_delete'' \<or> starts_with ''backbone:'' (text_of rp data ''_src'') then Some x
       else do {
         x \<leftarrow> (if holds data ''sensor_id'' \<and> \<not> absent data ''lat_deg'' \<and> \<not> absent data ''lon_deg''
           then do {
             lat \<leftarrow> dget data ''lat_deg'';
             lon \<leftarrow> dget data ''lon_deg'';
             c \<leftarrow> cell_of lat lon;
             Some (x\<lparr>cells := AList.update c now (cells x)\<rparr>)
           } else Some x);
         let new_ids = field_texts py_upper rp data [''sensor_id'', ''uid''];
         let new_names = filter (\<lambda>n. length n \<ge> min_name_len \<and> n \<notin> set generic_names)
           (field_texts (\<lambda>s. py_lower (py_strip s)) rp data [''sensor_name'', ''callsign'']);
         Some (x\<lparr>ids := forget_oldest limit (stamp_all now new_ids (ids x)),
           names := forget_oldest limit (stamp_all now new_names (names x))\<rparr>)
       }
   | _ \<Rightarrow> Some x)"

definition echo_ttl :: real where
  "echo_ttl = 12 * 3600"

text \<open>\<open>now - table.get(k, -inf) <= ttl\<close>.\<close>

definition fresh_in :: "('k \<times> real) list \<Rightarrow> real \<Rightarrow> 'k \<Rightarrow> bool" where
  "fresh_in t now k = (case map_of t k of None \<Rightarrow> False | Some seen \<Rightarrow> now - seen \<le> echo_ttl)"

definition at_a_sensor :: "dict \<Rightarrow> real \<Rightarrow> echo_filter \<Rightarrow> bool" where
  "at_a_sensor record now x =
     (if holds record ''icao24'' then False
      else case do {
          lat \<leftarrow> dget record ''lat_deg'';
          lon \<leftarrow> dget record ''lon_deg'';
          if lat = VNone \<or> lon = VNone then None else cell_of lat lon
        } of
        None \<Rightarrow> False
      | Some (row, col) \<Rightarrow>
          list_ex (\<lambda>dr. list_ex (\<lambda>dc. fresh_in (cells x) now (row + dr, col + dc)) [- 1, 0, 1]) [- 1, 0, 1])"

definition has_id :: "(pyval \<Rightarrow> string) \<Rightarrow> pyval \<Rightarrow> real \<Rightarrow> echo_filter \<Rightarrow> bool" where
  "has_id rp identifier now x =
     (let key = py_upper (if truthy identifier then py_str rp identifier else '''')
      in length key \<ge> min_id_len \<and> fresh_in (ids x) now key)"

text \<open>\<open>dropped\<close> is the operators' regular expression; it holds of nothing when none is set.\<close>

definition is_echo :: "(pyval \<Rightarrow> string) \<Rightarrow> (string \<Rightarrow> bool) \<Rightarrow> dict \<Rightarrow> real \<Rightarrow> echo_filter \<Rightarrow> bool" where
  "is_echo rp dropped record now x =
     (if list_ex (\<lambda>k. dropped (text_of rp record k)) [''uid'', ''callsign'', ''label''] then True
      else let
        uid = py_upper (text_of rp record ''uid'');
        labels = filter (\<lambda>l. l \<noteq> []) (map (\<lambda>k. py_lower (py_strip (text_of rp record k))) [''callsign'', ''label'']);
        live_ids = filter (\<lambda>i. length i \<ge> min_id_len) (map fst (filter (\<lambda>(i, seen). now - seen \<le> echo_ttl) (ids x)));
        live_names = map fst (filter (\<lambda>(n, seen). now - seen \<le> echo_ttl) (names x));
        texts = uid # map py_upper labels
      in list_ex (\<lambda>i. list_ex (\<lambda>text. contains_str i text) texts) live_ids \<or>
         list_ex (\<lambda>l. l \<in> set live_names) labels \<or> at_a_sensor record now x)"

subsection \<open>Force tracks of this pod\<close>

text \<open>\<open>re.sub(r"[^A-Z0-9]+", "-", s)\<close>: whether the last character was already replaced is the flag.\<close>

fun squeeze :: "bool \<Rightarrow> string \<Rightarrow> string" where
  "squeeze b [] = []"
| "squeeze b (c # s) =
     (if is_ascii_digit c \<or> is_letter c \<and> char_upper c = [c] then c # squeeze False s
      else if b then squeeze True s else CHR ''-'' # squeeze True s)"

definition force_tag :: "string \<Rightarrow> string" where
  "force_tag identity = strip_by (\<lambda>c. c = CHR ''-'') (squeeze False (py_upper identity))"

text \<open>The namespace of the pod is the argument.\<close>

definition own_force_track_system :: "string \<Rightarrow> string" where
  "own_force_track_system identity =
     (let tag = force_tag identity in
      if tag = [] then ''EFDI'' else take 30 (rev (dropWhile (\<lambda>c. c = CHR ''-'') (rev (''EFDI-'' @ tag)))))"

definition is_own_force_track ::
  "(pyval \<Rightarrow> string) \<Rightarrow> string \<Rightarrow> dict \<Rightarrow> real \<Rightarrow> echo_filter option \<Rightarrow> bool" where
  "is_own_force_track rp identity track now echoes \<longleftrightarrow>
     py_upper (text_of rp track ''source_system'') = own_force_track_system identity \<and>
       py_upper (text_of rp track ''source_subsystem'') = ''TAK'' \<or>
     (case echoes of None \<Rightarrow> False
      | Some x \<Rightarrow> holds track ''transponder_id'' \<and>
          (case dget track ''transponder_id'' of None \<Rightarrow> False | Some v \<Rightarrow> has_id rp v now x))"

text \<open>The cut to thirty characters makes the mark of two pods the same.\<close>

lemma force_track_systems_collide:
  "own_force_track_system ''LTU/CISB/zenoh_gateway_vilnius'' = own_force_track_system ''LTU/CISB/zenoh_gateway_vilkaviskis''"
  by code_simp

lemma partner_taken_for_own:
  "is_own_force_track rp ''LTU/CISB/zenoh_gateway_vilnius''
     [(''source_system'', VStr (own_force_track_system ''LTU/CISB/zenoh_gateway_vilkaviskis'')), (''source_subsystem'', VStr ''TAK'')] now None"
proof -
  have "own_force_track_system ''LTU/CISB/zenoh_gateway_vilkaviskis'' = ''EFDI-LTU-CISB-ZENOH-GATEWAY-VI''"
    "py_upper ''EFDI-LTU-CISB-ZENOH-GATEWAY-VI'' = ''EFDI-LTU-CISB-ZENOH-GATEWAY-VI''" "py_upper ''TAK'' = ''TAK''"
    by code_simp+
  then show ?thesis
    by (simp add: is_own_force_track_def force_track_systems_collide text_of_def dget_def truthy_def py_str_def)
qed

subsection \<open>Ghost filter\<close>

definition max_bits :: nat where "max_bits = 2"
definition ghost_window :: real where "ghost_window = 600"

text \<open>\<open>int(s, 16)\<close>: white space, a sign, a prefix and single underscores are allowed.\<close>

fun hex_run :: "string \<Rightarrow> bool" where
  "hex_run [] \<longleftrightarrow> False"
| "hex_run [c] \<longleftrightarrow> is_hex_char c"
| "hex_run (c # e # s) \<longleftrightarrow> is_hex_char c \<and> (if e = CHR ''_'' then hex_run s else hex_run (e # s))"

definition int_of_hex :: "string \<Rightarrow> int option" where
  "int_of_hex s = (case split_sign (py_strip s) of (sg, r) \<Rightarrow>
     let body = (if py_lower (take 2 r) = ''0x''
           then if take 1 (drop 2 r) = ''_'' then drop 3 r else drop 2 r else r)
     in if hex_run body then Some (sg * int (str_val 16 (py_lower (filter is_hex_char body)))) else None)"

text \<open>\<open>bin(x).count("1")\<close>.\<close>

fun ones :: "nat \<Rightarrow> nat" where
  "ones n = (if n = 0 then 0 else n mod 2 + ones (n div 2))"

declare ones.simps [simp del]

definition bit_distance :: "int \<Rightarrow> int \<Rightarrow> nat" where
  "bit_distance a b = ones (nat \<bar>a XOR b\<bar>)"

type_synonym sightings = "(int \<times> real) list"
type_synonym ghost_filter = "(string \<times> sightings) list"

definition known_under :: "real \<Rightarrow> ghost_filter \<Rightarrow> string \<Rightarrow> sightings" where
  "known_under now x k =
     filter (\<lambda>(a, t). now - t \<le> ghost_window) (case map_of x k of None \<Rightarrow> [] | Some g \<Rightarrow> g)"

definition ghost_under :: "int \<Rightarrow> sightings \<Rightarrow> bool" where
  "ghost_under address known \<longleftrightarrow> address \<notin> set (map fst known) \<and>
     list_ex (\<lambda>(a, t). bit_distance address a \<le> max_bits) known"

definition ghost_keys :: "string \<Rightarrow> string \<Rightarrow> string list" where
  "ghost_keys callsign registration =
     map (\<lambda>(prefix, value). prefix @ value) (filter (\<lambda>(prefix, value). value \<noteq> [])
       [(''C:'', py_upper (py_strip callsign)), (''R:'', py_upper (py_strip registration))])"

definition note_address :: "int \<Rightarrow> real \<Rightarrow> bool \<Rightarrow> ghost_filter \<Rightarrow> string \<Rightarrow> ghost_filter \<Rightarrow> ghost_filter" where
  "note_address address now ghost before k x =
     (let known = known_under now before k in
      AList.update k (if address \<in> set (map fst known) \<or> \<not> ghost then AList.update address now known else known) x)"

text \<open>The limit on the number of keys; \<open>None\<close> is an address that is not hexadecimal.\<close>

definition is_ghost :: "nat \<Rightarrow> string \<Rightarrow> string \<Rightarrow> string \<Rightarrow> real \<Rightarrow> ghost_filter \<Rightarrow> ghost_filter \<times> bool option" where
  "is_ghost limit icao callsign registration now x =
     (let ks = ghost_keys callsign registration in
      if ks = [] \<or> icao = [] then (x, Some False)
      else case int_of_hex icao of
        None \<Rightarrow> (x, None)
      | Some address \<Rightarrow>
          let ghost = list_ex (\<lambda>k. ghost_under address (known_under now x k)) ks;
              x' = fold (note_address address now ghost x) ks x
          in (if length x' > limit then filter (\<lambda>(c, v). v \<noteq> []) x' else x', Some ghost))"

subsection \<open>Twin filter\<close>

type_synonym twin_filter = "(string \<times> (pyval \<times> pyval \<times> real)) list"

definition twin_window :: real where "twin_window = 180"
definition twin_radius_km :: real where "twin_radius_km = 50"

definition is_twin_copy :: "(pyval \<Rightarrow> string) \<Rightarrow> nat \<Rightarrow> dict \<Rightarrow> real \<Rightarrow> twin_filter \<Rightarrow> twin_filter \<times> bool option" where
  "is_twin_copy rp limit record now x =
     (let callsign = callsign_of rp record in
      case (dget record ''lat_deg'', dget record ''lon_deg'') of
        (Some lat, Some lon) \<Rightarrow>
          if length callsign < 3 \<or> lat = VNone \<or> lon = VNone then (x, Some False)
          else if holds record ''icao24'' then
            (let x = AList.update callsign (lat, lon, now) x
             in (if length x > limit then filter (\<lambda>(c, _, _, t). now - t \<le> twin_window) x else x, Some False))
          else (case map_of x callsign of
              None \<Rightarrow> (x, Some False)
            | Some (slat, slon, t) \<Rightarrow>
                if now - t > twin_window then (x, Some False)
                else (x, do {
                  la \<leftarrow> number lat;
                  lo \<leftarrow> number lon;
                  sla \<leftarrow> number slat;
                  slo \<leftarrow> number slon;
                  Some (((la - sla) * 111)\<^sup>2 + ((lo - slo) * 111 * max 0.1 (cos (pi * la / 180)))\<^sup>2 \<le> twin_radius_km\<^sup>2)
                }))
      | _ \<Rightarrow> (x, Some False))"

subsection \<open>Marker memory\<close>

definition hold_s :: real where "hold_s = 300"

text \<open>Whether a symbol declares an affiliation; \<open>None\<close> when it is no symbol.\<close>

definition declared :: "string \<Rightarrow> bool option" where
  "declared code =
     (if starts_with ''a-'' code \<and> length code > 2 then Some (code ! 2 \<notin> set ''up'')
      else if length code \<ge> 2 \<and> code ! 0 = CHR ''S'' then Some (code ! 1 \<notin> set ''UP'')
      else None)"

type_synonym markers = "(string \<times> (real \<times> string)) list"

definition settle :: "real \<Rightarrow> nat \<Rightarrow> string \<Rightarrow> string \<Rightarrow> real \<Rightarrow> markers \<Rightarrow> markers \<times> string" where
  "settle hold limit uid code now x = (case declared code of
     None \<Rightarrow> (x, code)
   | Some True \<Rightarrow> (AList.update uid (now, code) x, code)
   | Some False \<Rightarrow> (case map_of x uid of
       Some (seen, kept) \<Rightarrow>
         if now - seen \<le> hold then (x, kept)
         else (if length x > limit then filter (\<lambda>(u, seen, _). now - seen \<le> hold) x else x, code)
     | None \<Rightarrow> (if length x > limit then filter (\<lambda>(u, seen, _). now - seen \<le> hold) x else x, code)))"

subsection \<open>Merged strikes\<close>

lemma settle_strikes_parts:
  "settle_strikes near ms kept retract = (kept', retract') \<Longrightarrow>
     \<exists>ks rs. kept' = kept @ ks \<and> retract' = retract @ rs \<and> set ms = set ks \<union> set rs \<and>
       (distinct (map fst ms) \<longrightarrow> set (map fst ks) \<inter> set (map fst rs) = {})"
proof (induction near ms kept retract arbitrary: kept' retract' rule: settle_strikes.induct)
  case (2 near m v ms kept retract)
  show ?case
  proof (cases "list_ex (\<lambda>(k, w). metres v w \<le> near) kept")
    case True
    with "2.prems" "2.IH"(1) [OF True] obtain ks rs where
      "kept' = kept @ ks" "retract' = (retract @ [(m, v)]) @ rs" "set ms = set ks \<union> set rs"
      "distinct (map fst ms) \<longrightarrow> set (map fst ks) \<inter> set (map fst rs) = {}" by auto
    then show ?thesis
      by (intro exI [of _ ks] exI [of _ "(m, v) # rs"]) (auto simp: image_iff)
  next
    case False
    with "2.prems" "2.IH"(2) [OF False] obtain ks rs where
      "kept' = (kept @ [(m, v)]) @ ks" "retract' = retract @ rs" "set ms = set ks \<union> set rs"
      "distinct (map fst ms) \<longrightarrow> set (map fst ks) \<inter> set (map fst rs) = {}" by auto
    then show ?thesis
      by (intro exI [of _ "(m, v) # ks"] exI [of _ rs]) (auto simp: image_iff)
  qed
qed auto

text \<open>Everyone who goes is near someone who stays and came earlier in the order.\<close>

definition covered :: "real \<Rightarrow> (string \<times> strike \<Rightarrow> 'a :: order) \<Rightarrow> strike_group \<Rightarrow> string \<times> strike \<Rightarrow> bool" where
  "covered near f kept x \<longleftrightarrow> (\<exists>y \<in> set kept. metres (snd x) (snd y) \<le> near \<and> f y \<le> f x)"

lemma covered_mono: "covered near f kept x \<Longrightarrow> set kept \<subseteq> set kept' \<Longrightarrow> covered near f kept' x"
  by (auto simp: covered_def)

lemma settle_strikes_near:
  fixes f :: "string \<times> strike \<Rightarrow> 'a :: linorder"
  shows "settle_strikes near ms kept retract = (kept', retract') \<Longrightarrow> sorted (map f ms) \<Longrightarrow>
     \<forall>k \<in> set kept. \<forall>x \<in> set ms. f k \<le> f x \<Longrightarrow> \<forall>x \<in> set retract. covered near f kept x \<Longrightarrow>
     \<forall>x \<in> set retract'. covered near f kept' x"
proof (induction near ms kept retract arbitrary: kept' retract' rule: settle_strikes.induct)
  case (2 near m v ms kept retract)
  show ?case
  proof (cases "list_ex (\<lambda>(k, w). metres v w \<le> near) kept")
    case True
    then obtain y where "y \<in> set kept" "metres v (snd y) \<le> near" by (auto simp: list_ex_iff)
    with "2.prems"(3) have c: "covered near f kept (m, v)" by (auto simp: covered_def)
    show ?thesis
    proof (rule "2.IH"(1) [OF True])
      show "settle_strikes near ms kept (retract @ [(m, v)]) = (kept', retract')" using "2.prems"(1) True by simp
      show "\<forall>x \<in> set (retract @ [(m, v)]). covered near f kept x" using "2.prems"(4) c by auto
    qed (use "2.prems"(2,3) in auto)
  next
    case False
    show ?thesis
    proof (rule "2.IH"(2) [OF False])
      show "settle_strikes near ms (kept @ [(m, v)]) retract = (kept', retract')" using "2.prems"(1) False by simp
      show "\<forall>x \<in> set retract. covered near f (kept @ [(m, v)]) x" using "2.prems"(4) by (auto intro: covered_mono)
    qed (use "2.prems"(2,3) in auto)
  qed
qed auto

definition strike_inv :: "strike_index \<Rightarrow> bool" where
  "strike_inv x \<longleftrightarrow> (\<forall>(k, g) \<in> set x. distinct (map fst g))"

lemma set_update_subset: "set (AList.update k v t) \<subseteq> insert (k, v) (set t)"
  by (induction t) (auto split: if_splits)

lemma distinct_filter_fst: "distinct (map fst g) \<Longrightarrow> distinct (map fst (filter P g))"
  by (induction g) auto

lemma strike_join_keeps:
  assumes "strike_join near now uid v grp = (grp', rs)" and "distinct (map fst grp)"
  shows "distinct (map fst grp')" and "\<forall>(m, w) \<in> set grp'. now - s_seen w \<le> strike_fresh_s"
    and "(m, t, ty) \<in> set rs \<Longrightarrow> \<exists>a k w. (m, a) \<in> set grp' \<and> (k, w) \<in> set grp' \<and> k \<notin> fst ` set rs \<and>
      metres a w \<le> near \<and> (s_uncertainty w, k) < (s_uncertainty a, m)"
proof -
  let ?f = "\<lambda>(m, v). (s_uncertainty v, m)"
  obtain kept gone where st: "settle_strikes near (by_uncertainty grp') [] [] = (kept, gone)"
    and rs: "rs = map (\<lambda>(m, v). (m, s_topic v, s_type v)) gone"
    and g: "grp' = filter (\<lambda>(m, v). \<not> now - s_seen v > strike_fresh_s) (AList.update uid v grp)"
    using assms(1) by (auto simp: strike_join_def Let_def split: prod.splits)
  show d: "distinct (map fst grp')"
    unfolding g by (intro distinct_filter_fst distinct_update assms(2))
  show "\<forall>(m, w) \<in> set grp'. now - s_seen w \<le> strike_fresh_s" by (auto simp: g)
  have sd: "distinct (map fst (by_uncertainty grp'))" "set (by_uncertainty grp') = set grp'"
    using d by (simp_all add: by_uncertainty_def distinct_map)
  from settle_strikes_parts [OF st] sd have parts: "set grp' = set kept \<union> set gone"
    "set (map fst kept) \<inter> set (map fst gone) = {}" by auto
  have "sorted (map ?f (by_uncertainty grp'))" by (simp add: by_uncertainty_def)
  from settle_strikes_near [OF st this] have cov: "\<forall>x \<in> set gone. covered near ?f kept x" by simp
  assume "(m, t, ty) \<in> set rs"
  then obtain a where a: "(m, a) \<in> set gone" by (auto simp: rs)
  with cov obtain k w where kw: "(k, w) \<in> set kept" "metres a w \<le> near" "(s_uncertainty w, k) \<le> (s_uncertainty a, m)"
    by (force simp: covered_def)
  from parts(2) kw(1) a have "k \<notin> fst ` set gone" "k \<noteq> m" by force+
  moreover from this(1) have "k \<notin> fst ` set rs" by (force simp: rs image_iff)
  ultimately show "\<exists>a k w. (m, a) \<in> set grp' \<and> (k, w) \<in> set grp' \<and> k \<notin> fst ` set rs \<and>
      metres a w \<le> near \<and> (s_uncertainty w, k) < (s_uncertainty a, m)"
    using kw a parts(1) by (intro exI [of _ a] exI [of _ k] exI [of _ w]) auto
qed

lemma strike_observe_cases:
  assumes "strike_observe rp near track now topic x = (x', Some rs)" and "strike_inv x"
  shows "strike_inv x'" and "rs \<noteq> [] \<Longrightarrow> \<exists>key g uid v grp. map_of x' key = Some grp \<and> distinct (map fst g) \<and>
    strike_join near now uid v g = (grp, rs)"
proof -
  let ?p = "do {
      lat \<leftarrow> dget track ''lat_deg'' \<bind> py_float;
      lon \<leftarrow> dget track ''lon_deg'' \<bind> py_float;
      uncertainty \<leftarrow> (if holds track ''position_uncertainty_m''
        then dget track ''position_uncertainty_m'' \<bind> py_float else Some 0);
      Some (lat, lon, uncertainty)
    }"
  have del: "strike_inv (map (\<lambda>(k, g). (k, AList.delete u g)) x)" for u
    using assms(2) by (fastforce simp: strike_inv_def distinct_delete)
  have "strike_inv x' \<and> (rs = [] \<or> (\<exists>key g uid v grp. map_of x' key = Some grp \<and> distinct (map fst g) \<and>
    strike_join near now uid v g = (grp, rs)))"
  proof (cases "?p = None \<or> side_of topic = None")
    case True
    with assms del show ?thesis
      by (auto simp: strike_observe_def Let_def split: if_splits option.splits)
  next
    case False
    then obtain lat lon u side where p: "?p = Some (lat, lon, u)" "side_of topic = Some side" by auto
    show ?thesis
    proof (cases "text_of rp track ''uid'' = [] \<or> \<not> is_strike_topic topic \<or>
        dget track ''role'' = Some (VStr ''other'') \<or> holds track ''_delete''")
      case True
      with assms del p(2) show ?thesis
        by (auto simp: strike_observe_def Let_def split: if_splits)
    next
      case n: False
      let ?x = "filter (\<lambda>(k, g). \<not> list_all (\<lambda>(m, v). now - s_seen v > strike_fresh_s) g) x"
      have inv: "strike_inv ?x" using assms(2) by (auto simp: strike_inv_def)
      from assms(1) n p obtain day where day: "strike_day rp track now = Some day"
        by (auto simp: strike_observe_def Let_def split: option.splits)
      define g where "g = (case map_of ?x (side, day) of None \<Rightarrow> [] | Some g \<Rightarrow> g)"
      define v where "v = \<lparr> s_seen = now, s_lat = lat, s_lon = lon, s_uncertainty = u, s_topic = topic,
        s_type = (if holds track ''type'' then text_of rp track ''type'' else ''strike'') \<rparr>"
      obtain grp r where j: "strike_join near now (text_of rp track ''uid'') v g = (grp, r)" by force
      from assms(1) n p day j have res: "x' = AList.update (side, day) grp ?x" "rs = r"
        by (auto simp: strike_observe_def Let_def g_def v_def)
      have dg: "distinct (map fst g)"
      proof (cases "map_of ?x (side, day)")
        case (Some h)
        from map_of_SomeD [OF this] inv have "distinct (map fst h)" unfolding strike_inv_def by fast
        with Some show ?thesis by (simp add: g_def)
      qed (simp add: g_def)
      have "strike_inv x'"
        using set_update_subset [of "(side, day)" grp ?x] inv strike_join_keeps(1) [OF j dg]
        by (auto simp: res strike_inv_def)
      moreover have "map_of x' (side, day) = Some grp" by (simp add: res update_conv')
      ultimately show ?thesis using dg j res by blast
    qed
  qed
  then show "strike_inv x'" and "rs \<noteq> [] \<Longrightarrow> \<exists>key g uid v grp. map_of x' key = Some grp \<and> distinct (map fst g) \<and>
    strike_join near now uid v g = (grp, rs)" by auto
qed

text \<open>
  Merging strikes never hides an attack. Whenever a marker is retracted, another marker of
  the same side and day stays, was itself seen in the last three hours, lies within the configured
  radius, and is the better one: less uncertain, or as uncertain and first by its identity. The
  index keeps one entry per marker and group.
\<close>

theorem strike_merge_keeps_better:
  assumes "strike_inv x" and "strike_observe rp near track now topic x = (x', Some rs)"
  shows "strike_inv x' \<and> (\<forall>(m, t, ty) \<in> set rs. \<exists>key grp a k w. map_of x' key = Some grp \<and>
    (m, a) \<in> set grp \<and> (k, w) \<in> set grp \<and> k \<notin> fst ` set rs \<and> now - s_seen w \<le> strike_fresh_s \<and>
    metres a w \<le> near \<and> (s_uncertainty w, k) < (s_uncertainty a, m))"
proof (intro conjI ballI)
  show "strike_inv x'" by (rule strike_observe_cases(1) [OF assms(2,1)])
  fix r
  assume "r \<in> set rs"
  moreover obtain m t ty where r: "r = (m, t, ty)" by (rule prod_cases3)
  ultimately have m: "(m, t, ty) \<in> set rs" and "rs \<noteq> []" by auto
  from strike_observe_cases(2) [OF assms(2,1) this(2)] obtain key g uid v grp where
    g: "map_of x' key = Some grp" "distinct (map fst g)" "strike_join near now uid v g = (grp, rs)" by blast
  from strike_join_keeps(2) [OF g(3,2)] strike_join_keeps(3) [OF g(3,2) m] g(1)
  show "case r of (m, t, ty) \<Rightarrow> \<exists>key grp a k w. map_of x' key = Some grp \<and>
    (m, a) \<in> set grp \<and> (k, w) \<in> set grp \<and> k \<notin> fst ` set rs \<and> now - s_seen w \<le> strike_fresh_s \<and>
    metres a w \<le> near \<and> (s_uncertainty w, k) < (s_uncertainty a, m)" unfolding r by fast
qed

definition demo_strike :: "real \<Rightarrow> strike" where
  "demo_strike u = \<lparr> s_seen = 0, s_lat = 50, s_lon = 30, s_uncertainty = u,
     s_topic = ''EFDI/land/geoconfirmed/event/hostile/strike'', s_type = ''strike'' \<rparr>"

definition demo_strike_track :: dict where
  "demo_strike_track = [(''uid'', VStr ''a''), (''lat_deg'', VInt 50), (''lon_deg'', VInt 30),
     (''event_date'', VStr ''2024-05-06'')]"

lemma demo_strike_observed:
  "strike_observe (\<lambda>_. []) 100 demo_strike_track 0 ''EFDI/land/geoconfirmed/event/hostile/strike''
      [((''hostile'', ''2024-05-06''), [(''b'', demo_strike 50)])] =
    ([((''hostile'', ''2024-05-06''), [(''b'', demo_strike 50), (''a'', demo_strike 0)])],
     Some [(''b'', ''EFDI/land/geoconfirmed/event/hostile/strike'', ''strike'')])"
proof -
  have "side_of ''EFDI/land/geoconfirmed/event/hostile/strike'' = Some ''hostile''"
    "is_strike_topic ''EFDI/land/geoconfirmed/event/hostile/strike''"
    "find_day ''2024-05-06'' = Some ''2024-05-06''" by code_simp+
  then show ?thesis
    by (simp add: strike_observe_def demo_strike_track_def text_of_def holds_def dget_def truthy_def py_str_def
        py_float_def strike_day_def strike_join_def strike_fresh_s_def demo_strike_def by_uncertainty_def metres_def
        less_eq_prod_def less_prod_def Let_def)
qed

theorem strike_merge_keeps_better_witness:
  "\<exists>key grp a k w. map_of [((''hostile'', ''2024-05-06''), [(''b'', demo_strike 50), (''a'', demo_strike 0)])] key = Some grp \<and>
    (''b'', a) \<in> set grp \<and> (k, w) \<in> set grp \<and> k \<noteq> ''b'' \<and> metres a w \<le> 100 \<and>
    (s_uncertainty w, k) < (s_uncertainty a, ''b'')"
proof -
  have "strike_inv [((''hostile'', ''2024-05-06''), [(''b'', demo_strike 50)])]" by (simp add: strike_inv_def)
  from strike_merge_keeps_better [OF this demo_strike_observed] obtain key grp a k w where
    "map_of [((''hostile'', ''2024-05-06''), [(''b'', demo_strike 50), (''a'', demo_strike 0)])] key = Some grp"
    "(''b'', a) \<in> set grp" "(k, w) \<in> set grp" "k \<noteq> ''b''" "metres a w \<le> 100"
    "(s_uncertainty w, k) < (s_uncertainty a, ''b'')" by auto
  then show ?thesis by blast
qed

subsection \<open>One symbol per object\<close>

type_synonym symbol_event = "string \<times> string \<times> real"

text \<open>The history of a marker memory, and the declaration that counts: the last one.\<close>

fun markers_run :: "real \<Rightarrow> nat \<Rightarrow> symbol_event list \<Rightarrow> markers \<Rightarrow> markers" where
  "markers_run hold limit [] x = x"
| "markers_run hold limit ((uid, code, now) # es) x =
     markers_run hold limit es (fst (settle hold limit uid code now x))"

definition declarations :: "string \<Rightarrow> symbol_event list \<Rightarrow> symbol_event list" where
  "declarations uid es = filter (\<lambda>(u, c, t). u = uid \<and> declared c = Some True) es"

definition last_declared :: "symbol_event list \<Rightarrow> string \<Rightarrow> (real \<times> string) option" where
  "last_declared es uid = (if declarations uid es = [] then None
     else (case last (declarations uid es) of (u, c, t) \<Rightarrow> Some (t, c)))"

definition shown :: "real \<Rightarrow> symbol_event list \<Rightarrow> string \<Rightarrow> string \<Rightarrow> real \<Rightarrow> string" where
  "shown hold es uid code now =
     (if declared code = Some False
      then (case last_declared es uid of
          Some (t, c) \<Rightarrow> if now - t \<le> hold then c else code | None \<Rightarrow> code)
      else code)"

definition remembers :: "real \<Rightarrow> symbol_event list \<Rightarrow> real \<Rightarrow> markers \<Rightarrow> bool" where
  "remembers hold es now x \<longleftrightarrow> distinct (map fst x) \<and>
     (\<forall>uid t c. (map_of x uid = Some (t, c) \<longrightarrow> last_declared es uid = Some (t, c)) \<and>
       (last_declared es uid = Some (t, c) \<longrightarrow> now - t \<le> hold \<longrightarrow> map_of x uid = Some (t, c)))"

lemma last_declared_snoc:
  "last_declared (es @ [(u, c, t)]) uid =
     (if u = uid \<and> declared c = Some True then Some (t, c) else last_declared es uid)"
  by (simp add: last_declared_def declarations_def)

lemma map_of_filter_fresh:
  "distinct (map fst x) \<Longrightarrow> map_of (filter (\<lambda>(u, v). P v) x) u =
     (case map_of x u of None \<Rightarrow> None | Some v \<Rightarrow> if P v then Some v else None)"
proof (induction x)
  case (Cons a x)
  obtain k v where a: "a = (k, v)" by force
  with Cons.prems have "map_of x k = None" by (auto simp: map_of_eq_None_iff)
  with Cons a show ?case by auto
qed simp

lemma remembersI:
  assumes "distinct (map fst x)"
    and "\<And>uid t c. map_of x uid = Some (t, c) \<Longrightarrow> last_declared es uid = Some (t, c)"
    and "\<And>uid t c. last_declared es uid = Some (t, c) \<Longrightarrow> now - t \<le> hold \<Longrightarrow> map_of x uid = Some (t, c)"
  shows "remembers hold es now x"
  unfolding remembers_def using assms by blast

lemma remembersD:
  assumes "remembers hold es now x"
  shows "distinct (map fst x)"
    and "map_of x uid = Some (t, c) \<Longrightarrow> last_declared es uid = Some (t, c)"
    and "last_declared es uid = Some (t, c) \<Longrightarrow> now - t \<le> hold \<Longrightarrow> map_of x uid = Some (t, c)"
  using assms unfolding remembers_def by blast+

lemma remembers_later:
  assumes "remembers hold es t0 x" and "t0 \<le> t1"
  shows "remembers hold es t1 x"
proof (rule remembersI)
  fix uid t c
  assume "last_declared es uid = Some (t, c)" "t1 - t \<le> hold"
  with assms(2) show "map_of x uid = Some (t, c)" by (intro remembersD(3) [OF assms(1)]) simp_all
qed (rule remembersD [OF assms(1)], assumption?)+

lemma remembers_prune:
  "remembers hold es now x \<Longrightarrow> remembers hold es now (filter (\<lambda>(u, seen, c). now - seen \<le> hold) x)"
proof -
  assume r: "remembers hold es now x"
  then have d: "distinct (map fst x)" by (simp add: remembers_def)
  have e: "(\<lambda>(u, seen, c). now - seen \<le> hold) = (\<lambda>(u :: string, v :: real \<times> string). now - fst v \<le> hold)"
    by (auto simp: fun_eq_iff)
  note m = map_of_filter_fresh [OF d, of "\<lambda>v. now - fst v \<le> hold", folded e]
  show ?thesis
  proof (rule remembersI)
    show "distinct (map fst (filter (\<lambda>(u, seen, c). now - seen \<le> hold) x))" by (rule distinct_filter_fst [OF d])
  next
    fix uid t c
    assume "map_of (filter (\<lambda>(u, seen, c). now - seen \<le> hold) x) uid = Some (t, c)"
    then have "map_of x uid = Some (t, c)" unfolding m by (auto split: option.splits if_splits)
    then show "last_declared es uid = Some (t, c)" by (rule remembersD(2) [OF r])
  next
    fix uid t c
    assume a: "last_declared es uid = Some (t, c)" "now - t \<le> hold"
    from remembersD(3) [OF r a] a(2)
    show "map_of (filter (\<lambda>(u, seen, c). now - seen \<le> hold) x) uid = Some (t, c)" unfolding m by simp
  qed
qed

lemma settle_remembers:
  assumes "remembers hold es t0 x" and "t0 \<le> now"
  shows "remembers hold (es @ [(uid, code, now)]) now (fst (settle hold limit uid code now x))"
    and "snd (settle hold limit uid code now x) = shown hold es uid code now"
proof -
  have r: "remembers hold es now x" using assms by (rule remembers_later)
  have same: "remembers hold (es @ [(uid, code, now)]) now y"
    if "declared code \<noteq> Some True" "remembers hold es now y" for y
  proof -
    have e: "last_declared (es @ [(uid, code, now)]) = last_declared es"
      using that(1) by (simp add: fun_eq_iff last_declared_snoc)
    from that(2) show ?thesis unfolding remembers_def e .
  qed
  show "remembers hold (es @ [(uid, code, now)]) now (fst (settle hold limit uid code now x))"
  proof (cases "declared code = Some True")
    case True
    then have "fst (settle hold limit uid code now x) = AList.update uid (now, code) x" by (simp add: settle_def)
    moreover have "remembers hold (es @ [(uid, code, now)]) now (AList.update uid (now, code) x)"
    proof (rule remembersI)
      show "distinct (map fst (AList.update uid (now, code) x))" by (intro distinct_update remembersD [OF r])
      show "last_declared (es @ [(uid, code, now)]) u = Some (t, c)"
        if "map_of (AList.update uid (now, code) x) u = Some (t, c)" for u t c
        using that True remembersD(2) [OF r, of u t c]
        by (cases "u = uid") (simp_all add: update_conv' last_declared_snoc)
      show "map_of (AList.update uid (now, code) x) u = Some (t, c)"
        if "last_declared (es @ [(uid, code, now)]) u = Some (t, c)" "now - t \<le> hold" for u t c
        using that True remembersD(3) [OF r, of u t c]
        by (cases "u = uid") (simp_all add: update_conv' last_declared_snoc)
    qed
    ultimately show ?thesis by simp
  next
    case False
    then show ?thesis
      using same [OF False r] same [OF False remembers_prune [OF r]]
      by (auto simp: settle_def split: option.split)
  qed
  show "snd (settle hold limit uid code now x) = shown hold es uid code now"
  proof (cases "declared code = Some False")
    case True
    show ?thesis
    proof (cases "last_declared es uid")
      case None
      with remembersD(2) [OF r, of uid] have "map_of x uid = None" by (cases "map_of x uid") auto
      with None True show ?thesis by (simp add: settle_def shown_def)
    next
      case (Some tc)
      obtain t c where tc: "tc = (t, c)" by force
      with Some have l: "last_declared es uid = Some (t, c)" by simp
      show ?thesis
      proof (cases "now - t \<le> hold")
        case True
        with remembersD(3) [OF r l] l \<open>declared code = Some False\<close> show ?thesis
          by (simp add: settle_def shown_def)
      next
        case False
        have "map_of x uid = None \<or> map_of x uid = Some (t, c)"
          using remembersD(2) [OF r, of uid] l by (cases "map_of x uid") auto
        with False l \<open>declared code = Some False\<close> show ?thesis by (auto simp: settle_def shown_def)
      qed
    qed
  qed (auto simp: settle_def shown_def split: option.split bool.split)
qed

lemma markers_run_remembers:
  "remembers hold es t0 x \<Longrightarrow> sorted (t0 # map (snd \<circ> snd) fs) \<Longrightarrow>
     \<exists>t1. remembers hold (es @ fs) t1 (markers_run hold limit fs x) \<and> t1 \<le> (if fs = [] then t0 else snd (snd (last fs)))"
proof (induction fs arbitrary: es t0 x)
  case (Cons f fs)
  obtain u c t where f: "f = (u, c, t)" by (cases f) auto
  with Cons.prems(2) have "t0 \<le> t" and s: "sorted (t # map (snd \<circ> snd) fs)" by (simp_all add: o_def)
  from Cons.IH [OF settle_remembers(1) [OF Cons.prems(1) this(1), of u c limit] s] show ?case
    by (auto simp: f)
qed auto

text \<open>
  C22: The marker memory shows the last declared symbol. Whatever it was fed, as long as the
  clock did not run back, and however often it forgot entries to stay small, an object whose latest
  message declares no affiliation is drawn with the symbol that last did, if that was within the
  hold time, and with its own otherwise; a message that does declare one is drawn as it is.
\<close>

theorem marker_memory_exact:
  assumes "sorted (map (\<lambda>(u, c, t). t) es @ [now])"
  shows "snd (settle hold limit uid code now (markers_run hold limit es [])) = shown hold es uid code now"
proof -
  have m: "map (snd \<circ> snd) es = map (\<lambda>(u, c, t). t) es" by auto
  have start: "remembers hold [] t []" for t by (simp add: remembers_def last_declared_def declarations_def)
  obtain t0 where t0: "sorted (t0 # map (snd \<circ> snd) es)" "t0 \<le> now"
  proof (cases es)
    case Nil
    then show ?thesis by (intro that [of now]) simp_all
  next
    case (Cons e fs)
    have "sorted (snd (snd e) # map (snd \<circ> snd) es)" "snd (snd e) \<le> now"
      using assms unfolding m [symmetric] by (auto simp: Cons sorted_append)
    then show ?thesis by (rule that)
  qed
  from markers_run_remembers [OF start t0(1)] obtain t1 where
    r: "remembers hold es t1 (markers_run hold limit es [])" and "t1 \<le> (if es = [] then t0 else snd (snd (last es)))" by auto
  moreover have "snd (snd (last es)) \<le> now" if "es \<noteq> []"
    using assms that by (cases es rule: rev_cases) (auto simp: sorted_append)
  ultimately have "t1 \<le> now" using t0(2) by (auto split: if_splits)
  from settle_remembers(2) [OF r this] show ?thesis .
qed

theorem marker_memory_exact_witness:
  "snd (settle 300 0 ''x'' ''a-u-A'' 200 (markers_run 300 0 [(''x'', ''a-h-A'', 0), (''x'', ''a-u-A'', 150)] [])) = ''a-h-A''"
proof -
  have d: "declared ''a-h-A'' = Some True" "declared ''a-u-A'' = Some False" by code_simp+
  from marker_memory_exact [of "[(''x'', ''a-h-A'', 0), (''x'', ''a-u-A'', 150)]" 200 300 0 "''x''" "''a-u-A''"] show ?thesis
    by (simp add: shown_def last_declared_def declarations_def d)
qed

subsection \<open>Addresses that are not copies\<close>

definition apart :: "sightings \<Rightarrow> bool" where
  "apart g \<longleftrightarrow> distinct (map fst g) \<and>
     (\<forall>a \<in> set (map fst g). \<forall>b \<in> set (map fst g). a = b \<or> max_bits < bit_distance a b)"

definition ghost_inv :: "ghost_filter \<Rightarrow> bool" where
  "ghost_inv x \<longleftrightarrow> (\<forall>(k, g) \<in> set x. apart g)"

lemma bit_distance_commute: "bit_distance a b = bit_distance b a"
  by (simp add: bit_distance_def xor.commute)

lemma apart_filter: "apart g \<Longrightarrow> apart (filter P g)"
  unfolding apart_def by (fastforce simp: distinct_filter_fst)

lemma apart_update:
  assumes "apart g" and "\<not> ghost_under a g"
  shows "apart (AList.update a t g)"
proof -
  have "set (map fst (AList.update a t g)) = insert a (set (map fst g))" by (simp add: dom_update)
  moreover have "max_bits < bit_distance a b" if "a \<notin> set (map fst g)" "b \<in> set (map fst g)" for b
    using assms(2) that by (force simp: ghost_under_def list_ex_iff)
  moreover have "distinct (map fst (AList.update a t g))"
    and "\<And>b c. b \<in> set (map fst g) \<Longrightarrow> c \<in> set (map fst g) \<Longrightarrow> b = c \<or> max_bits < bit_distance b c"
    using assms(1) unfolding apart_def by (simp add: distinct_update, blast)
  ultimately show ?thesis
    unfolding apart_def using bit_distance_commute [of _ a] by (metis insert_iff)
qed

lemma ghost_inv_known: "ghost_inv x \<Longrightarrow> apart (known_under now x k)"
proof -
  assume i: "ghost_inv x"
  show ?thesis
  proof (cases "map_of x k")
    case (Some g)
    from map_of_SomeD [OF this] i have "apart g" unfolding ghost_inv_def by fast
    with Some show ?thesis by (simp add: known_under_def apart_filter)
  qed (simp add: known_under_def apart_def)
qed

lemma note_address_inv:
  assumes "ghost_inv before" and "ghost_inv x" and "ghost \<or> \<not> ghost_under address (known_under now before k)"
  shows "ghost_inv (note_address address now ghost before k x)"
proof -
  have a: "apart (known_under now before k)" by (rule ghost_inv_known [OF assms(1)])
  have "apart (if address \<in> set (map fst (known_under now before k)) \<or> \<not> ghost
      then AList.update address now (known_under now before k) else known_under now before k)"
    using a assms(3) apart_update [OF a, of address now] by (auto simp: ghost_under_def)
  with assms(2) set_update_subset [of k _ x] show ?thesis
    unfolding note_address_def ghost_inv_def Let_def by fast
qed

lemma is_ghost_inv:
  assumes "ghost_inv x"
  shows "ghost_inv (fst (is_ghost limit icao cs reg now x))"
proof (cases "ghost_keys cs reg = [] \<or> icao = [] \<or> int_of_hex icao = None")
  case False
  then obtain address where a: "int_of_hex icao = Some address" by auto
  define ghost where "ghost = list_ex (\<lambda>k. ghost_under address (known_under now x k)) (ghost_keys cs reg)"
  have "ghost_inv (fold (note_address address now ghost x) ks y)"
    if "set ks \<subseteq> set (ghost_keys cs reg)" "ghost_inv y" for ks y
    using that
  proof (induction ks arbitrary: y)
    case (Cons k ks)
    have "ghost \<or> \<not> ghost_under address (known_under now x k)" using Cons.prems(1) by (auto simp: ghost_def list_ex_iff)
    from note_address_inv [OF assms Cons.prems(2) this] Cons.prems(1) Cons.IH show ?case by simp
  qed simp
  from this [OF subset_refl assms] False a show ?thesis
    by (auto simp: is_ghost_def Let_def ghost_def [symmetric]) (auto simp: ghost_inv_def)
qed (use assms in \<open>auto simp: is_ghost_def Let_def\<close>)

text \<open>What a filter remembers after a run of records, each with its names and time.\<close>

fun ghosts_run :: "nat \<Rightarrow> (string \<times> string \<times> string \<times> real) list \<Rightarrow> ghost_filter \<Rightarrow> ghost_filter" where
  "ghosts_run limit [] x = x"
| "ghosts_run limit ((icao, cs, reg, now) # es) x = ghosts_run limit es (fst (is_ghost limit icao cs reg now x))"

lemma ghosts_run_inv: "ghost_inv x \<Longrightarrow> ghost_inv (ghosts_run limit es x)"
  by (induction limit es x rule: ghosts_run.induct) (simp_all add: is_ghost_inv)

text \<open>
  A corrupted address is never remembered beside the true one. Whatever records the ghost
  filter was asked about, two different addresses that it keeps under one callsign or registration
  differ in more than two bits, so a copy that it called a ghost can not later vouch for others.
\<close>

theorem ghosts_not_remembered:
  assumes "(k, g) \<in> set (ghosts_run limit es [])" and "a \<in> fst ` set g" and "b \<in> fst ` set g" and "a \<noteq> b"
  shows "max_bits < bit_distance a b"
proof -
  have "ghost_inv (ghosts_run limit es [])" by (rule ghosts_run_inv) (simp add: ghost_inv_def)
  with assms(1) have "apart g" unfolding ghost_inv_def by fast
  with assms(2,3,4) show ?thesis unfolding apart_def by auto
qed

lemma ghosts_run_demo:
  "ghosts_run 9 [(''48'', ''BAW1'', [], 0), (''49'', ''BAW1'', [], 1), (''37'', ''BAW1'', [], 2)] [] =
     [(''C:BAW1'', [(0x48, 0), (0x37, 2)])]"
proof -
  have "int_of_hex ''48'' = Some 0x48" "int_of_hex ''49'' = Some 0x49" "int_of_hex ''37'' = Some 0x37"
    "ghost_keys ''BAW1'' [] = [''C:BAW1'']" by code_simp+
  moreover have "bit_distance 0x49 0x48 = 1" "bit_distance 0x37 0x48 = 7"
    by (simp_all add: bit_distance_def ones.simps)
  ultimately show ?thesis
    by (simp add: is_ghost_def known_under_def note_address_def ghost_under_def ghost_window_def max_bits_def Let_def)
qed

theorem ghosts_not_remembered_witness: "max_bits < bit_distance 0x48 0x37"
  by (rule ghosts_not_remembered [of "''C:BAW1''" "[(0x48, 0), (0x37, 2)]" 9
        "[(''48'', ''BAW1'', [], 0), (''49'', ''BAW1'', [], 1), (''37'', ''BAW1'', [], 2)]"])
    (simp_all only: ghosts_run_demo list.set image_insert insert_iff fst_conv, simp_all)

end
