(* ===== verification/Fusion_Tracks.thy ===== *)
theory Fusion_Tracks
  imports Fusion_Filters Topics Geodesy
begin

text \<open>
  The track fusion (\<open>TrackFuser\<close> in \<open>fusion.py\<close>): the caches of radar and ADS-B tracks, the handoff
  between radars, the match with a threat report, merging, ageing, and the handlers of a sample.
  The document of a sample is the parsed payload, \<open>None\<close> when it is no JSON; a handler returns the state
  it leaves and its publications, \<open>None\<close> when it raises (the state such a handler leaves is not
  described). A handler reads the clock once. The threats are keyed by the value of
  their identity, values of different types being different keys.
\<close>

subsection \<open>Configuration and state\<close>

record fusion_config =
  spatial_nm :: real
  max_age_s :: real
  radar_pref :: bool
  handoff_nm :: real
  neptun_min_nm :: real
  neptun_max_nm :: real
  neptun_uav_max_ms :: real
  neptun_missile_min_ms :: real
  strike_near_m :: real
  topic_root :: string

definition handoff_hdg_tol :: real where "handoff_hdg_tol = 45"
definition neptun_hdg_tol :: real where "neptun_hdg_tol = 60"
definition suppress_refresh_s :: real where "suppress_refresh_s = 5"
definition occupied_ttl_s :: real where "occupied_ttl_s = 26 * 3600"

record cached =
  c_track :: dict
  c_topic :: string
  c_ts :: real

type_synonym cache = "(string \<times> cached) list"
type_synonym threats = "(pyval \<times> cached) list"

record fuser =
  radar_tracks :: cache
  adsb_tracks :: cache
  adsb_by_icao :: "(string \<times> string) list"
  radar_by_icao :: "(string \<times> string) list"
  adsb_by_squawk :: "(string \<times> string list) list"
  radar_primary :: "(string \<times> string) list"
  neptun_tracks :: threats
  suppress_sent :: "(pyval \<times> real) list"
  twins :: twin_index
  twin_sent :: "(string \<times> real) list"
  occupied :: "pyval list"
  occupied_seen :: real
  strikes :: strike_index

definition new_fuser :: fuser where
  "new_fuser = \<lparr> radar_tracks = [], adsb_tracks = [], adsb_by_icao = [], radar_by_icao = [], adsb_by_squawk = [],
     radar_primary = [], neptun_tracks = [], suppress_sent = [], twins = new_twin_index, twin_sent = [],
     occupied = [], occupied_seen = 0, strikes = [] \<rparr>"

text \<open>A collection of views, and a JSON document under one key.\<close>

datatype fusion_event = Collection string dict | Put string dict

subsection \<open>Helpers\<close>

definition field :: "dict \<Rightarrow> string \<Rightarrow> pyval" where
  "field d k = (case dget d k of None \<Rightarrow> VNone | Some v \<Rightarrow> v)"

text \<open>\<open>track.get("icao24", "").strip().lower()\<close>: \<open>None\<close> is the \<open>AttributeError\<close>.\<close>

definition icao_of :: "dict \<Rightarrow> string option" where
  "icao_of d = (case dget d ''icao24'' of None \<Rightarrow> Some []
     | Some (VStr s) \<Rightarrow> Some (py_lower (py_strip s)) | _ \<Rightarrow> None)"

fun uid_of_fields :: "(pyval \<Rightarrow> string) \<Rightarrow> dict \<Rightarrow> string list \<Rightarrow> string" where
  "uid_of_fields rp track [] = ''unknown''"
| "uid_of_fields rp track (f # fs) = (if holds track f then py_str rp (field track f) else uid_of_fields rp track fs)"

definition uid_of :: "(pyval \<Rightarrow> string) \<Rightarrow> dict \<Rightarrow> string" where
  "uid_of rp track = uid_of_fields rp track [''icao24'', ''uid'', ''track_num'', ''radar_id'', ''mmsi'']"

definition aff_of :: "string \<Rightarrow> string" where
  "aff_of topic = (case find (\<lambda>p. p \<in> set [''friendly'', ''hostile'', ''neutral'', ''unknown'', ''civ'', ''mil'']) (py_split CHR ''/'' topic) of
     None \<Rightarrow> ''unknown''
   | Some p \<Rightarrow> if p \<in> set [''friendly'', ''hostile'', ''neutral''] then p else ''unknown'')"

definition haversine_nm :: "real \<Rightarrow> real \<Rightarrow> real \<Rightarrow> real \<Rightarrow> real" where
  "haversine_nm lat1 lon1 lat2 lon2 =
     (let R = 3440065 / 1000; dlat = radians (lat2 - lat1); dlon = radians (lon2 - lon1);
          a = (sin (dlat / 2))\<^sup>2 + cos (radians lat1) * cos (radians lat2) * (sin (dlon / 2))\<^sup>2
      in R * 2 * atan2 (sqrt a) (sqrt (1 - a)))"

text \<open>The distance of two tracks; \<open>None\<close> is a coordinate that is no number.\<close>

definition nm :: "pyval \<Rightarrow> pyval \<Rightarrow> pyval \<Rightarrow> pyval \<Rightarrow> real option" where
  "nm lat1 lon1 lat2 lon2 = do {
     a \<leftarrow> number lat1; b \<leftarrow> number lon1; c \<leftarrow> number lat2; d \<leftarrow> number lon2;
     Some (haversine_nm a b c d)
   }"

definition heading_diff :: "real \<Rightarrow> real \<Rightarrow> real" where
  "heading_diff a b = (let diff = \<bar>a - b\<bar> - 360 * of_int \<lfloor>\<bar>a - b\<bar> / 360\<rfloor> in if diff > 180 then 360 - diff else diff)"

text \<open>\<open>x or 0\<close> on a field.\<close>

definition or_zero :: "dict \<Rightarrow> string \<Rightarrow> pyval" where
  "or_zero d k = (if holds d k then field d k else VInt 0)"

definition extrapolate_pos :: "pyval \<Rightarrow> pyval \<Rightarrow> pyval \<Rightarrow> pyval \<Rightarrow> real \<Rightarrow> (pyval \<times> pyval) option" where
  "extrapolate_pos lat lon speed_ms heading_deg dt_s =
     (if lat = VNone \<or> lon = VNone \<or> \<not> truthy speed_ms then Some (lat, lon)
      else do {
        speed \<leftarrow> number speed_ms;
        hdg \<leftarrow> number (if truthy heading_deg then heading_deg else VInt 0);
        la0 \<leftarrow> number lat;
        lo0 \<leftarrow> number lon;
        let d = speed * dt_s;
        let R = 6371000;
        let az = radians hdg;
        let la = radians la0;
        let lo = radians lo0;
        let la2 = arcsin (sin la * cos (d / R) + cos la * sin (d / R) * cos az);
        let lo2 = lo + atan2 (sin az * sin (d / R) * cos la) (cos (d / R) - sin la * sin la2);
        Some (VFloat (degrees la2), VFloat (degrees lo2))
      })"

subsection \<open>Threat reports\<close>

definition missile_types :: "string list" where "missile_types = [''missile'', ''ballistic'', ''kab'']"
definition uav_types :: "string list" where "uav_types = [''uav'', ''fpv'', ''recon'']"

definition neptun_pair_ok :: "fusion_config \<Rightarrow> dict \<Rightarrow> dict \<Rightarrow> bool option" where
  "neptun_pair_ok cf radar threat =
     (if holds radar ''icao24'' \<or> absent radar ''lat_deg'' \<or> absent radar ''lon_deg'' then Some False
      else if absent threat ''lat_deg'' \<or> absent threat ''lon_deg'' then Some False
      else do {
        unc \<leftarrow> number (or_zero threat ''position_uncertainty_m'');
        let radius = min (max (unc / 1852) (neptun_min_nm cf)) (neptun_max_nm cf);
        d \<leftarrow> nm (field radar ''lat_deg'') (field radar ''lon_deg'') (field threat ''lat_deg'') (field threat ''lon_deg'');
        (if d > radius then Some False
         else do {
           hdg_ok \<leftarrow> (if absent radar ''heading_deg'' \<or> absent threat ''heading_deg'' then Some True
             else do {
               a \<leftarrow> number (field radar ''heading_deg'');
               b \<leftarrow> number (field threat ''heading_deg'');
               Some (\<not> heading_diff a b > neptun_hdg_tol)
             });
           (if \<not> hdg_ok then Some False
            else do {
              kind \<leftarrow> (if holds threat ''type'' then (case field threat ''type'' of VStr s \<Rightarrow> Some (py_lower s) | _ \<Rightarrow> None)
                else Some []);
              (if holds radar ''speed_ms'' \<and> kind \<in> set missile_types
               then map_option (\<lambda>s. s \<ge> neptun_missile_min_ms cf) (number (field radar ''speed_ms''))
               else if holds radar ''speed_ms'' \<and> kind \<in> set uav_types
               then map_option (\<lambda>s. s \<le> neptun_uav_max_ms cf) (number (field radar ''speed_ms''))
               else Some True)
            })
         })
      })"

text \<open>Whether another object of the cache fits the threat.\<close>

fun other_fits :: "fusion_config \<Rightarrow> (string \<Rightarrow> string) \<Rightarrow> real \<Rightarrow> string \<Rightarrow> dict \<Rightarrow> cache \<Rightarrow> bool option" where
  "other_fits cf ident now me threat [] = Some False"
| "other_fits cf ident now me threat ((u, e) # es) =
     (if now - c_ts e > max_age_s cf \<or> ident u = me then other_fits cf ident now me threat es
      else do {
        ok \<leftarrow> neptun_pair_ok cf (c_track e) threat;
        if ok then Some True else other_fits cf ident now me threat es
      })"

text \<open>\<open>None\<close> is an exception, \<open>Some None\<close> no match.\<close>

definition match_neptun ::
  "fusion_config \<Rightarrow> dict \<Rightarrow> string \<Rightarrow> cache \<Rightarrow> threats \<Rightarrow> real \<Rightarrow> (string \<Rightarrow> string) \<Rightarrow> pyval option option" where
  "match_neptun cf radar radar_uid radar_cache neptun now ident = do {
     let fresh = filter (\<lambda>(u, e). now - c_ts e \<le> max_age_s cf) neptun;
     candidates \<leftarrow> filter_opt (\<lambda>(u, e). neptun_pair_ok cf radar (c_track e)) fresh;
     (case candidates of
        [(threat_uid, e)] \<Rightarrow> do {
          taken \<leftarrow> other_fits cf ident now (ident radar_uid) (c_track e) radar_cache;
          Some (if taken then None else Some threat_uid)
        }
      | _ \<Rightarrow> Some None)
   }"

subsection \<open>Handoff between radars\<close>

text \<open>The loop over the radar cache: the best distance and its primary so far.\<close>

fun handoff_loop ::
  "fusion_config \<Rightarrow> (string \<times> string) list \<Rightarrow> dict \<Rightarrow> string \<Rightarrow> real \<Rightarrow> cache \<Rightarrow> real \<times> string option \<Rightarrow> (real \<times> string option) option" where
  "handoff_loop cf primary track uid now [] best = Some best"
| "handoff_loop cf primary track uid now ((other_uid, e) # es) best =
     (let other = c_track e; dt = now - c_ts e; skip = handoff_loop cf primary track uid now es best in
      if other_uid = uid \<or>
         (field other ''sac'' = field track ''sac'' \<and> field other ''sic'' = field track ''sic'') \<or>
         holds other ''icao24'' \<or> dt > max_age_s cf then skip
      else do {
        (o_lat, o_lon) \<leftarrow> extrapolate_pos (field other ''lat_deg'') (field other ''lon_deg'')
          (or_zero other ''speed_ms'') (or_zero other ''heading_deg'') dt;
        (if o_lat = VNone then skip
         else do {
           d \<leftarrow> nm (field track ''lat_deg'') (field track ''lon_deg'') o_lat o_lon;
           (if d \<ge> fst best then skip
            else do {
              far \<leftarrow> (if absent track ''heading_deg'' \<or> absent other ''heading_deg'' then Some False
                else do {
                  a \<leftarrow> number (field track ''heading_deg'');
                  b \<leftarrow> number (field other ''heading_deg'');
                  Some (heading_diff a b > handoff_hdg_tol)
                });
              (if far then skip
               else handoff_loop cf primary track uid now es
                 (d, Some (case map_of primary other_uid of None \<Rightarrow> other_uid | Some p \<Rightarrow> p)))
            })
         })
      })"

definition put_default :: "string \<Rightarrow> string \<Rightarrow> (string \<times> string) list \<Rightarrow> (string \<times> string) list" where
  "put_default k v t = (case map_of t k of None \<Rightarrow> AList.update k v t | Some _ \<Rightarrow> t)"

definition cross_radar_associate :: "fusion_config \<Rightarrow> dict \<Rightarrow> string \<Rightarrow> real \<Rightarrow> fuser \<Rightarrow> (fuser \<times> string) option" where
  "cross_radar_associate cf track uid now f =
     (if holds track ''icao24'' then Some (f, uid)
      else let own = put_default uid uid (radar_primary f);
               keep = (f\<lparr>radar_primary := own\<rparr>, case map_of own uid of None \<Rightarrow> uid | Some p \<Rightarrow> p) in
      if absent track ''lat_deg'' \<or> absent track ''lon_deg'' then Some keep
      else map_option (\<lambda>(d, best). case best of
          Some p \<Rightarrow> (f\<lparr>radar_primary := AList.update uid p (radar_primary f)\<rparr>, p)
        | None \<Rightarrow> keep)
        (handoff_loop cf (radar_primary f) track uid now (radar_tracks f) (handoff_nm cf, None)))"

subsection \<open>Ageing\<close>

text \<open>The first surviving secondary takes the place of a primary that goes.\<close>

definition promote :: "string list \<Rightarrow> cache \<Rightarrow> string \<Rightarrow> (string \<times> string) list \<Rightarrow> (string \<times> string) list" where
  "promote stale tracks k primary =
     (let primary = (if map_of primary k = Some k then
          (case find (\<lambda>(u, p). p = k \<and> u \<notin> set stale \<and> u \<in> set (map fst tracks)) primary of
             None \<Rightarrow> primary
           | Some (heir, _) \<Rightarrow> if heir = [] then primary
               else AList.update heir heir (map (\<lambda>(u, p). (u, if p = k then heir else p)) primary))
        else primary)
      in AList.delete k primary)"

fun drop_radars :: "string list \<Rightarrow> string list \<Rightarrow> fuser \<Rightarrow> fuser option" where
  "drop_radars stale [] f = Some f"
| "drop_radars stale (k # ks) f = (case map_of (radar_tracks f) k of
     None \<Rightarrow> None
   | Some e \<Rightarrow> do {
       let f = f\<lparr>radar_tracks := AList.delete k (radar_tracks f)\<rparr>;
       icao \<leftarrow> icao_of (c_track e);
       let by_icao = (if icao \<noteq> [] \<and> map_of (radar_by_icao f) icao = Some k
         then AList.delete icao (radar_by_icao f) else radar_by_icao f);
       drop_radars stale ks (f\<lparr>radar_by_icao := by_icao,
         radar_primary := promote stale (radar_tracks f) k (radar_primary f)\<rparr>)
     })"

text \<open>A squawk is a text in what the decoders publish; another value is not looked up here.\<close>

definition squawk_of :: "dict \<Rightarrow> string" where
  "squawk_of d = (case dget d ''squawk'' of Some (VStr s) \<Rightarrow> s | _ \<Rightarrow> [])"

fun drop_adsbs :: "string list \<Rightarrow> fuser \<Rightarrow> fuser option" where
  "drop_adsbs [] f = Some f"
| "drop_adsbs (k # ks) f = (case map_of (adsb_tracks f) k of
     None \<Rightarrow> None
   | Some e \<Rightarrow> do {
       icao \<leftarrow> icao_of (c_track e);
       let sq = squawk_of (c_track e);
       drop_adsbs ks (f\<lparr>adsb_tracks := AList.delete k (adsb_tracks f),
         adsb_by_icao := AList.delete icao (adsb_by_icao f),
         adsb_by_squawk := (case map_of (adsb_by_squawk f) sq of
             None \<Rightarrow> adsb_by_squawk f
           | Some us \<Rightarrow> AList.update sq (remove1 k us) (adsb_by_squawk f))\<rparr>)
     })"

definition stale_keys :: "fusion_config \<Rightarrow> real \<Rightarrow> cache \<Rightarrow> string list" where
  "stale_keys cf now t = map fst (filter (\<lambda>(k, e). now - c_ts e > max_age_s cf) t)"

definition age_out :: "fusion_config \<Rightarrow> real \<Rightarrow> fuser \<Rightarrow> fuser option" where
  "age_out cf now f = (let stale_r = stale_keys cf now (radar_tracks f); stale_a = stale_keys cf now (adsb_tracks f) in
     drop_radars stale_r stale_r f \<bind> drop_adsbs stale_a)"

subsection \<open>Matching and merging\<close>

definition emergency_squawks :: "string list" where
  "emergency_squawks = [''0000'', ''7500'', ''7600'', ''7700'']"

fun squawk_match :: "fusion_config \<Rightarrow> real \<Rightarrow> cache \<Rightarrow> pyval \<Rightarrow> string list \<Rightarrow> dict option option" where
  "squawk_match cf now adsb r_alt [] = Some None"
| "squawk_match cf now adsb r_alt (u # us) = (case map_of adsb u of
     None \<Rightarrow> squawk_match cf now adsb r_alt us
   | Some e \<Rightarrow>
       if now - c_ts e \<ge> max_age_s cf then squawk_match cf now adsb r_alt us
       else let a_alt = field (c_track e) ''alt_baro_ft'' in
         if truthy r_alt \<and> truthy a_alt then do {
           a \<leftarrow> number r_alt;
           b \<leftarrow> number a_alt;
           if \<bar>a - b\<bar> < 500 then Some (Some (c_track e)) else squawk_match cf now adsb r_alt us
         }
         else if r_alt = VNone \<and> a_alt = VNone then Some (Some (c_track e))
         else squawk_match cf now adsb r_alt us)"

fun nearest :: "fusion_config \<Rightarrow> real \<Rightarrow> pyval \<Rightarrow> pyval \<Rightarrow> cache \<Rightarrow> real \<times> dict option \<Rightarrow> (real \<times> dict option) option" where
  "nearest cf now lat lon [] best = Some best"
| "nearest cf now lat lon ((u, e) # es) best =
     (let t = c_track e in
      if now - c_ts e \<ge> max_age_s cf \<or> absent t ''lat_deg'' \<or> absent t ''lon_deg'' then nearest cf now lat lon es best
      else do {
        d \<leftarrow> nm lat lon (field t ''lat_deg'') (field t ''lon_deg'');
        nearest cf now lat lon es (if d < fst best then (d, Some t) else best)
      })"

text \<open>\<open>"\{:.2f\}".format(x)\<close> for a distance.\<close>

definition fmt_2f :: "real \<Rightarrow> string" where
  "fmt_2f x = (let n = round_half_even (x * 100) in fmt_int (n div 100) @ ''.'' @ fmt_pad 10 2 (n mod 100))"

definition find_match :: "fusion_config \<Rightarrow> dict \<Rightarrow> real \<Rightarrow> fuser \<Rightarrow> dict option option" where
  "find_match cf radar now f = do {
     icao \<leftarrow> icao_of radar;
     (case (if icao = [] then None else map_of (adsb_by_icao f) icao \<bind> (\<lambda>u. if u = [] then None else
         map_of (adsb_tracks f) u \<bind> (\<lambda>e. if now - c_ts e < max_age_s cf then Some (c_track e) else None))) of
        Some t \<Rightarrow> Some (Some t)
      | None \<Rightarrow> do {
          let sq = squawk_of radar;
          by_sq \<leftarrow> (if sq = [] \<or> sq \<in> set emergency_squawks then Some None
            else squawk_match cf now (adsb_tracks f) (field radar ''alt_baro_ft'')
              (case map_of (adsb_by_squawk f) sq of None \<Rightarrow> [] | Some us \<Rightarrow> us));
          (case by_sq of
             Some t \<Rightarrow> Some (Some t)
           | None \<Rightarrow>
               if absent radar ''lat_deg'' \<or> absent radar ''lon_deg'' then Some None
               else map_option (\<lambda>(d, best). map_option
                   (\<lambda>t. AList.update ''_fusion_method'' (VStr (''spatial-'' @ fmt_2f d @ ''NM'')) t) best)
                 (nearest cf now (field radar ''lat_deg'') (field radar ''lon_deg'') (adsb_tracks f) (spatial_nm cf, None)))
        })
   }"

definition id_fields :: "string list" where
  "id_fields = [''callsign'', ''registration'', ''aircraft_type'', ''icao24'', ''squawk'', ''origin'', ''destination'',
     ''operator'', ''route'', ''rssi_db'', ''emitter_category_str'', ''on_ground'']"

definition adsb_supplement :: "string list" where
  "adsb_supplement = [''vertical_rate_ms'']"

definition radar_fields :: "string list" where
  "radar_fields = [''lat_deg'', ''lon_deg'', ''alt_m'', ''alt_baro_ft'', ''alt_3d_ft'', ''speed_ms'', ''heading_deg'',
     ''range_nm'', ''azimuth_deg'', ''range_nm'', ''sac'', ''sic'', ''track_num'', ''radar_id'', ''tod_s'']"

text \<open>\<open>for k in ks: if k in src: d[k] = src[k]\<close>.\<close>

definition take_fields :: "dict \<Rightarrow> string list \<Rightarrow> dict \<Rightarrow> dict" where
  "take_fields src ks d = fold (\<lambda>k d. case dget src k of None \<Rightarrow> d | Some v \<Rightarrow> AList.update k v d) ks d"

definition get_default :: "dict \<Rightarrow> string \<Rightarrow> pyval \<Rightarrow> pyval" where
  "get_default d k v = (case dget d k of None \<Rightarrow> v | Some w \<Rightarrow> w)"

text \<open>\<open>max(a, b)\<close>: the first, unless the second is greater.\<close>

definition max_val :: "pyval \<Rightarrow> pyval \<Rightarrow> pyval option" where
  "max_val a b = do { x \<leftarrow> number a; y \<leftarrow> number b; Some (if y > x then b else a) }"

definition merge :: "(pyval \<Rightarrow> string) \<Rightarrow> fusion_config \<Rightarrow> dict \<Rightarrow> dict \<Rightarrow> (dict \<times> pyval) option" where
  "merge rp cf radar adsb =
     (let meth = get_default adsb ''_fusion_method'' (VStr ''icao-exact'');
          fused = (if radar_pref cf then
              let fused = take_fields adsb id_fields (puts [] radar)
              in take_fields adsb (filter (\<lambda>k. dget fused k = None) adsb_supplement) fused
            else take_fields radar radar_fields (puts [] adsb))
      in do {
        ts \<leftarrow> max_val (get_default radar ''_ts'' (VInt 0)) (get_default adsb ''_ts'' (VInt 0));
        let src = py_str rp (get_default radar ''_src'' (VStr ''radar'')) @ '' + '' @
          py_str rp (get_default adsb ''_src'' (VStr ''adsb''));
        Some (AList.delete ''_fusion_method'' (puts fused [(''_ts'', ts), (''_src'', VStr src)]), meth)
      })"

subsection \<open>Publishing a radar track\<close>

definition last_sent :: "('k \<times> real) list \<Rightarrow> 'k \<Rightarrow> real" where
  "last_sent t k = (case map_of t k of None \<Rightarrow> 0 | Some v \<Rightarrow> v)"

definition neptun_label :: "(pyval \<Rightarrow> string) \<Rightarrow> dict \<Rightarrow> string" where
  "neptun_label rp threat = py_strip (''Also reported by NEPTUN ('' @ py_str rp (get_default threat ''type'' (VStr ''threat'')) @ '' '' @
     (if holds threat ''locality'' then py_str rp (field threat ''locality'')
      else if holds threat ''region'' then py_str rp (field threat ''region'') else []) @ '')'')"

definition corroborate ::
  "(pyval \<Rightarrow> string) \<Rightarrow> fusion_config \<Rightarrow> dict \<Rightarrow> dict \<Rightarrow> real \<Rightarrow> fuser \<Rightarrow> (fuser \<times> dict \<times> fusion_event list) option" where
  "corroborate rp cf fused radar now f = do {
     let radar_uid = uid_of rp radar;
     let f = f\<lparr>neptun_tracks := filter (\<lambda>(u, e). \<not> now - c_ts e > max_age_s cf) (neptun_tracks f)\<rparr>;
     m \<leftarrow> match_neptun cf radar radar_uid (radar_tracks f) (neptun_tracks f) now
       (\<lambda>u. case map_of (radar_primary f) u of None \<Rightarrow> u | Some p \<Rightarrow> p);
     (case m of
        None \<Rightarrow> Some (f, fused, [])
      | Some u \<Rightarrow> do {
          threat \<leftarrow> map_of (neptun_tracks f) u;
          let announce = (now - last_sent (suppress_sent f) u \<ge> suppress_refresh_s);
          let label = neptun_label rp (c_track threat);
          let fused = AList.update ''remarks'' (VStr (if holds fused ''remarks''
            then py_str rp (field fused ''remarks'') @ ''; '' @ label else label)) fused;
          Some (if announce
            then (f\<lparr>suppress_sent := AList.update u now (suppress_sent f)\<rparr>, fused,
              [Put (topic_root cf @ ''/air/trackfusion/suppress/neptun/'' @ py_str rp u)
                [(''uid'', u), (''radar_uid'', VStr radar_uid), (''ts'', VFloat now)]])
            else (f, fused, []))
        })
   }"

definition fused_topic :: "fusion_config \<Rightarrow> string \<Rightarrow> string" where
  "fused_topic cf slot = topic_root cf @ ''/air/trackfusion/fused/'' @ slot @ ''/aircraft''"

definition fuse_and_publish ::
  "(pyval \<Rightarrow> string) \<Rightarrow> fusion_config \<Rightarrow> dict \<Rightarrow> real \<Rightarrow> fuser \<Rightarrow> (fuser \<times> fusion_event list) option" where
  "fuse_and_publish rp cf radar now f = do {
     adsb \<leftarrow> find_match cf radar now f;
     fused \<leftarrow> (case adsb of None \<Rightarrow> Some radar | Some a \<Rightarrow> map_option fst (merge rp cf radar a));
     (f, fused, es) \<leftarrow> corroborate rp cf fused radar now f;
     let slot = (case adsb of None \<Rightarrow> ''unknown'' | Some a \<Rightarrow> if holds a ''is_military'' then ''mil'' else ''civ'');
     Some (f, es @ [Collection (fused_topic cf slot) fused])
   }"

subsection \<open>The handlers of samples\<close>

definition own_prefix :: "fusion_config \<Rightarrow> string" where
  "own_prefix cf = topic_root cf @ ''/air/trackfusion/''"

text \<open>Only the JSON view of a track is read.\<close>

definition json_view :: "string \<Rightarrow> bool" where
  "json_view topic \<longleftrightarrow> ends_with ''/tracks/v1'' topic \<and>
     last (py_split CHR ''/'' (strip_version topic)) \<notin> set [''sapient'', ''proto'', ''raw'']"

definition on_radar ::
  "(pyval \<Rightarrow> string) \<Rightarrow> fusion_config \<Rightarrow> string \<Rightarrow> pyval option \<Rightarrow> real \<Rightarrow> fuser \<Rightarrow> (fuser \<times> fusion_event list) option" where
  "on_radar rp cf topic doc now f =
     (if \<not> json_view topic \<or> starts_with (own_prefix cf) topic then Some (f, [])
      else (case doc of
          None \<Rightarrow> Some (f, [])
        | Some (VDict track) \<Rightarrow> do {
            f \<leftarrow> age_out cf now f;
            let u = uid_of rp track;
            let f = f\<lparr>radar_tracks := AList.update u \<lparr> c_track = track, c_topic = topic, c_ts = now \<rparr> (radar_tracks f)\<rparr>;
            icao \<leftarrow> icao_of track;
            let f = (if icao \<noteq> [] then f\<lparr>radar_by_icao := AList.update icao u (radar_by_icao f)\<rparr> else f);
            (f, primary) \<leftarrow> cross_radar_associate cf track u now f;
            let track = (if primary = u then track else (case map_of (radar_tracks f) primary of
                None \<Rightarrow> track
              | Some e \<Rightarrow> if holds (c_track e) ''radar_id''
                  then AList.update ''radar_id'' (field (c_track e) ''radar_id'') track else track));
            fuse_and_publish rp cf track now f
          }
        | Some _ \<Rightarrow> None))"

definition unhashable :: "pyval \<Rightarrow> bool" where
  "unhashable v \<longleftrightarrow> (case v of VList _ \<Rightarrow> True | VDict _ \<Rightarrow> True | _ \<Rightarrow> False)"

definition on_neptun :: "string \<Rightarrow> pyval option \<Rightarrow> real \<Rightarrow> fuser \<Rightarrow> fuser option" where
  "on_neptun topic doc now f =
     (if \<not> json_view topic then Some f
      else (case doc of
          None \<Rightarrow> Some f
        | Some (VDict track) \<Rightarrow>
            if \<not> holds track ''uid'' then Some f
            else let u = field track ''uid'' in
              if unhashable u then None
              else if holds track ''_delete'' then Some (f\<lparr>neptun_tracks := AList.delete u (neptun_tracks f)\<rparr>)
              else Some (f\<lparr>neptun_tracks := AList.update u \<lparr> c_track = track, c_topic = topic, c_ts = now \<rparr> (neptun_tracks f)\<rparr>)
        | Some _ \<Rightarrow> None))"

definition on_adsb ::
  "(pyval \<Rightarrow> string) \<Rightarrow> fusion_config \<Rightarrow> string \<Rightarrow> pyval option \<Rightarrow> real \<Rightarrow> fuser \<Rightarrow> (fuser \<times> fusion_event list) option" where
  "on_adsb rp cf topic doc now f =
     (if \<not> ends_with ''/json'' topic then Some (f, [])
      else (case doc of
          None \<Rightarrow> Some (f, [])
        | Some (VDict track) \<Rightarrow> do {
            f \<leftarrow> age_out cf now f;
            let u = uid_of rp track;
            let f = f\<lparr>adsb_tracks := AList.update u \<lparr> c_track = track, c_topic = topic, c_ts = now \<rparr> (adsb_tracks f)\<rparr>;
            icao \<leftarrow> icao_of track;
            let covered = (icao \<noteq> [] \<and> map_of (radar_by_icao f) icao \<noteq> None);
            let f = (if icao \<noteq> [] then f\<lparr>adsb_by_icao := AList.update icao u (adsb_by_icao f)\<rparr> else f);
            let sq = squawk_of track;
            let f = (if sq = [] \<or> sq \<in> set emergency_squawks then f
              else let us = (case map_of (adsb_by_squawk f) sq of None \<Rightarrow> [] | Some us \<Rightarrow> us)
                in f\<lparr>adsb_by_squawk := AList.update sq (if u \<in> set us then us else us @ [u]) (adsb_by_squawk f)\<rparr>);
            Some (f, if covered then [] else [Collection (fused_topic cf (if holds track ''is_military'' then ''mil'' else ''civ'')) track])
          }
        | Some _ \<Rightarrow> None))"

subsection \<open>Every track: strikes and twins\<close>

definition on_occupied :: "pyval option \<Rightarrow> real \<Rightarrow> fuser \<Rightarrow> fuser" where
  "on_occupied doc now f = (case doc of
     Some (VDict d) \<Rightarrow> (case dget d ''rings'' of
         Some (VList rs) \<Rightarrow> f\<lparr>occupied := filter (\<lambda>r. case r of VList _ \<Rightarrow> True | _ \<Rightarrow> False) rs, occupied_seen := now\<rparr>
       | _ \<Rightarrow> f)
   | _ \<Rightarrow> f)"

text \<open>\<open>region_geometry.contains\<close> on one ring; a point is a list, \<open>None\<close> an exception.\<close>

definition coord :: "nat \<Rightarrow> pyval \<Rightarrow> real option" where
  "coord i p = (case p of VList xs \<Rightarrow> if i < length xs then number (xs ! i) else None | _ \<Rightarrow> None)"

definition pair_of :: "pyval \<Rightarrow> (real \<times> real) option" where
  "pair_of p = (case p of VList [x, y] \<Rightarrow> do { a \<leftarrow> number x; b \<leftarrow> number y; Some (a, b) } | _ \<Rightarrow> None)"

fun all_some :: "('a \<Rightarrow> 'b option) \<Rightarrow> 'a list \<Rightarrow> 'b list option" where
  "all_some g [] = Some []"
| "all_some g (x # xs) = do { y \<leftarrow> g x; ys \<leftarrow> all_some g xs; Some (y # ys) }"

fun in_ring :: "(real \<times> real) list \<Rightarrow> real \<Rightarrow> real \<Rightarrow> bool \<Rightarrow> bool" where
  "in_ring ((x1, y1) # (x2, y2) # ps) lon lat inside =
     in_ring ((x2, y2) # ps) lon lat
       (if (y1 > lat) \<noteq> (y2 > lat) \<and> lon < (x2 - x1) * (lat - y1) / (y2 - y1) + x1 then \<not> inside else inside)"
| "in_ring _ lon lat inside = inside"

definition ring_contains :: "pyval \<Rightarrow> real \<Rightarrow> real \<Rightarrow> bool option" where
  "ring_contains ring lon lat = (case ring of
     VList (p # ps) \<Rightarrow> do {
       xs \<leftarrow> all_some (coord 0) (p # ps);
       (if \<not> (Min (set xs) \<le> lon \<and> lon \<le> Max (set xs)) then Some False
        else do {
          ys \<leftarrow> all_some (coord 1) (p # ps);
          (if \<not> (Min (set ys) \<le> lat \<and> lat \<le> Max (set ys)) then Some False
           else do {
             pts \<leftarrow> (if ps = [] then Some [] else all_some pair_of (p # ps));
             Some (in_ring pts lon lat False)
           })
        })
     }
   | _ \<Rightarrow> None)"

fun any_contains :: "pyval list \<Rightarrow> real \<Rightarrow> real \<Rightarrow> bool option" where
  "any_contains [] lon lat = Some False"
| "any_contains (r # rs) lon lat = do { c \<leftarrow> ring_contains r lon lat; if c then Some True else any_contains rs lon lat }"

definition in_occupied :: "real \<Rightarrow> real \<Rightarrow> real \<Rightarrow> fuser \<Rightarrow> bool option" where
  "in_occupied lat lon now f = any_contains (if now - occupied_seen f \<le> occupied_ttl_s then occupied f else []) lon lat"

text \<open>\<open>s.replace(pat, rep, 1)\<close>.\<close>

fun replace_first :: "string \<Rightarrow> string \<Rightarrow> string \<Rightarrow> string" where
  "replace_first pat rep [] = (if pat = [] then rep else [])"
| "replace_first pat rep (c # s) = (if take (length pat) (c # s) = pat then rep @ drop (length pat) (c # s)
     else c # replace_first pat rep s)"

definition due :: "real \<Rightarrow> string \<Rightarrow> fuser \<Rightarrow> bool" where
  "due now k f \<longleftrightarrow> now - last_sent (twin_sent f) k \<ge> suppress_refresh_s"

definition mark_sent :: "real \<Rightarrow> string \<Rightarrow> fuser \<Rightarrow> fuser" where
  "mark_sent now k f = f\<lparr>twin_sent := AList.update k now (twin_sent f)\<rparr>"

definition tombstone :: "pyval \<Rightarrow> pyval \<Rightarrow> real \<Rightarrow> dict" where
  "tombstone u ty now = [(''uid'', u), (''type'', ty), (''_delete'', VBool True), (''_ts'', VFloat now), (''_src'', VStr ''trackfusion'')]"

definition reside :: "(pyval \<Rightarrow> string) \<Rightarrow> dict \<Rightarrow> string \<Rightarrow> real \<Rightarrow> fuser \<Rightarrow> fuser \<times> fusion_event list" where
  "reside rp track topic now f =
     (let u = text_of rp track ''uid'' in
      if \<not> due now (''reside:'' @ u) f then (f, [])
      else let
        parts = py_split CHR ''/'' (strip_version topic);
        pre = replace_first ''/hostile/'' ''/friendly/'' (py_join ''/'' (take (length parts - 2) parts));
        moved = puts track [(''uid'', VStr (u @ ''-UA'')), (''_fused'', VBool True), (''_ts'', VFloat now),
          (''side_basis'', VStr ''occupied''), (''remarks'', VStr (text_of rp track ''remarks'' @
            '' Landed in Russian-held territory (DeepState): a Ukrainian strike.''))]
      in (mark_sent now (''reside:'' @ u) f,
          [Put (add_version (semantic_topic rp pre moved)) moved,
           Put topic (tombstone (VStr u) (get_default track ''type'' (VStr ''strike'')) now)]))"

definition unsafe_sub :: "string \<Rightarrow> string" where
  "unsafe_sub s = map (\<lambda>c. if is_ascii_digit c \<or> is_letter c \<or> c \<in> set ''._-'' then c else CHR ''_'') s"

definition civil_topic :: "fusion_config \<Rightarrow> string \<Rightarrow> string" where
  "civil_topic cf icao = topic_root cf @ ''/air/trackfusion/suppress/civil/'' @ unsafe_sub (py_lower icao)"

definition twin_topic :: "fusion_config \<Rightarrow> string \<Rightarrow> string" where
  "twin_topic cf u = topic_root cf @ ''/air/trackfusion/suppress/twin/'' @ unsafe_sub u"

definition military_air :: "string list" where
  "military_air = [''/friendly/aircraft/'', ''/hostile/aircraft/'', ''/neutral/aircraft/'', ''/mil/aircraft/'']"

text \<open>Announcements of a list, each at most once in the refresh time.\<close>

fun announce_all :: "(string \<times> fusion_event) list \<Rightarrow> real \<Rightarrow> fuser \<Rightarrow> fuser \<times> fusion_event list" where
  "announce_all [] now f = (f, [])"
| "announce_all ((k, e) # xs) now f =
     (if due now k f then (case announce_all xs now (mark_sent now k f) of (f', es) \<Rightarrow> (f', e # es))
      else announce_all xs now f)"

text \<open>What follows the test for occupied territory: the civil copies of a military aircraft, the strikes reported
  twice, the loose copies.\<close>

definition announce_copies ::
  "(pyval \<Rightarrow> string) \<Rightarrow> fusion_config \<Rightarrow> dict \<Rightarrow> string \<Rightarrow> real \<Rightarrow> fuser \<Rightarrow> (fuser \<times> fusion_event list) option" where
  "announce_copies rp cf track topic now f = do {
     let icao = py_lower (text_of rp track ''icao24'');
     let (f, es1) = announce_all (if icao \<noteq> [] \<and> list_ex (\<lambda>part. contains_str part topic) military_air
       then [(''civil:'' @ icao, Put (civil_topic cf icao) [(''icao24'', VStr icao), (''ts'', VFloat now)])] else []) now f;
     let (st, retract) = strike_observe rp (strike_near_m cf) track now topic (strikes f);
     rs \<leftarrow> retract;
     let (f, es2) = announce_all (map (\<lambda>(u, t, ty). (u, Put t (tombstone (VStr u) (VStr ty) now))) rs) now (f\<lparr>strikes := st\<rparr>);
     let (tw, held) = twin_observe rp track now topic (twins f);
     us \<leftarrow> held;
     let (f, es3) = announce_all (map (\<lambda>u. (u, Put (twin_topic cf u) [(''uid'', VStr u), (''ts'', VFloat now)])) us) now (f\<lparr>twins := tw\<rparr>);
     Some (f, es1 @ es2 @ es3)
   }"

definition on_any_track ::
  "(pyval \<Rightarrow> string) \<Rightarrow> fusion_config \<Rightarrow> string \<Rightarrow> pyval option \<Rightarrow> real \<Rightarrow> fuser \<Rightarrow> (fuser \<times> fusion_event list) option" where
  "on_any_track rp cf topic doc now f =
     (if \<not> json_view topic \<or> starts_with (own_prefix cf) topic then Some (f, [])
      else (case doc of
          Some (VDict track) \<Rightarrow> do {
            inside \<leftarrow> (if dget track ''side_basis'' = Some (VStr ''place'') \<and> \<not> holds track ''_fused'' \<and> \<not> holds track ''_delete'' \<and>
                contains_str ''/hostile/'' topic \<and> is_strike_topic topic
              then (case (dget track ''lat_deg'' \<bind> py_float, dget track ''lon_deg'' \<bind> py_float) of
                  (Some lat, Some lon) \<Rightarrow> in_occupied lat lon now f
                | _ \<Rightarrow> Some False)
              else Some False);
            (if inside then Some (reside rp track topic now f) else announce_copies rp cf track topic now f)
          }
        | _ \<Rightarrow> Some (f, [])))"

subsection \<open>Ageing keeps what is fresh, and a handoff its one identity\<close>

definition fresh :: "fusion_config \<Rightarrow> real \<Rightarrow> cache \<Rightarrow> cache" where
  "fresh cf now t = filter (\<lambda>(k, e). \<not> now - c_ts e > max_age_s cf) t"

lemma delete_filter: "AList.delete k (filter P t) = filter P (AList.delete k t)"
  by (simp add: AList.delete_eq conj_commute)

text \<open>What the two loops leave of the caches: they delete the listed keys.\<close>

lemma drop_radars_caches:
  "drop_radars stale ks f = Some f' \<Longrightarrow>
    radar_tracks f' = filter (\<lambda>(k, e). k \<notin> set ks) (radar_tracks f) \<and> adsb_tracks f' = adsb_tracks f"
proof (induction stale ks f rule: drop_radars.induct)
  case (2 stale k ks f)
  then show ?case
    by (auto simp: Let_def AList.delete_eq case_prod_beta split: option.splits bind_splits intro: filter_cong)
qed simp

lemma drop_adsbs_caches:
  "drop_adsbs ks f = Some f' \<Longrightarrow>
    adsb_tracks f' = filter (\<lambda>(k, e). k \<notin> set ks) (adsb_tracks f) \<and> radar_tracks f' = radar_tracks f \<and>
    radar_primary f' = radar_primary f"
proof (induction ks f rule: drop_adsbs.induct)
  case (2 k ks f)
  then show ?case
    by (auto simp: Let_def AList.delete_eq case_prod_beta split: option.splits bind_splits intro: filter_cong)
qed simp

lemma stale_key_iff:
  assumes "distinct (map fst t)" and "(k, e) \<in> set t"
  shows "k \<in> set (stale_keys cf now t) \<longleftrightarrow> now - c_ts e > max_age_s cf"
proof
  assume "k \<in> set (stale_keys cf now t)"
  then obtain b where "(k, b) \<in> set t" "now - c_ts b > max_age_s cf" by (auto simp: stale_keys_def)
  with assms show "now - c_ts e > max_age_s cf" by (auto dest: eq_key_imp_eq_value)
next
  assume "now - c_ts e > max_age_s cf"
  with assms(2) show "k \<in> set (stale_keys cf now t)" by (force simp: stale_keys_def)
qed

lemma not_stale_fresh:
  "distinct (map fst t) \<Longrightarrow> filter (\<lambda>(k, e). k \<notin> set (stale_keys cf now t)) t = fresh cf now t"
  unfolding fresh_def by (rule filter_cong) (auto simp: stale_key_iff)

lemma age_out_caches:
  assumes "age_out cf now f = Some f'" and "distinct (map fst (radar_tracks f))" and "distinct (map fst (adsb_tracks f))"
  shows "radar_tracks f' = fresh cf now (radar_tracks f) \<and> adsb_tracks f' = fresh cf now (adsb_tracks f)"
proof -
  obtain g where g: "drop_radars (stale_keys cf now (radar_tracks f)) (stale_keys cf now (radar_tracks f)) f = Some g"
    "drop_adsbs (stale_keys cf now (adsb_tracks f)) g = Some f'"
    using assms(1) by (auto simp: age_out_def Let_def split: bind_splits)
  show ?thesis
    using drop_radars_caches [OF g(1)] drop_adsbs_caches [OF g(2)] assms(2,3) by (simp add: not_stale_fresh)
qed


text \<open>One promotion: an object of another primary keeps it, the objects of this one get one heir.\<close>

lemma promote_distinct: "distinct (map fst primary) \<Longrightarrow> distinct (map fst (promote stale tracks k primary))"
  by (auto simp: promote_def Let_def comp_def case_prod_beta split: option.splits intro!: distinct_delete distinct_update)

lemma map_of_repoint:
  "map_of (map (\<lambda>(u, p). (u, if p = k then h else p)) primary) x = map_option (\<lambda>p. if p = k then h else p) (map_of primary x)"
  by (simp add: map_of_map)

lemma find_pair:
  assumes "find P primary = Some (h, q)"
  shows "P (h, q)" and "(h, q) \<in> set primary"
  using assms by (auto simp: find_Some_iff in_set_conv_nth)

lemma map_of_promote:
  "map_of (promote stale tracks k primary) x = (if x = k then None
     else case (if map_of primary k = Some k
         then find (\<lambda>(u, p). p = k \<and> u \<notin> set stale \<and> u \<in> set (map fst tracks)) primary else None) of
       None \<Rightarrow> map_of primary x
     | Some (h, _) \<Rightarrow> if h = [] then map_of primary x else if x = h then Some h
         else map_option (\<lambda>p. if p = k then h else p) (map_of primary x))"
  by (simp add: promote_def Let_def map_of_repoint AList.delete_conv' AList.update_conv' split: option.split)

lemma promote_other:
  assumes "map_of primary u = Some p" and "p \<noteq> k" and "u \<noteq> k" and "distinct (map fst primary)"
  shows "map_of (promote stale tracks k primary) u = Some p"
proof -
  have "u \<noteq> h" if "(h, k) \<in> set primary" for h
    using map_of_is_SomeI [OF assms(4) that] assms(1,2) by auto
  then have "u \<noteq> h" if "find (\<lambda>(u, p). p = k \<and> u \<notin> set stale \<and> u \<in> set (map fst tracks)) primary = Some (h, q)" for h q
    using find_pair [OF that] by auto
  then show ?thesis
    using assms(1,2,3) by (fastforce simp: map_of_promote simp del: map_of_eq_Some_iff split: option.split)
qed

lemma promote_heir:
  assumes "map_of primary k = Some k" and "distinct (map fst primary)" and "[] \<notin> fst ` set tracks" and "k \<in> set stale"
    and "map_of primary u = Some k" and "u \<notin> set stale" and "u \<in> fst ` set tracks"
  shows "\<exists>q. q \<notin> set stale \<and> q \<in> fst ` set tracks \<and> map_of (promote stale tracks k primary) q = Some q \<and>
    (\<forall>v. map_of primary v = Some k \<longrightarrow> v \<noteq> k \<longrightarrow> map_of (promote stale tracks k primary) v = Some q)"
proof -
  let ?P = "\<lambda>(u, p). p = k \<and> u \<notin> set stale \<and> u \<in> set (map fst tracks)"
  have "(u, k) \<in> set primary" "?P (u, k)" using map_of_SomeD [OF assms(5)] assms(6,7) by simp_all
  then have "find ?P primary \<noteq> None" unfolding find_None_iff by blast
  then obtain q p where q: "find ?P primary = Some (q, p)" by auto
  have "q \<noteq> []" "q \<noteq> k" "q \<notin> set stale" "q \<in> fst ` set tracks" "p = k"
    using find_pair(1) [OF q] assms(3,4) unfolding prod.case set_map by metis+
  then show ?thesis
    using q assms(1) by (intro exI [of _ q]) (simp add: map_of_promote del: map_of_eq_Some_iff)
qed

lemma drop_radars_step:
  assumes "drop_radars stale (k # ks) f = Some f'"
  shows "\<exists>g. drop_radars stale ks g = Some f' \<and> radar_tracks g = AList.delete k (radar_tracks f) \<and>
    radar_primary g = promote stale (AList.delete k (radar_tracks f)) k (radar_primary f)"
  using assms by (auto simp: Let_def split: option.splits bind_splits)

lemma drop_radars_other:
  assumes "drop_radars stale ks f = Some f'" and "map_of (radar_primary f) u = Some p" and "p \<notin> set ks" and "u \<notin> set ks"
    and "distinct (map fst (radar_primary f))"
  shows "map_of (radar_primary f') u = Some p"
  using assms
proof (induction ks arbitrary: f)
  case (Cons k ks)
  obtain g where g: "drop_radars stale ks g = Some f'"
    "radar_primary g = promote stale (AList.delete k (radar_tracks f)) k (radar_primary f)"
    using drop_radars_step [OF Cons.prems(1)] by blast
  have "map_of (radar_primary g) u = Some p" "distinct (map fst (radar_primary g))"
    unfolding g(2) using Cons.prems by (auto intro!: promote_other promote_distinct simp del: map_of_eq_Some_iff)
  then show ?case using Cons.IH [OF g(1)] Cons.prems by simp
qed simp

lemma keys_delete: "x \<noteq> k \<Longrightarrow> x \<in> fst ` set (AList.delete k t) \<longleftrightarrow> x \<in> fst ` set t"
  by (force simp: AList.delete_eq)

lemma drop_radars_heir:
  assumes "drop_radars stale ks f = Some f'" and "p \<in> set ks" and "set ks \<subseteq> set stale" and "distinct (map fst (radar_primary f))"
    and "[] \<notin> fst ` set (radar_tracks f)" and "map_of (radar_primary f) p = Some p" and "map_of (radar_primary f) u = Some p"
    and "u \<notin> set stale" and "u \<in> fst ` set (radar_tracks f)"
  shows "\<exists>q. q \<notin> set stale \<and> q \<in> fst ` set (radar_tracks f) \<and> map_of (radar_primary f') q = Some q \<and>
    (\<forall>v. v \<notin> set stale \<longrightarrow> map_of (radar_primary f) v = Some p \<longrightarrow> map_of (radar_primary f') v = Some q)"
  using assms
proof (induction ks arbitrary: f)
  case (Cons k ks)
  obtain g where g: "drop_radars stale ks g = Some f'" "radar_tracks g = AList.delete k (radar_tracks f)"
    "radar_primary g = promote stale (radar_tracks g) k (radar_primary f)"
    using drop_radars_step [OF Cons.prems(1)] by auto
  have dist: "distinct (map fst (radar_primary g))" unfolding g(3) by (rule promote_distinct [OF Cons.prems(4)])
  have k: "k \<in> set stale" "set ks \<subseteq> set stale" "u \<noteq> k" using Cons.prems(3,8) by auto
  have live: "u \<in> fst ` set (radar_tracks g)" "[] \<notin> fst ` set (radar_tracks g)"
    using Cons.prems(5,9) k(3) unfolding g(2) by (auto simp: keys_delete AList.delete_eq)
  show ?case
  proof (cases "p = k")
    case True
    obtain q where q: "q \<notin> set stale" "q \<in> fst ` set (radar_tracks g)" "map_of (radar_primary g) q = Some q"
      "\<And>v. map_of (radar_primary f) v = Some k \<Longrightarrow> v \<noteq> k \<Longrightarrow> map_of (radar_primary g) v = Some q"
      using promote_heir [OF _ Cons.prems(4) live(2) k(1) _ Cons.prems(8) live(1), folded g(3)] Cons.prems(6,7) True by blast
    have "map_of (radar_primary f') x = Some q" if "x \<notin> set stale" "map_of (radar_primary g) x = Some q" for x
      using drop_radars_other [OF g(1) that(2) _ _ dist] q(1) that(1) k(2) by blast
    moreover have "q \<in> fst ` set (radar_tracks f)" using q(2) unfolding g(2) by (auto simp: AList.delete_eq)
    ultimately show ?thesis using q k(1) True by blast
  next
    case False
    have keep: "map_of (radar_primary g) x = Some p" if "map_of (radar_primary f) x = Some p" "x \<noteq> k" for x
      unfolding g(3) using promote_other [OF that(1) False that(2) Cons.prems(4)] .
    have "p \<in> set ks" using Cons.prems(2) False by simp
    from Cons.IH [OF g(1) this k(2) dist live(2) keep [OF Cons.prems(6) False] keep [OF Cons.prems(7) k(3)] Cons.prems(8) live(1)]
    obtain q where q: "q \<notin> set stale" "q \<in> fst ` set (radar_tracks g)" "map_of (radar_primary f') q = Some q"
      "\<forall>v. v \<notin> set stale \<longrightarrow> map_of (radar_primary g) v = Some p \<longrightarrow> map_of (radar_primary f') v = Some q" by blast
    moreover have "q \<in> fst ` set (radar_tracks f)" using q(2) unfolding g(2) by (auto simp: AList.delete_eq)
    moreover have "v \<noteq> k" if "v \<notin> set stale" for v using that k(1) by blast
    ultimately show ?thesis using keep by blast
  qed
qed simp

definition live :: "string \<Rightarrow> fuser \<Rightarrow> bool" where
  "live u f \<longleftrightarrow> u \<in> fst ` set (radar_tracks f)"

lemma age_out_primary:
  assumes "age_out cf now f = Some f'" and "distinct (map fst (radar_tracks f))" and "distinct (map fst (radar_primary f))"
    and "\<not> live [] f" and "map_of (radar_primary f) p = Some p" and "live p f"
    and "map_of (radar_primary f) u = Some p" and "live u f'"
  shows "\<exists>q. live q f' \<and> map_of (radar_primary f') q = Some q \<and> (live p f' \<longrightarrow> q = p) \<and>
    (\<forall>v. live v f' \<longrightarrow> map_of (radar_primary f) v = Some p \<longrightarrow> map_of (radar_primary f') v = Some q)"
proof -
  let ?s = "stale_keys cf now (radar_tracks f)"
  obtain g where g: "drop_radars ?s ?s f = Some g" "drop_adsbs (stale_keys cf now (adsb_tracks f)) g = Some f'"
    using assms(1) by (auto simp: age_out_def Let_def split: bind_splits)
  have same: "radar_tracks f' = radar_tracks g" "radar_primary f' = radar_primary g"
    using drop_adsbs_caches [OF g(2)] by simp_all
  have live: "live x f' \<longleftrightarrow> live x f \<and> x \<notin> set ?s" for x
    unfolding live_def same using drop_radars_caches [OF g(1)] by force
  show ?thesis
  proof (cases "p \<in> set ?s")
    case True
    then show ?thesis
      using drop_radars_heir [OF g(1) True order_refl assms(3) _ assms(5,7)] assms(4,8) live
      unfolding same by (auto simp: live_def simp del: map_of_eq_Some_iff)
  next
    case False
    have "map_of (radar_primary f') v = Some p" if "map_of (radar_primary f) v = Some p" "v \<notin> set ?s" for v
      unfolding same using drop_radars_other [OF g(1) that(1) False that(2) assms(3)] .
    with False show ?thesis using assms(5,6) live by blast
  qed
qed

subsection \<open>Threats are matched one to one\<close>

lemma other_fits_False:
  "other_fits cf ident now me threat es = Some False \<Longrightarrow> (u, e) \<in> set es \<Longrightarrow> now - c_ts e \<le> max_age_s cf \<Longrightarrow>
    ident u \<noteq> me \<Longrightarrow> neptun_pair_ok cf (c_track e) threat = Some False"
  by (induction es) (auto split: if_splits bind_splits)

lemma match_neptun_Some:
  assumes "match_neptun cf radar u cache neptun now ident = Some (Some t)"
  shows "\<exists>e. (t, e) \<in> set neptun \<and> neptun_pair_ok cf radar (c_track e) = Some True \<and>
    other_fits cf ident now (ident u) (c_track e) cache = Some False"
proof -
  let ?fresh = "filter (\<lambda>(u, e). now - c_ts e \<le> max_age_s cf) neptun"
  obtain e where e: "filter_opt (\<lambda>(u, e). neptun_pair_ok cf radar (c_track e)) ?fresh = Some [(t, e)]"
    "other_fits cf ident now (ident u) (c_track e) cache = Some False"
    using assms by (auto simp: match_neptun_def Let_def split: bind_splits list.splits if_splits)
  show ?thesis using filter_opt_set [OF e(1), of "(t, e)"] e(2) by auto
qed

lemma match_neptun_alone:
  assumes "match_neptun cf (c_track a) u cache neptun now ident = Some (Some t)"
    and "match_neptun cf (c_track b) v cache neptun now ident = Some (Some t)"
    and "distinct (map fst neptun)" and "(v, b) \<in> set cache" and "now - c_ts b \<le> max_age_s cf"
  shows "ident u = ident v"
proof (rule ccontr)
  assume no: "ident u \<noteq> ident v"
  obtain e where e: "(t, e) \<in> set neptun" "other_fits cf ident now (ident u) (c_track e) cache = Some False"
    using match_neptun_Some [OF assms(1)] by blast
  obtain e' where e': "(t, e') \<in> set neptun" "neptun_pair_ok cf (c_track b) (c_track e') = Some True"
    using match_neptun_Some [OF assms(2)] by blast
  have "e' = e" using e(1) e'(1) assms(3) by (metis eq_key_imp_eq_value)
  with other_fits_False [OF e(2) assms(4,5)] no e'(2) show False by auto
qed

subsection \<open>Merging\<close>

lemma dget_update: "dget (AList.update k v d) j = (if j = k then Some v else dget d j)"
  by (simp add: dget_def update_conv')

lemma dget_delete: "dget (AList.delete k d) j = (if j = k then None else dget d j)"
  by (simp add: dget_def delete_conv')

lemma dget_take_fields:
  "dget (take_fields src ks d) k = (if k \<in> set ks \<and> dget src k \<noteq> None then dget src k else dget d k)"
proof (induction ks arbitrary: d)
  case (Cons j ks)
  have "take_fields src (j # ks) d = take_fields src ks (case dget src j of None \<Rightarrow> d | Some v \<Rightarrow> AList.update j v d)"
    by (simp add: take_fields_def)
  then show ?case by (auto simp: Cons.IH dget_update split: option.split)
qed (simp add: take_fields_def)

lemma dget_puts_Nil: "distinct (map fst d) \<Longrightarrow> dget (puts [] d) k = dget d k"
  using map_of_inject_set [of "rev d" d] by (simp add: dget_def map_of_puts rev_map [symmetric])

end
