(* ===== verification/Fusion_Run.thy ===== *)
theory Fusion_Run
  imports Fusion_Tracks
begin

text \<open>
  The track fusion as a whole: \<open>run\<close> of \<open>fusion.py\<close> hands the samples of its subscriptions to the
  handlers of \<open>Fusion_Tracks\<close>, and a timer ages the caches. The theorems say what a fused track holds,
  what happens to an object whose radar loses it, and what the bridge never does.
\<close>

subsection \<open>The bridge\<close>

datatype fusion_sample =
    Radar_Sample string "pyval option"
  | Adsb_Sample string "pyval option"
  | Occupied_Sample "pyval option"
  | Neptun_Sample string "pyval option"
  | Any_Sample string "pyval option"
  | Age_Timer

fun fusion_step ::
  "(pyval \<Rightarrow> string) \<Rightarrow> fusion_config \<Rightarrow> real \<Rightarrow> fusion_sample \<Rightarrow> fuser \<Rightarrow> (fuser \<times> fusion_event list) option" where
  "fusion_step rp cf now (Radar_Sample topic doc) f = on_radar rp cf topic doc now f"
| "fusion_step rp cf now (Adsb_Sample topic doc) f = on_adsb rp cf topic doc now f"
| "fusion_step rp cf now (Occupied_Sample doc) f = Some (on_occupied doc now f, [])"
| "fusion_step rp cf now (Neptun_Sample topic doc) f = map_option (\<lambda>f. (f, [])) (on_neptun topic doc now f)"
| "fusion_step rp cf now (Any_Sample topic doc) f = on_any_track rp cf topic doc now f"
| "fusion_step rp cf now Age_Timer f = map_option (\<lambda>f. (f, [])) (age_out cf now f)"

fun fusion_run ::
  "(pyval \<Rightarrow> string) \<Rightarrow> fusion_config \<Rightarrow> (real \<times> fusion_sample) list \<Rightarrow> fuser \<Rightarrow> (fuser \<times> fusion_event list) option" where
  "fusion_run rp cf [] f = Some (f, [])"
| "fusion_run rp cf ((now, s) # ss) f = do {
     (f, es) \<leftarrow> fusion_step rp cf now s f;
     (f, fs) \<leftarrow> fusion_run rp cf ss f;
     Some (f, es @ fs)
   }"

subsection \<open>The caches of the cooperative feeds\<close>

definition no_adsb :: "fuser \<Rightarrow> bool" where
  "no_adsb f \<longleftrightarrow> adsb_tracks f = [] \<and> adsb_by_icao f = [] \<and> adsb_by_squawk f = []"

text \<open>An event that carries no civil or military track of the bridge.\<close>

definition radar_only :: "fusion_config \<Rightarrow> fusion_event \<Rightarrow> bool" where
  "radar_only cf e \<longleftrightarrow> (case e of Collection t d \<Rightarrow> t = fused_topic cf ''unknown'' | Put t d \<Rightarrow> True)"

lemma view_key_versioned: "\<exists>s. view_key t fmt = s @ ''/tracks/v1''"
  by (simp add: view_key_def Let_def version_tail_def)

lemma not_json_tail: "\<not> ends_with ''/json'' (s @ ''/tracks/v1'')"
  by (simp add: ends_with_def)

lemma on_adsb_view: "on_adsb rp cf (view_key t fmt) doc now f = Some (f, [])"
  using view_key_versioned [of t fmt] not_json_tail by (auto simp: on_adsb_def)

lemma no_adsb_drop: "drop_radars stale ks f = Some f' \<Longrightarrow> no_adsb f \<Longrightarrow> no_adsb f'"
proof (induction stale ks f rule: drop_radars.induct)
  case (2 stale k ks f)
  then show ?case by (auto simp: Let_def no_adsb_def split: option.splits bind_splits)
qed simp

lemma no_adsb_age: "age_out cf now f = Some f' \<Longrightarrow> no_adsb f \<Longrightarrow> no_adsb f'"
  by (auto simp: age_out_def Let_def stale_keys_def no_adsb_def dest!: no_adsb_drop [unfolded no_adsb_def] split: bind_splits)

lemma no_adsb_primary: "no_adsb (f\<lparr>radar_primary := pr\<rparr>) = no_adsb f"
  by (simp add: no_adsb_def)

lemma no_adsb_handoff:
  assumes "cross_radar_associate cf track u now f = Some (f', p)" and "no_adsb f"
  shows "no_adsb f'"
proof -
  have "\<exists>pr. f' = f \<or> f' = f\<lparr>radar_primary := pr\<rparr>"
  proof (cases "holds track ''icao24'' \<or> absent track ''lat_deg'' \<or> absent track ''lon_deg''")
    case True
    with assms(1) show ?thesis unfolding cross_radar_associate_def Let_def by (cases "holds track ''icao24''") auto
  next
    case False
    then have "handoff_loop cf (radar_primary f) track u now (radar_tracks f) (handoff_nm cf, None) \<noteq> None"
      using assms(1) unfolding cross_radar_associate_def Let_def by (simp split: if_splits) blast
    then obtain d best where "handoff_loop cf (radar_primary f) track u now (radar_tracks f) (handoff_nm cf, None) = Some (d, best)"
      by auto
    with assms(1) False show ?thesis unfolding cross_radar_associate_def Let_def by (cases best) auto
  qed
  with assms(2) show ?thesis by (auto simp: no_adsb_primary)
qed

lemma no_adsb_corroborate:
  "corroborate rp cf fused radar now f = Some (f', d, es) \<Longrightarrow> no_adsb f \<Longrightarrow> no_adsb f' \<and> list_all (radar_only cf) es"
  by (auto simp: corroborate_def Let_def no_adsb_def radar_only_def split: if_splits option.splits bind_splits)

lemma no_adsb_match: "find_match cf radar now f = Some m \<Longrightarrow> no_adsb f \<Longrightarrow> m = None"
  by (auto simp: find_match_def Let_def no_adsb_def split: if_splits option.splits bind_splits)

lemma no_adsb_publish:
  assumes "fuse_and_publish rp cf radar now f = Some (f', es)" and "no_adsb f"
  shows "no_adsb f' \<and> list_all (radar_only cf) es"
proof -
  obtain m where m: "find_match cf radar now f = Some m"
    using assms(1) by (auto simp: fuse_and_publish_def split: bind_splits)
  with no_adsb_match assms(2) have "m = None" by blast
  then obtain d fs where "corroborate rp cf radar radar now f = Some (f', d, fs)"
    "es = fs @ [Collection (fused_topic cf ''unknown'') d]"
    using assms(1) m by (auto simp: fuse_and_publish_def Let_def split: bind_splits)
  with no_adsb_corroborate assms(2) show ?thesis by (auto simp: radar_only_def)
qed

lemma no_adsb_radar:
  assumes "on_radar rp cf topic doc now f = Some (f', es)" and "no_adsb f"
  shows "no_adsb f' \<and> list_all (radar_only cf) es"
proof -
  { fix g u r i
    assume g: "age_out cf now f = Some g"
    have "no_adsb (g\<lparr>radar_tracks := r, radar_by_icao := i\<rparr>)" "no_adsb (g\<lparr>radar_tracks := r\<rparr>)"
      using no_adsb_age [OF g assms(2)] by (simp_all add: no_adsb_def) }
  note start = this
  show ?thesis
    using assms start by (auto simp: on_radar_def Let_def simp del: AList.update.simps
      split: if_splits option.splits pyval.splits bind_splits prod.splits dest!: no_adsb_handoff no_adsb_publish)
qed

lemma no_adsb_occupied: "no_adsb (on_occupied doc now f) = no_adsb f"
  by (auto simp: on_occupied_def no_adsb_def split: option.split pyval.split)

lemma no_adsb_neptun: "on_neptun topic doc now f = Some f' \<Longrightarrow> no_adsb f \<Longrightarrow> no_adsb f'"
  by (auto simp: on_neptun_def Let_def no_adsb_def split: if_splits option.splits pyval.splits)

lemma no_adsb_announce:
  "announce_all xs now f = (f', es) \<Longrightarrow> no_adsb f \<Longrightarrow> list_all (radar_only cf) (map snd xs) \<Longrightarrow>
    no_adsb f' \<and> list_all (radar_only cf) es"
proof (induction xs now f arbitrary: f' es rule: announce_all.induct)
  case (2 k e xs now f)
  have "no_adsb (mark_sent now k f)" using "2.prems"(2) by (simp add: no_adsb_def mark_sent_def)
  with 2 show ?case by (fastforce split: if_splits prod.splits)
qed simp

lemma no_adsb_reside:
  "no_adsb f \<Longrightarrow> no_adsb (fst (reside rp track topic now f)) \<and> list_all (radar_only cf) (snd (reside rp track topic now f))"
  by (simp add: reside_def Let_def no_adsb_def mark_sent_def radar_only_def)

lemma no_adsb_memory: "no_adsb (f\<lparr>strikes := st\<rparr>) = no_adsb f" "no_adsb (f\<lparr>twins := tw\<rparr>) = no_adsb f"
  by (simp_all add: no_adsb_def)

lemma no_adsb_copies:
  assumes "announce_copies rp cf track topic now f = Some (f', es)" and "no_adsb f"
  shows "no_adsb f' \<and> list_all (radar_only cf) es"
proof -
  let ?icao = "py_lower (text_of rp track ''icao24'')"
  let ?xs = "if ?icao \<noteq> [] \<and> list_ex (\<lambda>part. contains_str part topic) military_air
    then [(''civil:'' @ ?icao, Put (civil_topic cf ?icao) [(''icao24'', VStr ?icao), (''ts'', VFloat now)])] else []"
  obtain f1 es1 where 1: "announce_all ?xs now f = (f1, es1)" by (cases "announce_all ?xs now f")
  obtain st retract where s: "strike_observe rp (strike_near_m cf) track now topic (strikes f1) = (st, retract)"
    by (cases "strike_observe rp (strike_near_m cf) track now topic (strikes f1)")
  obtain rs where rs: "retract = Some rs"
    using assms(1) by (cases retract) (simp_all add: announce_copies_def Let_def 1 s)
  let ?ys = "map (\<lambda>(u, t, ty). (u, Put t (tombstone (VStr u) (VStr ty) now))) rs"
  obtain f2 es2 where 2: "announce_all ?ys now (f1\<lparr>strikes := st\<rparr>) = (f2, es2)"
    by (cases "announce_all ?ys now (f1\<lparr>strikes := st\<rparr>)")
  obtain tw held where t: "twin_observe rp track now topic (twins f2) = (tw, held)"
    by (cases "twin_observe rp track now topic (twins f2)")
  obtain us where us: "held = Some us"
    using assms(1) by (cases held) (simp_all add: announce_copies_def Let_def 1 2 s rs t)
  let ?zs = "map (\<lambda>u. (u, Put (twin_topic cf u) [(''uid'', VStr u), (''ts'', VFloat now)])) us"
  obtain f3 es3 where 3: "announce_all ?zs now (f2\<lparr>twins := tw\<rparr>) = (f3, es3)"
    by (cases "announce_all ?zs now (f2\<lparr>twins := tw\<rparr>)")
  have r: "f' = f3" "es = es1 @ es2 @ es3"
    using assms(1) by (simp_all add: announce_copies_def Let_def 1 2 3 s rs t us)
  have "no_adsb f1 \<and> list_all (radar_only cf) es1"
    by (rule no_adsb_announce [OF 1 assms(2)]) (simp add: radar_only_def)
  moreover from this have "no_adsb f2 \<and> list_all (radar_only cf) es2"
    by (intro no_adsb_announce [OF 2]) (auto simp: no_adsb_memory list_all_iff radar_only_def)
  moreover from this have "no_adsb f3 \<and> list_all (radar_only cf) es3"
    by (intro no_adsb_announce [OF 3]) (auto simp: no_adsb_memory list_all_iff radar_only_def)
  ultimately show ?thesis using r by simp
qed

lemma no_adsb_any:
  assumes "on_any_track rp cf topic doc now f = Some (f', es)" and "no_adsb f"
  shows "no_adsb f' \<and> list_all (radar_only cf) es"
proof -
  have res: "no_adsb f' \<and> list_all (radar_only cf) es" if "reside rp track topic now f = (f', es)" for track
    using no_adsb_reside [OF assms(2), of rp track topic now cf] that by simp
  show ?thesis
    using assms by (auto simp: on_any_track_def split: if_splits option.splits pyval.splits bind_splits
      dest: res no_adsb_copies)
qed

text \<open>The key of an ADS-B sample is the key of a view, as every publication of a pod has it.\<close>

definition keyed_by_view :: "fusion_sample \<Rightarrow> bool" where
  "keyed_by_view s \<longleftrightarrow> (case s of Adsb_Sample topic doc \<Rightarrow> \<exists>t fmt. topic = view_key t fmt | _ \<Rightarrow> True)"

lemma no_adsb_step:
  assumes "fusion_step rp cf now s f = Some (f', es)" and "keyed_by_view s" and "no_adsb f"
  shows "no_adsb f' \<and> list_all (radar_only cf) es"
proof (cases s)
  case (Adsb_Sample topic doc)
  with assms show ?thesis by (auto simp: keyed_by_view_def on_adsb_view)
qed (use assms no_adsb_radar no_adsb_any no_adsb_neptun no_adsb_age in \<open>auto simp: no_adsb_occupied\<close>)

lemma no_adsb_run:
  "fusion_run rp cf ss f = Some (f', es) \<Longrightarrow> list_all (\<lambda>(now, s). keyed_by_view s) ss \<Longrightarrow> no_adsb f \<Longrightarrow>
    no_adsb f' \<and> list_all (radar_only cf) es"
proof (induction ss arbitrary: f es)
  case (Cons x ss)
  obtain now s where x: "x = (now, s)" by fastforce
  obtain g fs gs where g: "fusion_step rp cf now s f = Some (g, fs)" "fusion_run rp cf ss g = Some (f', gs)" "es = fs @ gs"
    using Cons.prems(1) unfolding x by (auto split: bind_splits)
  have "no_adsb g \<and> list_all (radar_only cf) fs" using no_adsb_step [OF g(1)] Cons.prems(2,3) unfolding x by simp
  with Cons.IH [OF g(2)] Cons.prems(2) g(3) show ?case by simp
qed simp


definition demo_cf :: fusion_config where
  "demo_cf = \<lparr> spatial_nm = 2, max_age_s = 60, radar_pref = True, handoff_nm = 3, neptun_min_nm = 2, neptun_max_nm = 15,
     neptun_uav_max_ms = 220, neptun_missile_min_ms = 100, strike_near_m = 5000, topic_root = ''EFDI'' \<rparr>"

definition demo_adsb :: dict where
  "demo_adsb = [(''icao24'', VStr ''48a5c6''), (''is_military'', VBool True)]"

definition demo_samples :: "(real \<times> fusion_sample) list" where
  "demo_samples =
     [(1, Adsb_Sample (view_key ''EFDI/air/icao/adsb/civ/aircraft/48a5c6'' ''json'') (Some (VDict demo_adsb))), (2, Age_Timer)]"

lemma age_out_new: "age_out cf now new_fuser = Some new_fuser"
  by (simp add: age_out_def new_fuser_def stale_keys_def)


subsection \<open>Ageing and handoff\<close>

text \<open>
  C24: A handoff keeps its one identity. When the caches age, the live tracks of an object that
  several radars share stay one object: all of them get the same primary, that primary is itself
  live and its own, and it is the old one as long as that one is live. The caches hold then exactly
  the tracks that are not too old.
\<close>

theorem handoff_survives_ageing:
  assumes "age_out cf now f = Some f'" and "distinct (map fst (radar_tracks f))" and "distinct (map fst (radar_primary f))"
    and "distinct (map fst (adsb_tracks f))" and "\<not> live [] f" and "map_of (radar_primary f) p = Some p" and "live p f"
    and "map_of (radar_primary f) u = Some p" and "live u f'"
  shows "radar_tracks f' = fresh cf now (radar_tracks f) \<and> adsb_tracks f' = fresh cf now (adsb_tracks f) \<and>
    (\<exists>q. live q f' \<and> map_of (radar_primary f') q = Some q \<and> (live p f' \<longrightarrow> q = p) \<and>
      (\<forall>v. live v f' \<longrightarrow> map_of (radar_primary f) v = Some p \<longrightarrow> map_of (radar_primary f') v = Some q))"
  using age_out_caches [OF assms(1,2,4)] age_out_primary [OF assms(1,2,3,5,6,7,8,9)] by blast

definition demo_radar :: dict where
  "demo_radar = [(''lat_deg'', VFloat 50), (''lon_deg'', VFloat 30), (''speed_ms'', VInt 50), (''_ts'', VInt 7)]"

definition demo_entry :: "real \<Rightarrow> cached" where
  "demo_entry t = \<lparr> c_track = demo_radar, c_topic = [], c_ts = t \<rparr>"

definition demo_handoff :: fuser where
  "demo_handoff = new_fuser\<lparr>radar_tracks := [(''a'', demo_entry 0), (''b'', demo_entry 90), (''c'', demo_entry 95)],
     radar_primary := [(''a'', ''a''), (''b'', ''a''), (''c'', ''a'')]\<rparr>"

definition demo_aged :: fuser where
  "demo_aged = new_fuser\<lparr>radar_tracks := [(''b'', demo_entry 90), (''c'', demo_entry 95)],
     radar_primary := [(''b'', ''b''), (''c'', ''b'')]\<rparr>"

lemma age_out_demo: "age_out demo_cf 100 demo_handoff = Some demo_aged"
  by (simp add: age_out_def demo_handoff_def demo_aged_def stale_keys_def new_fuser_def demo_entry_def demo_cf_def
    icao_of_def dget_def demo_radar_def promote_def Let_def)

theorem handoff_survives_ageing_witness:
  "radar_tracks demo_aged = fresh demo_cf 100 (radar_tracks demo_handoff) \<and>
   (\<exists>q. live q demo_aged \<and> map_of (radar_primary demo_aged) ''b'' = Some q \<and> map_of (radar_primary demo_aged) ''c'' = Some q)"
proof -
  have h: "distinct (map fst (radar_tracks demo_handoff))" "distinct (map fst (radar_primary demo_handoff))"
    "distinct (map fst (adsb_tracks demo_handoff))" "\<not> live [] demo_handoff" "live ''a'' demo_handoff"
    "map_of (radar_primary demo_handoff) ''a'' = Some ''a''"
    "map_of (radar_primary demo_handoff) ''c'' = Some ''a''" "map_of (radar_primary demo_handoff) ''b'' = Some ''a''"
    "live ''c'' demo_aged" "live ''b'' demo_aged"
    by (simp_all add: demo_handoff_def demo_aged_def new_fuser_def live_def)
  from handoff_survives_ageing [OF age_out_demo h(1,2,3,4,6,5,7,9)] h(7,8,9,10) show ?thesis by blast
qed

subsection \<open>Corroboration\<close>

text \<open>
  C25: Threats are matched one to one. Two fresh objects of the radar cache that are both matched
  with the same threat are one object to the handoff, and each of them fits the threat. So one
  threat report is never held back for two different radar objects.
\<close>

theorem neptun_one_to_one:
  assumes "match_neptun cf (c_track a) u cache neptun now ident = Some (Some t)"
    and "match_neptun cf (c_track b) v cache neptun now ident = Some (Some t)"
    and "distinct (map fst neptun)" and "(v, b) \<in> set cache" and "now - c_ts b \<le> max_age_s cf"
  shows "ident u = ident v \<and> (\<exists>e. (t, e) \<in> set neptun \<and> neptun_pair_ok cf (c_track a) (c_track e) = Some True \<and>
    neptun_pair_ok cf (c_track b) (c_track e) = Some True)"
proof -
  obtain e where e: "(t, e) \<in> set neptun" "neptun_pair_ok cf (c_track a) (c_track e) = Some True"
    using match_neptun_Some [OF assms(1)] by blast
  obtain d where d: "(t, d) \<in> set neptun" "neptun_pair_ok cf (c_track b) (c_track d) = Some True"
    using match_neptun_Some [OF assms(2)] by blast
  have "d = e" using e(1) d(1) assms(3) by (metis eq_key_imp_eq_value)
  with e d match_neptun_alone [OF assms] show ?thesis by blast
qed

lemma haversine_same: "haversine_nm a b a b = 0"
  by (simp add: haversine_nm_def radians_def atan2_def)

definition demo_threat :: dict where
  "demo_threat = [(''uid'', VStr ''n1''), (''type'', VStr ''uav''), (''lat_deg'', VFloat 50), (''lon_deg'', VFloat 30)]"

definition demo_threats :: threats where
  "demo_threats = [(VStr ''n1'', \<lparr> c_track = demo_threat, c_topic = [], c_ts = 98 \<rparr>)]"

lemma demo_kind: "py_lower ''uav'' = ''uav''"
  by code_simp

lemma demo_pair: "neptun_pair_ok demo_cf demo_radar demo_threat = Some True"
  by (simp add: neptun_pair_ok_def demo_radar_def demo_threat_def holds_def absent_def dget_def or_zero_def field_def
    nm_def number_def haversine_same demo_cf_def truthy_def missile_types_def uav_types_def demo_kind)

lemma demo_match: "match_neptun demo_cf (c_track (demo_entry t)) u (radar_tracks demo_aged) demo_threats 100 (\<lambda>u. ''b'') =
    Some (Some (VStr ''n1''))"
  using demo_pair by (simp add: match_neptun_def demo_threats_def demo_aged_def demo_entry_def Let_def) (simp add: demo_cf_def)

theorem neptun_one_to_one_witness:
  "match_neptun demo_cf demo_radar ''b'' (radar_tracks demo_aged) demo_threats 100 (\<lambda>u. ''b'') = Some (Some (VStr ''n1'')) \<and>
   (\<exists>e. (VStr ''n1'', e) \<in> set demo_threats \<and> neptun_pair_ok demo_cf demo_radar (c_track e) = Some True)"
proof -
  have h: "distinct (map fst demo_threats)" "(''c'', demo_entry 95) \<in> set (radar_tracks demo_aged)"
    "100 - c_ts (demo_entry 95) \<le> max_age_s demo_cf"
    by (simp_all add: demo_threats_def demo_aged_def demo_entry_def demo_cf_def)
  show ?thesis
    using neptun_one_to_one [OF demo_match [of 90 "''b''"] demo_match [of 95 "''c''"] h] demo_match [of 90 "''b''"]
    by (simp add: demo_entry_def)
qed

subsection \<open>Merging\<close>

lemma dget_puts_two: "dget (puts d [(j, v), (k, w)]) i = (if i = k then Some w else if i = j then Some v else dget d i)"
  by (simp add: dget_def update_conv')

lemma merge_radar_first:
  assumes "merge rp cf radar adsb = Some (fused, meth)" and "radar_pref cf"
  obtains ts where "max_val (get_default radar ''_ts'' (VInt 0)) (get_default adsb ''_ts'' (VInt 0)) = Some ts"
    and "fused = AList.delete ''_fusion_method'' (puts (take_fields adsb
        (filter (\<lambda>k. dget (take_fields adsb id_fields (puts [] radar)) k = None) adsb_supplement)
        (take_fields adsb id_fields (puts [] radar)))
      [(''_ts'', ts), (''_src'', VStr (py_str rp (get_default radar ''_src'' (VStr ''radar'')) @ '' + '' @
        py_str rp (get_default adsb ''_src'' (VStr ''adsb''))))])"
  using assms by (auto simp: merge_def Let_def split: bind_splits)

lemma special_fields: "''_fusion_method'' \<notin> set id_fields" "''_ts'' \<notin> set id_fields" "''_src'' \<notin> set id_fields"
  "''vertical_rate_ms'' \<notin> set id_fields"
  by (simp_all add: id_fields_def)

text \<open>
  What a fused track holds when the radar is preferred. Each field has one source: the time is the
  later one, the source names both, the mark of the method is gone; a field of identity comes from the
  ADS-B track if that has it; every other field is the one of the radar, so a position or a speed of
  the radar is never replaced; and of the fields that the radar lacks only the vertical rate is
  taken from the ADS-B track.
\<close>

theorem merge_sources:
  assumes "merge rp cf radar adsb = Some (fused, meth)" and "radar_pref cf"
    and "distinct (map fst radar)"
  shows "dget fused k = (if k = ''_fusion_method'' then None
    else if k = ''_ts'' then max_val (get_default radar k (VInt 0)) (get_default adsb k (VInt 0))
    else if k = ''_src'' then Some (VStr (py_str rp (get_default radar k (VStr ''radar'')) @ '' + '' @
      py_str rp (get_default adsb k (VStr ''adsb''))))
    else if k \<in> set id_fields \<and> dget adsb k \<noteq> None then dget adsb k
    else if dget radar k = None \<and> k = ''vertical_rate_ms'' then dget adsb k
    else dget radar k)"
proof -
  obtain ts where ts: "max_val (get_default radar ''_ts'' (VInt 0)) (get_default adsb ''_ts'' (VInt 0)) = Some ts"
    and fused: "fused = AList.delete ''_fusion_method'' (puts (take_fields adsb
        (filter (\<lambda>k. dget (take_fields adsb id_fields (puts [] radar)) k = None) adsb_supplement)
        (take_fields adsb id_fields (puts [] radar)))
      [(''_ts'', ts), (''_src'', VStr (py_str rp (get_default radar ''_src'' (VStr ''radar'')) @ '' + '' @
        py_str rp (get_default adsb ''_src'' (VStr ''adsb''))))])"
    by (rule merge_radar_first [OF assms(1,2)])
  show ?thesis
    unfolding fused dget_delete dget_puts_two dget_take_fields dget_puts_Nil [OF assms(3)]
    using ts special_fields by (auto simp: adsb_supplement_def)
qed

theorem merge_sources_witness:
  "\<exists>fused meth. merge (\<lambda>v. []) demo_cf demo_radar demo_adsb = Some (fused, meth) \<and>
    dget fused ''lat_deg'' = Some (VFloat 50) \<and> dget fused ''icao24'' = Some (VStr ''48a5c6'')"
proof -
  have "\<exists>fused meth. merge (\<lambda>v. []) demo_cf demo_radar demo_adsb = Some (fused, meth)"
    by (simp add: merge_def Let_def max_val_def number_def get_default_def dget_def demo_radar_def demo_adsb_def demo_cf_def)
  then obtain fused meth where f: "merge (\<lambda>v. []) demo_cf demo_radar demo_adsb = Some (fused, meth)" by blast
  have pref: "radar_pref demo_cf" "distinct (map fst demo_radar)" by (simp_all add: demo_cf_def demo_radar_def)
  have "dget fused ''lat_deg'' = Some (VFloat 50)" "dget fused ''icao24'' = Some (VStr ''48a5c6'')"
    unfolding merge_sources [OF f pref] by (simp_all add: id_fields_def demo_radar_def demo_adsb_def dget_def)
  with f show ?thesis by blast
qed

end
