(* ===== verification/Ieee_Floats.thy ===== *)
theory Ieee_Floats
  imports EFDI_Prelude
begin

text \<open>
  Numbers in octets, the least first, and the IEEE formats of floating point numbers.
\<close>

subsection \<open>Little-endian fields and IEEE numbers\<close>

definition from_bytes_little :: "bytes \<Rightarrow> nat" where
  "from_bytes_little raw = nat (from_bytes_big (rev raw))"

definition pack_le :: "nat \<Rightarrow> nat \<Rightarrow> bytes" where
  "pack_le k n = map (\<lambda>i. of_nat (n div 256 ^ i mod 256)) [0..<k]"

datatype float_value = Finite real | Infinite bool | NotANumber

text \<open>\<open>struct.unpack("<d")\<close> and \<open>struct.unpack("<f")\<close> on the value of the octets.\<close>

definition ieee :: "nat \<Rightarrow> nat \<Rightarrow> nat \<Rightarrow> float_value" where
  "ieee we wm n =
     (let m = n mod 2 ^ wm; e = n div 2 ^ wm mod 2 ^ we; neg = odd (n div 2 ^ (wm + we));
          bias = 2 ^ (we - 1) - 1;
          x = (if e = 0 then real (2 * m) else real ((2 ^ wm + m) * 2 ^ e)) / 2 ^ (bias + wm)
      in if e = 2 ^ we - 1 then (if m = 0 then Infinite neg else NotANumber)
         else Finite (if neg then - x else x))"

lemma from_bytes_little_Cons: "from_bytes_little (b # bs) = unat b + 256 * from_bytes_little bs"
proof -
  have "0 \<le> from_bytes_big (rev bs)" using from_bytes_big_bounds by blast
  then show ?thesis
    by (simp add: from_bytes_little_def from_bytes_big_snoc nat_add_distrib nat_mult_distrib)
qed

lemma pack_le_Suc: "pack_le (Suc k) n = of_nat (n mod 256) # pack_le k (n div 256)"
proof -
  have "[0..<Suc k] = 0 # map Suc [0..<k]" by (metis map_Suc_upt upt_conv_Cons zero_less_Suc)
  then show ?thesis unfolding pack_le_def by (simp add: div_mult2_eq del: upt_Suc)
qed

lemma length_pack_le [simp]: "length (pack_le k n) = k"
  by (simp add: pack_le_def)

lemma from_pack_le: "from_bytes_little (pack_le k n) = n mod 256 ^ k"
proof (induction k arbitrary: n)
  case 0
  show ?case by (simp add: pack_le_def from_bytes_little_def)
next
  case (Suc k)
  have "unat (of_nat (n mod 256) :: byte) = n mod 256" by (simp add: unat_of_nat)
  with Suc show ?case
    by (simp add: pack_le_Suc from_bytes_little_Cons mod_mult2_eq ac_simps)
qed

end
