(* ===== verification/Framed_Stream.thy ===== *)
theory Framed_Stream
  imports EFDI_Prelude
begin

text \<open>
  A reader that is fed chunks: it keeps a buffer, appends each chunk, and takes out the complete
  messages. \<open>drain\<close> is one pass over the buffer: the messages, and what stays.
\<close>

fun read_chunks :: "('b list \<Rightarrow> 'm list \<times> 'b list) \<Rightarrow> 'b list list \<Rightarrow> 'b list \<Rightarrow> 'm list \<times> 'b list" where
  "read_chunks drain [] buf = ([], buf)"
| "read_chunks drain (c # cs) buf =
     (let (ms, rest) = drain (buf @ c); (ns, rest') = read_chunks drain cs rest in (ms @ ns, rest'))"

text \<open>
  What a client relies on: a complete message at the front is taken, and the beginning of a message
  waits.
\<close>

locale framed_stream =
  fixes drain :: "'b list \<Rightarrow> 'm list \<times> 'b list"
    and encoded :: "'m \<Rightarrow> 'b list"
    and valid :: "'m \<Rightarrow> bool"
  assumes drain_take: "valid m \<Longrightarrow> drain (encoded m @ rest) = (m # fst (drain rest), snd (drain rest))"
    and drain_wait: "valid m \<Longrightarrow> encoded m = q @ s \<Longrightarrow> s \<noteq> [] \<Longrightarrow> drain q = ([], q)"
    and encoded_ne: "valid m \<Longrightarrow> encoded m \<noteq> []"
begin

text \<open>The beginning of a message, or nothing.\<close>

definition partial :: "'b list \<Rightarrow> bool" where
  "partial q \<longleftrightarrow> q = [] \<or> (\<exists>m s. valid m \<and> encoded m = q @ s \<and> s \<noteq> [])"

lemma drain_nil: "valid m \<Longrightarrow> drain [] = ([], [])"
  using drain_wait [of m "[]" "encoded m"] encoded_ne by simp

lemma drain_partial: "valid m \<Longrightarrow> partial q \<Longrightarrow> drain q = ([], q)"
  using drain_nil drain_wait unfolding partial_def by blast

text \<open>A byte string splits into whole messages and the beginning of the next at one place only.\<close>

lemma split_stream:
  assumes "list_all valid ms" and "partial q" and "concat (map encoded ms) @ q = a @ b"
  shows "\<exists>ms1 ms2 q1. ms = ms1 @ ms2 \<and> a = concat (map encoded ms1) @ q1 \<and> partial q1 \<and>
    q1 @ b = concat (map encoded ms2) @ q"
  using assms
proof (induction ms arbitrary: a)
  case Nil
  then have "partial a"
    unfolding partial_def by (metis append.assoc append_is_Nil_conv append_self_conv2 concat.simps(1) list.simps(8))
  with Nil show ?case by (intro exI [of _ "[]"] exI [of _ a]) simp
next
  case (Cons m ms)
  show ?case
  proof (cases "length (encoded m) \<le> length a")
    case True
    with Cons.prems(3) obtain a' where a: "a = encoded m @ a'"
      by (auto simp: append_eq_append_conv2)
    with Cons.prems have "concat (map encoded ms) @ q = a' @ b" by simp
    with Cons.IH [OF _ Cons.prems(2) this] Cons.prems(1) obtain ms1 ms2 q1 where
      "ms = ms1 @ ms2" "a' = concat (map encoded ms1) @ q1" "partial q1" "q1 @ b = concat (map encoded ms2) @ q"
      by auto
    with a show ?thesis by (intro exI [of _ "m # ms1"] exI [of _ ms2] exI [of _ q1]) simp
  next
    case False
    with Cons.prems(3) obtain s where s: "encoded m = a @ s" "s \<noteq> []"
      by (auto simp: append_eq_append_conv2)
    with Cons.prems(1) have "partial a" by (auto simp: partial_def)
    with Cons.prems(3) s show ?thesis by (intro exI [of _ "[]"] exI [of _ "m # ms"] exI [of _ a]) simp
  qed
qed

lemma drain_messages:
  "list_all valid ms \<Longrightarrow> partial q \<Longrightarrow> valid m \<Longrightarrow> drain (concat (map encoded ms) @ q) = (ms, q)"
  by (induction ms) (simp_all add: drain_take drain_partial)

text \<open>However the bytes are cut into chunks, the messages come out whole and in order.\<close>

lemma read_chunks_messages:
  assumes "list_all valid ms" and "partial q" and "valid m" and "partial buf"
    and "buf @ concat cs = concat (map encoded ms) @ q"
  shows "read_chunks drain cs buf = (ms, q)"
  using assms
proof (induction cs arbitrary: buf ms)
  case Nil
  have "drain buf = ([], buf)" by (rule drain_partial [OF Nil(3,4)])
  moreover from Nil have "drain buf = (ms, q)" using drain_messages [OF Nil(1,2,3)] by simp
  ultimately show ?case by simp
next
  case (Cons c cs)
  from Cons.prems(5) have "concat (map encoded ms) @ q = (buf @ c) @ concat cs" by simp
  from split_stream [OF Cons.prems(1,2) this] obtain ms1 ms2 q1 where
    s: "ms = ms1 @ ms2" "buf @ c = concat (map encoded ms1) @ q1" "partial q1"
    "q1 @ concat cs = concat (map encoded ms2) @ q" by (elim exE conjE)
  from s(1) Cons.prems(1) have v: "list_all valid ms1" "list_all valid ms2" by simp_all
  from drain_messages [OF v(1) s(3) Cons.prems(3)] s(2) have "drain (buf @ c) = (ms1, q1)" by simp
  moreover from Cons.IH [OF v(2) Cons.prems(2,3) s(3,4)] have "read_chunks drain cs q1 = (ms2, q)" .
  ultimately show ?case by (simp add: s(1))
qed

end

text \<open>A reader that, on any bytes at all, loses nothing by being fed in pieces.\<close>

locale resuming_stream = framed_stream +
  assumes drain_resume: "drain (a @ b) = (fst (drain a) @ fst (drain (snd (drain a) @ b)), snd (drain (snd (drain a) @ b)))"
begin

lemma read_chunks_whole:
  "drain buf = ([], buf) \<Longrightarrow> read_chunks drain cs buf = drain (buf @ concat cs)"
proof (induction cs arbitrary: buf)
  case (Cons c cs)
  obtain ms r where r: "drain (buf @ c) = (ms, r)" by force
  from drain_resume [of "buf @ c" "[]"] r have "drain r = ([], r)" by (cases "drain r") simp
  from Cons.IH [OF this] drain_resume [of "buf @ c" "concat cs"] r show ?case
    by (simp add: case_prod_beta)
qed simp

end

end
