(* ===== verification/Stanag_Uas.thy ===== *)
theory Stanag_Uas
  imports Ieee_Floats Asterix_Frame Topics Framed_Stream
begin

text \<open>
  STANAG 4586 vehicle telemetry (\<open>_4586_*\<close> in \<open>stanag.py\<close>): the frame of the legacy profile,
  the three readers of frames (a socket, one whole frame, the buffered raw topic), the vehicle
  state with its IEEE numbers, and what the translator publishes. The clock is an argument.
\<close>

subsection \<open>Numbers of a body\<close>

definition f64_at :: "bytes \<Rightarrow> nat \<Rightarrow> float_value" where
  "f64_at body i = ieee 11 52 (from_bytes_little (py_slice body i (i + 8)))"

definition f32_at :: "bytes \<Rightarrow> nat \<Rightarrow> float_value" where
  "f32_at body i = ieee 8 23 (from_bytes_little (py_slice body i (i + 4)))"

text \<open>Comparisons with a number that is not finite are made as Python makes them.\<close>

definition in_band :: "real \<Rightarrow> real \<Rightarrow> float_value \<Rightarrow> bool" where
  "in_band lo hi f \<longleftrightarrow> (case f of Finite x \<Rightarrow> lo \<le> x \<and> x \<le> hi | _ \<Rightarrow> False)"

definition not_negative :: "float_value \<Rightarrow> bool" where
  "not_negative f \<longleftrightarrow> (case f of Finite x \<Rightarrow> 0 \<le> x | Infinite neg \<Rightarrow> \<not> neg | NotANumber \<Rightarrow> False)"

definition abs_below :: "real \<Rightarrow> float_value \<Rightarrow> bool" where
  "abs_below b f \<longleftrightarrow> (case f of Finite x \<Rightarrow> \<bar>x\<bar> < b | _ \<Rightarrow> False)"

fun map_finite :: "(real \<Rightarrow> real) \<Rightarrow> float_value \<Rightarrow> float_value" where
  "map_finite g (Finite x) = Finite (g x)"
| "map_finite g f = f"

text \<open>\<open>x % 360\<close>.\<close>

definition mod360 :: "real \<Rightarrow> real" where
  "mod360 x = x - 360 * of_int \<lfloor>x / 360\<rfloor>"

subsection \<open>Frames\<close>

definition header_size :: nat where "header_size = 6"
definition max_frame_bytes :: nat where "max_frame_bytes = 1048576"
definition msg_vsm_heartbeat :: nat where "msg_vsm_heartbeat = 0x4001"
definition msg_cucs_heartbeat :: nat where "msg_cucs_heartbeat = 0x4002"
definition msg_vehicle_state :: nat where "msg_vehicle_state = 0x0001"

text \<open>\<open>struct.pack("<HHH", ...)\<close>: \<open>None\<close> is \<open>struct.error\<close>.\<close>

definition build_header :: "nat \<Rightarrow> nat \<Rightarrow> nat \<Rightarrow> bytes option" where
  "build_header msg_type body_len instance_id =
     (let total = header_size + body_len in
      if msg_type < 65536 \<and> total < 65536 \<and> instance_id < 65536
      then Some (pack_le 2 msg_type @ pack_le 2 total @ pack_le 2 instance_id) else None)"

definition build_cucs_heartbeat :: "real \<Rightarrow> nat \<Rightarrow> bytes option" where
  "build_cucs_heartbeat now instance_id =
     (if instance_id < 65536 then
        let body = pack_le 2 instance_id @ pack_le 4 (nat (\<lfloor>now\<rfloor> mod 2 ^ 32)) @ pack_le 1 1
        in map_option (\<lambda>h. h @ body) (build_header msg_cucs_heartbeat (length body) instance_id)
      else None)"

definition field16 :: "bytes \<Rightarrow> nat \<Rightarrow> nat" where
  "field16 data i = from_bytes_little (py_slice data i (i + 2))"

datatype frame_error = Closed | BadSize nat | TooLong nat | ShortFrame | LengthMismatch

definition recv_message :: "tcp_socket \<Rightarrow> frame_error + (nat \<times> nat \<times> bytes) \<times> tcp_socket" where
  "recv_message sock = (case recv_exact sock header_size of
     None \<Rightarrow> Inl Closed
   | Some (hdr, sock1) \<Rightarrow>
       let total = field16 hdr 2 in
       if total < header_size then Inl (BadSize total)
       else if total > max_frame_bytes then Inl (TooLong total)
       else if total - header_size > 0 then (case recv_exact sock1 (total - header_size) of
           None \<Rightarrow> Inl Closed
         | Some (body, sock2) \<Rightarrow> Inr ((field16 hdr 0, field16 hdr 4, body), sock2))
       else Inr ((field16 hdr 0, field16 hdr 4, []), sock1))"

definition recv_message_from_bytes :: "bytes \<Rightarrow> frame_error + nat \<times> nat \<times> bytes" where
  "recv_message_from_bytes frame =
     (if length frame < header_size then Inl ShortFrame
      else if field16 frame 2 \<noteq> length frame then Inl LengthMismatch
      else Inr (field16 frame 0, field16 frame 4, drop header_size frame))"

subsection \<open>Vehicle state\<close>

datatype uas_value = UText string | UInt nat | UFloat float_value

type_synonym uas_track = "(string \<times> uas_value) list"

definition uround :: "nat \<Rightarrow> float_value \<Rightarrow> uas_value" where
  "uround k f = UFloat (map_finite (\<lambda>x. py_round x k) f)"

definition decode_vehicle_state :: "real \<Rightarrow> bytes \<Rightarrow> nat \<Rightarrow> uas_track option" where
  "decode_vehicle_state now body instance_id =
     (if length body < 56 then None
      else let
        lat = f64_at body 0; lon = f64_at body 8; alt_msl = f64_at body 16; alt_agl = f64_at body 24;
        heading = f64_at body 32; speed = f64_at body 40; vspeed = f64_at body 48
      in if \<not> (in_band (- 90) 90 lat \<and> in_band (- 180) 180 lon) then None
      else Some (
        [(''_ts'', UFloat (Finite now)),
         (''_src'', UText ''STANAG 4586''),
         (''uid'', UText (''stanag_4586-vsm-'' @ nat_str 10 instance_id)),
         (''vsm_instance'', UInt instance_id),
         (''callsign'', UText (''UAV-VSM-'' @ nat_str 10 instance_id)),
         (''lat_deg'', uround 6 lat),
         (''lon_deg'', uround 6 lon),
         (''alt_m'', uround 1 alt_msl)] @
        onlyif (in_band (- 1000) 100000 alt_agl) [(''alt_agl_m'', uround 1 alt_agl)] @
        onlyif (in_band (- 360) 360 heading) [(''heading_deg'', uround 1 (map_finite mod360 heading))] @
        onlyif (not_negative speed) [(''speed_ms'', uround 2 speed)] @
        onlyif (abs_below 1000 vspeed) [(''vertical_rate_ms'', uround 2 vspeed)] @
        onlyif (length body \<ge> 60 \<and> in_band 0 1 (f32_at body 56))
          [(''fuel_pct'', uround 1 (map_finite (\<lambda>x. x * 100) (f32_at body 56)))]))"

text \<open>What a message makes the translator publish, under the topic of the translator.\<close>

definition uas_topic :: "string \<Rightarrow> string" where
  "uas_topic topic_root = topic_root @ ''/air/stanag_4586/telemetry/civ/aircraft''"

definition handle_message :: "string \<Rightarrow> real \<Rightarrow> nat \<times> nat \<times> bytes \<Rightarrow> (string \<times> uas_track) list" where
  "handle_message topic_root now msg = (case msg of (msg_type, instance_id, body) \<Rightarrow>
     if msg_type = msg_vehicle_state then
       (case decode_vehicle_state now body instance_id of
          None \<Rightarrow> [] | Some track \<Rightarrow> [(uas_topic topic_root, track)])
     else [])"

text \<open>The session on a socket: what it published until the exception that ended it.\<close>

lemma recv_message_progress:
  "recv_message sock = Inr (m, sock') \<Longrightarrow> length (concat sock') < length (concat sock)"
proof -
  assume r: "recv_message sock = Inr (m, sock')"
  then obtain hdr sock1 where h: "recv_exact sock header_size = Some (hdr, sock1)"
    by (auto simp: recv_message_def split: option.splits)
  from recv_exact_split [OF h] have l: "length (concat sock) = 6 + length (concat sock1)"
    by (metis header_size_def length_append)
  from r h have "sock' = sock1 \<or> (\<exists>n body. recv_exact sock1 n = Some (body, sock'))"
    by (auto simp: recv_message_def Let_def split: if_splits option.splits)
  then have "length (concat sock') \<le> length (concat sock1)"
    using recv_exact_split by (metis length_append le_add2 order_refl)
  with l show ?thesis by simp
qed

function run_session :: "string \<Rightarrow> real \<Rightarrow> tcp_socket \<Rightarrow> (string \<times> uas_track) list \<times> frame_error" where
  "run_session topic_root now sock = (case recv_message sock of
     Inl e \<Rightarrow> ([], e)
   | Inr (msg, sock') \<Rightarrow> (case run_session topic_root now sock' of
       (es, e) \<Rightarrow> (handle_message topic_root now msg @ es, e)))"
  by pat_completeness auto
termination by (relation "measure (\<lambda>(_, _, sock). length (concat sock))") (auto dest: recv_message_progress)

declare run_session.simps [simp del]

subsection \<open>The raw topic\<close>

text \<open>The loop over the buffer: the messages it takes, and the bytes it keeps.\<close>

function uas_drain :: "bytes \<Rightarrow> (nat \<times> nat \<times> bytes) list \<times> bytes" where
  "uas_drain buf =
     (if length buf < header_size then ([], buf)
      else let total = field16 buf 2 in
      if total < header_size \<or> total > max_frame_bytes then uas_drain (drop 1 buf)
      else if length buf < total then ([], buf)
      else (case recv_message_from_bytes (take total buf) of
          Inl _ \<Rightarrow> ([], buf)
        | Inr msg \<Rightarrow> (case uas_drain (drop total buf) of (ms, rest) \<Rightarrow> (msg # ms, rest))))"
  by pat_completeness auto
termination by (relation "measure length") (auto simp: header_size_def)

declare uas_drain.simps [simp del]

text \<open>One sample of the raw topic, and a run of them.\<close>

definition uas_sample :: "string \<Rightarrow> real \<Rightarrow> bytes \<Rightarrow> bytes \<Rightarrow> (string \<times> uas_track) list \<times> bytes" where
  "uas_sample topic_root now data buf = (case uas_drain (buf @ data) of
     (ms, rest) \<Rightarrow> (concat (map (handle_message topic_root now) ms), rest))"

subsection \<open>Frames and the reader of the raw topic\<close>

definition uas_encoded :: "nat \<times> nat \<times> bytes \<Rightarrow> bytes" where
  "uas_encoded m = (case m of (t, i, body) \<Rightarrow>
     pack_le 2 t @ pack_le 2 (header_size + length body) @ pack_le 2 i @ body)"

definition uas_valid :: "nat \<times> nat \<times> bytes \<Rightarrow> bool" where
  "uas_valid m = (case m of (t, i, body) \<Rightarrow> t < 65536 \<and> i < 65536 \<and> header_size + length body < 65536)"

lemma uas_encoded_header:
  "uas_valid (t, i, body) \<Longrightarrow> build_header t (length body) i = Some h \<Longrightarrow> uas_encoded (t, i, body) = h @ body"
  by (auto simp: build_header_def uas_encoded_def Let_def split: if_splits)

lemma uas_encoded_fields:
  assumes "uas_valid (t, i, body)"
  shows "field16 (uas_encoded (t, i, body) @ rest) 0 = t"
    and "field16 (uas_encoded (t, i, body) @ rest) 2 = 6 + length body"
    and "field16 (uas_encoded (t, i, body) @ rest) 4 = i"
    and "length (uas_encoded (t, i, body)) = 6 + length body"
    and "drop 6 (uas_encoded (t, i, body)) = body"
  using assms
  by (simp_all add: uas_encoded_def uas_valid_def field16_def py_slice_def from_pack_le header_size_def)

lemma field16_bound: "field16 data i < 65536"
proof -
  have "from_bytes_big (rev (py_slice data i (i + 2))) < 256 ^ length (rev (py_slice data i (i + 2)))"
    using from_bytes_big_bounds by blast
  also have "\<dots> \<le> 256 ^ 2" by (intro power_increasing) (auto simp: length_py_slice_gen)
  finally show ?thesis by (simp add: field16_def from_bytes_little_def nat_less_iff from_bytes_big_bounds)
qed

lemma field16_append: "i + 2 \<le> length a \<Longrightarrow> field16 (a @ b) i = field16 a i"
  by (simp add: field16_def py_slice_def)

lemma recv_whole_frame:
  "header_size \<le> length buf \<Longrightarrow> header_size \<le> field16 buf 2 \<Longrightarrow> field16 buf 2 \<le> length buf \<Longrightarrow>
     recv_message_from_bytes (take (field16 buf 2) buf) =
       Inr (field16 buf 0, field16 buf 4, drop header_size (take (field16 buf 2) buf))"
proof -
  assume a: "header_size \<le> length buf" "header_size \<le> field16 buf 2" "field16 buf 2 \<le> length buf"
  have "field16 (take (field16 buf 2) buf) i = field16 buf i" if "i + 2 \<le> header_size" for i
    using that a(2) by (simp add: field16_def py_slice_take)
  with a show ?thesis by (simp add: recv_message_from_bytes_def header_size_def)
qed

lemma uas_drain_step:
  assumes "header_size \<le> length buf" and "header_size \<le> field16 buf 2"
  shows "uas_drain buf =
    (if length buf < field16 buf 2 then ([], buf)
     else case uas_drain (drop (field16 buf 2) buf) of (ms, rest) \<Rightarrow>
       ((field16 buf 0, field16 buf 4, drop header_size (take (field16 buf 2) buf)) # ms, rest))"
proof -
  have "\<not> max_frame_bytes < field16 buf 2" using field16_bound [of buf 2] by (simp add: max_frame_bytes_def)
  with assms show ?thesis by (subst uas_drain.simps) (simp add: Let_def recv_whole_frame)
qed

lemma uas_drain_short: "length buf < header_size \<Longrightarrow> uas_drain buf = ([], buf)"
  by (simp add: uas_drain.simps [of buf])

lemma uas_drain_skip:
  "header_size \<le> length buf \<Longrightarrow> field16 buf 2 < header_size \<Longrightarrow> uas_drain buf = uas_drain (drop 1 buf)"
  by (subst uas_drain.simps) simp

lemma uas_drain_resume:
  "uas_drain (a @ b) =
     (fst (uas_drain a) @ fst (uas_drain (snd (uas_drain a) @ b)), snd (uas_drain (snd (uas_drain a) @ b)))"
proof (induction a rule: uas_drain.induct)
  case (1 a)
  consider "length a < header_size" | "header_size \<le> length a" "field16 a 2 < header_size"
    | "header_size \<le> length a" "header_size \<le> field16 a 2" "length a < field16 a 2"
    | "header_size \<le> length a" "header_size \<le> field16 a 2" "field16 a 2 \<le> length a" by linarith
  then show ?case
  proof cases
    case 2
    then have "uas_drain (a @ b) = uas_drain (drop 1 a @ b)"
      by (subst uas_drain_skip) (simp_all add: field16_append header_size_def)
    with 2 "1.IH"(1) show ?thesis by (simp add: uas_drain_skip)
  next
    case 4
    have "\<not> max_frame_bytes < field16 a 2" using field16_bound [of a 2] by (simp add: max_frame_bytes_def)
    with 4 "1.IH"(2) have ih: "uas_drain (drop (field16 a 2) a @ b) =
      (fst (uas_drain (drop (field16 a 2) a)) @ fst (uas_drain (snd (uas_drain (drop (field16 a 2) a)) @ b)),
       snd (uas_drain (snd (uas_drain (drop (field16 a 2) a)) @ b)))"
      by (simp add: recv_whole_frame)
    have "field16 (a @ b) i = field16 a i" if "i + 2 \<le> header_size" for i
      using that 4(1) by (simp add: field16_append)
    then have "uas_drain (a @ b) = (case uas_drain (drop (field16 a 2) a @ b) of (ms, rest) \<Rightarrow>
      ((field16 a 0, field16 a 4, drop header_size (take (field16 a 2) a)) # ms, rest))"
      using 4 by (subst uas_drain_step) (simp_all add: header_size_def)
    with ih uas_drain_step [OF 4(1,2)] 4(3) show ?thesis by (simp add: case_prod_beta)
  qed (simp_all add: uas_drain_short uas_drain_step)
qed

interpretation uas: resuming_stream uas_drain uas_encoded uas_valid
proof unfold_locales
  fix m :: "nat \<times> nat \<times> bytes" and rest :: bytes
  assume v: "uas_valid m"
  obtain t i body where m: "m = (t, i, body)" by (rule prod_cases3)
  note f = uas_encoded_fields(1-3) [OF v [unfolded m], of rest] uas_encoded_fields(4,5) [OF v [unfolded m]]
  from f show "uas_drain (uas_encoded m @ rest) = (m # fst (uas_drain rest), snd (uas_drain rest))"
    by (subst uas_drain_step) (simp_all add: m header_size_def case_prod_beta)
next
  fix m :: "nat \<times> nat \<times> bytes" and q s :: bytes
  assume v: "uas_valid m" and q: "uas_encoded m = q @ s" "s \<noteq> []"
  obtain t i body where m: "m = (t, i, body)" by (rule prod_cases3)
  note f = uas_encoded_fields(1-3) [OF v [unfolded m], of "[]"] uas_encoded_fields(4) [OF v [unfolded m]]
  show "uas_drain q = ([], q)"
  proof (cases "length q < header_size")
    case False
    with f(2) q(1) have t: "field16 q 2 = 6 + length body" by (simp add: m field16_append header_size_def)
    have "length q + length s = 6 + length body" using f(4) q(1) by (simp add: m)
    moreover from q(2) have "0 < length s" by simp
    ultimately have "length q < 6 + length body" by linarith
    with False t show ?thesis by (subst uas_drain_step) (simp_all add: header_size_def)
  qed (rule uas_drain_short)
next
  fix m :: "nat \<times> nat \<times> bytes"
  assume "uas_valid m"
  then show "uas_encoded m \<noteq> []" using uas_encoded_fields(4) by (cases m) fastforce
next
  fix a b :: bytes
  show "uas_drain (a @ b) =
    (fst (uas_drain a) @ fst (uas_drain (snd (uas_drain a) @ b)), snd (uas_drain (snd (uas_drain a) @ b)))"
    by (rule uas_drain_resume)
qed

text \<open>
  The raw topic may be cut anywhere. However the bytes are divided over samples, and whatever
  bytes they are, the translator takes out the messages it would find in the whole, with the same
  bytes left over; and the whole of well-formed frames gives exactly their messages, in order.
\<close>

theorem uas_raw_any_chunks:
  assumes "list_all uas_valid ms" and "concat cs = concat (map uas_encoded ms) @ junk"
  shows "read_chunks uas_drain cs [] = uas_drain (concat cs) \<and>
    uas_drain (concat cs) = (ms @ fst (uas_drain junk), snd (uas_drain junk))"
proof
  show "read_chunks uas_drain cs [] = uas_drain (concat cs)"
    using uas.read_chunks_whole [of "[]" cs] by (simp add: uas_drain_short header_size_def)
  from assms(1) have "uas_drain (concat (map uas_encoded ms) @ junk) =
      (ms @ fst (uas_drain junk), snd (uas_drain junk))"
    by (induction ms) (simp_all add: uas.drain_take)
  with assms(2) show "uas_drain (concat cs) = (ms @ fst (uas_drain junk), snd (uas_drain junk))" by simp
qed

theorem uas_raw_any_chunks_witness:
  "read_chunks uas_drain [[7, 0, 7], [0, 5, 0, 9, 2, 0], [6, 0, 5, 0, 3]] [] = ([(7, 5, [9]), (2, 5, [])], [3])"
proof -
  have e: "uas_encoded (7, 5, [9]) = [7, 0, 7, 0, 5, 0, 9]" "uas_encoded (2, 5, []) = [2, 0, 6, 0, 5, 0]"
    by (simp_all add: uas_encoded_def header_size_def pack_le_def upt_rec numeral_2_eq_2)
  have v: "list_all uas_valid [(7, 5, [9]), (2, 5, [])]" by (simp add: uas_valid_def header_size_def)
  have "concat [[7, 0, 7], [0, 5, 0, 9, 2, 0], [6, 0, 5, 0, 3]] =
    concat (map uas_encoded [(7, 5, [9]), (2, 5, [])]) @ [3]" by (simp add: e)
  from uas_raw_any_chunks [OF v this] show ?thesis
    by (simp add: uas_drain_short header_size_def del: read_chunks.simps)
qed

text \<open>A vehicle state that is published has its position on the globe.\<close>

lemma session_positions:
  assumes "decode_vehicle_state now body i = Some track"
  shows "\<exists>lat lon. map_of track ''lat_deg'' = Some (UFloat (Finite (py_round lat 6))) \<and>
    map_of track ''lon_deg'' = Some (UFloat (Finite (py_round lon 6))) \<and>
    - 90 \<le> lat \<and> lat \<le> 90 \<and> - 180 \<le> lon \<and> lon \<le> 180"
proof -
  from assms have "in_band (- 90) 90 (f64_at body 0)" "in_band (- 180) 180 (f64_at body 8)"
    and t: "map_of track ''lat_deg'' = Some (uround 6 (f64_at body 0))" "map_of track ''lon_deg'' = Some (uround 6 (f64_at body 8))"
    by (auto simp: decode_vehicle_state_def Let_def split: if_splits)
  then obtain lat lon where "f64_at body 0 = Finite lat" "f64_at body 8 = Finite lon"
    "- 90 \<le> lat \<and> lat \<le> 90" "- 180 \<le> lon \<and> lon \<le> 180"
    by (auto simp: in_band_def split: float_value.splits)
  with t show ?thesis by (auto simp: uround_def)
qed

text \<open>
  The altitude is the one number of the state that no test guards: a vehicle that reports it as not a
  number makes the translator publish that.
\<close>

theorem uas_altitude_not_a_number:
  "\<exists>track. decode_vehicle_state 0 (replicate 22 0 @ [0xf8, 0x7f] @ replicate 32 0) 1 = Some track \<and>
     map_of track ''alt_m'' = Some (UFloat NotANumber)"
proof -
  let ?b = "replicate 22 0 @ [0xf8, 0x7f] @ replicate 32 0 :: bytes"
  have z: "from_bytes_little (replicate k 0) = 0" for k
    by (induction k) (simp_all add: from_bytes_little_Cons, simp add: from_bytes_little_def)
  have "py_slice ?b 0 8 = replicate 8 0" "py_slice ?b 8 16 = replicate 8 0"
    "py_slice ?b 16 24 = replicate 6 0 @ [0xf8, 0x7f]"
    by (simp_all add: py_slice_def)
  moreover have "replicate 6 0 @ [0xf8, 0x7f] = [0, 0, 0, 0, 0, 0, 0xf8, 0x7f :: byte]"
    by (simp add: numeral_eq_Suc)
  then have "from_bytes_little (replicate 6 0 @ [0xf8, 0x7f]) = 0x7ff8000000000000"
    by (simp add: from_bytes_little_Cons) (simp add: from_bytes_little_def)
  ultimately have "f64_at ?b 0 = Finite 0" "f64_at ?b 8 = Finite 0" "f64_at ?b 16 = NotANumber"
    by (simp_all add: f64_at_def ieee_def z Let_def)
  then show ?thesis
    by (simp add: decode_vehicle_state_def in_band_def uround_def Let_def)
qed

end
