(* ===== verification/Positions.thy ===== *)
theory Positions
  imports Py_Text
begin

text \<open>
  Decimal rounding keeps a bound that is an integer, and a track with a position on the globe.
\<close>

lemma round_half_even_le: "x \<le> of_int b \<Longrightarrow> round_half_even x \<le> b"
proof (rule ccontr)
  assume "x \<le> of_int b" "\<not> round_half_even x \<le> b"
  then have "real_of_int (b + 1) \<le> of_int (round_half_even x)" by (simp only: of_int_le_iff)
  with \<open>x \<le> of_int b\<close> round_half_even_near [of x] show False by simp
qed

lemma round_half_even_ge: "of_int a \<le> x \<Longrightarrow> a \<le> round_half_even x"
proof (rule ccontr)
  assume "of_int a \<le> x" "\<not> a \<le> round_half_even x"
  then have "real_of_int (round_half_even x + 1) \<le> of_int a" by (simp only: of_int_le_iff)
  with \<open>of_int a \<le> x\<close> round_half_even_near [of x] show False by simp
qed

lemma py_round_between:
  assumes "of_int a \<le> x" and "x \<le> of_int b"
  shows "of_int a \<le> py_round x n" and "py_round x n \<le> of_int b"
proof -
  have "of_int (a * 10 ^ n) \<le> x * 10 ^ n" "x * 10 ^ n \<le> of_int (b * 10 ^ n)"
    using assms by (simp_all add: mult_right_mono)
  from round_half_even_ge [OF this(1)] round_half_even_le [OF this(2)]
  have "real_of_int (a * 10 ^ n) \<le> of_int (round_half_even (x * 10 ^ n))"
    "real_of_int (round_half_even (x * 10 ^ n)) \<le> of_int (b * 10 ^ n)" by (simp_all only: of_int_le_iff)
  then show "of_int a \<le> py_round x n" "py_round x n \<le> of_int b"
    by (simp_all add: py_round_def field_simps)
qed

definition on_globe :: "dict \<Rightarrow> bool" where
  "on_globe d \<longleftrightarrow> (\<exists>lat lon. dget d ''lat_deg'' = Some (VFloat lat) \<and> dget d ''lon_deg'' = Some (VFloat lon) \<and>
     \<bar>lat\<bar> \<le> 90 \<and> \<bar>lon\<bar> \<le> 180)"

lemma on_globe_update [simp]:
  "k \<noteq> ''lat_deg'' \<Longrightarrow> k \<noteq> ''lon_deg'' \<Longrightarrow> on_globe (AList.update k v d) = on_globe d"
  by (simp add: on_globe_def dget_def update_conv')

lemma on_globe_rounded:
  assumes "dget d ''lat_deg'' = Some (VFloat (py_round lat m))" and "dget d ''lon_deg'' = Some (VFloat (py_round lon n))"
    and "\<bar>lat\<bar> \<le> 90" and "\<bar>lon\<bar> \<le> 180"
  shows "on_globe d"
  using assms py_round_between [of "- 90" lat 90 m] py_round_between [of "- 180" lon 180 n]
  by (auto simp: on_globe_def abs_le_iff)

end
