(* ===== verification/Stanag_Klv.thy ===== *)
theory Stanag_Klv
  imports Asterix_Publish Framed_Stream Positions
begin

text \<open>
  STANAG 4609 video metadata (\<open>_4609_*\<close> in \<open>stanag.py\<close>): BER lengths and object identifiers,
  the MISB local set, the fields of ST 0601, the reader of packets from a byte stream, and what the
  decoder publishes for a packet. The size limit, the clock and the configured source are arguments.
\<close>

subsection \<open>BER lengths\<close>

datatype klv_error = MissingLength | Indefinite | LengthTooWide | ShortLength | TruncatedTag | TagTooWide
  | TruncatedValue | ReservedValue | BadOctet

definition int_of_bytes :: "bytes \<Rightarrow> nat" where
  "int_of_bytes raw = nat (from_bytes_big raw)"

definition decode_ber :: "bytes \<Rightarrow> klv_error + nat \<times> nat" where
  "decode_ber data = (case data of
     [] \<Rightarrow> Inl MissingLength
   | first # octets \<Rightarrow>
       if first < 0x80 then Inr (unat first, 1)
       else let count = unat (first AND 0x7F) in
         if count = 0 then Inl Indefinite
         else if count > 8 then Inl LengthTooWide
         else if length data < 1 + count then Inl ShortLength
         else Inr (int_of_bytes (take count octets), 1 + count))"

text \<open>\<open>value.to_bytes((value.bit_length() + 7) // 8, "big")\<close>.\<close>

fun big_octets :: "nat \<Rightarrow> bytes" where
  "big_octets n = (if n = 0 then [] else big_octets (n div 256) @ [of_nat (n mod 256)])"

declare big_octets.simps [simp del]

text \<open>The length of a negative number is refused before; \<open>None\<close> is the octet above 255.\<close>

definition encode_ber :: "nat \<Rightarrow> bytes option" where
  "encode_ber n = (if n < 0x80 then Some [of_nat n]
     else let raw = big_octets n; head = 0x80 OR length raw
       in if head < 256 then Some (of_nat head # raw) else None)"

text \<open>The tag: at most ten octets, seven bits each, from \<open>pos\<close>.\<close>

fun ber_oid_loop :: "nat \<Rightarrow> bytes \<Rightarrow> nat \<Rightarrow> nat \<Rightarrow> klv_error + nat \<times> nat" where
  "ber_oid_loop 0 data pos acc = Inl TagTooWide"
| "ber_oid_loop (Suc n) data pos acc =
     (if pos \<ge> length data then Inl TruncatedTag
      else let byte = data ! pos; acc = push_bit 7 acc OR unat (byte AND 0x7F) in
        if byte AND 0x80 = 0 then Inr (acc, pos + 1) else ber_oid_loop n data (pos + 1) acc)"

definition decode_ber_oid :: "bytes \<Rightarrow> nat \<Rightarrow> klv_error + nat \<times> nat" where
  "decode_ber_oid data pos = ber_oid_loop 10 data pos 0"

subsection \<open>Local sets\<close>

type_synonym local_set = "(nat \<times> bytes) list"

lemma ber_oid_loop_pos: "ber_oid_loop n data pos acc = Inr (tag, pos') \<Longrightarrow> pos < pos' \<and> pos' \<le> length data"
  by (induction n data pos acc rule: ber_oid_loop.induct) (fastforce simp: Let_def split: if_splits)+

function local_set_loop :: "bytes \<Rightarrow> nat \<Rightarrow> local_set \<Rightarrow> klv_error + local_set" where
  "local_set_loop v pos tags =
     (if pos < length v then
        (case decode_ber_oid v pos of
           Inl e \<Rightarrow> Inl e
         | Inr (tag, pos1) \<Rightarrow> (case decode_ber (drop pos1 v) of
             Inl e \<Rightarrow> Inl e
           | Inr (tag_len, len_size) \<Rightarrow> (let pos2 = pos1 + len_size in
               if pos2 + tag_len > length v then Inl TruncatedValue
               else local_set_loop v (pos2 + tag_len)
                 (AList.update tag (py_slice v pos2 (pos2 + tag_len)) tags))))
      else Inr tags)"
  by pat_completeness auto
termination
  by (relation "measure (\<lambda>(v, pos, tags). length v - pos)")
    (auto simp: decode_ber_oid_def dest!: ber_oid_loop_pos)

declare local_set_loop.simps [simp del]

definition parse_local_set :: "bytes \<Rightarrow> klv_error + local_set" where
  "parse_local_set v = local_set_loop v 0 []"

subsection \<open>ST 0601\<close>

definition decode_unsigned :: "bytes \<Rightarrow> real \<Rightarrow> real \<Rightarrow> real" where
  "decode_unsigned raw lo hi =
     (let scale = 2 ^ (8 * length raw) - 1 :: int
      in if scale \<noteq> 0 then lo + (of_int (from_bytes_big raw) / of_int scale) * (hi - lo) else lo)"

definition decode_signed :: "bytes \<Rightarrow> real \<Rightarrow> real \<Rightarrow> klv_error + real" where
  "decode_signed raw lo hi =
     (let v = sign_extend (8 * length raw) (from_bytes_big raw);
          min_raw = - (2 ^ (8 * length raw - 1));
          max_raw = 2 ^ (8 * length raw - 1) - 1
      in if v = min_raw then Inl ReservedValue
         else Inr (lo + (of_int (v + max_raw) / of_int (2 * max_raw)) * (hi - lo)))"

text \<open>A tag that is there with this many octets.\<close>

definition tag_of :: "local_set \<Rightarrow> nat \<Rightarrow> nat \<Rightarrow> bytes option" where
  "tag_of tags tag n = (case map_of tags tag of
     None \<Rightarrow> None | Some raw \<Rightarrow> if length raw = n then Some raw else None)"

definition mapped_signed :: "local_set \<Rightarrow> nat \<Rightarrow> nat \<Rightarrow> real \<Rightarrow> real \<Rightarrow> real option" where
  "mapped_signed tags tag n lo hi = (case tag_of tags tag n of
     None \<Rightarrow> None
   | Some raw \<Rightarrow> (case decode_signed raw lo hi of Inl _ \<Rightarrow> None | Inr x \<Rightarrow> Some x))"

definition put_some :: "string \<Rightarrow> ('a \<Rightarrow> pyval) \<Rightarrow> 'a option \<Rightarrow> (string \<times> pyval) list" where
  "put_some k f v = (case v of None \<Rightarrow> [] | Some x \<Rightarrow> [(k, f x)])"

definition vround :: "nat \<Rightarrow> real \<Rightarrow> pyval" where
  "vround n x = VFloat (py_round x n)"

text \<open>\<open>datetime.fromtimestamp(us / 1000000, tz=utc).isoformat()\<close>, for years up to 9999.\<close>

definition iso_utc :: "nat \<Rightarrow> string option" where
  "iso_utc us =
     (let secs = us div 1000000; day = secs div 86400; t = secs mod 86400; frac = us mod 1000000
      in if day > 2932896 then None
         else Some (civil_day (int day) @ ''T'' @ fmt_pad 10 2 (int (t div 3600)) @ '':'' @
           fmt_pad 10 2 (int (t div 60 mod 60)) @ '':'' @ fmt_pad 10 2 (int (t mod 60)) @
           (if frac = 0 then [] else ''.'' @ fmt_pad 10 6 (int frac)) @ ''+00:00''))"

definition hex_str :: "bytes \<Rightarrow> string" where
  "hex_str raw = concat (map (\<lambda>b. fmt_pad 16 2 (uint b)) raw)"

definition st0601_tags :: "nat list" where
  "st0601_tags = [2, 5, 13, 14, 15, 18, 19, 23, 24, 25]"

definition decode_st0601 :: "local_set \<Rightarrow> dict" where
  "decode_st0601 tags =
     (let out = puts [] (
          put_some ''timestamp_us'' (\<lambda>raw. VInt (from_bytes_big raw)) (tag_of tags 2 8) @
          put_some ''timestamp_iso'' VStr (tag_of tags 2 8 \<bind> (\<lambda>raw. iso_utc (int_of_bytes raw))) @
          put_some ''platform_heading_deg'' (\<lambda>raw. vround 3 (decode_unsigned raw 0 360)) (tag_of tags 5 2) @
          put_some ''sensor_alt_m'' (\<lambda>raw. vround 2 (decode_unsigned raw (- 900) 19000)) (tag_of tags 15 2) @
          put_some ''sensor_lat_deg'' (vround 6) (mapped_signed tags 13 4 (- 90) 90) @
          put_some ''sensor_lon_deg'' (vround 6) (mapped_signed tags 14 4 (- 180) 180) @
          put_some ''sensor_relative_azimuth_deg'' (\<lambda>raw. vround 3 (decode_unsigned raw 0 360)) (tag_of tags 18 4) @
          put_some ''sensor_relative_elevation_deg'' (vround 3) (mapped_signed tags 19 4 (- 180) 180) @
          put_some ''frame_center_lat_deg'' (vround 6) (mapped_signed tags 23 4 (- 90) 90) @
          put_some ''frame_center_lon_deg'' (vround 6) (mapped_signed tags 24 4 (- 180) 180) @
          put_some ''frame_center_alt_m'' (\<lambda>raw. vround 2 (decode_unsigned raw (- 900) 19000)) (tag_of tags 25 2));
        raw_tags = map (\<lambda>(t, raw). (nat_str 10 t, VStr (hex_str raw))) (filter (\<lambda>(t, raw). t \<notin> set st0601_tags) tags)
      in puts out (onlyif (raw_tags \<noteq> []) [(''raw_tags_hex'', VDict raw_tags)]))"

subsection \<open>Packets\<close>

definition klv_prefix :: bytes where
  "klv_prefix = [0x06, 0x0E, 0x2B, 0x34]"

definition st0601_key :: bytes where
  "st0601_key = [0x06, 0x0e, 0x2b, 0x34, 0x02, 0x0b, 0x01, 0x01, 0x0e, 0x01, 0x03, 0x01, 0x01, 0x00, 0x00, 0x00]"

definition looks_like_klv_key :: "bytes \<Rightarrow> bool" where
  "looks_like_klv_key key \<longleftrightarrow> length key = 16 \<and> take 4 key = klv_prefix"

text \<open>\<open>data.find(pat, 1)\<close> and its search.\<close>

fun find_sub :: "'a list \<Rightarrow> 'a list \<Rightarrow> nat option" where
  "find_sub pat [] = (if pat = [] then Some 0 else None)"
| "find_sub pat (x # xs) =
     (if take (length pat) (x # xs) = pat then Some 0 else map_option Suc (find_sub pat xs))"

definition find_from_1 :: "'a list \<Rightarrow> 'a list \<Rightarrow> nat option" where
  "find_from_1 pat data = (case data of [] \<Rightarrow> None | x # xs \<Rightarrow> map_option Suc (find_sub pat xs))"

lemma find_from_1_pos: "find_from_1 pat data = Some i \<Longrightarrow> 0 < i"
  by (auto simp: find_from_1_def split: list.splits)

text \<open>The loop over the buffer of \<open>_4609_parse_klv_packets\<close>: what it yields, and what it keeps.\<close>

function klv_drain :: "nat \<Rightarrow> bytes \<Rightarrow> (bytes \<times> bytes) list \<times> bytes" where
  "klv_drain limit buf =
     (if length buf < 17 then ([], buf)
      else if \<not> looks_like_klv_key (take 16 buf) then
        (case find_from_1 klv_prefix buf of
           None \<Rightarrow> (let keep = min (length buf) (length klv_prefix - 1)
             in ([], if length buf > keep then drop (length buf - keep) buf else buf))
         | Some idx \<Rightarrow> klv_drain limit (drop idx buf))
      else let first = buf ! 16; octets = unat (first AND 0x7F) in
        if first AND 0x80 \<noteq> 0 \<and> (octets = 0 \<or> octets > 8) then klv_drain limit (drop 1 buf)
        else if first AND 0x80 \<noteq> 0 \<and> length buf < 17 + octets then ([], buf)
        else (case decode_ber (drop 16 buf) of
            Inl _ \<Rightarrow> ([], drop 1 buf)
          | Inr (value_len, len_size) \<Rightarrow>
              if value_len > limit then klv_drain limit (drop 1 buf)
              else let total = 16 + len_size + value_len in
                if length buf < total then ([], buf)
                else (case klv_drain limit (drop total buf) of (ps, rest) \<Rightarrow>
                  ((take 16 buf, py_slice buf (16 + len_size) total) # ps, rest))))"
  by pat_completeness auto
termination by (relation "measure (\<lambda>(limit, buf). length buf)") (auto dest: find_from_1_pos)

declare klv_drain.simps [simp del]

text \<open>The generator: the packets of a stream that is read in chunks until one is empty.\<close>

definition parse_klv_packets :: "nat \<Rightarrow> bytes list \<Rightarrow> (bytes \<times> bytes) list" where
  "parse_klv_packets limit chunks =
     fst (read_chunks (klv_drain limit) (takeWhile (\<lambda>c. c \<noteq> []) chunks) [])"

definition split_klv_packet :: "nat \<Rightarrow> bytes \<Rightarrow> klv_error + (bytes \<times> bytes) option" where
  "split_klv_packet limit packet =
     (if length packet < 17 then Inr None
      else if \<not> looks_like_klv_key (take 16 packet) then Inr None
      else (case decode_ber (drop 16 packet) of
          Inl e \<Rightarrow> Inl e
        | Inr (value_len, len_size) \<Rightarrow>
            if value_len > limit then Inr None
            else let total = 16 + len_size + value_len in
              if length packet \<noteq> total then Inr None
              else Inr (Some (take 16 packet, py_slice packet (16 + len_size) total))))"

subsection \<open>Publishing\<close>

definition b64_char :: "nat \<Rightarrow> char" where
  "b64_char n = ''ABCDEFGHIJKLMNOPQRSTUVWXYZabcdefghijklmnopqrstuvwxyz0123456789+/'' ! n"

fun b64encode :: "bytes \<Rightarrow> string" where
  "b64encode [] = []"
| "b64encode [a] = (let n = unat a * 16 in [b64_char (n div 64), b64_char (n mod 64), CHR ''='', CHR ''=''])"
| "b64encode [a, b] = (let n = (unat a * 256 + unat b) * 4 in
     [b64_char (n div 4096), b64_char (n div 64 mod 64), b64_char (n mod 64), CHR ''=''])"
| "b64encode (a # b # c # rest) = (let n = (unat a * 256 + unat b) * 256 + unat c in
     [b64_char (n div 262144), b64_char (n div 4096 mod 64), b64_char (n div 64 mod 64), b64_char (n mod 64)] @
     b64encode rest)"

text \<open>\<open>d.get(k)\<close>, then \<open>d.get(l)\<close> when it is \<open>None\<close>; the fields here are never \<open>None\<close> themselves.\<close>

definition get_or :: "dict \<Rightarrow> string \<Rightarrow> string \<Rightarrow> pyval option" where
  "get_or d k l = (case dget d k of None \<Rightarrow> dget d l | Some v \<Rightarrow> Some v)"

definition klv_topic :: "string \<Rightarrow> string" where
  "klv_topic topic_root = topic_root @ ''/air/stanag_4609/camera/unknown/uav''"

text \<open>What a decoded local set adds to the payload.\<close>

definition klv_fields :: "dict \<Rightarrow> (string \<times> pyval) list" where
  "klv_fields decoded =
     (case (get_or decoded ''sensor_lat_deg'' ''frame_center_lat_deg'',
            get_or decoded ''sensor_lon_deg'' ''frame_center_lon_deg'') of
        (Some lat, Some lon) \<Rightarrow> [(''lat_deg'', lat), (''lon_deg'', lon)] | _ \<Rightarrow> []) @
     put_some ''heading_deg'' id (dget decoded ''platform_heading_deg'') @
     put_some ''geo_alt_m'' id (get_or decoded ''sensor_alt_m'' ''frame_center_alt_m'')"

definition publish_packet ::
  "(pyval \<Rightarrow> string) \<Rightarrow> string \<Rightarrow> real \<Rightarrow> int \<Rightarrow> bytes \<Rightarrow> bytes \<Rightarrow> string \<Rightarrow> string \<Rightarrow> klv_error + event list" where
  "publish_packet rp topic_root now packet_index key v stream_id source =
     (case encode_ber (length v) of
        None \<Rightarrow> Inl BadOctet
      | Some ber \<Rightarrow>
          let raw_packet = key @ ber @ v;
              payload = [(''_ts'', VFloat now), (''_src'', VStr source), (''stream_id'', VStr stream_id),
                (''source_tag'', VStr source), (''packet_index'', VInt packet_index),
                (''klv_key'', VStr (hex_str key)), (''klv_len'', VInt (int (length v))),
                (''klv_raw_b64'', VStr (b64encode raw_packet))]
          in (case (if looks_like_klv_key key \<and> key = st0601_key
              then (case parse_local_set v of
                  Inl e \<Rightarrow> Inl e
                | Inr tags \<Rightarrow> (let decoded = decode_st0601 tags
                    in Inr (puts (puts payload decoded) (klv_fields decoded))))
              else Inr payload) of
            Inl e \<Rightarrow> Inl e
          | Inr payload \<Rightarrow>
              if \<not> has_key ''lat_deg'' payload \<or> \<not> has_key ''lon_deg'' payload then Inr []
              else let payload = AList.update ''uid'' (VStr stream_id) payload
                in Inr [PubDual (klv_topic topic_root) payload ''Stanag4609Track'',
                  PubNative (native_topic (semantic_topic rp (klv_topic topic_root) payload)) raw_packet
                    ''stanag_4609'' ''misb-st0601'']))"

text \<open>
  A sample of the raw topic: the publications, or the exception of the callback; the packet counter
  goes up when there was none.
\<close>

definition klv_source :: "string \<Rightarrow> string \<Rightarrow> string" where
  "klv_source configured key_expr =
     (let s = last (py_split CHR ''/'' (rev (dropWhile (\<lambda>c. c = CHR ''/'') (rev key_expr))))
      in if s = [] then configured else s)"

definition klv_sample ::
  "(pyval \<Rightarrow> string) \<Rightarrow> string \<Rightarrow> string \<Rightarrow> nat \<Rightarrow> real \<Rightarrow> string \<Rightarrow> bytes \<Rightarrow> int \<Rightarrow> (klv_error + event list) \<times> int" where
  "klv_sample rp topic_root configured limit now key_expr data i = (case split_klv_packet limit data of
     Inl e \<Rightarrow> (Inl e, i)
   | Inr None \<Rightarrow> (Inr [], i)
   | Inr (Some (key, v)) \<Rightarrow>
       (let source = klv_source configured key_expr
        in case publish_packet rp topic_root now i key v source source of
            Inl e \<Rightarrow> (Inl e, i) | Inr es \<Rightarrow> (Inr es, i + 1)))"

subsection \<open>Lengths and packets\<close>

lemma from_bytes_big_octets: "from_bytes_big (big_octets n) = int n"
proof (induction n rule: big_octets.induct)
  case (1 n)
  have "uint (of_nat (n mod 256) :: byte) = int (n mod 256)" by (simp add: uint_nat unat_of_nat)
  with 1 show ?case
    by (subst big_octets.simps) (auto simp: from_bytes_big_snoc zdiv_int zmod_int)
qed

lemma length_big_octets: "n < 256 ^ k \<Longrightarrow> length (big_octets n) \<le> k"
proof (induction n arbitrary: k rule: big_octets.induct)
  case (1 n)
  show ?case
  proof (cases "n = 0")
    case False
    with 1(2) obtain j where k: "k = Suc j" by (cases k) auto
    with 1(2) have "n div 256 < 256 ^ j" by (simp add: less_mult_imp_div_less mult.commute)
    with 1(1) [OF False] k False show ?thesis by (subst big_octets.simps) simp
  qed (simp add: big_octets.simps)
qed

lemma big_octets_ne: "0 < n \<Longrightarrow> big_octets n \<noteq> []"
  by (simp add: big_octets.simps [of n])

text \<open>How the first octet tells the length of an encoding.\<close>

lemma ber_head:
  assumes "0 < k" and "k \<le> 8"
  shows "(0x80 OR k :: nat) < 256" and "unat ((of_nat (0x80 OR k) :: byte) AND 0x7F) = k"
    and "(of_nat (0x80 OR k) :: byte) AND 0x80 \<noteq> 0" and "\<not> (of_nat (0x80 OR k) :: byte) < 0x80"
proof -
  from assms have "k \<in> {1, 2, 3, 4, 5, 6, 7, 8}" by auto
  then show "(0x80 OR k :: nat) < 256" and "unat ((of_nat (0x80 OR k) :: byte) AND 0x7F) = k"
    and "(of_nat (0x80 OR k) :: byte) AND 0x80 \<noteq> 0" and "\<not> (of_nat (0x80 OR k) :: byte) < 0x80"
    by auto
qed

lemma ber_short:
  assumes "n < 0x80"
  shows "(of_nat n :: byte) < 0x80" and "(of_nat n :: byte) AND 0x80 = 0" and "unat (of_nat n :: byte) = n"
proof -
  show u: "unat (of_nat n :: byte) = n" using assms by (simp add: unat_of_nat)
  then show "(of_nat n :: byte) < 0x80" using assms by (simp add: word_less_nat_alt)
  have "\<not> bit n 7" using assms by (simp add: bit_iff_odd)
  then have "n AND 2 ^ 7 = 0" using and_exp_eq_0_iff_not_bit [of n 7] by blast
  with u have "unat ((of_nat n :: byte) AND 0x80) = 0" by (simp add: unsigned_and_eq)
  then show "(of_nat n :: byte) AND 0x80 = 0" by (simp only: unat_eq_0)
qed

lemma encode_ber_shape:
  assumes "n < 2 ^ 64"
  obtains first octets where "encode_ber n = Some (first # octets)"
    and "\<And>rest. decode_ber (first # octets @ rest) = Inr (n, 1 + length octets)"
    and "first AND 0x80 = 0 \<longleftrightarrow> octets = []"
    and "octets \<noteq> [] \<Longrightarrow> unat (first AND 0x7F) = length octets \<and> length octets \<le> 8"
proof (cases "n < 0x80")
  case True
  with ber_short [OF True] show ?thesis
    by (intro that [of "of_nat n" "[]"]) (simp_all add: encode_ber_def decode_ber_def)
next
  case False
  let ?o = "big_octets n"
  have l: "0 < length ?o" "length ?o \<le> 8"
    using False big_octets_ne [of n] length_big_octets [of n 8] assms by simp_all
  note h = ber_head [OF l]
  have "int_of_bytes ?o = n" by (simp add: int_of_bytes_def from_bytes_big_octets)
  then have "decode_ber (of_nat (0x80 OR length ?o) # ?o @ rest) = Inr (n, 1 + length ?o)" for rest
    using l h by (simp add: decode_ber_def)
  with h l False show ?thesis
    by (intro that [of "of_nat (0x80 OR length ?o)" ?o]) (simp_all add: encode_ber_def Let_def)
qed

text \<open>
  A BER length comes back. Every length below \<open>2 ^ 64\<close> has an encoding, and decoding it at
  the front of any octets gives that length and the size of the encoding.
\<close>

theorem ber_roundtrip:
  assumes "n < 2 ^ 64"
  shows "\<exists>ber. encode_ber n = Some ber \<and> decode_ber (ber @ rest) = Inr (n, length ber)"
proof -
  obtain first octets where "encode_ber n = Some (first # octets)"
    "\<And>rest. decode_ber (first # octets @ rest) = Inr (n, 1 + length octets)"
    using encode_ber_shape [OF assms] by metis
  then show ?thesis by simp
qed

theorem ber_roundtrip_witness: "decode_ber ([0x82, 0x01, 0x00] @ [7]) = Inr (256, 3)"
proof -
  have "big_octets 256 = [1, 0]" by (simp add: big_octets.simps [of 256] big_octets.simps [of "Suc 0"] big_octets.simps [of 0])
  then have "encode_ber 256 = Some [0x82, 0x01, 0x00]" by (simp add: encode_ber_def numeral_2_eq_2 [symmetric])
  with ber_roundtrip [of 256 "[7]"] show ?thesis by simp
qed

definition klv_encoded :: "bytes \<times> bytes \<Rightarrow> bytes" where
  "klv_encoded m = (case m of (key, v) \<Rightarrow> key @ (case encode_ber (length v) of None \<Rightarrow> [] | Some ber \<Rightarrow> ber) @ v)"

definition klv_valid :: "nat \<Rightarrow> bytes \<times> bytes \<Rightarrow> bool" where
  "klv_valid limit m = (case m of (key, v) \<Rightarrow> looks_like_klv_key key \<and> length v \<le> limit \<and> length v < 2 ^ 64)"

text \<open>The parts of an encoded packet, whatever follows it.\<close>

lemma klv_encoded_parts:
  assumes "klv_valid limit (key, v)"
  obtains first octets where "klv_encoded (key, v) = key @ first # octets @ v" and "length key = 16"
    and "looks_like_klv_key key" and "length v \<le> limit"
    and "\<And>rest. decode_ber (first # octets @ rest) = Inr (length v, 1 + length octets)"
    and "first AND 0x80 = 0 \<longleftrightarrow> octets = []"
    and "octets \<noteq> [] \<Longrightarrow> unat (first AND 0x7F) = length octets \<and> length octets \<le> 8"
proof -
  have "length v < 2 ^ 64" using assms by (simp add: klv_valid_def)
  from encode_ber_shape [OF this] obtain first octets where
    "encode_ber (length v) = Some (first # octets)"
    "\<And>rest. decode_ber (first # octets @ rest) = Inr (length v, 1 + length octets)"
    "first AND 0x80 = 0 \<longleftrightarrow> octets = []"
    "octets \<noteq> [] \<Longrightarrow> unat (first AND 0x7F) = length octets \<and> length octets \<le> 8" by metis
  then show ?thesis
    using assms by (intro that [of first octets]) (simp_all add: klv_encoded_def klv_valid_def looks_like_klv_key_def)
qed

text \<open>A buffer that begins with a key and an encoded length.\<close>

lemma klv_drain_head:
  assumes "looks_like_klv_key key" and "n \<le> limit"
    and dec: "\<And>rest. decode_ber (first # octets @ rest) = Inr (n, 1 + length octets)"
    and h: "first AND 0x80 = 0 \<longleftrightarrow> octets = []"
    and o: "octets \<noteq> [] \<Longrightarrow> unat (first AND 0x7F) = length octets \<and> length octets \<le> 8"
  shows "klv_drain limit (key @ first # octets @ rest) =
    (if length rest < n then ([], key @ first # octets @ rest)
     else ((key, take n rest) # fst (klv_drain limit (drop n rest)), snd (klv_drain limit (drop n rest))))"
proof -
  let ?b = "key @ first # octets @ rest"
  have k: "length key = 16" using assms(1) by (simp add: looks_like_klv_key_def)
  have parts: "\<not> length ?b < 17" "take 16 ?b = key" "drop 16 ?b = first # octets @ rest" "?b ! 16 = first"
    "length ?b = 17 + length octets + length rest" using k by (simp_all add: nth_append)
  have sl: "py_slice ?b (16 + (1 + length octets)) (16 + (1 + length octets) + n) = take n rest"
    "drop (16 + (1 + length octets) + n) ?b = drop n rest" using k by (simp_all add: py_slice_def)
  have l: "\<not> (first AND 0x80 \<noteq> 0 \<and> (unat (first AND 0x7F) = 0 \<or> unat (first AND 0x7F) > 8))"
    "\<not> (first AND 0x80 \<noteq> 0 \<and> length ?b < 17 + unat (first AND 0x7F))"
    using h o parts(5) by (cases "octets = []"; simp)+
  show ?thesis
    by (subst klv_drain.simps)
      (simp only: parts(1-4) if_False not_False_eq_True Let_def l dec [of rest] sum.case prod.case sl assms(1) if_not_P [OF l(1)] if_not_P [OF l(2)],
       simp add: leD [OF assms(2)] linorder_not_less parts(5) k case_prod_beta)
qed

lemma prefix_cut: "p @ v = q @ s \<Longrightarrow> length p \<le> length q \<Longrightarrow> \<exists>r. q = p @ r \<and> v = r @ s"
  by (auto simp: append_eq_append_conv2)

lemma klv_drain_short: "length buf < 17 \<Longrightarrow> klv_drain limit buf = ([], buf)"
  by (simp add: klv_drain.simps [of limit buf])

interpretation klv: framed_stream "klv_drain limit" klv_encoded "klv_valid limit" for limit
proof unfold_locales
  fix m :: "bytes \<times> bytes" and rest :: bytes
  assume v: "klv_valid limit m"
  obtain key val where m: "m = (key, val)" by force
  show "klv_drain limit (klv_encoded m @ rest) = (m # fst (klv_drain limit rest), snd (klv_drain limit rest))"
  proof (rule klv_encoded_parts [OF v [unfolded m]])
    fix first octets
    assume e: "klv_encoded (key, val) = key @ first # octets @ val" "length key = 16" "looks_like_klv_key key"
      "length val \<le> limit" "\<And>rest. decode_ber (first # octets @ rest) = Inr (length val, 1 + length octets)"
      "first AND 0x80 = 0 \<longleftrightarrow> octets = []"
      "octets \<noteq> [] \<Longrightarrow> unat (first AND 0x7F) = length octets \<and> length octets \<le> 8"
    from klv_drain_head [OF e(3,4,5,6,7), of "val @ rest"] show ?thesis by (simp add: m e(1))
  qed
next
  fix m :: "bytes \<times> bytes" and q s :: bytes
  assume v: "klv_valid limit m" and q: "klv_encoded m = q @ s" "s \<noteq> []"
  obtain key val where m: "m = (key, val)" by force
  show "klv_drain limit q = ([], q)"
  proof (cases "length q < 17")
    case False
    show ?thesis
    proof (rule klv_encoded_parts [OF v [unfolded m]])
      fix first octets
      assume e: "klv_encoded (key, val) = key @ first # octets @ val" "length key = 16" "looks_like_klv_key key"
        "length val \<le> limit" "\<And>rest. decode_ber (first # octets @ rest) = Inr (length val, 1 + length octets)"
        "first AND 0x80 = 0 \<longleftrightarrow> octets = []"
        "octets \<noteq> [] \<Longrightarrow> unat (first AND 0x7F) = length octets \<and> length octets \<le> 8"
      have b: "key @ first # octets @ val = q @ s" using q(1) by (simp add: m e(1))
      show ?thesis
      proof (cases "17 + length octets \<le> length q")
        case True
        with b e(2) prefix_cut [of "key @ first # octets" val q s] obtain r where
          r: "q = key @ first # octets @ r" "val = r @ s" by auto
        with q(2) have "length r < length val" by simp
        with klv_drain_head [OF e(3,4,5,6,7), of r] show ?thesis by (simp add: r(1))
      next
        case short: False
        have t: "take 16 q = key" "q ! 16 = first"
          using prefix_cut [of "key @ [first]" "octets @ val" q s] b False e(2) by (auto simp: nth_append)
        from short False have "octets \<noteq> []" by auto
        with e(6,7) t e(3) False short show ?thesis
          by (subst klv_drain.simps) (simp add: Let_def)
      qed
    qed
  qed (rule klv_drain_short)
next
  fix m :: "bytes \<times> bytes"
  assume "klv_valid limit m"
  then show "klv_encoded m \<noteq> []" by (auto simp: klv_encoded_def klv_valid_def looks_like_klv_key_def)
qed

text \<open>
  KLV packets survive any transport. When a byte stream holds well-formed packets and the
  beginning of one more, and is read in chunks cut anywhere until the end of the stream, the
  generator yields exactly the complete packets, in order, each with its key and its value.
\<close>

theorem klv_stream_any_chunks:
  assumes "list_all (klv_valid limit) ms" and "klv_valid limit m" and "klv_encoded m = q @ s" and "s \<noteq> []"
    and "[] \<notin> set cs" and "concat cs = concat (map klv_encoded ms) @ q"
  shows "parse_klv_packets limit (cs @ [] # more) = ms"
proof -
  have w: "takeWhile (\<lambda>c. c \<noteq> []) (cs @ [] # more) = cs"
    using assms(5) by (subst takeWhile_append2) auto
  have "klv.partial limit q" using assms(2-4) unfolding klv.partial_def by blast
  from klv.read_chunks_messages [OF assms(1) this assms(2), of "[]" cs] assms(6)
  show ?thesis by (simp add: parse_klv_packets_def w klv.partial_def)
qed

definition demo_packet :: "bytes \<times> bytes" where
  "demo_packet = (st0601_key, [0x05, 0x01, 0x09])"

lemma demo_packet_encoded:
  "klv_encoded demo_packet = st0601_key @ [3, 5, 1, 9]" "klv_valid 100 demo_packet"
  by (simp_all add: klv_encoded_def klv_valid_def demo_packet_def encode_ber_def looks_like_klv_key_def
      st0601_key_def klv_prefix_def)

theorem klv_stream_any_chunks_witness:
  "parse_klv_packets 100 [take 9 st0601_key, drop 9 st0601_key @ [3, 5], [1, 9, 6], []] = [demo_packet]"
proof -
  have "klv_encoded demo_packet = [6] @ drop 1 (klv_encoded demo_packet)" "drop 1 (klv_encoded demo_packet) \<noteq> []"
    by (simp_all add: demo_packet_encoded st0601_key_def)
  from klv_stream_any_chunks [of 100 "[demo_packet]" demo_packet, OF _ _ this,
      of "[take 9 st0601_key, drop 9 st0601_key @ [3, 5], [1, 9, 6]]" "[]"]
  show ?thesis by (simp add: demo_packet_encoded) (simp add: st0601_key_def)
qed

text \<open>A packet that travels whole in one sample is split the same way.\<close>

lemma split_encoded:
  assumes "klv_valid limit m"
  shows "split_klv_packet limit (klv_encoded m) = Inr (Some m)"
proof -
  obtain key v where m: "m = (key, v)" by force
  show ?thesis
  proof (rule klv_encoded_parts [OF assms [unfolded m]])
    fix first octets
    assume e: "klv_encoded (key, v) = key @ first # octets @ v" "length key = 16" "looks_like_klv_key key"
      "length v \<le> limit" "\<And>rest. decode_ber (first # octets @ rest) = Inr (length v, 1 + length octets)"
    from e(2) have "py_slice (key @ first # octets @ v) (17 + length octets) (17 + length octets + length v) = v"
      by (simp add: py_slice_def)
    with e show ?thesis by (simp add: split_klv_packet_def m Let_def)
  qed
qed

text \<open>What is published for a packet.\<close>

lemma split_klv_valid:
  assumes "split_klv_packet limit data = Inr (Some (key, v))"
  shows "looks_like_klv_key key" and "length v \<le> limit" and "key = take 16 data"
    and "\<exists>k. decode_ber (drop 16 data) = Inr (length v, k) \<and> v = drop (16 + k) data"
  using assms by (auto simp: split_klv_packet_def Let_def py_slice_def split: if_splits sum.splits)

lemma mapped_signed_range:
  assumes "mapped_signed tags t 4 (- of_int b) (of_int b) = Some x" and "0 < b"
  shows "- of_int b \<le> x \<and> x \<le> of_int b"
proof -
  obtain raw where raw: "length raw = 4" "decode_signed raw (- of_int b) (of_int b) = Inr x"
    using assms(1) by (auto simp: mapped_signed_def tag_of_def split: option.splits sum.splits if_splits)
  define v where "v = sign_extend 32 (from_bytes_big raw)"
  have "from_bytes_big raw < 2 ^ 32" "0 \<le> from_bytes_big raw"
    using from_bytes_big_bounds [of raw] raw(1) by simp_all
  with sign_extend_bounds [of 32 "from_bytes_big raw"] have "- (2 ^ 31) \<le> v" "v < 2 ^ 31" by (simp_all add: v_def)
  moreover from raw have "v \<noteq> - (2 ^ 31)" and x: "x = - of_int b + (of_int (v + 2147483647) / 4294967294) * (of_int b + of_int b)"
    by (auto simp: decode_signed_def Let_def v_def split: if_splits)
  ultimately have "0 \<le> real_of_int (v + 2147483647) / 4294967294" "real_of_int (v + 2147483647) / 4294967294 \<le> 1"
    by simp_all
  then have "0 \<le> (real_of_int (v + 2147483647) / 4294967294) * (2 * of_int b)"
    "(real_of_int (v + 2147483647) / 4294967294) * (2 * of_int b) \<le> 1 * (2 * of_int b)"
    using assms(2) by (auto intro!: mult_nonneg_nonneg mult_right_mono)
  with x show ?thesis by simp
qed

lemma rev_put_some [simp]: "rev (put_some k f v) = put_some k f v"
  by (simp add: put_some_def split: option.split)

lemma map_of_put_some [simp]:
  "map_of (put_some k f v @ xs) l = (if l = k then case v of Some x \<Rightarrow> Some (f x) | None \<Rightarrow> map_of xs l else map_of xs l)"
  by (auto simp: put_some_def split: option.split)

lemma map_of_put_some_only [simp]:
  "map_of (put_some k f v) l = (if l = k then map_option f v else None)"
  by (auto simp: put_some_def split: option.split)

lemma decoded_positions:
  "dget (decode_st0601 tags) ''sensor_lat_deg'' = map_option (vround 6) (mapped_signed tags 13 4 (- 90) 90)"
  "dget (decode_st0601 tags) ''sensor_lon_deg'' = map_option (vround 6) (mapped_signed tags 14 4 (- 180) 180)"
  "dget (decode_st0601 tags) ''frame_center_lat_deg'' = map_option (vround 6) (mapped_signed tags 23 4 (- 90) 90)"
  "dget (decode_st0601 tags) ''frame_center_lon_deg'' = map_option (vround 6) (mapped_signed tags 24 4 (- 180) 180)"
  "dget (decode_st0601 tags) ''lat_deg'' = None" "dget (decode_st0601 tags) ''lon_deg'' = None"
  by (simp_all add: decode_st0601_def Let_def dget_def map_of_puts onlyif_def map_add_def split: option.split)

lemma vround_mapped:
  assumes "map_option (vround 6) (mapped_signed tags t 4 (- of_int b) (of_int b)) = Some v" and "0 < b"
  shows "\<exists>x. v = VFloat x \<and> \<bar>x\<bar> \<le> of_int b"
proof -
  obtain x where x: "mapped_signed tags t 4 (- of_int b) (of_int b) = Some x" "v = VFloat (py_round x 6)"
    using assms(1) by (auto simp: vround_def)
  from mapped_signed_range [OF x(1) assms(2)] py_round_between [of "- b" x b 6] show ?thesis
    by (simp add: x(2) abs_le_iff)
qed

lemma klv_fields_globe:
  assumes "get_or (decode_st0601 tags) ''sensor_lat_deg'' ''frame_center_lat_deg'' = Some lat"
    and "get_or (decode_st0601 tags) ''sensor_lon_deg'' ''frame_center_lon_deg'' = Some lon"
  shows "\<exists>x y. lat = VFloat x \<and> lon = VFloat y \<and> \<bar>x\<bar> \<le> 90 \<and> \<bar>y\<bar> \<le> 180"
proof -
  have "\<exists>x. lat = VFloat x \<and> \<bar>x\<bar> \<le> of_int 90"
    using assms(1) vround_mapped [of tags 13 90 lat] vround_mapped [of tags 23 90 lat]
    by (auto simp: get_or_def decoded_positions split: option.splits)
  moreover have "\<exists>y. lon = VFloat y \<and> \<bar>y\<bar> \<le> of_int 180"
    using assms(2) vround_mapped [of tags 14 180 lon] vround_mapped [of tags 24 180 lon]
    by (auto simp: get_or_def decoded_positions split: option.splits)
  ultimately show ?thesis by auto
qed

lemma dget_puts_same: "map_of (rev kvs) k = None \<Longrightarrow> dget (puts d kvs) k = dget d k"
  by (simp add: dget_def map_of_puts map_add_def)

text \<open>
  A KLV track is on the globe and carries its packet. Whatever packet a sample holds, the
  decoder either publishes nothing, or the track and, at the raw key of the same object, the key and
  value of that packet under the shortest encoding of its length; the track's latitude and longitude are
  there and in range, and its identity is the ingress source.
\<close>

theorem klv_track_on_globe:
  assumes "klv_sample rp topic_root configured limit now key_expr data i = (Inr es, j)" and "limit < 2 ^ 64"
  shows "es = [] \<or> (\<exists>payload key v. split_klv_packet limit data = Inr (Some (key, v)) \<and> on_globe payload \<and>
    dget payload ''uid'' = Some (VStr (klv_source configured key_expr)) \<and> j = i + 1 \<and>
    es = [PubDual (klv_topic topic_root) payload ''Stanag4609Track'',
      PubNative (native_topic (semantic_topic rp (klv_topic topic_root) payload)) (klv_encoded (key, v))
        ''stanag_4609'' ''misb-st0601''])"
proof (cases "es = []")
  case False
  define src where "src = klv_source configured key_expr"
  obtain key v where s: "split_klv_packet limit data = Inr (Some (key, v))"
    and p: "publish_packet rp topic_root now i key v src src = Inr es" and j: "j = i + 1"
    using assms(1) False by (auto simp: klv_sample_def Let_def src_def split: sum.splits option.splits prod.splits)
  obtain ber where ber: "encode_ber (length v) = Some ber"
    using encode_ber_shape [of "length v"] split_klv_valid(2) [OF s] assms(2) by (metis le_less_trans)
  define base where "base = [(''_ts'', VFloat now), (''_src'', VStr src), (''stream_id'', VStr src),
    (''source_tag'', VStr src), (''packet_index'', VInt i), (''klv_key'', VStr (hex_str key)),
    (''klv_len'', VInt (int (length v))), (''klv_raw_b64'', VStr (b64encode (key @ ber @ v)))]"
  have nb: "map_of base ''lat_deg'' = None" "map_of base ''lon_deg'' = None" by (simp_all add: base_def)
  have "key = st0601_key"
    using p False ber nb by (auto simp: publish_packet_def base_def [symmetric] has_key_def Let_def split: if_splits)
  then obtain tags where tags: "parse_local_set v = Inr tags"
    using p ber split_klv_valid(1) [OF s] by (auto simp: publish_packet_def Let_def split: sum.splits)
  define d where "d = decode_st0601 tags"
  define pl where "pl = puts (puts base d) (klv_fields d)"
  from p ber tags \<open>key = st0601_key\<close> split_klv_valid(1) [OF s] False
  have pos: "has_key ''lat_deg'' pl" "has_key ''lon_deg'' pl"
    and es: "es = [PubDual (klv_topic topic_root) (AList.update ''uid'' (VStr src) pl) ''Stanag4609Track'',
      PubNative (native_topic (semantic_topic rp (klv_topic topic_root) (AList.update ''uid'' (VStr src) pl)))
        (key @ ber @ v) ''stanag_4609'' ''misb-st0601'']"
    by (auto simp: publish_packet_def Let_def base_def d_def pl_def split: if_splits)
  have nd: "map_of (rev d) ''lat_deg'' = None" "map_of (rev d) ''lon_deg'' = None"
    using decoded_positions(5,6) [of tags] by (simp_all add: d_def dget_def map_of_eq_None_iff)
  have g: "on_globe pl"
  proof (cases "get_or d ''sensor_lat_deg'' ''frame_center_lat_deg'' = None \<or>
      get_or d ''sensor_lon_deg'' ''frame_center_lon_deg'' = None")
    case True
    then have "map_of (rev (klv_fields d)) ''lat_deg'' = None"
      by (auto simp: klv_fields_def split: option.splits)
    with pos nb nd have False by (simp add: pl_def has_key_def map_of_puts map_add_def)
    then show ?thesis ..
  next
    case False
    then obtain lat lon where ll: "get_or d ''sensor_lat_deg'' ''frame_center_lat_deg'' = Some lat"
      "get_or d ''sensor_lon_deg'' ''frame_center_lon_deg'' = Some lon" by auto
    then have "dget pl ''lat_deg'' = Some lat" "dget pl ''lon_deg'' = Some lon"
      by (simp_all add: pl_def klv_fields_def dget_def map_of_puts map_add_def update_conv')
    with klv_fields_globe ll show ?thesis unfolding on_globe_def d_def by blast
  qed
  then have "on_globe (AList.update ''uid'' (VStr src) pl)"
    by (simp add: on_globe_def dget_def update_conv')
  moreover have "dget (AList.update ''uid'' (VStr src) pl) ''uid'' = Some (VStr src)" by (simp add: dget_def update_conv')
  moreover have "klv_encoded (key, v) = key @ ber @ v" by (simp add: klv_encoded_def ber)
  ultimately show ?thesis using s j es unfolding src_def by auto
qed simp

definition demo_position_set :: bytes where
  "demo_position_set = [13, 4, 0x20, 0, 0, 0, 14, 4, 0, 0, 0, 1]"

lemma decode_ber_oid_one:
  "pos < length data \<Longrightarrow> data ! pos AND 0x80 = 0 \<Longrightarrow> decode_ber_oid data pos = Inr (unat (data ! pos AND 0x7F), pos + 1)"
proof -
  assume "pos < length data" "data ! pos AND 0x80 = 0"
  then have "ber_oid_loop (Suc 9) data pos 0 = Inr (unat (data ! pos AND 0x7F), pos + 1)"
    by (subst ber_oid_loop.simps(2)) simp
  moreover have "Suc 9 = 10" by simp
  ultimately show ?thesis by (simp only: decode_ber_oid_def)
qed

lemma demo_position_tags: "parse_local_set demo_position_set = Inr [(13, [0x20, 0, 0, 0]), (14, [0, 0, 0, 1])]"
proof -
  let ?v = demo_position_set
  have "local_set_loop ?v 12 t = Inr t" for t
    by (subst local_set_loop.simps) (simp add: demo_position_set_def)
  then have "local_set_loop ?v 6 [(13, [0x20, 0, 0, 0])] = Inr [(13, [0x20, 0, 0, 0]), (14, [0, 0, 0, 1])]"
    by (subst local_set_loop.simps)
      (simp add: demo_position_set_def decode_ber_oid_one decode_ber_def py_slice_def Let_def)
  then have "local_set_loop ?v 0 [] = Inr [(13, [0x20, 0, 0, 0]), (14, [0, 0, 0, 1])]"
    by (subst local_set_loop.simps)
      (simp add: demo_position_set_def decode_ber_oid_one decode_ber_def py_slice_def Let_def)
  then show ?thesis by (simp add: parse_local_set_def)
qed

lemma demo_position_sample:
  "\<exists>es. klv_sample rp topic_root configured 100 now ''EFDI/raw/stanag_4609/uav1'' (st0601_key @ 12 # demo_position_set) i = (Inr es, i + 1) \<and> es \<noteq> []"
proof -
  have s: "split_klv_packet 100 (st0601_key @ 12 # demo_position_set) = Inr (Some (st0601_key, demo_position_set))"
    by (simp add: split_klv_packet_def st0601_key_def demo_position_set_def looks_like_klv_key_def klv_prefix_def
        decode_ber_def py_slice_def Let_def)
  have "encode_ber (length demo_position_set) = Some [12]" by (simp add: encode_ber_def demo_position_set_def)
  moreover have "looks_like_klv_key st0601_key" by (simp add: looks_like_klv_key_def st0601_key_def klv_prefix_def)
  moreover have "mapped_signed [(13, [0x20, 0, 0, 0]), (14, [0, 0, 0, 1])] 13 4 (- 90) 90 \<noteq> None"
    "mapped_signed [(13, [0x20, 0, 0, 0]), (14, [0, 0, 0, 1])] 14 4 (- 180) 180 \<noteq> None"
    by (simp_all add: mapped_signed_def tag_of_def decode_signed_def sign_extend_def from_bytes_big_def Let_def)
  then have "\<exists>x y. get_or (decode_st0601 [(13, [0x20, 0, 0, 0]), (14, [0, 0, 0, 1])]) ''sensor_lat_deg'' ''frame_center_lat_deg'' = Some x \<and>
    get_or (decode_st0601 [(13, [0x20, 0, 0, 0]), (14, [0, 0, 0, 1])]) ''sensor_lon_deg'' ''frame_center_lon_deg'' = Some y"
    by (auto simp: get_or_def decoded_positions)
  ultimately show ?thesis
    by (auto simp: klv_sample_def s publish_packet_def demo_position_tags klv_fields_def has_key_def map_of_puts
        map_add_def Let_def update_conv')
qed

theorem klv_track_on_globe_witness:
  "\<exists>payload. on_globe payload \<and> dget payload ''uid'' = Some (VStr ''uav1'')"
proof -
  obtain es where "klv_sample (\<lambda>_. []) ''EFDI'' ''stanag_4609'' 100 0 ''EFDI/raw/stanag_4609/uav1''
      (st0601_key @ 12 # demo_position_set) 0 = (Inr es, 1)" "es \<noteq> []"
    using demo_position_sample [of "\<lambda>_. []" "''EFDI''" "''stanag_4609''" 0 0] by auto
  from klv_track_on_globe [OF this(1)] this(2) have "\<exists>payload. on_globe payload \<and>
    dget payload ''uid'' = Some (VStr (klv_source ''stanag_4609'' ''EFDI/raw/stanag_4609/uav1''))" by auto
  moreover have "klv_source ''stanag_4609'' ''EFDI/raw/stanag_4609/uav1'' = ''uav1''"
    by (simp add: klv_source_def)
  ultimately show ?thesis by simp
qed

text \<open>
  The raw view is not always the bytes that came: a packet whose length was written in more octets
  than it needs is published with the shortest length.
\<close>

theorem klv_raw_is_reencoded:
  "\<exists>data m. split_klv_packet 100 data = Inr (Some m) \<and> klv_encoded m \<noteq> data"
proof (intro exI conjI)
  show "split_klv_packet 100 (st0601_key @ [0x81, 3, 5, 1, 9]) = Inr (Some demo_packet)"
    by (simp add: split_klv_packet_def st0601_key_def demo_packet_def looks_like_klv_key_def klv_prefix_def
        decode_ber_def py_slice_def int_of_bytes_def from_bytes_big_def Let_def)
  show "klv_encoded demo_packet \<noteq> st0601_key @ [0x81, 3, 5, 1, 9]"
    by (simp add: demo_packet_encoded)
qed

end
