(* ===== verification/Stanag_Link16.thy ===== *)
theory Stanag_Link16
  imports Asterix_Publish Positions
begin

text \<open>
  STANAG 5516, Link 16 over JREAP-C (\<open>_5516_*\<close> in \<open>stanag.py\<close>): the header of a packet, the
  words of 75 bits, the two readers of bit fields, the five messages, and what a packet publishes.
\<close>

subsection \<open>Words and bit fields\<close>

text \<open>\<open>_5516_BitReader\<close>: the value of a word without its five padding bits.\<close>

definition word_bits :: nat where "word_bits = 75"

definition word_value :: "bytes \<Rightarrow> int" where
  "word_value data = drop_bit 5 (from_bytes_big (take 10 data))"

definition word_u :: "int \<Rightarrow> nat \<Rightarrow> nat \<Rightarrow> int" where
  "word_u v offset width =
     (let shift = int word_bits - int offset - int width
      in if shift < 0 then 0 else bitfield v (nat shift) (2 ^ width - 1))"

text \<open>The signed reading of \<open>s\<close>, and the angle of \<open>bam\<close>.\<close>

definition twos :: "nat \<Rightarrow> int \<Rightarrow> int" where
  "twos width v = (if v \<ge> 2 ^ (width - 1) then v - 2 ^ width else v)"

definition word_s :: "int \<Rightarrow> nat \<Rightarrow> nat \<Rightarrow> int" where
  "word_s v offset width = twos width (word_u v offset width)"

definition word_bam :: "int \<Rightarrow> nat \<Rightarrow> nat \<Rightarrow> real" where
  "word_bam v offset width = of_int (word_s v offset width) * (360 / 2 ^ width)"

text \<open>\<open>_5516_MultiWordReader\<close>: the value of the words, each again in ten octets, and its width.\<close>

record multi_word =
  mw_val :: int
  mw_bits :: int

definition multi_word_of :: "bytes list \<Rightarrow> multi_word" where
  "multi_word_of ws = \<lparr> mw_val = foldl (\<lambda>acc w. acc * 2 ^ 80 + word_value w) 0 ws, mw_bits = int (length ws) * 80 \<rparr>"

definition effective_offset :: "nat \<Rightarrow> nat" where
  "effective_offset pos = pos div 75 * 80 + pos mod 75 + 5"

definition multi_u :: "multi_word \<Rightarrow> nat \<Rightarrow> nat \<Rightarrow> int" where
  "multi_u r pos width =
     (let shift = mw_bits r - int (effective_offset pos) - int width
      in if shift < 0 \<or> width \<le> 0 then 0 else bitfield (mw_val r) (nat shift) (2 ^ width - 1))"

definition multi_s :: "multi_word \<Rightarrow> nat \<Rightarrow> nat \<Rightarrow> int" where
  "multi_s r pos width = twos width (multi_u r pos width)"

definition multi_bam :: "multi_word \<Rightarrow> nat \<Rightarrow> nat \<Rightarrow> real" where
  "multi_bam r pos width = of_int (multi_s r pos width) * (360 / 2 ^ width)"

subsection \<open>Packets\<close>

datatype jreap_error = TooShort | BadVersion int

definition parse_jreap_header :: "bytes \<Rightarrow> jreap_error + int \<times> int \<times> bytes" where
  "parse_jreap_header data =
     (if length data < 4 then Inl TooShort
      else let version = uint (data ! 0) in
        if version \<noteq> 1 then Inl (BadVersion version)
        else Inr (uint (data ! 1), from_bytes_big (py_slice data 2 4), drop 4 data))"

function extract_words_loop :: "bytes \<Rightarrow> nat \<Rightarrow> bytes list \<Rightarrow> bytes list" where
  "extract_words_loop payload off acc =
     (if off + 10 \<le> length payload
      then extract_words_loop payload (off + 10) (acc @ [py_slice payload off (off + 10)]) else acc)"
  by pat_completeness auto
termination by (relation "measure (\<lambda>(payload, off, acc). length payload - off)") auto

declare extract_words_loop.simps [simp del]

definition extract_words :: "bytes \<Rightarrow> bytes list" where
  "extract_words payload = extract_words_loop payload 0 []"

definition word_label :: "int \<Rightarrow> int \<times> int" where
  "word_label v = (word_u v 2 6, word_u v 8 4)"

definition message_labels :: "((int \<times> int) \<times> string) list" where
  "message_labels = [((2, 2), ''J2.2''), ((2, 5), ''J2.5''), ((3, 2), ''J3.2''), ((3, 5), ''J3.5''), ((3, 7), ''J3.7'')]"

definition id_affiliations :: "(int \<times> string) list" where
  "id_affiliations = [(0, ''friendly''), (1, ''neutral''), (2, ''hostile''), (3, ''unknown''),
     (4, ''hostile''), (5, ''friendly'')]"

subsection \<open>Messages\<close>

definition knots :: "int \<Rightarrow> real" where
  "knots v = of_int v * (514444 / 1000000)"

definition air_track ::
  "real \<Rightarrow> string \<Rightarrow> int \<Rightarrow> string \<Rightarrow> real \<Rightarrow> real \<Rightarrow> int \<Rightarrow> real \<Rightarrow> real \<Rightarrow> dict" where
  "air_track now src track_num aff lat lon alt_ft spd hdg =
     [(''_ts'', VFloat now), (''_src'', VStr src), (''track_num'', VInt track_num), (''affiliation'', VStr aff),
      (''lat_deg'', VFloat (py_round lat 6)), (''lon_deg'', VFloat (py_round lon 6)), (''alt_baro_ft'', VInt alt_ft),
      (''speed_ms'', VFloat (py_round spd 1)), (''heading_deg'', VFloat (py_round hdg 1))]"

definition decode_j32 :: "real \<Rightarrow> bytes list \<Rightarrow> dict option" where
  "decode_j32 now ws =
     (if length ws < 3 then None
      else let r = multi_word_of ws;
        aff = table_get id_affiliations (multi_u r 17 3) ''unknown'';
        track_num = push_bit 10 (multi_u r 22 2) OR multi_u r 24 10;
        lat_deg = of_int (multi_s r 35 25) * (180 / 2 ^ 24);
        lon_raw_u = push_bit 11 (multi_u r 60 15) OR multi_u r 75 11;
        lon_raw_s = (if lon_raw_u \<ge> 2 ^ 25 then lon_raw_u - 2 ^ 26 else lon_raw_u);
        lon_deg = of_int lon_raw_s * (360 / 2 ^ 26);
        alt_ft = multi_u r 86 11 * 100 - 100000;
        spd_ms = knots (multi_u r 97 12);
        hdg_deg = of_int (multi_u r 109 11) * (360 / 2048)
      in if \<bar>lat_deg\<bar> > 90 \<or> \<bar>lon_deg\<bar> > 180 then None
         else Some (air_track now ''Link 16 J3.2'' track_num aff lat_deg lon_deg alt_ft spd_ms hdg_deg))"

definition decode_j22 :: "real \<Rightarrow> bytes list \<Rightarrow> dict option" where
  "decode_j22 now ws =
     (if length ws < 3 then None
      else let r = multi_word_of ws;
        stn = multi_u r 12 12;
        lat_deg = of_int (multi_s r 24 25) * (180 / 2 ^ 24);
        lon_raw_u = multi_u r 49 26;
        lon_raw_s = (if lon_raw_u \<ge> 2 ^ 25 then lon_raw_u - 2 ^ 25 else lon_raw_u);
        lon_deg = of_int lon_raw_s * (360 / 2 ^ 26);
        alt_ft = multi_u r 86 10 * 100 - 100000;
        spd_ms = knots (multi_u r 96 12);
        hdg_deg = of_int (multi_u r 108 11) * (360 / 2048)
      in if \<bar>lat_deg\<bar> > 90 \<or> \<bar>lon_deg\<bar> > 180 then None
         else Some (air_track now ''Link 16 J2.2'' stn ''friendly'' lat_deg lon_deg alt_ft spd_ms hdg_deg))"

text \<open>The surface and land messages: the same layout, another source and a domain.\<close>

definition with_domain :: "string \<Rightarrow> string \<Rightarrow> dict \<Rightarrow> dict" where
  "with_domain src domain track = puts track [(''_src'', VStr src), (''domain'', VStr domain)]"

definition decode_j35 :: "real \<Rightarrow> bytes list \<Rightarrow> dict option" where
  "decode_j35 now ws = map_option (with_domain ''Link 16 J3.5'' ''sea'') (decode_j32 now ws)"

definition decode_j25 :: "real \<Rightarrow> bytes list \<Rightarrow> dict option" where
  "decode_j25 now ws = map_option (with_domain ''Link 16 J2.5'' ''sea'') (decode_j22 now ws)"

definition decode_j37 :: "real \<Rightarrow> bytes list \<Rightarrow> dict option" where
  "decode_j37 now ws = map_option (with_domain ''Link 16 J3.7'' ''land'') (decode_j32 now ws)"

definition msg_word_count :: "(string \<times> nat) list" where
  "msg_word_count = [(''J2.2'', 3), (''J2.5'', 3), (''J3.2'', 3), (''J3.5'', 3), (''J3.7'', 3)]"

definition msg_decoder :: "(string \<times> (real \<Rightarrow> bytes list \<Rightarrow> dict option)) list" where
  "msg_decoder = [(''J2.2'', decode_j22), (''J2.5'', decode_j25), (''J3.2'', decode_j32), (''J3.5'', decode_j35),
     (''J3.7'', decode_j37)]"

definition msg_domain :: "(string \<times> string) list" where
  "msg_domain = [(''J2.2'', ''air''), (''J2.5'', ''sea''), (''J3.2'', ''air''), (''J3.5'', ''sea''), (''J3.7'', ''land'')]"

subsection \<open>Topics and packets\<close>

text \<open>The rest of a topic after the root.\<close>

definition topic_map :: "((string \<times> string) \<times> string) list" where
  "topic_map =
    [((''air'', ''friendly''), ''/air/stanag_5516/c2/friendly/aircraft''),
     ((''air'', ''hostile''), ''/air/stanag_5516/c2/hostile/aircraft''),
     ((''air'', ''neutral''), ''/air/stanag_5516/c2/neutral/aircraft''),
     ((''air'', ''unknown''), ''/air/stanag_5516/c2/unknown''),
     ((''sea'', ''friendly''), ''/sea/stanag_5516/c2/friendly/vessel''),
     ((''sea'', ''hostile''), ''/sea/stanag_5516/c2/hostile/vessel''),
     ((''sea'', ''neutral''), ''/sea/stanag_5516/c2/neutral/vessel''),
     ((''sea'', ''unknown''), ''/sea/stanag_5516/c2/unknown/vessel''),
     ((''land'', ''friendly''), ''/land/stanag_5516/c2/friendly/unit''),
     ((''land'', ''hostile''), ''/land/stanag_5516/c2/hostile/unit''),
     ((''land'', ''neutral''), ''/land/stanag_5516/c2/neutral/unit''),
     ((''land'', ''unknown''), ''/land/stanag_5516/c2/unknown/unit'')]"

definition text_field :: "dict \<Rightarrow> string \<Rightarrow> string option" where
  "text_field d k = (case dget d k of Some (VStr s) \<Rightarrow> Some s | _ \<Rightarrow> None)"

definition topic_for :: "string \<Rightarrow> dict \<Rightarrow> string \<Rightarrow> string" where
  "topic_for topic_root track msg_type =
     (let domain = (case text_field track ''domain'' of
            Some d \<Rightarrow> if d \<noteq> [] then d else (case map_of msg_domain msg_type of None \<Rightarrow> ''land'' | Some x \<Rightarrow> x)
          | None \<Rightarrow> (case map_of msg_domain msg_type of None \<Rightarrow> ''land'' | Some x \<Rightarrow> x));
          aff = (case text_field track ''affiliation'' of Some a \<Rightarrow> a | None \<Rightarrow> ''unknown'')
      in topic_root @ (case map_of topic_map (domain, aff) of
            Some t \<Rightarrow> t | None \<Rightarrow> ''/land/stanag_5516/c2/unknown/unit''))"

lemma word_count_pos: "map_of msg_word_count m = Some n \<Longrightarrow> n = 3"
  by (auto simp: msg_word_count_def split: if_splits)

text \<open>The loop over the words from index \<open>i\<close>; the events it publishes.\<close>

function process_words :: "string \<Rightarrow> real \<Rightarrow> bytes list \<Rightarrow> nat \<Rightarrow> event list" where
  "process_words topic_root now ws i =
     (if i < length ws then
        (case map_of message_labels (word_label (word_value (ws ! i))) of
           None \<Rightarrow> process_words topic_root now ws (i + 1)
         | Some msg_type \<Rightarrow>
             let needed = (case map_of msg_word_count msg_type of None \<Rightarrow> 1 | Some n \<Rightarrow> n) in
             if i + needed > length ws then []
             else (case map_of msg_decoder msg_type of
                 None \<Rightarrow> []
               | Some decoder \<Rightarrow> (case decoder now (py_slice ws i (i + needed)) of
                   None \<Rightarrow> []
                 | Some track \<Rightarrow> [PubDual (topic_for topic_root track msg_type) track ''Stanag5516Track''])) @
               process_words topic_root now ws (i + needed))
      else [])"
  by pat_completeness auto
termination by (relation "measure (\<lambda>(topic_root, now, ws, i). length ws - i)")
  (auto split: option.splits dest: word_count_pos)

declare process_words.simps [simp del]

definition process_packet :: "string \<Rightarrow> real \<Rightarrow> bytes \<Rightarrow> event list" where
  "process_packet topic_root now data = (case parse_jreap_header data of
     Inl _ \<Rightarrow> []
   | Inr (pdu_type, seq, payload) \<Rightarrow>
       if pdu_type \<noteq> 1 then [] else process_words topic_root now (extract_words payload) 0)"

subsection \<open>The two readers\<close>

lemma bitfield_take_bit: "bitfield v n (2 ^ w - 1) = take_bit w (drop_bit n v)"
  by (simp add: bitfield_def take_bit_eq_mask mask_eq_exp_minus_1)

lemma word_field_range: "0 \<le> bitfield v n (2 ^ w - 1) \<and> bitfield v n (2 ^ w - 1) < 2 ^ w"
  by (simp add: bitfield_take_bit)

lemma bitfield_low: "n + w \<le> m \<Longrightarrow> bitfield (a * 2 ^ m + v) n (2 ^ w - 1) = bitfield v n (2 ^ w - 1)"
proof -
  assume m: "n + w \<le> m"
  have "take_bit m (a * 2 ^ m + v) = take_bit m v" by (simp add: take_bit_eq_mod)
  then have "take_bit (n + w) (a * 2 ^ m + v) = take_bit (n + w) v"
    by (metis m min.absorb1 take_bit_take_bit)
  then show ?thesis
    by (metis add_diff_cancel_left' bitfield_take_bit drop_bit_take_bit)
qed

lemma word_value_range: "0 \<le> word_value w \<and> word_value w < 2 ^ 75"
proof -
  have "from_bytes_big (take 10 w) < 256 ^ length (take 10 w)" "0 \<le> from_bytes_big (take 10 w)"
    using from_bytes_big_bounds by blast+
  moreover have "(256 :: int) ^ length (take 10 w) \<le> 256 ^ 10" by (intro power_increasing) auto
  ultimately have "0 \<le> from_bytes_big (take 10 w)" "from_bytes_big (take 10 w) < 2 ^ 75 * 32" by simp_all
  then show ?thesis by (simp add: word_value_def drop_bit_eq_div) linarith
qed

lemma multi_u_shift:
  "mw_bits r - int (effective_offset pos) - int width = int m \<Longrightarrow> 0 < width \<Longrightarrow>
     multi_u r pos width = bitfield (mw_val r) m (2 ^ width - 1)"
  by (simp only: multi_u_def Let_def nat_int) simp

lemma multi_word_snoc:
  "mw_val (multi_word_of (ws @ [w])) = mw_val (multi_word_of ws) * 2 ^ 80 + word_value w"
  by (simp add: multi_word_of_def)

lemma multi_word_drop:
  "drop_bit (80 * length vs) (mw_val (multi_word_of (us @ vs))) = mw_val (multi_word_of us)"
proof (induction vs rule: rev_induct)
  case (snoc v vs)
  have "drop_bit 80 (mw_val (multi_word_of (us @ vs @ [v]))) = mw_val (multi_word_of (us @ vs))"
    using word_value_range [of v] multi_word_snoc [of "us @ vs" v]
    by (simp add: drop_bit_eq_div div_add1_eq)
  then have "drop_bit (80 * length vs) (drop_bit 80 (mw_val (multi_word_of (us @ vs @ [v])))) = mw_val (multi_word_of us)"
    using snoc by simp
  then show ?case by (simp add: drop_bit_drop_bit add.commute)
qed simp

lemma multi_u_word:
  assumes "k < length ws" and "pos + width \<le> 75" and "0 < width"
  shows "multi_u (multi_word_of ws) (75 * k + pos) width = word_u (word_value (ws ! k)) pos width"
proof -
  let ?us = "take k ws" and ?w = "ws ! k" and ?vs = "drop (Suc k) ws"
  have ws: "ws = (?us @ [?w]) @ ?vs" using id_take_nth_drop [OF assms(1)] by simp
  have off: "effective_offset (75 * k + pos) = 80 * k + pos + 5"
    using assms(2,3) by (simp add: effective_offset_def)
  define n where "n = 75 - pos - width"
  have len: "length ?vs = length ws - Suc k" by simp
  have "mw_bits (multi_word_of ws) - int (effective_offset (75 * k + pos)) - int width = int (80 * length ?vs + n)"
    using assms by (simp add: multi_word_of_def off n_def len of_nat_diff)
  then have "multi_u (multi_word_of ws) (75 * k + pos) width =
      bitfield (mw_val (multi_word_of ws)) (80 * length ?vs + n) (2 ^ width - 1)"
    by (rule multi_u_shift) (rule assms(3))
  also have "\<dots> = bitfield (drop_bit (80 * length ?vs) (mw_val (multi_word_of ws))) n (2 ^ width - 1)"
    by (simp add: bitfield_def drop_bit_drop_bit add.commute)
  also have "drop_bit (80 * length ?vs) (mw_val (multi_word_of ws)) = mw_val (multi_word_of (?us @ [?w]))"
    using multi_word_drop [of ?vs "?us @ [?w]"] by (simp only: ws [symmetric])
  also have "\<dots> = mw_val (multi_word_of ?us) * 2 ^ 80 + word_value ?w" by (rule multi_word_snoc)
  also have "bitfield \<dots> n (2 ^ width - 1) = bitfield (word_value ?w) n (2 ^ width - 1)"
    using assms(2) by (intro bitfield_low) (simp add: n_def)
  also have "\<dots> = word_u (word_value ?w) pos width"
    using assms(2) by (simp add: word_u_def word_bits_def n_def Let_def nat_diff_distrib)
  finally show ?thesis .
qed

text \<open>
  The two readers agree. A field that lies within one word reads the same from the
  concatenation of the words, at its offset among the words' 75 bits each, as from that word alone:
  the padding the words are stored with is skipped exactly.
\<close>

theorem link16_readers_agree:
  assumes "k < length ws" and "pos + width \<le> 75" and "0 < width"
  shows "multi_u (multi_word_of ws) (75 * k + pos) width = word_u (word_value (ws ! k)) pos width"
  using assms by (rule multi_u_word)

theorem link16_readers_agree_witness:
  "multi_u (multi_word_of [replicate 10 0, [0, 0, 0, 0xF0, 0, 0, 0, 0, 0, 0]]) (75 * 1 + 24) 4 = 15"
  by (subst link16_readers_agree) (simp_all add: word_u_def word_bits_def word_value_def from_bytes_big_def bitfield_def drop_bit_eq_div)

subsection \<open>What a packet publishes\<close>

lemma multi_u_range: "0 \<le> multi_u r pos width" "multi_u r pos width < 2 ^ width"
  using word_field_range by (auto simp: multi_u_def Let_def)

lemma affiliations: "table_get id_affiliations v ''unknown'' \<in> set [''friendly'', ''neutral'', ''hostile'', ''unknown'']"
  by (simp add: table_get_def id_affiliations_def)

lemma decode_j32_track:
  assumes "decode_j32 now ws = Some t"
  shows "on_globe t" and "\<exists>a \<in> set [''friendly'', ''neutral'', ''hostile'', ''unknown'']. text_field t ''affiliation'' = Some a"
    and "text_field t ''domain'' = None"
proof -
  obtain src num aff lat lon alt spd hdg where t: "t = air_track now src num aff lat lon alt spd hdg"
    and b: "\<not> \<bar>lat\<bar> > 90" "\<not> \<bar>lon\<bar> > 180" and aff: "aff = table_get id_affiliations (multi_u (multi_word_of ws) 17 3) ''unknown''"
    using assms by (auto simp: decode_j32_def Let_def split: if_splits)
  show "on_globe t"
    by (rule on_globe_rounded [of t lat 6 lon 6]) (use b in \<open>simp_all add: t air_track_def dget_def\<close>)
  show "\<exists>a \<in> set [''friendly'', ''neutral'', ''hostile'', ''unknown'']. text_field t ''affiliation'' = Some a"
    using affiliations [of "multi_u (multi_word_of ws) 17 3"] aff
    by (simp add: t air_track_def text_field_def dget_def)
  show "text_field t ''domain'' = None" by (simp add: t air_track_def text_field_def dget_def)
qed

lemma decode_j22_track:
  assumes "decode_j22 now ws = Some t"
  shows "on_globe t" and "text_field t ''affiliation'' = Some ''friendly''" and "text_field t ''domain'' = None"
proof -
  obtain src num lat lon alt spd hdg where t: "t = air_track now src num ''friendly'' lat lon alt spd hdg"
    and b: "\<not> \<bar>lat\<bar> > 90" "\<not> \<bar>lon\<bar> > 180"
    using assms by (auto simp: decode_j22_def Let_def split: if_splits)
  show "on_globe t"
    by (rule on_globe_rounded [of t lat 6 lon 6]) (use b in \<open>simp_all add: t air_track_def dget_def\<close>)
  show "text_field t ''affiliation'' = Some ''friendly''" "text_field t ''domain'' = None"
    by (simp_all add: t air_track_def text_field_def dget_def)
qed

lemma with_domain_fields:
  "on_globe (with_domain src d t) = on_globe t" "text_field (with_domain src d t) ''affiliation'' = text_field t ''affiliation''"
  "text_field (with_domain src d t) ''domain'' = Some d"
  by (simp_all add: with_domain_def text_field_def dget_def update_conv')

text \<open>Every message decodes to a track that is on the globe and that the topic map knows.\<close>

lemma msg_decoder_track:
  assumes "map_of msg_decoder m = Some dec" and "dec now ws = Some t"
  shows "on_globe t \<and> (\<exists>domain \<in> set [''air'', ''sea'', ''land'']. \<exists>a \<in> set [''friendly'', ''neutral'', ''hostile'', ''unknown''].
    text_field t ''affiliation'' = Some a \<and> map_of msg_domain m = Some domain \<and>
    (text_field t ''domain'' = None \<or> text_field t ''domain'' = Some domain))"
proof -
  from assms(1) consider "m = ''J2.2''" "dec = decode_j22" | "m = ''J2.5''" "dec = decode_j25" | "m = ''J3.2''" "dec = decode_j32"
    | "m = ''J3.5''" "dec = decode_j35" | "m = ''J3.7''" "dec = decode_j37" by (auto simp: msg_decoder_def split: if_splits)
  then show ?thesis
    using assms(2)
    by cases (auto simp: msg_domain_def decode_j25_def decode_j35_def decode_j37_def with_domain_fields
        dest: decode_j32_track decode_j22_track)
qed

lemma topic_map_total:
  "domain \<in> set [''air'', ''sea'', ''land''] \<Longrightarrow> a \<in> set [''friendly'', ''neutral'', ''hostile'', ''unknown''] \<Longrightarrow>
     \<exists>t. map_of topic_map (domain, a) = Some t"
  by (auto simp: topic_map_def)

definition link16_event :: "string \<Rightarrow> event \<Rightarrow> bool" where
  "link16_event topic_root e \<longleftrightarrow> (\<exists>t track domain aff. e = PubDual (topic_root @ t) track ''Stanag5516Track'' \<and>
     on_globe track \<and> text_field track ''affiliation'' = Some aff \<and> map_of topic_map (domain, aff) = Some t)"

lemma topic_for_event:
  assumes "map_of msg_decoder m = Some dec" and "dec now ws = Some t"
  shows "link16_event topic_root (PubDual (topic_for topic_root t m) t ''Stanag5516Track'')"
proof -
  from msg_decoder_track [OF assms] obtain domain a where d: "on_globe t" "text_field t ''affiliation'' = Some a"
    "map_of msg_domain m = Some domain" "text_field t ''domain'' = None \<or> text_field t ''domain'' = Some domain"
    "domain \<in> set [''air'', ''sea'', ''land'']" "a \<in> set [''friendly'', ''neutral'', ''hostile'', ''unknown'']" by blast
  from topic_map_total [OF d(5,6)] obtain u where u: "map_of topic_map (domain, a) = Some u" ..
  have "topic_for topic_root t m = topic_root @ u"
    using d(2-5) u by (auto simp: topic_for_def Let_def)
  with d(1,2) u show ?thesis unfolding link16_event_def by blast
qed

lemma process_words_events:
  "list_all (link16_event topic_root) (process_words topic_root now ws i) \<and>
     3 * length (process_words topic_root now ws i) \<le> length ws - i"
proof (induction topic_root now ws i rule: process_words.induct)
  case (1 topic_root now ws i)
  let ?l = "map_of message_labels (word_label (word_value (ws ! i)))"
  show ?case
  proof (cases "i < length ws")
    case True
    show ?thesis
    proof (cases ?l)
      case None
      then have "process_words topic_root now ws i = process_words topic_root now ws (i + 1)"
        using True by (subst process_words.simps) simp
      with 1(1) [OF True None] show ?thesis by auto
    next
      case (Some m)
      then have c: "map_of msg_word_count m = Some 3"
        by (auto simp: message_labels_def msg_word_count_def split: if_splits)
      show ?thesis
      proof (cases "i + 3 > length ws")
        case True
        with Some c \<open>i < length ws\<close> show ?thesis by (subst (1 2) process_words.simps) simp
      next
        case False
        let ?e = "case map_of msg_decoder m of None \<Rightarrow> []
          | Some decoder \<Rightarrow> (case decoder now (py_slice ws i (i + 3)) of None \<Rightarrow> []
            | Some track \<Rightarrow> [PubDual (topic_for topic_root track m) track ''Stanag5516Track''])"
        have ih: "list_all (link16_event topic_root) (process_words topic_root now ws (i + 3))"
          "3 * length (process_words topic_root now ws (i + 3)) \<le> length ws - (i + 3)"
          using 1(2) [OF True Some refl] c False by simp_all
        have "list_all (link16_event topic_root) ?e" "length ?e \<le> 1"
          using topic_for_event by (auto split: option.splits)
        moreover have "process_words topic_root now ws i = ?e @ process_words topic_root now ws (i + 3)"
          using True Some c False by (subst process_words.simps) simp
        ultimately show ?thesis using ih False by simp
      qed
    qed
  qed (simp add: process_words.simps)
qed

lemma length_extract_words:
  "off \<le> length payload \<Longrightarrow> 10 * length (extract_words_loop payload off acc) \<le> 10 * length acc + (length payload - off)"
proof (induction payload off acc rule: extract_words_loop.induct)
  case (1 payload off acc)
  then show ?case by (subst extract_words_loop.simps) auto
qed

text \<open>
  Link 16 packets publish only placed, classified tracks. For any octets at all, every
  publication of a packet is a track of the Link 16 message class, with a latitude and a longitude in
  range, under the topic that the map gives for its own affiliation, never the fallback; and there is at
  most one for each three words of the packet.
\<close>

theorem link16_publishes_placed_tracks:
  "list_all (link16_event topic_root) (process_packet topic_root now data) \<and>
     30 * length (process_packet topic_root now data) \<le> length data - 4"
proof -
  have "10 * length (extract_words p) \<le> length p" for p
    using length_extract_words [of 0 p "[]"] by (simp add: extract_words_def)
  moreover have "30 * length (process_words topic_root now (extract_words p) 0) \<le> 10 * length (extract_words p)" for p
    using process_words_events [of topic_root now "extract_words p" 0] by simp
  ultimately have "30 * length (process_words topic_root now (extract_words p) 0) \<le> length p" for p
    by (meson le_trans)
  from this [of "drop 4 data"] show ?thesis
    using process_words_events
    by (auto simp: process_packet_def parse_jreap_header_def Let_def split: sum.splits if_splits)
qed

subsection \<open>Where the decoder departs from the layout\<close>

text \<open>
  C35: A Link 16 participant is never west of Greenwich. The 26 bits of a precise participant
  location's longitude are a signed angle, but the decoder takes 2 to the 25 instead of 2 to the 26 off a
  negative one: every decoded longitude is at least 0 and below 180, and one that is sent as negative comes out
  half a turn off. Its altitude never exceeds 2300 ft.
\<close>

theorem ppli_longitude_never_west:
  assumes "decode_j22 now ws = Some t"
  shows "\<exists>lon alt. dget t ''lon_deg'' = Some (VFloat (py_round lon 6)) \<and> 0 \<le> lon \<and> lon < 180 \<and>
    dget t ''alt_baro_ft'' = Some (VInt alt) \<and> alt \<le> 2300 \<and>
    (twos 26 (multi_u (multi_word_of ws) 49 26) < 0 \<longrightarrow>
       lon = of_int (twos 26 (multi_u (multi_word_of ws) 49 26)) * (360 / 2 ^ 26) + 180)"
proof -
  let ?u = "multi_u (multi_word_of ws) 49 26"
  let ?r = "if ?u \<ge> 2 ^ 25 then ?u - 2 ^ 25 else ?u"
  let ?alt = "multi_u (multi_word_of ws) 86 10 * 100 - 100000"
  have u: "0 \<le> ?u" "?u < 2 ^ 26" by (rule multi_u_range)+
  have "0 \<le> ?r" "?r < 2 ^ 25" using u by auto
  then have "0 \<le> of_int ?r * (360 / 2 ^ 26 :: real)" "real_of_int ?r < 2 ^ 25" by (simp_all only: of_int_less_numeral_power_cancel_iff) auto
  moreover have "of_int ?r * (360 / 2 ^ 26 :: real) < 180" if "real_of_int ?r < 2 ^ 25" using that by simp
  moreover have "?alt \<le> 2300" using multi_u_range(2) [of "multi_word_of ws" 86 10] by simp
  moreover have "of_int ?r * (360 / 2 ^ 26 :: real) = of_int (twos 26 ?u) * (360 / 2 ^ 26) + 180" if "twos 26 ?u < 0"
    using that u by (auto simp: twos_def algebra_simps split: if_splits)
  moreover have "dget t ''lon_deg'' = Some (VFloat (py_round (of_int ?r * (360 / 2 ^ 26)) 6))" "dget t ''alt_baro_ft'' = Some (VInt ?alt)"
    using assms by (auto simp: decode_j22_def air_track_def dget_def Let_def split: if_splits)
  ultimately show ?thesis by blast
qed

text \<open>A participant at 90 degrees west: the 26 bits are \<open>11\<close> and zeros, and the decoder says 90 east.\<close>

definition demo_west :: "bytes list" where
  "demo_west = [[0x02, 0x20, 0, 0, 0, 0, 0x60, 0, 0, 0], replicate 10 0, replicate 10 0]"

lemma demo_west_fields:
  "multi_u (multi_word_of demo_west) 49 26 = 3 * 2 ^ 24" "multi_u (multi_word_of demo_west) 24 25 = 0"
  using multi_u_word [of 0 demo_west 49 26] multi_u_word [of 0 demo_west 24 25]
  by (simp_all add: demo_west_def word_u_def word_bits_def word_value_def from_bytes_big_def bitfield_def
      drop_bit_eq_div)

theorem ppli_longitude_never_west_witness:
  "\<exists>t lon. decode_j22 0 demo_west = Some t \<and> dget t ''lon_deg'' = Some (VFloat (py_round lon 6)) \<and> lon = 90"
proof -
  have s: "twos 26 (multi_u (multi_word_of demo_west) 49 26) = - (2 ^ 24)" "multi_s (multi_word_of demo_west) 24 25 = 0"
    by (simp_all add: demo_west_fields multi_s_def twos_def)
  have "\<not> length demo_west < 3" by (simp add: demo_west_def)
  then obtain t where t: "decode_j22 0 demo_west = Some t" by (simp add: decode_j22_def s demo_west_fields Let_def)
  from ppli_longitude_never_west [OF t] s(1) obtain lon where
    "dget t ''lon_deg'' = Some (VFloat (py_round lon 6))" "lon = of_int (- (2 ^ 24)) * (360 / 2 ^ 26) + 180" by auto
  with t show ?thesis by (intro exI [of _ t] exI [of _ lon]) simp
qed

text \<open>
  The two bits of a word that tell a continuation from an initial word are never read: a
  continuation word whose next bits look like a label starts a message of its own.
\<close>

definition demo_words :: "bytes list" where
  "demo_words = [[0x83, 0x20, 0, 0, 0, 0, 0, 0, 0, 0], [0, 0, 0, 0, 0, 0, 0, 0, 0, 0], [0, 0, 0, 0, 0, 0, 0, 0, 0, 0]]"

lemma demo_words_fields:
  "word_u (word_value (hd demo_words)) 0 2 = 2" "word_label (word_value (hd demo_words)) = (3, 2)"
  "multi_u (multi_word_of demo_words) 35 25 = 0" "multi_u (multi_word_of demo_words) 60 15 = 0"
  "multi_u (multi_word_of demo_words) 75 11 = 0"
  using multi_u_word [of 0 demo_words 35 25] multi_u_word [of 0 demo_words 60 15] multi_u_word [of 1 demo_words 0 11]
  by (simp_all add: demo_words_def word_label_def word_u_def word_bits_def word_value_def from_bytes_big_def
      bitfield_def drop_bit_eq_div)

lemma demo_words_track: "\<exists>t. decode_j32 now demo_words = Some t"
proof -
  have "\<not> length demo_words < 3" by (simp add: demo_words_def)
  then show ?thesis by (simp add: decode_j32_def multi_s_def twos_def demo_words_fields Let_def)
qed

theorem continuation_word_starts_message:
  "word_u (word_value (hd demo_words)) 0 2 = 2 \<and> process_words topic_root now demo_words 0 \<noteq> []"
proof
  have "demo_words ! 0 = hd demo_words" "length demo_words = 3" "py_slice demo_words 0 3 = demo_words"
    by (simp_all add: demo_words_def py_slice_def)
  then show "process_words topic_root now demo_words 0 \<noteq> []"
    using demo_words_track [of now]
    by (subst process_words.simps)
      (auto simp: demo_words_fields message_labels_def msg_word_count_def msg_decoder_def)
qed (rule demo_words_fields)

end
