(* ===== verification/Stanag_Gmti.thy ===== *)
theory Stanag_Gmti
  imports Asterix_Publish Positions
begin

text \<open>
  STANAG 4607, ground moving target indicator radar (\<open>_4607_*\<close> in \<open>stanag.py\<close>): the packet
  header, the mission, job definition, platform location and dwell segments, the target reports that
  an existence mask selects the fields of, and the tracks a packet publishes. \<open>None\<close> is any of the
  exceptions that the subscriber catches.
\<close>

subsection \<open>Reads and units\<close>

definition u16_at :: "bytes \<Rightarrow> nat \<Rightarrow> int option" where
  "u16_at data pos = unpack_H (py_slice data pos (pos + 2))"

definition s16_at :: "bytes \<Rightarrow> nat \<Rightarrow> int option" where
  "s16_at data pos = unpack_h (py_slice data pos (pos + 2))"

definition u32_at :: "bytes \<Rightarrow> nat \<Rightarrow> int option" where
  "u32_at data pos = (let raw = py_slice data pos (pos + 4) in
     if length raw = 4 then Some (from_bytes_big raw) else None)"

definition s32_at :: "bytes \<Rightarrow> nat \<Rightarrow> int option" where
  "s32_at data pos = map_option (sign_extend 32) (u32_at data pos)"

definition s8_at :: "bytes \<Rightarrow> nat \<Rightarrow> int option" where
  "s8_at data pos = map_option unpack_b (byte_at data pos)"

text \<open>Signed and binary angles, and the decimal units.\<close>

definition sa32 :: "int \<Rightarrow> real" where "sa32 raw = of_int raw / 2 ^ 30 * 45"
definition ba32 :: "int \<Rightarrow> real" where
  "ba32 raw = (let deg = of_int raw / 2 ^ 30 * 90 in if deg > 180 then deg - 360 else deg)"
definition sa16 :: "int \<Rightarrow> real" where "sa16 raw = of_int raw / 2 ^ 14 * 90"
definition ba16 :: "int \<Rightarrow> real" where "ba16 raw = of_int raw / 2 ^ 14 * 90"
definition centimeters :: "int \<Rightarrow> real" where "centimeters raw = of_int raw / 100"
definition decimeters :: "int \<Rightarrow> real" where "decimeters raw = of_int raw / 10"
definition kilometers :: "int \<Rightarrow> real" where "kilometers raw = of_int raw / 128"
definition speed_mmps :: "int \<Rightarrow> real" where "speed_mmps raw = of_int raw / 1000"
definition speed_centi :: "int \<Rightarrow> real" where "speed_centi raw = of_int raw / 100"
definition speed_deci :: "int \<Rightarrow> real" where "speed_deci raw = of_int raw / 10"
definition millisec :: "int \<Rightarrow> real" where "millisec raw = of_int raw / 1000"

text \<open>\<open>round(f(raw), n)\<close> as a value.\<close>

definition rounded :: "nat \<Rightarrow> (int \<Rightarrow> real) \<Rightarrow> int \<Rightarrow> pyval" where
  "rounded n f raw = VFloat (py_round (f raw) n)"

definition name_or_code :: "(int \<times> string) list \<Rightarrow> int \<Rightarrow> pyval" where
  "name_or_code t v = (case map_of t v of None \<Rightarrow> VInt v | Some s \<Rightarrow> VStr s)"

definition nul_text :: "bytes \<Rightarrow> string" where
  "nul_text raw = py_strip (strip_by (\<lambda>c. c = CHR 0x00) (ascii_replace raw))"

subsection \<open>Fields in order\<close>

text \<open>
  A field: whether it is there, how many octets it takes, and what it stores. \<open>run_fields\<close> is the
  statements \<open>if bit(...): out[key] = read(data[pos:pos + n]); pos += n\<close> in their order.
\<close>

type_synonym field = "bool \<times> nat \<times> (bytes \<Rightarrow> nat \<Rightarrow> (string \<times> pyval) list option)"

fun run_fields :: "field list \<Rightarrow> bytes \<Rightarrow> dict \<times> nat \<Rightarrow> (dict \<times> nat) option" where
  "run_fields [] data c = Some c"
| "run_fields ((present, n, rd) # fs) data (out, pos) =
     (if present then do {
        kvs \<leftarrow> rd data pos;
        run_fields fs data (puts out kvs, pos + n)
      } else run_fields fs data (out, pos))"

definition store :: "bool \<Rightarrow> nat \<Rightarrow> string \<Rightarrow> (bytes \<Rightarrow> nat \<Rightarrow> int option) \<Rightarrow> (int \<Rightarrow> pyval) \<Rightarrow> field" where
  "store present n key rd f = (present, n, \<lambda>data pos. map_option (\<lambda>v. [(key, f v)]) (rd data pos))"

abbreviation "f_u8 present key f \<equiv> store present 1 key byte_at f"
abbreviation "f_s8 present key f \<equiv> store present 1 key s8_at f"
abbreviation "f_u16 present key f \<equiv> store present 2 key u16_at f"
abbreviation "f_s16 present key f \<equiv> store present 2 key s16_at f"
abbreviation "f_u32 present key f \<equiv> store present 4 key u32_at f"
abbreviation "f_s32 present key f \<equiv> store present 4 key s32_at f"

text \<open>A text of \<open>n\<close> octets: the slice never raises.\<close>

definition f_text :: "nat \<Rightarrow> string \<Rightarrow> field" where
  "f_text n key = (True, n, \<lambda>data pos. Some [(key, VStr (nul_text (py_slice data pos (pos + n))))])"

subsection \<open>Masks and tables\<close>

definition dwell_bits :: "(string \<times> nat) list" where
  "dwell_bits =
    [(''scale_lat'', 6 * 8 + 7), (''scale_lon'', 6 * 8 + 6), (''unc_along'', 6 * 8 + 5), (''unc_cross'', 6 * 8 + 4),
     (''unc_alt'', 6 * 8 + 3), (''track'', 6 * 8 + 2), (''speed'', 6 * 8 + 1), (''vert_velocity'', 6 * 8 + 0),
     (''track_unc'', 5 * 8 + 7), (''speed_unc'', 5 * 8 + 6), (''vv_unc'', 5 * 8 + 5), (''plat_heading'', 5 * 8 + 4),
     (''plat_pitch'', 5 * 8 + 3), (''plat_roll'', 5 * 8 + 2), (''sensor_heading'', 4 * 8 + 5),
     (''sensor_pitch'', 4 * 8 + 4), (''sensor_roll'', 4 * 8 + 3), (''mdv'', 4 * 8 + 2)]"

definition target_bits :: "(string \<times> nat) list" where
  "target_bits =
    [(''index'', 4 * 8 + 1), (''lat'', 4 * 8 + 0), (''lon'', 3 * 8 + 7), (''delta_lat'', 3 * 8 + 6),
     (''delta_lon'', 3 * 8 + 5), (''height'', 3 * 8 + 4), (''radial'', 3 * 8 + 3), (''wrap'', 3 * 8 + 2),
     (''snr'', 3 * 8 + 1), (''classification'', 3 * 8 + 0), (''prob'', 2 * 8 + 7), (''unc_slant'', 2 * 8 + 6),
     (''unc_cross'', 2 * 8 + 5), (''unc_height'', 2 * 8 + 4), (''unc_radial'', 2 * 8 + 3), (''tag_app'', 2 * 8 + 2),
     (''tag_entity'', 2 * 8 + 1), (''section'', 2 * 8 + 0)]"

definition mask_bit :: "(string \<times> nat) list \<Rightarrow> int \<Rightarrow> string \<Rightarrow> bool" where
  "mask_bit t em name = (case map_of t name of None \<Rightarrow> False | Some i \<Rightarrow> drop_bit i em AND 1 \<noteq> 0)"

definition sensor_types :: "(int \<times> string) list" where
  "sensor_types =
    [(0, ''unidentified''), (1, ''other''), (2, ''hisar''), (3, ''astor''), (4, ''rotary_wing_radar''),
     (5, ''global_hawk_sensor''), (6, ''horizon''), (7, ''apy-3''), (8, ''apy-6''), (9, ''apy-8_lynx_i''),
     (10, ''radarsat2''), (11, ''asars-2a''), (12, ''tesar''), (13, ''mp-rtip''), (14, ''apg-77''), (15, ''apg-79''),
     (16, ''apg-81''), (17, ''apy-6v1''), (18, ''spy-i_lynx_ii''), (19, ''sidm''), (20, ''limit''),
     (21, ''tcar_ags_a321''), (22, ''lsrs_sensor''), (23, ''ugs_single_sensor''), (24, ''ugs_cluster_sensor''),
     (25, ''imaster_gmti''), (26, ''an/zpy-1_starlite''), (27, ''vader''), (255, ''no_statement'')]"

definition radar_modes :: "(int \<times> string) list" where
  "radar_modes = [(0, ''unspecified''), (1, ''mti''), (2, ''hrr''), (3, ''uhrr''), (4, ''hur''), (5, ''fti'')]"

definition target_classes :: "(int \<times> string) list" where
  "target_classes =
    [(0, ''no_info_live''), (1, ''tracked_vehicle_live''), (2, ''wheeled_vehicle_live''),
     (3, ''rotary_wing_aircraft_live''), (4, ''fixed_wing_aircraft_live''), (5, ''stationary_rotator_live''),
     (6, ''maritime_live''), (7, ''beacon_live''), (8, ''amphibious_live''), (9, ''person_live''),
     (10, ''vehicle_live''), (11, ''animal_live''), (12, ''large_multi_return_land_live''),
     (13, ''large_multi_return_maritime_live''), (126, ''other_live''), (127, ''unknown_live''),
     (128, ''no_info_simulated''), (129, ''tracked_vehicle_simulated''), (130, ''wheeled_vehicle_simulated''),
     (131, ''rotary_wing_aircraft_simulated''), (132, ''fixed_wing_aircraft_simulated''),
     (133, ''stationary_rotator_simulated''), (134, ''maritime_simulated''), (135, ''beacon_simulated''),
     (136, ''amphibious_simulated''), (137, ''person_simulated''), (138, ''vehicle_simulated''),
     (139, ''animal_simulated''), (140, ''large_multi_return_land_simulated''),
     (141, ''large_multi_return_maritime_simulated''), (143, ''tagging_device''), (254, ''other_simulated''),
     (255, ''unknown_simulated'')]"

subsection \<open>Header and the segments without targets\<close>

record packet_header =
  h_edition :: char
  h_version :: char
  h_packet_size :: int
  h_nationality :: string
  h_security_classification :: int
  h_security_system :: string
  h_security_code :: int
  h_exercise_indicator :: int
  h_platform_id :: string
  h_mission_id :: int
  h_job_id :: int

text \<open>A field of the first 32 octets, which are there.\<close>

definition h_field :: "bytes \<Rightarrow> nat \<Rightarrow> nat \<Rightarrow> int" where
  "h_field data a b = from_bytes_big (py_slice data a b)"

definition decode_header :: "bytes \<Rightarrow> packet_header option" where
  "decode_header data =
     (if length data < 32 then None
      else Some \<lparr> h_edition = char_of (uint (data ! 0)), h_version = char_of (uint (data ! 1)),
        h_packet_size = h_field data 2 6, h_nationality = ascii_replace (py_slice data 6 8),
        h_security_classification = h_field data 8 9, h_security_system = ascii_replace (py_slice data 9 11),
        h_security_code = h_field data 11 13, h_exercise_indicator = h_field data 13 14,
        h_platform_id = nul_text (py_slice data 14 24), h_mission_id = h_field data 24 28,
        h_job_id = h_field data 28 32 \<rparr>)"

definition decode_mission :: "bytes \<Rightarrow> nat \<Rightarrow> (dict \<times> nat) option" where
  "decode_mission data pos = run_fields
    [f_text 12 ''mission_plan'', f_text 12 ''flight_plan'', f_u8 True ''platform_type'' VInt,
     f_text 10 ''platform_config'', f_u16 True ''mission_year'' VInt, f_u8 True ''mission_month'' VInt,
     f_u8 True ''mission_day'' VInt] data ([], pos)"

definition decode_jobdef :: "bytes \<Rightarrow> nat \<Rightarrow> (dict \<times> nat) option" where
  "decode_jobdef data pos = run_fields
    [f_u32 True ''job_id'' VInt, f_u8 True ''sensor_type'' (name_or_code sensor_types), f_text 6 ''sensor_model'',
     f_u8 True ''target_filtering_flag'' VInt, f_u8 True ''radar_priority'' VInt,
     f_s32 True ''bounding_area_a_lat_deg'' (rounded 7 sa32), f_u32 True ''bounding_area_a_lon_deg'' (rounded 7 ba32),
     f_s32 True ''bounding_area_b_lat_deg'' (rounded 7 sa32), f_u32 True ''bounding_area_b_lon_deg'' (rounded 7 ba32),
     f_s32 True ''bounding_area_c_lat_deg'' (rounded 7 sa32), f_u32 True ''bounding_area_c_lon_deg'' (rounded 7 ba32),
     f_s32 True ''bounding_area_d_lat_deg'' (rounded 7 sa32), f_u32 True ''bounding_area_d_lon_deg'' (rounded 7 ba32),
     f_u8 True ''radar_mode'' (name_or_code radar_modes), f_u16 True ''revisit_interval_s'' VInt,
     f_u16 True ''nominal_pos_unc_along_m'' VInt, f_u16 True ''nominal_pos_unc_cross_m'' VInt,
     f_u16 True ''nominal_pos_unc_alt_m'' VInt, f_u8 True ''nominal_heading_unc_deg'' VInt,
     f_u16 True ''nominal_speed_unc_ms'' VInt, f_u16 True ''nominal_sensing_slant_range_unc_m'' VInt,
     f_u16 True ''nominal_sensing_cross_range_unc_m'' VInt, f_u16 True ''nominal_sensing_vlos_unc_ms'' VInt,
     f_u8 True ''nominal_sensing_mdv_ms'' VInt, f_u8 True ''nominal_detection_prob_pct'' VInt,
     f_u8 True ''nominal_false_alarm_density'' VInt, f_u8 True ''terrain_elevation_model'' VInt,
     f_u8 True ''geoid_model'' VInt] data ([], pos)"

definition decode_platform_location :: "bytes \<Rightarrow> nat \<Rightarrow> (dict \<times> nat) option" where
  "decode_platform_location data pos = run_fields
    [f_u32 True ''location_time_s'' (rounded 3 millisec), f_s32 True ''platform_lat_deg'' (rounded 7 sa32),
     f_u32 True ''platform_lon_deg'' (rounded 7 ba32), f_s32 True ''platform_alt_m'' (rounded 2 centimeters),
     f_u16 True ''platform_track_deg'' (rounded 2 ba16), f_u32 True ''platform_speed_ms'' (rounded 3 speed_mmps),
     f_s8 True ''platform_vertical_velocity_ms'' (rounded 1 speed_deci)] data ([], pos)"

subsection \<open>Target reports and dwells\<close>

definition target_fields :: "int \<Rightarrow> field list" where
  "target_fields em = (let b = mask_bit target_bits em in
    [f_u16 (b ''index'') ''target_report_index'' VInt,
     f_s32 (b ''lat'') ''lat_deg'' (rounded 7 sa32),
     f_u32 (b ''lon'') ''lon_deg'' (rounded 7 ba32),
     f_s16 (b ''delta_lat'') ''delta_lat_raw'' VInt,
     f_s16 (b ''delta_lon'') ''delta_lon_raw'' VInt,
     f_s16 (b ''height'') ''height_m'' VInt,
     f_s16 (b ''radial'') ''radial_velocity_ms'' (rounded 2 speed_centi),
     f_u16 (b ''wrap'') ''wrap_velocity_ms'' (rounded 2 speed_centi),
     f_s8 (b ''snr'') ''snr_db'' VInt,
     (b ''classification'', 1, \<lambda>data pos. map_option (\<lambda>cls.
        [(''target_classification'', name_or_code target_classes cls), (''target_classification_code'', VInt cls)])
        (byte_at data pos)),
     f_u8 (b ''prob'') ''target_class_probability_pct'' VInt,
     f_u16 (b ''unc_slant'') ''unc_slant_range_m'' (rounded 2 centimeters),
     f_u16 (b ''unc_cross'') ''unc_cross_range_m'' (rounded 1 decimeters),
     f_u8 (b ''unc_height'') ''unc_height_m'' VInt,
     f_u16 (b ''unc_radial'') ''unc_radial_velocity_ms'' (rounded 2 speed_centi),
     f_u8 (b ''tag_app'') ''truth_tag_application'' VInt,
     f_u32 (b ''tag_entity'') ''truth_tag_entity'' VInt,
     f_s8 (b ''section'') ''radar_cross_section_dbsm'' VInt])"

definition decode_target_report :: "bytes \<Rightarrow> nat \<Rightarrow> int \<Rightarrow> (dict \<times> nat) option" where
  "decode_target_report data pos em = run_fields (target_fields em) data ([], pos)"

fun decode_targets :: "nat \<Rightarrow> bytes \<Rightarrow> nat \<Rightarrow> int \<Rightarrow> (dict list \<times> nat) option" where
  "decode_targets 0 data pos em = Some ([], pos)"
| "decode_targets (Suc k) data pos em = do {
     (report, pos) \<leftarrow> decode_target_report data pos em;
     (targets, pos) \<leftarrow> decode_targets k data pos em;
     Some (report # targets, pos)
   }"

text \<open>The fields of a dwell after its target count.\<close>

definition dwell_fields :: "int \<Rightarrow> field list" where
  "dwell_fields em = (let b = mask_bit dwell_bits em in
    [f_u32 True ''dwell_time_s'' (rounded 3 millisec),
     f_s32 True ''sensor_lat_deg'' (rounded 7 sa32),
     f_u32 True ''sensor_lon_deg'' (rounded 7 ba32),
     f_s32 True ''sensor_alt_m'' (rounded 2 centimeters),
     f_s32 (b ''scale_lat'') ''scale_lat_raw'' VInt,
     f_u32 (b ''scale_lon'') ''scale_lon_raw'' VInt,
     f_u32 (b ''unc_along'') ''sensor_unc_along_m'' (rounded 2 centimeters),
     f_u32 (b ''unc_cross'') ''sensor_unc_cross_m'' (rounded 2 centimeters),
     f_u16 (b ''unc_alt'') ''sensor_unc_alt_m'' (rounded 2 centimeters),
     f_u16 (b ''track'') ''sensor_track_deg'' (rounded 2 ba16),
     f_u32 (b ''speed'') ''sensor_speed_ms'' (rounded 3 speed_mmps),
     f_s8 (b ''vert_velocity'') ''sensor_vertical_velocity_ms'' (rounded 1 speed_deci),
     f_u8 (b ''track_unc'') ''sensor_track_unc_deg'' VInt,
     f_u16 (b ''speed_unc'') ''sensor_speed_unc_ms'' (rounded 3 speed_mmps),
     f_u16 (b ''vv_unc'') ''sensor_vv_unc_ms'' (rounded 2 speed_centi),
     f_u16 (b ''plat_heading'') ''platform_heading_deg'' (rounded 2 ba16),
     f_s16 (b ''plat_pitch'') ''platform_pitch_deg'' (rounded 3 sa16),
     f_s16 (b ''plat_roll'') ''platform_roll_deg'' (rounded 3 sa16),
     f_s32 True ''dwell_area_center_lat_deg'' (rounded 7 sa32),
     f_u32 True ''dwell_area_center_lon_deg'' (rounded 7 ba32),
     f_u16 True ''dwell_area_range_half_extent_km'' (rounded 2 kilometers),
     f_u16 True ''dwell_area_angle_half_extent_deg'' (rounded 2 ba16),
     f_u16 (b ''sensor_heading'') ''sensor_heading_deg'' (rounded 2 ba16),
     f_s16 (b ''sensor_pitch'') ''sensor_pitch_deg'' (rounded 3 sa16),
     f_s16 (b ''sensor_roll'') ''sensor_roll_deg'' (rounded 3 sa16),
     f_u8 (b ''mdv'') ''mdv_ms'' (rounded 1 speed_deci)])"

definition decode_dwell :: "bytes \<Rightarrow> nat \<Rightarrow> (dict \<times> dict list \<times> nat) option" where
  "decode_dwell data pos = do {
     hi \<leftarrow> u32_at data pos;
     lo \<leftarrow> u32_at data (pos + 4);
     let em = push_bit 32 hi OR lo;
     (dwell, pos) \<leftarrow> run_fields
       [f_s16 True ''revisit_index'' VInt, f_u16 True ''dwell_index'' VInt,
        f_u8 True ''last_dwell_of_revisit'' (\<lambda>v. VBool (v \<noteq> 0))] data ([], pos + 8);
     target_count \<leftarrow> u16_at data pos;
     (dwell, pos) \<leftarrow> run_fields (dwell_fields em) data (dwell, pos + 2);
     (targets, pos) \<leftarrow> decode_targets (nat target_count) data pos em;
     Some (dwell, targets, pos)
   }"

subsection \<open>Packets\<close>

text \<open>The text of a number in the identity of a track.\<close>

definition int_field :: "dict \<Rightarrow> string \<Rightarrow> int \<Rightarrow> int" where
  "int_field d k def = (case dget d k of Some (VInt i) \<Rightarrow> i | _ \<Rightarrow> def)"

definition field_or_none :: "dict \<Rightarrow> string \<Rightarrow> pyval" where
  "field_or_none d k = (case dget d k of None \<Rightarrow> VNone | Some v \<Rightarrow> v)"

definition target_uid :: "packet_header \<Rightarrow> dict \<Rightarrow> dict \<Rightarrow> nat \<Rightarrow> string" where
  "target_uid header dwell report k =
     ''stanag4607-'' @ fmt_int (h_job_id header) @ ''-'' @ fmt_int (int_field dwell ''dwell_index'' 0) @ ''-'' @
     fmt_int (int_field report ''target_report_index'' (int k))"

definition target_track :: "real \<Rightarrow> packet_header \<Rightarrow> dict \<Rightarrow> dict \<Rightarrow> nat \<Rightarrow> dict" where
  "target_track now header dwell report k = puts
    [(''_ts'', VFloat now), (''_src'', VStr ''STANAG 4607''), (''uid'', VStr (target_uid header dwell report k)),
     (''job_id'', VInt (h_job_id header)), (''dwell_index'', field_or_none dwell ''dwell_index''),
     (''dwell_time_s'', field_or_none dwell ''dwell_time_s''), (''sensor_lat_deg'', field_or_none dwell ''sensor_lat_deg''),
     (''sensor_lon_deg'', field_or_none dwell ''sensor_lon_deg''), (''sensor_alt_m'', field_or_none dwell ''sensor_alt_m'')] report"

fun add_targets :: "real \<Rightarrow> packet_header \<Rightarrow> dict \<Rightarrow> dict list \<Rightarrow> dict list \<Rightarrow> dict list" where
  "add_targets now header dwell [] tracks = tracks"
| "add_targets now header dwell (report # rs) tracks =
     add_targets now header dwell rs (tracks @ [target_track now header dwell report (length tracks)])"

text \<open>One segment: its tracks are appended; the results of the other types are not used.\<close>

definition decode_segment :: "real \<Rightarrow> packet_header \<Rightarrow> bytes \<Rightarrow> int \<Rightarrow> nat \<Rightarrow> dict list \<Rightarrow> dict list option" where
  "decode_segment now header data seg_type body tracks =
     (if seg_type = 1 then map_option (\<lambda>_. tracks) (decode_mission data body)
      else if seg_type = 5 then map_option (\<lambda>_. tracks) (decode_jobdef data body)
      else if seg_type = 13 then map_option (\<lambda>_. tracks) (decode_platform_location data body)
      else if seg_type = 2 then map_option (\<lambda>(dwell, targets, _). add_targets now header dwell targets tracks) (decode_dwell data body)
      else Some tracks)"

function segments_loop :: "real \<Rightarrow> packet_header \<Rightarrow> bytes \<Rightarrow> nat \<Rightarrow> nat \<Rightarrow> dict list \<Rightarrow> dict list option" where
  "segments_loop now header data bound pos tracks =
     (if pos + 5 \<le> bound then do {
        seg_type \<leftarrow> byte_at data pos;
        seg_size \<leftarrow> u32_at data (pos + 1);
        (if seg_size < 5 then Some tracks
         else do {
           tracks \<leftarrow> decode_segment now header data seg_type (pos + 5) tracks;
           segments_loop now header data bound (pos + nat seg_size) tracks
         })
      } else Some tracks)"
  by pat_completeness auto
termination by (relation "measure (\<lambda>(now, header, data, bound, pos, tracks). bound - pos)") auto

declare segments_loop.simps [simp del]

text \<open>\<open>Some None\<close> is a buffer that holds no header.\<close>

definition decode_packet :: "real \<Rightarrow> bytes \<Rightarrow> (packet_header \<times> dict list) option option" where
  "decode_packet now data = (case decode_header data of
     None \<Rightarrow> Some None
   | Some header \<Rightarrow> map_option (\<lambda>tracks. Some (header, tracks))
       (segments_loop now header data (min (nat (h_packet_size header)) (length data)) 32 []))"

definition gmti_topic :: "string \<Rightarrow> string" where
  "gmti_topic topic_root = topic_root @ ''/land/stanag_4607/gmti/neutral/vehicle''"

definition gmti_sample :: "string \<Rightarrow> real \<Rightarrow> bytes \<Rightarrow> event list" where
  "gmti_sample topic_root now data = (case decode_packet now data of
     Some (Some (header, tracks)) \<Rightarrow>
       map (\<lambda>track. PubDual (gmti_topic topic_root) track ''Stanag4607Track'')
         (filter (\<lambda>track. has_key ''lat_deg'' track \<and> has_key ''lon_deg'' track) tracks)
   | _ \<Rightarrow> [])"

subsection \<open>How far a run of fields reads\<close>

definition exact_field :: "field \<Rightarrow> bool" where
  "exact_field f \<longleftrightarrow> (case f of (present, n, rd) \<Rightarrow> 0 < n \<and> (\<forall>data pos. rd data pos = None \<longleftrightarrow> length data < pos + n))"

definition fields_size :: "field list \<Rightarrow> nat" where
  "fields_size fs = sum_list (map (\<lambda>(present, n, rd). if present then n else 0) fs)"

lemma fields_size_simps [simp]:
  "fields_size [] = 0" "fields_size ((present, n, rd) # fs) = (if present then n else 0) + fields_size fs"
  by (simp_all add: fields_size_def)

lemma reads_exact:
  "byte_at data pos = None \<longleftrightarrow> length data < pos + 1" "s8_at data pos = None \<longleftrightarrow> length data < pos + 1"
  "u16_at data pos = None \<longleftrightarrow> length data < pos + 2" "s16_at data pos = None \<longleftrightarrow> length data < pos + 2"
  "u32_at data pos = None \<longleftrightarrow> length data < pos + 4" "s32_at data pos = None \<longleftrightarrow> length data < pos + 4"
  by (auto simp: byte_at_def s8_at_def u16_at_def s16_at_def u32_at_def s32_at_def unpack_H_def unpack_h_def
      length_py_slice_gen Let_def split: if_splits)

lemma exact_store [simplified, simp]:
  "exact_field (f_u8 p k f)" "exact_field (f_s8 p k f)" "exact_field (f_u16 p k f)" "exact_field (f_s16 p k f)"
  "exact_field (f_u32 p k f)" "exact_field (f_s32 p k f)"
  by (simp_all add: exact_field_def store_def reads_exact)

lemma run_fields_size:
  "list_all exact_field fs \<Longrightarrow> (case run_fields fs data (out, pos) of
     None \<Rightarrow> length data < pos + fields_size fs
   | Some (out', pos') \<Rightarrow> pos' = pos + fields_size fs \<and> (fields_size fs = 0 \<or> pos' \<le> length data))"
proof (induction fs arbitrary: out pos)
  case (Cons f fs)
  obtain present n rd where f: "f = (present, n, rd)" by (rule prod_cases3)
  have e: "0 < n" "rd data pos = None \<longleftrightarrow> length data < pos + n" for pos
    using Cons.prems by (simp_all add: f exact_field_def)
  show ?case
  proof (cases present)
    case True
    show ?thesis
    proof (cases "rd data pos")
      case None
      then have "length data < pos + n" using e(2) by blast
      with None True show ?thesis by (simp add: f)
    next
      case (Some kvs)
      with e have "pos + n \<le> length data" by (metis linorder_not_less option.distinct(1))
      with Cons.IH [where out = "puts out kvs" and pos = "pos + n"] Cons.prems Some True e(1) show ?thesis
        by (auto simp: f split: option.splits prod.splits)
    qed
  next
    case False
    with Cons.IH [where out = out and pos = pos] Cons.prems show ?thesis by (auto simp: f split: option.splits)
  qed
qed simp

definition report_size :: "int \<Rightarrow> nat" where
  "report_size em = fields_size (target_fields em)"

lemma target_fields_exact: "list_all exact_field (target_fields em)"
  by (simp add: target_fields_def Let_def) (simp add: exact_field_def reads_exact)

lemma decode_target_report_size:
  "case decode_target_report data pos em of
     None \<Rightarrow> length data < pos + report_size em
   | Some (report, pos') \<Rightarrow> pos' = pos + report_size em \<and> (report_size em = 0 \<or> pos' \<le> length data)"
  using run_fields_size [OF target_fields_exact [of em], where data = data and out = "[]" and pos = pos]
  by (simp only: decode_target_report_def report_size_def)

text \<open>
  The targets of a dwell lie end to end. The mask fixes the size of a report. A run of \<open>k\<close>
  reports is decoded exactly when the octets for all of them are there; it ends after \<open>k\<close> times that size, and
  its \<open>i\<close>th report is what decoding at the \<open>i\<close>th multiple gives.
\<close>

theorem gmti_targets_layout:
  "case decode_targets k data pos em of
     None \<Rightarrow> length data < pos + k * report_size em
   | Some (targets, pos') \<Rightarrow> length targets = k \<and> pos' = pos + k * report_size em \<and>
       (k * report_size em = 0 \<or> pos' \<le> length data) \<and>
       list_all2 (\<lambda>i report. decode_target_report data (pos + i * report_size em) em =
         Some (report, pos + (i + 1) * report_size em)) [0..<k] targets"
proof (induction k arbitrary: pos)
  case (Suc k)
  let ?s = "report_size em"
  note one = decode_target_report_size [of data pos em]
  show ?case
  proof (cases "decode_target_report data pos em")
    case None
    with one show ?thesis by simp
  next
    case (Some rp)
    with one obtain report where r: "decode_target_report data pos em = Some (report, pos + ?s)"
      "?s = 0 \<or> pos + ?s \<le> length data" by (cases rp) auto
    note ih = Suc.IH [of "pos + ?s"]
    show ?thesis
    proof (cases "decode_targets k data (pos + ?s) em")
      case None
      with ih r show ?thesis by (simp add: ac_simps)
    next
      case (Some tp)
      obtain ts p where tp: "tp = (ts, p)" by force
      with ih Some have i: "length ts = k" "p = pos + ?s + k * ?s" "k * ?s = 0 \<or> p \<le> length data"
        "list_all2 (\<lambda>i report. decode_target_report data (pos + ?s + i * ?s) em =
          Some (report, pos + ?s + (i + 1) * ?s)) [0..<k] ts" by auto
      have "list_all2 (\<lambda>i report. decode_target_report data (pos + i * ?s) em =
          Some (report, pos + (i + 1) * ?s)) [0..<Suc k] (report # ts)"
        using i(1,4) r(1)
        by (auto simp: list_all2_conv_all_nth nth_Cons add.assoc split: nat.split simp del: upt_Suc)
      with i r Some tp show ?thesis by (auto simp del: upt_Suc)
    qed
  qed
qed simp

subsection \<open>Positions of the targets\<close>

text \<open>What a stored field may hold: a latitude and a longitude are in range.\<close>

definition placed :: "string \<times> pyval \<Rightarrow> bool" where
  "placed kv \<longleftrightarrow> (case kv of (k, v) \<Rightarrow>
     (k = ''lat_deg'' \<longrightarrow> (\<exists>x. v = VFloat (py_round x 7) \<and> \<bar>x\<bar> \<le> 90)) \<and>
     (k = ''lon_deg'' \<longrightarrow> (\<exists>x. v = VFloat (py_round x 7) \<and> \<bar>x\<bar> \<le> 180)))"

definition placed_field :: "field \<Rightarrow> bool" where
  "placed_field f \<longleftrightarrow> (case f of (present, n, rd) \<Rightarrow> \<forall>data pos kvs. rd data pos = Some kvs \<longrightarrow> list_all placed kvs)"

lemma placed_other: "k \<noteq> ''lat_deg'' \<Longrightarrow> k \<noteq> ''lon_deg'' \<Longrightarrow> placed (k, v)"
  by (simp add: placed_def)

lemma u32_range: "u32_at data pos = Some v \<Longrightarrow> 0 \<le> v \<and> v < 2 ^ 32"
  using from_bytes_big_bounds [of "py_slice data pos (pos + 4)"]
  by (auto simp: u32_at_def Let_def split: if_splits)

lemma sa32_range: "s32_at data pos = Some v \<Longrightarrow> \<bar>sa32 v\<bar> \<le> 90"
proof -
  assume "s32_at data pos = Some v"
  then obtain u where "u32_at data pos = Some u" "v = sign_extend 32 u" by (auto simp: s32_at_def)
  with u32_range [OF this(1)] sign_extend_bounds [of 32 u] have "- 2147483648 \<le> v" "v \<le> 2147483648" by auto
  then have "- 2147483648 \<le> real_of_int v" "real_of_int v \<le> 2147483648" by linarith+
  then show ?thesis by (simp add: sa32_def abs_le_iff)
qed

lemma ba32_range: "u32_at data pos = Some v \<Longrightarrow> \<bar>ba32 v\<bar> \<le> 180"
proof -
  assume "u32_at data pos = Some v"
  from u32_range [OF this] have "0 \<le> v" "v \<le> 4294967296" by simp_all
  then have "0 \<le> real_of_int v" "real_of_int v \<le> 4294967296" by linarith+
  then show ?thesis by (simp add: ba32_def Let_def abs_le_iff)
qed

lemma placed_store: "k \<noteq> ''lat_deg'' \<Longrightarrow> k \<noteq> ''lon_deg'' \<Longrightarrow> placed_field (store p n k rd f)"
  by (auto simp: placed_field_def store_def placed_other)

lemma placed_lat: "placed_field (f_s32 p ''lat_deg'' (rounded 7 sa32))"
  using sa32_range by (fastforce simp: placed_field_def store_def placed_def rounded_def)

lemma placed_lon: "placed_field (f_u32 p ''lon_deg'' (rounded 7 ba32))"
  using ba32_range by (fastforce simp: placed_field_def store_def placed_def rounded_def)

lemma target_fields_placed: "list_all placed_field (target_fields em)"
  by (simp add: target_fields_def Let_def placed_store placed_lat placed_lon)
    (auto simp: placed_field_def placed_other)

lemma puts_placed: "list_all placed kvs \<Longrightarrow> \<forall>kv \<in> set d. placed kv \<Longrightarrow> \<forall>kv \<in> set (puts d kvs). placed kv"
proof (induction kvs arbitrary: d)
  case (Cons kv kvs)
  obtain k v where kv: "kv = (k, v)" by force
  have "set (AList.update k v d) \<subseteq> insert (k, v) (set d)" by (induction d) auto
  with Cons.prems kv have "\<forall>kv \<in> set (AList.update k v d). placed kv" by auto
  from Cons.IH [OF _ this] Cons.prems(1) kv show ?case by simp
qed simp

lemma run_fields_placed:
  "list_all placed_field fs \<Longrightarrow> \<forall>kv \<in> set out. placed kv \<Longrightarrow> run_fields fs data (out, pos) = Some (out', pos') \<Longrightarrow>
     \<forall>kv \<in> set out'. placed kv"
proof (induction fs arbitrary: out pos)
  case (Cons f fs)
  obtain present n rd where f: "f = (present, n, rd)" by (rule prod_cases3)
  show ?case
  proof (cases present)
    case True
    with Cons.prems(3) obtain kvs where k: "rd data pos = Some kvs" "run_fields fs data (puts out kvs, pos + n) = Some (out', pos')"
      by (auto simp: f split: bind_splits)
    with Cons.prems(1) have "list_all placed kvs" by (simp add: f placed_field_def)
    with Cons.IH [OF _ puts_placed k(2)] Cons.prems(1,2) show ?thesis by simp
  qed (use Cons in \<open>simp add: f\<close>)
qed simp

definition placed_track :: "dict \<Rightarrow> bool" where
  "placed_track d \<longleftrightarrow> (\<forall>kv \<in> set d. placed kv)"

lemma placed_track_globe:
  assumes "placed_track d" and "has_key ''lat_deg'' d" and "has_key ''lon_deg'' d"
  shows "on_globe d"
proof -
  from assms(2,3) obtain u v where uv: "map_of d ''lat_deg'' = Some u" "map_of d ''lon_deg'' = Some v"
    by (auto simp: has_key_def)
  from map_of_SomeD [OF uv(1)] map_of_SomeD [OF uv(2)] assms(1)
  have p: "placed (''lat_deg'', u)" "placed (''lon_deg'', v)" by (simp_all add: placed_track_def)
  from p(1) obtain x where x: "u = VFloat (py_round x 7)" "\<bar>x\<bar> \<le> 90" by (auto simp: placed_def)
  from p(2) obtain y where "v = VFloat (py_round y 7)" "\<bar>y\<bar> \<le> 180" by (auto simp: placed_def)
  with x uv show ?thesis by (intro on_globe_rounded [of d x 7 y 7]) (simp_all add: dget_def)
qed

lemma decode_targets_placed: "decode_targets k data pos em = Some (ts, pos') \<Longrightarrow> list_all placed_track ts"
proof (induction k arbitrary: pos ts)
  case (Suc k)
  then obtain report p us where r: "decode_target_report data pos em = Some (report, p)"
    "decode_targets k data p em = Some (us, pos')" "ts = report # us" by (auto split: bind_splits)
  from run_fields_placed [OF target_fields_placed _ r(1) [unfolded decode_target_report_def]]
  have "placed_track report" by (simp add: placed_track_def)
  with Suc.IH [OF r(2)] r(3) show ?case by simp
qed simp

lemma target_track_placed: "placed_track report \<Longrightarrow> placed_track (target_track now header dwell report k)"
proof -
  assume "placed_track report"
  then have "list_all placed report" by (simp add: placed_track_def list_all_iff)
  then show ?thesis unfolding placed_track_def target_track_def
    by (intro puts_placed) (simp_all add: placed_other)
qed

lemma add_targets_placed:
  "list_all placed_track rs \<Longrightarrow> list_all placed_track tracks \<Longrightarrow> list_all placed_track (add_targets now header dwell rs tracks)"
  by (induction now header dwell rs tracks rule: add_targets.induct) (simp_all add: target_track_placed)

lemma decode_dwell_placed: "decode_dwell data pos = Some (dwell, ts, pos') \<Longrightarrow> list_all placed_track ts"
  unfolding decode_dwell_def Let_def by (auto simp: decode_targets_placed split: bind_splits)

lemma decode_segment_placed:
  "decode_segment now header data ty body tracks = Some tracks' \<Longrightarrow> list_all placed_track tracks \<Longrightarrow> list_all placed_track tracks'"
  by (auto simp: decode_segment_def add_targets_placed decode_dwell_placed split: if_splits)

lemma segments_loop_placed:
  "segments_loop now header data bound pos tracks = Some tracks' \<Longrightarrow> list_all placed_track tracks \<Longrightarrow> list_all placed_track tracks'"
proof (induction now header data bound pos tracks rule: segments_loop.induct)
  case (1 now header data bound pos tracks)
  show ?case
  proof (cases "pos + 5 \<le> bound")
    case True
    with "1.prems"(1) obtain ty sz where t: "byte_at data pos = Some ty" "u32_at data (pos + 1) = Some sz"
      by (subst (asm) segments_loop.simps) (auto split: bind_splits)
    show ?thesis
    proof (cases "sz < 5")
      case False
      with "1.prems"(1) True t obtain ts where "decode_segment now header data ty (pos + 5) tracks = Some ts"
        "segments_loop now header data bound (pos + nat sz) ts = Some tracks'"
        by (subst (asm) segments_loop.simps) (auto split: bind_splits)
      with "1.IH" [OF True t False] "1.prems"(2) decode_segment_placed show ?thesis by blast
    qed (use "1.prems" True t in \<open>simp add: segments_loop.simps [of now header data bound pos]\<close>)
  qed (use "1.prems" in \<open>simp add: segments_loop.simps [of now header data bound pos]\<close>)
qed

text \<open>
  A GMTI target is published with a position on the globe, or not at all. For any octets,
  every publication of a sample is a track of the GMTI class under the GMTI topic whose latitude and
  longitude are there and in range; a packet that can not be decoded publishes nothing.
\<close>

theorem gmti_publishes_placed_targets:
  "list_all (\<lambda>e. \<exists>track. e = PubDual (gmti_topic topic_root) track ''Stanag4607Track'' \<and> on_globe track)
     (gmti_sample topic_root now data)"
proof (cases "decode_packet now data")
  case (Some r)
  show ?thesis
  proof (cases r)
    case (Some ht)
    obtain header tracks where ht: "ht = (header, tracks)" by force
    with Some \<open>decode_packet now data = Some r\<close> obtain b where
      "segments_loop now header data b 32 [] = Some tracks"
      by (auto simp: decode_packet_def split: option.splits)
    from segments_loop_placed [OF this] have "list_all placed_track tracks" by simp
    with Some \<open>decode_packet now data = Some r\<close> ht placed_track_globe show ?thesis
      by (auto simp: gmti_sample_def list_all_iff)
  qed (use \<open>decode_packet now data = Some r\<close> in \<open>simp add: gmti_sample_def\<close>)
qed (simp add: gmti_sample_def)

text \<open>
  The identity of a target does not hold its revisit: two dwells with the same index in different revisits
  give different targets the same identity.
\<close>

theorem gmti_identity_shared:
  "\<exists>d d' r r'. dget d ''revisit_index'' \<noteq> dget d' ''revisit_index'' \<and> dget r ''lat_deg'' \<noteq> dget r' ''lat_deg'' \<and>
     target_uid header d r 0 = target_uid header d' r' 0"
  by (intro exI [of _ "[(''revisit_index'', VInt 1), (''dwell_index'', VInt 0)]"]
      exI [of _ "[(''revisit_index'', VInt 2), (''dwell_index'', VInt 0)]"]
      exI [of _ "[(''target_report_index'', VInt 0), (''lat_deg'', VFloat 1)]"]
      exI [of _ "[(''target_report_index'', VInt 0), (''lat_deg'', VFloat 2)]"])
    (simp add: dget_def target_uid_def int_field_def)

end
