(* ===== verification/Tak_Symbols.thy ===== *)
theory Tak_Symbols
  imports Fusion_Filters
begin

text \<open>
  What symbol a track is drawn with: aircraft (\<open>airframe.py\<close>), ground units (\<open>ground_unit.py\<close>) and the
  functions of \<open>tak_layer.py\<close> that choose a CoT type. A function of one value gets \<open>VNone\<close> for a field that
  is missing.
\<close>

subsection \<open>Aircraft\<close>

text \<open>\<open>str(v or "")\<close>, and the words of a text.\<close>

definition or_text :: "(pyval \<Rightarrow> string) \<Rightarrow> pyval \<Rightarrow> string" where
  "or_text rp v = (if truthy v then py_str rp v else [])"

definition val_of :: "dict \<Rightarrow> string \<Rightarrow> pyval" where
  "val_of d k = (case dget d k of None \<Rightarrow> VNone | Some v \<Rightarrow> v)"

definition wordlist :: "string \<Rightarrow> string list" where
  "wordlist s = filter (\<lambda>w. w \<noteq> []) (py_split CHR '' '' s)"

text \<open>\<open>re.split(r"[^a-z0-9]+", s)\<close>: the tokens; empty ones at the ends match nothing.\<close>

definition is_token_char :: "char \<Rightarrow> bool" where
  "is_token_char c \<longleftrightarrow> is_ascii_digit c \<or> is_letter c \<and> char_lower c = c"

fun tokens :: "string \<Rightarrow> string \<Rightarrow> string list" where
  "tokens acc [] = [rev acc]"
| "tokens acc (c # s) = (if is_token_char c then tokens (c # acc) s else rev acc # tokens [] s)"

text \<open>\<open>(?<!s)quad\<close> anywhere: the flag says that the last character was an \<open>s\<close>.\<close>

fun quad_not_squad :: "bool \<Rightarrow> string \<Rightarrow> bool" where
  "quad_not_squad after_s [] = False"
| "quad_not_squad after_s (c # s) = (\<not> after_s \<and> starts_with ''quad'' (c # s) \<or> quad_not_squad (c = CHR ''s'') s)"

definition airframe_word :: "string \<Rightarrow> bool" where
  "airframe_word t \<longleftrightarrow> list_ex (\<lambda>w. contains_str w t) [''drone'', ''uav'', ''copter'', ''mavic'', ''matrice''] \<or> quad_not_squad False t"

definition names_airframe :: "(pyval \<Rightarrow> string) \<Rightarrow> pyval list \<Rightarrow> bool" where
  "names_airframe rp ns = list_ex (\<lambda>name. list_ex (\<lambda>t. t \<in> set [''uas'', ''dji''] \<or> airframe_word t)
     (tokens [] (py_lower (or_text rp name)))) ns"

definition rotorcraft :: "string list" where
  "rotorcraft = wordlist ''H1 H2 H46 H47 H53 H60 H64 UH1 UH60 CH47 CH53 AH64 HH60 SH60 MH60 S58 S61 S64 S65 S70 S76 S92 S300 NH90 EH10 EC20 EC25 EC30 EC35 EC45 EC55 EC75 AS32 AS33 AS35 AS50 AS55 AS65 AS3B AS3 A109 A119 A139 A149 A169 A189 AW09 TIGR LYNX GAZL PUMA MI2 MI4 MI6 MI8 MI14 MI17 MI24 MI26 MI28 MI34 KA26 KA27 KA29 KA31 KA32 KA50 KA52 B06 B06T B105 B212 B214 B222 B230 B407 B412 B427 B429 B430 B47G B47J R22 R44 R66 H269 H500 MD52 MD60 MD90 MDHI EXPL''"

text \<open>\<open>re.sub(r"[^A-Z0-9]", "", str(v or "").upper())\<close>.\<close>

definition type_code :: "(pyval \<Rightarrow> string) \<Rightarrow> pyval \<Rightarrow> string" where
  "type_code rp v = filter (\<lambda>c. is_ascii_digit c \<or> is_letter c \<and> char_upper c = [c]) (py_upper (or_text rp v))"

definition is_rotorcraft :: "(pyval \<Rightarrow> string) \<Rightarrow> pyval \<Rightarrow> bool" where
  "is_rotorcraft rp v \<longleftrightarrow> type_code rp v \<in> set rotorcraft"

definition role_types :: "(string \<times> (string \<times> string) list) list" where
  "role_types = [
     (''F'', [(''F'', ''F16 F15 F18 F18H FA18 F35 F22 F5 F14 EUFI RFAL GRIF JAS39 MG29 MG31 SU27 SU30 SU34 SU35 SU57 M2KC MIR2 F2TH''),
        (''A'', ''A10 SU25 SU24 TORN AV8B''), (''B'', ''B52 B1 B2 TU95 TU160 TU22''),
        (''C'', ''C130 C30J C17 C5M C5 A400 C295 C27J CN35 C160 IL76 AN12 AN26 AN24 AN32 AN72 A124 A225''),
        (''K'', ''K35R K35T KC10 K46 IL78''), (''P'', ''P8 P3 P3C ATLA''), (''R'', ''E3TF E3CF E3 E2 AN30 U2''),
        (''T'', ''T6 T38 T45 T37 M346 PC21 PC9 PC7 HAWK L39 L159''), (''U'', ''PC12 L410 BE20 DHC6 C208'')]),
     (''H'', [(''A'', ''H64 AH64 MI24 MI28 KA50 KA52 TIGR''), (''C'', ''H47 CH47 H53 CH53 MI26''),
        (''U'', ''H60 UH60 HH60 SH60 MH60 S70 S70A MI8 MI17 NH90 AS32 H1 UH1'')])]"

definition roles_of :: "string \<Rightarrow> (string \<times> string) list" where
  "roles_of wing = (case map_of role_types wing of None \<Rightarrow> []
     | Some table \<Rightarrow> concat (map (\<lambda>(role, codes). map (\<lambda>c. (c, role)) (wordlist codes)) table))"

definition military_role :: "(pyval \<Rightarrow> string) \<Rightarrow> pyval \<Rightarrow> string" where
  "military_role rp v = (let code = type_code rp v;
       table = roles_of (if is_rotorcraft rp (VStr code) then ''H'' else ''F'')
     in case map_of (rev table) code of None \<Rightarrow> [] | Some role \<Rightarrow> role)"

subsection \<open>Ground units\<close>

definition arm_function :: "(string \<times> string) list" where
  "arm_function = [(''infantry'', ''UCI---''), (''mech_infantry'', ''UCIZ--''), (''airborne'', ''UCIA--''), (''armor'', ''UCA---''),
     (''artillery'', ''UCF---''), (''recon'', ''UCR---''), (''engineer'', ''UCE---''), (''air_defence'', ''UCD---'')]"

definition tak_role_function :: "(string \<times> string) list" where
  "tak_role_function = [(''hq'', ''UH----''), (''medic'', ''USM---''), (''rto'', ''UUS---'')]"

definition app6d_unit_function :: "(string \<times> string) list" where
  "app6d_unit_function = [(''121100'', ''UCI---''), (''121102'', ''UCIZ--''), (''120500'', ''UCA---''), (''130300'', ''UCF---''),
     (''121300'', ''UCR---''), (''140700'', ''UCE---''), (''130100'', ''UCD---''), (''161300'', ''USM---''), (''111000'', ''UUS---'')]"

definition app6d_individual_function :: "(string \<times> string) list" where
  "app6d_individual_function = [(''110101'', ''UCI---''), (''110102'', ''USM---''), (''110103'', ''UCR---''), (''110104'', ''UUS---'')]"

definition known_function :: "string list" where
  "known_function = map snd arm_function @ map snd tak_role_function"

definition rstrip_dash :: "string \<Rightarrow> string" where
  "rstrip_dash s = rev (dropWhile (\<lambda>c. c = CHR ''-'') (rev s))"

definition lookup_or :: "(string \<times> string) list \<Rightarrow> string \<Rightarrow> string \<Rightarrow> string" where
  "lookup_or t k d = (case map_of t k of None \<Rightarrow> d | Some v \<Rightarrow> v)"

definition cot_suffix :: "(pyval \<Rightarrow> string) \<Rightarrow> pyval \<Rightarrow> string" where
  "cot_suffix rp arm = concat (map (\<lambda>letter. [CHR ''-'', letter])
     (rstrip_dash (drop 2 (lookup_or arm_function (or_text rp arm) ''UC----''))))"

definition sub_str :: "nat \<Rightarrow> nat \<Rightarrow> string \<Rightarrow> string" where
  "sub_str a b s = drop a (take b s)"

definition friendly_unit_cot_type :: "(pyval \<Rightarrow> string) \<Rightarrow> pyval \<Rightarrow> string" where
  "friendly_unit_cot_type rp v =
     (let symbol = py_strip (or_text rp v);
          function = (if length symbol \<ge> 20 \<and> py_isdigit symbol
            then lookup_or (if sub_str 4 6 symbol = ''10'' then app6d_unit_function
                else if sub_str 4 6 symbol = ''27'' then app6d_individual_function else []) (sub_str 10 16 symbol) []
            else if length symbol \<ge> 10 \<and> sub_str 2 3 symbol = ''G'' then sub_str 4 10 symbol else [])
      in if function \<notin> set known_function then ''a-f-G-U-C''
         else ''a-f-G-'' @ py_join ''-'' (map (\<lambda>c. [c]) (rstrip_dash function)))"

definition is_tak_client :: "dict \<Rightarrow> bool" where
  "is_tak_client track = list_ex (holds track) [''tak_platform'', ''tak_device'', ''tak_team'', ''tak_role'']"

text \<open>\<open>str(role or "").strip().lower().replace(" ", "")\<close>.\<close>

definition role_key :: "(pyval \<Rightarrow> string) \<Rightarrow> pyval \<Rightarrow> string" where
  "role_key rp role = filter (\<lambda>c. c \<noteq> CHR '' '') (py_lower (py_strip (or_text rp role)))"

definition ljust6 :: "string \<Rightarrow> string" where
  "ljust6 s = s @ replicate (6 - length s) CHR ''-''"

definition tak_function :: "(pyval \<Rightarrow> string) \<Rightarrow> pyval \<Rightarrow> pyval \<Rightarrow> string" where
  "tak_function rp cot_type role = (case map_of tak_role_function (role_key rp role) of
     Some f \<Rightarrow> f
   | None \<Rightarrow> let parts = py_split CHR ''-'' (or_text rp cot_type);
        function = ljust6 (take 6 (concat (map py_upper (drop 3 parts))))
      in if length parts > 4 \<and> py_upper (parts ! 2) = ''G'' \<and> py_upper (parts ! 3) = ''U'' \<and> function \<in> set (map snd arm_function)
         then function else [])"

definition individual_role_entity :: "(string \<times> string) list" where
  "individual_role_entity = [(''medic'', ''110102''), (''rto'', ''110104''), (''sniper'', ''110209''), (''forwardobserver'', ''110202'')]"

definition individual_type_entity :: "(string \<times> string) list" where
  "individual_type_entity = [(''I'', ''110101''), (''R'', ''110103'')]"

definition tak_individual_sidc :: "(pyval \<Rightarrow> string) \<Rightarrow> pyval \<Rightarrow> pyval \<Rightarrow> string" where
  "tak_individual_sidc rp cot_type role =
     (let entity = (case map_of individual_role_entity (role_key rp role) of
          Some e \<Rightarrow> e
        | None \<Rightarrow> let parts = py_split CHR ''-'' (py_upper (or_text rp cot_type)) in
            if length parts > 5 \<and> take 3 (drop 2 parts) = [''G'', ''U'', ''C''] then lookup_or individual_type_entity (parts ! 5) [] else [])
      in ''1003270000'' @ (if entity = [] then ''110000'' else entity) @ ''46'' @ ''00'')"

subsection \<open>The CoT type of a track\<close>

definition civ_air_type :: string where "civ_air_type = ''a-n-A-C-F''"
definition mil_air_type :: string where "mil_air_type = ''a-n-A-M-F''"

definition wing :: "(pyval \<Rightarrow> string) \<Rightarrow> string \<Rightarrow> dict \<Rightarrow> string" where
  "wing rp fixed track = (if is_rotorcraft rp (val_of track ''aircraft_type'') then butlast fixed @ ''H'' else fixed)"

fun first_true :: "dict \<Rightarrow> string list \<Rightarrow> pyval" where
  "first_true d [] = VStr []"
| "first_true d (k # ks) = (if holds d k then val_of d k else first_true d ks)"

definition unknown_air_type :: "(pyval \<Rightarrow> string) \<Rightarrow> dict \<Rightarrow> string" where
  "unknown_air_type rp track =
     (let object_class = py_lower (py_str rp (first_true track
            [''sapient_class'', ''remote_id_ua_type'', ''utm_vehicle_type'', ''aartos_category'', ''target_type'']))
      in if list_ex (\<lambda>t. contains_str t object_class) [''drone'', ''uas'', ''uav'', ''quadcopter''] then ''a-u-A-M-F-Q''
         else if holds track ''icao24'' then civ_air_type else ''a-u-A-C-F'')"

definition friendly_air_type :: "(pyval \<Rightarrow> string) \<Rightarrow> dict \<Rightarrow> string" where
  "friendly_air_type rp track = (if unknown_air_type rp track = ''a-u-A-M-F-Q'' then ''a-f-A-M-F-Q'' else ''a-f-A'')"

definition sensor_alert_hot_s :: real where "sensor_alert_hot_s = 60"
definition sensor_alert_warm_s :: real where "sensor_alert_warm_s = 300"

text \<open>\<open>None\<close> is the exception of \<open>float\<close>.\<close>

definition sensor_alert_cot_type :: "dict \<Rightarrow> real \<Rightarrow> string option" where
  "sensor_alert_cot_type track now =
     (if \<not> holds track ''last_detection_ts'' then Some ''a-n-G-E-S''
      else do {
        ts \<leftarrow> py_float (val_of track ''last_detection_ts'');
        Some (if now - ts \<le> sensor_alert_hot_s then ''a-h-G-E-S''
          else if now - ts \<le> sensor_alert_warm_s then ''a-u-G-E-S'' else ''a-n-G-E-S'')
      })"

definition radar_cot_type :: "dict \<Rightarrow> bool \<Rightarrow> string" where
  "radar_cot_type track civil =
     (if civil then (if holds track ''passive'' then ''a-n-G-U-U-M-S-E-D'' else ''a-n-G-E-S-R'')
      else (if holds track ''passive'' then ''a-f-G-U-U-M-S-E-D'' else ''a-f-G-E-S-R''))"

definition raw_sensor_prefixes :: "string list" where
  "raw_sensor_prefixes = [''ASTERIX CAT-48'', ''ASTERIX CAT-20'']"

definition is_unfused_sensor_track :: "(pyval \<Rightarrow> string) \<Rightarrow> dict \<Rightarrow> string \<Rightarrow> bool" where
  "is_unfused_sensor_track rp track key \<longleftrightarrow> \<not> contains_str ''/fused/'' key \<and>
     (let src = (case dget track ''_src'' of None \<Rightarrow> [] | Some v \<Rightarrow> py_str rp v)
      in list_ex (\<lambda>p. starts_with p src) raw_sensor_prefixes)"

definition is_adsb_surface_vehicle :: "(pyval \<Rightarrow> string) \<Rightarrow> dict \<Rightarrow> bool" where
  "is_adsb_surface_vehicle rp track \<longleftrightarrow>
     py_upper (py_strip (py_str rp (first_true track [''emitter_category_str'', ''category'']))) \<in> set [''C1'', ''C2'']"

definition atc_exact :: "string list" where
  "atc_exact = [''TWR'', ''GND'', ''ATIS'', ''APP'', ''DEP'', ''APCH'', ''CTR'', ''OPS'', ''RAMP'', ''CARGO'', ''FUEL'', ''FIRE'', ''MAINT'', ''VAGON'']"

definition atc_suffix :: "string list" where
  "atc_suffix = [''TWR'', ''GND'', ''ATIS'', ''APP'', ''CTR'']"

text \<open>\<open>track.get(k) or ""\<close> used as a text: \<open>None\<close> is the \<open>AttributeError\<close> of another value.\<close>

definition str_field :: "dict \<Rightarrow> string \<Rightarrow> string option" where
  "str_field d k = (if holds d k then (case val_of d k of VStr s \<Rightarrow> Some s | _ \<Rightarrow> None) else Some [])"

definition is_ground_station :: "dict \<Rightarrow> bool option" where
  "is_ground_station track = map_option (\<lambda>s. let cs = py_upper (py_strip s) in
     cs \<in> set atc_exact \<or> list_ex (\<lambda>x. ends_with x cs) atc_suffix \<and> length cs \<le> 8) (str_field track ''callsign'')"

text \<open>The last segment of a key, without the version behind it.\<close>

definition terminal_view :: "string \<Rightarrow> string" where
  "terminal_view key = (let parts = py_split CHR ''/'' key; n = length parts;
       parts = (if n \<ge> 2 \<and> parts ! (n - 2) = ''tracks'' \<and> take 1 (parts ! (n - 1)) = ''v'' \<and> py_isdigit (drop 1 (parts ! (n - 1)))
         then take (n - 2) parts else parts)
     in if parts = [] then [] else last parts)"

definition non_json_views :: "string list" where
  "non_json_views = [''sapient'', ''proto'', ''raw'']"

subsection \<open>Two ways to a unit's type agree\<close>

text \<open>
  One arm, one symbol. For every arm of service that the module knows, the CoT type of a friendly unit
  read from its letter code (SIDC) is the generic unit's type followed by the suffix that the layers put
  behind a hostile unit's type for that arm, so both sides are drawn with the same function.
\<close>

theorem unit_symbols_agree:
  "list_all (\<lambda>(arm, f). friendly_unit_cot_type rp (VStr (''SFGP'' @ f @ ''-----'')) = ''a-f-G-U-C'' @ cot_suffix rp (VStr arm)) arm_function"
  by code_simp

end
