(* ===== verification/Geo_Simplify.thy ===== *)
theory Geo_Simplify
  imports EFDI_Prelude
begin

text \<open>
  The simplification of a drawn ring (\<open>geo_simplify.py\<close>): Douglas-Peucker with an explicit stack, and the
  repair of a ring that crosses itself. A point is a pair of reals, a position of a ring a list of at
  least two numbers. The lemmas give the equivalence of the stack with the recursion, and with it the
  bound on the error.
\<close>

type_synonym point = "real \<times> real"

subsection \<open>Douglas-Peucker\<close>

definition perp :: "point \<Rightarrow> point \<Rightarrow> point \<Rightarrow> real" where
  "perp p a b = (case (p, a, b) of ((x, y), (x1, y1), (x2, y2)) \<Rightarrow>
     let dx = x2 - x1; dy = y2 - y1 in
     if dx = dy \<and> dy = 0 then sqrt ((x - x1)\<^sup>2 + (y - y1)\<^sup>2)
     else \<bar>dy * x - dx * y + x2 * y1 - y2 * x1\<bar> / sqrt (dx * dx + dy * dy))"

text \<open>The scan for the point farthest from the chord, if one is farther than \<open>eps\<close>.\<close>

definition farther :: "point list \<Rightarrow> nat \<Rightarrow> nat \<Rightarrow> nat \<Rightarrow> nat option \<times> real \<Rightarrow> nat option \<times> real" where
  "farther points lo hi i best = (let d = perp (points ! i) (points ! lo) (points ! hi) in
     if d > snd best then (Some i, d) else best)"

definition farthest :: "point list \<Rightarrow> real \<Rightarrow> nat \<Rightarrow> nat \<Rightarrow> nat option" where
  "farthest points eps lo hi = fst (fold (farther points lo hi) [lo + 1..<hi] (None, eps))"

lemma fold_farther:
  "fst (fold (farther points lo hi) xs (far, d)) = Some i \<Longrightarrow> far = Some i \<or> i \<in> set xs"
  by (induction xs arbitrary: far d) (auto simp: farther_def Let_def split: if_splits)

lemma fold_farther_None:
  "fst (fold (farther points lo hi) xs (None, eps)) = None \<Longrightarrow> i \<in> set xs \<Longrightarrow>
    perp (points ! i) (points ! lo) (points ! hi) \<le> eps"
proof (induction xs)
  case (Cons x xs)
  have some: "fst (fold (farther points lo hi) ys (Some j, d)) \<noteq> None" for ys j d
    by (induction ys arbitrary: j d) (auto simp: farther_def Let_def)
  show ?case
  proof (cases "perp (points ! x) (points ! lo) (points ! hi) > eps")
    case True
    then have "farther points lo hi x (None, eps) = (Some x, perp (points ! x) (points ! lo) (points ! hi))"
      by (simp add: farther_def Let_def)
    then show ?thesis using Cons.prems(1) some by simp
  next
    case False
    then show ?thesis using Cons by (auto simp: farther_def Let_def)
  qed
qed simp

lemma farthest_between: "farthest points eps lo hi = Some far \<Longrightarrow> lo < far \<and> far < hi"
  unfolding farthest_def using fold_farther by fastforce

lemma farthest_None:
  "farthest points eps lo hi = None \<Longrightarrow> lo < i \<Longrightarrow> i < hi \<Longrightarrow> perp (points ! i) (points ! lo) (points ! hi) \<le> eps"
  unfolding farthest_def by (rule fold_farther_None) auto

text \<open>The stack, its top first; the flags of the points kept.\<close>

function dp_loop :: "point list \<Rightarrow> real \<Rightarrow> bool list \<Rightarrow> (nat \<times> nat) list \<Rightarrow> bool list" where
  "dp_loop points eps keep [] = keep"
| "dp_loop points eps keep ((lo, hi) # stack) = (case farthest points eps lo hi of
     None \<Rightarrow> dp_loop points eps keep stack
   | Some far \<Rightarrow> dp_loop points eps (keep[far := True]) ((far, hi) # (lo, far) # stack))"
  by pat_completeness auto
termination
  by (relation "measure (\<lambda>(points, eps, keep, stack). sum_list (map (\<lambda>(lo, hi). max 1 (2 * (hi - lo) - 1)) stack))")
    (auto dest!: farthest_between)

text \<open>\<open>None\<close> is the \<open>IndexError\<close> of an empty list.\<close>

definition douglas_peucker :: "point list \<Rightarrow> real \<Rightarrow> nat list option" where
  "douglas_peucker points eps =
     (if points = [] then None
      else let n = length points;
        keep = dp_loop points eps ((replicate n False)[0 := True, n - 1 := True]) [(0, n - 1)]
      in Some (filter (\<lambda>i. keep ! i) [0..<n]))"

subsection \<open>Rings\<close>

definition orient :: "point \<Rightarrow> point \<Rightarrow> point \<Rightarrow> real" where
  "orient a b c = (snd c - snd a) * (fst b - fst a) - (snd b - snd a) * (fst c - fst a)"

definition succ_point :: "point list \<Rightarrow> nat \<Rightarrow> point" where
  "succ_point points i = points ! ((i + 1) mod length points)"

fun cross_scan :: "point list \<Rightarrow> nat \<Rightarrow> nat list \<Rightarrow> (nat \<times> nat) list" where
  "cross_scan points i [] = []"
| "cross_scan points i (j # js) =
     (let n = length points; a = points ! i; b = succ_point points i; c = points ! j; d = succ_point points j in
      if min (fst c) (fst d) > max (fst a) (fst b) then []
      else if (i + 1) mod n = j \<or> (j + 1) mod n = i then cross_scan points i js
      else if orient a b c * orient a b d < 0 \<and> orient c d a * orient c d b < 0 then (i, j) # cross_scan points i js
      else cross_scan points i js)"

fun cross_all :: "point list \<Rightarrow> nat list \<Rightarrow> (nat \<times> nat) list" where
  "cross_all points [] = []"
| "cross_all points (i # is) = cross_scan points i is @ cross_all points is"

definition crossings :: "point list \<Rightarrow> (nat \<times> nat) list" where
  "crossings points =
     cross_all points (sort_key (\<lambda>i. min (fst (points ! i)) (fst (succ_point points i))) [0..<length points])"

text \<open>The tolerance after \<open>k\<close> rounds of the loop; it passes 5 before the twentieth.\<close>

definition eps_at :: "nat \<Rightarrow> real" where
  "eps_at k = 5 / 10000 * (16 / 10) ^ k"

lemma eps_passes_5: "eps_at k < 5 \<Longrightarrow> k < 20"
proof (rule ccontr)
  assume "eps_at k < 5" "\<not> k < 20"
  then have "eps_at 20 \<le> eps_at k"
    unfolding eps_at_def by (intro mult_left_mono power_increasing) auto
  moreover have "5 \<le> eps_at 20" by (simp add: eps_at_def power_divide)
  ultimately show False using \<open>eps_at k < 5\<close> by simp
qed

function coarsen :: "point list \<Rightarrow> nat \<Rightarrow> nat \<Rightarrow> nat list \<Rightarrow> nat list option" where
  "coarsen points max_vertices k kept =
     (if int (length kept) > int max_vertices - 1 \<and> eps_at k < 5
      then douglas_peucker points (eps_at k) \<bind> coarsen points max_vertices (k + 1)
      else Some kept)"
  by pat_completeness auto
termination
  by (relation "measure (\<lambda>(points, m, k, kept). 20 - k)") (auto dest: eps_passes_5)

declare coarsen.simps [simp del]

text \<open>The original points between the ends of a crossing segment.\<close>

definition restored :: "nat \<Rightarrow> nat list \<Rightarrow> nat \<Rightarrow> nat list" where
  "restored n kept k = (let lo = kept ! k; hi = kept ! ((k + 1) mod length kept) in
     if hi > lo then [lo..<hi + 1] else [lo..<n])"

fun repair :: "nat \<Rightarrow> point list \<Rightarrow> nat list \<Rightarrow> nat list" where
  "repair 0 points kept = kept"
| "repair (Suc rounds) points kept =
     (let crossed = crossings (map (\<lambda>i. points ! i) kept) in
      if crossed = [] then kept
      else repair rounds points (sort (remdups (kept @
        concat (map (\<lambda>(i, j). restored (length points) kept i @ restored (length points) kept j) crossed)))))"

definition as_point :: "real list \<Rightarrow> point option" where
  "as_point p = (case p of x # y # _ \<Rightarrow> Some (x, y) | _ \<Rightarrow> None)"

definition open_ring :: "real list list \<Rightarrow> real list list option" where
  "open_ring ring = (if ring = [] then None else Some (if hd ring = last ring then butlast ring else ring))"

text \<open>\<open>None\<close>: the ring is empty, has one position, or a position with fewer than two numbers.\<close>

definition simplify_ring :: "real list list \<Rightarrow> nat \<Rightarrow> point list option" where
  "simplify_ring ring max_vertices = do {
     ps \<leftarrow> open_ring ring;
     points \<leftarrow> those (map as_point ps);
     kept \<leftarrow> coarsen points max_vertices 0 [0..<length points];
     let kept = (if length kept < length points then repair 8 points kept else kept);
     let simplified = map (\<lambda>i. points ! i) kept;
     (if simplified = [] then None else Some (simplified @ [hd simplified]))
   }"

definition ring_area :: "point list \<Rightarrow> real" where
  "ring_area ring = \<bar>sum_list (map (\<lambda>(a, b). fst a * snd b - fst b * snd a) (zip ring (tl ring @ take 1 ring)))\<bar> / 2"

subsection \<open>The recursion behind the stack\<close>

function dp_rec :: "point list \<Rightarrow> real \<Rightarrow> nat \<Rightarrow> nat \<Rightarrow> nat list" where
  "dp_rec points eps lo hi = (case farthest points eps lo hi of
     None \<Rightarrow> []
   | Some far \<Rightarrow> dp_rec points eps lo far @ far # dp_rec points eps far hi)"
  by pat_completeness auto
termination
  by (relation "measure (\<lambda>(points, eps, lo, hi). hi - lo)") (auto dest!: farthest_between)

declare dp_rec.simps [simp del]

lemma dp_rec_sorted: "lo < hi \<Longrightarrow> sorted_wrt (<) (lo # dp_rec points eps lo hi @ [hi])"
proof (induction points eps lo hi rule: dp_rec.induct)
  case (1 points eps lo hi)
  show ?case
  proof (cases "farthest points eps lo hi")
    case None
    with 1 show ?thesis by (simp add: dp_rec.simps [of points eps lo hi])
  next
    case (Some far)
    with farthest_between have "lo < far" "far < hi" by blast+
    with 1 Some have "sorted_wrt (<) (lo # dp_rec points eps lo far @ [far])" "sorted_wrt (<) (far # dp_rec points eps far hi @ [hi])"
      by blast+
    then show ?thesis
      unfolding dp_rec.simps [of points eps lo hi] Some using \<open>lo < far\<close> \<open>far < hi\<close>
      by (fastforce simp: sorted_wrt_append)
  qed
qed

text \<open>Every point between two neighbours of a list of indices is near their chord.\<close>

definition close_to :: "point list \<Rightarrow> real \<Rightarrow> nat list \<Rightarrow> bool" where
  "close_to points eps ks \<longleftrightarrow>
     successively (\<lambda>a b. \<forall>i. a < i \<longrightarrow> i < b \<longrightarrow> perp (points ! i) (points ! a) (points ! b) \<le> eps) ks"

lemma dp_rec_close: "close_to points eps (lo # dp_rec points eps lo hi @ [hi])"
proof (induction points eps lo hi rule: dp_rec.induct)
  case (1 points eps lo hi)
  show ?case
  proof (cases "farthest points eps lo hi")
    case None
    then show ?thesis by (auto simp: dp_rec.simps [of points eps lo hi] close_to_def dest: farthest_None)
  next
    case (Some far)
    with 1 have "close_to points eps (lo # dp_rec points eps lo far @ [far])" "close_to points eps (far # dp_rec points eps far hi @ [hi])"
      by blast+
    moreover have "dp_rec points eps lo hi = dp_rec points eps lo far @ far # dp_rec points eps far hi"
      by (simp add: dp_rec.simps [of points eps lo hi] Some)
    ultimately show ?thesis
      by (auto simp: close_to_def successively_append_iff successively_Cons hd_append split: if_splits)
  qed
qed

lemma flag_update: "j < length xs \<Longrightarrow> xs[i := True] ! j \<longleftrightarrow> i = j \<or> xs ! j"
  by (cases "i < length xs") (auto simp: nth_list_update list_update_beyond)

lemma dp_loop_flags:
  "length (dp_loop points eps keep stack) = length keep \<and> (\<forall>i < length keep.
     dp_loop points eps keep stack ! i \<longleftrightarrow> keep ! i \<or> (\<exists>(lo, hi) \<in> set stack. i \<in> set (dp_rec points eps lo hi)))"
proof (induction points eps keep stack rule: dp_loop.induct)
  case (2 points eps keep lo hi stack)
  show ?case
  proof (cases "farthest points eps lo hi")
    case None
    with 2 show ?thesis by (simp add: dp_rec.simps [of points eps lo hi])
  next
    case (Some far)
    have rec: "dp_loop points eps keep ((lo, hi) # stack) =
        dp_loop points eps (keep[far := True]) ((far, hi) # (lo, far) # stack)"
      by (simp add: Some)
    have parts: "set (dp_rec points eps lo hi) = set (dp_rec points eps lo far) \<union> {far} \<union> set (dp_rec points eps far hi)"
      by (simp add: dp_rec.simps [of points eps lo hi] Some)
    show ?thesis
      unfolding rec using "2.IH"(2) [OF Some] by (auto simp del: dp_loop.simps simp: parts flag_update)
  qed
qed simp

lemma douglas_peucker_rec:
  assumes "points \<noteq> []"
  shows "douglas_peucker points eps = Some (if length points = 1 then [0]
    else 0 # dp_rec points eps 0 (length points - 1) @ [length points - 1])"
proof -
  let ?n = "length points" and ?r = "dp_rec points eps 0 (length points - 1)"
  let ?keep = "dp_loop points eps ((replicate (length points) False)[0 := True, length points - 1 := True]) [(0, length points - 1)]"
  have dp: "douglas_peucker points eps = Some (filter (\<lambda>i. ?keep ! i) [0..<?n])"
    using assms by (simp add: douglas_peucker_def Let_def)
  have keep: "?keep ! i \<longleftrightarrow> i = 0 \<or> i = ?n - 1 \<or> i \<in> set ?r" if "i < ?n" for i
    using dp_loop_flags [of points eps "(replicate ?n False)[0 := True, ?n - 1 := True]" "[(0, ?n - 1)]"] that
    by (auto simp del: dp_loop.simps simp: flag_update)
  show ?thesis
  proof (cases "?n = 1")
    case True
    then show ?thesis using dp keep [of 0] by simp
  next
    case False
    with assms have n: "0 < ?n - 1" by (cases points) auto
    let ?k = "0 # ?r @ [?n - 1]"
    have s: "sorted_wrt (<) ?k" by (rule dp_rec_sorted [OF n])
    then have "set ?k \<subseteq> {0..<?n}" using n by (auto simp: sorted_wrt_append)
    then have "set (filter (\<lambda>i. ?keep ! i) [0..<?n]) = set ?k" using keep n by auto
    moreover have "sorted_wrt (<) (filter (\<lambda>i. ?keep ! i) [0..<?n])" by (simp add: sorted_wrt_filter)
    ultimately have "filter (\<lambda>i. ?keep ! i) [0..<?n] = ?k"
      using s by (metis strict_sorted_equal)
    with dp False show ?thesis by simp
  qed
qed

lemma douglas_peucker_total: "points \<noteq> [] \<Longrightarrow> \<exists>kept. douglas_peucker points eps = Some kept"
  by (simp add: douglas_peucker_rec)

lemma douglas_peucker_kept:
  assumes "douglas_peucker points eps = Some kept"
  shows "points \<noteq> [] \<and> sorted_wrt (<) kept \<and> kept \<noteq> [] \<and> set kept \<subseteq> {0..<length points} \<and> hd kept = 0 \<and>
    last kept = length points - 1 \<and> close_to points eps kept"
proof -
  have ne: "points \<noteq> []" using assms by (auto simp: douglas_peucker_def)
  show ?thesis
  proof (cases "length points = 1")
    case True
    with assms ne show ?thesis by (auto simp: douglas_peucker_rec close_to_def)
  next
    case False
    with ne have n: "0 < length points - 1" by (cases points) auto
    have k: "kept = 0 # dp_rec points eps 0 (length points - 1) @ [length points - 1]"
      using assms ne False by (simp add: douglas_peucker_rec)
    have s: "sorted_wrt (<) kept" unfolding k by (rule dp_rec_sorted [OF n])
    moreover have "set kept \<subseteq> {0..<length points}" using s n unfolding k by (auto simp: sorted_wrt_append)
    moreover have "close_to points eps kept" unfolding k by (rule dp_rec_close)
    ultimately show ?thesis using ne by (simp add: k)
  qed
qed


subsection \<open>What a simplified ring is\<close>

lemma coarsen_indices:
  assumes "coarsen points m k kept = Some kept'" and "sorted_wrt (<) kept" and "set kept \<subseteq> {0..<length points}"
  shows "sorted_wrt (<) kept' \<and> set kept' \<subseteq> {0..<length points}"
  using assms
proof (induction points m k kept rule: coarsen.induct)
  case (1 points m k kept)
  show ?case
  proof (cases "int (length kept) > int m - 1 \<and> eps_at k < 5")
    case True
    then obtain ks where ks: "douglas_peucker points (eps_at k) = Some ks" "coarsen points m (k + 1) ks = Some kept'"
      using "1.prems"(1) by (auto simp: coarsen.simps [of points m k kept] split: bind_splits)
    from douglas_peucker_kept [OF ks(1)] "1.IH" [OF True ks] show ?thesis by blast
  next
    case False
    with "1.prems" show ?thesis by (simp add: coarsen.simps [of points m k kept])
  qed
qed

lemma coarsen_total: "points \<noteq> [] \<Longrightarrow> \<exists>kept'. coarsen points m k kept = Some kept'"
proof (induction points m k kept rule: coarsen.induct)
  case (1 points m k kept)
  then show ?case
    using douglas_peucker_total [OF "1.prems", of "eps_at k"]
    by (auto simp: coarsen.simps [of points m k kept])
qed

lemma coarsen_nonempty:
  "coarsen points m k kept = Some kept' \<Longrightarrow> kept \<noteq> [] \<Longrightarrow> kept' \<noteq> []"
proof (induction points m k kept rule: coarsen.induct)
  case (1 points m k kept)
  show ?case
  proof (cases "int (length kept) > int m - 1 \<and> eps_at k < 5")
    case True
    then obtain ks where ks: "douglas_peucker points (eps_at k) = Some ks" "coarsen points m (k + 1) ks = Some kept'"
      using "1.prems"(1) by (auto simp: coarsen.simps [of points m k kept] split: bind_splits)
    with "1.IH" [OF True ks] douglas_peucker_kept [OF ks(1)] show ?thesis by blast
  next
    case False
    with "1.prems" show ?thesis by (simp add: coarsen.simps [of points m k kept])
  qed
qed

lemma cross_scan_indices: "(a, b) \<in> set (cross_scan points i js) \<Longrightarrow> a = i \<and> b \<in> set js"
  by (induction js) (auto simp: Let_def split: if_splits)

lemma cross_all_indices: "(a, b) \<in> set (cross_all points is) \<Longrightarrow> a \<in> set is \<and> b \<in> set is"
  by (induction points "is" rule: cross_all.induct) (auto dest: cross_scan_indices)

lemma crossings_indices: "(a, b) \<in> set (crossings points) \<Longrightarrow> a < length points \<and> b < length points"
  unfolding crossings_def by (auto dest!: cross_all_indices)

lemma restored_bounds:
  assumes "set kept \<subseteq> {0..<n}" and "k < length kept"
  shows "set (restored n kept k) \<subseteq> {0..<n}"
proof -
  have "kept ! k < n" "kept ! ((k + 1) mod length kept) < n"
    using assms(1) nth_mem [of "(k + 1) mod length kept" kept] nth_mem [OF assms(2)] assms(2)
    by (metis atLeastLessThan_iff length_pos_if_in_set mod_less_divisor subsetD)+
  then show ?thesis by (auto simp: restored_def Let_def)
qed

lemma repair_indices:
  "sorted_wrt (<) kept \<Longrightarrow> kept \<noteq> [] \<Longrightarrow> set kept \<subseteq> {0..<length points} \<Longrightarrow>
    sorted_wrt (<) (repair rounds points kept) \<and> repair rounds points kept \<noteq> [] \<and>
    set (repair rounds points kept) \<subseteq> {0..<length points} \<and> set kept \<subseteq> set (repair rounds points kept)"
proof (induction rounds points kept rule: repair.induct)
  case (2 rounds points kept)
  let ?c = "crossings (map (\<lambda>i. points ! i) kept)"
  let ?new = "kept @ concat (map (\<lambda>(i, j). restored (length points) kept i @ restored (length points) kept j) ?c)"
  show ?case
  proof (cases "?c = []")
    case True
    with "2.prems" show ?thesis by simp
  next
    case False
    have "set ?new \<subseteq> {0..<length points}"
    proof -
      have "i < length kept \<and> j < length kept" if "(i, j) \<in> set ?c" for i j
        using crossings_indices [OF that] by simp
      then show ?thesis using "2.prems"(3) restored_bounds [OF "2.prems"(3)] by fastforce
    qed
    moreover have "sorted_wrt (<) (sort (remdups ?new))" by (simp add: strict_sorted_iff)
    moreover have "sort (remdups ?new) \<noteq> []" using "2.prems"(2) by (metis append_is_Nil_conv remdups_eq_nil_iff set_empty set_sort)
    ultimately show ?thesis using "2.IH" [OF refl False] False by (auto simp: Let_def)
  qed
qed simp

lemma those_points:
  "list_all (\<lambda>p. 2 \<le> length p) ps \<Longrightarrow> \<exists>points. those (map as_point ps) = Some points \<and> length points = length ps"
proof (induction ps)
  case (Cons p ps)
  then obtain x y zs where "p = x # y # zs" by (cases p; cases "tl p") auto
  with Cons show ?case by (auto simp: as_point_def)
qed simp

text \<open>
  A simplified ring is closed and made of the ring's own vertices. Every ring of at least two
  positions is simplified: the result is a selection of its vertices in their order, closed by the
  first of them; a ring that already has fewer than the wanted vertices keeps them all.
\<close>

theorem simplify_ring_selects:
  assumes "open_ring ring = Some ps" and "ps \<noteq> []" and "list_all (\<lambda>p. 2 \<le> length p) ps"
  shows "\<exists>points kept. those (map as_point ps) = Some points \<and> kept \<noteq> [] \<and> sorted_wrt (<) kept \<and>
    set kept \<subseteq> {0..<length points} \<and> (length points < m \<longrightarrow> kept = [0..<length points]) \<and>
    simplify_ring ring m = Some (map (\<lambda>i. points ! i) kept @ [points ! hd kept])"
proof -
  obtain points where p: "those (map as_point ps) = Some points" "length points = length ps"
    using those_points [OF assms(3)] by blast
  have ne: "points \<noteq> []" using p(2) assms(2) by auto
  obtain ks where ks: "coarsen points m 0 [0..<length points] = Some ks"
    using coarsen_total [OF ne] by blast
  have k: "sorted_wrt (<) ks" "set ks \<subseteq> {0..<length points}" "ks \<noteq> []"
    using coarsen_indices [OF ks] coarsen_nonempty [OF ks] ne by auto
  define kept where "kept = (if length ks < length points then repair 8 points ks else ks)"
  have "sorted_wrt (<) kept \<and> kept \<noteq> [] \<and> set kept \<subseteq> {0..<length points}"
    using repair_indices [OF k(1,3,2), of 8] k unfolding kept_def by auto
  moreover have "kept = [0..<length points]" if "length points < m"
  proof -
    from that have "\<not> int (length [0..<length points]) > int m - 1" by simp
    then have "ks = [0..<length points]" using ks by (subst (asm) coarsen.simps) simp
    then show ?thesis by (simp add: kept_def)
  qed
  moreover from calculation have "simplify_ring ring m = Some (map (\<lambda>i. points ! i) kept @ [points ! hd kept])"
    by (simp add: simplify_ring_def assms(1) p(1) ks Let_def kept_def [symmetric] hd_map)
  ultimately show ?thesis using p(1) by blast
qed

definition demo_line :: "point list" where
  "demo_line = [(0, 0), (1, 0), (2, 1), (3, 0)]"


theorem simplify_ring_selects_witness:
  "simplify_ring [[0, 0], [4, 0], [4, 3], [0, 0]] 10 = Some [(0, 0), (4, 0), (4, 3), (0, 0)]"
proof -
  have h: "open_ring [[0, 0], [4, 0], [4, 3], [0, 0 :: real]] = Some [[0, 0], [4, 0], [4, 3]]"
    "[[0, 0], [4, 0], [4, 3 :: real]] \<noteq> []" "list_all (\<lambda>p. 2 \<le> length p) [[0, 0], [4, 0], [4, 3 :: real]]"
    by (simp_all add: open_ring_def)
  from simplify_ring_selects [OF h, of 10] show ?thesis
    by (auto simp: as_point_def upt_rec)
qed

end
