(* ===== verification/Tak_Cot.thy ===== *)
theory Tak_Cot
  imports Tak_Symbols Geo_Simplify Positions Asterix_Fields Geodesy
begin

text \<open>
  Cursor on Target events (\<open>tak_layer.py\<close>): a track becomes a tree of elements. An attribute keeps the value
  that the code prints: a text, a number, a time, or a point. The remarks panel is the argument \<open>remarks\<close>, the
  optional marker art the argument \<open>icons\<close>. Numbers are reals and always finite. A function that may raise has
  an option; where the code also returns \<open>None\<close>, that is the inner option.
\<close>

datatype attr = AStr string | ANum real | AInt int | ATime real | APoint real real real

datatype xml = Elem string "(string \<times> attr) list" "xml list" | Content string

subsection \<open>Numbers of a track\<close>

definition hae_keys :: "(string \<times> real) list" where
  "hae_keys = [(''geo_alt_m'', 1), (''alt_geom_ft'', 0.3048), (''baro_alt_m'', 1), (''alt_baro_ft'', 0.3048), (''alt_3d_ft'', 0.3048),
     (''mode_c_alt_ft'', 0.3048), (''alt_ft'', 0.3048), (''alt_m'', 1), (''alt_km'', 1000)]"

definition unknown_error :: real where
  "unknown_error = 9999999"

text \<open>The first field with a number that passes the test, scaled.\<close>

fun first_number :: "(real \<Rightarrow> bool) \<Rightarrow> dict \<Rightarrow> (string \<times> real) list \<Rightarrow> real option" where
  "first_number P d [] = None"
| "first_number P d ((k, scale) # ks) = (case py_float (val_of d k) of
     None \<Rightarrow> first_number P d ks
   | Some x \<Rightarrow> if P (x * scale) then Some (x * scale) else first_number P d ks)"

definition hae :: "dict \<Rightarrow> real" where
  "hae track = (case first_number (\<lambda>x. x \<noteq> 0) track hae_keys of None \<Rightarrow> unknown_error | Some x \<Rightarrow> py_round x 1)"

text \<open>The radius of two deviations.\<close>

fun first_radius :: "dict \<Rightarrow> (string \<times> string \<times> real) list \<Rightarrow> real option" where
  "first_radius d [] = None"
| "first_radius d ((kx, ky, scale) # ks) = (case (py_float (val_of d kx), py_float (val_of d ky)) of
     (Some x, Some y) \<Rightarrow> Some (sqrt ((x * scale)\<^sup>2 + (y * scale)\<^sup>2))
   | _ \<Rightarrow> first_radius d ks)"

definition circular_error :: "dict \<Rightarrow> real" where
  "circular_error track = (case first_number (\<lambda>x. x \<ge> 0) track [(''position_uncertainty_m'', 1), (''position_accuracy_m'', 1)] of
     Some x \<Rightarrow> py_round x 1
   | None \<Rightarrow> (case first_radius track [(''sigma_x_m'', ''sigma_y_m'', 1), (''track_sigma_x_nm'', ''track_sigma_y_nm'', 1852)] of
       Some r \<Rightarrow> py_round r 1
     | None \<Rightarrow> unknown_error))"

definition linear_error :: "dict \<Rightarrow> real" where
  "linear_error track = (case first_number (\<lambda>x. x \<ge> 0) track [(''height_accuracy_m'', 1)] of
     Some x \<Rightarrow> py_round x 1 | None \<Rightarrow> unknown_error)"

definition speed_of :: "dict \<Rightarrow> real" where
  "speed_of track = (case first_number (\<lambda>x. x \<ge> 0) track
       [(''speed_ms'', 1), (''ground_speed_kts'', 0.514444), (''speed_kts'', 0.514444), (''sog_ms'', 1)] of
     Some x \<Rightarrow> py_round x 2 | None \<Rightarrow> 0)"

definition course :: "dict \<Rightarrow> real" where
  "course track = (case first_number (\<lambda>x. True) track [(''heading_deg'', 1), (''track_deg'', 1), (''cog_deg'', 1)] of
     Some x \<Rightarrow> py_round (float_mod x 360) 1 | None \<Rightarrow> 0)"

subsection \<open>Identity and name\<close>

text \<open>\<open>"\{:.5f\}".format(v)\<close>: text and a missing value raise.\<close>

definition fmt_5f :: "pyval \<Rightarrow> string option" where
  "fmt_5f v = map_option (\<lambda>x. let n = round_half_even (\<bar>x\<bar> * 100000) in
     (if x < 0 then ''-'' else []) @ fmt_int (n div 100000) @ ''.'' @ fmt_pad 10 5 (n mod 100000)) (number v)"

definition uid_keys :: "(string \<times> string) list" where
  "uid_keys = [(''icao24'', ''ICAO''), (''mmsi'', ''MMSI''), (''sat_id'', ''SAT''), (''radar_id'', ''RAD''), (''sensor_id'', ''SENS''), (''uid'', ''UID'')]"

definition get_or :: "dict \<Rightarrow> string \<Rightarrow> pyval \<Rightarrow> pyval" where
  "get_or d k v = (case dget d k of None \<Rightarrow> v | Some w \<Rightarrow> w)"

definition cot_uid :: "(pyval \<Rightarrow> string) \<Rightarrow> dict \<Rightarrow> string option" where
  "cot_uid rp track = (case find (\<lambda>(k, p). holds track k) uid_keys of
     Some (k, p) \<Rightarrow> Some (''EFDI-'' @ p @ ''-'' @ py_upper (py_str rp (val_of track k)))
   | None \<Rightarrow> do {
       cs \<leftarrow> str_field track ''callsign'';
       let src = py_str rp (get_or track ''_src'' (VStr ''efdi''));
       (if py_strip cs \<noteq> [] then Some (''EFDI-'' @ src @ ''-'' @ py_strip cs)
        else do {
          la \<leftarrow> fmt_5f (get_or track ''lat_deg'' (VInt 0));
          lo \<leftarrow> fmt_5f (get_or track ''lon_deg'' (VInt 0));
          Some (''EFDI-'' @ src @ ''-'' @ la @ ''-'' @ lo)
        })
     })"

definition name_keys :: "string list" where
  "name_keys = [''name'', ''ship_name'', ''sat_name'', ''sensor_name'']"

definition cot_callsign :: "(pyval \<Rightarrow> string) \<Rightarrow> dict \<Rightarrow> string \<Rightarrow> string option" where
  "cot_callsign rp track uid = (case find (\<lambda>k. holds track k \<and> py_strip (py_str rp (val_of track k)) \<noteq> []) name_keys of
     Some k \<Rightarrow> Some (py_strip (py_str rp (val_of track k)))
   | None \<Rightarrow> do {
       reg \<leftarrow> str_field track ''registration'';
       atype \<leftarrow> str_field track ''aircraft_type'';
       cs \<leftarrow> str_field track (if holds track ''callsign'' then ''callsign'' else ''label'');
       let reg = py_strip reg;
       let atype = py_strip atype;
       let label = (if reg \<noteq> [] then reg
         else if \<not> absent track ''track_num'' then ''TRK-'' @ py_str rp (val_of track ''track_num'') else py_strip cs);
       (if label \<noteq> [] \<and> atype \<noteq> [] then Some (label @ '' ('' @ atype @ '')'')
        else if label \<noteq> [] then Some label
        else if atype \<noteq> [] then Some atype
        else do {
          place \<leftarrow> str_field track ''place_name'';
          Some (if py_strip place \<noteq> [] then py_strip place
            else if holds track ''mmsi'' then py_str rp (val_of track ''mmsi'') else drop (length uid - 12) uid)
        })
     })"

subsection \<open>Colours of a shape\<close>

text \<open>A colour with its opacity, as a signed number of 32 bits.\<close>

definition argb :: "int \<Rightarrow> int \<Rightarrow> int" where
  "argb alpha rgb = (let v = alpha * 2 ^ 24 + rgb in if v \<ge> 2 ^ 31 then v - 2 ^ 32 else v)"

type_synonym palette = "(string \<times> int \<times> int) list"

definition level_alpha :: "(string \<times> int) list" where
  "level_alpha = [(''white'', 0x1A), (''yellow'', 0x26), (''orange'', 0x26), (''red'', 0x33)]"

definition fill :: "string \<Rightarrow> int \<Rightarrow> int" where
  "fill level rgb = argb (case map_of level_alpha level of None \<Rightarrow> 0 | Some a \<Rightarrow> a) rgb"

definition zone_colors :: palette where
  "zone_colors = [(''red'', argb 0xFF 0xFF2020, fill ''red'' 0xFF2020), (''orange'', argb 0xFF 0xFF8C00, fill ''orange'' 0xFF8C00),
     (''yellow'', argb 0xFF 0xFFD000, fill ''yellow'' 0xFFD000), (''white'', argb 0xCC 0xFFFFFF, fill ''white'' 0xFFFFFF)]"

definition wash_colors :: palette where
  "wash_colors = [(''red'', argb 0x55 0xFF2020, fill ''red'' 0xFF2020), (''orange'', argb 0x55 0xFF8C00, fill ''orange'' 0xFF8C00),
     (''yellow'', argb 0x55 0xFFD000, fill ''yellow'' 0xFFD000), (''white'', argb 0x55 0xFFFFFF, fill ''white'' 0xFFFFFF)]"

definition country_colors :: palette where
  "country_colors = [(''red'', argb 0xB0 0xFF2020, fill ''red'' 0xFF2020), (''orange'', argb 0xB0 0xFF8C00, fill ''orange'' 0xFF8C00)]"

definition border_colors :: palette where
  "border_colors = [(''red'', argb 0xFF 0xFF2020, 0), (''blue'', argb 0xFF 0x2060FF, 0)]"

definition trail_colors :: palette where
  "trail_colors = [(''orange'', argb 0xCC 0xFF8C00, 0), (''red'', argb 0xCC 0xFF2020, 0)]"

text \<open>A value as the key of a dictionary whose keys are texts: \<open>None\<close> is the \<open>TypeError\<close> of a list or a dictionary.\<close>

definition text_key :: "pyval \<Rightarrow> string option option" where
  "text_key v = (case v of VStr s \<Rightarrow> Some (Some s) | VList _ \<Rightarrow> None | VDict _ \<Rightarrow> None | _ \<Rightarrow> Some None)"

definition shape_colors :: "dict \<Rightarrow> palette option" where
  "shape_colors track = map_option (\<lambda>style. case style of
       Some s \<Rightarrow> if s = ''wash'' then wash_colors else if s = ''country'' then country_colors
         else if s = ''border'' then border_colors else if s = ''trail'' then trail_colors else zone_colors
     | None \<Rightarrow> zone_colors) (text_key (val_of track ''shape_style''))"

text \<open>The stroke and the fill of a track's colour, if its palette has it.\<close>

definition shape_color :: "dict \<Rightarrow> (int \<times> int) option option" where
  "shape_color track = do {
     palette \<leftarrow> shape_colors track;
     c \<leftarrow> text_key (val_of track ''shape_color'');
     Some (c \<bind> map_of palette)
   }"

subsection \<open>The geometry of a shape\<close>

definition max_shape_points :: nat where "max_shape_points = 20000"

text \<open>A position: \<open>None\<close> when it has fewer than two coordinates, else its two coordinates as they are.\<close>

definition position :: "pyval \<Rightarrow> (pyval \<times> pyval) option" where
  "position c = (case c of VList (lon # lat # _) \<Rightarrow> Some (lon, lat) | _ \<Rightarrow> None)"

text \<open>A vertex of a plain shape; one that is no position on the globe is left out.\<close>

definition shape_point :: "dict \<Rightarrow> pyval \<Rightarrow> xml list" where
  "shape_point track c = (case position c of
     None \<Rightarrow> []
   | Some (lon, lat) \<Rightarrow> (case (py_float lon, py_float lat) of
       (Some x, Some y) \<Rightarrow> if \<bar>x\<bar> \<le> 180 \<and> \<bar>y\<bar> \<le> 90
         then [Elem ''point'' [(''lat'', ANum (py_round y 6)), (''lon'', ANum (py_round x 6)), (''hae'', ANum (hae track)),
           (''ce'', ANum (circular_error track)), (''le'', ANum (linear_error track))] []] else []
     | _ \<Rightarrow> []))"

definition link_point :: "dict \<Rightarrow> real \<times> real \<Rightarrow> xml" where
  "link_point track p = Elem ''link'' [(''point'', APoint (fst p) (snd p) (hae track))] []"

text \<open>The vertices of a trail: one that is no number is left out.\<close>

definition trail_vertex :: "pyval \<Rightarrow> (real \<times> real) list" where
  "trail_vertex c = (case position c of
     None \<Rightarrow> []
   | Some (lon, lat) \<Rightarrow> (case (py_float lon, py_float lat) of
       (Some x, Some y) \<Rightarrow> [(py_round y 6, py_round x 6)] | _ \<Rightarrow> []))"

text \<open>The vertices of a zone: one that is no number raises.\<close>

fun zone_vertices :: "pyval list \<Rightarrow> (real \<times> real) list option" where
  "zone_vertices [] = Some []"
| "zone_vertices (c # cs) = (case position c of
     None \<Rightarrow> zone_vertices cs
   | Some (lon, lat) \<Rightarrow> do {
       y \<leftarrow> py_float lat;
       x \<leftarrow> py_float lon;
       rest \<leftarrow> zone_vertices cs;
       Some ((py_round y 6, py_round x 6) # rest)
     })"

definition closed_ring :: "(real \<times> real) list \<Rightarrow> (real \<times> real) list" where
  "closed_ring ring = (if ring \<noteq> [] \<and> hd ring \<noteq> last ring then ring @ [hd ring] else ring)"

definition value_elem :: "string \<Rightarrow> attr \<Rightarrow> xml" where
  "value_elem name v = Elem name [(''value'', v)] []"

definition shape_extras :: xml where
  "shape_extras = Elem ''__shapeExtras'' [(''cpvis'', AStr ''false''), (''editable'', AStr ''false'')] []"

definition list_of :: "pyval \<Rightarrow> pyval list option" where
  "list_of v = (case v of VList vs \<Rightarrow> Some vs | _ \<Rightarrow> None)"

definition trail_detail :: "dict \<Rightarrow> pyval list \<Rightarrow> xml list option" where
  "trail_detail track coordinates = do {
     c \<leftarrow> text_key (val_of track ''shape_color'');
     let stroke = (case c \<bind> map_of trail_colors of Some (s, f) \<Rightarrow> s | None \<Rightarrow> argb 0xCC 0xFF8C00);
     Some (map (link_point track) (concat (map trail_vertex (take max_shape_points coordinates))) @
       [value_elem ''strokeColor'' (AInt stroke), value_elem ''strokeWeight'' (AStr ''2.0''), value_elem ''fillColor'' (AStr ''0''),
        value_elem ''color'' (AInt stroke), shape_extras])
   }"

definition zone_detail :: "dict \<Rightarrow> int \<times> int \<Rightarrow> pyval \<Rightarrow> xml list option" where
  "zone_detail track colors coordinates = do {
     ring \<leftarrow> (case coordinates of
         VList (VList r # _) \<Rightarrow> Some r
       | VList (VStr _ # _) \<Rightarrow> Some []
       | VStr (_ # _) \<Rightarrow> Some []
       | _ \<Rightarrow> None);
     vs \<leftarrow> zone_vertices (take max_shape_points ring);
     let weight = (case val_of track ''shape_style'' of VStr s \<Rightarrow> if s = ''wash'' then ''1.0'' else if s = ''country'' then ''2.0'' else ''3.0''
       | _ \<Rightarrow> ''3.0'');
     Some (map (link_point track) (closed_ring vs) @
       [shape_extras, value_elem ''strokeColor'' (AInt (fst colors)), value_elem ''strokeWeight'' (AStr weight),
        value_elem ''color'' (AInt (fst colors)), value_elem ''fillColor'' (AInt (snd colors))])
   }"

definition line_shape :: "dict \<Rightarrow> bool \<Rightarrow> pyval \<Rightarrow> xml list" where
  "line_shape track multi coordinates =
     (let first = (if multi then (case coordinates of VList [] \<Rightarrow> None | VList (l # _) \<Rightarrow> Some l | _ \<Rightarrow> None) else Some coordinates)
      in case first of
        None \<Rightarrow> []
      | Some l \<Rightarrow> [Elem ''shape'' [] [Elem ''line'' []
          (concat (map (shape_point track) (take max_shape_points (case l of VList cs \<Rightarrow> cs | _ \<Rightarrow> []))))]])"

text \<open>The elements of the geometry, and whether the event becomes a drawing; \<open>None\<close> raises.\<close>

definition geometry_detail :: "dict \<Rightarrow> (xml list \<times> bool) option" where
  "geometry_detail track = (case val_of track ''geometry'' of
     VDict g \<Rightarrow>
       (let ty = val_of g ''type''; coordinates = val_of g ''coordinates'' in
        if ty = VStr ''Polygon'' then do {
          color \<leftarrow> shape_color track;
          (case color of
             Some colors \<Rightarrow> map_option (\<lambda>d. (d, True)) (zone_detail track colors coordinates)
           | None \<Rightarrow> Some (case coordinates of
               VList (VList ring # _) \<Rightarrow> [Elem ''shape'' [] [Elem ''polygon'' []
                 (concat (map (shape_point track) (take max_shape_points ring)))]]
             | _ \<Rightarrow> [], False))
        }
        else if ty = VStr ''LineString'' \<and> val_of track ''shape_style'' = VStr ''trail'' \<and> list_of coordinates \<noteq> None then
          map_option (\<lambda>d. (d, True)) (list_of coordinates \<bind> trail_detail track)
        else do {
          t \<leftarrow> text_key ty;
          Some (if t = Some ''LineString'' then line_shape track False coordinates
            else if t = Some ''MultiLineString'' then line_shape track True coordinates else [], False)
        })
   | _ \<Rightarrow> Some ([], False))"

subsection \<open>The event\<close>

definition access_of :: "(pyval \<Rightarrow> string) \<Rightarrow> dict \<Rightarrow> (string \<times> attr) list" where
  "access_of rp track =
     (let parts = map (\<lambda>k. py_str rp (val_of track k)) (filter (holds track) [''classification'', ''classification_caveat''])
      in if parts = [] then [] else [(''access'', AStr (py_join '' '' parts))])"

definition trunc :: "real \<Rightarrow> int" where
  "trunc x = (if x \<ge> 0 then \<lfloor>x\<rfloor> else \<lceil>x\<rceil>)"

text \<open>The range of a radar in metres, or 0.\<close>

definition radar_range :: "dict \<Rightarrow> int" where
  "radar_range track = (case py_float (if holds track ''radar_range_m'' then val_of track ''radar_range_m'' else VInt 0) of
     None \<Rightarrow> 0
   | Some x \<Rightarrow> if 0 < trunc x \<and> trunc x \<le> 1000000 then trunc x else 0)"

definition sensor_elem :: "string \<Rightarrow> string \<Rightarrow> int \<Rightarrow> int \<Rightarrow> xml" where
  "sensor_elem vfov fov rng az = Elem ''sensor''
     [(''vfov'', AStr vfov), (''fov'', AStr fov), (''hfov'', AStr fov), (''range'', AInt rng), (''azimuth'', AInt az),
      (''model'', AStr ''Generic''), (''ranges'', AStr ''0''), (''type'', AStr ''radar''),
      (''displayMagneticReference'', AStr ''0''), (''stockTool'', AStr ''false'')] []"

definition sensor_detail :: "dict \<Rightarrow> xml list option" where
  "sensor_detail track = (let rng = radar_range track in
     if \<not> absent track ''sweep_azimuth_deg'' \<and> rng \<noteq> 0
     then map_option (\<lambda>az. [sensor_elem ''1'' ''5'' rng (round_half_even az)]) (py_float (val_of track ''sweep_azimuth_deg''))
     else if val_of track ''sensor_type'' = VStr ''radar'' \<and> rng \<noteq> 0 then Some [sensor_elem ''90'' ''360'' rng 0]
     else map_option (\<lambda>r. if r > 0 then [sensor_elem ''90'' ''360'' (trunc (r * 1000)) 0] else [])
       (number (get_or track ''radius_km'' (VInt 0))))"

definition snapshot_detail :: "dict \<Rightarrow> xml list" where
  "snapshot_detail track = (case val_of track ''snapshot_url'' of
     VStr url \<Rightarrow> if starts_with ''https://'' url \<and> length url \<le> 2048
       then [Elem ''link'' [(''url'', AStr url), (''type'', AStr ''image/jpeg''), (''relation'', AStr ''r-u'')] []] else []
   | _ \<Rightarrow> [])"

text \<open>The numbers an event needs: latitude, longitude and time; \<open>clock\<close> stands for a missing time.\<close>

definition placed_at :: "dict \<Rightarrow> real \<Rightarrow> (real \<times> real \<times> real) option" where
  "placed_at track clock = do {
     lat \<leftarrow> py_float (val_of track ''lat_deg'');
     lon \<leftarrow> py_float (val_of track ''lon_deg'');
     now \<leftarrow> py_float (get_or track ''_ts'' (VFloat clock));
     (if \<bar>lat\<bar> \<le> 90 \<and> \<bar>lon\<bar> \<le> 180 then Some (lat, lon, now) else None)
   }"

type_synonym panel = "dict \<Rightarrow> string \<Rightarrow> string option"

definition track_to_cot ::
  "(pyval \<Rightarrow> string) \<Rightarrow> panel \<Rightarrow> (string \<Rightarrow> string option) \<Rightarrow> dict \<Rightarrow> string \<Rightarrow> real \<Rightarrow> real \<Rightarrow> xml option option" where
  "track_to_cot rp remarks icons track cot_type stale_s clock = (case placed_at track clock of
     None \<Rightarrow> Some None
   | Some (lat, lon, now) \<Rightarrow>
       if stale_s \<le> 0 then Some None
       else do {
         uid \<leftarrow> cot_uid rp track;
         cs \<leftarrow> cot_callsign rp track uid;
         (shape, drawn) \<leftarrow> geometry_detail track;
         sensor \<leftarrow> sensor_detail track;
         text \<leftarrow> remarks track cot_type;
         Some (Some (Elem ''event''
           ([(''version'', AStr ''2.0''), (''uid'', AStr uid), (''type'', AStr (if drawn then ''u-d-f'' else cot_type)),
             (''how'', AStr (if drawn then ''h-e'' else ''m-g'')), (''time'', ATime now), (''start'', ATime now), (''stale'', ATime (now + stale_s))] @
            access_of rp track)
           [Elem ''point'' [(''lat'', ANum (py_round lat 6)), (''lon'', ANum (py_round lon 6)), (''hae'', ANum (hae track)),
              (''ce'', ANum (circular_error track)), (''le'', ANum (linear_error track))] [],
            Elem ''detail'' []
              ([Elem ''efdi'' [(''role'', AStr ''fabric-export'')] []] @ shape @
               (case icons cot_type of None \<Rightarrow> [] | Some i \<Rightarrow> [Elem ''usericon'' [(''b64image'', AStr i)] []]) @
               [Elem ''contact'' [(''callsign'', AStr cs)] [], Elem ''track'' [(''speed'', ANum (speed_of track)), (''course'', ANum (course track))] []] @
               sensor @ [Elem ''remarks'' [] [Content text]] @ snapshot_detail track)]))
       })"

definition delete_point_cot :: "string \<Rightarrow> real \<Rightarrow> string \<Rightarrow> xml" where
  "delete_point_cot uid now link_type = Elem ''event''
     [(''version'', AStr ''2.0''), (''uid'', AStr uid), (''type'', AStr ''t-x-d-d''), (''how'', AStr ''m-g''),
      (''time'', ATime now), (''start'', ATime now), (''stale'', ATime now)]
     [Elem ''point'' [(''lat'', AStr ''0.0''), (''lon'', AStr ''0.0''), (''hae'', AStr ''0.0''), (''ce'', AStr ''9999999.0''), (''le'', AStr ''9999999.0'')] [],
      Elem ''detail'' [] [Elem ''link'' [(''relation'', AStr ''p-p''), (''uid'', AStr uid), (''type'', AStr link_type)] [], Elem ''__forcedelete'' [] []]]"

definition track_stale_s :: "dict \<Rightarrow> real \<Rightarrow> real" where
  "track_stale_s track usual = (case py_float (val_of track ''stale_s'') of
     None \<Rightarrow> usual | Some w \<Rightarrow> if 1 \<le> w \<and> w \<le> 3600 then w else usual)"

subsection \<open>Events that fit\<close>

definition max_cot_bytes :: nat where "max_cot_bytes = 65000"

text \<open>A ring of numbers; \<open>None\<close> is the \<open>TypeError\<close> of a position that holds something else.\<close>

definition ring_numbers :: "pyval list \<Rightarrow> real list list option" where
  "ring_numbers cs = those (map (\<lambda>c. list_of c \<bind> (\<lambda>ns. those (map number ns))) (filter (\<lambda>c. position c \<noteq> None) cs))"

definition simplified_track :: "dict \<Rightarrow> (real \<times> real) list \<Rightarrow> dict" where
  "simplified_track track ps = AList.update ''geometry'' (VDict [(''type'', VStr ''Polygon''),
     (''coordinates'', VList [VList (map (\<lambda>(x, y). VList [VFloat x, VFloat y]) ps)])]) track"

text \<open>\<open>render\<close> is the event of a track, \<open>octets\<close> the length of its text.\<close>

function fit_zone ::
  "(dict \<Rightarrow> xml option option) \<Rightarrow> (xml \<Rightarrow> nat) \<Rightarrow> dict \<Rightarrow> real list list \<Rightarrow> nat \<Rightarrow> xml list option" where
  "fit_zone render octets track ring budget =
     (if budget < 8 then Some []
      else do {
        ps \<leftarrow> simplify_ring ring budget;
        fitted \<leftarrow> render (simplified_track track ps);
        (case fitted of
           Some x \<Rightarrow> if octets x < max_cot_bytes then Some [x] else fit_zone render octets track ring (budget * 95 div 100)
         | None \<Rightarrow> fit_zone render octets track ring (budget * 95 div 100))
      })"
  by pat_completeness auto
termination by (relation "measure (\<lambda>(r, s, t, ring, budget). budget)") auto

declare fit_zone.simps [simp del]

definition shape_cots ::
  "(pyval \<Rightarrow> string) \<Rightarrow> panel \<Rightarrow> (string \<Rightarrow> string option) \<Rightarrow> (xml \<Rightarrow> nat) \<Rightarrow> dict \<Rightarrow> string \<Rightarrow> real \<Rightarrow> real \<Rightarrow> xml list option" where
  "shape_cots rp remarks icons octets track cot_type stale_s clock =
     (let render = (\<lambda>t. track_to_cot rp remarks icons t cot_type stale_s clock) in
      do {
        event \<leftarrow> render track;
        (case (event, val_of track ''geometry'') of
           (None, _) \<Rightarrow> Some []
         | (Some x, VDict g) \<Rightarrow>
             if octets x < max_cot_bytes \<or> val_of g ''type'' \<noteq> VStr ''Polygon'' then Some [x]
             else do {
               cs \<leftarrow> (case val_of g ''coordinates'' of VList (VList cs # _) \<Rightarrow> Some cs | VList (VStr _ # _) \<Rightarrow> Some []
                 | VList (VDict _ # _) \<Rightarrow> Some [] | VStr (_ # _) \<Rightarrow> Some [] | _ \<Rightarrow> None);
               ring \<leftarrow> ring_numbers cs;
               fit_zone render octets track ring (length ring * max_cot_bytes div octets x)
             }
         | (Some x, _) \<Rightarrow> Some [x])
      })"

lemma fit_zone_fits: "fit_zone render octets track ring budget = Some es \<Longrightarrow>
    es = [] \<or> (\<exists>x ps. es = [x] \<and> octets x < max_cot_bytes \<and> render (simplified_track track ps) = Some (Some x))"
proof (induction render octets track ring budget rule: fit_zone.induct)
  case (1 render octets track ring budget)
  show ?case
  proof (cases "budget < 8")
    case True
    with "1.prems" show ?thesis by (simp add: fit_zone.simps [of render octets track ring budget])
  next
    case False
    then obtain ps fitted where ps: "simplify_ring ring budget = Some ps" "render (simplified_track track ps) = Some fitted"
      using "1.prems" by (auto simp: fit_zone.simps [of render octets track ring budget] split: bind_splits)
    show ?thesis
      using "1.prems" "1.IH" [OF False ps] ps False
      by (cases fitted) (auto simp: fit_zone.simps [of render octets track ring budget] split: if_splits)
  qed
qed

subsection \<open>What an event holds\<close>

definition attr_of :: "xml \<Rightarrow> string \<Rightarrow> attr option" where
  "attr_of x k = (case x of Elem n as cs \<Rightarrow> map_of as k | Content t \<Rightarrow> None)"

definition child :: "xml \<Rightarrow> string \<Rightarrow> xml option" where
  "child x n = (case x of Elem m as cs \<Rightarrow> find (\<lambda>c. case c of Elem m bs ds \<Rightarrow> m = n | Content t \<Rightarrow> False) cs | Content t \<Rightarrow> None)"

definition placed_event :: "xml \<Rightarrow> bool" where
  "placed_event x \<longleftrightarrow> (\<exists>p lat lon ce le. child x ''point'' = Some p \<and> attr_of p ''lat'' = Some (ANum lat) \<and>
     attr_of p ''lon'' = Some (ANum lon) \<and> attr_of p ''ce'' = Some (ANum ce) \<and> attr_of p ''le'' = Some (ANum le) \<and>
     \<bar>lat\<bar> \<le> 90 \<and> \<bar>lon\<bar> \<le> 180 \<and> 0 \<le> ce \<and> 0 \<le> le)"

definition lives_for :: "xml \<Rightarrow> real \<Rightarrow> bool" where
  "lives_for x stale_s \<longleftrightarrow> 0 < stale_s \<and>
     (\<exists>now. attr_of x ''time'' = Some (ATime now) \<and> attr_of x ''stale'' = Some (ATime (now + stale_s)))"

lemma first_number_test: "first_number P d ks = Some x \<Longrightarrow> P x"
  by (induction P d ks rule: first_number.induct) (auto split: option.splits if_splits)

lemma py_round_nonneg: "0 \<le> x \<Longrightarrow> 0 \<le> py_round x n"
  using round_half_even_ge [of 0 "x * 10 ^ n"] by (simp add: py_round_def)

lemma first_radius_nonneg: "first_radius d ks = Some r \<Longrightarrow> 0 \<le> r"
  by (induction d ks rule: first_radius.induct) (auto split: option.splits)

lemma errors_nonneg: "0 \<le> circular_error track" "0 \<le> linear_error track"
  by (auto simp: circular_error_def linear_error_def unknown_error_def split: option.split
    dest!: first_number_test first_radius_nonneg intro: py_round_nonneg)

lemma track_to_cot_event:
  assumes "track_to_cot rp remarks icons track cot_type stale_s clock = Some (Some x)"
  shows "placed_event x \<and> lives_for x stale_s \<and> map_option AStr (cot_uid rp track) = attr_of x ''uid'' \<and>
    attr_of x ''type'' \<in> {Some (AStr cot_type), Some (AStr ''u-d-f'')}"
proof -
  obtain lat lon now where p: "placed_at track clock = Some (lat, lon, now)"
    using assms by (auto simp: track_to_cot_def split: option.splits)
  then have range: "\<bar>lat\<bar> \<le> 90" "\<bar>lon\<bar> \<le> 180" by (auto simp: placed_at_def split: bind_splits if_splits)
  have stale: "0 < stale_s" using assms p by (auto simp: track_to_cot_def split: if_splits)
  obtain uid as drawn d where x: "cot_uid rp track = Some uid"
    "x = Elem ''event'' ([(''version'', AStr ''2.0''), (''uid'', AStr uid), (''type'', AStr (if drawn then ''u-d-f'' else cot_type)),
       (''how'', AStr (if drawn then ''h-e'' else ''m-g'')), (''time'', ATime now), (''start'', ATime now), (''stale'', ATime (now + stale_s))] @ as)
      [Elem ''point'' [(''lat'', ANum (py_round lat 6)), (''lon'', ANum (py_round lon 6)), (''hae'', ANum (hae track)),
        (''ce'', ANum (circular_error track)), (''le'', ANum (linear_error track))] [], Elem ''detail'' [] d]"
    using assms p stale by (auto simp: track_to_cot_def split: bind_splits)
  have "\<bar>py_round lat 6\<bar> \<le> 90" "\<bar>py_round lon 6\<bar> \<le> 180"
    using range py_round_between [of "- 90" lat 90 6] py_round_between [of "- 180" lon 180 6] by (auto simp: abs_le_iff)
  then show ?thesis
    using x stale errors_nonneg [of track] by (simp add: placed_event_def lives_for_def attr_of_def child_def)
qed

lemma val_of_update [simp]: "val_of (AList.update k v d) j = (if j = k then v else val_of d j)"
  by (simp add: val_of_def dget_def update_conv')

lemma holds_update: "j \<noteq> k \<Longrightarrow> holds (AList.update k v d) j = holds d j"
  by (simp add: holds_def dget_def update_conv')

lemma get_or_update: "j \<noteq> k \<Longrightarrow> get_or (AList.update k v d) j w = get_or d j w"
  by (simp add: get_or_def dget_def update_conv')

lemma simplified_track_uid: "cot_uid rp (simplified_track track ps) = cot_uid rp track"
  unfolding simplified_track_def cot_uid_def uid_keys_def str_field_def by (simp add: holds_update get_or_update cong: if_cong)

lemma shape_cots_sent:
  assumes "shape_cots rp remarks icons octets track cot_type stale_s clock = Some es"
  shows "es = [] \<or> (\<exists>x. es = [x] \<and> placed_event x \<and> lives_for x stale_s \<and> map_option AStr (cot_uid rp track) = attr_of x ''uid'' \<and>
    (\<forall>g. val_of track ''geometry'' = VDict g \<longrightarrow> val_of g ''type'' = VStr ''Polygon'' \<longrightarrow> octets x < max_cot_bytes))"
proof -
  let ?r = "\<lambda>t. track_to_cot rp remarks icons t cot_type stale_s clock"
  have "es = [] \<or> (\<exists>x. es = [x] \<and> (?r track = Some (Some x) \<or> (\<exists>ps. ?r (simplified_track track ps) = Some (Some x))) \<and>
    (\<forall>g. val_of track ''geometry'' = VDict g \<longrightarrow> val_of g ''type'' = VStr ''Polygon'' \<longrightarrow> octets x < max_cot_bytes))"
    using assms by (fastforce simp: shape_cots_def Let_def split: bind_splits option.splits pyval.splits if_splits dest!: fit_zone_fits)
  then show ?thesis
    using track_to_cot_event simplified_track_uid by fastforce
qed

text \<open>
  C37: What a layer sends for a track is a valid event that fits. It is one event or none; its
  point lies on the globe with error radii that are not negative, it bears the identity of the track, it
  stays valid for the time asked for, which is positive; and the event of a zone, simplified if it was too
  large, is below the size that the server takes.
\<close>

theorem cot_events_valid:
  assumes "shape_cots rp remarks icons octets track cot_type stale_s clock = Some es"
  shows "length es \<le> 1 \<and> (\<forall>x \<in> set es. placed_event x \<and> lives_for x stale_s \<and>
    map_option AStr (cot_uid rp track) = attr_of x ''uid'' \<and>
    (\<forall>g. val_of track ''geometry'' = VDict g \<longrightarrow> val_of g ''type'' = VStr ''Polygon'' \<longrightarrow> octets x < max_cot_bytes))"
  using shape_cots_sent [OF assms] by auto

definition demo_mark :: dict where
  "demo_mark = [(''uid'', VStr ''a1''), (''lat_deg'', VFloat 50), (''lon_deg'', VFloat 30), (''_ts'', VFloat 7)]"

lemma demo_mark_fields: "placed_at demo_mark clock = Some (50, 30, 7)" "cot_uid rp demo_mark = Some (''EFDI-UID-'' @ py_upper ''a1'')"
  "cot_callsign rp demo_mark uid = Some (drop (length uid - 12) uid)" "geometry_detail demo_mark = Some ([], False)"
  "sensor_detail demo_mark = Some []"
  by (simp_all add: placed_at_def demo_mark_def val_of_def dget_def get_or_def py_float_def cot_uid_def uid_keys_def holds_def
    truthy_def py_str_def cot_callsign_def name_keys_def str_field_def absent_def geometry_detail_def sensor_detail_def radar_range_def
    trunc_def number_def py_strip_def strip_by_def Let_def)

lemma demo_mark_sent: "\<exists>x. shape_cots rp (\<lambda>d t. Some []) (\<lambda>t. None) (\<lambda>x. 100) demo_mark ''a-u-G'' 60 0 = Some [x]"
  by (simp add: shape_cots_def track_to_cot_def demo_mark_fields max_cot_bytes_def split: pyval.split)

theorem cot_events_valid_witness:
  "\<exists>x. shape_cots (\<lambda>v. []) (\<lambda>d t. Some []) (\<lambda>t. None) (\<lambda>x. 100) demo_mark ''a-u-G'' 60 0 = Some [x] \<and> placed_event x \<and> lives_for x 60"
proof -
  obtain x where x: "shape_cots (\<lambda>v. []) (\<lambda>d t. Some []) (\<lambda>t. None) (\<lambda>x. 100) demo_mark ''a-u-G'' 60 0 = Some [x]"
    using demo_mark_sent by blast
  from cot_events_valid [OF x] x show ?thesis by auto
qed

end
