(* ===== verification/Tak_Layer.thy ===== *)
theory Tak_Layer
  imports Tak_Cot
begin

text \<open>
  The TAK layer (\<open>tak_layer.py\<close>): the handlers of track samples and of radar status, the retraction of
  trails whose marker is gone, and the dead reckoning between samples. The document of a sample is the
  parsed payload, \<open>None\<close> when it is no JSON; a handler returns the state it leaves and the events it sends,
  \<open>None\<close> when it raises (the state such a handler leaves is not described). The test for a drawing looks
  at the type of the event; the code looks for it in the first 400 characters of its text.
\<close>

subsection \<open>State\<close>

record dr_entry =
  e_track :: dict
  e_type :: string
  e_stale :: real
  e_ts :: real
  e_lat :: pyval
  e_lon :: pyval

record tak_state =
  dr_store :: "(string \<times> dr_entry) list"
  drawn_uids :: "string list"
  marker_memory :: markers
  holds_back :: suppressions
  marker_seen :: "(string \<times> real) list"
  trail_sent :: "(string \<times> real) list"
  radar_status :: "(string \<times> dict) list"

text \<open>What the layer is given: the representation of values, the remarks panel (from the status of the radars), the
  marker art, the length of a text, and the configured times and limits.\<close>

record tak_env =
  rep :: "pyval \<Rightarrow> string"
  panel_of :: "(string \<times> dict) list \<Rightarrow> panel"
  icons_of :: "string \<Rightarrow> string option"
  octets_of :: "xml \<Rightarrow> nat"
  drop_ingress :: bool
  orphan_s :: real
  marker_hold :: real
  marker_limit :: nat
  twin_ttl :: real

definition trail_suffix :: string where "trail_suffix = ''-TRAIL''"
definition land_stale_s :: real where "land_stale_s = 120"
definition dr_tick_s :: real where "dr_tick_s = 2"
definition dr_min_ms :: real where "dr_min_ms = 5.15"

definition render :: "tak_env \<Rightarrow> tak_state \<Rightarrow> dict \<Rightarrow> string \<Rightarrow> real \<Rightarrow> real \<Rightarrow> xml option option" where
  "render env st track cot_type stale_s clock = track_to_cot (rep env) (panel_of env (radar_status st)) (icons_of env) track cot_type stale_s clock"

definition forget_dr :: "string \<Rightarrow> tak_state \<Rightarrow> tak_state" where
  "forget_dr uid st = st\<lparr>dr_store := AList.delete uid (dr_store st)\<rparr>"

subsection \<open>Samples\<close>

text \<open>The time of a deletion: \<open>None\<close> is the \<open>TypeError\<close> of a time that is no number.\<close>

definition delete_time :: "dict \<Rightarrow> real \<Rightarrow> real option" where
  "delete_time track clock = (case val_of track ''_ts'' of VNone \<Rightarrow> Some clock | v \<Rightarrow> number v)"

definition tombstoned :: "tak_env \<Rightarrow> dict \<Rightarrow> real \<Rightarrow> tak_state \<Rightarrow> (tak_state \<times> xml list) option" where
  "tombstoned env track clock st = do {
     uid \<leftarrow> cot_uid (rep env) track;
     t \<leftarrow> delete_time track clock;
     let ty = (if uid \<in> set (drawn_uids st) \<or> ends_with trail_suffix uid then ''u-d-f'' else ''a-u-G'');
     let trail = uid @ trail_suffix;
     let st = (forget_dr uid st)\<lparr>drawn_uids := removeAll uid (drawn_uids st), marker_seen := AList.delete uid (marker_seen st)\<rparr>;
     Some (if map_of (trail_sent st) trail = None then (st, [delete_point_cot uid t ty])
       else (st\<lparr>trail_sent := AList.delete trail (trail_sent st), drawn_uids := removeAll trail (drawn_uids st)\<rparr>,
         [delete_point_cot uid t ty, delete_point_cot trail t ''u-d-f'']))
   }"

definition offline_sensor :: "tak_env \<Rightarrow> dict \<Rightarrow> real \<Rightarrow> tak_state \<Rightarrow> (tak_state \<times> xml list) option" where
  "offline_sensor env track clock st = do {
     uid \<leftarrow> cot_uid (rep env) track;
     event \<leftarrow> render env st track ''a-n-G-E-S'' 1 clock;
     Some (forget_dr uid st, case event of None \<Rightarrow> [] | Some x \<Rightarrow> [x])
   }"

definition held_back :: "tak_env \<Rightarrow> dict \<Rightarrow> real \<Rightarrow> tak_state \<Rightarrow> (tak_state \<times> xml list) option" where
  "held_back env track clock st = do {
     uid \<leftarrow> cot_uid (rep env) track;
     t \<leftarrow> delete_time track clock;
     Some (forget_dr uid st, [delete_point_cot uid t ''a-u-G''])
   }"

text \<open>The type and the lifetime of a track: ATC ground stations and surface vehicles come first.\<close>

definition type_and_stale ::
  "tak_env \<Rightarrow> (dict \<Rightarrow> string option) \<Rightarrow> real \<Rightarrow> dict \<Rightarrow> (string \<times> real) option" where
  "type_and_stale env type_of stale_s track =
     (if is_adsb_surface_vehicle (rep env) track then Some (''a-n-G-E-V'', land_stale_s)
      else do {
        station \<leftarrow> is_ground_station track;
        (if station then Some (''a-n-G-E-S-R'', land_stale_s)
         else map_option (\<lambda>ty. (ty, track_stale_s track stale_s)) (type_of track))
      })"

definition is_drawing :: "xml \<Rightarrow> bool" where
  "is_drawing x \<longleftrightarrow> attr_of x ''type'' = Some (AStr ''u-d-f'')"

definition note_sent :: "string \<Rightarrow> xml \<Rightarrow> real \<Rightarrow> tak_state \<Rightarrow> tak_state" where
  "note_sent uid x clock st =
     (let st = (if is_drawing x then st\<lparr>drawn_uids := List.insert uid (drawn_uids st)\<rparr> else st)
      in if ends_with trail_suffix uid then st\<lparr>trail_sent := AList.update uid clock (trail_sent st)\<rparr>
         else st\<lparr>marker_seen := AList.update uid clock (marker_seen st)\<rparr>)"

definition reckoned :: "dict \<Rightarrow> bool" where
  "reckoned track \<longleftrightarrow> \<not> absent track ''lat_deg'' \<and> \<not> absent track ''lon_deg'' \<and> \<not> holds track ''_extrap'' \<and>
     val_of track ''_src'' \<noteq> VStr ''AARTOS''"

definition contact_of :: "dict \<Rightarrow> string \<Rightarrow> real \<Rightarrow> real \<Rightarrow> dr_entry" where
  "contact_of track ty stale now = \<lparr> e_track = track, e_type = ty, e_stale = stale, e_ts = now,
     e_lat = val_of track ''lat_deg'', e_lon = val_of track ''lon_deg'' \<rparr>"

definition draw_track ::
  "tak_env \<Rightarrow> (dict \<Rightarrow> string option) \<Rightarrow> real \<Rightarrow> dict \<Rightarrow> real \<Rightarrow> tak_state \<Rightarrow> (tak_state \<times> xml list) option" where
  "draw_track env type_of stale_s track clock st = do {
     (ty, stale) \<leftarrow> type_and_stale env type_of stale_s track;
     uid \<leftarrow> cot_uid (rep env) track;
     let (mem, ty) = settle (marker_hold env) (marker_limit env) uid ty clock (marker_memory st);
     let st = st\<lparr>marker_memory := mem\<rparr>;
     events \<leftarrow> shape_cots (rep env) (panel_of env (radar_status st)) (icons_of env) (octets_of env) track ty stale clock;
     (case events of
        [] \<Rightarrow> Some (st, [])
      | x # _ \<Rightarrow> do {
          now \<leftarrow> py_float (get_or track ''_ts'' (VFloat clock));
          let st = note_sent uid x clock st;
          Some (if reckoned track
            then st\<lparr>dr_store := AList.update uid (contact_of track ty stale now) (dr_store st)\<rparr>
            else st, events)
        })
   }"

definition on_track ::
  "tak_env \<Rightarrow> (dict \<Rightarrow> string option) \<Rightarrow> real \<Rightarrow> string \<Rightarrow> pyval option \<Rightarrow> real \<Rightarrow> tak_state \<Rightarrow> (tak_state \<times> xml list) option" where
  "on_track env type_of stale_s key doc clock st =
     (if terminal_view key \<in> set non_json_views then Some (st, [])
      else (case doc of
          None \<Rightarrow> Some (st, [])
        | Some (VDict track) \<Rightarrow>
            if val_of track ''_ingress'' = VStr ''tak_server'' \<and> drop_ingress env then Some (st, [])
            else if val_of track ''_src'' = VStr ''dronuradaras.lt'' \<and> holds track ''_delete'' then offline_sensor env track clock st
            else if holds track ''_delete'' then tombstoned env track clock st
            else if is_unfused_sensor_track (rep env) track key then Some (st, [])
            else if is_civil_copy (rep env) track key clock (holds_back st) then Some (st, [])
            else if is_suppressed (rep env) track clock (holds_back st) then held_back env track clock st
            else draw_track env type_of stale_s track clock st
        | Some _ \<Rightarrow> None))"

subsection \<open>Radar status\<close>

definition beam_track :: "(pyval \<Rightarrow> string) \<Rightarrow> dict \<Rightarrow> dict option" where
  "beam_track rp track = do {
     name \<leftarrow> (if holds track ''sensor_name'' then str_field track ''sensor_name'' else Some ''RADAR'');
     Some (puts track [(''sensor_id'', VStr (''BEAM-'' @ py_str rp (get_or track ''sensor_id'' (VStr ''RADAR'')))),
       (''sensor_name'', VStr (name @ '' BEAM''))])
   }"

definition note_status :: "(pyval \<Rightarrow> string) \<Rightarrow> dict \<Rightarrow> tak_state \<Rightarrow> tak_state" where
  "note_status rp track st =
     (if absent track ''sac'' \<or> dget track ''sweep_azimuth_deg'' \<noteq> None then st
      else let k = py_str rp (val_of track ''sac'') @ ''-'' @ (if absent track ''sic'' then ''0'' else py_str rp (val_of track ''sic''))
        in st\<lparr>radar_status := AList.update k track (radar_status st)\<rparr>)"

definition on_radar_status ::
  "tak_env \<Rightarrow> string \<Rightarrow> pyval option \<Rightarrow> real \<Rightarrow> tak_state \<Rightarrow> (tak_state \<times> xml list) option" where
  "on_radar_status env key doc clock st =
     (if terminal_view key \<in> set non_json_views then Some (st, [])
      else (case doc of
          None \<Rightarrow> Some (st, [])
        | Some (VDict track) \<Rightarrow>
            let ty = radar_cot_type track (contains_str ''/radar/neutral/radar'' key); st = note_status (rep env) track st in
            if dget track ''sweep_azimuth_deg'' \<noteq> None then
              (if \<not> holds track ''radar_range_m'' then Some (st, [])
               else do {
                 rot \<leftarrow> (if holds track ''rotation_s'' then py_float (val_of track ''rotation_s'') else Some 4);
                 beam \<leftarrow> beam_track (rep env) track;
                 event \<leftarrow> render env st beam ty (max (rot * 0.6) 1) clock;
                 Some (st, case event of None \<Rightarrow> [] | Some x \<Rightarrow> [x])
               })
            else do {
              event \<leftarrow> render env st track ty (land_stale_s * 2) clock;
              Some (st, case event of None \<Rightarrow> [] | Some x \<Rightarrow> [x])
            }
        | Some _ \<Rightarrow> None))"

subsection \<open>The background thread\<close>

text \<open>The last sign of life of a trail: of its marker if the layer has seen that, else of the trail itself.\<close>

definition parent_of :: "string \<Rightarrow> string" where
  "parent_of trail = take (length trail - length trail_suffix) trail"

definition last_life :: "tak_state \<Rightarrow> string \<Rightarrow> real \<Rightarrow> real" where
  "last_life st trail sent = (case map_of (marker_seen st) (parent_of trail) of
     Some seen \<Rightarrow> max seen 0 | None \<Rightarrow> max 0 sent)"

definition orphaned :: "tak_env \<Rightarrow> real \<Rightarrow> tak_state \<Rightarrow> string \<times> real \<Rightarrow> bool" where
  "orphaned env now st t \<longleftrightarrow> now - last_life st (fst t) (snd t) > orphan_s env"

definition retract_orphan_trails :: "tak_env \<Rightarrow> real \<Rightarrow> tak_state \<Rightarrow> tak_state \<times> xml list" where
  "retract_orphan_trails env now st =
     (let gone = filter (orphaned env now st) (trail_sent st) in
      (st\<lparr>trail_sent := filter (\<lambda>t. \<not> orphaned env now st t) (trail_sent st),
          drawn_uids := filter (\<lambda>u. u \<notin> fst ` set gone) (drawn_uids st),
          marker_seen := filter (\<lambda>(u, seen). \<not> now - seen > 3600) (marker_seen st)\<rparr>,
       map (\<lambda>(u, sent). delete_point_cot u now ''u-d-f'') gone))"

definition tak_extrapolate :: "real \<Rightarrow> real \<Rightarrow> real \<Rightarrow> real \<Rightarrow> real \<Rightarrow> real \<times> real" where
  "tak_extrapolate lat lon speed_ms heading_deg dt_s =
     (let d = speed_ms * dt_s; R = 6371000; az = radians heading_deg; la = radians lat; lo = radians lon;
          la2 = arcsin (sin la * cos (d / R) + cos la * sin (d / R) * cos az);
          lo2 = lo + atan2 (sin az * sin (d / R) * cos la) (cos (d / R) - sin la * sin la2)
      in (degrees la2, degrees lo2))"

definition moved_track :: "dict \<Rightarrow> real \<times> real \<Rightarrow> real \<Rightarrow> dict" where
  "moved_track track p now = puts track [(''lat_deg'', VFloat (fst p)), (''lon_deg'', VFloat (snd p)), (''_ts'', VFloat now),
     (''_extrap'', VBool True)]"

text \<open>One contact of a tick: \<open>None\<close> is an exception, which ends the thread.\<close>

definition reckon :: "tak_env \<Rightarrow> tak_state \<Rightarrow> real \<Rightarrow> dr_entry \<Rightarrow> xml list option" where
  "reckon env st now e =
     (let age = now - e_ts e; track = e_track e in
      if age < dr_tick_s \<or> age > e_stale e * 0.85 \<or> speed_of track < dr_min_ms \<or> e_lat e = VNone \<or> e_lon e = VNone then Some []
      else do {
        lat \<leftarrow> number (e_lat e);
        lon \<leftarrow> number (e_lon e);
        event \<leftarrow> render env st (moved_track track (tak_extrapolate lat lon (speed_of track) (course track) age) now) (e_type e) (dr_tick_s * 3) now;
        Some (case event of None \<Rightarrow> [] | Some x \<Rightarrow> [x])
      })"

fun reckon_all :: "tak_env \<Rightarrow> tak_state \<Rightarrow> real \<Rightarrow> (string \<times> dr_entry) list \<Rightarrow> xml list option" where
  "reckon_all env st now [] = Some []"
| "reckon_all env st now ((u, e) # es) = do {
     xs \<leftarrow> reckon env st now e;
     ys \<leftarrow> reckon_all env st now es;
     Some (xs @ ys)
   }"

definition dr_tick :: "tak_env \<Rightarrow> real \<Rightarrow> tak_state \<Rightarrow> (tak_state \<times> xml list) option" where
  "dr_tick env now st = (case retract_orphan_trails env now st of (st, gone) \<Rightarrow>
     map_option (\<lambda>xs. (st, gone @ xs)) (reckon_all env st now (dr_store st)))"

subsection \<open>The layer\<close>

datatype tak_event =
    Track_Sample "dict \<Rightarrow> string option" real string "pyval option"
  | Status_Sample string "pyval option"
  | Twin_Sample "pyval option"
  | Military_Sample "pyval option"
  | Tick

fun tak_step :: "tak_env \<Rightarrow> real \<Rightarrow> tak_event \<Rightarrow> tak_state \<Rightarrow> (tak_state \<times> xml list) option" where
  "tak_step env now (Track_Sample type_of stale_s key doc) st = on_track env type_of stale_s key doc now st"
| "tak_step env now (Status_Sample key doc) st = on_radar_status env key doc now st"
| "tak_step env now (Twin_Sample doc) st = Some (st\<lparr>holds_back := on_twin_sample (rep env) (twin_ttl env) doc now (holds_back st)\<rparr>, [])"
| "tak_step env now (Military_Sample doc) st = Some (st\<lparr>holds_back := on_military (rep env) (twin_ttl env) doc now (holds_back st)\<rparr>, [])"
| "tak_step env now Tick st = dr_tick env now st"

fun tak_run :: "tak_env \<Rightarrow> (real \<times> tak_event) list \<Rightarrow> tak_state \<Rightarrow> (tak_state \<times> xml list) option" where
  "tak_run env [] st = Some (st, [])"
| "tak_run env ((now, e) # es) st = do {
     (st, xs) \<leftarrow> tak_step env now e st;
     (st, ys) \<leftarrow> tak_run env es st;
     Some (st, xs @ ys)
   }"

subsection \<open>What is sent for whom\<close>

definition is_deletion :: "xml \<Rightarrow> bool" where
  "is_deletion x \<longleftrightarrow> attr_of x ''type'' = Some (AStr ''t-x-d-d'')"

definition bears :: "xml \<Rightarrow> string \<Rightarrow> bool" where
  "bears x u \<longleftrightarrow> attr_of x ''uid'' = Some (AStr u)"

text \<open>A track whose identity does not depend on where it is.\<close>

definition identified :: "dict \<Rightarrow> bool" where
  "identified track \<longleftrightarrow> find (\<lambda>(k, p). holds track k) uid_keys \<noteq> None \<or>
     (case str_field track ''callsign'' of None \<Rightarrow> False | Some cs \<Rightarrow> py_strip cs \<noteq> [])"

definition well_kept :: "tak_env \<Rightarrow> tak_state \<Rightarrow> bool" where
  "well_kept env st \<longleftrightarrow> (\<forall>(k, e) \<in> set (dr_store st). identified (e_track e) \<and> cot_uid (rep env) (e_track e) = Some k)"

definition subject_of :: "tak_event \<Rightarrow> dict option" where
  "subject_of e = (case e of Track_Sample f s k (Some (VDict d)) \<Rightarrow> Some d | Status_Sample k (Some (VDict d)) \<Rightarrow> Some d | _ \<Rightarrow> None)"

text \<open>The events that may draw something under an identity: the samples of its own track and, for a radar, its sweeps.\<close>

definition concerns :: "tak_env \<Rightarrow> string \<Rightarrow> tak_event \<Rightarrow> bool" where
  "concerns env u e \<longleftrightarrow> (\<exists>d. subject_of e = Some d \<and>
     (cot_uid (rep env) d = Some u \<or> (\<exists>b. beam_track (rep env) d = Some b \<and> cot_uid (rep env) b = Some u)))"

definition named :: "tak_event \<Rightarrow> bool" where
  "named e \<longleftrightarrow> (\<forall>d. subject_of e = Some d \<longrightarrow> identified d)"

lemma moved_track_key: "find (\<lambda>(k, p). holds (moved_track track q now) k) uid_keys = find (\<lambda>(k, p). holds track k) uid_keys"
  unfolding moved_track_def uid_keys_def by (simp add: holds_update cong: if_cong)

lemma moved_track_kept:
  "j \<in> {''callsign'', ''_src'', ''icao24'', ''mmsi'', ''sat_id'', ''radar_id'', ''sensor_id'', ''uid''} \<Longrightarrow>
    val_of (moved_track track q now) j = val_of track j \<and> get_or (moved_track track q now) j w = get_or track j w \<and>
    holds (moved_track track q now) j = holds track j"
  unfolding moved_track_def by (auto simp: holds_update get_or_update)

lemma moved_track_uid:
  assumes "identified track"
  shows "cot_uid rp (moved_track track q now) = cot_uid rp track"
proof (cases "find (\<lambda>(k, p). holds track k) uid_keys")
  case (Some kp)
  then have "fst kp \<in> fst ` set uid_keys" by (metis find_Some_iff imageI nth_mem)
  then have "val_of (moved_track track q now) (fst kp) = val_of track (fst kp)"
    by (intro moved_track_kept [THEN conjunct1]) (auto simp: uid_keys_def)
  then show ?thesis by (simp add: cot_uid_def moved_track_key Some case_prod_beta)
next
  case None
  have cs: "str_field (moved_track track q now) ''callsign'' = str_field track ''callsign''"
    by (simp add: str_field_def moved_track_kept)
  from assms None obtain c where "str_field track ''callsign'' = Some c" "py_strip c \<noteq> []"
    by (auto simp: identified_def split: option.splits)
  with None cs show ?thesis by (simp add: cot_uid_def moved_track_key moved_track_kept)
qed

lemma delete_point_cot_attrs [simp]:
  "bears (delete_point_cot uid now ty) u \<longleftrightarrow> uid = u" "is_deletion (delete_point_cot uid now ty)"
  by (simp_all add: bears_def is_deletion_def delete_point_cot_def attr_of_def)

lemma track_to_cot_bears:
  "track_to_cot rp remarks icons track ty s c = Some (Some x) \<Longrightarrow> bears x u \<longleftrightarrow> cot_uid rp track = Some u"
  using track_to_cot_event [of rp remarks icons track ty s c x] by (auto simp: bears_def map_option_case split: option.splits)

lemma render_bears: "render env st track ty s c = Some (Some x) \<Longrightarrow> bears x u \<longleftrightarrow> cot_uid (rep env) track = Some u"
  unfolding render_def by (rule track_to_cot_bears)

lemma well_kept_forget: "well_kept env st \<Longrightarrow> well_kept env (forget_dr u st)"
  by (auto simp: well_kept_def forget_dr_def AList.delete_eq)

lemma forget_dr_forgets: "u \<notin> fst ` set (dr_store (forget_dr v st)) \<longleftrightarrow> u = v \<or> u \<notin> fst ` set (dr_store st)"
  by (auto simp: forget_dr_def AList.delete_eq)

subsection \<open>A deleted contact stays deleted\<close>

text \<open>What the layer must hold for nothing to be drawn under an identity: no contact of that identity is reckoned.\<close>

definition gone :: "tak_env \<Rightarrow> string \<Rightarrow> tak_state \<Rightarrow> bool" where
  "gone env u st \<longleftrightarrow> well_kept env st \<and> u \<notin> fst ` set (dr_store st)"

definition silent :: "string \<Rightarrow> xml list \<Rightarrow> bool" where
  "silent u xs \<longleftrightarrow> (\<forall>x \<in> set xs. bears x u \<longrightarrow> is_deletion x)"

lemma silent_simps [simp]:
  "silent u []" "silent u (x # xs) \<longleftrightarrow> (bears x u \<longrightarrow> is_deletion x) \<and> silent u xs" "silent u (xs @ ys) \<longleftrightarrow> silent u xs \<and> silent u ys"
  by (auto simp: silent_def)

lemma gone_forget: "gone env u st \<Longrightarrow> gone env u (forget_dr v st)"
  by (simp add: gone_def well_kept_forget forget_dr_forgets)

lemma gone_cong: "dr_store st = dr_store st' \<Longrightarrow> gone env u st = gone env u st'"
  by (simp add: gone_def well_kept_def)

lemma silent_render:
  "render env st track ty s c = Some ev \<Longrightarrow> cot_uid (rep env) track \<noteq> Some u \<Longrightarrow> silent u (case ev of None \<Rightarrow> [] | Some x \<Rightarrow> [x])"
  using render_bears [of env st track ty s c] by (auto split: option.split)

lemma tombstoned_store:
  "tombstoned env track clock st = Some (st', xs) \<Longrightarrow> cot_uid (rep env) track = Some v \<Longrightarrow> dr_store st' = dr_store (forget_dr v st)"
  by (auto simp: tombstoned_def Let_def split: bind_splits if_splits)

lemma tombstoned_silent:
  assumes "tombstoned env track clock st = Some (st', xs)" "well_kept env st"
  shows "silent u xs \<and> well_kept env st' \<and> (u \<notin> fst ` set (dr_store st) \<or> cot_uid (rep env) track = Some u \<longrightarrow> u \<notin> fst ` set (dr_store st'))"
proof -
  obtain v t where v: "cot_uid (rep env) track = Some v" "delete_time track clock = Some t"
    using assms(1) by (auto simp: tombstoned_def split: bind_splits)
  then have "dr_store st' = dr_store (forget_dr v st)" "silent u xs"
    using assms(1) tombstoned_store by (auto simp: tombstoned_def Let_def split: if_splits)
  then show ?thesis
    using v well_kept_forget [OF assms(2), of v] forget_dr_forgets [of u v st] by (auto simp: well_kept_def)
qed

lemma offline_silent:
  assumes "offline_sensor env track clock st = Some (st', xs)" "gone env u st" "cot_uid (rep env) track \<noteq> Some u"
  shows "silent u xs \<and> gone env u st'"
  using assms silent_render [of env st track _ _ clock]
  by (auto simp: offline_sensor_def gone_forget split: bind_splits)

lemma held_back_silent:
  assumes "held_back env track clock st = Some (st', xs)" "gone env u st"
  shows "silent u xs \<and> gone env u st'"
  using assms by (auto simp: held_back_def gone_forget split: bind_splits)

lemma note_sent_store [simp]: "dr_store (note_sent u x c st) = dr_store st"
  by (simp add: note_sent_def Let_def)

lemma contact_of_fields [simp]:
  "e_track (contact_of track ty stale now) = track" "e_type (contact_of track ty stale now) = ty"
  "e_stale (contact_of track ty stale now) = stale" "e_ts (contact_of track ty stale now) = now"
  "e_lat (contact_of track ty stale now) = val_of track ''lat_deg''" "e_lon (contact_of track ty stale now) = val_of track ''lon_deg''"
  by (simp_all add: contact_of_def)

text \<open>A drawn track: the event of its identity, and the store with at most its own contact renewed.\<close>

lemma draw_track_cases:
  assumes "draw_track env f s track clock st = Some (st', xs)"
  obtains (nothing) "xs = []" "dr_store st' = dr_store st"
    | (drawn) v x ty stale now where "cot_uid (rep env) track = Some v" "xs = [x]" "attr_of x ''uid'' = Some (AStr v)"
      "dr_store st' = (if reckoned track then AList.update v (contact_of track ty stale now) (dr_store st) else dr_store st)"
proof -
  obtain ty stale v mem ty' where d: "type_and_stale env f s track = Some (ty, stale)" "cot_uid (rep env) track = Some v"
      "settle (marker_hold env) (marker_limit env) v ty clock (marker_memory st) = (mem, ty')"
    using assms by (auto simp: draw_track_def split: bind_splits prod.splits)
  then obtain es where es: "shape_cots (rep env) (panel_of env (radar_status st)) (icons_of env) (octets_of env) track ty' stale clock = Some es"
    using assms by (auto simp: draw_track_def Let_def split: bind_splits)
  show thesis
  proof (cases es)
    case Nil
    with assms d es have "xs = [] \<and> dr_store st' = dr_store st" by (auto simp: draw_track_def Let_def)

    then have "xs = []" "dr_store st' = dr_store st" by simp_all
    then show thesis by (rule nothing)
  next
    case (Cons x zs)
    with shape_cots_sent [OF es] have x: "zs = []" "attr_of x ''uid'' = Some (AStr v)" by (auto simp: d)
    obtain now where now: "py_float (get_or track ''_ts'' (VFloat clock)) = Some now"
      using assms d es Cons by (auto simp: draw_track_def Let_def split: bind_splits)
    have "xs = [x]" "dr_store st' = (if reckoned track then AList.update v (contact_of track ty' stale now) (dr_store st) else dr_store st)"
      using assms d es Cons x(1) now by (auto simp: draw_track_def Let_def)
    with d(2) x(2) show thesis by (intro drawn) assumption+
  qed
qed

lemma draw_silent:
  assumes "draw_track env f s track clock st = Some (st', xs)" "gone env u st" "cot_uid (rep env) track \<noteq> Some u" "identified track"
  shows "silent u xs \<and> gone env u st'"
  using assms(1)
proof (cases rule: draw_track_cases)
  case nothing
  with assms(2) show ?thesis by (simp add: gone_cong [of st' st])
next
  case (drawn v x ty stale now)
  have "set (dr_store st') \<subseteq> insert (v, contact_of track ty stale now) (set (dr_store st))"
    using set_update_subset [of v "contact_of track ty stale now" "dr_store st"] by (auto simp: drawn)
  with assms drawn(1) have "gone env u st'" by (fastforce simp: gone_def well_kept_def)
  with drawn assms(3) show ?thesis by (auto simp: bears_def)
qed

lemma note_status_store [simp]: "dr_store (note_status rp d st) = dr_store st"
  by (simp add: note_status_def Let_def)

lemma on_track_silent:
  assumes "on_track env f s key doc clock st = Some (st', xs)" "gone env u st"
    "\<forall>d. doc = Some (VDict d) \<longrightarrow> identified d \<and> cot_uid (rep env) d \<noteq> Some u"
  shows "silent u xs \<and> gone env u st'"
proof (cases "terminal_view key \<in> set non_json_views \<or> doc = None")
  case True
  with assms show ?thesis by (auto simp: on_track_def split: if_splits)
next
  case False
  then obtain d where d: "doc = Some (VDict d)" using assms(1) by (auto simp: on_track_def split: pyval.splits)
  have t: "tombstoned env d clock st = Some (st', xs) \<Longrightarrow> silent u xs \<and> gone env u st'"
    using tombstoned_silent assms(2) by (simp add: gone_def)
  have u: "cot_uid (rep env) d \<noteq> Some u" "identified d" using assms(3) d by auto
  show ?thesis
    using assms(1,2) False d t offline_silent [OF _ assms(2) u(1)] held_back_silent [OF _ assms(2)] draw_silent [OF _ assms(2) u]
    by (auto simp: on_track_def split: if_splits)
qed

lemma on_status_silent:
  assumes "on_radar_status env key doc clock st = Some (st', xs)" "gone env u st"
    "\<forall>d b. doc = Some (VDict d) \<longrightarrow> cot_uid (rep env) d \<noteq> Some u \<and> (beam_track (rep env) d = Some b \<longrightarrow> cot_uid (rep env) b \<noteq> Some u)"
  shows "silent u xs \<and> gone env u st'"
proof (cases "terminal_view key \<in> set non_json_views \<or> doc = None")
  case True
  with assms show ?thesis by (auto simp: on_radar_status_def split: if_splits)
next
  case False
  then obtain d where d: "doc = Some (VDict d)" using assms(1) by (auto simp: on_radar_status_def split: pyval.splits)
  have "silent u xs \<and> dr_store st' = dr_store st"
    using assms(1,3) False d silent_render
    by (fastforce simp: on_radar_status_def Let_def split: if_splits bind_splits)
  with assms(2) show ?thesis by (simp add: gone_cong [of st' st])
qed

lemma reckon_silent:
  assumes "reckon env st now e = Some xs" "identified (e_track e)" "cot_uid (rep env) (e_track e) \<noteq> Some u"
  shows "silent u xs"
proof (cases "xs = []")
  case False
  then obtain p ev where ev: "render env st (moved_track (e_track e) p now) (e_type e) (dr_tick_s * 3) now = Some ev"
      "xs = (case ev of None \<Rightarrow> [] | Some x \<Rightarrow> [x])"
    using assms(1) by (auto simp: reckon_def Let_def split: if_splits bind_splits)
  from silent_render [OF ev(1)] ev(2) assms(2,3) show ?thesis by (simp add: moved_track_uid)
qed simp

lemma reckon_all_silent:
  "reckon_all env st now es = Some xs \<Longrightarrow>
    \<forall>(k, e) \<in> set es. identified (e_track e) \<and> cot_uid (rep env) (e_track e) = Some k \<and> k \<noteq> u \<Longrightarrow> silent u xs"
  by (induction env st now es arbitrary: xs rule: reckon_all.induct) (auto split: bind_splits dest: reckon_silent)

lemma tick_silent:
  assumes "dr_tick env now st = Some (st', xs)" "gone env u st"
  shows "silent u xs \<and> gone env u st'"
proof -
  obtain ys where ys: "reckon_all env (fst (retract_orphan_trails env now st)) now (dr_store st) = Some ys"
      "xs = snd (retract_orphan_trails env now st) @ ys" and st: "dr_store st' = dr_store st"
    using assms(1) by (auto simp: dr_tick_def retract_orphan_trails_def Let_def)
  have "silent u ys" using assms(2) by (intro reckon_all_silent [OF ys(1)]) (force simp: gone_def well_kept_def)
  moreover have "silent u (snd (retract_orphan_trails env now st))"
    by (auto simp: retract_orphan_trails_def Let_def silent_def)
  ultimately show ?thesis using st assms(2) ys(2) by (simp add: gone_cong [of st' st])
qed

lemma step_silent:
  assumes "tak_step env now e st = Some (st', xs)" "gone env u st" "named e" "\<not> concerns env u e"
  shows "silent u xs \<and> gone env u st'"
proof (cases e)
  case (Track_Sample f s key doc)
  with assms show ?thesis by (intro on_track_silent) (auto simp: named_def concerns_def subject_of_def)
next
  case (Status_Sample key doc)
  with assms show ?thesis by (intro on_status_silent) (auto simp: concerns_def subject_of_def)
next
  case Tick
  with assms show ?thesis by (intro tick_silent) auto
qed (use assms gone_cong in \<open>auto simp: gone_def well_kept_def\<close>)

lemma run_silent:
  "tak_run env es st = Some (st', xs) \<Longrightarrow> gone env u st \<Longrightarrow> \<forall>(t, e) \<in> set es. named e \<and> \<not> concerns env u e \<Longrightarrow> silent u xs"
  by (induction env es st arbitrary: st' xs rule: tak_run.induct) (auto split: bind_splits dest!: step_silent)

text \<open>Samples of identified tracks keep the store well kept: some identity always stays out of the matter.\<close>

lemma fresh_uid: "\<exists>u. u \<notin> fst ` set (dr_store st) \<and> \<not> concerns env u e"
proof -
  have "{u. concerns env u e} \<subseteq> (\<Union>d \<in> set_option (subject_of e). set_option (cot_uid (rep env) d) \<union>
      (\<Union>b \<in> set_option (beam_track (rep env) d). set_option (cot_uid (rep env) b)))"
    by (auto simp: concerns_def)
  then have "finite {u. concerns env u e}" by (rule finite_subset) auto
  then have "finite (fst ` set (dr_store st) \<union> {u. concerns env u e})" by simp
  from ex_new_if_finite [OF infinite_UNIV_listI this] show ?thesis by auto
qed

lemma step_well_kept: "tak_step env now e st = Some (st', xs) \<Longrightarrow> well_kept env st \<Longrightarrow> named e \<Longrightarrow> well_kept env st'"
  using fresh_uid [of st env e] step_silent by (meson gone_def)

lemma run_well_kept:
  "tak_run env es st = Some (st', xs) \<Longrightarrow> well_kept env st \<Longrightarrow> \<forall>(t, e) \<in> set es. named e \<Longrightarrow> well_kept env st'"
  by (induction env es st arbitrary: st' xs rule: tak_run.induct) (auto split: bind_splits dest!: step_well_kept)

text \<open>A sample that withdraws its track, as the handler takes it.\<close>

definition withdraws :: "tak_env \<Rightarrow> string \<Rightarrow> dict \<Rightarrow> bool" where
  "withdraws env key track \<longleftrightarrow> terminal_view key \<notin> set non_json_views \<and> holds track ''_delete'' \<and>
     val_of track ''_src'' \<noteq> VStr ''dronuradaras.lt'' \<and> \<not> (val_of track ''_ingress'' = VStr ''tak_server'' \<and> drop_ingress env)"

lemma withdraws_step:
  "withdraws env key track \<Longrightarrow>
    tak_step env now (Track_Sample f s key (Some (VDict track))) st = tombstoned env track now st"
  by (auto simp: withdraws_def on_track_def)


definition demo_env :: tak_env where
  "demo_env = \<lparr>rep = (\<lambda>v. []), panel_of = (\<lambda>s d t. Some []), icons_of = (\<lambda>t. None), octets_of = (\<lambda>x. 100), drop_ingress = True,
     orphan_s = 180, marker_hold = 30, marker_limit = 1000, twin_ttl = 60\<rparr>"

definition no_contacts :: tak_state where
  "no_contacts = \<lparr>dr_store = [], drawn_uids = [], marker_memory = [], holds_back = \<lparr>until = [], military = []\<rparr>, marker_seen = [],
     trail_sent = [], radar_status = []\<rparr>"

definition demo_gone :: dict where
  "demo_gone = [(''uid'', VStr ''a1''), (''_delete'', VBool True)]"

definition unknown_type :: "dict \<Rightarrow> string option" where "unknown_type d = Some ''a-u-G''"

lemma demo_parts: "terminal_view ''efdi/air'' = ''air''" "is_unfused_sensor_track (rep demo_env) demo_mark ''efdi/air'' = False"
  "is_civil_copy (rep demo_env) demo_mark ''efdi/air'' 0 (holds_back no_contacts) = False"
  "is_suppressed (rep demo_env) demo_mark 0 (holds_back no_contacts) = False"
  "is_adsb_surface_vehicle (rep demo_env) demo_mark = False" "is_ground_station demo_mark = Some False"
  "settle 30 1000 u ''a-u-G'' 0 [] = ([], ''a-u-G'')"
  "py_upper ''a1'' = ''A1''"
  by (code_simp, code_simp, code_simp, code_simp, code_simp, code_simp, simp add: settle_def declared_def, code_simp)

lemma demo_mark_holds: "holds demo_mark ''_delete'' = False" "val_of demo_mark ''_src'' = VNone" "val_of demo_mark ''_ingress'' = VNone"
  "py_float (get_or demo_mark ''_ts'' v) = Some 7" "reckoned demo_mark" "track_stale_s demo_mark 60 = 60"
  by (simp_all add: demo_mark_def holds_def val_of_def dget_def get_or_def py_float_def number_def reckoned_def absent_def track_stale_s_def)

lemma demo_env_fields: "panel_of demo_env r = (\<lambda>d t. Some [])" "icons_of demo_env = (\<lambda>t. None)" "octets_of demo_env = (\<lambda>x. 100)"
  "marker_hold demo_env = 30" "marker_limit demo_env = 1000" "orphan_s demo_env = 180"
  by (simp_all add: demo_env_def)

lemma no_contacts_fields: "marker_memory no_contacts = []" "dr_store no_contacts = []" "no_contacts\<lparr>marker_memory := []\<rparr> = no_contacts"
  by (simp_all add: no_contacts_def)

lemma demo_draw: "\<exists>x. on_track demo_env unknown_type 60 ''efdi/air'' (Some (VDict demo_mark)) 0 no_contacts =
    Some (note_sent ''EFDI-UID-A1'' x 0 no_contacts\<lparr>dr_store := [(''EFDI-UID-A1'', contact_of demo_mark ''a-u-G'' 60 7)]\<rparr>, [x])"
  using demo_mark_sent [of "rep demo_env"]
  by (auto simp: on_track_def demo_parts demo_mark_holds draw_track_def type_and_stale_def unknown_type_def demo_mark_fields Let_def
      non_json_views_def demo_env_fields no_contacts_fields)

lemma demo_gone_withdraws: "withdraws demo_env ''efdi/air'' demo_gone" "cot_uid (rep demo_env) demo_gone = Some ''EFDI-UID-A1''"
  by code_simp+


subsection \<open>Trails\<close>

lemma orphans_spec:
  "retract_orphan_trails env now st = (st', xs) \<Longrightarrow>
    trail_sent st' = filter (\<lambda>t. \<not> orphaned env now st t) (trail_sent st) \<and>
    xs = map (\<lambda>(u, sent). delete_point_cot u now ''u-d-f'') (filter (orphaned env now st) (trail_sent st))"
  by (auto simp: retract_orphan_trails_def Let_def)

lemma map_of_filter_values: "distinct (map fst xs) \<Longrightarrow> map_of (filter (\<lambda>(k, v). P v) xs) k = (case map_of xs k of Some v \<Rightarrow> if P v then Some v else None | None \<Rightarrow> None)"
  by (induction xs) (auto simp: map_of_eq_None_iff split: option.splits dest: map_of_SomeD)

text \<open>Forgetting markers unseen for an hour makes no trail an orphan that is none, if trails are orphans within the hour.\<close>

lemma orphans_stable:
  assumes r: "retract_orphan_trails env now st = (st', xs)" and "orphan_s env \<le> 3600" "distinct (map fst (marker_seen st))"
    and t: "t \<in> set (trail_sent st')"
  shows "\<not> orphaned env now st' t"
proof -
  have live: "\<not> orphaned env now st t" using orphans_spec [OF r] t by auto
  have seen: "marker_seen st' = filter (\<lambda>(u, seen). \<not> now - seen > 3600) (marker_seen st)"
    using r by (auto simp: retract_orphan_trails_def Let_def)
  show ?thesis
  proof (cases "map_of (marker_seen st) (parent_of (fst t))")
    case (Some s)
    with live assms(2,3) show ?thesis
      by (auto simp: orphaned_def last_life_def seen map_of_filter_values split: if_splits)
  next
    case None
    with live assms(3) show ?thesis by (simp add: orphaned_def last_life_def seen map_of_filter_values)
  qed
qed

text \<open>
  The trail of a marker that is gone is withdrawn, once. A pass of the background thread
  sends one deletion for each trail whose marker has shown no sign of life for the configured time and forgets
  exactly these; every other trail stays; and a second pass at the same time finds nothing to do, if trails
  are orphans within the hour after which markers are forgotten.
\<close>

theorem orphan_trails_withdrawn_once:
  assumes r: "retract_orphan_trails env now st = (st', xs)" and "orphan_s env \<le> 3600" "distinct (map fst (marker_seen st))"
  shows "set (trail_sent st') = {t \<in> set (trail_sent st). now - last_life st (fst t) (snd t) \<le> orphan_s env} \<and>
    (\<forall>t \<in> set (trail_sent st) - set (trail_sent st'). delete_point_cot (fst t) now ''u-d-f'' \<in> set xs) \<and>
    length xs + length (trail_sent st') = length (trail_sent st) \<and>
    retract_orphan_trails env now st' = (st', [])"
proof -
  note spec = orphans_spec [OF r]
  have "length xs + length (trail_sent st') = length (trail_sent st)"
    using spec sum_length_filter_compl [of "orphaned env now st" "trail_sent st"] by simp
  moreover have "retract_orphan_trails env now st' = (st', [])"
  proof -
    have none: "filter (orphaned env now st') (trail_sent st') = []" "filter (\<lambda>t. \<not> orphaned env now st' t) (trail_sent st') = trail_sent st'"
      using orphans_stable [OF r assms(2,3)] by (auto simp: filter_empty_conv filter_id_conv)
    have "filter (\<lambda>(u, seen). \<not> now - seen > 3600) (marker_seen st') = marker_seen st'"
      using r by (auto simp: retract_orphan_trails_def Let_def)
    with none show ?thesis by (simp add: retract_orphan_trails_def)
  qed
  moreover have "\<forall>t \<in> set (trail_sent st) - set (trail_sent st'). delete_point_cot (fst t) now ''u-d-f'' \<in> set xs"
    using spec by force
  ultimately show ?thesis using spec by (auto simp: orphaned_def)
qed

definition demo_trails :: tak_state where
  "demo_trails = no_contacts\<lparr>trail_sent := [(''M-TRAIL'', 10), (''N-TRAIL'', 10)], marker_seen := [(''N'', 190)]\<rparr>"

theorem orphan_trails_withdrawn_once_witness:
  "\<exists>st xs. retract_orphan_trails demo_env 200 demo_trails = (st, xs) \<and> trail_sent st = [(''N-TRAIL'', 10)] \<and> length xs = 1 \<and>
     retract_orphan_trails demo_env 200 st = (st, [])"
proof -
  obtain st xs where r: "retract_orphan_trails demo_env 200 demo_trails = (st, xs)" by force
  have "trail_sent st = [(''N-TRAIL'', 10)]"
    using orphans_spec [OF r]
    by (simp add: demo_trails_def orphaned_def last_life_def parent_of_def trail_suffix_def demo_env_fields)
  with r orphan_trails_withdrawn_once [OF r] show ?thesis by (simp add: demo_trails_def demo_env_fields)
qed

subsection \<open>Coordinates given as text\<close>

text \<open>
  A drawn contact whose position is text, which \<open>float\<close> reads but arithmetic does not: once it is
  due, the tick raises, whatever else is in the store.
\<close>

lemma reckon_text: 
  assumes "e_lat e = VStr s" "e_lon e \<noteq> VNone" "dr_min_ms \<le> speed_of (e_track e)" "dr_tick_s \<le> now - e_ts e" "now - e_ts e \<le> e_stale e * 0.85"
  shows "reckon env st now e = None"
  using assms by (simp add: reckon_def number_def)

lemma reckon_all_stops: "reckon env st now e = None \<Longrightarrow> (u, e) \<in> set es \<Longrightarrow> reckon_all env st now es = None"
proof (induction env st now es rule: reckon_all.induct)
  case (2 env st now v a es)
  then show ?case by (cases "reckon env st now a") auto
qed simp

lemma text_position_ends_reckoning:
  assumes "draw_track env f s track clock st = Some (st', [x])" "reckoned track" "val_of track ''lat_deg'' = VStr la"
    and "dr_min_ms \<le> speed_of track"
  shows "\<exists>u e. map_of (dr_store st') u = Some e \<and> e_track e = track \<and>
    (\<forall>now. e_ts e + dr_tick_s \<le> now \<and> now \<le> e_ts e + e_stale e * 0.85 \<longrightarrow> dr_tick env now st' = None)"
  using assms(1)
proof (cases rule: draw_track_cases)
  case (drawn v x' ty stale t)
  let ?e = "contact_of track ty stale t"
  have e: "map_of (dr_store st') v = Some ?e" using drawn(4) assms(2) by (simp add: update_conv')
  have "val_of track ''lon_deg'' \<noteq> VNone" using assms(2) by (auto simp: reckoned_def absent_def val_of_def)
  have "dr_tick env now st' = None" if n: "t + dr_tick_s \<le> now" "now \<le> t + stale * 0.85" for now
  proof -
    have "reckon env (fst (retract_orphan_trails env now st')) now ?e = None"
      using assms \<open>val_of track ''lon_deg'' \<noteq> VNone\<close> n by (intro reckon_text) auto
    then have "reckon_all env (fst (retract_orphan_trails env now st')) now (dr_store st') = None"
      by (rule reckon_all_stops) (rule map_of_SomeD [OF e])
    then show ?thesis by (auto simp: dr_tick_def retract_orphan_trails_def Let_def)
  qed
  with e show ?thesis by (intro exI conjI allI impI) auto
qed simp

end
