(* ===== verification/Tak_Sender.thy ===== *)
theory Tak_Sender
  imports EFDI_Prelude "HOL-Library.Sublist"
begin

text \<open>
  The TAK transport (\<open>tak_transport.py\<close>): callers put events into a bounded queue and one writer thread owns
  the socket. The threads are interleaved at the calls of the queue, which are atomic: a caller that finds
  the queue full takes out the oldest event and tries again, and meanwhile the writer or another caller may
  run. Connecting and writing may fail at any time. \<open>accepted\<close> and \<open>wire\<close> are histories: the events put
  into the queue and those written to a socket, each in order.
\<close>

subsection \<open>Putting an event into the queue\<close>

definition tak_queue_max :: nat where "tak_queue_max = 10000"

text \<open>\<open>put_nowait\<close> fails on a full queue (\<open>None\<close>).\<close>

definition put_nowait :: "'e \<Rightarrow> 'e list \<Rightarrow> 'e list option" where
  "put_nowait x q = (if length q < tak_queue_max then Some (q @ [x]) else None)"

text \<open>\<open>get_nowait\<close> fails on an empty one; the sender ignores that.\<close>

definition drop_oldest :: "'e list \<Rightarrow> 'e list" where
  "drop_oldest q = (case q of [] \<Rightarrow> [] | x # xs \<Rightarrow> xs)"

text \<open>The loop of \<open>send\<close> with nobody else at the queue.\<close>

function send :: "'e \<Rightarrow> 'e list \<Rightarrow> 'e list" where
  "send x q = (case put_nowait x q of Some q' \<Rightarrow> q' | None \<Rightarrow> send x (drop_oldest q))"
  by pat_completeness auto
termination
  by (relation "measure (\<lambda>(x, q). length q)")
    (auto simp: put_nowait_def drop_oldest_def tak_queue_max_def split: if_splits list.split)

declare send.simps [simp del]

lemma send_suffix: "send x q = drop (Suc (length q) - tak_queue_max) (q @ [x])"
proof (induction x q rule: send.induct)
  case (1 x q)
  show ?case
  proof (cases "length q < tak_queue_max")
    case True
    then show ?thesis by (simp add: send.simps [of x q] put_nowait_def)
  next
    case False
    then obtain y ys where q: "q = y # ys" by (cases q) (auto simp: tak_queue_max_def)
    with False have "send x (drop_oldest q) = drop (Suc (length ys) - tak_queue_max) (ys @ [x])"
      using "1.IH" by (simp add: put_nowait_def drop_oldest_def)
    moreover have "send x q = send x (drop_oldest q)" using False by (subst send.simps) (simp add: put_nowait_def)
    moreover have "Suc (length q) - tak_queue_max = Suc (Suc (length ys) - tak_queue_max)" using False q by (simp add: Suc_diff_le)
    ultimately show ?thesis by (simp add: q)
  qed
qed

subsection \<open>The threads\<close>

text \<open>
  A caller of \<open>send\<close> looks at the stop flag, puts its event, and after finding the queue full drops the oldest
  and looks again. The writer looks at the flag with or without an open socket, dials the candidate of its
  index, polls the queue and writes what it has taken.
\<close>

datatype 'e caller = Calling 'e | Putting 'e | Dropping 'e

datatype 'e writer = Checking nat bool | Connecting nat | Polling nat | Writing nat 'e | Ended

record 'e sender =
  que :: "'e list"
  callers :: "'e caller list"
  writer :: "'e writer"
  stopped :: bool
  accepted :: "'e list"
  wire :: "'e list"

definition new_sender :: "'e sender" where
  "new_sender = \<lparr>que = [], callers = [], writer = Checking 0 False, stopped = False, accepted = [], wire = []\<rparr>"

inductive sender_step :: "'e sender \<Rightarrow> 'e sender \<Rightarrow> bool" where
  Call: "sender_step s (s\<lparr>callers := callers s @ [Calling x]\<rparr>)"
| Try: "callers s = as @ Calling x # bs \<Longrightarrow> \<not> stopped s \<Longrightarrow> sender_step s (s\<lparr>callers := as @ Putting x # bs\<rparr>)"
| Refuse: "callers s = as @ Calling x # bs \<Longrightarrow> stopped s \<Longrightarrow> sender_step s (s\<lparr>callers := as @ bs\<rparr>)"
| Put: "callers s = as @ Putting x # bs \<Longrightarrow> put_nowait x (que s) = Some q \<Longrightarrow>
    sender_step s (s\<lparr>callers := as @ bs, que := q, accepted := accepted s @ [x]\<rparr>)"
| Full: "callers s = as @ Putting x # bs \<Longrightarrow> put_nowait x (que s) = None \<Longrightarrow>
    sender_step s (s\<lparr>callers := as @ Dropping x # bs\<rparr>)"
| Drop: "callers s = as @ Dropping x # bs \<Longrightarrow>
    sender_step s (s\<lparr>callers := as @ Calling x # bs, que := drop_oldest (que s)\<rparr>)"
| Dial: "writer s = Checking i False \<Longrightarrow> \<not> stopped s \<Longrightarrow> sender_step s (s\<lparr>writer := Connecting i\<rparr>)"
| Poll: "writer s = Checking i True \<Longrightarrow> \<not> stopped s \<Longrightarrow> sender_step s (s\<lparr>writer := Polling i\<rparr>)"
| End: "writer s = Checking i b \<Longrightarrow> stopped s \<Longrightarrow> sender_step s (s\<lparr>writer := Ended\<rparr>)"
| Connected: "writer s = Connecting i \<Longrightarrow> sender_step s (s\<lparr>writer := Polling i\<rparr>)"
| Unreachable: "writer s = Connecting i \<Longrightarrow> sender_step s (s\<lparr>writer := Checking (Suc i) False\<rparr>)"
| Take: "writer s = Polling i \<Longrightarrow> que s = x # q \<Longrightarrow> sender_step s (s\<lparr>writer := Writing i x, que := q\<rparr>)"
| Idle: "writer s = Polling i \<Longrightarrow> que s = [] \<Longrightarrow> sender_step s (s\<lparr>writer := Checking i True\<rparr>)"
| Written: "writer s = Writing i x \<Longrightarrow> sender_step s (s\<lparr>writer := Checking i True, wire := wire s @ [x]\<rparr>)"
| Failed: "writer s = Writing i x \<Longrightarrow> sender_step s (s\<lparr>writer := Checking i False\<rparr>)"
| Close: "sender_step s (s\<lparr>stopped := True\<rparr>)"

abbreviation sender_reaches :: "'e sender \<Rightarrow> 'e sender \<Rightarrow> bool" where
  "sender_reaches \<equiv> sender_step\<^sup>*\<^sup>*"

definition in_hand :: "'e sender \<Rightarrow> 'e list" where
  "in_hand s = (case writer s of Writing i x \<Rightarrow> [x] | _ \<Rightarrow> [])"

text \<open>
  What a sender keeps: the bound of the queue, and the order of the events: what was written, what is being
  written and what waits are, in this order, among the events accepted; what waits are the last ones.
\<close>

definition sender_ok :: "'e sender \<Rightarrow> bool" where
  "sender_ok s \<longleftrightarrow> length (que s) \<le> tak_queue_max \<and> (\<exists>past. accepted s = past @ que s \<and> subseq (wire s @ in_hand s) past)"

lemma sender_okI: "length (que s) \<le> tak_queue_max \<Longrightarrow> accepted s = past @ que s \<Longrightarrow> subseq (wire s @ in_hand s) past \<Longrightarrow> sender_ok s"
  by (auto simp: sender_ok_def)

lemma sender_step_ok:
  assumes "sender_step s s'" "sender_ok s"
  shows "sender_ok s'"
proof -
  obtain past where ok: "length (que s) \<le> tak_queue_max" "accepted s = past @ que s" "subseq (wire s @ in_hand s) past"
    using assms(2) by (auto simp: sender_ok_def)
  have past: "subseq (wire s) past"
    using ok(3) list_emb_append2 [of "(=)" "wire s" "wire s"] by (metis append_Nil2 list_emb_append_mono list_emb_Nil subseq_order.order_refl subseq_order.trans)
  show ?thesis
    using assms(1)
  proof cases
    case (Put as x bs q)
    then show ?thesis using ok by (intro sender_okI [where past = past]) (auto simp: put_nowait_def in_hand_def split: if_splits)
  next
    case (Drop as x bs)
    show ?thesis
    proof (cases "que s")
      case Nil
      with Drop ok show ?thesis by (intro sender_okI [where past = past]) (auto simp: drop_oldest_def in_hand_def)
    next
      case (Cons y ys)
      have "subseq (wire s @ in_hand s) (past @ [y])" using list_emb_append_mono [OF ok(3), of "[]" "[y]"] by simp
      with Cons Drop ok show ?thesis by (intro sender_okI [where past = "past @ [y]"]) (auto simp: drop_oldest_def in_hand_def)
    qed
  next
    case (Take i x q)
    then show ?thesis using ok by (intro sender_okI [where past = "past @ [x]"]) (auto simp: in_hand_def)
  qed (use ok past in \<open>intro sender_okI [where past = past]; auto simp: in_hand_def split: writer.splits\<close>)+
qed


lemma sender_reaches_ok: "sender_reaches s s' \<Longrightarrow> sender_ok s \<Longrightarrow> sender_ok s'"
  by (induction rule: rtranclp_induct) (auto intro: sender_step_ok)

lemma new_sender_ok: "sender_ok new_sender"
  by (simp add: sender_ok_def new_sender_def in_hand_def tak_queue_max_def)

text \<open>
  C39: Whatever the callers, the writer and the network do, the backlog is bounded and nothing
  is reordered or sent twice: the events written, the one being written and those that wait are, in this
  order, a subsequence of the events accepted, and those that wait are the last ones accepted.
\<close>

theorem sender_keeps_order:
  assumes "sender_reaches new_sender s"
  shows "length (que s) \<le> tak_queue_max \<and> subseq (wire s @ in_hand s @ que s) (accepted s) \<and> suffix (que s) (accepted s)"
proof -
  have "sender_ok s" using sender_reaches_ok [OF assms new_sender_ok] .
  then obtain past where "accepted s = past @ que s" "subseq (wire s @ in_hand s) past" "length (que s) \<le> tak_queue_max"
    by (auto simp: sender_ok_def)
  then show ?thesis using subseq_append [of "wire s @ in_hand s" "que s" past] by (simp add: suffix_def)
qed

text \<open>One event put, a write of it that fails, a second one put and written.\<close>

definition demo_start :: "nat sender" where
  "demo_start = new_sender\<lparr>callers := [Putting 7], writer := Polling 0\<rparr>"

lemma demo_dialled: "sender_reaches new_sender demo_start"
proof -
  let ?s = "new_sender :: nat sender"
  have "sender_step ?s (?s\<lparr>writer := Connecting 0\<rparr>)" by (rule Dial) (simp_all add: new_sender_def)
  moreover have "sender_step (?s\<lparr>writer := Connecting 0\<rparr>) (?s\<lparr>writer := Polling 0\<rparr>)"
    using Connected [of "?s\<lparr>writer := Connecting 0\<rparr>" 0] by simp
  moreover have "sender_step (?s\<lparr>writer := Polling 0\<rparr>) (?s\<lparr>writer := Polling 0, callers := [Calling 7]\<rparr>)"
    using Call [of "?s\<lparr>writer := Polling 0\<rparr>" 7] by (simp add: new_sender_def)
  moreover have "sender_step (?s\<lparr>writer := Polling 0, callers := [Calling 7]\<rparr>) demo_start"
    using Try [of "?s\<lparr>writer := Polling 0, callers := [Calling 7]\<rparr>" "[]" 7 "[]"] by (simp add: demo_start_def new_sender_def)
  ultimately show ?thesis by (meson converse_rtranclp_into_rtranclp rtranclp.rtrancl_refl)
qed

theorem sender_keeps_order_witness: "\<exists>s. sender_reaches (new_sender :: nat sender) s \<and> wire s = [7] \<and> subseq (wire s) (accepted s)"
proof -
  let ?a = "demo_start\<lparr>callers := [], que := [7], accepted := [7]\<rparr>"
  let ?b = "?a\<lparr>writer := Writing 0 7, que := []\<rparr>"
  let ?c = "?b\<lparr>writer := Checking 0 True, wire := [7]\<rparr>"
  have "sender_step demo_start ?a"
    using Put [of demo_start "[]" 7 "[]" "[7]"] by (simp add: demo_start_def new_sender_def put_nowait_def tak_queue_max_def)
  moreover have "sender_step ?a ?b" using Take [of ?a 0 7 "[]"] by (simp add: demo_start_def)
  moreover have "sender_step ?b ?c" using Written [of ?b 0 7] by (simp add: demo_start_def new_sender_def)
  ultimately have r: "sender_reaches new_sender ?c" using demo_dialled by (meson rtranclp.rtrancl_into_rtrancl)
  from sender_keeps_order [OF r] have "subseq (wire ?c) (accepted ?c)" by (auto simp: in_hand_def)
  with r show ?thesis by (intro exI [of _ ?c]) (simp add: demo_start_def new_sender_def)
qed

text \<open>
  C40: The queue is a window on the latest events. However many events are sent while the link
  stalls, the loop of \<open>send\<close> ends for each of them, and what waits are the last ten thousand, the newest last.
\<close>

theorem send_keeps_latest: "fold send xs [] = drop (length xs - tak_queue_max) xs"
proof (induction xs rule: rev_induct)
  case (snoc x xs)
  let ?q = "drop (length xs - tak_queue_max) xs"
  have "fold send (xs @ [x]) [] = drop (Suc (length ?q) - tak_queue_max) (?q @ [x])" by (simp add: snoc.IH send_suffix)
  also have "\<dots> = drop (Suc (length xs) - tak_queue_max) (xs @ [x])"
  proof (cases "length xs < tak_queue_max")
    case False
    have "0 < tak_queue_max" by (simp add: tak_queue_max_def)
    with False show ?thesis by (simp add: not_less Suc_diff_le drop_Suc drop_tl)
  qed simp
  finally show ?case by simp
qed simp

end
