(* ===== verification/Sapient_Wire.thy ===== *)
theory Sapient_Wire
  imports Py_Text Framed_Stream Ieee_Floats
begin

unbundle bit_operations_syntax

text \<open>
  The wire format of SAPIENT FLEX 335 messages (\<open>flex335.py\<close>): varints, the fields of a message, their texts
  and numbers, the frames of a stream, and the encoder of an acknowledgement. A \<open>ValueError\<close> is \<open>Inl\<close> with
  a constructor for its message.
\<close>

subsection \<open>Errors\<close>

datatype sapient_error =
    TruncatedVarint | VarintTooLong | FieldZero | TruncatedFixed64 | TruncatedBytes | TruncatedFixed32 | BadWireType nat
  | NoCoordinates | UtmLocation | BadLocationSystem | BadLocationDatum | OutsideBounds
  | NoBearing | BadBearingSystem | RelativeBearing | BadBearingDatum | NoSensorLocation | NoLocation
  | BadFrameSize | ContentCount

definition and_then :: "'e + 'a \<Rightarrow> ('a \<Rightarrow> 'e + 'b) \<Rightarrow> 'e + 'b" where
  "and_then r f = (case r of Inl e \<Rightarrow> Inl e | Inr x \<Rightarrow> f x)"

lemma and_then_simps [simp]: "and_then (Inl e) f = Inl e" "and_then (Inr x) f = f x"
  by (simp_all add: and_then_def)

lemma and_then_cong [fundef_cong]: "r = r' \<Longrightarrow> (\<And>x. r' = Inr x \<Longrightarrow> f x = g x) \<Longrightarrow> and_then r f = and_then r' g"
  by (cases r') auto

lemma and_then_iff: "and_then r f = Inr y \<longleftrightarrow> (\<exists>x. r = Inr x \<and> f x = Inr y)"
  by (cases r) auto

subsection \<open>Varints\<close>

fun varint_loop :: "nat \<Rightarrow> bytes \<Rightarrow> nat \<Rightarrow> nat \<Rightarrow> nat \<Rightarrow> sapient_error + nat \<times> nat" where
  "varint_loop 0 data offset shift acc = Inl VarintTooLong"
| "varint_loop (Suc rounds) data offset shift acc =
     (if offset \<ge> length data then Inl TruncatedVarint
      else let octet = unat (data ! offset); acc = acc OR push_bit shift (octet AND 0x7F) in
        if octet AND 0x80 = 0 then Inr (acc, offset + 1)
        else varint_loop rounds data (offset + 1) (shift + 7) acc)"

definition read_varint :: "bytes \<Rightarrow> nat \<Rightarrow> sapient_error + nat \<times> nat" where
  "read_varint data offset = varint_loop 10 data offset 0 0"

function encode_varint :: "nat \<Rightarrow> bytes" where
  "encode_varint acc = (if acc \<ge> 0x80 then of_nat ((acc AND 0x7F) OR 0x80) # encode_varint (drop_bit 7 acc) else [of_nat acc])"
  by pat_completeness auto
termination by (relation "measure (\<lambda>v. v)") (auto simp: drop_bit_eq_div)

declare encode_varint.simps [simp del]

lemma varint_loop_progress: "varint_loop n data i shift acc = Inr (v, j) \<Longrightarrow> i < j \<and> j \<le> length data"
  by (induction n data i shift acc rule: varint_loop.induct) (fastforce simp: Let_def split: if_splits)+

lemma read_varint_progress: "read_varint data i = Inr (v, j) \<Longrightarrow> i < j \<and> j \<le> length data"
  unfolding read_varint_def by (rule varint_loop_progress)

text \<open>Reading adds the groups of seven bits, least first.\<close>

lemma or_push_bit_add:
  assumes "v < 2 ^ s"
  shows "v OR push_bit s w = v + 2 ^ s * (w :: nat)"
proof -
  have "v AND push_bit s w = 0"
  proof (rule bit_eqI)
    fix n
    have "\<not> bit v n" if "s \<le> n"
      using assms that by (metis bit_take_bit_iff linorder_not_le take_bit_nat_eq_self)
    then show "bit (v AND push_bit s w) n = bit (0 :: nat) n" by (auto simp: bit_simps)
  qed
  then show ?thesis using disjunctive_add_eq_or [of v "push_bit s w"] by (simp add: push_bit_eq_mult ac_simps)
qed

lemma low_bits: "x AND 0x7F = x mod 128" for x :: nat
  using take_bit_eq_mask [of 7 x] by (simp add: take_bit_eq_mod mask_eq_exp_minus_1)

lemma high_bit: "x < 256 \<Longrightarrow> x AND 0x80 = (if x < 128 then 0 else 0x80)" for x :: nat
proof -
  assume "x < 256"
  then have "x \<in> set [0..<256]" by simp
  moreover have "list_all (\<lambda>x :: nat. x AND 0x80 = (if x < 128 then 0 else 0x80)) [0..<256]" by code_simp
  ultimately show ?thesis by (simp only: list_all_iff)
qed

lemma marked_group: "x < 128 \<Longrightarrow> x OR 0x80 = x + 128" for x :: nat
  using or_push_bit_add [of x 7 1] by (simp add: push_bit_eq_mult)

lemma encode_varint_unfold:
  "encode_varint v = (if v < 128 then [of_nat v] else of_nat (v mod 128 + 128) # encode_varint (v div 128))"
  by (simp add: encode_varint.simps [of v] low_bits marked_group drop_bit_eq_div)

lemma varint_loop_at:
  assumes "drop i data = b # rest" "acc < 2 ^ shift"
  shows "varint_loop (Suc n) data i shift acc =
    (let x = unat b mod 128; v = acc + 2 ^ shift * x in
     if unat b < 128 then Inr (v, i + 1) else varint_loop n data (i + 1) (shift + 7) v)"
proof -
  have i: "i < length data" "data ! i = b"
    using assms(1) by (metis drop_all linorder_not_le list.distinct(1), metis assms(1) hd_drop_conv_nth drop_all linorder_not_le list.distinct(1) list.sel(1))
  have "unat b < 256" using unsigned_less [of b] by simp
  with i assms(2) show ?thesis by (simp add: Let_def low_bits high_bit or_push_bit_add)
qed

lemma varint_loop_encoded:
  "drop i data = encode_varint v @ rest \<Longrightarrow> v < 128 ^ Suc n \<Longrightarrow> acc < 2 ^ shift \<Longrightarrow>
    varint_loop (Suc n) data i shift acc = Inr (acc + 2 ^ shift * v, i + length (encode_varint v))"
proof (induction n arbitrary: i v shift acc)
  case 0
  then show ?case by (simp add: encode_varint_unfold [of v] varint_loop_at [where b = "of_nat v"] unat_of_nat del: varint_loop.simps)
next
  case (Suc n)
  show ?case
  proof (cases "v < 128")
    case True
    with Suc.prems show ?thesis
      by (simp add: encode_varint_unfold [of v] varint_loop_at [where b = "of_nat v"] unat_of_nat del: varint_loop.simps)
  next
    case False
    let ?b = "of_nat (v mod 128 + 128) :: byte"
    have b: "unat ?b = v mod 128 + 128" by (subst unat_of_nat) (simp add: mod_less)
    have d: "drop i data = ?b # encode_varint (v div 128) @ rest" "drop (i + 1) data = encode_varint (v div 128) @ rest"
      using Suc.prems(1) False by (simp_all add: encode_varint_unfold [of v] drop_Suc drop_tl)
    have "acc + 2 ^ shift * (v mod 128) < 2 ^ shift * 128"
    proof -
      have "acc + 2 ^ shift * (v mod 128) < 2 ^ shift + 2 ^ shift * (v mod 128)" using Suc.prems(3) by simp
      also have "\<dots> = 2 ^ shift * (1 + v mod 128)" by (simp add: distrib_left)
      also have "\<dots> \<le> 2 ^ shift * 128" by (intro mult_left_mono) (use mod_less_divisor [of 128 v] in auto)
      finally show ?thesis .
    qed
    moreover have "v div 128 < 128 ^ Suc n" using Suc.prems(2) by (simp add: less_mult_imp_div_less)
    moreover have "acc + 2 ^ shift * (v mod 128) + 2 ^ (shift + 7) * (v div 128) = acc + 2 ^ shift * v"
    proof -
      have "2 ^ (shift + 7) * (v div 128) = 2 ^ shift * (128 * (v div 128))" by (simp add: power_add)
      then show ?thesis by (metis add.assoc distrib_left mod_mult_div_eq)
    qed
    ultimately show ?thesis
      using Suc.IH [OF d(2), of "acc + 2 ^ shift * (v mod 128)" "shift + 7"] varint_loop_at [OF d(1) Suc.prems(3), of "Suc n"] b False
      by (simp add: power_add encode_varint_unfold [of v] del: varint_loop.simps)
  qed
qed

lemma read_encoded_varint:
  "drop i data = encode_varint v @ rest \<Longrightarrow> v < 2 ^ 70 \<Longrightarrow> read_varint data i = Inr (v, i + length (encode_varint v))"
proof -
  assume "drop i data = encode_varint v @ rest" "v < 2 ^ 70"
  then have "varint_loop (Suc 9) data i 0 0 = Inr (v, i + length (encode_varint v))"
    using varint_loop_encoded [of i data v rest 9 0 0] by (simp del: varint_loop.simps)
  then show ?thesis by (simp add: read_varint_def del: varint_loop.simps)
qed

subsection \<open>Fields\<close>

datatype wire_value = WInt nat | WBytes bytes

record wire_field =
  field_number :: nat
  wire_type :: nat
  wire_value :: wire_value

text \<open>The value of a field of one wire type, and the position behind it.\<close>

definition fixed_at :: "bytes \<Rightarrow> nat \<Rightarrow> nat \<Rightarrow> sapient_error \<Rightarrow> sapient_error + wire_value \<times> nat" where
  "fixed_at data i n e = (if i + n > length data then Inl e else Inr (WInt (from_bytes_little (py_slice data i (i + n))), i + n))"

definition value_at :: "bytes \<Rightarrow> nat \<Rightarrow> nat \<Rightarrow> sapient_error + wire_value \<times> nat" where
  "value_at data wt i =
     (if wt = 0 then and_then (read_varint data i) (\<lambda>(v, j). Inr (WInt v, j))
      else if wt = 1 then fixed_at data i 8 TruncatedFixed64
      else if wt = 2 then and_then (read_varint data i) (\<lambda>(n, j).
        if j + n > length data then Inl TruncatedBytes else Inr (WBytes (py_slice data j (j + n)), j + n))
      else if wt = 5 then fixed_at data i 4 TruncatedFixed32
      else Inl (BadWireType wt))"

lemma value_at_progress: "value_at data wt i = Inr (v, j) \<Longrightarrow> i < j \<and> j \<le> length data"
  by (auto simp: value_at_def fixed_at_def and_then_iff dest: read_varint_progress split: if_splits)

function fields_from :: "bytes \<Rightarrow> nat \<Rightarrow> sapient_error + wire_field list" where
  "fields_from data i =
     (if i \<ge> length data then Inr []
      else and_then (read_varint data i) (\<lambda>(tag, j).
        let number = drop_bit 3 tag; wt = tag AND 0x07 in
        if number = 0 then Inl FieldZero
        else and_then (value_at data wt j) (\<lambda>(v, k).
          and_then (fields_from data k) (\<lambda>fs.
            Inr (\<lparr>field_number = number, wire_type = wt, wire_value = v\<rparr> # fs)))))"
  by pat_completeness auto
termination
  by (relation "measure (\<lambda>(data, i). length data - i)") (auto dest!: read_varint_progress value_at_progress)

declare fields_from.simps [simp del]

definition iter_fields :: "bytes \<Rightarrow> sapient_error + wire_field list" where
  "iter_fields data = fields_from data 0"

text \<open>The first value and all values of a field number and wire type.\<close>

definition is_field :: "nat \<Rightarrow> nat \<Rightarrow> wire_field \<Rightarrow> bool" where
  "is_field n wt f \<longleftrightarrow> field_number f = n \<and> wire_type f = wt"

definition first_value :: "wire_field list \<Rightarrow> nat \<Rightarrow> nat \<Rightarrow> wire_value option" where
  "first_value fs n wt = map_option wire_value (find (is_field n wt) fs)"

definition all_values :: "wire_field list \<Rightarrow> nat \<Rightarrow> nat \<Rightarrow> wire_value list" where
  "all_values fs n wt = map wire_value (filter (is_field n wt) fs)"

subsection \<open>Texts and numbers\<close>

text \<open>\<open>bytes.decode("utf-8")\<close>: the code points, \<open>None\<close> for an invalid sequence.\<close>

definition is_cont :: "nat \<Rightarrow> bool" where
  "is_cont b \<longleftrightarrow> 128 \<le> b \<and> b < 192"

fun utf8_codes :: "nat list \<Rightarrow> nat list option" where
  "utf8_codes [] = Some []"
| "utf8_codes (a # s) =
     (if a < 128 then map_option ((#) a) (utf8_codes s)
      else if 192 \<le> a \<and> a < 224 then (case s of
          b # s \<Rightarrow> let n = (a - 192) * 64 + (b - 128) in
            if is_cont b \<and> 128 \<le> n then map_option ((#) n) (utf8_codes s) else None
        | _ \<Rightarrow> None)
      else if 224 \<le> a \<and> a < 240 then (case s of
          b # c # s \<Rightarrow> let n = (a - 224) * 4096 + (b - 128) * 64 + (c - 128) in
            if is_cont b \<and> is_cont c \<and> 2048 \<le> n \<and> \<not> (55296 \<le> n \<and> n < 57344) then map_option ((#) n) (utf8_codes s) else None
        | _ \<Rightarrow> None)
      else if 240 \<le> a \<and> a < 248 then (case s of
          b # c # d # s \<Rightarrow> let n = (a - 240) * 262144 + (b - 128) * 4096 + (c - 128) * 64 + (d - 128) in
            if is_cont b \<and> is_cont c \<and> is_cont d \<and> 65536 \<le> n \<and> n < 1114112 then map_option ((#) n) (utf8_codes s) else None
        | _ \<Rightarrow> None)
      else None)"

text \<open>A code point as a character: the spaces of Unicode as a space, others beyond Latin-1 as the character 255.\<close>

definition code_char :: "nat \<Rightarrow> char" where
  "code_char n =
     (if n = 5760 \<or> 8192 \<le> n \<and> n \<le> 8202 \<or> n \<in> set [8232, 8233, 8239, 8287, 12288] then CHR '' ''
      else if n < 256 then char_of n else CHR 0xFF)"

text \<open>\<open>s.split()\<close>.\<close>

fun py_words :: "string \<Rightarrow> string \<Rightarrow> string list" where
  "py_words w [] = onlyif (w \<noteq> []) [rev w]"
| "py_words w (c # s) = (if is_space c then onlyif (w \<noteq> []) [rev w] @ py_words [] s else py_words (c # w) s)"

definition wire_text :: "wire_value option \<Rightarrow> string option" where
  "wire_text v = (case v of
     Some (WBytes b) \<Rightarrow> (case utf8_codes (map unat b) of
         None \<Rightarrow> None
       | Some codes \<Rightarrow> let s = py_join '' '' (py_words [] (map code_char codes)) in if s = [] then None else Some (take 512 s))
   | _ \<Rightarrow> None)"

definition finite_of :: "float_value \<Rightarrow> real option" where
  "finite_of f = (case f of Finite x \<Rightarrow> Some x | _ \<Rightarrow> None)"

definition double_of :: "wire_value option \<Rightarrow> real option" where
  "double_of v = (case v of Some (WInt n) \<Rightarrow> finite_of (ieee 11 52 n) | _ \<Rightarrow> None)"

definition float_of :: "wire_value option \<Rightarrow> real option" where
  "float_of v = (case v of Some (WInt n) \<Rightarrow> finite_of (ieee 8 23 n) | _ \<Rightarrow> None)"

definition text_field :: "wire_field list \<Rightarrow> nat \<Rightarrow> string option" where
  "text_field fs n = wire_text (first_value fs n 2)"

definition double_field :: "wire_field list \<Rightarrow> nat \<Rightarrow> real option" where
  "double_field fs n = double_of (first_value fs n 1)"

definition float_field :: "wire_field list \<Rightarrow> nat \<Rightarrow> real option" where
  "float_field fs n = float_of (first_value fs n 5)"

definition int_field :: "wire_field list \<Rightarrow> nat \<Rightarrow> nat option" where
  "int_field fs n = (case first_value fs n 0 of Some (WInt v) \<Rightarrow> Some v | _ \<Rightarrow> None)"

definition bytes_field :: "wire_field list \<Rightarrow> nat \<Rightarrow> bytes option" where
  "bytes_field fs n = (case first_value fs n 2 of Some (WBytes v) \<Rightarrow> Some v | _ \<Rightarrow> None)"

text \<open>The octets of the values of a repeated message, at most \<open>limit\<close> of them.\<close>

definition messages :: "wire_field list \<Rightarrow> nat \<Rightarrow> nat \<Rightarrow> bytes list" where
  "messages fs n limit = concat (map (\<lambda>v. case v of WBytes b \<Rightarrow> [b] | WInt _ \<Rightarrow> []) (take limit (all_values fs n 2)))"

text \<open>The time of a message, or the clock.\<close>

definition timestamp :: "bytes option \<Rightarrow> real \<Rightarrow> sapient_error + real" where
  "timestamp v clock = (case v of
     None \<Rightarrow> Inr clock
   | Some b \<Rightarrow> and_then (iter_fields b) (\<lambda>fs.
       let nanos = (case int_field fs 2 of None \<Rightarrow> 0 | Some n \<Rightarrow> n) in
       Inr (case int_field fs 1 of
          None \<Rightarrow> clock
        | Some seconds \<Rightarrow> if nanos \<ge> 1000000000 then clock else real seconds + real nanos / 1000000000)))"

subsection \<open>What the encoder writes is read back\<close>

definition encode_bytes :: "nat \<Rightarrow> bytes \<Rightarrow> bytes" where
  "encode_bytes number b = encode_varint (push_bit 3 number OR 2) @ encode_varint (length b) @ b"

definition encode_number :: "nat \<Rightarrow> nat \<Rightarrow> bytes" where
  "encode_number tag n = encode_varint tag @ encode_varint n"

text \<open>\<open>s.encode("utf-8")\<close> on Latin-1.\<close>

definition utf8_char :: "char \<Rightarrow> bytes" where
  "utf8_char c = (let n = of_char c :: nat in
     if n < 128 then [of_nat n] else [of_nat (192 + n div 64), of_nat (128 + n mod 64)])"

definition utf8_encode :: "string \<Rightarrow> bytes" where
  "utf8_encode s = concat (map utf8_char s)"

text \<open>The acknowledgement of a registration, behind its length.\<close>

definition ack_envelope :: "string \<Rightarrow> string \<Rightarrow> bool \<Rightarrow> real \<Rightarrow> bytes" where
  "ack_envelope node destination accepted now =
     (let seconds = nat \<lfloor>now\<rfloor>; nanos = nat \<lfloor>(now - of_int \<lfloor>now\<rfloor>) * 1000000000\<rfloor>;
          stamp = encode_number 8 seconds @ (if nanos \<noteq> 0 then encode_number 16 nanos else [])
      in encode_bytes 1 stamp @ encode_bytes 2 (utf8_encode node) @ encode_bytes 3 (utf8_encode destination) @
         encode_bytes 5 (encode_number 8 (if accepted then 1 else 0)))"

definition registration_ack :: "string \<Rightarrow> string \<Rightarrow> bool \<Rightarrow> real \<Rightarrow> bytes" where
  "registration_ack node destination accepted now = (let e = ack_envelope node destination accepted now in pack_le 4 (length e) @ e)"

lemma encode_varint_ne [simp]: "encode_varint v \<noteq> []"
  by (simp add: encode_varint_unfold)

lemma value_at_bytes:
  assumes "length b < 2 ^ 70"
  shows "value_at (pre @ encode_varint (length b) @ b @ rest) 2 (length pre) =
    Inr (WBytes b, length pre + length (encode_varint (length b)) + length b)"
proof -
  let ?data = "pre @ encode_varint (length b) @ b @ rest"
  have "read_varint ?data (length pre) = Inr (length b, length pre + length (encode_varint (length b)))"
    using assms by (intro read_encoded_varint [where rest = "b @ rest"]) simp_all
  then show ?thesis by (simp add: value_at_def py_slice_def)
qed

lemma value_at_number:
  assumes "v < 2 ^ 70"
  shows "value_at (pre @ encode_varint v @ rest) 0 (length pre) = Inr (WInt v, length pre + length (encode_varint v))"
proof -
  have "read_varint (pre @ encode_varint v @ rest) (length pre) = Inr (v, length pre + length (encode_varint v))"
    using assms by (intro read_encoded_varint [where rest = rest]) simp_all
  then show ?thesis by (simp add: value_at_def)
qed

text \<open>A tag: the number of the field above three bits of wire type.\<close>

lemma tag_parts: "wt < 8 \<Longrightarrow> push_bit 3 n OR wt = wt + 8 * n" "wt < 8 \<Longrightarrow> (wt + 8 * n) AND 0x07 = wt"
  "wt < 8 \<Longrightarrow> drop_bit 3 (wt + 8 * n) = n" for n wt :: nat
proof -
  show "push_bit 3 n OR wt = wt + 8 * n" if "wt < 8" using or_push_bit_add [of wt 3 n] that by (simp add: or.commute)
  have "x AND 0x07 = x mod 8" for x :: nat
    using take_bit_eq_mask [of 3 x] by (simp add: take_bit_eq_mod mask_eq_exp_minus_1)
  then show "(wt + 8 * n) AND 0x07 = wt" if "wt < 8" using that by simp
  show "drop_bit 3 (wt + 8 * n) = n" if "wt < 8" using that by (simp add: drop_bit_eq_div)
qed

lemma fields_from_tagged:
  assumes "value_at data wt j = Inr (v, k)" "data = pre @ encode_varint (wt + 8 * number) @ rest" "i = length pre"
    and "j = i + length (encode_varint (wt + 8 * number))" "wt < 8" "0 < number" "number < 2 ^ 60"
  shows "fields_from data i = and_then (fields_from data k) (\<lambda>fs. Inr (\<lparr>field_number = number, wire_type = wt, wire_value = v\<rparr> # fs))"
proof -
  have "wt + 8 * number < 2 ^ 70" using assms(5,7) by simp
  then have "read_varint data i = Inr (wt + 8 * number, j)"
    unfolding assms(4) by (intro read_encoded_varint [where rest = rest]) (simp_all add: assms(2,3))
  moreover have "i < length data" using assms(2,3) by simp
  ultimately show ?thesis
    using assms(1,5,6) by (simp add: fields_from.simps [of data i] tag_parts)
qed

text \<open>Reading from a position reads what is left.\<close>

lemma fields_from_end [simp]: "length data \<le> i \<Longrightarrow> fields_from data i = Inr []"
  by (simp add: fields_from.simps)

definition encode_field :: "wire_field \<Rightarrow> bytes" where
  "encode_field f = (case wire_value f of
     WBytes b \<Rightarrow> encode_bytes (field_number f) b
   | WInt v \<Rightarrow> encode_number (8 * field_number f) v)"

definition encodable :: "wire_field \<Rightarrow> bool" where
  "encodable f \<longleftrightarrow> 0 < field_number f \<and> field_number f < 2 ^ 60 \<and> (case wire_value f of
     WBytes b \<Rightarrow> wire_type f = 2 \<and> length b < 2 ^ 70 | WInt v \<Rightarrow> wire_type f = 0 \<and> v < 2 ^ 70)"

lemma fields_from_field:
  assumes "encodable f"
  shows "fields_from (pre @ encode_field f @ rest) (length pre) =
    and_then (fields_from (pre @ encode_field f @ rest) (length (pre @ encode_field f))) (\<lambda>fs. Inr (f # fs))"
proof -
  obtain n wt v where f: "f = \<lparr>field_number = n, wire_type = wt, wire_value = v\<rparr>" by (cases f)
  show ?thesis
  proof (cases v)
    case (WBytes b)
    let ?t = "encode_varint (2 + 8 * n)"
    have e: "encode_field \<lparr>field_number = n, wire_type = 2, wire_value = WBytes b\<rparr> = ?t @ encode_varint (length b) @ b" by (simp add: encode_field_def encode_bytes_def tag_parts)
    have "value_at ((pre @ ?t) @ encode_varint (length b) @ b @ rest) 2 (length (pre @ ?t)) =
        Inr (WBytes b, length (pre @ ?t) + length (encode_varint (length b)) + length b)"
      using assms by (intro value_at_bytes) (simp add: f encodable_def WBytes)
    then show ?thesis
      using assms
      by (subst fields_from_tagged [where wt = 2 and number = n and pre = pre and rest = "encode_varint (length b) @ b @ rest"])
        (auto simp: e add.assoc encodable_def f WBytes)
  next
    case (WInt w)
    let ?t = "encode_varint (0 + 8 * n)"
    have "value_at ((pre @ ?t) @ encode_varint w @ rest) 0 (length (pre @ ?t)) = Inr (WInt w, length (pre @ ?t) + length (encode_varint w))"
      using assms by (intro value_at_number) (simp add: f encodable_def WInt)
    then show ?thesis
      using assms
      by (subst fields_from_tagged [where wt = 0 and number = n and pre = pre and rest = "encode_varint w @ rest"])
        (auto simp: encode_field_def encode_number_def add.assoc encodable_def f WInt)
  qed
qed

lemma iter_encoded:
  assumes "list_all encodable fs"
  shows "iter_fields (concat (map encode_field fs)) = Inr fs"
proof -
  have "list_all encodable fs \<Longrightarrow> fields_from (pre @ concat (map encode_field fs)) (length pre) = Inr fs" for pre
  proof (induction fs arbitrary: pre)
    case (Cons f fs)
    then show ?case
      using fields_from_field [of f pre "concat (map encode_field fs)"] Cons.IH [of "pre @ encode_field f"] by simp
  qed simp
  from this [of "[]"] assms show ?thesis by (simp add: iter_fields_def)
qed

lemma length_encode_varint: "v < 2 ^ 70 \<Longrightarrow> length (encode_varint v) \<le> 10"
proof -
  have "v < 128 ^ Suc n \<Longrightarrow> length (encode_varint v) \<le> Suc n" for n v
  proof (induction n arbitrary: v)
    case (Suc n)
    then show ?case using Suc.IH [of "v div 128"] by (simp add: encode_varint_unfold [of v] less_mult_imp_div_less)
  qed (simp add: encode_varint_unfold)
  from this [of v 9] show "v < 2 ^ 70 \<Longrightarrow> length (encode_varint v) \<le> 10" by simp
qed

lemma utf8_char_octets:
  "map unat (utf8_char c) = (let n = of_char c in if n < 128 then [n] else [192 + n div 64, 128 + n mod 64])"
proof -
  have octet: "unat (of_nat m :: byte) = m" if "m < 256" for m using that by (simp add: unat_of_nat)
  have "of_char c div 64 < (4 :: nat)" using of_char_mod_256 [of c] by (simp add: less_mult_imp_div_less)
  then have "192 + of_char c div 64 < (256 :: nat)" "128 + of_char c mod 64 < (256 :: nat)"
    using mod_less_divisor [of 64 "of_char c :: nat"] by linarith+
  then show ?thesis by (simp add: utf8_char_def Let_def octet del: of_nat_add)
qed

lemma utf8_codes_encode: "utf8_codes (map unat (utf8_encode s)) = Some (map of_char s)"
proof (induction s)
  case (Cons c s)
  let ?n = "of_char c :: nat"
  have parts: "?n div 64 < 4" "?n mod 64 < 64" "64 * (?n div 64) + ?n mod 64 = ?n"
    by (simp_all add: less_mult_imp_div_less)
  have enc: "utf8_encode (c # s) = utf8_char c @ utf8_encode s" by (simp add: utf8_encode_def)
  show ?case
  proof (cases "?n < 128")
    case True
    with Cons show ?thesis by (simp add: enc utf8_char_octets Let_def)
  next
    case False
    with Cons parts show ?thesis by (simp add: enc utf8_char_octets Let_def is_cont_def mult.commute)
  qed
qed (simp add: utf8_encode_def)

definition stamp_fields :: "nat \<Rightarrow> nat \<Rightarrow> wire_field list" where
  "stamp_fields seconds nanos = \<lparr>field_number = 1, wire_type = 0, wire_value = WInt seconds\<rparr> #
     (if nanos \<noteq> 0 then [\<lparr>field_number = 2, wire_type = 0, wire_value = WInt nanos\<rparr>] else [])"

lemma stamp_fields_encodable: "s < 2 ^ 70 \<Longrightarrow> n < 2 ^ 70 \<Longrightarrow> list_all encodable (stamp_fields s n)"
  by (simp add: stamp_fields_def encodable_def)

lemma timestamp_stamp:
  assumes "s < 2 ^ 70" "n < 1000000000"
  shows "timestamp (Some (concat (map encode_field (stamp_fields s n)))) clock = Inr (real s + real n / 1000000000)"
proof -
  have "iter_fields (concat (map encode_field (stamp_fields s n))) = Inr (stamp_fields s n)"
    using assms by (intro iter_encoded stamp_fields_encodable) auto
  with assms show ?thesis by (simp add: timestamp_def int_field_def first_value_def is_field_def stamp_fields_def)
qed

definition ack_stamp :: "real \<Rightarrow> wire_field list" where
  "ack_stamp now = stamp_fields (nat \<lfloor>now\<rfloor>) (nat \<lfloor>(now - of_int \<lfloor>now\<rfloor>) * 1000000000\<rfloor>)"

lemma fraction_nanos: "nat \<lfloor>(now - of_int \<lfloor>now\<rfloor>) * 1000000000\<rfloor> < 1000000000" for now :: real
proof -
  have "0 \<le> now - of_int \<lfloor>now\<rfloor>" "now - of_int \<lfloor>now\<rfloor> < 1" by linarith+
  then have "(now - of_int \<lfloor>now\<rfloor>) * 1000000000 < 1000000000" "0 \<le> (now - of_int \<lfloor>now\<rfloor>) * 1000000000" by simp_all
  then have "\<lfloor>(now - of_int \<lfloor>now\<rfloor>) * 1000000000\<rfloor> < 1000000000" by (simp add: floor_less_iff)
  then show ?thesis by linarith
qed

lemma seconds_fit: "now < 2 ^ 60 \<Longrightarrow> nat \<lfloor>now\<rfloor> < 2 ^ 70" for now :: real
proof -
  assume "now < 2 ^ 60"
  then have "nat \<lfloor>now\<rfloor> \<le> nat (2 ^ 60)" by (intro nat_mono) (simp add: floor_le_iff)
  also have "\<dots> < 2 ^ 70" by simp
  finally show ?thesis .
qed

lemma ack_stamp_encodable: "now < 2 ^ 60 \<Longrightarrow> list_all encodable (ack_stamp now)"
  unfolding ack_stamp_def using fraction_nanos [of now] seconds_fit [of now] by (intro stamp_fields_encodable) auto

lemma length_encode_field:
  "encodable f \<Longrightarrow> wire_type f = 0 \<Longrightarrow> length (encode_field f) \<le> 20"
proof -
  assume f: "encodable f" "wire_type f = 0"
  then obtain v where v: "wire_value f = WInt v" "v < 2 ^ 70" by (auto simp: encodable_def split: wire_value.splits)
  from f have "8 * field_number f < 2 ^ 70" by (simp add: encodable_def)
  with v show ?thesis using length_encode_varint [of v] length_encode_varint [of "8 * field_number f"]
    by (simp add: encode_field_def encode_number_def)
qed

lemma length_utf8_encode: "length (utf8_encode s) \<le> 2 * length s"
  by (induction s) (auto simp: utf8_encode_def utf8_char_def Let_def)

text \<open>
  C34: An acknowledgement says what it is given. The message that the listener sends for a
  registration is read back by the parser of messages: the time of its envelope is the clock to a nanosecond,
  its two names are those given, and its content is one acknowledgement with the decision.
\<close>

theorem registration_ack_read_back:
  assumes "0 \<le> now" "now < 2 ^ 60" "length node < 2 ^ 60" "length destination < 2 ^ 60"
  shows "\<exists>fs stamp ack. registration_ack node destination accepted now =
      pack_le 4 (length (ack_envelope node destination accepted now)) @ ack_envelope node destination accepted now \<and>
    iter_fields (ack_envelope node destination accepted now) = Inr fs \<and> map field_number fs = [1, 2, 3, 5] \<and>
    timestamp (bytes_field fs 1) clock = Inr stamp \<and> stamp \<le> now \<and> now < stamp + 1 / 10 ^ 9 \<and>
    utf8_codes (map unat (the (bytes_field fs 2))) = Some (map of_char node) \<and>
    utf8_codes (map unat (the (bytes_field fs 3))) = Some (map of_char destination) \<and>
    and_then (iter_fields (the (bytes_field fs 5))) (\<lambda>a. Inr (int_field a 1)) = Inr (Some (if accepted then 1 else 0))"
proof -
  let ?s = "concat (map encode_field (ack_stamp now))"
  let ?a = "encode_number 8 (if accepted then 1 else 0)"
  let ?b = "\<lambda>n b. \<lparr>field_number = n, wire_type = 2, wire_value = WBytes b\<rparr>"
  let ?fs = "[?b 1 ?s, ?b 2 (utf8_encode node), ?b 3 (utf8_encode destination), ?b 5 ?a]"
  let ?sec = "nat \<lfloor>now\<rfloor>" let ?nan = "nat \<lfloor>(now - of_int \<lfloor>now\<rfloor>) * 1000000000\<rfloor>"
  have env: "ack_envelope node destination accepted now = concat (map encode_field ?fs)"
    by (simp add: ack_envelope_def ack_stamp_def stamp_fields_def Let_def encode_field_def)
  have short: "length ?s < 2 ^ 70"
  proof -
    have "list_all (\<lambda>f. length (encode_field f) \<le> 20) (ack_stamp now)"
      using ack_stamp_encodable [OF assms(2)] length_encode_field by (auto simp: ack_stamp_def stamp_fields_def)
    then show ?thesis by (auto simp: ack_stamp_def stamp_fields_def)
  qed
  have "length ?a < 2 ^ 70"
    using length_encode_varint [of 8] length_encode_varint [of "if accepted then 1 else 0"] by (auto simp: encode_number_def)
  then have "list_all encodable ?fs"
    using short length_utf8_encode [of node] length_utf8_encode [of destination] assms by (auto simp: encodable_def)
  then have fs: "iter_fields (ack_envelope node destination accepted now) = Inr ?fs" unfolding env by (rule iter_encoded)
  have a: "iter_fields ?a = Inr [\<lparr>field_number = 1, wire_type = 0, wire_value = WInt (if accepted then 1 else 0)\<rparr>]"
    using iter_encoded [of "[\<lparr>field_number = 1, wire_type = 0, wire_value = WInt (if accepted then 1 else 0)\<rparr>]"]
    by (simp add: encodable_def encode_field_def)
  have t: "timestamp (bytes_field ?fs 1) clock = Inr (real ?sec + real ?nan / 1000000000)"
    using timestamp_stamp [OF seconds_fit [OF assms(2)] fraction_nanos [of now], of clock]
    by (simp add: bytes_field_def first_value_def is_field_def ack_stamp_def)
  have near: "real ?sec + real ?nan / 1000000000 \<le> now \<and> now < real ?sec + real ?nan / 1000000000 + 1 / 10 ^ 9"
  proof -
    have "0 \<le> \<lfloor>(now - of_int \<lfloor>now\<rfloor>) * 1000000000\<rfloor>" "0 \<le> \<lfloor>now\<rfloor>" using assms(1) by simp_all
    then have r: "real ?sec = of_int \<lfloor>now\<rfloor>" "real ?nan = of_int \<lfloor>(now - of_int \<lfloor>now\<rfloor>) * 1000000000\<rfloor>" by simp_all
    have "of_int \<lfloor>(now - of_int \<lfloor>now\<rfloor>) * 1000000000\<rfloor> \<le> (now - of_int \<lfloor>now\<rfloor>) * 1000000000"
      "(now - of_int \<lfloor>now\<rfloor>) * 1000000000 < of_int \<lfloor>(now - of_int \<lfloor>now\<rfloor>) * 1000000000\<rfloor> + 1" by linarith+
    then show ?thesis unfolding r by (simp add: field_simps)
  qed
  obtain stamp where "timestamp (bytes_field ?fs 1) clock = Inr stamp" "stamp \<le> now" "now < stamp + 1 / 10 ^ 9"
    using t near by blast
  then show ?thesis
    using fs a
    by (intro exI [of _ ?fs] exI [of _ stamp])
      (simp add: registration_ack_def Let_def bytes_field_def first_value_def is_field_def utf8_codes_encode int_field_def)
qed

theorem registration_ack_read_back_witness:
  "\<exists>fs stamp. iter_fields (ack_envelope ''pod'' ''node'' True 5) = Inr fs \<and> timestamp (bytes_field fs 1) 0 = Inr stamp \<and> stamp \<le> 5 \<and> map field_number fs = [1, 2, 3, 5]"
  using registration_ack_read_back [of 5 "''pod''" "''node''" True 0] by auto

subsection \<open>Frames\<close>

definition flex_max_frame :: nat where "flex_max_frame = 1048576"

definition frame_length :: "bytes \<Rightarrow> nat" where
  "frame_length buf = from_bytes_little (py_slice buf 0 4)"

definition bad_length :: "nat \<Rightarrow> bool" where
  "bad_length n \<longleftrightarrow> n = 0 \<or> n > flex_max_frame"

text \<open>The loop of the raw topic, with a handler of frames that may raise, which ends the pass over the buffer.\<close>

function flex_pass :: "('s \<Rightarrow> bytes \<Rightarrow> 's \<times> bool) \<Rightarrow> 's \<Rightarrow> bytes \<Rightarrow> 's \<times> bytes" where
  "flex_pass handle st buf =
     (if length buf < 4 then (st, buf)
      else let n = frame_length buf in
      if bad_length n then flex_pass handle st (drop 1 buf)
      else if length buf < n + 4 then (st, buf)
      else (case handle st (py_slice buf 4 (4 + n)) of (st, raised) \<Rightarrow>
        if raised then (st, drop (4 + n) buf) else flex_pass handle st (drop (4 + n) buf)))"
  by pat_completeness auto
termination by (relation "measure (\<lambda>(h, st, buf). length buf)") auto

declare flex_pass.simps [simp del]

text \<open>The frames of a buffer, and what stays: the same loop with nothing but the cutting.\<close>

function flex_drain :: "bytes \<Rightarrow> bytes list \<times> bytes" where
  "flex_drain buf =
     (if length buf < 4 then ([], buf)
      else let n = frame_length buf in
      if bad_length n then flex_drain (drop 1 buf)
      else if length buf < n + 4 then ([], buf)
      else (py_slice buf 4 (4 + n) # fst (flex_drain (drop (4 + n) buf)), snd (flex_drain (drop (4 + n) buf))))"
  by pat_completeness auto
termination by (relation "measure length") auto

declare flex_drain.simps [simp del]

definition flex_encoded :: "bytes \<Rightarrow> bytes" where
  "flex_encoded f = pack_le 4 (length f) @ f"

definition flex_valid :: "bytes \<Rightarrow> bool" where
  "flex_valid f \<longleftrightarrow> f \<noteq> [] \<and> length f \<le> flex_max_frame"

lemma frame_length_append: "4 \<le> length a \<Longrightarrow> frame_length (a @ b) = frame_length a"
  by (simp add: frame_length_def py_slice_def)


lemma flex_drain_short: "length buf < 4 \<Longrightarrow> flex_drain buf = ([], buf)"
  by (simp add: flex_drain.simps)

lemma flex_drain_bad: "4 \<le> length buf \<Longrightarrow> bad_length (frame_length buf) \<Longrightarrow> flex_drain buf = flex_drain (drop 1 buf)"
  by (subst flex_drain.simps) simp

lemma flex_drain_wait:
  "4 \<le> length buf \<Longrightarrow> \<not> bad_length (frame_length buf) \<Longrightarrow> length buf < frame_length buf + 4 \<Longrightarrow> flex_drain buf = ([], buf)"
  by (subst flex_drain.simps) (simp add: Let_def)

lemma flex_drain_take:
  "4 \<le> length buf \<Longrightarrow> \<not> bad_length (frame_length buf) \<Longrightarrow> frame_length buf + 4 \<le> length buf \<Longrightarrow>
    flex_drain buf = (py_slice buf 4 (4 + frame_length buf) # fst (flex_drain (drop (4 + frame_length buf) buf)),
      snd (flex_drain (drop (4 + frame_length buf) buf)))"
  by (subst flex_drain.simps) (simp add: Let_def)

lemma flex_drain_resume:
  "flex_drain (a @ b) = (fst (flex_drain a) @ fst (flex_drain (snd (flex_drain a) @ b)), snd (flex_drain (snd (flex_drain a) @ b)))"
proof (induction a rule: flex_drain.induct)
  case (1 a)
  let ?n = "frame_length a"
  consider "length a < 4" | "4 \<le> length a" "bad_length ?n" | "4 \<le> length a" "\<not> bad_length ?n" "length a < ?n + 4"
    | "4 \<le> length a" "\<not> bad_length ?n" "?n + 4 \<le> length a" by linarith
  then show ?case
  proof cases
    case 2
    then have "flex_drain (a @ b) = flex_drain (drop 1 a @ b)"
      by (subst flex_drain_bad) (simp_all add: frame_length_append)
    with 2 "1.IH"(1) show ?thesis by (simp add: flex_drain_bad [of a])
  next
    case 4
    then have "flex_drain (a @ b) = (py_slice a 4 (4 + ?n) # fst (flex_drain (drop (4 + ?n) a @ b)), snd (flex_drain (drop (4 + ?n) a @ b)))"
      by (subst flex_drain_take) (simp_all add: frame_length_append py_slice_def)
    with 4 "1.IH"(2) show ?thesis by (simp add: flex_drain_take [of a])
  qed (simp_all add: flex_drain_short flex_drain_wait)
qed

lemma frame_length_encoded: "flex_valid f \<Longrightarrow> frame_length (flex_encoded f @ rest) = length f \<and> \<not> bad_length (length f)"
  by (simp add: frame_length_def flex_encoded_def flex_valid_def py_slice_def from_pack_le flex_max_frame_def bad_length_def)

interpretation flex: resuming_stream flex_drain flex_encoded flex_valid
proof unfold_locales
  fix f rest :: bytes
  assume v: "flex_valid f"
  have n: "frame_length (flex_encoded f @ rest) = length f" "\<not> bad_length (length f)" using frame_length_encoded [OF v] by auto
  show "flex_drain (flex_encoded f @ rest) = (f # fst (flex_drain rest), snd (flex_drain rest))"
    by (subst flex_drain_take) (simp_all only: n, simp_all add: flex_encoded_def py_slice_def)
next
  fix f q s :: bytes
  assume v: "flex_valid f" and q: "flex_encoded f = q @ s" "s \<noteq> []"
  have n: "frame_length (flex_encoded f @ []) = length f" "\<not> bad_length (length f)" using frame_length_encoded [OF v] by blast+
  show "flex_drain q = ([], q)"
  proof (cases "length q < 4")
    case False
    then have "frame_length q = length f" using n(1) q(1) by (simp add: frame_length_append)
    moreover have "length q < length f + 4" using arg_cong [OF q(1), of length] q(2) by (cases s) (simp_all add: flex_encoded_def)
    ultimately show ?thesis using False n(2) by (simp add: flex_drain_wait)
  qed (rule flex_drain_short)
next
  fix f :: bytes
  show "flex_encoded f \<noteq> []" if "flex_valid f" using length_pack_le [of 4 "length f"] by (auto simp: flex_encoded_def simp del: length_pack_le)
qed (rule flex_drain_resume)

text \<open>One pass hands over the first frames of the buffer, up to one whose handler raises, and keeps the rest.\<close>

lemma flex_pass_frames:
  "flex_pass h st buf = (st', rest) \<Longrightarrow>
    \<exists>taken. flex_drain buf = (taken @ fst (flex_drain rest), snd (flex_drain rest)) \<and>
      st' = fold (\<lambda>f s. fst (h s f)) taken st"
proof (induction h st buf rule: flex_pass.induct)
  case (1 h st buf)
  let ?n = "frame_length buf"
  consider "length buf < 4" | "4 \<le> length buf" "bad_length ?n" | "4 \<le> length buf" "\<not> bad_length ?n" "length buf < ?n + 4"
    | "4 \<le> length buf" "\<not> bad_length ?n" "?n + 4 \<le> length buf" by linarith
  then show ?case
  proof cases
    case 1
    with "1.prems" have "st' = st" "rest = buf" by (simp_all add: flex_pass.simps [of h st buf])
    with 1 show ?thesis by (intro exI [of _ "[]"]) (simp add: flex_drain_short)
  next
    case 2
    with "1.prems" "1.IH"(1) show ?thesis by (simp add: flex_pass.simps [of h st buf] flex_drain_bad [of buf])
  next
    case 3
    with "1.prems" have "st' = st" "rest = buf" by (simp_all add: flex_pass.simps [of h st buf] Let_def)
    with 3 show ?thesis by (intro exI [of _ "[]"]) (simp add: flex_drain_wait)
  next
    case 4
    let ?f = "py_slice buf 4 (4 + ?n)"
    obtain s raised where s: "h st ?f = (s, raised)" by force
    show ?thesis
    proof (cases raised)
      case True
      with 4 s "1.prems" have "st' = s" "rest = drop (4 + ?n) buf" by (simp_all add: flex_pass.simps [of h st buf] Let_def)
      with 4 s show ?thesis by (intro exI [of _ "[?f]"]) (simp add: flex_drain_take [of buf])
    next
      case False
      with 4 s "1.prems" have "flex_pass h s (drop (4 + ?n) buf) = (st', rest)" by (simp add: flex_pass.simps [of h st buf] Let_def)
      with "1.IH"(2) [OF _ refl _ _ s [symmetric]] 4 False obtain taken where
        "flex_drain (drop (4 + ?n) buf) = (taken @ fst (flex_drain rest), snd (flex_drain rest))" "st' = fold (\<lambda>f s. fst (h s f)) taken s"
        by auto
      with 4 s show ?thesis by (intro exI [of _ "?f # taken"]) (simp add: flex_drain_take [of buf])
    qed
  qed
qed

lemma flex_pass_short: "length buf < 4 \<Longrightarrow> flex_pass h st buf = (st, buf)"
  by (simp add: flex_pass.simps)

text \<open>The samples of the raw topic, one after the other.\<close>

fun flex_samples :: "('s \<Rightarrow> bytes \<Rightarrow> 's \<times> bool) \<Rightarrow> bytes list \<Rightarrow> 's \<Rightarrow> bytes \<Rightarrow> 's \<times> bytes" where
  "flex_samples handle [] st buf = (st, buf)"
| "flex_samples handle (c # cs) st buf = (case flex_pass handle st (buf @ c) of (st, rest) \<Rightarrow> flex_samples handle cs st rest)"

lemma flex_samples_frames:
  "flex_samples h cs st buf = (st', rest) \<Longrightarrow>
    \<exists>taken. flex_drain (buf @ concat cs) = (taken @ fst (flex_drain rest), snd (flex_drain rest)) \<and> st' = fold (\<lambda>f s. fst (h s f)) taken st"
proof (induction h cs st buf rule: flex_samples.induct)
  case (2 h c cs st buf)
  obtain s r where s: "flex_pass h st (buf @ c) = (s, r)" by force
  from flex_pass_frames [OF s] obtain first where first: "flex_drain (buf @ c) = (first @ fst (flex_drain r), snd (flex_drain r))"
      "s = fold (\<lambda>f s. fst (h s f)) first st"
    by (elim exE conjE)
  from "2.IH" [OF s [symmetric]] "2.prems" s obtain more where
    more: "flex_drain (r @ concat cs) = (more @ fst (flex_drain rest), snd (flex_drain rest))" "st' = fold (\<lambda>f s. fst (h s f)) more s"
    by auto
  have "flex_drain (buf @ concat (c # cs)) = (first @ fst (flex_drain (r @ concat cs)), snd (flex_drain (r @ concat cs)))"
    using flex_drain_resume [of "buf @ c" "concat cs"] flex_drain_resume [of r "concat cs"] first(1) by simp
  with more first(2) show ?case by (intro exI [of _ "first @ more"]) simp
qed (simp add: exI [of _ "[]"])

lemma flex_pass_empties:
  "flex_pass h st buf = (st', rest) \<Longrightarrow> \<forall>s f. \<not> snd (h s f) \<Longrightarrow> fst (flex_drain rest) = []"
proof (induction h st buf rule: flex_pass.induct)
  case (1 h st buf)
  obtain s where "h st (py_slice buf 4 (4 + frame_length buf)) = (s, False)"
    using "1.prems"(2) by (metis (full_types) prod.collapse)
  then show ?case
    using "1.prems" "1.IH"
    by (subst (asm) flex_pass.simps [of h st buf])
      (auto simp: Let_def flex_drain_short flex_drain_wait not_less split: if_splits prod.splits)
qed

lemma flex_samples_empties:
  "flex_samples h cs st buf = (st', rest) \<Longrightarrow> \<forall>s f. \<not> snd (h s f) \<Longrightarrow> fst (flex_drain buf) = [] \<Longrightarrow> fst (flex_drain rest) = []"
  by (induction h cs st buf rule: flex_samples.induct) (auto dest: flex_pass_empties split: prod.splits)

text \<open>
  C33: The raw topic loses no frame and keeps their order. However a stream of frames is cut into
  samples, and whichever frames the decoder refuses, the frames handed to it are the first ones of the stream,
  each once; those it has not had yet are still in the buffer; and if it refuses none, none is left.
\<close>

theorem raw_topic_loses_nothing:
  assumes "list_all flex_valid ms" "concat cs = concat (map flex_encoded ms)"
    and "flex_samples h cs st [] = (st', rest)"
  shows "\<exists>taken waiting. ms = taken @ waiting \<and> st' = fold (\<lambda>f s. fst (h s f)) taken st \<and> flex_drain rest = (waiting, []) \<and>
    ((\<forall>s f. \<not> snd (h s f)) \<longrightarrow> waiting = [])"
proof -
  obtain taken where t: "flex_drain (concat cs) = (taken @ fst (flex_drain rest), snd (flex_drain rest))"
      "st' = fold (\<lambda>f s. fst (h s f)) taken st"
    using flex_samples_frames [OF assms(3)] by auto
  have "flex_drain (concat cs) = (ms, [])"
  proof (cases ms)
    case Nil
    with assms(2) have "concat cs = []" by simp
    with Nil show ?thesis by (simp only: flex_drain_short list.size)
  next
    case (Cons m ms')
    with assms(1) have "flex_valid m" by simp
    then show ?thesis using flex.drain_messages [OF assms(1) _ \<open>flex_valid m\<close>, of "[]"] assms(2) by (simp add: flex.partial_def)
  qed
  with t flex_samples_empties [OF assms(3)] show ?thesis
    by (intro exI [of _ taken] exI [of _ "fst (flex_drain rest)"]) (auto simp: flex_drain_short prod_eq_iff)
qed

text \<open>The frames behind one that the decoder refuses wait for the next sample.\<close>

lemma flex_pass_refused:
  assumes "flex_valid f" "h st f = (s, True)"
  shows "flex_pass h st (flex_encoded f @ rest) = (s, rest)"
proof -
  have n: "frame_length (flex_encoded f @ rest) = length f" "\<not> bad_length (length f)" using frame_length_encoded [OF assms(1)] by auto
  show ?thesis by (subst flex_pass.simps) (simp only: n Let_def, simp add: flex_encoded_def py_slice_def assms(2))
qed

lemma refused_frame_delays_next:
  "flex_valid f \<Longrightarrow> h st f = (s, True) \<Longrightarrow> flex_samples h [flex_encoded f @ flex_encoded g] st [] = (s, flex_encoded g)"
  by (simp add: flex_pass_refused)

theorem raw_topic_loses_nothing_witness:
  "\<exists>st' rest. flex_samples (\<lambda>s f. (s @ [f], f = [1])) [[1, 0, 0], [0, 1, 1, 0, 0, 0, 2]] [] [] = (st', rest) \<and> st' = [[1]] \<and> flex_drain rest = ([[2]], [])"
proof -
  let ?h = "\<lambda>(s :: bytes list) f. (s @ [f], f = [1])" and ?cs = "[[1, 0, 0], [0, 1, 1, 0, 0, 0, 2]] :: bytes list"
  obtain st' rest where r: "flex_samples ?h ?cs [] [] = (st', rest)" by force
  have enc: "flex_encoded [1] = [1, 0, 0, 0, 1]" "flex_encoded [2] = [1, 0, 0, 0, 2]" by (simp_all add: flex_encoded_def pack_le_def upt_rec)
  have "list_all flex_valid [[1], [2]]" "concat ?cs = concat (map flex_encoded [[1], [2]])"
    by (simp_all add: enc flex_valid_def flex_max_frame_def)
  from raw_topic_loses_nothing [OF this r] obtain taken waiting where
    tw: "[[1], [2]] = taken @ waiting" "st' = fold (\<lambda>f s. s @ [f]) taken []" "flex_drain rest = (waiting, [])" by auto
  have "flex_samples ?h ?cs [] [] = ([[1]], [1, 0, 0, 0, 2])"
    using flex_pass_refused [of "[1]" ?h "[]" "[[1]]" "[1, 0, 0, 0, 2]"]
    by (simp add: flex_pass_short enc flex_valid_def flex_max_frame_def)
  with r tw show ?thesis by (auto simp: Cons_eq_append_conv)
qed

end
