(* ===== verification/Sapient_Decode.thy ===== *)
theory Sapient_Decode
  imports Sapient_Wire Asterix_Publish Asterix_Fields Fusion_Filters Positions
begin

text \<open>
  The SAPIENT decoder (\<open>SapientDecoder\<close> in \<open>flex335.py\<close>): what it keeps of each node and object, the messages
  that a node sends, and the tracks it makes of them. An operation that raises part-way returns the state it
  leaves. The clock is an argument.
\<close>

subsection \<open>Tables\<close>

definition content_kinds :: "(nat \<times> string) list" where
  "content_kinds = [(4, ''registration''), (5, ''registration_ack''), (6, ''status_report''), (7, ''detection_report''), (8, ''task''),
     (9, ''task_ack''), (10, ''alert''), (11, ''alert_ack''), (12, ''error'')]"

definition node_type_names :: "(nat \<times> string) list" where
  "node_type_names = [(1, ''other''), (2, ''radar''), (3, ''lidar''), (4, ''camera''), (5, ''seismic''), (6, ''acoustic''),
     (7, ''proximity_sensor''), (8, ''passive_rf''), (9, ''human''), (10, ''chemical''), (11, ''biological''), (12, ''radiation''),
     (13, ''kinetic''), (14, ''jammer''), (15, ''cyber''), (16, ''ldew''), (17, ''rfdew''), (18, ''mobile_node''),
     (19, ''pointable_node''), (20, ''fusion_node'')]"

definition system_states :: "(nat \<times> string) list" where
  "system_states = [(0, ''unspecified''), (1, ''ok''), (2, ''warning''), (3, ''error''), (5, ''goodbye'')]"

definition alert_types :: "(nat \<times> string) list" where
  "alert_types = [(0, ''unspecified''), (1, ''information''), (2, ''warning''), (3, ''critical''), (4, ''error''), (5, ''fatal''),
     (6, ''mode_change'')]"

definition alert_states :: "(nat \<times> string) list" where
  "alert_states = [(0, ''unspecified''), (1, ''active''), (2, ''acknowledge''), (3, ''reject''), (4, ''ignore''), (5, ''clear'')]"

definition alert_priorities :: "(nat \<times> string) list" where
  "alert_priorities = [(0, ''unspecified''), (1, ''low''), (2, ''medium''), (3, ''high'')]"

definition sapient_info :: "(nat \<times> string) list" where
  "sapient_info = [(0, ''unspecified''), (1, ''new''), (2, ''unchanged'')]"

definition power_sources :: "(nat \<times> string) list" where
  "power_sources = [(0, ''unspecified''), (1, ''other''), (2, ''mains''), (3, ''internal_battery''), (4, ''external_battery''),
     (5, ''generator''), (6, ''solar_pv''), (7, ''wind_turbine''), (8, ''fuel_cell'')]"

definition power_states :: "(nat \<times> string) list" where
  "power_states = [(0, ''unspecified''), (1, ''ok''), (2, ''fault'')]"

definition status_levels :: "(nat \<times> string) list" where
  "status_levels = [(0, ''unspecified''), (2, ''information''), (3, ''warning''), (4, ''error'')]"

definition status_types :: "(nat \<times> string) list" where
  "status_types = [(0, ''unspecified''), (1, ''internal_fault''), (2, ''external_fault''), (3, ''illumination''), (4, ''weather''),
     (5, ''clutter''), (6, ''exposure''), (7, ''motion_sensitivity''), (8, ''ptz_status''), (9, ''pd''), (10, ''far''),
     (11, ''not_detecting''), (12, ''platform''), (13, ''other'')]"

definition task_states :: "(nat \<times> string) list" where
  "task_states = [(0, ''unspecified''), (1, ''accepted''), (2, ''rejected''), (3, ''completed''), (4, ''failed'')]"

definition alert_ack_states :: "(nat \<times> string) list" where
  "alert_ack_states = [(0, ''unspecified''), (1, ''accepted''), (2, ''rejected''), (3, ''cancelled'')]"

definition task_controls :: "(nat \<times> string) list" where
  "task_controls = [(0, ''unspecified''), (1, ''start''), (2, ''stop''), (3, ''pause'')]"

definition delete_states :: "string list" where
  "delete_states = [''clear'', ''closed'', ''delete'', ''deleted'', ''end'', ''ended'', ''lost'', ''removed'', ''terminated'']"

definition max_objects :: nat where "max_objects = 20000"

text \<open>\<open>table.get(n, prefix + str(n))\<close>.\<close>

definition name_or :: "(nat \<times> string) list \<Rightarrow> string \<Rightarrow> nat \<Rightarrow> string" where
  "name_or t pre n = (case map_of t n of Some s \<Rightarrow> s | None \<Rightarrow> pre @ fmt_int (int n))"

text \<open>An assignment made only for a value that is there.\<close>

definition if_some :: "string \<Rightarrow> ('a \<Rightarrow> pyval) \<Rightarrow> 'a option \<Rightarrow> dict" where
  "if_some k f v = (case v of None \<Rightarrow> [] | Some x \<Rightarrow> [(k, f x)])"

definition or_else :: "'a option \<Rightarrow> 'a \<Rightarrow> 'a" where
  "or_else v d = (case v of None \<Rightarrow> d | Some x \<Rightarrow> x)"

definition rounded :: "nat \<Rightarrow> real \<Rightarrow> pyval" where
  "rounded n x = VFloat (py_round x n)"

definition VNat :: "nat \<Rightarrow> pyval" where
  "VNat n = VInt (int n)"

fun sum_map :: "('a \<Rightarrow> 'e + 'b) \<Rightarrow> 'a list \<Rightarrow> 'e + 'b list" where
  "sum_map f [] = Inr []"
| "sum_map f (x # xs) = and_then (f x) (\<lambda>y. and_then (sum_map f xs) (\<lambda>ys. Inr (y # ys)))"

subsection \<open>Positions\<close>

text \<open>Latitude, longitude, altitude, and what is kept about them.\<close>

definition decode_location :: "bytes \<Rightarrow> sapient_error + real \<times> real \<times> real option \<times> dict" where
  "decode_location b = and_then (iter_fields b) (\<lambda>fs.
     case (double_field fs 1, double_field fs 2) of
       (Some x, Some y) \<Rightarrow>
         let sys = int_field fs 7; datum = int_field fs 8 in
         and_then
           (if sys = Some 1 then Inr (y, x)
            else if sys = Some 2 then Inr (degrees y, degrees x)
            else if sys = Some 5 then Inl UtmLocation
            else Inl BadLocationSystem)
           (\<lambda>(lat, lon).
             if datum \<noteq> Some 1 \<and> datum \<noteq> Some 2 then Inl BadLocationDatum
             else if \<not> (- 90 \<le> lat \<and> lat \<le> 90 \<and> - 180 \<le> lon \<and> lon \<le> 180) then Inl OutsideBounds
             else Inr (lat, lon, double_field fs 3,
               [(''sapient_location_coordinate_system'', VNat (or_else sys 0)), (''sapient_location_datum'', VNat (or_else datum 0)),
                (''altitude_reference'', VStr (if datum = Some 1 then ''wgs84_ellipsoid'' else ''wgs84_geoid''))] @
               if_some ''lon_error'' VFloat (double_field fs 4) @ if_some ''lat_error'' VFloat (double_field fs 5) @
               if_some ''alt_error_m'' VFloat (double_field fs 6)))
     | _ \<Rightarrow> Inl NoCoordinates)"

definition decode_range_bearing :: "bytes \<Rightarrow> sapient_error + real \<times> real \<times> real \<times> dict" where
  "decode_range_bearing b = and_then (iter_fields b) (\<lambda>fs.
     let elevation = or_else (double_field fs 1) 0; sys = int_field fs 7; datum = int_field fs 8 in
     case (double_field fs 2, double_field fs 3) of
       (Some azimuth, Some distance) \<Rightarrow>
         and_then
           (if sys = Some 2 \<or> sys = Some 4 then Inr (degrees azimuth, degrees elevation)
            else if sys \<noteq> Some 1 \<and> sys \<noteq> Some 3 then Inl BadBearingSystem
            else Inr (azimuth, elevation))
           (\<lambda>(azimuth, elevation).
             let distance = (if sys = Some 3 \<or> sys = Some 4 then distance * 1000 else distance) in
             if datum \<noteq> Some 1 then (if datum = Some 2 \<or> datum = Some 3 \<or> datum = Some 4 then Inl RelativeBearing else Inl BadBearingDatum)
             else Inr (elevation, float_mod azimuth 360, distance,
               [(''sapient_range_m'', rounded 2 distance), (''sapient_azimuth_deg'', rounded 3 (float_mod azimuth 360)),
                (''sapient_elevation_deg'', rounded 3 elevation), (''sapient_range_bearing_datum'', VNat (or_else datum 0))]))
     | _ \<Rightarrow> Inl NoBearing)"

record node_state =
  nd_name :: "string option"
  icd_version :: "string option"
  node_types :: "string list"
  latitude :: "real option"
  longitude :: "real option"
  altitude_m :: "real option"
  horizontal_units :: "nat option"
  vertical_units :: "nat option"
  capabilities :: "dict list"
  status_interval_s :: "real option"
  dependent_nodes :: "string list"
  region_count :: nat
  config_data :: "dict list"

definition new_node :: node_state where
  "new_node = \<lparr>nd_name = None, icd_version = None, node_types = [], latitude = None, longitude = None, altitude_m = None,
     horizontal_units = None, vertical_units = None, capabilities = [], status_interval_s = None, dependent_nodes = [],
     region_count = 0, config_data = []\<rparr>"

definition project :: "node_state \<Rightarrow> real \<Rightarrow> real \<Rightarrow> real \<Rightarrow> sapient_error + real \<times> real \<times> real option" where
  "project origin elevation azimuth distance = (case (latitude origin, longitude origin) of
     (Some lat, Some lon) \<Rightarrow>
       let horizontal = distance * cos (radians elevation); angular = horizontal / 6371008.8; bearing = radians azimuth;
           lat1 = radians lat; lon1 = radians lon;
           lat2 = arcsin (sin lat1 * cos angular + cos lat1 * sin angular * cos bearing);
           lon2 = lon1 + atan2 (sin bearing * sin angular * cos lat1) (cos angular - sin lat1 * sin lat2)
       in Inr (degrees lat2, float_mod (degrees lon2 + 540) 360 - 180,
            map_option (\<lambda>a. a + distance * sin (radians elevation)) (altitude_m origin))
   | _ \<Rightarrow> Inl NoSensorLocation)"

subsection \<open>Parts of a report\<close>

text \<open>A dictionary of texts.\<close>

fun decode_info_from :: "dict \<Rightarrow> bytes list \<Rightarrow> sapient_error + dict" where
  "decode_info_from d [] = Inr d"
| "decode_info_from d (b # bs) = and_then (iter_fields b) (\<lambda>fs.
     decode_info_from (case (text_field fs 1, text_field fs 2) of
       (Some k, Some v) \<Rightarrow> AList.update (take 96 k) (VStr (take 256 v)) d | _ \<Rightarrow> d) bs)"

definition decode_info :: "bytes list \<Rightarrow> sapient_error + dict" where
  "decode_info bs = decode_info_from [] (take 64 bs)"

text \<open>A part with a type and a confidence; \<open>None\<close> for one that is left out.\<close>

definition decode_sub_class :: "bytes \<Rightarrow> sapient_error + dict option" where
  "decode_sub_class b = and_then (iter_fields b) (\<lambda>fs.
     Inr (map_option (\<lambda>t. (''type'', VStr t) # if_some ''confidence'' (rounded 4) (float_field fs 2) @ if_some ''level'' VNat (int_field fs 3))
       (text_field fs 1)))"

definition somes :: "'a option list \<Rightarrow> 'a list" where
  "somes xs = concat (map (\<lambda>x. case x of None \<Rightarrow> [] | Some y \<Rightarrow> [y]) xs)"

definition dicts :: "dict list \<Rightarrow> pyval" where
  "dicts ds = VList (map VDict ds)"

definition unless_empty :: "string \<Rightarrow> dict list \<Rightarrow> dict" where
  "unless_empty k ds = onlyif (ds \<noteq> []) [(k, dicts ds)]"

definition decode_classification :: "bytes \<Rightarrow> sapient_error + dict" where
  "decode_classification b = and_then (iter_fields b) (\<lambda>fs.
     and_then (sum_map decode_sub_class (messages fs 3 16)) (\<lambda>subs.
       Inr ((''type'', VStr (or_else (text_field fs 1) ''unknown'')) # if_some ''confidence'' (rounded 4) (float_field fs 2) @
         unless_empty ''sub_classes'' (somes subs))))"

text \<open>\<open>max\<close> takes the first of the greatest.\<close>

fun first_max :: "('a \<Rightarrow> real) \<Rightarrow> 'a \<Rightarrow> 'a list \<Rightarrow> 'a" where
  "first_max f x [] = x"
| "first_max f x (y # ys) = (if f y > f x then first_max f y ys else first_max f x ys)"

definition confidence_of :: "dict \<Rightarrow> real" where
  "confidence_of c = (case dget c ''confidence'' of Some (VFloat x) \<Rightarrow> x | _ \<Rightarrow> - 1)"

definition type_of_class :: "dict \<Rightarrow> string" where
  "type_of_class c = (case dget c ''type'' of Some (VStr s) \<Rightarrow> s | _ \<Rightarrow> [])"

definition primary_class :: "dict list \<Rightarrow> string" where
  "primary_class cs = (case cs of [] \<Rightarrow> ''unknown'' | c # cs \<Rightarrow> py_lower (type_of_class (first_max confidence_of c cs)))"

definition signal_names :: "(nat \<times> string) list" where
  "signal_names = [(1, ''amplitude''), (2, ''start_frequency''), (3, ''centre_frequency''), (4, ''stop_frequency''), (5, ''pulse_duration'')]"

definition decode_signal :: "bytes \<Rightarrow> sapient_error + dict" where
  "decode_signal b = and_then (iter_fields b) (\<lambda>fs. Inr (concat (map (\<lambda>(n, k). if_some k VFloat (float_field fs n)) signal_names)))"

definition decode_signals :: "bytes list \<Rightarrow> sapient_error + dict list" where
  "decode_signals bs = and_then (sum_map decode_signal (take 16 bs)) (\<lambda>ds. Inr (filter (\<lambda>d. d \<noteq> []) ds))"

definition time_units :: "(nat \<times> real) list" where
  "time_units = [(1, 1 / 10 ^ 9), (2, 1 / 10 ^ 6), (3, 1 / 1000), (4, 1), (5, 60), (6, 3600), (7, 86400)]"

definition duration_seconds :: "nat option \<Rightarrow> real option \<Rightarrow> real option" where
  "duration_seconds units amount = (case (units, amount) of
     (Some u, Some a) \<Rightarrow> map_option (\<lambda>scale. py_round (a * scale) 6) (map_of time_units u)
   | _ \<Rightarrow> None)"

definition speed_scale :: "nat option \<Rightarrow> real option" where
  "speed_scale units = (if units = Some 1 then Some 1 else if units = Some 2 then Some (1 / 3.6) else None)"

definition clean_class :: "string \<Rightarrow> string" where
  "clean_class s = py_join '' '' (py_words [] (map (\<lambda>c. if c = CHR ''_'' \<or> c = CHR ''-'' then CHR '' '' else c) (py_lower s)))"

subsection \<open>Topics\<close>

definition modality :: "dict \<Rightarrow> string" where
  "modality track = (case dget track ''sapient_node_types'' of Some (VList (VStr t # _)) \<Rightarrow> t | _ \<Rightarrow> ''unknown'')"

definition names_any :: "string list \<Rightarrow> string \<Rightarrow> bool" where
  "names_any ts s \<longleftrightarrow> list_ex (\<lambda>t. contains_str t s) ts"

definition domain_entity :: "string \<Rightarrow> string \<times> string" where
  "domain_entity c =
     (if names_any [''drone'', ''uas'', ''uav'', ''quadcopter''] c then (''air'', ''uav'')
      else if names_any [''aircraft'', ''aeroplane'', ''airplane'', ''helicopter''] c then (''air'', ''aircraft'')
      else if names_any [''boat'', ''ship'', ''vessel'', ''watercraft''] c then (''sea'', ''vessel'')
      else if names_any [''person'', ''human'', ''pedestrian''] c then (''land'', ''person'')
      else if names_any [''car'', ''truck'', ''vehicle''] c then (''land'', ''vehicle'')
      else if names_any [''emitter'', ''rf'', ''signal''] c then (''land'', ''sensor'')
      else (''air'', ''aircraft''))"

definition sapient_class_of :: "dict \<Rightarrow> string" where
  "sapient_class_of track = (case dget track ''sapient_class'' of Some (VStr s) \<Rightarrow> if s = [] then ''unknown'' else s | _ \<Rightarrow> ''unknown'')"

definition topic_for_track :: "string \<Rightarrow> dict \<Rightarrow> string" where
  "topic_for_track base track =
     (if dget track ''sapient_message_type'' = Some (VStr ''status_report'')
      then base @ ''/land/sapient/'' @ modality track @ ''/neutral/sensor''
      else case domain_entity (clean_class (sapient_class_of track)) of (domain, entity) \<Rightarrow>
        base @ ''/'' @ domain @ ''/sapient/'' @ modality track @ ''/unknown/'' @ entity)"

subsection \<open>Registration\<close>

text \<open>The handler assigns to the node as it goes: a list of stages, of which the first that raises ends the run.\<close>

fun run_stages :: "(node_state \<Rightarrow> sapient_error + node_state) list \<Rightarrow> node_state \<Rightarrow> node_state \<times> sapient_error option" where
  "run_stages [] node = (node, None)"
| "run_stages (f # fs) node = (case f node of Inl e \<Rightarrow> (node, Some e) | Inr node \<Rightarrow> run_stages fs node)"

definition or_keep :: "'a option \<Rightarrow> 'a option \<Rightarrow> 'a option" where
  "or_keep v w = (case v of None \<Rightarrow> w | Some x \<Rightarrow> Some x)"

definition reg_names :: "wire_field list \<Rightarrow> node_state \<Rightarrow> sapient_error + node_state" where
  "reg_names fs node = Inr (node\<lparr>icd_version := or_keep (text_field fs 2) (icd_version node),
     nd_name := or_keep (text_field fs 4) (or_keep (text_field fs 3) (nd_name node))\<rparr>)"

definition reg_types :: "wire_field list \<Rightarrow> node_state \<Rightarrow> sapient_error + node_state" where
  "reg_types fs node = and_then (sum_map (\<lambda>b. and_then (iter_fields b) (\<lambda>ds. Inr (int_field ds 1))) (messages fs 1 16)) (\<lambda>ts.
     let names = map (name_or node_type_names ''type_'') (somes ts)
     in Inr (if names = [] then node else node\<lparr>node_types := names\<rparr>))"

text \<open>The units of speed of one detection definition of a mode, horizontal and vertical.\<close>

definition definition_units :: "bytes \<Rightarrow> sapient_error + nat option \<times> nat option" where
  "definition_units b = and_then (iter_fields b) (\<lambda>ds. case bytes_field ds 6 of
     None \<Rightarrow> Inr (None, None)
   | Some v \<Rightarrow> and_then (iter_fields v) (\<lambda>vs. case bytes_field vs 4 of
       None \<Rightarrow> Inr (None, None)
     | Some u \<Rightarrow> and_then (iter_fields u) (\<lambda>us. Inr (int_field us 1, int_field us 2))))"

definition mode_units :: "bytes \<Rightarrow> sapient_error + (nat option \<times> nat option) list" where
  "mode_units b = and_then (iter_fields b) (\<lambda>ms. sum_map definition_units (messages ms 10 32))"

text \<open>The unit that all of them agree on, if there is one.\<close>

definition only_unit :: "nat option list \<Rightarrow> nat option" where
  "only_unit us = (case remdups (filter (\<lambda>u. u = 1 \<or> u = 2) (somes us)) of [u] \<Rightarrow> Some u | _ \<Rightarrow> None)"

definition reg_units :: "wire_field list \<Rightarrow> node_state \<Rightarrow> sapient_error + node_state" where
  "reg_units fs node = and_then (sum_map mode_units (messages fs 7 32)) (\<lambda>us.
     Inr (node\<lparr>horizontal_units := only_unit (map fst (concat us)), vertical_units := only_unit (map snd (concat us))\<rparr>))"

definition reg_capability :: "bytes \<Rightarrow> node_state \<Rightarrow> sapient_error + node_state" where
  "reg_capability b node = and_then (iter_fields b) (\<lambda>cs. Inr (case (text_field cs 1, text_field cs 2) of
     (Some category, Some ty) \<Rightarrow> node\<lparr>capabilities := capabilities node @
       [[(''category'', VStr category), (''type'', VStr ty)] @ if_some ''value'' VStr (text_field cs 3) @ if_some ''units'' VStr (text_field cs 4)]\<rparr>
   | _ \<Rightarrow> node))"

text \<open>The status definition: parsed, then the interval forgotten, then read anew.\<close>

definition reg_status_reset :: "wire_field list \<Rightarrow> node_state \<Rightarrow> sapient_error + node_state" where
  "reg_status_reset fs node = (case bytes_field fs 6 of
     None \<Rightarrow> Inr node
   | Some b \<Rightarrow> and_then (iter_fields b) (\<lambda>ss. Inr (node\<lparr>status_interval_s := None\<rparr>)))"

definition reg_status_interval :: "wire_field list \<Rightarrow> node_state \<Rightarrow> sapient_error + node_state" where
  "reg_status_interval fs node = (case bytes_field fs 6 of
     None \<Rightarrow> Inr node
   | Some b \<Rightarrow> and_then (iter_fields b) (\<lambda>ss. case bytes_field ss 1 of
       None \<Rightarrow> Inr node
     | Some i \<Rightarrow> and_then (iter_fields i) (\<lambda>ds. Inr (node\<lparr>status_interval_s := duration_seconds (int_field ds 1) (float_field ds 3)\<rparr>))))"

definition texts :: "wire_field list \<Rightarrow> nat \<Rightarrow> nat \<Rightarrow> string list" where
  "texts fs n limit = somes (map (\<lambda>b. wire_text (Some (WBytes b))) (messages fs n limit))"

definition reg_counts :: "wire_field list \<Rightarrow> node_state \<Rightarrow> sapient_error + node_state" where
  "reg_counts fs node = Inr (node\<lparr>dependent_nodes := texts fs 8 64, region_count := length (all_values fs 9 2), config_data := []\<rparr>)"

definition reg_config :: "bytes \<Rightarrow> node_state \<Rightarrow> sapient_error + node_state" where
  "reg_config b node = and_then (iter_fields b) (\<lambda>cs. Inr (case (text_field cs 1, text_field cs 2) of
     (Some manufacturer, Some model) \<Rightarrow> node\<lparr>config_data := config_data node @
       [[(''manufacturer'', VStr manufacturer), (''model'', VStr model)] @ if_some ''serial_number'' VStr (text_field cs 3) @
        if_some ''hardware_version'' VStr (text_field cs 4) @ if_some ''software_version'' VStr (text_field cs 5)]\<rparr>
   | _ \<Rightarrow> node))"

definition registration :: "bytes \<Rightarrow> node_state \<Rightarrow> node_state \<times> sapient_error option" where
  "registration b node = (case iter_fields b of
     Inl e \<Rightarrow> (node, Some e)
   | Inr fs \<Rightarrow> run_stages ([reg_names fs, reg_types fs, reg_units fs, \<lambda>node. Inr (node\<lparr>capabilities := []\<rparr>)] @
       map reg_capability (messages fs 5 32) @ [reg_status_reset fs, reg_status_interval fs, reg_counts fs] @
       map reg_config (messages fs 10 16)) node)"

subsection \<open>Status reports\<close>

definition status_power :: "wire_field list \<Rightarrow> sapient_error + dict" where
  "status_power fs = (case bytes_field fs 6 of
     None \<Rightarrow> Inr []
   | Some b \<Rightarrow> and_then (iter_fields b) (\<lambda>ps. Inr (
       if_some ''sapient_power_level_pct'' VNat (int_field ps 3) @
       if_some ''sapient_power_source'' (\<lambda>n. VStr (name_or power_sources ''source_'' n)) (int_field ps 4) @
       if_some ''sapient_power_status'' (\<lambda>n. VStr (name_or power_states ''status_'' n)) (int_field ps 5))))"

definition status_entry :: "bytes \<Rightarrow> sapient_error + dict" where
  "status_entry b = and_then (iter_fields b) (\<lambda>ss. Inr (
     if_some ''level'' (\<lambda>n. VStr (name_or status_levels ''level_'' n)) (int_field ss 1) @
     if_some ''type'' (\<lambda>n. VStr (name_or status_types ''type_'' n)) (int_field ss 4) @
     if_some ''value'' VStr (text_field ss 3)))"

definition last_chars :: "nat \<Rightarrow> string \<Rightarrow> string" where
  "last_chars n s = drop (length s - n) s"

definition opt_str :: "string option \<Rightarrow> pyval" where
  "opt_str v = (case v of None \<Rightarrow> VNone | Some s \<Rightarrow> VStr s)"

definition status_track :: "string \<Rightarrow> node_state \<Rightarrow> real \<Rightarrow> real \<Rightarrow> real \<Rightarrow> wire_field list \<Rightarrow> sapient_error + dict" where
  "status_track node_id node lat lon sent_at fs =
     and_then (status_power fs) (\<lambda>power. and_then (sum_map status_entry (messages fs 11 32)) (\<lambda>entries. Inr (
       [(''_ts'', VFloat sent_at), (''_src'', VStr ''SAPIENT FLEX 335''), (''uid'', VStr (''sapient-node-'' @ node_id)),
        (''sensor_id'', VStr node_id), (''callsign'', VStr (or_else (nd_name node) (''SAPIENT-'' @ last_chars 8 node_id))),
        (''lat_deg'', rounded 7 lat), (''lon_deg'', rounded 7 lon), (''sapient_message_type'', VStr ''status_report''),
        (''sapient_node_types'', VList (map VStr (node_types node))), (''sapient_icd_version'', opt_str (icd_version node))] @
       if_some ''geo_alt_m'' (rounded 2) (altitude_m node) @ if_some ''sapient_report_id'' VStr (text_field fs 1) @
       if_some ''sensor_status'' (\<lambda>n. VStr (name_or system_states ''state_'' n)) (int_field fs 2) @
       onlyif (int_field fs 2 = Some 5) [(''_delete'', VBool True)] @ if_some ''sensor_mode'' VStr (text_field fs 5) @
       if_some ''sapient_info'' (\<lambda>n. VStr (name_or sapient_info ''info_'' n)) (int_field fs 3) @
       if_some ''sapient_active_task_id'' VStr (text_field fs 4) @ power @
       onlyif (first_value fs 8 2 \<noteq> None) [(''sapient_field_of_view_present'', VBool True)] @
       onlyif (all_values fs 10 2 \<noteq> []) [(''sapient_obscuration_count'', VNat (length (all_values fs 10 2)))] @
       onlyif (all_values fs 12 2 \<noteq> []) [(''sapient_coverage_count'', VNat (length (all_values fs 12 2)))] @
       unless_empty ''sapient_status'' (filter (\<lambda>d. d \<noteq> []) entries))))"

text \<open>The position of the report becomes the node's before anything else is read.\<close>

definition status :: "string \<Rightarrow> real \<Rightarrow> bytes \<Rightarrow> node_state \<Rightarrow> (sapient_error + dict option) \<times> node_state" where
  "status node_id sent_at b node = (case iter_fields b of
     Inl e \<Rightarrow> (Inl e, node)
   | Inr fs \<Rightarrow>
       (case (case bytes_field fs 7 of
            None \<Rightarrow> Inr node
          | Some l \<Rightarrow> and_then (decode_location l) (\<lambda>(lat, lon, alt, meta).
              Inr (node\<lparr>latitude := Some lat, longitude := Some lon, altitude_m := alt\<rparr>))) of
          Inl e \<Rightarrow> (Inl e, node)
        | Inr node \<Rightarrow> (case (latitude node, longitude node) of
            (Some lat, Some lon) \<Rightarrow> (and_then (status_track node_id node lat lon sent_at fs) (\<lambda>t. Inr (Some t)), node)
          | _ \<Rightarrow> (Inr None, node))))"

subsection \<open>Detections\<close>

type_synonym object_cache = "((string \<times> string) \<times> dict) list"

definition report_position :: "node_state \<Rightarrow> wire_field list \<Rightarrow> sapient_error + real \<times> real \<times> real option \<times> dict" where
  "report_position node fs = (case bytes_field fs 6 of
     Some l \<Rightarrow> decode_location l
   | None \<Rightarrow> (case bytes_field fs 5 of
       Some r \<Rightarrow> and_then (decode_range_bearing r) (\<lambda>(elevation, azimuth, distance, meta).
         and_then (project node elevation azimuth distance) (\<lambda>(lat, lon, alt). Inr (lat, lon, alt, meta)))
     | None \<Rightarrow> Inl NoLocation))"

definition real_at :: "dict \<Rightarrow> string \<Rightarrow> real option" where
  "real_at d k = (case dget d k of Some (VFloat x) \<Rightarrow> Some x | _ \<Rightarrow> None)"

definition is_delete_state :: "string option \<Rightarrow> bool" where
  "is_delete_state state \<longleftrightarrow> clean_class (or_else state []) \<in> set delete_states"

text \<open>The position of a report, or the last one known of an object that the report declares gone.\<close>

definition detection_position ::
  "node_state \<Rightarrow> wire_field list \<Rightarrow> dict option \<Rightarrow> string option \<Rightarrow> sapient_error + real \<times> real \<times> real option \<times> dict" where
  "detection_position node fs cached state = (case report_position node fs of
     Inr p \<Rightarrow> Inr p
   | Inl e \<Rightarrow> (case cached of
       Some d \<Rightarrow> (if is_delete_state state then (case (real_at d ''lat_deg'', real_at d ''lon_deg'') of
           (Some lat, Some lon) \<Rightarrow> Inr (lat, lon, real_at d ''geo_alt_m'', []) | _ \<Rightarrow> Inl e) else Inl e)
     | None \<Rightarrow> Inl e))"

text \<open>The predicted position: what is wrong with it is ignored.\<close>

definition prediction :: "node_state \<Rightarrow> wire_field list \<Rightarrow> sapient_error + dict" where
  "prediction node fs = (case bytes_field fs 9 of
     None \<Rightarrow> Inr []
   | Some b \<Rightarrow> and_then (iter_fields b) (\<lambda>ps. Inr (case (case bytes_field ps 2 of
         Some l \<Rightarrow> and_then (decode_location l) (\<lambda>(lat, lon, alt, meta). Inr (Some (lat, lon, alt)))
       | None \<Rightarrow> (case bytes_field ps 1 of
           Some r \<Rightarrow> and_then (decode_range_bearing r) (\<lambda>(elevation, azimuth, distance, meta).
             and_then (project node elevation azimuth distance) (\<lambda>p. Inr (Some p)))
         | None \<Rightarrow> Inr None)) of
       Inr (Some (lat, lon, alt)) \<Rightarrow> [(''sapient_predicted_lat_deg'', rounded 7 lat), (''sapient_predicted_lon_deg'', rounded 7 lon)] @
         if_some ''sapient_predicted_alt_m'' (rounded 2) alt
     | _ \<Rightarrow> [])))"

definition behaviour :: "bytes \<Rightarrow> sapient_error + dict option" where
  "behaviour b = and_then (iter_fields b) (\<lambda>bs.
     Inr (map_option (\<lambda>t. (''type'', VStr t) # if_some ''confidence'' (rounded 4) (float_field bs 2)) (text_field bs 1)))"

definition associated_file :: "bytes \<Rightarrow> sapient_error + dict option" where
  "associated_file b = and_then (iter_fields b) (\<lambda>fs.
     Inr (map_option (\<lambda>url. [(''type'', VStr (or_else (text_field fs 1) ''unknown'')), (''url'', VStr url)]) (text_field fs 2)))"

definition associated_detection :: "bytes \<Rightarrow> sapient_error + dict option" where
  "associated_detection b = and_then (iter_fields b) (\<lambda>fs. Inr (case (text_field fs 2, text_field fs 3) of
     (Some n, Some obj) \<Rightarrow> Some [(''node_id'', VStr n), (''object_id'', VStr obj)] | _ \<Rightarrow> None))"

definition listed :: "string \<Rightarrow> (bytes \<Rightarrow> sapient_error + dict option) \<Rightarrow> bytes list \<Rightarrow> sapient_error + dict" where
  "listed k f bs = and_then (sum_map f bs) (\<lambda>ds. Inr (unless_empty k (somes ds)))"

definition velocity :: "node_state \<Rightarrow> wire_field list \<Rightarrow> sapient_error + dict" where
  "velocity node fs = (case bytes_field fs 19 of
     None \<Rightarrow> Inr []
   | Some b \<Rightarrow> and_then (iter_fields b) (\<lambda>vs. Inr (
       (case (double_field vs 1, double_field vs 2, speed_scale (horizontal_units node)) of
          (Some east, Some north, Some scale) \<Rightarrow> let east = east * scale; north = north * scale in
            [(''speed_ms'', rounded 3 (sqrt (east\<^sup>2 + north\<^sup>2))), (''heading_deg'', rounded 2 (float_mod (degrees (atan2 east north)) 360))]
        | _ \<Rightarrow> []) @
       (case (double_field vs 3, speed_scale (vertical_units node)) of
          (Some up, Some scale) \<Rightarrow> [(''vertical_rate_ms'', rounded 3 (up * scale))] | _ \<Rightarrow> []))))"

definition detection_base ::
  "string \<Rightarrow> string \<Rightarrow> node_state \<Rightarrow> real \<Rightarrow> wire_field list \<Rightarrow> real \<times> real \<times> real option \<times> dict \<Rightarrow> dict list \<Rightarrow> dict" where
  "detection_base node_id obj_id node sent_at fs p classes = (case p of (lat, lon, alt, meta) \<Rightarrow>
     let object_class = primary_class classes; state = text_field fs 4 in
     [(''_ts'', VFloat sent_at), (''_src'', VStr ''SAPIENT FLEX 335''), (''uid'', VStr (''sapient-'' @ node_id @ ''-'' @ obj_id)),
      (''sensor_id'', VStr node_id), (''object_id'', VStr obj_id),
      (''callsign'', VStr (or_else (text_field fs 23) (py_upper object_class @ ''-'' @ last_chars 8 obj_id))),
      (''lat_deg'', rounded 7 lat), (''lon_deg'', rounded 7 lon), (''sapient_message_type'', VStr ''detection_report''),
      (''sapient_class'', VStr object_class), (''sapient_classifications'', dicts classes),
      (''sapient_node_types'', VList (map VStr (node_types node)))] @ meta @
     if_some ''sapient_report_id'' VStr (text_field fs 1) @ if_some ''sapient_state'' VStr state @
     onlyif (state \<noteq> None \<and> is_delete_state state) [(''_delete'', VBool True)] @ if_some ''geo_alt_m'' (rounded 2) alt @
     if_some ''detection_confidence'' (rounded 4) (float_field fs 7) @ if_some ''colour'' VStr (text_field fs 22))"

text \<open>The rest of a detection's track, part by part.\<close>

definition detection_parts :: "node_state \<Rightarrow> wire_field list \<Rightarrow> sapient_error + dict list" where
  "detection_parts node fs =
     and_then (decode_info (messages fs 8 64)) (\<lambda>track_info.
     and_then (decode_info (messages fs 10 64)) (\<lambda>object_info.
     and_then (decode_signals (messages fs 14 16)) (\<lambda>signals.
     and_then (prediction node fs) (\<lambda>predicted.
     and_then (listed ''sapient_behaviour'' behaviour (messages fs 12 16)) (\<lambda>behaviours.
     and_then (listed ''sapient_associated_files'' associated_file (messages fs 13 16)) (\<lambda>files.
     and_then (listed ''sapient_associated_detections'' associated_detection (messages fs 15 32)) (\<lambda>associated.
     and_then (listed ''sapient_derived_detections'' associated_detection (messages fs 16 32)) (\<lambda>derived.
     and_then (velocity node fs) (\<lambda>moving.
       Inr [onlyif (track_info \<noteq> []) [(''sapient_track_info'', VDict track_info)],
         onlyif (object_info \<noteq> []) [(''sapient_object_info'', VDict object_info)],
         unless_empty ''sapient_signals'' signals, if_some ''sapient_task_id'' VStr (text_field fs 3), predicted, behaviours, files,
         associated, derived, if_some ''sapient_id'' VStr (text_field fs 23), moving])))))))))"

text \<open>The objects, the one reported last at the end; the oldest are forgotten beyond the limit.\<close>

definition remember :: "string \<times> string \<Rightarrow> dict \<Rightarrow> object_cache \<Rightarrow> object_cache" where
  "remember k track objs =
     (if has_key ''_delete'' track then AList.delete k objs
      else let objs = AList.delete k objs @ [(k, track)] in drop (length objs - max_objects) objs)"

definition detection ::
  "string \<Rightarrow> node_state \<Rightarrow> real \<Rightarrow> bytes \<Rightarrow> object_cache \<Rightarrow> sapient_error + dict \<times> object_cache" where
  "detection node_id node sent_at b objs = and_then (iter_fields b) (\<lambda>fs.
     let obj_id = or_else (text_field fs 2) ''unknown'' in
     and_then (detection_position node fs (map_of objs (node_id, obj_id)) (text_field fs 4)) (\<lambda>p.
     and_then (sum_map decode_classification (messages fs 11 32)) (\<lambda>classes.
     and_then (detection_parts node fs) (\<lambda>parts.
       let track = detection_base node_id obj_id node sent_at fs p classes @ concat parts
       in Inr (track, remember (node_id, obj_id) track objs)))))"

subsection \<open>Alerts\<close>

definition alert :: "string \<Rightarrow> node_state \<Rightarrow> real \<Rightarrow> bytes \<Rightarrow> sapient_error + dict" where
  "alert node_id node sent_at b = and_then (iter_fields b) (\<lambda>fs.
     and_then (report_position node fs) (\<lambda>(lat, lon, alt, meta).
     and_then (listed ''sapient_associated_files'' associated_file (messages fs 11 16)) (\<lambda>files.
     and_then (listed ''sapient_associated_detections'' associated_detection (messages fs 12 32)) (\<lambda>associated.
       let alert_id = or_else (text_field fs 1) ''unknown''; description = text_field fs 4 in
       Inr ([(''_ts'', VFloat sent_at), (''_src'', VStr ''SAPIENT FLEX 335''), (''uid'', VStr (''sapient-alert-'' @ node_id @ ''-'' @ alert_id)),
           (''sensor_id'', VStr node_id), (''object_id'', VStr alert_id), (''callsign'', VStr (or_else description ''SAPIENT ALERT'')),
           (''lat_deg'', rounded 7 lat), (''lon_deg'', rounded 7 lon), (''sapient_message_type'', VStr ''alert''),
           (''sapient_class'', VStr ''alert'')] @ meta @
         if_some ''geo_alt_m'' (rounded 2) alt @
         if_some ''sapient_alert_type'' (\<lambda>n. VStr (name_or alert_types [] n)) (int_field fs 2) @
         if_some ''sapient_alert_status'' (\<lambda>n. VStr (name_or alert_states [] n)) (int_field fs 3) @
         onlyif (int_field fs 3 = Some 5) [(''_delete'', VBool True)] @
         if_some ''sapient_alert_priority'' (\<lambda>n. VStr (name_or alert_priorities [] n)) (int_field fs 8) @
         if_some ''detection_confidence'' (rounded 4) (float_field fs 10) @ if_some ''description'' VStr description @
         if_some ''sapient_region_id'' VStr (text_field fs 7) @ files @ associated @
         if_some ''sapient_additional_information'' VStr (text_field fs 13))))))"

subsection \<open>Messages that are only logged\<close>

definition str_list :: "string list \<Rightarrow> pyval" where
  "str_list ss = VList (map VStr ss)"

definition reasons_of :: "wire_field list \<Rightarrow> nat \<Rightarrow> dict" where
  "reasons_of fs n = onlyif (texts fs n 16 \<noteq> []) [(''reasons'', str_list (texts fs n 16))]"

definition registration_ack_info :: "bytes \<Rightarrow> sapient_error + dict" where
  "registration_ack_info b = and_then (iter_fields b) (\<lambda>fs.
     Inr ((''accepted'', VBool (or_else (int_field fs 1) 0 \<noteq> 0)) # reasons_of fs 3))"

definition task_region :: "bytes \<Rightarrow> sapient_error + dict option" where
  "task_region b = and_then (iter_fields b) (\<lambda>rs. Inr (
     if text_field rs 2 = None \<and> text_field rs 3 = None then None
     else Some [(''region_id'', opt_str (text_field rs 2)), (''region_name'', opt_str (text_field rs 3))]))"

definition task_command :: "wire_field list \<Rightarrow> sapient_error + dict" where
  "task_command fs = (case bytes_field fs 8 of
     None \<Rightarrow> Inr []
   | Some b \<Rightarrow> and_then (iter_fields b) (\<lambda>cs. Inr (if_some ''command_request'' VStr (text_field cs 1) @
       if_some ''command_mode_change'' VStr (text_field cs 5) @ if_some ''command_parameter'' VStr (text_field cs 8))))"

definition task_info :: "bytes \<Rightarrow> sapient_error + dict" where
  "task_info b = and_then (iter_fields b) (\<lambda>fs.
     and_then (listed ''regions'' task_region (messages fs 7 16)) (\<lambda>regions.
     and_then (task_command fs) (\<lambda>command. Inr (
       if_some ''task_id'' VStr (text_field fs 1) @ if_some ''task_name'' VStr (text_field fs 2) @
       if_some ''task_description'' VStr (text_field fs 3) @
       if_some ''control'' (\<lambda>n. VStr (name_or task_controls ''control_'' n)) (int_field fs 6) @ regions @ command))))"

definition task_ack_info :: "bytes \<Rightarrow> sapient_error + dict" where
  "task_ack_info b = and_then (iter_fields b) (\<lambda>fs. Inr (if_some ''task_id'' VStr (text_field fs 1) @
     if_some ''task_status'' (\<lambda>n. VStr (name_or task_states ''status_'' n)) (int_field fs 2) @ reasons_of fs 5))"

definition alert_ack_info :: "bytes \<Rightarrow> sapient_error + dict" where
  "alert_ack_info b = and_then (iter_fields b) (\<lambda>fs. Inr (if_some ''alert_id'' VStr (text_field fs 1) @
     if_some ''alert_ack_status'' (\<lambda>n. VStr (name_or alert_ack_states ''status_'' n)) (int_field fs 5) @ reasons_of fs 4))"

definition error_info :: "bytes \<Rightarrow> sapient_error + dict" where
  "error_info b = and_then (iter_fields b) (\<lambda>fs. Inr ((''messages'', str_list (texts fs 3 32)) #
     if_some ''packet_bytes'' (\<lambda>p. VNat (length p)) (bytes_field fs 1)))"

subsection \<open>The decoder\<close>

record sapient_decoder =
  known_nodes :: "(string \<times> node_state) list"
  known_objects :: object_cache

record sapient_event =
  ev_kind :: string
  ev_node :: string
  ev_time :: real
  ev_track :: "dict option"
  ev_warning :: "sapient_error option"

definition plain_event :: "string \<Rightarrow> string \<Rightarrow> real \<Rightarrow> sapient_event" where
  "plain_event kind node_id sent_at = \<lparr>ev_kind = kind, ev_node = node_id, ev_time = sent_at, ev_track = None, ev_warning = None\<rparr>"

definition put_node :: "string \<Rightarrow> node_state \<Rightarrow> sapient_decoder \<Rightarrow> sapient_decoder" where
  "put_node node_id node dec = dec\<lparr>known_nodes := AList.update node_id node (known_nodes dec)\<rparr>"

definition logged_info :: "nat \<Rightarrow> bytes \<Rightarrow> sapient_error + dict" where
  "logged_info nr b =
     (if nr = 5 then registration_ack_info b else if nr = 8 then task_info b else if nr = 9 then task_ack_info b
      else if nr = 11 then alert_ack_info b else error_info b)"

text \<open>One content message. A report that is refused is a warning; anything else that is refused raises.\<close>

definition on_content ::
  "nat \<Rightarrow> string \<Rightarrow> real \<Rightarrow> bytes \<Rightarrow> sapient_decoder \<Rightarrow> (sapient_error + sapient_event) \<times> sapient_decoder" where
  "on_content nr node_id sent_at b dec =
     (let node = or_else (map_of (known_nodes dec) node_id) new_node;
          dec = put_node node_id node dec;
          ev = plain_event (or_else (map_of content_kinds nr) []) node_id sent_at in
      if nr = 4 then (case registration b node of
          (node, None) \<Rightarrow> (Inr ev, put_node node_id node dec)
        | (node, Some e) \<Rightarrow> (Inl e, put_node node_id node dec))
      else if nr = 6 then (case status node_id sent_at b node of
          (Inl e, node) \<Rightarrow> (Inl e, put_node node_id node dec)
        | (Inr track, node) \<Rightarrow> (Inr (ev\<lparr>ev_track := track\<rparr>), put_node node_id node dec))
      else if nr = 7 then (case detection node_id node sent_at b (known_objects dec) of
          Inl e \<Rightarrow> (Inr (ev\<lparr>ev_warning := Some e\<rparr>), dec)
        | Inr (track, objs) \<Rightarrow> (Inr (ev\<lparr>ev_track := Some track\<rparr>), dec\<lparr>known_objects := objs\<rparr>))
      else if nr = 10 then (case alert node_id node sent_at b of
          Inl e \<Rightarrow> (Inr (ev\<lparr>ev_warning := Some e\<rparr>), dec)
        | Inr track \<Rightarrow> (Inr (ev\<lparr>ev_track := Some track\<rparr>), dec))
      else (case logged_info nr b of Inl e \<Rightarrow> (Inl e, dec) | Inr info \<Rightarrow> (Inr ev, dec)))"

definition decode :: "real \<Rightarrow> bytes \<Rightarrow> sapient_decoder \<Rightarrow> (sapient_error + sapient_event) \<times> sapient_decoder" where
  "decode clock data dec =
     (if data = [] \<or> length data > flex_max_frame then (Inl BadFrameSize, dec)
      else case iter_fields data of
        Inl e \<Rightarrow> (Inl e, dec)
      | Inr fs \<Rightarrow> (case timestamp (bytes_field fs 1) clock of
          Inl e \<Rightarrow> (Inl e, dec)
        | Inr sent_at \<Rightarrow>
            (case filter (\<lambda>f. map_of content_kinds (field_number f) \<noteq> None \<and> wire_type f = 2) fs of
               [content] \<Rightarrow> on_content (field_number content) (or_else (text_field fs 2) ''unknown'') sent_at
                 (case wire_value content of WBytes b \<Rightarrow> b | WInt n \<Rightarrow> []) dec
             | _ \<Rightarrow> (Inl ContentCount, dec))))"

subsection \<open>Publishing\<close>

text \<open>
  What is done with a frame: the acknowledgement sent back (when the listener has a socket for it) and what is
  published. \<open>Inl\<close> is the error that ends the connection.
\<close>

definition sapient_publish ::
  "(pyval \<Rightarrow> string) \<Rightarrow> string \<Rightarrow> string option \<Rightarrow> real \<Rightarrow> bytes \<Rightarrow> sapient_decoder \<Rightarrow>
    (sapient_error + bytes list \<times> event list) \<times> sapient_decoder" where
  "sapient_publish rp base bridge clock frame dec = (case decode clock frame dec of
     (Inl e, dec) \<Rightarrow> (Inl e, dec)
   | (Inr ev, dec) \<Rightarrow>
       let replies = (case bridge of Some b \<Rightarrow> onlyif (ev_kind ev = ''registration'') [registration_ack b (ev_node ev) True clock] | None \<Rightarrow> [])
       in (Inr (replies, case (ev_warning ev, ev_track ev) of
            (None, Some track) \<Rightarrow> let topic = topic_for_track base track in
              [PubDual topic track ''SapientFlex335Track'',
               PubNative (native_topic (semantic_topic rp topic track)) frame ''sapient'' ''bsi-flex-335-v2'']
          | _ \<Rightarrow> []), dec))"

text \<open>A connection: frames are read and published until the peer closes, a length is refused, or decoding raises.\<close>

datatype session_end = PeerClosed | BadFrameLength nat | Refused sapient_error

definition next_frame :: "tcp_socket \<Rightarrow> session_end + bytes \<times> tcp_socket" where
  "next_frame sock = (case recv_exact sock 4 of
     None \<Rightarrow> Inl PeerClosed
   | Some (header, sock) \<Rightarrow>
       let n = from_bytes_little header in
       if bad_length n then Inl (BadFrameLength n)
       else (case recv_exact sock n of None \<Rightarrow> Inl PeerClosed | Some r \<Rightarrow> Inr r))"

lemma next_frame_progress: "next_frame sock = Inr (f, sock') \<Longrightarrow> length (concat sock') < length (concat sock)"
proof -
  assume r: "next_frame sock = Inr (f, sock')"
  then obtain h sock1 n where h: "recv_exact sock 4 = Some (h, sock1)" "recv_exact sock1 n = Some (f, sock')"
    by (auto simp: next_frame_def Let_def split: option.splits if_splits)
  from recv_exact_split [OF h(1)] recv_exact_split [OF h(2)] show ?thesis
    by (metis add.commute add_lessD1 le_add1 length_append less_add_same_cancel2 linorder_neqE_nat not_add_less1 order_le_less_trans zero_less_numeral)
qed

function sapient_session ::
  "(pyval \<Rightarrow> string) \<Rightarrow> string \<Rightarrow> string option \<Rightarrow> real \<Rightarrow> sapient_decoder \<Rightarrow> tcp_socket \<Rightarrow>
    bytes list \<times> event list \<times> session_end \<times> sapient_decoder" where
  "sapient_session rp base bridge clock dec sock = (case next_frame sock of
     Inl e \<Rightarrow> ([], [], e, dec)
   | Inr (frame, sock') \<Rightarrow> (case sapient_publish rp base bridge clock frame dec of
       (Inl e, dec) \<Rightarrow> ([], [], Refused e, dec)
     | (Inr (replies, pubs), dec) \<Rightarrow> (case sapient_session rp base bridge clock dec sock' of
         (rs, ps, e, dec) \<Rightarrow> (replies @ rs, pubs @ ps, e, dec))))"
  by pat_completeness auto
termination
  by (relation "measure (\<lambda>(_, _, _, _, _, sock). length (concat sock))") (auto dest: next_frame_progress)

declare sapient_session.simps [simp del]

text \<open>The raw topic: the publications collected, and whether the frame raises.\<close>

definition raw_handle ::
  "(pyval \<Rightarrow> string) \<Rightarrow> string \<Rightarrow> real \<Rightarrow> sapient_decoder \<times> event list \<Rightarrow> bytes \<Rightarrow> (sapient_decoder \<times> event list) \<times> bool" where
  "raw_handle rp base clock s frame = (case sapient_publish rp base None clock frame (fst s) of
     (Inl e, dec) \<Rightarrow> ((dec, snd s), True)
   | (Inr (replies, pubs), dec) \<Rightarrow> ((dec, snd s @ pubs), False))"

definition sapient_raw_run ::
  "(pyval \<Rightarrow> string) \<Rightarrow> string \<Rightarrow> real \<Rightarrow> bytes list \<Rightarrow> sapient_decoder \<Rightarrow> (sapient_decoder \<times> event list) \<times> bytes" where
  "sapient_raw_run rp base clock samples dec = flex_samples (raw_handle rp base clock) samples (dec, []) []"

end
