(* ===== verification/Sapient_Safety.thy ===== *)
theory Sapient_Safety
  imports Sapient_Decode
begin

text \<open>
  What the SAPIENT decoder keeps: every node and object on the globe, the objects distinct, bounded and under their
  own uid, whatever bytes arrive; and what becomes of an object that its sensor declares gone.
\<close>

subsection \<open>What the decoder keeps\<close>

definition on_earth :: "real option \<Rightarrow> real option \<Rightarrow> bool" where
  "on_earth lat lon \<longleftrightarrow> (case lat of None \<Rightarrow> True | Some x \<Rightarrow> \<bar>x\<bar> \<le> 90) \<and> (case lon of None \<Rightarrow> True | Some x \<Rightarrow> \<bar>x\<bar> \<le> 180)"

definition node_ok :: "node_state \<Rightarrow> bool" where
  "node_ok n \<longleftrightarrow> on_earth (latitude n) (longitude n)"

definition rounded_place :: "dict \<Rightarrow> bool" where
  "rounded_place d \<longleftrightarrow> (\<exists>lat lon. dget d ''lat_deg'' = Some (rounded 7 lat) \<and> dget d ''lon_deg'' = Some (rounded 7 lon))"

definition object_ok :: "(string \<times> string) \<times> dict \<Rightarrow> bool" where
  "object_ok kd \<longleftrightarrow> (case kd of ((n, obj), d) \<Rightarrow> on_globe d \<and> rounded_place d \<and> \<not> has_key ''_delete'' d \<and>
     dget d ''uid'' = Some (VStr (''sapient-'' @ n @ ''-'' @ obj)))"

definition decoder_ok :: "sapient_decoder \<Rightarrow> bool" where
  "decoder_ok dec \<longleftrightarrow> list_all (\<lambda>(k, n). node_ok n) (known_nodes dec) \<and> list_all object_ok (known_objects dec) \<and>
     distinct (map fst (known_objects dec)) \<and> length (known_objects dec) \<le> max_objects"

lemma decode_location_ok: "decode_location b = Inr (lat, lon, alt, meta) \<Longrightarrow> \<bar>lat\<bar> \<le> 90 \<and> \<bar>lon\<bar> \<le> 180"
proof -
  assume d: "decode_location b = Inr (lat, lon, alt, meta)"
  then obtain fs x y where xy: "iter_fields b = Inr fs" "double_field fs 1 = Some x" "double_field fs 2 = Some y"
    by (auto simp: decode_location_def and_then_iff split: option.splits)
  have "- 90 \<le> lat \<and> lat \<le> 90 \<and> - 180 \<le> lon \<and> lon \<le> 180"
    using d unfolding decode_location_def xy and_then_def sum.case Let_def option.case prod.case
    by (simp split: sum.splits prod.splits if_split_asm)
  then show ?thesis by (simp add: abs_le_iff)
qed

lemma float_mod_bounds: "0 < m \<Longrightarrow> 0 \<le> float_mod x m \<and> float_mod x m < m"
proof -
  assume m: "0 < m"
  have l: "of_int \<lfloor>x / m\<rfloor> \<le> x / m" and u: "x / m < of_int \<lfloor>x / m\<rfloor> + 1" by linarith+
  from l have "of_int \<lfloor>x / m\<rfloor> * m \<le> x" unfolding pos_le_divide_eq [OF m] .
  moreover from u have "x < (of_int \<lfloor>x / m\<rfloor> + 1) * m" unfolding pos_divide_less_eq [OF m] .
  ultimately show ?thesis by (simp add: float_mod_def algebra_simps)
qed

lemma degrees_arcsin: "\<bar>x\<bar> \<le> 1 \<Longrightarrow> \<bar>degrees (arcsin x)\<bar> \<le> 90"
proof -
  assume "\<bar>x\<bar> \<le> 1"
  then have x: "- 1 \<le> x" "x \<le> 1" by (auto simp: abs_le_iff)
  from arcsin_lbound [OF x] arcsin_ubound [OF x] have "- (pi / 2) \<le> arcsin x" "arcsin x \<le> pi / 2" .
  then have "- 90 * pi \<le> arcsin x * 180" "arcsin x * 180 \<le> 90 * pi" by linarith+
  then have "arcsin x * 180 / pi \<le> 90" "- 90 \<le> arcsin x * 180 / pi" by (simp_all add: pos_divide_le_eq pos_le_divide_eq)
  then show ?thesis unfolding degrees_def by (simp add: abs_le_iff)
qed

lemma project_ok: "project n e a d = Inr (lat, lon, alt) \<Longrightarrow> \<bar>lat\<bar> \<le> 90 \<and> \<bar>lon\<bar> \<le> 180"
proof -
  assume p: "project n e a d = Inr (lat, lon, alt)"
  then obtain u v w where l: "lat = degrees (arcsin (sin u * cos v + cos u * sin v * cos w))"
    and "\<exists>z. lon = float_mod z 360 - 180"
    by (auto simp: project_def Let_def split: option.splits)
  with float_mod_bounds [of 360] have "\<bar>lon\<bar> \<le> 180" by (auto simp: abs_le_iff intro: less_imp_le)
  with l degrees_arcsin [OF forward_sine_bounds] show ?thesis by simp
qed

lemma report_position_ok: "report_position n fs = Inr (lat, lon, alt, meta) \<Longrightarrow> \<bar>lat\<bar> \<le> 90 \<and> \<bar>lon\<bar> \<le> 180"
  by (auto simp: report_position_def and_then_iff dest: decode_location_ok project_ok split: option.splits)

lemma detection_position_ok:
  assumes "detection_position n fs cached state = Inr (lat, lon, alt, meta)" "\<And>d. cached = Some d \<Longrightarrow> on_globe d"
  shows "\<bar>lat\<bar> \<le> 90 \<and> \<bar>lon\<bar> \<le> 180"
proof (cases "report_position n fs")
  case (Inr p)
  with assms(1) report_position_ok show ?thesis by (auto simp: detection_position_def)
next
  case (Inl e)
  with assms(1) obtain d where d: "cached = Some d" "real_at d ''lat_deg'' = Some lat" "real_at d ''lon_deg'' = Some lon"
    by (auto simp: detection_position_def split: option.splits if_splits)
  with assms(2) [OF d(1)] show ?thesis by (auto simp: on_globe_def real_at_def)
qed

lemma dget_Cons: "dget ((k, v) # d) j = (if j = k then Some v else dget d j)"
  by (simp add: dget_def)

lemma on_globe_base: "dget d ''lat_deg'' = Some (rounded 7 lat) \<Longrightarrow> dget d ''lon_deg'' = Some (rounded 7 lon) \<Longrightarrow>
    \<bar>lat\<bar> \<le> 90 \<and> \<bar>lon\<bar> \<le> 180 \<Longrightarrow> on_globe d"
  unfolding rounded_def by (rule on_globe_rounded) auto

lemma detection_track_ok:
  assumes "detection node_id node sent_at b objs = Inr (track, objs')" "list_all object_ok objs"
  shows "\<exists>obj. on_globe track \<and> rounded_place track \<and> dget track ''uid'' = Some (VStr (''sapient-'' @ node_id @ ''-'' @ obj)) \<and> objs' = remember (node_id, obj) track objs"
proof -
  obtain fs lat lon alt meta classes parts where d: "iter_fields b = Inr fs"
    and p: "detection_position node fs (map_of objs (node_id, or_else (text_field fs 2) ''unknown'')) (text_field fs 4) = Inr (lat, lon, alt, meta)"
    and t: "track = detection_base node_id (or_else (text_field fs 2) ''unknown'') node sent_at fs (lat, lon, alt, meta) classes @ concat parts"
      "objs' = remember (node_id, or_else (text_field fs 2) ''unknown'') track objs"
    using assms(1) by (auto simp: detection_def and_then_iff Let_def)
  have "\<bar>lat\<bar> \<le> 90 \<and> \<bar>lon\<bar> \<le> 180"
  proof (rule detection_position_ok [OF p])
    fix c
    assume "map_of objs (node_id, or_else (text_field fs 2) ''unknown'') = Some c"
    then have "((node_id, or_else (text_field fs 2) ''unknown''), c) \<in> set objs" by (rule map_of_SomeD)
    with assms(2) show "on_globe c" by (auto simp: list_all_iff object_ok_def)
  qed
  moreover have "dget track ''lat_deg'' = Some (rounded 7 lat)" "dget track ''lon_deg'' = Some (rounded 7 lon)"
    "dget track ''uid'' = Some (VStr (''sapient-'' @ node_id @ ''-'' @ or_else (text_field fs 2) ''unknown''))"
    by (simp_all add: t(1) detection_base_def Let_def dget_Cons)
  ultimately show ?thesis using on_globe_base t(2) unfolding rounded_place_def by blast
qed

lemma alert_track_ok: "alert node_id node sent_at b = Inr track \<Longrightarrow> on_globe track"
proof -
  assume "alert node_id node sent_at b = Inr track"
  then obtain fs lat lon alt meta rest where "report_position node fs = Inr (lat, lon, alt, meta)"
    "dget track ''lat_deg'' = Some (rounded 7 lat)" "dget track ''lon_deg'' = Some (rounded 7 lon)"
    by (auto simp: alert_def and_then_iff Let_def dget_Cons)
  then show ?thesis using report_position_ok on_globe_base by blast
qed

lemma status_track_globe: "status_track node_id node lat lon sent_at fs = Inr track \<Longrightarrow> \<bar>lat\<bar> \<le> 90 \<and> \<bar>lon\<bar> \<le> 180 \<Longrightarrow> on_globe track"
  by (rule on_globe_base [of _ lat lon]) (auto simp: status_track_def and_then_iff dget_Cons)

lemma status_ok:
  assumes "status node_id sent_at b node = (r, node')" "node_ok node"
  shows "node_ok node' \<and> (\<forall>t. r = Inr (Some t) \<longrightarrow> on_globe t)"
proof (cases "iter_fields b")
  case (Inl e)
  with assms have "r = Inl e" "node' = node" by (auto simp: status_def)
  with assms(2) show ?thesis by simp
next
  case (Inr fs)
  let ?moved = "case bytes_field fs 7 of None \<Rightarrow> Inr node
     | Some l \<Rightarrow> and_then (decode_location l) (\<lambda>(lat, lon, alt, meta). Inr (node\<lparr>latitude := Some lat, longitude := Some lon, altitude_m := alt\<rparr>))"
  show ?thesis
  proof (cases ?moved)
    case (Inl e)
    with assms Inr show ?thesis by (auto simp: status_def)
  next
    case (Inr n)
    have n: "node_ok n"
      using Inr assms(2) by (auto simp: node_ok_def on_earth_def and_then_iff dest: decode_location_ok split: option.splits)
    have nn: "node' = n \<and> (r = Inr None \<or> (\<exists>lat lon. latitude n = Some lat \<and> longitude n = Some lon \<and>
        and_then (status_track node_id n lat lon sent_at fs) (\<lambda>t. Inr (Some t)) = r))"
      using assms(1) \<open>iter_fields b = Inr fs\<close> Inr by (auto simp: status_def split: option.splits)
    moreover have "on_globe t" if tr: "r = Inr (Some t)" for t
    proof -
      obtain lat lon where "latitude n = Some lat" "longitude n = Some lon" "status_track node_id n lat lon sent_at fs = Inr t"
        using nn unfolding tr by (auto simp: and_then_iff)
      with n status_track_globe show ?thesis by (auto simp: node_ok_def on_earth_def)
    qed
    ultimately show ?thesis using n by auto
  qed
qed
lemma run_stages_keep:
  assumes "\<And>f m m'. f \<in> set fs \<Longrightarrow> f m = Inr m' \<Longrightarrow> P m \<Longrightarrow> P m'" "P node" shows "P (fst (run_stages fs node))"
  using assms by (induction fs arbitrary: node) (auto split: sum.splits)

lemma reg_capability_keeps: "reg_capability b m = Inr m' \<Longrightarrow> latitude m' = latitude m \<and> longitude m' = longitude m"
proof -
  assume "reg_capability b m = Inr m'"
  then obtain cs where r: "reg_capability b m = Inr m'" "iter_fields b = Inr cs" by (auto simp: reg_capability_def and_then_iff)
  from r(1) show ?thesis
    unfolding reg_capability_def r(2) and_then_def sum.case
    by (cases "text_field cs 1"; cases "text_field cs 2") auto
qed

lemma reg_config_keeps: "reg_config b m = Inr m' \<Longrightarrow> latitude m' = latitude m \<and> longitude m' = longitude m"
proof -
  assume "reg_config b m = Inr m'"
  then obtain cs where r: "reg_config b m = Inr m'" "iter_fields b = Inr cs" by (auto simp: reg_config_def and_then_iff)
  from r(1) show ?thesis
    unfolding reg_config_def r(2) and_then_def sum.case
    by (cases "text_field cs 1"; cases "text_field cs 2") auto
qed

lemma registration_keeps:
  "latitude (fst (registration b node)) = latitude node \<and> longitude (fst (registration b node)) = longitude node"
proof (cases "iter_fields b")
  case (Inr fs)
  show ?thesis unfolding registration_def Inr sum.case
    by (rule run_stages_keep [of _ "\<lambda>m. latitude m = latitude node \<and> longitude m = longitude node"])
      (auto simp: reg_names_def reg_types_def reg_units_def reg_status_reset_def reg_status_interval_def reg_counts_def
        and_then_iff Let_def dest: reg_capability_keeps reg_config_keeps split: option.splits if_splits)
qed (simp add: registration_def)

lemma registration_ok: "node_ok node \<Longrightarrow> node_ok (fst (registration b node))"
  using registration_keeps by (simp add: node_ok_def)

lemma map_fst_drop_distinct: "distinct (map fst al) \<Longrightarrow> distinct (map fst (drop n al))"
  by (metis distinct_drop drop_map)

lemma alist_delete_mem: "x \<in> set (AList.delete k al) \<Longrightarrow> x \<in> set al"
  by (auto simp: AList.delete_eq)

lemma remember_ok:
  assumes "list_all object_ok objs" "distinct (map fst objs)" "length objs \<le> max_objects"
    and "has_key ''_delete'' track \<or> object_ok (k, track)"
  shows "list_all object_ok (remember k track objs) \<and> distinct (map fst (remember k track objs)) \<and> length (remember k track objs) \<le> max_objects"
proof (cases "has_key ''_delete'' track")
  case True
  then show ?thesis
    using assms(1-3) le_trans [OF length_delete_le assms(3)]
    by (auto simp: remember_def list_all_iff distinct_delete dest: alist_delete_mem)
next
  case False
  define al where "al = AList.delete k objs @ [(k, track)]"
  have a: "list_all object_ok al"
    using False assms(1,4) by (auto simp: al_def list_all_iff dest: alist_delete_mem)
  have d: "distinct (map fst al)"
    using distinct_delete [OF assms(2)] by (simp add: al_def AList.delete_keys)
  have r: "remember k track objs = drop (length al - max_objects) al"
    using False by (simp add: remember_def al_def Let_def)
  show ?thesis unfolding r
    using a map_fst_drop_distinct [OF d] by (auto simp: list_all_iff dest: in_set_dropD)
qed

lemma alist_update_mem: "(j, m) \<in> set (AList.update k n al) \<Longrightarrow> m = n \<or> (j, m) \<in> set al"
  by (induction al) (auto split: if_splits)

lemma put_node_ok: "decoder_ok dec \<Longrightarrow> node_ok n \<Longrightarrow> decoder_ok (put_node k n dec)"
proof -
  assume d: "decoder_ok dec" and n: "node_ok n"
  have "\<forall>(j, m) \<in> set (AList.update k n (known_nodes dec)). node_ok m"
  proof clarify
    fix j m
    assume "(j, m) \<in> set (AList.update k n (known_nodes dec))"
    then have "m = n \<or> (j, m) \<in> set (known_nodes dec)" by (rule alist_update_mem)
    with d n show "node_ok m" by (auto simp: decoder_ok_def list_all_iff)
  qed
  with d show ?thesis by (auto simp: decoder_ok_def put_node_def list_all_iff)
qed

definition event_ok :: "sapient_event \<Rightarrow> bool" where
  "event_ok ev \<longleftrightarrow> (case ev_track ev of None \<Rightarrow> True | Some t \<Rightarrow> on_globe t)"

lemma new_node_ok: "node_ok new_node"
  by (simp add: node_ok_def on_earth_def new_node_def)

lemma plain_event_ok: "event_ok (plain_event k n t)"
  by (simp add: event_ok_def plain_event_def)

lemma known_node_ok: "decoder_ok dec \<Longrightarrow> node_ok (or_else (map_of (known_nodes dec) k) new_node)"
  by (auto simp: or_else_def new_node_ok decoder_ok_def list_all_iff dest: map_of_SomeD split: option.splits)

lemma on_content_ok:
  assumes "decoder_ok dec" "on_content nr node_id sent_at b dec = (r, dec')"
  shows "decoder_ok dec' \<and> (\<forall>ev. r = Inr ev \<longrightarrow> event_ok ev)"
proof -
  define node where "node = or_else (map_of (known_nodes dec) node_id) new_node"
  define dec1 where "dec1 = put_node node_id node dec"
  define ev where "ev = plain_event (or_else (map_of content_kinds nr) []) node_id sent_at"
  have n: "node_ok node" unfolding node_def by (rule known_node_ok [OF assms(1)])
  have d: "decoder_ok dec1" unfolding dec1_def by (rule put_node_ok [OF assms(1) n])
  have e: "event_ok ev" unfolding ev_def by (rule plain_event_ok)
  note run = assms(2) [unfolded on_content_def, folded node_def ev_def, unfolded Let_def, folded node_def, folded dec1_def]
  consider "nr = 4" | "nr = 6" | "nr = 7" | "nr = 10" | "nr \<notin> {4, 6, 7, 10}" by auto
  then show ?thesis
  proof cases
    case 1
    obtain node2 x where rg: "registration b node = (node2, x)" by fastforce
    with put_node_ok [OF d registration_ok [OF n]] have "decoder_ok (put_node node_id node2 dec1)" by (metis fst_conv)
    with run 1 rg e show ?thesis by (auto split: option.splits)
  next
    case 2
    obtain r2 node2 where st: "status node_id sent_at b node = (r2, node2)" by fastforce
    from status_ok [OF st n] have n2: "decoder_ok (put_node node_id node2 dec1)" "\<And>t. r2 = Inr (Some t) \<Longrightarrow> on_globe t"
      using put_node_ok [OF d] by auto
    with run 2 st show ?thesis by (cases r2) (auto simp: event_ok_def split: option.splits)
  next
    case 3
    show ?thesis
    proof (cases "detection node_id node sent_at b (known_objects dec1)")
      case (Inl x)
      with run 3 d e show ?thesis by (auto simp: event_ok_def)
    next
      case (Inr p)
      obtain track objs where p: "p = (track, objs)" by fastforce
      have ok: "list_all object_ok (known_objects dec1)" "distinct (map fst (known_objects dec1))"
        "length (known_objects dec1) \<le> max_objects" "list_all (\<lambda>(k, n). node_ok n) (known_nodes dec1)"
        using d by (auto simp: decoder_ok_def)
      from detection_track_ok [OF Inr [unfolded p] ok(1)] obtain obj where t: "on_globe track" "rounded_place track"
        "dget track ''uid'' = Some (VStr (''sapient-'' @ node_id @ ''-'' @ obj))" "objs = remember (node_id, obj) track (known_objects dec1)"
        by blast
      have "has_key ''_delete'' track \<or> object_ok ((node_id, obj), track)" using t by (auto simp: object_ok_def)
      from remember_ok [OF ok(1-3) this] t(4) ok(4) have "decoder_ok (dec1\<lparr>known_objects := objs\<rparr>)"
        by (auto simp: decoder_ok_def)
      with run 3 Inr p t(1) show ?thesis by (auto simp: event_ok_def)
    qed
  next
    case 4
    then show ?thesis
      using run d e alert_track_ok by (auto simp: event_ok_def split: sum.splits)
  next
    case 5
    with run d e show ?thesis by (auto split: sum.splits)
  qed
qed

lemma py_round_again [simp]: "py_round (py_round x n) n = py_round x n"
proof -
  have "py_round x n * 10 ^ n = of_int (round_half_even (x * 10 ^ n))" by (simp add: py_round_def)
  then show ?thesis by (simp add: py_round_def)
qed

lemma remember_gone: "has_key ''_delete'' track \<Longrightarrow> map_of (remember k track objs) k = None"
  by (simp add: remember_def AList.delete_conv')

lemma remember_last: "distinct (map fst objs) \<Longrightarrow> \<not> has_key ''_delete'' track \<Longrightarrow> map_of (remember k track objs) k = Some track"
proof -
  assume a: "distinct (map fst objs)" "\<not> has_key ''_delete'' track"
  define al where "al = AList.delete k objs @ [(k, track)]"
  have r: "remember k track objs = drop (length al - max_objects) al"
    using a(2) by (simp add: remember_def al_def Let_def)
  have "length al - max_objects \<le> length (AList.delete k objs)" by (simp add: al_def max_objects_def)
  then have "(k, track) \<in> set (drop (length al - max_objects) al)" by (simp add: al_def)
  moreover have "distinct (map fst (drop (length al - max_objects) al))"
    by (rule map_fst_drop_distinct) (use distinct_delete [OF a(1)] in \<open>simp add: al_def AList.delete_keys\<close>)
  ultimately show ?thesis unfolding r by (rule map_of_is_SomeI [rotated])
qed

text \<open>An object that its sensor declares gone, in a report that has no usable position, is published as deleted under
  its own uid at exactly the last position published for it, and is then forgotten: the same report once more is refused,
  with nothing published.\<close>

theorem lost_object_at_last_position:
  assumes "list_all object_ok objs" and "distinct (map fst objs)"
    and "iter_fields b = Inr fs" and "text_field fs 2 = Some obj" and "text_field fs 4 = Some state" and "is_delete_state (Some state)"
    and "report_position node fs = Inl e" and "map_of objs (node_id, obj) = Some seen"
    and "detection node_id node sent_at b objs = Inr (track, objs')"
  shows "dget track ''lat_deg'' = dget seen ''lat_deg'' \<and> dget track ''lon_deg'' = dget seen ''lon_deg'' \<and>
    dget track ''uid'' = dget seen ''uid'' \<and> dget track ''_delete'' = Some (VBool True) \<and>
    detection node_id node sent_at b objs' = Inl e"
proof -
  have ok: "object_ok ((node_id, obj), seen)" using assms(1) map_of_SomeD [OF assms(8)] by (auto simp: list_all_iff)
  then obtain lat lon where l: "dget seen ''lat_deg'' = Some (rounded 7 lat)" "dget seen ''lon_deg'' = Some (rounded 7 lon)"
    by (auto simp: object_ok_def rounded_place_def)
  have p: "detection_position node fs (Some seen) (Some state) = Inr (py_round lat 7, py_round lon 7, real_at seen ''geo_alt_m'', [])"
    using l assms(6,7) by (simp add: detection_position_def real_at_def rounded_def)
  obtain classes parts where t: "track = detection_base node_id obj node sent_at fs (py_round lat 7, py_round lon 7, real_at seen ''geo_alt_m'', []) classes @ concat parts"
    "objs' = remember (node_id, obj) track objs"
    using assms(9) unfolding detection_def assms(3) by (auto simp: and_then_iff assms(4,5,8) p or_else_def Let_def)
  have d: "dget track ''lat_deg'' = Some (rounded 7 lat)" "dget track ''lon_deg'' = Some (rounded 7 lon)"
    "dget track ''uid'' = Some (VStr (''sapient-'' @ node_id @ ''-'' @ obj))" "dget track ''_delete'' = Some (VBool True)"
    using assms(5,6) by (simp_all add: t(1) detection_base_def Let_def dget_Cons rounded_def if_some_def split: option.splits)
  then have "has_key ''_delete'' track" by (simp add: has_key_def dget_def)
  then have "map_of objs' (node_id, obj) = None" unfolding t(2) by (rule remember_gone)
  then have "detection node_id node sent_at b objs' = Inl e"
    using assms(3-7) by (simp add: detection_def and_then_def or_else_def detection_position_def)
  with d l ok show ?thesis by (simp add: object_ok_def)
qed
definition lost_fields :: "wire_field list" where
  "lost_fields = [\<lparr>field_number = 2, wire_type = 2, wire_value = WBytes [97]\<rparr>, \<lparr>field_number = 4, wire_type = 2, wire_value = WBytes [76, 111, 115, 116]\<rparr>]"

definition lost_seen :: dict where
  "lost_seen = [(''uid'', VStr ''sapient-unknown-a''), (''lat_deg'', rounded 7 55), (''lon_deg'', rounded 7 24)]"

lemma lost_codes: "map code_char [97] = ''a''" "map code_char [76, 111, 115, 116] = ''Lost''"
  by (simp_all add: code_char_def char_of_def bit_0)

lemma lost_words: "py_words [] ''a'' = [''a'']" "py_words [] ''Lost'' = [''Lost'']"
  by code_simp+

lemma lost_utf8: "utf8_codes (map unat [97 :: byte]) = Some [97]" "utf8_codes (map unat [76, 111, 115, 116 :: byte]) = Some [76, 111, 115, 116]"
  by simp_all

lemma lost_texts: "wire_text (Some (WBytes [97])) = Some ''a''" "wire_text (Some (WBytes [76, 111, 115, 116])) = Some ''Lost''"
  unfolding wire_text_def option.case wire_value.case lost_utf8 lost_codes lost_words Let_def by simp_all

lemma lost_values: "text_field lost_fields 2 = Some ''a''" "text_field lost_fields 4 = Some ''Lost''" "is_delete_state (Some ''Lost'')"
  "report_position node lost_fields = Inl NoLocation" "text_field lost_fields 1 = None" "text_field lost_fields 3 = None" 
  "text_field lost_fields 22 = None" "text_field lost_fields 23 = None"
  subgoal by (simp add: text_field_def first_value_def lost_fields_def is_field_def lost_texts)
  subgoal by (simp add: text_field_def first_value_def lost_fields_def is_field_def lost_texts)
  subgoal by code_simp
  by (simp_all add: text_field_def first_value_def lost_fields_def is_field_def wire_text_def report_position_def bytes_field_def)

lemma lost_read: "iter_fields (concat (map encode_field lost_fields)) = Inr lost_fields"
  by (rule iter_encoded) (simp add: lost_fields_def encodable_def)

lemma lost_ok: "list_all object_ok [((''unknown'', ''a''), lost_seen)]"
proof -
  have d: "dget lost_seen ''lat_deg'' = Some (rounded 7 55)" "dget lost_seen ''lon_deg'' = Some (rounded 7 24)"
    by (simp_all add: lost_seen_def dget_Cons)
  then have "on_globe lost_seen" by (rule on_globe_base) simp
  with d show ?thesis
    by (auto simp: object_ok_def rounded_place_def has_key_def) (simp_all add: lost_seen_def dget_Cons)
qed

lemma lost_none: "n \<noteq> 2 \<and> n \<noteq> 4 \<Longrightarrow> messages lost_fields n k = [] \<and> bytes_field lost_fields n = None"
  by (simp add: messages_def bytes_field_def all_values_def first_value_def lost_fields_def is_field_def)

lemma lost_parts: "\<exists>parts. detection_parts node lost_fields = Inr parts"
  by (simp add: detection_parts_def lost_none decode_info_def decode_signals_def prediction_def listed_def velocity_def)

lemma lost_detected: "\<exists>track objs'. detection ''unknown'' node t (concat (map encode_field lost_fields)) [((''unknown'', ''a''), lost_seen)] = Inr (track, objs')"
proof -
  obtain parts where p: "detection_parts node lost_fields = Inr parts" using lost_parts by blast
  have "\<exists>pos. detection_position node lost_fields (Some lost_seen) (Some ''Lost'') = Inr pos"
    by (simp add: detection_position_def lost_values real_at_def lost_seen_def dget_Cons rounded_def)
  then obtain pos where "detection_position node lost_fields (Some lost_seen) (Some ''Lost'') = Inr pos" ..
  with p show ?thesis
    by (simp add: detection_def lost_read lost_values or_else_def lost_none Let_def)
qed

theorem lost_object_at_last_position_witness:
  "\<exists>track objs'. detection ''unknown'' new_node 0 (concat (map encode_field lost_fields)) [((''unknown'', ''a''), lost_seen)] = Inr (track, objs') \<and>
    dget track ''_delete'' = Some (VBool True) \<and>
    detection ''unknown'' new_node 0 (concat (map encode_field lost_fields)) objs' = Inl NoLocation"
proof -
  obtain track objs' where d: "detection ''unknown'' new_node 0 (concat (map encode_field lost_fields)) [((''unknown'', ''a''), lost_seen)] = Inr (track, objs')"
    using lost_detected by blast
  have "map_of [((''unknown'', ''a''), lost_seen)] (''unknown'', ''a'') = Some lost_seen" by simp
  from lost_object_at_last_position [OF lost_ok _ lost_read lost_values(1,2,3,4) this d] d show ?thesis by auto
qed
end
