(* ===== verification/Asterix_Messages.thy ===== *)
theory Asterix_Messages
  imports Asterix_Cat020 Topics
begin

text \<open>
  What the ASTERIX categories of \<open>cat.py\<close> share whose block is one message: a truncated item ends the loop, what
  was read before it is kept, and an empty message is nothing. The locale \<open>message_category\<close> states what a
  category promises of its items; each category interprets it.
\<close>

subsection \<open>Items\<close>

text \<open>\<open>if pos + k > len(data): break\<close>.\<close>

definition or_break :: "nat \<Rightarrow> bytes \<Rightarrow> dict \<Rightarrow> nat \<Rightarrow> flow option \<Rightarrow> flow option" where
  "or_break k data d pos f = (if pos + k > length data then Some (Break (d, pos)) else f)"

text \<open>An item of \<open>k\<close> octets that makes assignments: in general, of an octet, and of a word.\<close>

definition fields_item :: "nat \<Rightarrow> (bytes \<Rightarrow> nat \<Rightarrow> dict option) \<Rightarrow> item" where
  "fields_item k f data d pos = or_break k data d pos (do { kvs \<leftarrow> f data pos; Some (Next (puts d kvs, pos + k)) })"

definition octet_item :: "(int \<Rightarrow> dict) \<Rightarrow> item" where
  "octet_item f = fields_item 1 (\<lambda>data pos. do { b \<leftarrow> byte_at data pos; Some (f b) })"

definition word_item :: "(int \<Rightarrow> dict) \<Rightarrow> item" where
  "word_item f = fields_item 2 (\<lambda>data pos. do { w \<leftarrow> u16 data pos; Some (f w) })"

definition int16_item :: "(int \<Rightarrow> dict) \<Rightarrow> item" where
  "int16_item f = fields_item 2 (\<lambda>data pos. do { w \<leftarrow> s16 data pos; Some (f w) })"

definition u24_item :: "(int \<Rightarrow> dict) \<Rightarrow> item" where
  "u24_item f = fields_item 3 (\<lambda>data pos. do { raw \<leftarrow> u24 data pos; Some (f raw) })"

definition pair_item :: "string \<Rightarrow> string \<Rightarrow> item" where
  "pair_item j k = fields_item 2 (\<lambda>data pos. do {
     a \<leftarrow> byte_at data pos;
     b \<leftarrow> byte_at data (pos + 1);
     Some [(j, VInt a), (k, VInt b)]
   })"

definition sac_sic_item :: item where "sac_sic_item = pair_item ''sac'' ''sic''"

definition tod_item :: item where
  "tod_item = u24_item (\<lambda>raw. [(''tod_s'', VFloat (of_int raw / 128))])"

definition octets_item :: "(int \<Rightarrow> int \<Rightarrow> dict) \<Rightarrow> item" where
  "octets_item f = fields_item 2 (\<lambda>data pos. do {
     a \<leftarrow> byte_at data pos;
     b \<leftarrow> byte_at data (pos + 1);
     Some (f a b)
   })"

text \<open>
  A chain of octets, each with an extension bit: an octet that is missing ends the item in the first form, and the
  message in the second.
\<close>

fun open_chain :: "(int \<Rightarrow> dict) list \<Rightarrow> item \<Rightarrow> item" where
  "open_chain [] rest data d pos = rest data d pos"
| "open_chain (f # fs) rest data d pos =
     (if pos + 1 > length data then Some (Next (d, pos))
      else do {
        b \<leftarrow> byte_at data pos;
        (if \<not> bits b 0x01 then Some (Next (puts d (f b), pos + 1)) else open_chain fs rest data (puts d (f b)) (pos + 1))
      })"

definition octet_chain :: "(int \<Rightarrow> dict) list \<Rightarrow> item" where
  "octet_chain fs = open_chain fs (\<lambda>data d pos. Some (Next (d, pos)))"

fun break_chain :: "(int \<Rightarrow> dict) list \<Rightarrow> item" where
  "break_chain [] data d pos = Some (Next (d, pos))"
| "break_chain (f # fs) data d pos = or_break 1 data d pos (do {
     b \<leftarrow> byte_at data pos;
     (if \<not> bits b 0x01 then Some (Next (puts d (f b), pos + 1)) else break_chain fs data (puts d (f b)) (pos + 1))
   })"

text \<open>\<open>table.get(x, prefix + str(x))\<close>, and with a fixed default.\<close>

definition coded :: "(int \<times> string) list \<Rightarrow> string \<Rightarrow> int \<Rightarrow> pyval" where
  "coded t pre x = VStr (table_get t x (pre @ fmt_int x))"

definition label :: "(int \<times> string) list \<Rightarrow> string \<Rightarrow> int \<Rightarrow> pyval" where
  "label t default_name x = VStr (table_get t x default_name)"

definition flag :: "int \<Rightarrow> int \<Rightarrow> pyval" where
  "flag b m = VBool (bits b m)"

definition rnd :: "nat \<Rightarrow> real \<Rightarrow> pyval" where
  "rnd n x = VFloat (py_round x n)"

text \<open>A field that is assigned when it is not empty.\<close>

definition unless_Nil :: "string \<Rightarrow> pyval list \<Rightarrow> dict" where
  "unless_Nil k vs = onlyif (vs \<noteq> []) [(k, VList vs)]"

text \<open>The octets' seven high bits, up to the first octet without an extension bit.\<close>

definition fx_item :: "(int list \<Rightarrow> dict) \<Rightarrow> item" where
  "fx_item f data d pos = do {
     (codes, pos) \<leftarrow> cat20_loop030 data [] pos;
     Some (Next (puts d (f codes), pos))
   }"

definition raw_list_item :: "string \<Rightarrow> item" where
  "raw_list_item k = fx_item (\<lambda>codes. unless_Nil k (map VInt codes))"

text \<open>A count and entries of \<open>k\<close> octets: a truncated entry ends the list.\<close>

fun rep_entries :: "nat \<Rightarrow> nat \<Rightarrow> (bytes \<Rightarrow> nat \<Rightarrow> 'a option) \<Rightarrow> bytes \<Rightarrow> nat \<Rightarrow> ('a list \<times> nat) option" where
  "rep_entries k 0 f data pos = Some ([], pos)"
| "rep_entries k (Suc n) f data pos =
     (if pos + k > length data then Some ([], pos)
      else do {
        e \<leftarrow> f data pos;
        (es, pos) \<leftarrow> rep_entries k n f data (pos + k);
        Some (e # es, pos)
      })"

definition rep_item :: "nat \<Rightarrow> (bytes \<Rightarrow> nat \<Rightarrow> 'a option) \<Rightarrow> ('a list \<Rightarrow> dict) \<Rightarrow> item" where
  "rep_item k f g data d pos = or_break 1 data d pos (do {
     rep \<leftarrow> byte_at data pos;
     (es, pos) \<leftarrow> rep_entries k (nat rep) f data (pos + 1);
     Some (Next (puts d (g es), pos))
   })"

definition list_item :: "string \<Rightarrow> nat \<Rightarrow> (bytes \<Rightarrow> nat \<Rightarrow> pyval option) \<Rightarrow> item" where
  "list_item key k f = rep_item k f (unless_Nil key)"

text \<open>A text that is assigned when something is left of it.\<close>

definition stripped :: "bytes \<Rightarrow> nat \<Rightarrow> nat \<Rightarrow> string" where
  "stripped data pos k = strip_by (\<lambda>c. c = CHR 0x00 \<or> c = CHR '' '') (ascii_replace (py_slice data pos (pos + k)))"

definition unless_blank :: "string \<Rightarrow> string \<Rightarrow> dict" where
  "unless_blank k s = onlyif (s \<noteq> []) [(k, VStr s)]"

definition text_item :: "string \<Rightarrow> nat \<Rightarrow> item" where
  "text_item key k = fields_item k (\<lambda>data pos. Some (unless_blank key (stripped data pos k)))"

text \<open>A list whose count may be missing, and a block of \<open>k\<close> times the count octets.\<close>

definition lenient_list_item :: "string \<Rightarrow> nat \<Rightarrow> (bytes \<Rightarrow> nat \<Rightarrow> pyval option) \<Rightarrow> item" where
  "lenient_list_item key k f data d pos = (if pos \<ge> length data then Some (Next (d, pos)) else list_item key k f data d pos)"

definition block_item :: "nat \<Rightarrow> (nat \<Rightarrow> bytes \<Rightarrow> dict) \<Rightarrow> item" where
  "block_item k f data d pos = or_break 1 data d pos (do {
     rep \<leftarrow> byte_at data pos;
     or_break (nat rep * k) data d (pos + 1)
       (Some (Next (puts d (f (nat rep) (py_slice data (pos + 1) (pos + 1 + nat rep * k))), pos + 1 + nat rep * k)))
   })"

text \<open>\<open>while b & 0x01: if pos >= len(data): break; b = data[pos]; pos += 1; ...\<close>.\<close>

function fx_loop :: "(int \<Rightarrow> dict) \<Rightarrow> int \<Rightarrow> item" where
  "fx_loop f b data d pos =
     (if \<not> bits b 1 then Some (Next (d, pos))
      else if pos \<ge> length data then Some (Next (d, pos))
      else do { b \<leftarrow> byte_at data pos; fx_loop f b data (puts d (f b)) (pos + 1) })"
  by pat_completeness auto
termination
  by (relation "measure (\<lambda>(f, b, data, d, pos). length data - pos)") auto

declare fx_loop.simps [simp del]

text \<open>Words of fifteen bits with an extension bit, as far as there are two octets.\<close>

function q_loop :: "bytes \<Rightarrow> int list \<Rightarrow> nat \<Rightarrow> (int list \<times> nat) option" where
  "q_loop data q_values pos =
     (if pos + 2 \<le> length data then do {
        w \<leftarrow> u16 data pos;
        (if \<not> bits w 1 then Some (q_values @ [bitfield w 1 0x7FFF], pos + 2)
         else q_loop data (q_values @ [bitfield w 1 0x7FFF]) (pos + 2))
      } else Some (q_values, pos))"
  by pat_completeness auto
termination
  by (relation "measure (\<lambda>(data, qs, pos). length data - pos)") auto

declare q_loop.simps [simp del]

text \<open>A field reference number that encodes nothing, and one that ends the message.\<close>

definition break_item :: item where
  "break_item data d pos = Some (Break (d, pos))"

definition spare_item :: item where
  "spare_item data d pos = Some (Next (d, pos))"

text \<open>
  A compound item: an octet of presence bits and parts. Here a part that is cut short returns what there is
  (\<open>Return\<close>), and \<open>Break\<close> stands for the result \<open>None\<close> of the item's decoder.
\<close>

definition part :: "nat \<Rightarrow> (bytes \<Rightarrow> nat \<Rightarrow> dict option) \<Rightarrow> item" where
  "part k f data out pos =
     (if pos + k > length data then Some (Return (out, pos))
      else do { kvs \<leftarrow> f data pos; Some (Next (puts out kvs, pos + k)) })"

fun parts :: "int \<Rightarrow> (int \<times> item) list \<Rightarrow> item" where
  "parts fx [] data out pos = Some (Next (out, pos))"
| "parts fx ((m, f) # fs) data out pos =
     (if bits fx m then then_item (f data out pos) (parts fx fs data) else parts fx fs data out pos)"

definition compound :: "(int \<times> item) list \<Rightarrow> item" where
  "compound fs data out pos =
     (if pos + 1 > length data then Some (Break (out, pos))
      else do { fx \<leftarrow> byte_at data pos; parts fx fs data out (pos + 1) })"

text \<open>What a decoder of an item returns becomes one field of the message, if there is anything.\<close>

definition nested_item :: "string \<Rightarrow> item \<Rightarrow> item" where
  "nested_item key f data d pos = do {
     r \<leftarrow> f data [] pos;
     (case r of
        Break s \<Rightarrow> Some (Break (d, pos))
      | Next (out, pos) \<Rightarrow> Some (Next (puts d (onlyif (out \<noteq> []) [(key, VDict out)]), pos))
      | Return (out, pos) \<Rightarrow> Some (Next (puts d (onlyif (out \<noteq> []) [(key, VDict out)]), pos)))
   }"

subsection \<open>Messages\<close>

definition decode_message :: "item list \<Rightarrow> bytes \<Rightarrow> dict option option" where
  "decode_message items data =
     (if length data < 1 then Some None
      else do {
        (fspec, pos) \<leftarrow> parse_fspec data 0;
        r \<leftarrow> run_items (dispatch items data) 0 fspec [] pos;
        let msg = fst (flow_state r);
        Some (if msg = [] then None else Some msg)
      })"

text \<open>The handlers stamp a message and publish it under the key of its sensor.\<close>

definition publish_message :: "string \<Rightarrow> string \<Rightarrow> (string \<Rightarrow> string) \<Rightarrow> real \<Rightarrow> dict \<Rightarrow> event list option" where
  "publish_message src message topic now msg =
     (let msg = puts msg [(''_ts'', VFloat now), (''_src'', VStr src)] in do {
        source \<leftarrow> asterix_source msg;
        Some [PubDual (topic source) msg message]
      })"

definition message_handler ::
  "item list \<Rightarrow> string \<Rightarrow> string \<Rightarrow> (string \<Rightarrow> string) \<Rightarrow> real \<Rightarrow> bytes \<Rightarrow> event list option" where
  "message_handler items src message topic now data = do {
     msg \<leftarrow> decode_message items data;
     (case msg of None \<Rightarrow> Some [] | Some msg \<Rightarrow> publish_message src message topic now msg)
   }"

definition sensor_topic :: "string \<Rightarrow> string \<Rightarrow> string \<Rightarrow> string" where
  "sensor_topic pre tail source = pre @ ''/land/'' @ source @ tail"

definition air_topic :: "string \<Rightarrow> string \<Rightarrow> string \<Rightarrow> string" where
  "air_topic pre tail source = pre @ ''/air/'' @ source @ tail"

subsection \<open>What the items promise\<close>

definition goes :: "nat \<Rightarrow> nat \<Rightarrow> flow option \<Rightarrow> bool" where
  "goes p n r \<longleftrightarrow> (case r of None \<Rightarrow> False
     | Some fl \<Rightarrow> typed (fst (flow_state fl)) \<and> p \<le> snd (flow_state fl) \<and> snd (flow_state fl) \<le> n)"

definition item_goes :: "item \<Rightarrow> bool" where
  "item_goes f \<longleftrightarrow> (\<forall>data d p. typed d \<longrightarrow> p \<le> length data \<longrightarrow> goes p (length data) (f data d p))"

named_theorems goes_simps

lemma goes_flow [goes_simps]:
  "\<not> goes p n None"
  "goes p n (Some (Next (d, q))) \<longleftrightarrow> typed d \<and> p \<le> q \<and> q \<le> n"
  "goes p n (Some (Break (d, q))) \<longleftrightarrow> typed d \<and> p \<le> q \<and> q \<le> n"
  "goes p n (Some (Return (d, q))) \<longleftrightarrow> typed d \<and> p \<le> q \<and> q \<le> n"
  "goes p n (if c then x else y) \<longleftrightarrow> (c \<longrightarrow> goes p n x) \<and> (\<not> c \<longrightarrow> goes p n y)"
  by (simp_all add: goes_def)

lemma goes_or_break [goes_simps]:
  "goes p (length data) (or_break k data d q f) \<longleftrightarrow>
     (length data < q + k \<longrightarrow> typed d \<and> p \<le> q \<and> q \<le> length data) \<and> (q + k \<le> length data \<longrightarrow> goes p (length data) f)"
  by (auto simp: or_break_def goes_simps)

lemma item_goesD: "item_goes f \<Longrightarrow> typed d \<Longrightarrow> p \<le> length data \<Longrightarrow> goes p (length data) (f data d p)"
  by (simp add: item_goes_def)

lemma typed_unless [flow_simps]:
  "k \<notin> set typed_keys \<Longrightarrow> typed (unless_Nil k vs)"
  by (simp add: unless_Nil_def flow_simps field_ok_def)

lemma typed_blank [flow_simps]:
  "k \<notin> set typed_keys \<Longrightarrow> typed (unless_blank k s)"
  by (simp add: unless_blank_def flow_simps)

lemma fields_item_goes [goes_simps]:
  assumes "\<And>data p. p + k \<le> length data \<Longrightarrow> out_typed (f data p)"
  shows "item_goes (fields_item k f)"
proof -
  have "goes p (length data) (fields_item k f data d p)" if "typed d" "p \<le> length data" for data d p
    using assms [of p data] that
    by (cases "f data p") (auto simp: fields_item_def goes_simps out_typed_def flow_simps)
  then show ?thesis by (simp add: item_goes_def)
qed

lemma octet_item_goes [goes_simps]: "(\<And>b. 0 \<le> b \<Longrightarrow> b \<le> 255 \<Longrightarrow> typed (f b)) \<Longrightarrow> item_goes (octet_item f)"
  unfolding octet_item_def by (rule fields_item_goes) (use byte_range in \<open>auto simp: byte_simps flow_simps\<close>)

lemma word_item_goes [goes_simps]: "(\<And>w. 0 \<le> w \<Longrightarrow> w \<le> 65535 \<Longrightarrow> typed (f w)) \<Longrightarrow> item_goes (word_item f)"
proof -
  assume t: "\<And>w. 0 \<le> w \<Longrightarrow> w \<le> 65535 \<Longrightarrow> typed (f w)"
  have "typed (f (uint x * 256 + uint y))" for x y :: byte
    using byte_range [of x] byte_range [of y] by (intro t) auto
  then show ?thesis unfolding word_item_def by (intro fields_item_goes) (simp add: byte_simps flow_simps)
qed

lemma int16_item_goes [goes_simps]: "(\<And>w. typed (f w)) \<Longrightarrow> item_goes (int16_item f)"
  unfolding int16_item_def by (rule fields_item_goes) (simp add: byte_simps flow_simps)

lemma u24_item_goes [goes_simps]: "(\<And>raw. typed (f raw)) \<Longrightarrow> item_goes (u24_item f)"
  unfolding u24_item_def by (rule fields_item_goes) (simp add: u24_def byte_simps flow_simps)

lemma octets_item_goes [goes_simps]: "(\<And>a b. 0 \<le> a \<Longrightarrow> a \<le> 255 \<Longrightarrow> 0 \<le> b \<Longrightarrow> b \<le> 255 \<Longrightarrow> typed (f a b)) \<Longrightarrow> item_goes (octets_item f)"
  unfolding octets_item_def by (rule fields_item_goes) (use byte_range in \<open>auto simp: byte_simps flow_simps\<close>)

lemma open_chain_goes [goes_simps]:
  "list_all (\<lambda>f. \<forall>b. typed (f b)) fs \<Longrightarrow> item_goes rest \<Longrightarrow> item_goes (open_chain fs rest)"
proof -
  assume t: "list_all (\<lambda>f. \<forall>b. typed (f b)) fs" and r: "item_goes rest"
  have "typed d \<Longrightarrow> p \<le> q \<Longrightarrow> q \<le> length data \<Longrightarrow> goes p (length data) (open_chain fs rest data d q)" for data d p q
    using t
  proof (induction fs arbitrary: d q)
    case Nil
    from item_goesD [OF r Nil(1,3)] Nil(2) show ?case by (auto simp: goes_def split: option.splits)
  qed (auto simp: goes_simps flow_simps byte_simps)
  then show ?thesis by (simp add: item_goes_def)
qed

lemma octet_chain_goes [goes_simps]: "list_all (\<lambda>f. \<forall>b. typed (f b)) fs \<Longrightarrow> item_goes (octet_chain fs)"
  unfolding octet_chain_def by (rule open_chain_goes) (simp_all add: item_goes_def goes_simps)

lemma goes_then_item:
  "goes p n r \<Longrightarrow> (\<And>d q. r = Some (Next (d, q)) \<Longrightarrow> typed d \<Longrightarrow> p \<le> q \<Longrightarrow> q \<le> n \<Longrightarrow> goes p n (f d q)) \<Longrightarrow> goes p n (then_item r f)"
  by (auto simp: then_item_def goes_def split: option.splits flow.splits)

lemma part_goes [goes_simps]:
  assumes "\<And>data p. p + k \<le> length data \<Longrightarrow> out_typed (f data p)"
  shows "item_goes (part k f)"
proof -
  have "goes p (length data) (part k f data d p)" if "typed d" "p \<le> length data" for data d p
    using assms [of p data] that by (cases "p + k \<le> length data"; cases "f data p") (auto simp: part_def goes_simps out_typed_def flow_simps)
  then show ?thesis by (simp add: item_goes_def)
qed

lemma parts_goes: "list_all (\<lambda>(m, f). item_goes f) fs \<Longrightarrow> typed d \<Longrightarrow> p \<le> q \<Longrightarrow> q \<le> length data \<Longrightarrow> goes p (length data) (parts fx fs data d q)"
proof (induction fs arbitrary: d q)
  case (Cons mf fs)
  obtain m f where mf: "mf = (m, f)" by force
  have g: "goes p (length data) (f data d q)"
    using item_goesD [of f d q data] Cons.prems mf by (auto simp: goes_def split: option.splits)
  show ?case
    using Cons.prems g mf by (auto intro!: goes_then_item Cons.IH)
qed (simp add: goes_simps)

lemma compound_goes [goes_simps]: "list_all (\<lambda>(m, f). item_goes f) fs \<Longrightarrow> item_goes (compound fs)"
proof -
  assume f: "list_all (\<lambda>(m, f). item_goes f) fs"
  have "goes p (length data) (compound fs data d p)" if "typed d" "p \<le> length data" for data d p
    using that f by (auto simp: compound_def goes_simps byte_simps intro!: parts_goes)
  then show ?thesis by (simp add: item_goes_def)
qed

lemma nested_item_goes [goes_simps]: "item_goes f \<Longrightarrow> key \<notin> set typed_keys \<Longrightarrow> item_goes (nested_item key f)"
proof -
  assume f: "item_goes f" and k: "key \<notin> set typed_keys"
  have "goes p (length data) (nested_item key f data d p)" if "typed d" "p \<le> length data" for data d p
    using item_goesD [OF f typed_Nil that(2)] that k
    by (auto simp: nested_item_def goes_simps goes_def flow_simps split: option.splits flow.splits)
  then show ?thesis by (simp add: item_goes_def)
qed

lemma break_chain_goes [goes_simps]: "list_all (\<lambda>f. \<forall>b. typed (f b)) fs \<Longrightarrow> item_goes (break_chain fs)"
proof -
  assume t: "list_all (\<lambda>f. \<forall>b. typed (f b)) fs"
  have "typed d \<Longrightarrow> p \<le> q \<Longrightarrow> q \<le> length data \<Longrightarrow> goes p (length data) (break_chain fs data d q)" for data d p q
    using t by (induction fs data d q rule: break_chain.induct) (auto simp: goes_simps flow_simps byte_simps)
  then show ?thesis by (simp add: item_goes_def)
qed

lemma typed_setdefault [flow_simps]: "typed d \<Longrightarrow> field_ok k v \<Longrightarrow> typed (setdefault k v d)"
  by (simp add: setdefault_def flow_simps split: option.split)

lemma pair_item_goes [goes_simps]:
  "{j, k} \<inter> set [''track_num'', ''squawk'', ''icao24'', ''warning_error_names''] = {} \<Longrightarrow> item_goes (pair_item j k)"
proof -
  assume "{j, k} \<inter> set [''track_num'', ''squawk'', ''icao24'', ''warning_error_names''] = {}"
  then have "field_ok i (VInt (uint x))" if "i \<in> {j, k}" for i and x :: byte
    using that byte_range [of x] by (auto simp: field_ok_def)
  then show ?thesis unfolding pair_item_def by (intro fields_item_goes) (simp add: byte_simps flow_simps)
qed

lemma sac_sic_item_goes [goes_simps]: "item_goes sac_sic_item"
  unfolding sac_sic_item_def by (rule pair_item_goes) simp

lemma tod_item_goes [goes_simps]: "item_goes tod_item"
  unfolding tod_item_def by (rule u24_item_goes) (simp add: flow_simps)

lemma fx_item_goes [goes_simps]: "(\<And>codes. typed (f codes)) \<Longrightarrow> item_goes (fx_item f)"
proof -
  assume t: "\<And>codes. typed (f codes)"
  have "goes p (length data) (fx_item f data d p)" if "typed d" "p \<le> length data" for data d p
    using cat20_loop030_moves [OF that(2), of "[]"] that(1) t by (auto simp: fx_item_def goes_simps flow_simps)
  then show ?thesis by (simp add: item_goes_def)
qed

lemma rep_entries_goes:
  assumes "\<And>data p. p + k \<le> length data \<Longrightarrow> f data p \<noteq> None"
  shows "p \<le> length data \<Longrightarrow> \<exists>es q. rep_entries k n f data p = Some (es, q) \<and> p \<le> q \<and> q \<le> length data"
proof (induction n arbitrary: p)
  case (Suc n)
  show ?case
  proof (cases "p + k \<le> length data")
    case True
    with assms [of p data] Suc.IH [of "p + k"] show ?thesis by (fastforce intro: le_trans)
  qed (use Suc.prems in simp)
qed simp

lemma rep_item_goes [goes_simps]:
  assumes "\<And>data p. p + k \<le> length data \<Longrightarrow> f data p \<noteq> None" and "\<And>es. typed (g es)"
  shows "item_goes (rep_item k f g)"
proof -
  have "goes p (length data) (rep_item k f g data d p)" if "typed d" "p \<le> length data" for data d p
  proof (cases "p + 1 \<le> length data")
    case True
    define n where "n = nat (uint (data ! p))"
    from rep_entries_goes [of k f "p + 1" data n, OF assms(1) True] obtain es q where
      "rep_entries k n f data (p + 1) = Some (es, q)" "p + 1 \<le> q" "q \<le> length data" by blast
    with True that assms(2) show ?thesis by (simp add: rep_item_def goes_simps flow_simps byte_simps n_def)
  qed (use that in \<open>simp add: rep_item_def goes_simps\<close>)
  then show ?thesis by (simp add: item_goes_def)
qed

lemma list_item_goes [goes_simps]:
  "(\<And>data p. p + k \<le> length data \<Longrightarrow> f data p \<noteq> None) \<Longrightarrow>
    key \<notin> set typed_keys \<Longrightarrow> item_goes (list_item key k f)"
  unfolding list_item_def by (rule rep_item_goes) (simp_all add: flow_simps)

lemma raw_list_item_goes [goes_simps]:
  "key \<notin> set typed_keys \<Longrightarrow> item_goes (raw_list_item key)"
  unfolding raw_list_item_def by (rule fx_item_goes) (simp add: flow_simps)

lemma text_item_goes [goes_simps]:
  "key \<notin> set typed_keys \<Longrightarrow> item_goes (text_item key k)"
  unfolding text_item_def by (rule fields_item_goes) (simp add: flow_simps)

lemma skip_item_goes [goes_simps]: "item_goes skip_item" "item_goes spare_item" "item_goes break_item"
proof -
  have "goes p (length data) (skip_item data d p)" if "typed d" "p \<le> length data" for data d p
    using skip_len_field_moves [OF that(2)] that(1) by (auto simp: skip_item_def goes_simps)
  then show "item_goes skip_item" by (simp add: item_goes_def)
qed (simp_all add: item_goes_def spare_item_def break_item_def goes_simps)

lemma lenient_list_item_goes [goes_simps]:
  "(\<And>data p. p + k \<le> length data \<Longrightarrow> f data p \<noteq> None) \<Longrightarrow>
    key \<notin> set typed_keys \<Longrightarrow> item_goes (lenient_list_item key k f)"
  using item_goesD [OF list_item_goes [of k f key]]
  by (auto simp: item_goes_def lenient_list_item_def goes_simps)

lemma block_item_goes [goes_simps]: "(\<And>n b. typed (f n b)) \<Longrightarrow> item_goes (block_item k f)"
proof -
  assume t: "\<And>n b. typed (f n b)"
  have "goes p (length data) (block_item k f data d p)" if "typed d" "p \<le> length data" for data d p
    using that t by (auto simp: block_item_def goes_simps byte_simps flow_simps)
  then show ?thesis by (simp add: item_goes_def)
qed

lemma fx_loop_goes: "(\<And>b. typed (f b)) \<Longrightarrow> typed d \<Longrightarrow> p \<le> q \<Longrightarrow> q \<le> length data \<Longrightarrow> goes p (length data) (fx_loop f b data d q)"
proof (induction f b data d q rule: fx_loop.induct)
  case (1 f b data d q)
  show ?case
  proof (cases "bits b 1 \<and> q < length data")
    case True
    then have rd: "byte_at data q = Some (uint (data ! q))" by (simp add: byte_simps)
    from "1.IH" [OF _ _ rd "1.prems"(1)] "1.prems" True rd show ?thesis
      by (simp add: fx_loop.simps [of f b data d q] flow_simps)
  qed (use "1.prems" in \<open>auto simp: fx_loop.simps [of f b data d q] goes_simps\<close>)
qed

lemma q_loop_goes: "p \<le> length data \<Longrightarrow> \<exists>qs q. q_loop data acc p = Some (qs, q) \<and> p \<le> q \<and> q \<le> length data"
proof (induction data acc p rule: q_loop.induct)
  case (1 data acc p)
  show ?case
  proof (cases "p + 2 \<le> length data")
    case True
    then obtain w where w: "u16 data p = Some w" by (simp add: byte_simps)
    with "1.IH" [OF True w] True show ?thesis
      by (cases "bits w 1") (auto simp: q_loop.simps [of data acc p])
  qed (use 1 in \<open>simp add: q_loop.simps [of data acc p]\<close>)
qed

lemma run_steps_goes:
  assumes "\<And>i d p. typed d \<Longrightarrow> p \<le> n \<Longrightarrow> goes p n (f i d p)"
  shows "typed d \<Longrightarrow> p \<le> n \<Longrightarrow> goes p n (run_items f frn fspec d p)"
proof (induction fspec arbitrary: frn d p)
  case (Cons present ps)
  show ?case
  proof (cases present)
    case True
    from assms [OF Cons.prems, of frn] obtain fl where fl: "f frn d p = Some fl" "typed (fst (flow_state fl))"
      "p \<le> snd (flow_state fl)" "snd (flow_state fl) \<le> n" by (auto simp: goes_def split: option.splits)
    show ?thesis
    proof (cases fl)
      case (Next s)
      obtain d' q where s: "s = (d', q)" by force
      with fl Next Cons.IH [of d' q "Suc frn"] True show ?thesis by (auto simp: goes_def split: option.splits)
    qed (use fl True in \<open>auto simp: goes_def\<close>)
  next
    case False
    with Cons show ?thesis by simp
  qed
qed (simp add: goes_simps)

lemma run_items_goes:
  "list_all item_goes items \<Longrightarrow> typed d \<Longrightarrow> p \<le> length data \<Longrightarrow>
     goes p (length data) (run_items (dispatch items data) frn fspec d p)"
  by (rule run_steps_goes) (auto simp: dispatch_def list_all_length item_goes_def goes_simps)

lemma decode_message_typed:
  assumes "list_all item_goes items"
  shows "\<exists>m. decode_message items data = Some m \<and> (\<forall>msg. m = Some msg \<longrightarrow> typed msg \<and> msg \<noteq> [])"
proof (cases "length data < 1")
  case False
  obtain fs p where f: "parse_fspec data 0 = Some (fs, p)" "p \<le> length data" by (rule parse_fspec_moves [of 0 data]) auto
  have "goes p (length data) (run_items (dispatch items data) 0 fs [] p)"
    by (rule run_items_goes [OF assms typed_Nil f(2)])
  then obtain fl where "run_items (dispatch items data) 0 fs [] p = Some fl" "typed (fst (flow_state fl))"
    by (auto simp: goes_def split: option.splits)
  with f(1) False show ?thesis by (simp add: decode_message_def Let_def)
qed (simp add: decode_message_def)

text \<open>A source as it stands in a topic: two octets.\<close>

definition sensor_name :: "int \<Rightarrow> int \<Rightarrow> string" where
  "sensor_name sac sic = fmt_0d 3 sac @ ''-'' @ fmt_0d 3 sic"

lemma typed_source: "typed msg \<Longrightarrow> \<exists>a b. asterix_source msg = Some (sensor_name a b) \<and> 0 \<le> a \<and> a \<le> 255 \<and> 0 \<le> b \<and> b \<le> 255"
proof -
  assume t: "typed msg"
  have "\<exists>a. val_0d 3 (get_or_zero msg k) = Some (fmt_0d 3 a) \<and> 0 \<le> a \<and> a \<le> 255" if "k \<in> {''sac'', ''sic''}" for k
  proof (cases "dget msg k")
    case None
    then have "get_or_zero msg k = VInt 0" by (simp add: get_or_zero_def truthy_def)
    then show ?thesis by (intro exI [of _ 0]) (simp add: val_0d_def)
  next
    case (Some v)
    from typed_get [OF t Some] that have "\<exists>i. v = VInt i \<and> 0 \<le> i \<and> i \<le> 255" by (auto simp: field_ok_def)
    then obtain i where i: "v = VInt i" "0 \<le> i" "i \<le> 255" by blast
    with Some have "get_or_zero msg k = VInt i" by (simp add: get_or_zero_def truthy_def)
    with i show ?thesis by (intro exI [of _ i]) (simp add: val_0d_def)
  qed
  then obtain a b where "val_0d 3 (get_or_zero msg ''sac'') = Some (fmt_0d 3 a)" "0 \<le> a" "a \<le> 255"
    "val_0d 3 (get_or_zero msg ''sic'') = Some (fmt_0d 3 b)" "0 \<le> b" "b \<le> 255" by (metis insertCI)
  then show ?thesis by (auto simp: asterix_source_def sensor_name_def)
qed

text \<open>What a handler of messages promises of any octets: at most one publication, under the key of a sensor.\<close>

definition serves :: "(string \<Rightarrow> string) \<Rightarrow> event list option \<Rightarrow> bool" where
  "serves topic r \<longleftrightarrow> (case r of None \<Rightarrow> False
     | Some es \<Rightarrow> es = [] \<or> (\<exists>a b msg message. es = [PubDual (topic (sensor_name a b)) msg message] \<and>
         0 \<le> a \<and> a \<le> 255 \<and> 0 \<le> b \<and> b \<le> 255 \<and> has_key ''_ts'' msg))"

lemma servesI:
  "0 \<le> a \<Longrightarrow> a \<le> 255 \<Longrightarrow> 0 \<le> b \<Longrightarrow> b \<le> 255 \<Longrightarrow> has_key ''_ts'' msg \<Longrightarrow>
    serves topic (Some [PubDual (topic (sensor_name a b)) msg message])"
  unfolding serves_def by simp blast

lemma publish_message_serves: "typed msg \<Longrightarrow> serves topic (publish_message src message topic now msg)"
proof -
  assume "typed msg"
  then have t: "typed (puts msg [(''_ts'', VFloat now), (''_src'', VStr src)])" by (simp add: flow_simps)
  have "has_key ''_ts'' (puts msg [(''_ts'', VFloat now), (''_src'', VStr src)])"
    by (simp add: has_key_def puts_def update_conv')
  with typed_source [OF t] show ?thesis
    unfolding publish_message_def serves_def Let_def by (elim exE conjE) (simp, blast)
qed

locale message_category =
  fixes items :: "item list"
  assumes items_go: "list_all item_goes items"
begin

lemma handler_serves: "serves topic (message_handler items src message topic now data)"
proof -
  from decode_message_typed [OF items_go, of data] obtain m where
    "decode_message items data = Some m" "\<And>msg. m = Some msg \<Longrightarrow> typed msg" by blast
  then show ?thesis by (cases m) (simp_all add: message_handler_def publish_message_serves, simp add: serves_def)
qed

end

end
