(* ===== verification/Asterix_Sensors.thy ===== *)
theory Asterix_Sensors
  imports Asterix_Messages
begin

text \<open>
  The messages of sensors about themselves: CAT-016 (configuration of a multistatic radar), CAT-019 (multilateration
  status), CAT-023 (ground stations), CAT-025 (system status), CAT-063 (sensor status), CAT-065 (data processing
  status), CAT-240 (radar video) and CAT-247 (versions).
\<close>

subsection \<open>CAT-016\<close>

definition cat16_msg_types :: "(int \<times> string) list" where
  "cat16_msg_types = [(1, ''system_configuration''), (2, ''transmitter_receiver_configuration'')]"

definition cat16_i300 :: item where
  "cat16_i300 = list_item ''pairs'' 6 (\<lambda>data pos. do {
     p \<leftarrow> u16 data pos;
     t \<leftarrow> u16 data (pos + 2);
     r \<leftarrow> u16 data (pos + 4);
     Some (VDict [(''pair_id'', VInt p), (''transmitter_id'', VInt t), (''receiver_id'', VInt r)])
   })"

definition degrees31 :: "int \<Rightarrow> pyval" where
  "degrees31 x = rnd 7 (of_int x * (180 / 2 ^ 31))"

definition quarter_metres :: "int \<Rightarrow> pyval" where
  "quarter_metres x = rnd 2 (of_int x * 0.25)"

definition cat16_i400 :: item where
  "cat16_i400 = fields_item 8 (\<lambda>data pos. do {
     lat \<leftarrow> s32 data pos;
     lon \<leftarrow> s32 data (pos + 4);
     Some [(''lat_deg'', degrees31 lat), (''lon_deg'', degrees31 lon)]
   })"

definition cat16_i410 :: item where
  "cat16_i410 = list_item ''transmitters'' 21 (\<lambda>data pos. do {
     let v = from_bytes_big (py_slice data (pos + 16) (pos + 21));
     t \<leftarrow> u16 data pos;
     lat \<leftarrow> s32 data (pos + 2);
     lon \<leftarrow> s32 data (pos + 6);
     alt \<leftarrow> s16 data (pos + 10);
     off \<leftarrow> s32 data (pos + 12);
     Some (VDict [(''transmitter_id'', VInt t), (''lat_deg'', degrees31 lat), (''lon_deg'', degrees31 lon),
       (''altitude_m'', quarter_metres alt), (''tx_time_offset_ns'', VInt (off * 2)),
       (''tx_time_offset_accuracy_ns'', VInt (bitfield v 16 0xFFFFF)), (''parallel_transmitter_index'', VInt (v AND 0xFFFF))])
   })"

definition cat16_i420 :: item where
  "cat16_i420 = list_item ''receivers'' 12 (\<lambda>data pos. do {
     r \<leftarrow> u16 data pos;
     lat \<leftarrow> s32 data (pos + 2);
     lon \<leftarrow> s32 data (pos + 6);
     alt \<leftarrow> s16 data (pos + 10);
     Some (VDict [(''receiver_id'', VInt r), (''lat_deg'', degrees31 lat), (''lon_deg'', degrees31 lon),
       (''altitude_m'', quarter_metres alt)])
   })"

definition cat16_items :: "item list" where
  "cat16_items = [
     sac_sic_item,
     octet_item (\<lambda>b. [(''service_id'', VInt b)]),
     octet_item (\<lambda>b. [(''msg_type'', coded cat16_msg_types ''type_'' b)]),
     tod_item,
     octet_item (\<lambda>b. [(''reporting_period_s'', VInt b)]),
     cat16_i300, cat16_i400,
     int16_item (\<lambda>h. [(''height_m'', quarter_metres h)]),
     cat16_i410, cat16_i420, skip_item]"

definition cat16_handler :: "string \<Rightarrow> real \<Rightarrow> bytes \<Rightarrow> event list option" where
  "cat16_handler pre = message_handler cat16_items ''ASTERIX CAT-16 Ed.1.0'' ''AsterixCat16Status'' (sensor_topic pre ''/radar/neutral/sensor'')"

subsection \<open>CAT-019\<close>

definition cat19_msg_types :: "(int \<times> string) list" where
  "cat19_msg_types = [(1, ''start_of_update_cycle''), (2, ''periodic_status''), (3, ''event_triggered_status'')]"

definition cat19_nogo :: "(int \<times> string) list" where
  "cat19_nogo = [(0, ''operational''), (1, ''degraded''), (2, ''nogo''), (3, ''undefined'')]"

definition cat19_reftr_states :: "(int \<times> string) list" where
  "cat19_reftr_states = [(0, ''not_present''), (1, ''warning''), (2, ''faulted''), (3, ''good'')]"

definition cat19_i550 :: item where
  "cat19_i550 = octet_item (\<lambda>b. [(''nogo'', label cat19_nogo ''undefined'' (bitfield b 6 0x03)), (''overload'', flag b 0x20),
     (''time_source_invalid'', flag b 0x10), (''test_target_failure'', flag b 0x08)])"

definition cat19_i551 :: item where
  "cat19_i551 = octet_item (\<lambda>b. [(''tracking_processors'', VDict (map (\<lambda>(index, k). let shift = 6 - index * 2 in
     (k, VDict [(''exec'', flag b (2 ^ (shift + 1))), (''good'', flag b (2 ^ shift))]))
     (zip [0..<4] [''tp1'', ''tp2'', ''tp3'', ''tp4''])))])"

definition cat19_i552 :: item where
  "cat19_i552 = list_item ''remote_sensors'' 2 (\<lambda>data pos. do {
     rsi \<leftarrow> byte_at data pos;
     b \<leftarrow> byte_at data (pos + 1);
     Some (VDict [(''rsi'', VInt rsi), (''rx_1090'', flag b 0x40), (''tx_1030'', flag b 0x20), (''tx_1090'', flag b 0x10),
       (''good'', flag b 0x08), (''online'', flag b 0x04)])
   })"

fun cat19_reftr_loop :: "string list \<Rightarrow> bytes \<Rightarrow> dict \<Rightarrow> nat \<Rightarrow> (dict \<times> nat) option" where
  "cat19_reftr_loop (j # k # names) data statuses pos =
     (if pos \<ge> length data then Some (statuses, pos)
      else do {
        b \<leftarrow> byte_at data pos;
        let statuses = puts statuses [(j, label cat19_reftr_states ''undefined'' (bitfield b 6 0x03)),
          (k, label cat19_reftr_states ''undefined'' (bitfield b 3 0x03))];
        (if \<not> bits b 0x01 \<or> names = [] then Some (statuses, pos + 1) else cat19_reftr_loop names data statuses (pos + 1))
      })"
| "cat19_reftr_loop names data statuses pos = Some (statuses, pos)"

definition cat19_i553 :: item where
  "cat19_i553 data d pos = do {
     (statuses, pos) \<leftarrow> cat19_reftr_loop [''reftr1'', ''reftr2'', ''reftr3'', ''reftr4''] data [] pos;
     Some (Next (puts d [(''reference_transponders'', VDict statuses)], pos))
   }"

definition cat19_i600 :: item where
  "cat19_i600 = fields_item 8 (\<lambda>data pos. do {
     lat \<leftarrow> s32 data pos;
     lon \<leftarrow> s32 data (pos + 4);
     Some [(''site_lat'', rnd 7 (of_int lat * (180 / 2 ^ 30))), (''site_lon'', rnd 7 (of_int lon * (180 / 2 ^ 30)))]
   })"

definition cat19_items :: "item list" where
  "cat19_items = [
     sac_sic_item,
     octet_item (\<lambda>b. [(''msg_type'', coded cat19_msg_types ''type_'' b)]),
     tod_item, cat19_i550, cat19_i551, cat19_i552, cat19_i553, cat19_i600,
     int16_item (\<lambda>h. [(''site_alt_m'', quarter_metres h)]),
     octet_item (\<lambda>b. [(''undulation_m'', VInt (unpack_b b))]),
     break_item, break_item, skip_item, skip_item]"

definition cat19_handler :: "string \<Rightarrow> real \<Rightarrow> bytes \<Rightarrow> event list option" where
  "cat19_handler pre = message_handler cat19_items ''ASTERIX CAT-19 Ed.1.3'' ''AsterixCat19Status'' (sensor_topic pre ''/mlat/neutral/sensor'')"

subsection \<open>CAT-023\<close>

definition cat23_report_types :: "(int \<times> string) list" where
  "cat23_report_types = [(1, ''ground_station_status''), (2, ''service_status''), (3, ''service_statistics'')]"

definition cat23_service_types :: "(int \<times> string) list" where
  "cat23_service_types = [(1, ''adsb_vdl4''), (2, ''adsb_ext_squitter''), (3, ''adsb_uat''), (4, ''tisb_vdl4''),
     (5, ''tisb_ext_squitter''), (6, ''tisb_uat''), (7, ''fisb_vdl4''), (8, ''gras_vdl4''), (9, ''mlt'')]"

definition cat23_service_states :: "(int \<times> string) list" where
  "cat23_service_states = [(0, ''unknown''), (1, ''failed''), (2, ''disabled''), (3, ''degraded''), (4, ''normal''), (5, ''initialisation'')]"

definition cat23_stat_types :: "(int \<times> string) list" where
  "cat23_stat_types = [(0, ''unidentified_messages''), (1, ''messages_too_old''), (2, ''messages_format_error''),
     (3, ''total_messages_in''), (4, ''total_messages_out''), (20, ''tisb_admin_in''), (21, ''basic_in''), (22, ''high_dynamic_in''),
     (23, ''full_position_in''), (24, ''basic_ground_in''), (25, ''tcp_in''), (26, ''utc_time_in''), (27, ''data_in''),
     (28, ''high_resolution_in''), (29, ''aircraft_target_airborne_in''), (30, ''aircraft_target_ground_in''),
     (31, ''ground_vehicle_target_in''), (32, ''tcp_2slot_in'')]"

definition cat23_i015 :: item where
  "cat23_i015 = octet_item (\<lambda>b. [(''service_id'', VInt (bitfield b 4 0x0F)),
     (''service_type'', coded cat23_service_types ''type_'' (b AND 0x0F))])"

definition cat23_i100 :: item where
  "cat23_i100 = break_chain [
     \<lambda>b. [(''nogo'', flag b 0x80), (''overload_processor'', flag b 0x40), (''overload_comms'', flag b 0x20),
       (''monitoring_connected'', flag b 0x10), (''time_source_invalid'', flag b 0x08), (''spoofing_suspected'', flag b 0x04),
       (''track_id_renumbered'', flag b 0x02)],
     \<lambda>b. [(''status_report_period_s'', VInt (bitfield b 1 0x7F))]]"

definition cat23_i101 :: item where
  "cat23_i101 data d pos = or_break 2 data d pos (do {
     a \<leftarrow> byte_at data pos;
     b2 \<leftarrow> byte_at data (pos + 1);
     let d = puts d [(''cat021_report_period_s'', VFloat (of_int a * 0.5)), (''service_class'', VInt (bitfield b2 5 0x07))];
     (if bits b2 0x01 then octet_item (\<lambda>b3. [(''service_status_report_period_s'', VInt (bitfield b3 1 0x7F))]) data d (pos + 2)
      else Some (Next (d, pos + 2)))
   })"

definition cat23_i120 :: item where
  "cat23_i120 = rep_item 5 (\<lambda>data pos. do {
     type_code \<leftarrow> byte_at data pos;
     cv \<leftarrow> u32 data (pos + 1);
     Some (table_get cat23_stat_types type_code (''type_'' @ fmt_int type_code), VInt cv)
   }) (\<lambda>stats. onlyif (stats \<noteq> []) [(''service_statistics'', VDict (puts [] stats))])"

definition cat23_items :: "item list" where
  "cat23_items = [
     sac_sic_item,
     octet_item (\<lambda>b. [(''report_type'', coded cat23_report_types ''type_'' b)]),
     cat23_i015, tod_item, cat23_i100, cat23_i101,
     octet_item (\<lambda>b. [(''operational_range_nm'', VInt b)]),
     octet_item (\<lambda>b. [(''service_status'', label cat23_service_states ''undefined'' (bitfield b 1 0x07))]),
     cat23_i120, break_item, break_item, break_item, skip_item, skip_item, skip_item]"

definition cat23_handler :: "string \<Rightarrow> real \<Rightarrow> bytes \<Rightarrow> event list option" where
  "cat23_handler pre = message_handler cat23_items ''ASTERIX CAT-23 Ed.1.3'' ''AsterixCat23Status'' (sensor_topic pre ''/cns_atm/neutral/sensor'')"

subsection \<open>CAT-025\<close>

definition cat25_states :: "(int \<times> string) list" where
  "cat25_states = [(0, ''running''), (1, ''failed''), (2, ''degraded''), (3, ''undefined'')]"

definition cat25_component_states :: "(int \<times> string) list" where
  "cat25_component_states = [(0, ''running''), (1, ''failed''), (2, ''maintenance''), (3, ''reserved'')]"

definition cat25_ops :: "(int \<times> string) list" where
  "cat25_ops = [(0, ''operational''), (1, ''operational_standby''), (2, ''maintenance''), (3, ''reserved'')]"

definition cat25_error_codes :: "(int \<times> string) list" where
  "cat25_error_codes = [(0, ''no_error''), (1, ''undefined''), (2, ''time_source_invalid''), (3, ''time_source_coasting''),
     (4, ''track_id_renumbered''), (5, ''data_processor_overload''), (6, ''ground_interface_comms_overload''),
     (7, ''stopped_by_operator''), (8, ''cbit_failed''), (9, ''test_target_failure'')]"

definition cat25_component_error_codes :: "(int \<times> string) list" where
  "cat25_component_error_codes = [(0, ''no_error''), (1, ''undefined''), (2, ''alert''), (3, ''alarm'')]"

definition cat25_stat_types :: "(int \<times> string) list" where
  "cat25_stat_types = [(0, ''unknown_messages''), (1, ''too_old_messages''), (2, ''failed_conversions''),
     (3, ''total_received''), (4, ''total_transmitted'')]"

definition cat25_i020 :: item where
  "cat25_i020 = fields_item 6 (\<lambda>data pos. Some (unless_blank ''service_designator'' (decode_callsign (py_slice data pos (pos + 6)))))"

definition cat25_i100 :: item where
  "cat25_i100 data d pos = or_break 1 data d pos (do {
     b \<leftarrow> byte_at data pos;
     fx_loop (\<lambda>b. [(''system_status'', label cat25_states ''reserved'' (bitfield b 4 0x07)),
         (''service_status'', label cat25_states ''reserved'' (bitfield b 1 0x07))]) b data
       (puts d (onlyif (bits b 0x80) [(''nogo'', VBool True)] @ [(''ops_mode'', label cat25_ops ''reserved'' (bitfield b 5 0x03)),
         (''overall_status'', label cat25_states ''reserved'' (bitfield b 1 0x0F))])) (pos + 1)
   })"

definition cat25_i120 :: item where
  "cat25_i120 = list_item ''components'' 3 (\<lambda>data pos. do {
     cid \<leftarrow> u16 data pos;
     b3 \<leftarrow> byte_at data (pos + 2);
     Some (VDict [(''component_id'', VInt cid), (''error_code'', coded cat25_component_error_codes ''code_'' (bitfield b3 2 0x3F)),
       (''state'', label cat25_component_states ''reserved'' (b3 AND 0x03))])
   })"

definition cat25_i140 :: item where
  "cat25_i140 = list_item ''service_statistics'' 6 (\<lambda>data pos. do {
     type_code \<leftarrow> byte_at data pos;
     r \<leftarrow> byte_at data (pos + 1);
     count \<leftarrow> u32 data (pos + 2);
     Some (VDict [(''type'', coded cat25_stat_types ''type_'' type_code), (''reference_previous_report'', flag r 0x80),
       (''count'', VInt count)])
   })"

definition cat25_i600 :: item where
  "cat25_i600 = fields_item 8 (\<lambda>data pos. do {
     lat \<leftarrow> s32 data pos;
     lon \<leftarrow> s32 data (pos + 4);
     Some [(''lat_deg'', rnd 7 (of_int lat * (180 / 2 ^ 32))), (''lon_deg'', rnd 7 (of_int lon * (180 / 2 ^ 32)))]
   })"

definition cat25_items :: "item list" where
  "cat25_items = [
     sac_sic_item,
     octet_item (\<lambda>b. [(''report_type_raw'', VInt (bitfield b 1 0x7F)), (''event_driven'', flag b 0x01)]),
     u24_item (\<lambda>raw. [(''message_id'', VInt raw)]),
     octet_item (\<lambda>b. [(''service_id'', VInt b)]),
     cat25_i020, tod_item, cat25_i100,
     list_item ''error_codes'' 1 (\<lambda>data pos. do { b \<leftarrow> byte_at data pos; Some (coded cat25_error_codes ''code_'' b) }),
     cat25_i120, cat25_i140, skip_item, cat25_i600,
     int16_item (\<lambda>h. [(''height_m'', quarter_metres h)])]"

definition cat25_handler :: "string \<Rightarrow> real \<Rightarrow> bytes \<Rightarrow> event list option" where
  "cat25_handler pre = message_handler cat25_items ''ASTERIX CAT-25 Ed.1.6'' ''AsterixCat25Status'' (sensor_topic pre ''/radar/neutral/sensor'')"

subsection \<open>CAT-063\<close>

definition cat63_con :: "(int \<times> string) list" where
  "cat63_con = [(0, ''operational''), (1, ''degraded''), (2, ''initialization''), (3, ''not_connected'')]"

text \<open>The third octet of a chain, whose extensions are skipped.\<close>

definition cat63_third060 :: item where
  "cat63_third060 data d pos =
     (if pos + 1 > length data then Some (Next (d, pos))
      else do {
        b3 \<leftarrow> byte_at data pos;
        fx_loop (\<lambda>b. []) b3 data (puts d (onlyif (bits b3 0x80) [(''test_target_failure'', flag b3 0x40)] @
          onlyif (bits b3 0x20) [(''spoofing_suspected'', flag b3 0x10)])) (pos + 1)
      })"

definition cat63_i060 :: item where
  "cat63_i060 = open_chain [
     \<lambda>b. [(''connection_status'', label cat63_con ''undefined'' (bitfield b 6 0x03)), (''psr_nogo'', flag b 0x20),
       (''ssr_nogo'', flag b 0x10), (''mds_nogo'', flag b 0x08), (''ads_nogo'', flag b 0x04), (''mlt_nogo'', flag b 0x02)],
     \<lambda>b. [(''operational_release_inhibited'', flag b 0x80), (''overload_processor'', flag b 0x40),
       (''overload_transmission'', flag b 0x20), (''monitoring_disconnected'', flag b 0x10),
       (''time_source_invalid'', flag b 0x08), (''no_plot_warning'', flag b 0x04)]]
     cat63_third060"

definition gain_item :: "string \<Rightarrow> item" where
  "gain_item pre = fields_item 4 (\<lambda>data pos. do {
     g \<leftarrow> s16 data pos;
     b \<leftarrow> s16 data (pos + 2);
     Some [(pre @ ''_range_gain'', rnd 6 (of_int g / 100000)), (pre @ ''_range_bias_nm'', rnd 4 (of_int b / 128))]
   })"

definition bias_item :: "string \<Rightarrow> item" where
  "bias_item key = int16_item (\<lambda>w. [(key, rnd 4 (of_int w * (360 / 65536)))])"

definition cat63_items :: "item list" where
  "cat63_items = [
     sac_sic_item,
     octet_item (\<lambda>b. [(''service_id'', VInt b)]),
     tod_item, pair_item ''sensor_sac'' ''sensor_sic'', cat63_i060,
     int16_item (\<lambda>w. [(''time_stamping_bias_ms'', VInt w)]),
     gain_item ''ssr'', bias_item ''ssr_azimuth_bias_deg'', gain_item ''psr'', bias_item ''psr_azimuth_bias_deg'',
     bias_item ''psr_elevation_bias_deg'', skip_item, skip_item]"

definition cat63_handler :: "string \<Rightarrow> real \<Rightarrow> bytes \<Rightarrow> event list option" where
  "cat63_handler pre = message_handler cat63_items ''ASTERIX CAT-63 Ed.1.7'' ''AsterixCat63Status'' (sensor_topic pre ''/radar/neutral/sensor'')"

subsection \<open>CAT-065\<close>

definition cat65_msg_types :: "(int \<times> string) list" where
  "cat65_msg_types = [(1, ''sdps_status''), (2, ''end_of_batch''), (3, ''service_status_report'')]"

definition cat65_nogo :: "(int \<times> string) list" where
  "cat65_nogo = [(0, ''operational''), (1, ''degraded''), (2, ''not_connected''), (3, ''unknown'')]"

definition cat65_pss :: "(int \<times> string) list" where
  "cat65_pss = [(0, ''not_applicable''), (1, ''sdps1_selected''), (2, ''sdps2_selected''), (3, ''sdps3_selected'')]"

definition cat65_service_states :: "(int \<times> string) list" where
  "cat65_service_states = [(1, ''degradation''), (2, ''degradation_ended''), (3, ''main_radar_out_of_service''),
     (4, ''interrupted_by_operator''), (5, ''interrupted_due_to_contingency''), (6, ''ready_for_restart_after_contingency''),
     (7, ''ended_by_operator''), (8, ''failure_of_user_main_radar''), (9, ''restarted_by_operator''),
     (10, ''main_radar_becoming_operational''), (11, ''main_radar_becoming_degraded''),
     (12, ''continuity_interrupted_disconnection''), (13, ''continuity_restarted''), (14, ''synchronised_on_backup_radar''),
     (15, ''synchronised_on_main_radar''), (16, ''main_and_backup_radar_failed'')]"

definition cat65_i040 :: item where
  "cat65_i040 = octet_item (\<lambda>b. [(''sdps_status'', label cat65_nogo ''unknown'' (bitfield b 6 0x03))] @
     onlyif (bits b 0x20) [(''overload'', VBool True)] @ onlyif (bits b 0x10) [(''time_source_invalid'', VBool True)] @
     [(''processing_system'', label cat65_pss ''unknown'' (bitfield b 2 0x03)), (''track_renumbering_toggle'', flag b 0x02)])"

definition cat65_items :: "item list" where
  "cat65_items = [
     sac_sic_item,
     octet_item (\<lambda>b. [(''msg_type'', coded cat65_msg_types ''type_'' b)]),
     octet_item (\<lambda>b. [(''service_id'', VInt b)]),
     tod_item,
     octet_item (\<lambda>b. [(''batch_number'', VInt b)]),
     cat65_i040,
     octet_item (\<lambda>b. [(''service_status_report'', coded cat65_service_states ''code_'' b)]),
     spare_item, spare_item, spare_item, spare_item, spare_item, skip_item, skip_item]"

definition cat65_handler :: "string \<Rightarrow> real \<Rightarrow> bytes \<Rightarrow> event list option" where
  "cat65_handler pre = message_handler cat65_items ''ASTERIX CAT-65 Ed.1.6'' ''AsterixCat65Status'' (sensor_topic pre ''/radar/neutral/sensor'')"

subsection \<open>CAT-240\<close>

definition cat240_msg_types :: "(int \<times> string) list" where
  "cat240_msg_types = [(1, ''video_summary''), (2, ''video_message'')]"

definition cat240_resolution :: "(int \<times> string) list" where
  "cat240_resolution = [(1, ''monobit_1bit''), (2, ''low_2bit''), (3, ''medium_4bit''), (4, ''high_8bit''),
     (5, ''very_high_16bit''), (6, ''ultra_high_32bit'')]"

definition cat240_i020 :: item where
  "cat240_i020 = fields_item 4 (\<lambda>data pos. do { n \<leftarrow> u32 data pos; Some [(''sequence_number'', VInt n)] })"

definition cat240_i030 :: item where
  "cat240_i030 = block_item 1 (\<lambda>rep b. unless_blank ''video_summary''
     (strip_by (\<lambda>c. c = CHR 0x00 \<or> c = CHR '' '') (ascii_replace b)))"

definition cat240_header_item :: "string \<Rightarrow> item" where
  "cat240_header_item key = fields_item 12 (\<lambda>data pos. do {
     s \<leftarrow> u16 data pos;
     e \<leftarrow> u16 data (pos + 2);
     r \<leftarrow> u32 data (pos + 4);
     c \<leftarrow> u32 data (pos + 8);
     Some [(''start_azimuth_deg'', rnd 3 (of_int s * 360 / 65536)), (''end_azimuth_deg'', rnd 3 (of_int e * 360 / 65536)),
       (''start_range_cells'', VInt r), (key, VInt c)]
   })"

definition cat240_i049 :: item where
  "cat240_i049 = fields_item 5 (\<lambda>data pos. do {
     octets \<leftarrow> u16 data pos;
     cells \<leftarrow> u24 data (pos + 2);
     Some [(''valid_octets'', VInt octets), (''valid_cells'', VInt cells)]
   })"

definition cat240_block_item :: "nat \<Rightarrow> item" where
  "cat240_block_item k = block_item k (\<lambda>rep b. [(''video_block_hex'', VStr (hex_bytes b)), (''video_block_cells'', VInt (int rep))])"

definition cat240_items :: "item list" where
  "cat240_items = [
     sac_sic_item,
     octet_item (\<lambda>b. [(''msg_type'', coded cat240_msg_types ''type_'' b)]),
     cat240_i020, cat240_i030, cat240_header_item ''cell_duration_ns'', cat240_header_item ''cell_duration_fs'',
     octets_item (\<lambda>b1 res. [(''compression_applied'', flag b1 0x80), (''bit_resolution'', coded cat240_resolution ''resolution_'' res)]),
     cat240_i049, cat240_block_item 4, cat240_block_item 64, cat240_block_item 256, tod_item, skip_item, skip_item]"

definition cat240_handler :: "string \<Rightarrow> real \<Rightarrow> bytes \<Rightarrow> event list option" where
  "cat240_handler pre = message_handler cat240_items ''ASTERIX CAT-240 Ed.1.3'' ''AsterixCat240Status'' (sensor_topic pre ''/radar/neutral/video'')"

subsection \<open>CAT-247\<close>

definition cat247_i550 :: item where
  "cat247_i550 = list_item ''category_versions'' 3 (\<lambda>data pos. do {
     c \<leftarrow> byte_at data pos;
     v \<leftarrow> byte_at data (pos + 1);
     s \<leftarrow> byte_at data (pos + 2);
     Some (VDict [(''category'', VInt c), (''main_version'', VInt v), (''sub_version'', VInt s)])
   })"

definition cat247_items :: "item list" where
  "cat247_items = [
     sac_sic_item,
     octet_item (\<lambda>b. [(''service_id'', VInt b)]),
     tod_item, cat247_i550, spare_item, skip_item, skip_item]"

definition cat247_handler :: "string \<Rightarrow> real \<Rightarrow> bytes \<Rightarrow> event list option" where
  "cat247_handler pre = message_handler cat247_items ''ASTERIX CAT-247 Ed.1.3'' ''AsterixCat247Status'' (sensor_topic pre ''/radar/neutral/sensor'')"

subsection \<open>What they promise\<close>

interpretation cat16: message_category cat16_items
  by unfold_locales (simp add: cat16_items_def cat16_i300_def cat16_i400_def cat16_i410_def cat16_i420_def goes_simps flow_simps
      byte_simps s32_def Let_def)

lemma cat19_reftr_goes: "p \<le> length data \<Longrightarrow> \<exists>st q. cat19_reftr_loop names data statuses p = Some (st, q) \<and> p \<le> q \<and> q \<le> length data"
  by (induction names data statuses p rule: cat19_reftr_loop.induct) (fastforce simp: byte_simps Let_def)+

lemma cat19_i553_goes [goes_simps]: "item_goes cat19_i553"
proof -
  have "goes p (length data) (cat19_i553 data d p)" if "typed d" "p \<le> length data" for data d p
    using cat19_reftr_goes [OF that(2), of "[''reftr1'', ''reftr2'', ''reftr3'', ''reftr4'']" "[]"] that(1)
    by (auto simp: cat19_i553_def goes_simps flow_simps simp del: cat19_reftr_loop.simps)
  then show ?thesis by (simp add: item_goes_def)
qed

interpretation cat19: message_category cat19_items
  by unfold_locales (simp add: cat19_items_def cat19_i550_def cat19_i551_def cat19_i552_def cat19_i600_def goes_simps flow_simps
      byte_simps s32_def)

lemma cat23_i101_goes [goes_simps]: "item_goes cat23_i101"
proof -
  have "goes p (length data) (cat23_i101 data d p)" if "typed d" "p \<le> length data" for data d p
    using that by (auto simp: cat23_i101_def goes_simps byte_simps flow_simps Let_def octet_item_def fields_item_def)
  then show ?thesis by (simp add: item_goes_def)
qed

interpretation cat23: message_category cat23_items
  by unfold_locales (simp add: cat23_items_def cat23_i015_def cat23_i100_def cat23_i120_def goes_simps flow_simps byte_simps u32_def)

lemma cat25_i100_goes [goes_simps]: "item_goes cat25_i100"
proof -
  have "goes p (length data) (cat25_i100 data d p)" if "typed d" "p \<le> length data" for data d p
    using that by (auto simp: cat25_i100_def goes_simps byte_simps flow_simps intro!: fx_loop_goes)
  then show ?thesis by (simp add: item_goes_def)
qed

interpretation cat25: message_category cat25_items
  by unfold_locales (simp add: cat25_items_def cat25_i020_def cat25_i120_def cat25_i140_def cat25_i600_def goes_simps flow_simps
      byte_simps s32_def u32_def)

lemma cat63_i060_goes [goes_simps]: "item_goes cat63_i060"
proof -
  have "goes p (length data) (cat63_third060 data d p)" if "typed d" "p \<le> length data" for data d p
    using that by (auto simp: cat63_third060_def goes_simps byte_simps flow_simps intro!: fx_loop_goes)
  then have "item_goes cat63_third060" by (simp add: item_goes_def)
  then show ?thesis unfolding cat63_i060_def by (intro open_chain_goes) (simp_all add: flow_simps)
qed

lemma gain_item_goes [goes_simps]: "pre \<in> {''ssr'', ''psr''} \<Longrightarrow> item_goes (gain_item pre)"
  unfolding gain_item_def by (rule fields_item_goes) (auto simp: byte_simps flow_simps)

lemma bias_item_goes [goes_simps]:
  "key \<in> {''ssr_azimuth_bias_deg'', ''psr_azimuth_bias_deg'', ''psr_elevation_bias_deg''} \<Longrightarrow> item_goes (bias_item key)"
  unfolding bias_item_def by (rule int16_item_goes) (auto simp: flow_simps)

interpretation cat63: message_category cat63_items
  by unfold_locales (simp add: cat63_items_def goes_simps flow_simps)

interpretation cat65: message_category cat65_items
  by unfold_locales (simp add: cat65_items_def cat65_i040_def goes_simps flow_simps)

lemma cat240_header_item_goes [goes_simps]:
  "key \<in> {''cell_duration_ns'', ''cell_duration_fs''} \<Longrightarrow> item_goes (cat240_header_item key)"
  unfolding cat240_header_item_def by (rule fields_item_goes) (auto simp: byte_simps flow_simps u32_def)

interpretation cat240: message_category cat240_items
  by unfold_locales (simp add: cat240_items_def cat240_i020_def cat240_i030_def cat240_i049_def cat240_block_item_def goes_simps
      flow_simps byte_simps u32_def u24_def)

interpretation cat247: message_category cat247_items
  by unfold_locales (simp add: cat247_items_def cat247_i550_def goes_simps flow_simps byte_simps)

end
