(* ===== verification/Asterix_Plans.thy ===== *)
theory Asterix_Plans
  imports Asterix_Messages Asterix_Cat062
begin

text \<open>CAT-032 and CAT-150, messages about flight plans.\<close>

subsection \<open>CAT-032\<close>

definition cat32_family :: "(int \<times> string) list" where
  "cat32_family = [(0, ''invalid''), (1, ''fpps''), (2, ''suc_fdps'')]"

definition cat32_nature_fpps :: "(int \<times> string) list" where
  "cat32_nature_fpps = [(0, ''invalid''), (1, ''initial_correlation''), (2, ''miniplan_update''), (3, ''end_of_correlation''),
     (4, ''miniplan_cancellation''), (5, ''retained_miniplan'')]"

definition cat32_nature_suc :: "(int \<times> string) list" where
  "cat32_nature_suc = [(0, ''invalid''), (1, ''initial_suc_correlation''), (2, ''end_of_suc_correlation''), (3, ''change_of_suc_correlation'')]"

definition cat32_gatoat :: "(int \<times> string) list" where
  "cat32_gatoat = [(0, ''unknown''), (1, ''gat''), (2, ''oat''), (3, ''not_applicable'')]"

definition cat32_fr :: "(int \<times> string) list" where
  "cat32_fr = [(0, ''ifr''), (1, ''vfr''), (2, ''not_applicable''), (3, ''cvfr'')]"

definition cat32_wtc :: "(int \<times> string) list" where
  "cat32_wtc = [(76, ''light''), (77, ''medium''), (72, ''heavy''), (74, ''super'')]"

definition cat32_ifi_type :: "(int \<times> string) list" where
  "cat32_ifi_type = [(0, ''plan_number''), (1, ''unit1_internal''), (2, ''unit2_internal''), (3, ''unit3_internal'')]"

definition cat32_rvsm :: "(int \<times> string) list" where
  "cat32_rvsm = [(0, ''unknown''), (1, ''approved''), (2, ''exempt''), (3, ''not_approved'')]"

definition cat32_tod_type :: "(int \<times> string) list" where
  "cat32_tod_type = [(0, ''scheduled_off_block''), (1, ''estimated_off_block''), (2, ''estimated_takeoff''), (3, ''actual_off_block''),
     (4, ''predicted_runway_hold''), (5, ''actual_runway_hold''), (6, ''actual_line_up''), (7, ''actual_takeoff''),
     (8, ''estimated_arrival''), (9, ''predicted_landing''), (10, ''actual_landing''), (11, ''actual_off_runway''),
     (12, ''predicted_gate''), (13, ''actual_on_block'')]"

definition cat32_day :: "(int \<times> string) list" where
  "cat32_day = [(0, ''today''), (1, ''yesterday''), (2, ''tomorrow''), (3, ''invalid'')]"

definition cat32_stand_states :: "(int \<times> string) list" where
  "cat32_stand_states = [(0, ''empty''), (1, ''occupied''), (2, ''unknown''), (3, ''invalid'')]"

definition cat32_stand_avail :: "(int \<times> string) list" where
  "cat32_stand_avail = [(0, ''available''), (1, ''not_available''), (2, ''unknown''), (3, ''invalid'')]"

text \<open>The supplementary flight data.\<close>

definition cat32_ifi500 :: subdecoder where
  "cat32_ifi500 = fixed 4 (\<lambda>data pos. do {
     v \<leftarrow> u32 data pos;
     Some [(''ifps_id_type'', label cat32_ifi_type ''unknown'' (bitfield v 30 0x03)), (''ifps_id_number'', VInt (v AND 0x07FFFFFF))]
   })"

definition cat32_rvp500 :: subdecoder where
  "cat32_rvp500 = fixed 1 (\<lambda>data pos. do {
     b \<leftarrow> byte_at data pos;
     Some ([(''rvsm'', label cat32_rvsm ''unknown'' (bitfield b 1 0x03))] @ onlyif (bits b 0x01) [(''high_priority_flight'', VBool True)])
   })"

definition cat32_text500 :: "string \<Rightarrow> nat \<Rightarrow> subdecoder" where
  "cat32_text500 key k = fixed k (\<lambda>data pos. Some (unless_blank key (stripped data pos k)))"

definition cat32_time :: "bytes \<Rightarrow> nat \<Rightarrow> pyval option" where
  "cat32_time data pos = do {
     v \<leftarrow> u32 data pos;
     Some (VDict [(''type'', label cat32_tod_type ''unknown'' (bitfield v 27 0x1F)), (''day'', label cat32_day ''unknown'' (bitfield v 25 0x03)),
       (''hour'', VInt (bitfield v 16 0x1F)), (''minute'', VInt (bitfield v 8 0x3F)),
       (''seconds_available'', VBool (bitfield v 7 0x01 = 0)), (''second'', VInt (v AND 0x3F))])
   }"

definition cat32_tod500 :: subdecoder where
  "cat32_tod500 data out pos =
     (if pos + 1 > length data then Some (Done (out, length data))
      else do {
        rep \<leftarrow> byte_at data pos;
        (es, pos) \<leftarrow> rep_entries 4 (nat rep) cat32_time data (pos + 1);
        Some (More (puts out (unless_Nil ''times_of_departure_arrival'' es), pos))
      })"

definition cat32_sts500 :: subdecoder where
  "cat32_sts500 = fixed 1 (\<lambda>data pos. do {
     b \<leftarrow> byte_at data pos;
     Some [(''stand_status'', label cat32_stand_states ''unknown'' (bitfield b 6 0x03)),
       (''stand_availability'', label cat32_stand_avail ''unknown'' (bitfield b 4 0x03))]
   })"

definition cat32_fields500 :: "subdecoder list" where
  "cat32_fields500 = [cat32_ifi500, cat32_rvp500, cat32_text500 ''runway'' 3, cat32_tod500, cat32_text500 ''aircraft_stand'' 6,
     cat32_sts500, cat32_text500 ''sid'' 7, cat32_text500 ''star'' 7]"

definition cat32_i500 :: item where
  "cat32_i500 data d pos = do {
     r \<leftarrow> sub_decode 2 cat32_fields500 data pos;
     (case r of
        Inl e \<Rightarrow> Some (Break (d, pos))
      | Inr (extra, pos) \<Rightarrow> Some (Next (puts d extra, pos)))
   }"

definition cat32_i035 :: item where
  "cat32_i035 = octet_item (\<lambda>b. let family = bitfield b 4 0x0F; nature = b AND 0x0F in
     [(''family'', coded cat32_family ''family_'' family),
      (if family = 1 then (''nature'', coded cat32_nature_fpps ''nature_'' nature)
       else if family = 2 then (''nature'', coded cat32_nature_suc ''nature_'' nature)
       else (''nature_raw'', VInt nature))])"

text \<open>Segments of three octets with an extension bit.\<close>

function cat32_segments :: "bytes \<Rightarrow> pyval list \<Rightarrow> nat \<Rightarrow> (pyval list \<times> nat) option" where
  "cat32_segments data segments pos =
     (if pos + 3 > length data then Some (segments, pos)
      else do {
        v \<leftarrow> u24 data pos;
        let segments = segments @ [VDict [(''system_unit_id'', VInt (bitfield v 16 0xFF)), (''system_track_num'', VInt (bitfield v 1 0x7FFF))]];
        (if \<not> bits v 0x01 then Some (segments, pos + 3) else cat32_segments data segments (pos + 3))
      })"
  by pat_completeness auto
termination
  by (relation "measure (\<lambda>(data, ss, pos). length data - pos)") auto

declare cat32_segments.simps [simp del]

definition cat32_i050 :: item where
  "cat32_i050 data d pos = do {
     (segments, pos) \<leftarrow> cat32_segments data [] pos;
     Some (Next (puts d (unless_Nil ''composed_track_numbers'' segments), pos))
   }"

definition cat32_i420 :: item where
  "cat32_i420 = octet_item (\<lambda>b. [(''gat_oat'', label cat32_gatoat ''unknown'' (bitfield b 6 0x03)),
     (''flight_rules'', label cat32_fr ''unknown'' (bitfield b 4 0x03)), (''special_priority_raw'', VInt (bitfield b 1 0x07))])"

definition cat32_items :: "item list" where
  "cat32_items = [
     pair_item ''server_sac'' ''server_sic'',
     word_item (\<lambda>w. [(''user_number'', VInt w)]),
     sac_sic_item, cat32_i035, tod_item,
     word_item (\<lambda>w. [(''track_num'', VInt w)]),
     cat32_i050,
     word_item (\<lambda>w. [(''squawk'', VStr (fmt_pad 8 4 (w AND 0x0FFF)))]),
     text_item ''callsign'' 7,
     word_item (\<lambda>w. [(''plan_number'', VInt w)]),
     cat32_i420, text_item ''departure_airport'' 4, text_item ''destination_airport'' 4,
     word_item (\<lambda>w. [(''cleared_flight_level'', rnd 2 (of_int w * 0.25))]),
     pair_item ''control_centre'' ''control_position'', text_item ''aircraft_type'' 4,
     octet_item (\<lambda>b. [(''wake_turbulence_cat'', coded cat32_wtc ''code_'' b)]),
     list_item ''allocated_ssr_codes'' 2 (\<lambda>data pos. do { v \<leftarrow> u16 data pos; Some (VStr (fmt_pad 8 4 (v AND 0x0FFF))) }),
     cat32_i500, spare_item, skip_item]"

text \<open>The key is that of the server, not of the data source.\<close>

definition cat32_handler :: "string \<Rightarrow> real \<Rightarrow> bytes \<Rightarrow> event list option" where
  "cat32_handler pre now data = do {
     msg \<leftarrow> decode_message cat32_items data;
     (case msg of
        None \<Rightarrow> Some []
      | Some msg \<Rightarrow> do {
          let msg = puts msg [(''_ts'', VFloat now), (''_src'', VStr ''ASTERIX CAT-32 Ed.1.2'')];
          source \<leftarrow> asterix_source [(''sac'', dict_get msg ''server_sac'' (VInt 0)), (''sic'', dict_get msg ''server_sic'' (VInt 0))];
          Some [PubDual (air_topic pre ''/fpps/civ/miniplan'' source) msg ''AsterixCat32Status'']
        })
   }"

subsection \<open>CAT-150\<close>

definition cat150_msg_types :: "(int \<times> string) list" where
  "cat150_msg_types = [(1, ''flight_plan_creation''), (2, ''flight_plan_modification''), (3, ''flight_plan_repetition''),
     (4, ''manual_deletion''), (5, ''automatic_deletion''), (6, ''beyond_extraction_area''), (251, ''short_term_conflict_alert''),
     (252, ''correlations''), (253, ''decorrelations''), (254, ''start_of_background_loop''), (255, ''end_of_background_loop'')]"

definition cat150_route_point_type :: "(int \<times> string) list" where
  "cat150_route_point_type = [(1, ''point''), (2, ''bearing_distance''), (3, ''latlon_short''), (4, ''latlon_long''),
     (5, ''xy_coordinate''), (6, ''georeference''), (14, ''airport'')]"

definition cat150_i100 :: item where
  "cat150_i100 = octet_item (\<lambda>b. onlyif (bits b 0x80) [(''general_air_traffic'', VBool True)] @
     onlyif (bits b 0x40) [(''operational_air_traffic'', VBool True)] @
     onlyif (bits b 0x04) [(''complete_flight_plan'', VBool True)] @ onlyif (bits b 0x02) [(''short_flight_plan'', VBool True)])"

definition cat150_i110 :: item where
  "cat150_i110 = octet_item (\<lambda>b. onlyif (bits b 0x40) [(''in_hold'', VBool True)] @ onlyif (bits b 0x20) [(''rvsm_equipped'', VBool True)] @
     onlyif (bits b 0x10) [(''rvsm_capable'', VBool True)] @ onlyif (bits b 0x08) [(''rvsm_exempted'', VBool True)])"

definition cat150_i120 :: item where
  "cat150_i120 = fields_item 7 (\<lambda>data pos. Some (unless_blank ''number_of_aircraft'' (stripped data pos 2) @
     unless_blank ''aircraft_type'' (stripped data (pos + 2) 4) @ unless_blank ''wake_turbulence_cat'' (stripped data (pos + 6) 1)))"

definition cat150_i140 :: item where
  "cat150_i140 = list_item ''route_point_descriptions'' 12 (\<lambda>data pos. do {
     t \<leftarrow> byte_at data pos;
     Some (VDict [(''type'', coded cat150_route_point_type ''type_'' t), (''description'', VStr (stripped data (pos + 1) 11))])
   })"

definition cat150_i150 :: item where
  "cat150_i150 = list_item ''route_point_coordinates'' 4 (\<lambda>data pos. do {
     x \<leftarrow> s16 data pos;
     y \<leftarrow> s16 data (pos + 2);
     Some (VDict [(''x_nm'', rnd 3 (of_int x / 64)), (''y_nm'', rnd 3 (of_int y / 64))])
   })"

definition cat150_i160 :: item where
  "cat150_i160 = list_item ''route_point_times'' 4 (\<lambda>data pos. Some (VStr (stripped data pos 2 @ '':'' @ stripped data (pos + 2) 2)))"

definition cat150_texts :: "string \<Rightarrow> nat \<Rightarrow> item" where
  "cat150_texts key k = list_item key k (\<lambda>data pos. Some (VStr (stripped data pos k)))"

definition cat150_words :: "string \<Rightarrow> string \<Rightarrow> string \<Rightarrow> item" where
  "cat150_words key i j = list_item key 4 (\<lambda>data pos. do {
     a \<leftarrow> u16 data pos;
     b \<leftarrow> u16 data (pos + 2);
     Some (VDict [(i, VInt a), (j, VInt b)])
   })"

definition cat150_items :: "item list" where
  "cat150_items = [
     pair_item ''dest_centre'' ''dest_workstation'', pair_item ''source_centre'' ''source_workstation'',
     octet_item (\<lambda>b. [(''msg_type'', coded cat150_msg_types ''type_'' b)]),
     word_item (\<lambda>w. [(''plan_ref_number'', VInt w)]),
     text_item ''callsign'' 7, text_item ''present_squawk'' 4, text_item ''next_squawk'' 4, text_item ''departure_airport'' 4,
     text_item ''destination_airport'' 4, cat150_i100, cat150_i110, cat150_i120, text_item ''cleared_flight_level'' 3,
     cat150_i140, cat150_i150, cat150_i160, cat150_texts ''route_point_flight_levels'' 3, cat150_texts ''route_point_speeds'' 4,
     text_item ''controller_id'' 2,
     block_item 1 (\<lambda>rep b. unless_blank ''field_18'' (strip_by (\<lambda>c. c = CHR 0x00 \<or> c = CHR '' '') (ascii_replace b))),
     word_item (\<lambda>w. [(''correlated_track_num'', VInt w)]), word_item (\<lambda>w. [(''max_plan_count'', VInt w)]),
     word_item (\<lambda>w. [(''number_of_plans'', VInt w)]), cat150_words ''newly_correlated_plans'' ''plan'' ''track'',
     list_item ''newly_decorrelated_plans'' 2 (\<lambda>data pos. do { v \<leftarrow> u16 data pos; Some (VInt v) }),
     cat150_words ''tracks_in_conflict'' ''track1'' ''track2'', cat150_texts ''route_point_requested_flight_levels'' 3]"

definition cat150_handler :: "string \<Rightarrow> real \<Rightarrow> bytes \<Rightarrow> event list option" where
  "cat150_handler pre now data = do {
     msg \<leftarrow> decode_message cat150_items data;
     (case msg of
        None \<Rightarrow> Some []
      | Some msg \<Rightarrow> do {
          let msg = puts msg [(''_ts'', VFloat now), (''_src'', VStr ''ASTERIX CAT-150 Ed.3.0'')];
          let msg = setdefault ''sac'' (dict_get msg ''source_centre'' (VInt 0)) msg;
          let msg = setdefault ''sic'' (dict_get msg ''source_workstation'' (VInt 0)) msg;
          source \<leftarrow> asterix_source msg;
          Some [PubDual (air_topic pre ''/madap/civ/flightplan'' source) msg ''AsterixCat150Status'']
        })
   }"

subsection \<open>What they promise\<close>

lemma cat32_tod500_moves [item_ok]: "subdecoder_moves cat32_tod500"
proof -
  have "sub_moves p (length data) (cat32_tod500 data d p)" if "typed d" "p \<le> length data" for data d p
  proof (cases "p + 1 \<le> length data")
    case True
    define n where "n = nat (uint (data ! p))"
    from rep_entries_goes [of 4 cat32_time "p + 1" data n, OF _ True] obtain es q where
      "rep_entries 4 n cat32_time data (p + 1) = Some (es, q)" "p + 1 \<le> q" "q \<le> length data"
      by (auto simp: cat32_time_def u32_def)
    with True that show ?thesis by (simp add: cat32_tod500_def flow_simps byte_simps n_def)
  qed (use that in \<open>simp add: cat32_tod500_def flow_simps\<close>)
  then show ?thesis by (simp add: subdecoder_moves_def)
qed

lemma cat32_fields500_move: "list_all subdecoder_moves cat32_fields500"
proof -
  have "subdecoder_moves cat32_ifi500" "subdecoder_moves cat32_rvp500" "subdecoder_moves cat32_sts500"
    "\<And>key k. key \<in> {''runway'', ''aircraft_stand'', ''sid'', ''star''} \<Longrightarrow> subdecoder_moves (cat32_text500 key k)"
    unfolding cat32_ifi500_def cat32_rvp500_def cat32_sts500_def cat32_text500_def
    by (auto intro!: fixed_moves simp: u32_def byte_simps flow_simps)
  then show ?thesis by (simp add: cat32_fields500_def cat32_tod500_moves)
qed

lemma cat32_i500_goes [goes_simps]: "item_goes cat32_i500"
proof -
  have "goes p (length data) (cat32_i500 data d p)" if "typed d" "p \<le> length data" for data d p
  proof (cases "presence 2 data p []")
    case (Inr a)
    obtain flags q where a: "a = (flags, q)" by force
    from presence_moves [OF Inr [unfolded a]] have q: "p < q" "q \<le> length data" by auto
    from sub_fields_moves [OF cat32_fields500_move typed_Nil q(2), of flags 0] obtain r where
      "sub_fields flags 0 cat32_fields500 data [] q = Some r" "\<forall>e u. r = Inr (e, u) \<longrightarrow> typed e \<and> q \<le> u \<and> u \<le> length data" by blast
    with that Inr a q show ?thesis
      by (cases r) (auto simp: cat32_i500_def sub_decode_def goes_simps flow_simps)
  qed (use that in \<open>simp add: cat32_i500_def sub_decode_def goes_simps\<close>)
  then show ?thesis by (simp add: item_goes_def)
qed

lemma cat32_segments_goes: "p \<le> length data \<Longrightarrow> \<exists>ss q. cat32_segments data acc p = Some (ss, q) \<and> p \<le> q \<and> q \<le> length data"
proof (induction data acc p rule: cat32_segments.induct)
  case (1 data acc p)
  show ?case
  proof (cases "p + 3 \<le> length data")
    case True
    then obtain v where v: "u24 data p = Some v" by (auto simp: u24_def byte_simps)
    with "1.IH" [OF _ v] True show ?thesis
      by (cases "bits v 1") (auto simp: cat32_segments.simps [of data acc p] Let_def)
  qed (use 1 in \<open>simp add: cat32_segments.simps [of data acc p]\<close>)
qed

lemma cat32_i050_goes [goes_simps]: "item_goes cat32_i050"
proof -
  have "goes p (length data) (cat32_i050 data d p)" if "typed d" "p \<le> length data" for data d p
    using cat32_segments_goes [OF that(2), of "[]"] that(1) by (auto simp: cat32_i050_def goes_simps flow_simps)
  then show ?thesis by (simp add: item_goes_def)
qed

interpretation cat32: message_category cat32_items
  by unfold_locales (simp add: cat32_items_def cat32_i035_def cat32_i420_def goes_simps flow_simps byte_simps Let_def)

lemma cat150_item_goes [goes_simps]:
  "key \<notin> set typed_keys \<Longrightarrow> item_goes (cat150_texts key k)" "key \<notin> set typed_keys \<Longrightarrow> item_goes (cat150_words key i j)"
  unfolding cat150_texts_def cat150_words_def by (intro list_item_goes; simp add: byte_simps)+

interpretation cat150: message_category cat150_items
  by unfold_locales (simp add: cat150_items_def cat150_i100_def cat150_i110_def cat150_i120_def cat150_i140_def cat150_i150_def
      cat150_i160_def goes_simps flow_simps byte_simps)

lemma typed_octet: "typed d \<Longrightarrow> k \<in> set octet_keys \<Longrightarrow> \<exists>i. dict_get d k (VInt 0) = VInt i \<and> 0 \<le> i \<and> i \<le> 255"
proof (cases "dget d k")
  case (Some v)
  moreover assume "typed d" "k \<in> set octet_keys"
  ultimately have "field_ok k v" using typed_get by blast
  with Some \<open>k \<in> set octet_keys\<close> show ?thesis by (auto simp: dict_get_def field_ok_def)
qed (auto simp: dict_get_def)

lemma cat32_serves: "serves (air_topic pre ''/fpps/civ/miniplan'') (cat32_handler pre now data)"
proof -
  from decode_message_typed [OF cat32.items_go, of data] obtain m where
    m: "decode_message cat32_items data = Some m" "\<And>msg. m = Some msg \<Longrightarrow> typed msg" by blast
  show ?thesis
  proof (cases m)
    case (Some msg)
    define e where "e = puts msg [(''_ts'', VFloat now), (''_src'', VStr ''ASTERIX CAT-32 Ed.1.2'')]"
    have "typed e" using m(2) Some by (simp add: e_def flow_simps)
    from typed_octet [OF this, of "''server_sac''"] typed_octet [OF this, of "''server_sic''"] obtain a b where
      o: "dict_get e ''server_sac'' (VInt 0) = VInt a" "dict_get e ''server_sic'' (VInt 0) = VInt b" "0 \<le> a" "a \<le> 255" "0 \<le> b" "b \<le> 255"
      by auto
    have src: "asterix_source [(''sac'', VInt a), (''sic'', VInt b)] = Some (sensor_name a b)"
      by (auto simp: asterix_source_def sensor_name_def get_or_zero_def dget_def truthy_def val_0d_def)
    have ts: "has_key ''_ts'' e" by (simp add: e_def has_key_def puts_def update_conv')
    have "cat32_handler pre now data = Some [PubDual (air_topic pre ''/fpps/civ/miniplan'' (sensor_name a b)) e ''AsterixCat32Status'']"
      using m(1) Some o(1,2) src unfolding cat32_handler_def Let_def e_def by simp
    then show ?thesis using servesI [OF o(3-6) ts] by simp
  qed (use m(1) in \<open>simp add: cat32_handler_def serves_def\<close>)
qed

lemma cat150_serves: "serves (air_topic pre ''/madap/civ/flightplan'') (cat150_handler pre now data)"
proof -
  from decode_message_typed [OF cat150.items_go, of data] obtain m where
    m: "decode_message cat150_items data = Some m" "\<And>msg. m = Some msg \<Longrightarrow> typed msg" by blast
  show ?thesis
  proof (cases m)
    case (Some msg)
    define e where "e = puts msg [(''_ts'', VFloat now), (''_src'', VStr ''ASTERIX CAT-150 Ed.3.0'')]"
    define f where "f = setdefault ''sac'' (dict_get e ''source_centre'' (VInt 0)) e"
    define g where "g = setdefault ''sic'' (dict_get f ''source_workstation'' (VInt 0)) f"
    have e: "typed e" using m(2) Some by (simp add: e_def flow_simps)
    have f: "typed f" unfolding f_def using typed_octet [OF e, of "''source_centre''"] e by (auto intro!: typed_setdefault simp: flow_simps)
    have g: "typed g" unfolding g_def using typed_octet [OF f, of "''source_workstation''"] f by (auto intro!: typed_setdefault simp: flow_simps)
    from typed_source [OF g] obtain a b where s: "asterix_source g = Some (sensor_name a b)" "0 \<le> a" "a \<le> 255" "0 \<le> b" "b \<le> 255" by blast
    have ts: "has_key ''_ts'' g"
      by (auto simp: g_def f_def e_def has_key_def puts_def setdefault_def update_conv' split: option.split)
    have "cat150_handler pre now data = Some [PubDual (air_topic pre ''/madap/civ/flightplan'' (sensor_name a b)) g ''AsterixCat150Status'']"
      using m(1) Some s(1) unfolding cat150_handler_def Let_def e_def f_def g_def by simp
    then show ?thesis using servesI [OF s(2-5) ts] by simp
  qed (use m(1) in \<open>simp add: cat150_handler_def serves_def\<close>)
qed

end
