(* ===== verification/Asterix_Monoradar.thy ===== *)
theory Asterix_Monoradar
  imports Asterix_Messages
begin

text \<open>
  CAT-001, plots and tracks of one radar, and CAT-002, its service messages. A plot and a track of CAT-001 share
  the first two items; the second says which table the others are read by.
\<close>

subsection \<open>CAT-001\<close>

definition cat1_ssr_psr :: "(int \<times> string) list" where
  "cat1_ssr_psr = [(0, ''no_detection''), (1, ''sole_primary''), (2, ''sole_secondary''), (3, ''combined'')]"

definition cat1_emergency :: "(int \<times> string) list" where
  "cat1_emergency = [(0, ''none''), (1, ''unlawful_interference''), (2, ''radio_failure''), (3, ''emergency'')]"

definition cat1_warning_codes :: "(int \<times> string) list" where
  "cat1_warning_codes = [(0, ''none''), (1, ''garbled_reply''), (2, ''reflection''), (3, ''sidelobe_reply''),
     (4, ''split_plot''), (5, ''second_time_around_reply''), (6, ''angels''), (7, ''terrestrial_vehicles''),
     (64, ''possible_wrong_mode3a''), (65, ''possible_wrong_altitude''), (66, ''possible_phantom_mssr_plot''),
     (80, ''fixed_psr_plot''), (81, ''slow_psr_plot''), (82, ''low_quality_psr_plot'')]"

definition pulses_abcd :: "string list" where
  "pulses_abcd = [''qa4'', ''qa2'', ''qa1'', ''qb4'', ''qb2'', ''qb1'', ''qc4'', ''qc2'', ''qc1'', ''qd4'', ''qd2'', ''qd1'']"

definition pulses_modec :: "string list" where
  "pulses_modec = [''qc1'', ''qa1'', ''qc2'', ''qa2'', ''qc4'', ''qa4'', ''qb1'', ''qd1'', ''qb2'', ''qd2'', ''qb4'', ''qd4'']"

definition cat1_i020 :: item where
  "cat1_i020 = octet_chain [
     \<lambda>b. [(''is_track'', flag b 0x80), (''simulated'', flag b 0x40),
       (''ssr_psr'', label cat1_ssr_psr ''undefined'' (bitfield b 4 0x03)), (''antenna'', VInt (if bits b 0x08 then 2 else 1)),
       (''spi'', flag b 0x04), (''fixed_transponder'', flag b 0x02)],
     \<lambda>b. [(''test_target'', flag b 0x80), (''emergency'', label cat1_emergency ''undefined'' (bitfield b 5 0x03)),
       (''military_emergency'', flag b 0x08), (''military_id'', flag b 0x04)],
     \<lambda>b. []]"

text \<open>The twelve pulses of a code, the first of them in the highest bit.\<close>

definition pulse_dict :: "string list \<Rightarrow> int \<Rightarrow> dict" where
  "pulse_dict pulses raw = map (\<lambda>(index, k). (k, VBool (bits raw (2 ^ (length pulses - 1 - index))))) (zip [0..<length pulses] pulses)"

definition confidence_item :: "string \<Rightarrow> string list \<Rightarrow> item" where
  "confidence_item key pulses = word_item (\<lambda>w. [(key, VDict (pulse_dict pulses (w AND 0x0FFF)))])"

text \<open>A position is derived when the site is configured, unless there is one.\<close>

definition located :: "real option \<Rightarrow> real option \<Rightarrow> (real \<Rightarrow> real \<Rightarrow> real \<times> real) \<Rightarrow> dict \<Rightarrow> dict" where
  "located site_lat site_lon f d = (case (site_lat, site_lon) of
     (Some a, Some b) \<Rightarrow> (case f a b of (lat, lon) \<Rightarrow>
       setdefault ''lon_deg'' (rnd 7 lon) (setdefault ''lat_deg'' (rnd 7 lat) d))
   | _ \<Rightarrow> d)"

definition cartesian_to_wgs84 :: "real \<Rightarrow> real \<Rightarrow> real \<Rightarrow> real \<Rightarrow> real \<times> real" where
  "cartesian_to_wgs84 origin_lat origin_lon x_m y_m =
     (let lon_scale = 111320 * cos (radians origin_lat)
      in (origin_lat + y_m / 111320, origin_lon + (if lon_scale \<noteq> 0 then x_m / lon_scale else 0)))"

definition cat1_i040 :: "real option \<Rightarrow> real option \<Rightarrow> item" where
  "cat1_i040 site_lat site_lon data d pos = or_break 4 data d pos (do {
     r \<leftarrow> u16 data pos;
     t \<leftarrow> u16 data (pos + 2);
     let rho = py_round (of_int r / 128) 4;
     let theta = py_round (of_int t * (360 / 65536)) 4;
     Some (Next (located site_lat site_lon (\<lambda>a b. polar_to_wgs84 a b rho theta)
       (puts d [(''rho_nm'', VFloat rho), (''theta_deg'', VFloat theta)]), pos + 4))
   })"

definition cat1_i042 :: "real option \<Rightarrow> real option \<Rightarrow> item" where
  "cat1_i042 site_lat site_lon data d pos = or_break 4 data d pos (do {
     x \<leftarrow> s16 data pos;
     y \<leftarrow> s16 data (pos + 2);
     let x_nm = py_round (of_int x / 64) 4;
     let y_nm = py_round (of_int y / 64) 4;
     Some (Next (located site_lat site_lon (\<lambda>a b. cartesian_to_wgs84 a b (x_nm * 1852) (y_nm * 1852))
       (puts d [(''x_nm'', VFloat x_nm), (''y_nm'', VFloat y_nm)]), pos + 4))
   })"

definition cat1_i161 :: item where
  "cat1_i161 = word_item (\<lambda>w. [(''track_num'', VInt w)])"

definition velocity_item :: item where
  "velocity_item = fields_item 4 (\<lambda>data pos. do {
     v \<leftarrow> u16 data pos;
     h \<leftarrow> u16 data (pos + 2);
     Some [(''speed_ms'', rnd 3 (of_int v / 16384 * 1852)), (''heading_deg'', rnd 4 (of_int h * (360 / 65536)))]
   })"

definition code12 :: "int \<Rightarrow> int \<Rightarrow> int" where
  "code12 b1 b2 = push_bit 8 (b1 AND 0x0F) OR b2"

definition cat1_mode_item :: "string \<Rightarrow> item" where
  "cat1_mode_item pre = octets_item (\<lambda>b1 b2. [(pre @ ''_squawk'', VStr (fmt_pad 8 4 (code12 b1 b2))),
     (pre @ ''_validated'', VBool (\<not> bits b1 0x80)), (pre @ ''_garbled'', flag b1 0x40), (pre @ ''_smoothed'', flag b1 0x20)])"

text \<open>Fourteen bits in two's complement.\<close>

definition signed14 :: "int \<Rightarrow> int \<Rightarrow> int" where
  "signed14 b1 b2 = (let raw14 = push_bit 8 (b1 AND 0x3F) OR b2 in if bits raw14 0x2000 then raw14 - 2 ^ 14 else raw14)"

definition cat1_i090 :: item where
  "cat1_i090 = octets_item (\<lambda>b1 b2. [(''alt_baro_ft'', rnd 1 (of_int (signed14 b1 b2) * 0.25 * 100)),
     (''altitude_validated'', VBool (\<not> bits b1 0x80)), (''altitude_garbled'', flag b1 0x40)])"

definition cat1_i141 :: item where
  "cat1_i141 = word_item (\<lambda>w. [(''tod_trunc_s'', rnd 4 (of_int w / 128))])"

definition cat1_i120 :: item where
  "cat1_i120 = octet_item (\<lambda>b. [(''doppler_speed_ms'', rnd 3 (of_int (unpack_b b) / 256 * 1852))])"

definition cat1_i131 :: item where
  "cat1_i131 = octet_item (\<lambda>b. [(''received_power_dbm'', VInt (unpack_b b))])"

definition cat1_i100 :: item where
  "cat1_i100 data d pos = or_break 3 data d pos (do {
     b1 \<leftarrow> byte_at data pos;
     b2 \<leftarrow> byte_at data (pos + 1);
     confidence_item ''mode_c_confidence'' pulses_modec data
       (puts d [(''mode_c_gray_code'', VInt (code12 b1 b2)), (''mode_c_validated'', VBool (\<not> bits b1 0x80)),
         (''mode_c_garbled'', flag b1 0x40)]) (pos + 2)
   })"

definition cat1_i170 :: item where
  "cat1_i170 = break_chain [
     \<lambda>b. [(''confirmed'', VBool (\<not> bits b 0x80)), (''radar_type'', VStr (if bits b 0x40 then ''ssr_combined'' else ''primary'')),
       (''maneuvering'', flag b 0x20), (''doubtful_association'', flag b 0x10), (''rdp_chain'', VInt (if bits b 0x08 then 2 else 1))],
     \<lambda>b. [(''ghost_track'', flag b 0x80)],
     \<lambda>b. []]"

definition cat1_i150 :: item where
  "cat1_i150 = octet_item (\<lambda>b. [(''x_pulse_mode3a'', flag b 0x80), (''x_pulse_modec'', flag b 0x20), (''x_pulse_mode2'', flag b 0x04)])"

definition cat1_i030 :: item where
  "cat1_i030 = fx_item (\<lambda>codes. [(''warnings'', VList (map (coded cat1_warning_codes ''code_'') codes))])"

definition cat1_plot_items :: "real option \<Rightarrow> real option \<Rightarrow> item list" where
  "cat1_plot_items site_lat site_lon = [
     cat1_i040 site_lat site_lon, cat1_mode_item ''mode3a'', cat1_i090, raw_list_item ''plot_characteristics_raw'', cat1_i141,
     cat1_mode_item ''mode2'', cat1_i120, cat1_i131, confidence_item ''mode3a_confidence'' pulses_abcd, cat1_i100,
     confidence_item ''mode2_confidence'' pulses_abcd, cat1_i030, cat1_i150]"

definition cat1_track_items :: "real option \<Rightarrow> real option \<Rightarrow> item list" where
  "cat1_track_items site_lat site_lon = [
     cat1_i161, cat1_i040 site_lat site_lon, cat1_i042 site_lat site_lon, velocity_item, cat1_mode_item ''mode3a'', cat1_i090,
     cat1_i141, raw_list_item ''plot_characteristics_raw'', cat1_i131, cat1_i120, cat1_i170, raw_list_item ''track_quality_raw'',
     cat1_mode_item ''mode2'', confidence_item ''mode3a_confidence'' pulses_abcd, cat1_i100,
     confidence_item ''mode2_confidence'' pulses_abcd, cat1_i030]"

text \<open>A table behind which any further item has a length of its own.\<close>

definition dispatch_skip :: "item list \<Rightarrow> bytes \<Rightarrow> nat \<Rightarrow> dict \<Rightarrow> nat \<Rightarrow> flow option" where
  "dispatch_skip items data index d pos = (if index < length items then (items ! index) data d pos else skip_item data d pos)"

definition decode_cat001 :: "real option \<Rightarrow> real option \<Rightarrow> bytes \<Rightarrow> dict option option" where
  "decode_cat001 site_lat site_lon data =
     (if length data < 1 then Some None
      else do {
        (fspec, pos) \<leftarrow> parse_fspec data 0;
        (if length fspec < 1 \<or> \<not> fspec ! 0 then Some None
         else if pos + 2 > length data then Some None
         else do {
           sac \<leftarrow> byte_at data pos;
           sic \<leftarrow> byte_at data (pos + 1);
           let msg = puts [] [(''sac'', VInt sac), (''sic'', VInt sic)];
           (if length fspec < 2 \<or> \<not> fspec ! 1 then Some (Some msg)
            else do {
              r \<leftarrow> then_item (cat1_i020 data msg (pos + 2)) (\<lambda>msg pos.
                run_items (dispatch_skip (if dget msg ''is_track'' = Some (VBool True) then cat1_track_items site_lat site_lon
                  else cat1_plot_items site_lat site_lon) data) 0 (drop 2 fspec) msg pos);
              let msg = fst (flow_state r);
              Some (if msg = [] then None else Some msg)
            })
         })
      })"

definition cat1_handler :: "real option \<Rightarrow> real option \<Rightarrow> string \<Rightarrow> real \<Rightarrow> bytes \<Rightarrow> event list option" where
  "cat1_handler site_lat site_lon pre now data = do {
     msg \<leftarrow> decode_cat001 site_lat site_lon data;
     (case msg of
        None \<Rightarrow> Some []
      | Some msg \<Rightarrow>
          if \<not> has_key ''lat_deg'' msg \<or> \<not> has_key ''lon_deg'' msg then Some []
          else publish_message ''ASTERIX CAT-1 Ed.1.4'' ''AsterixCat1Track'' (air_topic pre ''/radar/unknown/aircraft'') now msg)
   }"

subsection \<open>CAT-002\<close>

definition cat2_msg_types :: "(int \<times> string) list" where
  "cat2_msg_types = [(1, ''north_marker''), (2, ''sector_crossing''), (3, ''south_marker''),
     (8, ''blind_zone_filtering_start''), (9, ''blind_zone_filtering_stop'')]"

definition cat2_plot_count_ident :: "(int \<times> string) list" where
  "cat2_plot_count_ident = [(1, ''sole_primary''), (2, ''sole_ssr''), (3, ''combined'')]"

definition cat2_i070 :: item where
  "cat2_i070 = list_item ''plot_counts'' 2 (\<lambda>data pos. do {
     w \<leftarrow> u16 data pos;
     Some (VDict [(''antenna'', VInt (if bits w 0x8000 then 2 else 1)),
       (''ident'', label cat2_plot_count_ident ''undefined'' (bitfield w 10 0x1F)), (''count'', VInt (w AND 0x03FF))])
   })"

definition cat2_i100 :: item where
  "cat2_i100 = fields_item 8 (\<lambda>data pos. do {
     a \<leftarrow> u16 data pos;
     b \<leftarrow> u16 data (pos + 2);
     s \<leftarrow> u16 data (pos + 4);
     e \<leftarrow> u16 data (pos + 6);
     Some [(''window_rho_start_nm'', rnd 4 (of_int a / 128)), (''window_rho_end_nm'', rnd 4 (of_int b / 128)),
       (''window_theta_start_deg'', rnd 4 (of_int s * (360 / 65536))), (''window_theta_end_deg'', rnd 4 (of_int e * (360 / 65536)))]
   })"

definition cat2_i090 :: item where
  "cat2_i090 = octets_item (\<lambda>r a. [(''range_error_nm'', rnd 4 (of_int (unpack_b r) / 128)),
     (''azimuth_error_deg'', rnd 4 (of_int (unpack_b a) * (360 / 16384)))])"

definition cat2_items :: "item list" where
  "cat2_items = [
     sac_sic_item,
     octet_item (\<lambda>b. [(''msg_type'', coded cat2_msg_types ''type_'' b)]),
     octet_item (\<lambda>b. [(''sector_deg'', rnd 4 (of_int b * (360 / 256)))]),
     tod_item,
     word_item (\<lambda>w. [(''antenna_rotation_s'', rnd 4 (of_int w / 128))]),
     raw_list_item ''station_configuration_raw'', raw_list_item ''station_processing_mode_raw'',
     cat2_i070, cat2_i100, cat2_i090, raw_list_item ''warnings_raw'', skip_item, skip_item, skip_item]"

definition cat2_handler :: "string \<Rightarrow> real \<Rightarrow> bytes \<Rightarrow> event list option" where
  "cat2_handler pre = message_handler cat2_items ''ASTERIX CAT-2 Ed.1.2'' ''AsterixCat2Status'' (sensor_topic pre ''/radar/neutral/sensor'')"

subsection \<open>What they promise\<close>

lemma typed_located [flow_simps]: "typed d \<Longrightarrow> typed (located a b f d)"
  by (simp add: located_def flow_simps split: option.split prod.split)

lemma confidence_item_goes [goes_simps]:
  "key \<in> {''mode3a_confidence'', ''mode2_confidence'', ''mode_c_confidence''} \<Longrightarrow> item_goes (confidence_item key pulses)"
  unfolding confidence_item_def by (rule word_item_goes) (auto simp: flow_simps)

lemma cat1_item_goes [goes_simps]:
  "item_goes cat1_i020" "item_goes (cat1_i040 a b)" "item_goes (cat1_i042 a b)" "item_goes cat1_i161" "item_goes velocity_item"
  "pre \<in> {''mode3a'', ''mode2''} \<Longrightarrow> item_goes (cat1_mode_item pre)" "item_goes cat1_i090" "item_goes cat1_i141"
  "item_goes cat1_i120" "item_goes cat1_i131" "item_goes cat1_i170" "item_goes cat1_i150" "item_goes cat1_i030"
  unfolding cat1_i020_def cat1_i161_def velocity_item_def cat1_mode_item_def cat1_i090_def cat1_i141_def cat1_i120_def cat1_i131_def
    cat1_i170_def cat1_i150_def cat1_i030_def
  by (auto simp: item_goes_def [of "cat1_i040 a b"] item_goes_def [of "cat1_i042 a b"] cat1_i040_def cat1_i042_def goes_simps
      flow_simps byte_simps Let_def)

lemma cat1_i100_goes [goes_simps]: "item_goes cat1_i100"
proof -
  have "goes p (length data) (cat1_i100 data d p)" if "typed d" "p \<le> length data" for data d p
    using that by (auto simp: cat1_i100_def goes_simps byte_simps flow_simps confidence_item_def word_item_def fields_item_def)
  then show ?thesis by (simp add: item_goes_def)
qed

interpretation cat2: message_category cat2_items
  by unfold_locales (simp add: cat2_items_def cat2_i070_def cat2_i100_def cat2_i090_def goes_simps flow_simps byte_simps)

lemma dispatch_skip_goes:
  "list_all item_goes items \<Longrightarrow> typed d \<Longrightarrow> p \<le> length data \<Longrightarrow> goes p (length data) (dispatch_skip items data i d p)"
  by (auto simp: dispatch_skip_def list_all_length item_goesD goes_simps)

lemma decode_cat001_typed: "\<exists>m. decode_cat001 a b data = Some m \<and> (\<forall>msg. m = Some msg \<longrightarrow> typed msg)"
proof (cases "length data < 1")
  case False
  obtain fs p where f: "parse_fspec data 0 = Some (fs, p)" "p \<le> length data" by (rule parse_fspec_moves [of 0 data]) auto
  show ?thesis
  proof (cases "length fs < 1 \<or> \<not> fs ! 0 \<or> p + 2 > length data")
    case True
    with False f(1) show ?thesis by (auto simp: decode_cat001_def)
  next
    case head: False
    let ?msg = "[(''sac'', VInt (uint (data ! p))), (''sic'', VInt (uint (data ! Suc p)))]"
    define table where "table d = (if dget d ''is_track'' = Some (VBool True) then cat1_track_items a b else cat1_plot_items a b)" for d
    have msg: "typed ?msg" using byte_range [of "data ! p"] byte_range [of "data ! Suc p"] by (simp add: flow_simps)
    have "list_all item_goes (table d)" for d
      by (simp add: table_def cat1_track_items_def cat1_plot_items_def goes_simps)
    then have run: "goes q (length data) (run_items (dispatch_skip (table d) data) 0 (drop 2 fs) d q)" if "typed d" "q \<le> length data" for d q
      using that by (intro run_steps_goes dispatch_skip_goes)
    have "goes (p + 2) (length data) (then_item (cat1_i020 data ?msg (p + 2))
        (\<lambda>d q. run_items (dispatch_skip (table d) data) 0 (drop 2 fs) d q))"
    proof (rule goes_then_item)
      show "goes (p + 2) (length data) (cat1_i020 data ?msg (p + 2))"
        using item_goesD [OF cat1_item_goes(1) msg, of "p + 2" data] head by simp
    next
      fix d q assume "typed d" "p + 2 \<le> q" "q \<le> length data"
      with run show "goes (p + 2) (length data) (run_items (dispatch_skip (table d) data) 0 (drop 2 fs) d q)"
        by (fastforce simp: goes_def split: option.splits)
    qed
    then obtain fl where fl: "then_item (cat1_i020 data ?msg (p + 2))
        (\<lambda>d q. run_items (dispatch_skip (table d) data) 0 (drop 2 fs) d q) = Some fl" "typed (fst (flow_state fl))"
      by (auto simp: goes_def split: option.splits)
    have rd: "byte_at data p = Some (uint (data ! p))" "byte_at data (Suc p) = Some (uint (data ! Suc p))"
      using head by (simp_all add: byte_simps)
    from fl(1) have "decode_cat001 a b data = (if length fs < 2 \<or> \<not> fs ! 1 then Some (Some ?msg)
      else Some (if fst (flow_state fl) = [] then None else Some (fst (flow_state fl))))"
      unfolding decode_cat001_def f(1) using False head rd
      by (simp add: Let_def table_def [symmetric] puts_def)
    with fl(2) msg show ?thesis by (auto split: if_splits)
  qed
qed (simp add: decode_cat001_def)

lemma cat1_serves: "serves (air_topic pre ''/radar/unknown/aircraft'') (cat1_handler a b pre now data)"
proof -
  from decode_cat001_typed [of a b data] obtain m where m: "decode_cat001 a b data = Some m" "\<And>msg. m = Some msg \<Longrightarrow> typed msg" by blast
  then show ?thesis by (cases m) (auto simp: cat1_handler_def publish_message_serves, auto simp: serves_def)
qed

end
