(* ===== verification/Asterix_Weather.thy ===== *)
theory Asterix_Weather
  imports Asterix_Messages
begin

text \<open>CAT-008 and CAT-009, weather pictures of one radar and of a composed picture.\<close>

definition s8 :: "int \<Rightarrow> int" where
  "s8 b = (if bits b 0x80 then b - 256 else b)"

text \<open>The scaling factor and the stage of reduction, then the parameters.\<close>

definition processing_item :: item where
  "processing_item data d pos = or_break 1 data d pos (do {
     b \<leftarrow> byte_at data pos;
     let f5 = bitfield b 3 0x1F;
     let f5 = (if bits f5 0x10 then f5 - 32 else f5);
     (q_values, q) \<leftarrow> q_loop data [] (pos + 1);
     Some (Next (puts d ([(''scaling_factor'', VInt f5), (''reduction_stage'', VInt (b AND 0x07))] @
       unless_Nil ''processing_params_raw'' (map VInt q_values)), q))
   })"

definition qualifier_fields :: "int \<Rightarrow> dict" where
  "qualifier_fields b = [(''coord_system'', VStr (if bits b 0x80 then ''system'' else ''local'')),
     (''intensity'', VInt (bitfield b 4 0x07)), (''shading_deg'', VFloat (of_int (bitfield b 1 0x07) * 22.5))]"

subsection \<open>CAT-008\<close>

definition cat8_msg_types :: "(int \<times> string) list" where
  "cat8_msg_types = [(1, ''polar_vector''), (2, ''cartesian_vector_start_length''), (3, ''contour_record''),
     (4, ''cartesian_vector_start_end''), (254, ''sop''), (255, ''eop'')]"

definition cat8_fstlst :: "(int \<times> string) list" where
  "cat8_fstlst = [(0, ''intermediate''), (1, ''last''), (2, ''first''), (3, ''first_and_only'')]"

definition cat8_i036 :: item where
  "cat8_i036 = lenient_list_item ''cartesian_vectors'' 3 (\<lambda>data pos. do {
     x \<leftarrow> byte_at data pos;
     y \<leftarrow> byte_at data (pos + 1);
     l \<leftarrow> byte_at data (pos + 2);
     Some (VDict [(''x_raw'', VInt (s8 x)), (''y_raw'', VInt (s8 y)), (''length_raw'', VInt l)])
   })"

definition cat8_i034 :: item where
  "cat8_i034 = list_item ''polar_vectors'' 4 (\<lambda>data pos. do {
     s \<leftarrow> byte_at data pos;
     e \<leftarrow> byte_at data (pos + 1);
     az \<leftarrow> u16 data (pos + 2);
     Some (VDict [(''start_range_raw'', VInt s), (''end_range_raw'', VInt e), (''azimuth_deg'', rnd 4 (of_int az * (360 / 65536)))])
   })"

definition cat8_i040 :: item where
  "cat8_i040 = octets_item (\<lambda>b serial. [(''contour_coord_system'', VStr (if bits b 0x80 then ''system'' else ''local'')),
     (''contour_intensity'', VInt (bitfield b 4 0x07)), (''contour_position'', label cat8_fstlst ''undefined'' (b AND 0x03)),
     (''contour_serial_number'', VInt serial)])"

definition cat8_i050 :: item where
  "cat8_i050 = list_item ''contour_points'' 2 (\<lambda>data pos. do {
     x \<leftarrow> byte_at data pos;
     y \<leftarrow> byte_at data (pos + 1);
     Some (VDict [(''x_raw'', VInt (s8 x)), (''y_raw'', VInt (s8 y))])
   })"

definition cat8_i038 :: item where
  "cat8_i038 = list_item ''weather_vectors'' 4 (\<lambda>data pos. do {
     a \<leftarrow> byte_at data pos;
     b \<leftarrow> byte_at data (pos + 1);
     c \<leftarrow> byte_at data (pos + 2);
     e \<leftarrow> byte_at data (pos + 3);
     Some (VDict [(''x1_raw'', VInt (s8 a)), (''y1_raw'', VInt (s8 b)), (''x2_raw'', VInt (s8 c)), (''y2_raw'', VInt (s8 e))])
   })"

definition cat8_items :: "item list" where
  "cat8_items = [
     sac_sic_item,
     octet_item (\<lambda>b. [(''msg_type'', coded cat8_msg_types ''type_'' b)]),
     break_chain [qualifier_fields, \<lambda>b. [(''test_vector'', flag b 0x04), (''error_condition'', flag b 0x02)]],
     cat8_i036, cat8_i034, cat8_i040, cat8_i050, tod_item, processing_item, raw_list_item ''station_configuration_raw'',
     word_item (\<lambda>w. [(''total_items'', VInt w)]), cat8_i038, skip_item, skip_item]"

definition cat8_handler :: "string \<Rightarrow> real \<Rightarrow> bytes \<Rightarrow> event list option" where
  "cat8_handler pre = message_handler cat8_items ''ASTERIX CAT-8 Ed.1.3'' ''AsterixCat8Weather'' (sensor_topic pre ''/radar/neutral/sensor'')"

subsection \<open>CAT-009\<close>

definition cat9_msg_types :: "(int \<times> string) list" where
  "cat9_msg_types = [(2, ''cartesian_vector''), (253, ''intermediate_update_step''), (254, ''start_of_picture''), (255, ''end_of_picture'')]"

text \<open>An octet with fields whose extensions are skipped.\<close>

definition skipped_chain :: "(int \<Rightarrow> dict) \<Rightarrow> item" where
  "skipped_chain f data d pos = or_break 1 data d pos (do {
     b \<leftarrow> byte_at data pos;
     fx_loop (\<lambda>b. []) b data (puts d (f b)) (pos + 1)
   })"

definition cat9_i030 :: item where
  "cat9_i030 = list_item ''cartesian_vectors'' 6 (\<lambda>data pos. do {
     x \<leftarrow> s16 data pos;
     y \<leftarrow> s16 data (pos + 2);
     l \<leftarrow> u16 data (pos + 4);
     Some (VDict [(''x_raw'', VInt x), (''y_raw'', VInt y), (''length_raw'', VInt l)])
   })"

definition cat9_i090 :: item where
  "cat9_i090 = list_item ''radar_status'' 2 (\<lambda>data pos. do {
     b1 \<leftarrow> byte_at data pos;
     b2 \<leftarrow> byte_at data (pos + 1);
     Some (VDict [(''sac'', VInt b1), (''circular_polarisation'', flag b2 0x10), (''weather_channel_overload'', flag b2 0x08),
       (''reduction_step'', VInt (b2 AND 0x07))])
   })"

definition cat9_items :: "item list" where
  "cat9_items = [
     sac_sic_item,
     octet_item (\<lambda>b. [(''msg_type'', coded cat9_msg_types ''type_'' b)]),
     skipped_chain qualifier_fields, cat9_i030,
     skipped_chain (\<lambda>b. [(''step_number'', VInt (bitfield b 2 0x3F))]),
     tod_item, processing_item, cat9_i090,
     word_item (\<lambda>w. [(''vector_count'', VInt w)]), skip_item, skip_item, skip_item, skip_item, skip_item]"

definition cat9_handler :: "string \<Rightarrow> real \<Rightarrow> bytes \<Rightarrow> event list option" where
  "cat9_handler pre = message_handler cat9_items ''ASTERIX CAT-9 Ed.2.1'' ''AsterixCat9Weather'' (sensor_topic pre ''/radar/neutral/sensor'')"

subsection \<open>What they promise\<close>

lemma processing_item_goes [goes_simps]: "item_goes processing_item"
proof -
  have "goes p (length data) (processing_item data d p)" if "typed d" "p \<le> length data" for data d p
  proof (cases "p + 1 \<le> length data")
    case True
    from q_loop_goes [OF True, of "[]"] obtain qs q where "q_loop data [] (p + 1) = Some (qs, q)" "p + 1 \<le> q" "q \<le> length data" by blast
    with True that show ?thesis by (simp add: processing_item_def goes_simps byte_simps flow_simps Let_def)
  qed (use that in \<open>simp add: processing_item_def goes_simps\<close>)
  then show ?thesis by (simp add: item_goes_def)
qed

lemma skipped_chain_goes [goes_simps]: "(\<And>b. typed (f b)) \<Longrightarrow> item_goes (skipped_chain f)"
proof -
  assume t: "\<And>b. typed (f b)"
  have "goes p (length data) (skipped_chain f data d p)" if "typed d" "p \<le> length data" for data d p
    using that t by (auto simp: skipped_chain_def goes_simps byte_simps flow_simps intro!: fx_loop_goes)
  then show ?thesis by (simp add: item_goes_def)
qed

lemma qualifier_typed [flow_simps]: "typed (qualifier_fields b)"
  by (simp add: qualifier_fields_def flow_simps)

interpretation cat8: message_category cat8_items
  by unfold_locales (simp add: cat8_items_def cat8_i036_def cat8_i034_def cat8_i040_def cat8_i050_def cat8_i038_def goes_simps
      flow_simps byte_simps)

interpretation cat9: message_category cat9_items
  by unfold_locales (simp add: cat9_items_def cat9_i030_def cat9_i090_def goes_simps flow_simps byte_simps)

end
