(* ===== verification/Asterix_Cat004.thy ===== *)
theory Asterix_Cat004
  imports Asterix_Messages Asterix_Ingest
begin

text \<open>
  CAT-004, messages of safety nets. The decoder of the conflict characteristics returns its dictionary alone when
  the item is cut short, where its caller unpacks a pair: that raises (\<open>ValueError\<close>), which is \<open>None\<close> here.
\<close>

subsection \<open>Tables\<close>

definition cat4_msg_types :: "(int \<times> string) list" where
  "cat4_msg_types = [(1, ''alive_message''), (17, ''end_of_conflict'')]"

definition cat4_area_states :: "(int \<times> string) list" where
  "cat4_area_states = [(0, ''inactive''), (1, ''active''), (2, ''pre_active'')]"

definition cat4_gatoat :: "(int \<times> string) list" where
  "cat4_gatoat = [(0, ''unknown''), (1, ''gat''), (2, ''oat''), (3, ''not_applicable'')]"

definition cat4_fr1fr2 :: "(int \<times> string) list" where
  "cat4_fr1fr2 = [(0, ''ifr''), (1, ''vfr''), (2, ''not_applicable''), (3, ''cvfr'')]"

definition cat4_rvsm :: "(int \<times> string) list" where
  "cat4_rvsm = [(0, ''unknown''), (1, ''approved''), (2, ''exempt''), (3, ''not_approved'')]"

definition cat4_cdm :: "(int \<times> string) list" where
  "cat4_cdm = [(0, ''maintaining''), (1, ''climbing''), (2, ''descending''), (3, ''invalid'')]"

subsection \<open>Items\<close>

definition cat4_sources :: "string \<Rightarrow> item" where
  "cat4_sources key = lenient_list_item key 2 (\<lambda>data pos. do {
     a \<leftarrow> byte_at data pos;
     b \<leftarrow> byte_at data (pos + 1);
     Some (VDict [(''sac'', VInt a), (''sic'', VInt b)])
   })"

text \<open>\<open>while b & 0x01: if pos >= len(data): break; b = data[pos]; pos += 1; raw.append(b)\<close>.\<close>

function cat4_ext_loop :: "bytes \<Rightarrow> int \<Rightarrow> int list \<Rightarrow> nat \<Rightarrow> (int list \<times> nat) option" where
  "cat4_ext_loop data b raw pos =
     (if \<not> bits b 0x01 then Some (raw, pos)
      else if pos + 1 > length data then Some (raw, pos)
      else do { b \<leftarrow> byte_at data pos; cat4_ext_loop data b (raw @ [b]) (pos + 1) })"
  by pat_completeness auto
termination
  by (relation "measure (\<lambda>(data, b, raw, pos). length data - pos)") auto

declare cat4_ext_loop.simps [simp del]

definition cat4_third060 :: item where
  "cat4_third060 data out pos =
     (if pos + 1 > length data then Some (Next (out, pos))
      else do {
        b3 \<leftarrow> byte_at data pos;
        (ext_raw, pos) \<leftarrow> cat4_ext_loop data b3 [] (pos + 1);
        Some (Next (puts out ([(''aiw'', flag b3 0x80), (''paiw'', flag b3 0x40), (''ocat'', flag b3 0x20), (''sam'', flag b3 0x10),
          (''vcd'', flag b3 0x08), (''cham'', flag b3 0x04), (''dsam'', flag b3 0x02)] @ unless_Nil ''ext_raw'' (map VInt ext_raw)), pos))
      })"

definition cat4_i060 :: item where
  "cat4_i060 = nested_item ''safety_net_status'' (open_chain [
     \<lambda>b. [(''mrva'', flag b 0x80), (''ramld'', flag b 0x40), (''ramhd'', flag b 0x20), (''msaw'', flag b 0x10), (''apw'', flag b 0x08),
       (''clam'', flag b 0x04), (''stca'', flag b 0x02)],
     \<lambda>b. [(''apm'', flag b 0x80), (''rimca'', flag b 0x40), (''acasra'', flag b 0x20), (''ntca'', flag b 0x10), (''degraded'', flag b 0x08),
       (''overflow'', flag b 0x04), (''overload'', flag b 0x02)]]
     cat4_third060)"

text \<open>The conflict characteristics, with the exception of a cut item.\<close>

definition cat4_i120 :: item where
  "cat4_i120 data d pos = or_break 1 data d pos (do {
     b \<leftarrow> byte_at data pos;
     (cn_raw, pos) \<leftarrow> cat4_ext_loop data b [] (pos + 1);
     (if pos + 1 > length data then None
      else do {
        c \<leftarrow> byte_at data pos;
        (if pos + 2 > length data then None
         else do {
           p \<leftarrow> byte_at data (pos + 1);
           (if pos + 5 > length data then None
            else do {
              raw \<leftarrow> u24 data (pos + 2);
              Some (Next (puts d ([(''conflict_military_airspace'', flag b 0x80), (''conflict_civil_airspace'', flag b 0x40),
                (''conflict_fast_lateral_divergence'', flag b 0x20), (''conflict_fast_vertical_divergence'', flag b 0x10),
                (''conflict_major_separation'', flag b 0x08), (''conflict_crossed'', flag b 0x04), (''conflict_diverging'', flag b 0x02)] @
                unless_Nil ''conflict_nature_ext_raw'' (map VInt cn_raw) @
                [(''conflict_table_id'', VInt (bitfield c 4 0x0F)), (''conflict_properties_raw'', VInt (bitfield c 1 0x07)),
                 (''conflict_severity_high'', flag c 0x01), (''conflict_probability_pct'', rnd 2 (of_int p * 0.5)),
                 (''conflict_duration_s'', rnd 4 (of_int raw / 128))]), pos + 5))
            })
         })
      })
   })"

definition seconds_part :: "string \<Rightarrow> item" where
  "seconds_part key = part 3 (\<lambda>data pos. do { raw \<leftarrow> u24 data pos; Some [(key, rnd 4 (of_int raw / 128))] })"

definition feet_part :: "string \<Rightarrow> item" where
  "feet_part key = part 2 (\<lambda>data pos. do { w \<leftarrow> u16 data pos; Some [(key, rnd 1 (of_int w * 25))] })"

definition cat4_i070 :: item where
  "cat4_i070 = nested_item ''conflict_timing'' (compound [
     (0x80, seconds_part ''time_to_conflict_s''), (0x40, seconds_part ''time_to_closest_approach_s''),
     (0x20, part 3 (\<lambda>data pos. do { raw \<leftarrow> u24 data pos; Some [(''current_horizontal_separation_m'', rnd 2 (of_int raw * 0.5))] })),
     (0x10, part 2 (\<lambda>data pos. do { w \<leftarrow> u16 data pos; Some [(''min_horizontal_separation_m'', rnd 2 (of_int w * 0.5))] })),
     (0x08, feet_part ''current_vertical_separation_ft''), (0x04, feet_part ''min_vertical_separation_ft'')])"

definition ascii_part :: "string \<Rightarrow> item" where
  "ascii_part key = part 7 (\<lambda>data pos. Some [(key, VStr (py_strip (ascii_replace (py_slice data pos (pos + 7)))))])"

definition cat4_i100 :: item where
  "cat4_i100 = nested_item ''area'' (compound [
     (0x80, part 6 (\<lambda>data pos. Some [(''area_name'', VStr (decode_callsign (py_slice data pos (pos + 6))))])),
     (0x40, ascii_part ''crossing_area_name''), (0x20, ascii_part ''runway_taxiway_1''), (0x10, ascii_part ''runway_taxiway_2''),
     (0x08, ascii_part ''stop_bar''), (0x04, ascii_part ''gate'')])"

definition cat4_characteristics :: "int \<Rightarrow> dict" where
  "cat4_characteristics w = [(''gat_oat'', label cat4_gatoat ''undefined'' (bitfield w 14 0x03)),
     (''flight_rules'', label cat4_fr1fr2 ''undefined'' (bitfield w 12 0x03)), (''rvsm'', label cat4_rvsm ''undefined'' (bitfield w 10 0x03)),
     (''high_priority'', flag w 0x0200), (''climb_descend'', label cat4_cdm ''undefined'' (bitfield w 7 0x03)),
     (''primary'', flag w 0x0040), (''ground_vehicle'', flag w 0x0020)]"

definition degrees25 :: "int \<Rightarrow> pyval" where
  "degrees25 x = rnd 7 (of_int x * 180 / 2 ^ 25)"

definition cat4_aircraft :: "string \<Rightarrow> item" where
  "cat4_aircraft pre = fields_item 46 (\<lambda>data pos. do {
     m31 \<leftarrow> u16 data (pos + 7);
     lat \<leftarrow> s32 data (pos + 9);
     lon \<leftarrow> s32 data (pos + 13);
     alt \<leftarrow> s16 data (pos + 17);
     x \<leftarrow> s24 data (pos + 19);
     y \<leftarrow> s24 data (pos + 22);
     z \<leftarrow> s16 data (pos + 25);
     raw \<leftarrow> u24 data (pos + 27);
     dist \<leftarrow> u16 data (pos + 30);
     ac \<leftarrow> u16 data (pos + 32);
     fp \<leftarrow> u32 data (pos + 40);
     fl \<leftarrow> u16 data (pos + 44);
     Some [(pre @ ''_callsign'', VStr (py_strip (ascii_replace (py_slice data pos (pos + 7))))),
       (pre @ ''_mode3a_squawk'', VStr (fmt_pad 8 4 (m31 AND 0x0FFF))),
       (pre @ ''_wgs84_lat_deg'', degrees25 lat), (pre @ ''_wgs84_lon_deg'', degrees25 lon),
       (pre @ ''_wgs84_alt_ft'', rnd 1 (of_int alt * 25)), (pre @ ''_cart_x_m'', rnd 2 (of_int x * 0.5)),
       (pre @ ''_cart_y_m'', rnd 2 (of_int y * 0.5)), (pre @ ''_cart_z_ft'', rnd 1 (of_int z * 25)),
       (pre @ ''_time_to_threshold_s'', rnd 4 (of_int raw / 128)), (pre @ ''_distance_to_threshold_m'', rnd 2 (of_int dist * 0.5)),
       (pre @ ''_characteristics'', VDict (cat4_characteristics ac)),
       (pre @ ''_mode_s_id'', VStr (decode_callsign (py_slice data (pos + 34) (pos + 40)))),
       (pre @ ''_flight_plan_number'', VInt (fp AND 0x07FFFFFF)), (pre @ ''_cleared_fl'', rnd 2 (of_int fl * 0.25))]
   })"

definition cat4_i045 :: item where
  "cat4_i045 = octet_item (\<lambda>b. [(''area_status_populated'', flag b 0x80),
     (''area_status'', label cat4_area_states ''undefined'' (bitfield b 4 0x07)), (''alert_status_raw'', VInt (bitfield b 1 0x07))])"

definition cat4_items :: "item list" where
  "cat4_items = [
     sac_sic_item,
     octet_item (\<lambda>b. [(''msg_type'', coded cat4_msg_types ''type_'' b)]),
     cat4_sources ''sdps_ids'', tod_item,
     word_item (\<lambda>w. [(''alert_id'', VInt w)]),
     cat4_i045, cat4_i060,
     word_item (\<lambda>w. [(''track_num_1'', VInt w)]),
     cat4_aircraft ''aircraft1'', cat4_i120, cat4_i070,
     int16_item (\<lambda>w. [(''vertical_deviation_ft'', rnd 1 (of_int w * 25))]),
     int16_item (\<lambda>w. [(''longitudinal_deviation_m'', rnd 1 (of_int w * 32))]),
     fields_item 3 (\<lambda>data pos. do { w \<leftarrow> s24 data pos; Some [(''transversal_deviation_m'', rnd 2 (of_int w * 0.5))] }),
     cat4_i100,
     word_item (\<lambda>w. [(''track_num_2'', VInt w)]),
     cat4_aircraft ''aircraft2'', cat4_sources ''fdps_sectors'', skip_item, skip_item]"

text \<open>The alert stands where its first aircraft is, or else its second.\<close>

definition cat4_position :: "dict \<Rightarrow> dict" where
  "cat4_position msg = (case (dget msg ''aircraft1_wgs84_lat_deg'', dget msg ''aircraft1_wgs84_lon_deg'') of
     (Some lat, Some lon) \<Rightarrow> puts msg [(''lat_deg'', lat), (''lon_deg'', lon)]
   | _ \<Rightarrow> (case (dget msg ''aircraft2_wgs84_lat_deg'', dget msg ''aircraft2_wgs84_lon_deg'') of
       (Some lat, Some lon) \<Rightarrow> puts msg [(''lat_deg'', lat), (''lon_deg'', lon)]
     | _ \<Rightarrow> msg))"

definition cat4_handler :: "string \<Rightarrow> real \<Rightarrow> bytes \<Rightarrow> event list option" where
  "cat4_handler pre now data = do {
     msg \<leftarrow> decode_message cat4_items data;
     (case msg of
        None \<Rightarrow> Some []
      | Some msg \<Rightarrow> let msg = cat4_position msg in
          if \<not> has_key ''lat_deg'' msg \<or> \<not> has_key ''lon_deg'' msg then Some []
          else publish_message ''ASTERIX CAT-4 Ed.1.13'' ''AsterixCat4Alert'' (air_topic pre ''/radar/unknown/alert'') now msg)
   }"

subsection \<open>What they promise\<close>

lemma cat4_ext_loop_goes: "p \<le> length data \<Longrightarrow> \<exists>raw q. cat4_ext_loop data b acc p = Some (raw, q) \<and> p \<le> q \<and> q \<le> length data"
proof (induction data b acc p rule: cat4_ext_loop.induct)
  case (1 data b acc p)
  show ?case
  proof (cases "bits b 1 \<and> p + 1 \<le> length data")
    case True
    then have rd: "byte_at data p = Some (uint (data ! p))" by (simp add: byte_simps)
    from "1.IH" [OF _ _ rd] True rd show ?thesis by (auto simp: cat4_ext_loop.simps [of data b acc p])
  qed (use 1 in \<open>auto simp: cat4_ext_loop.simps [of data b acc p]\<close>)
qed

lemma cat4_i060_goes [goes_simps]: "item_goes cat4_i060"
proof -
  have "goes p (length data) (cat4_third060 data d p)" if "typed d" "p \<le> length data" for data d p
  proof (cases "p + 1 \<le> length data")
    case True
    from cat4_ext_loop_goes [OF True, of "uint (data ! p)" "[]"] obtain raw q where
      "cat4_ext_loop data (uint (data ! p)) [] (p + 1) = Some (raw, q)" "p + 1 \<le> q" "q \<le> length data" by blast
    with True that show ?thesis by (simp add: cat4_third060_def goes_simps byte_simps flow_simps)
  qed (use that in \<open>simp add: cat4_third060_def goes_simps\<close>)
  then have "item_goes cat4_third060" by (simp add: item_goes_def)
  then show ?thesis unfolding cat4_i060_def by (intro nested_item_goes open_chain_goes) (simp_all add: flow_simps)
qed

lemma cat4_item_goes [goes_simps]:
  "item_goes cat4_i070" "item_goes cat4_i100" "item_goes cat4_i045"
  "pre \<in> {''aircraft1'', ''aircraft2''} \<Longrightarrow> item_goes (cat4_aircraft pre)"
  unfolding cat4_i070_def cat4_i100_def cat4_i045_def cat4_aircraft_def seconds_part_def feet_part_def ascii_part_def
  by (auto simp: goes_simps flow_simps byte_simps u24_def s32_def s24_def u32_def)

lemma cat4_i120_stops: "p \<le> length data \<Longrightarrow> typed d \<Longrightarrow> cat4_i120 data d p = None \<or> goes p (length data) (cat4_i120 data d p)"
proof (cases "p + 1 \<le> length data")
  case True
  assume d: "typed d"
  from cat4_ext_loop_goes [OF True, of "uint (data ! p)" "[]"] obtain raw q where
    q: "cat4_ext_loop data (uint (data ! p)) [] (p + 1) = Some (raw, q)" "p + 1 \<le> q" "q \<le> length data" by blast
  show ?thesis
  proof (cases "q + 5 \<le> length data")
    case long: True
    then show ?thesis using True d q by (simp add: cat4_i120_def goes_simps flow_simps byte_simps u24_def)
  qed (use True q in \<open>auto simp: cat4_i120_def or_break_def byte_simps\<close>)
qed (simp add: cat4_i120_def goes_simps)

lemma cat4_cut_raises:
  "p < length data \<Longrightarrow> \<not> bits (uint (data ! p)) 1 \<Longrightarrow> length data < p + 6 \<Longrightarrow> cat4_i120 data d p = None"
  by (auto simp: cat4_i120_def or_break_def byte_simps cat4_ext_loop.simps)



end
