(* ===== verification/Asterix_Cat007.thy ===== *)
theory Asterix_Cat007
  imports Asterix_Monoradar Asterix_Ingest
begin

text \<open>
  CAT-007, directed interrogation: reports of a radar (downlink) and requests to it (uplink). The first three items
  are the same for both; the message type says by which table the others are read. The decoder of the pulse
  qualities does not check that its two octets are there: \<open>struct.error\<close>, which is \<open>None\<close> here.
\<close>

subsection \<open>Tables\<close>

definition cat7_typ :: "(int \<times> string) list" where
  "cat7_typ = [(0, ''no_detection''), (1, ''single_psr''), (2, ''single_ssr''), (3, ''ssr_psr''), (4, ''mode_s_all_call''),
     (5, ''mode_s_roll_call''), (6, ''mode_s_all_call_psr''), (7, ''mode_s_roll_call_psr'')]"

definition cat7_foefri :: "(int \<times> string) list" where
  "cat7_foefri = [(0, ''no_mode4''), (1, ''friendly''), (2, ''unknown''), (3, ''no_reply'')]"

definition cat7_rad :: "(int \<times> string) list" where
  "cat7_rad = [(0, ''combined''), (1, ''psr''), (2, ''ssr_mode_s''), (3, ''invalid'')]"

definition cat7_cdm :: "(int \<times> string) list" where
  "cat7_cdm = [(0, ''maintaining''), (1, ''climbing''), (2, ''descending''), (3, ''unknown'')]"

definition cat7_com :: "(int \<times> string) list" where
  "cat7_com = [(0, ''surveillance_only''), (1, ''comm_ab''), (2, ''comm_ab_ul_elm''), (3, ''comm_ab_ul_dl_elm''), (4, ''level_5'')]"

definition cat7_stat :: "(int \<times> string) list" where
  "cat7_stat = [(0, ''no_alert_no_spi_airborne''), (1, ''no_alert_no_spi_ground''), (2, ''alert_no_spi_airborne''),
     (3, ''alert_no_spi_ground''), (4, ''alert_spi''), (5, ''no_alert_spi''), (7, ''unknown'')]"

definition cat7_msg_type_410 :: "(int \<times> string) list" where
  "cat7_msg_type_410 = [(0, ''acknowledge''), (1, ''reject''), (2, ''interrogation_finished''), (3, ''interrogation_completed''),
     (4, ''target_report''), (5, ''request_type_a''), (6, ''request_type_b''), (7, ''request_type_c''), (8, ''selective_bds_register'')]"

definition cat7_warning_codes :: "(int \<times> string) list" where
  "cat7_warning_codes = [
     (0, ''not_defined''), (1, ''multipath_reply''), (2, ''sidelobe_interrogation''), (3, ''split_plot''), (4, ''second_time_around''),
     (5, ''angel''), (6, ''slow_moving_terrestrial_vehicle''), (7, ''fixed_psr''), (8, ''slow_psr''), (9, ''low_quality_psr''),
     (10, ''phantom_ssr''), (11, ''non_matching_mode3a''), (12, ''mode_c_abnormal''), (13, ''target_in_clutter''),
     (14, ''max_doppler_in_zero_filter''), (15, ''transponder_anomaly''), (16, ''duplicated_illegal_mode_s_address''),
     (17, ''mode_s_error_correction''), (18, ''undecodable_mode_c''), (19, ''birds''), (20, ''flock_of_birds''),
     (21, ''mode1_present''), (22, ''mode2_present''), (23, ''wind_turbine''), (24, ''helicopter''),
     (25, ''max_reinterrogations_surveillance''), (26, ''max_reinterrogations_bds''), (27, ''bds_overlay_incoherence''),
     (28, ''bds_swap''), (29, ''track_update_in_zenithal_gap''), (30, ''mode_s_reacquired''), (31, ''duplicated_mode5_pair''),
     (32, ''wrong_df_format''), (33, ''transponder_anomaly_xpd''), (34, ''transponder_anomaly_si''), (35, ''potential_ic_conflict''),
     (36, ''ic_conflict_detection_possible''), (64, ''ambiguous_ack_overlapping_windows''), (65, ''ambiguous_ack_duplicate_request''),
     (66, ''ambiguous_ack_duplicate_track''), (67, ''reject_unable_to_process''), (68, ''reject_too_many_parallel_requests''),
     (69, ''reject_duplicate_request'')]"

subsection \<open>Items\<close>

definition cat7_i020 :: item where
  "cat7_i020 = octet_chain [
     \<lambda>b. [(''report_type'', label cat7_typ ''undefined'' (bitfield b 5 0x07)), (''simulated'', flag b 0x10),
       (''rdp_chain'', VInt (if bits b 0x08 then 2 else 1)), (''spi'', flag b 0x04), (''field_monitor'', flag b 0x02)],
     \<lambda>b. [(''test_target'', flag b 0x80), (''extended_range'', flag b 0x40), (''x_pulse_present'', flag b 0x20),
       (''military_emergency'', flag b 0x10), (''military_id'', flag b 0x08), (''mode4'', label cat7_foefri ''undefined'' (bitfield b 1 0x03))],
     \<lambda>b. [(''adsb_populated'', flag b 0x80), (''adsb_available'', flag b 0x40), (''scn_populated'', flag b 0x20),
       (''scn_available'', flag b 0x10), (''pai_populated'', flag b 0x08), (''pai_available'', flag b 0x04)],
     \<lambda>b. [(''acasvx_populated'', flag b 0x80), (''acasvx_version'', VInt (bitfield b 3 0x0F)), (''poxpr_populated'', flag b 0x04),
       (''poxpr_available'', flag b 0x02)],
     \<lambda>b. [(''poact_populated'', flag b 0x80), (''poact_active'', flag b 0x40), (''dtfxpr_populated'', flag b 0x20),
       (''dtfxpr_supported'', flag b 0x10), (''dtfact_populated'', flag b 0x08), (''dtfact_active'', flag b 0x04)],
     \<lambda>b. [(''irmxpr_populated'', flag b 0x80), (''irmxpr_capable'', flag b 0x40), (''irmact_populated'', flag b 0x20),
       (''irmact_active'', flag b 0x10)]]"

definition cat7_i170 :: item where
  "cat7_i170 = octet_chain [
     \<lambda>b. [(''confirmed'', VBool (\<not> bits b 0x80)), (''radar_type'', label cat7_rad ''undefined'' (bitfield b 5 0x03)),
       (''low_confidence'', flag b 0x10), (''horizontal_maneuver'', flag b 0x08),
       (''climb_descend'', label cat7_cdm ''undefined'' (bitfield b 1 0x03))],
     \<lambda>b. [(''end_of_track'', flag b 0x80), (''ghost_track'', flag b 0x40), (''neighboring_node'', flag b 0x20),
       (''slant_range_corrected'', flag b 0x10)]]"

text \<open>The pulse qualities, without a check of the length.\<close>

definition cat7_conf12 :: "string \<Rightarrow> item" where
  "cat7_conf12 key data d pos = do {
     w \<leftarrow> u16 data pos;
     Some (Next (puts d [(key, VDict (pulse_dict pulses_abcd (w AND 0x0FFF)))], pos + 2))
   }"

definition octet_part :: "(int \<Rightarrow> dict) \<Rightarrow> item" where
  "octet_part f = part 1 (\<lambda>data pos. do { b \<leftarrow> byte_at data pos; Some (f b) })"

definition octets_part :: "(int \<Rightarrow> int \<Rightarrow> dict) \<Rightarrow> item" where
  "octets_part f = part 2 (\<lambda>data pos. do { a \<leftarrow> byte_at data pos; b \<leftarrow> byte_at data (pos + 1); Some (f a b) })"

definition mode_octal :: "string \<Rightarrow> int \<Rightarrow> int \<Rightarrow> dict" where
  "mode_octal pre b1 b2 = [(pre @ ''_squawk'', VStr (fmt_pad 8 4 (code12 b1 b2))),
     (pre @ ''_validated'', VBool (\<not> bits b1 0x80)), (pre @ ''_garbled'', flag b1 0x40)]"

definition cat7_i085 :: item where
  "cat7_i085 = nested_item ''mode5'' (compound [
     (0x80, octet_part (\<lambda>b. [(''mode5_interrogation'', flag b 0x80), (''mode5_id_reply'', flag b 0x40), (''mode5_data_reply'', flag b 0x20),
       (''mode5_m1'', flag b 0x10), (''mode5_m2'', flag b 0x08), (''mode5_m3'', flag b 0x04), (''mode5_mc'', flag b 0x02)])),
     (0x40, part 4 (\<lambda>data pos. do {
       raw \<leftarrow> u32 data pos;
       Some [(''mode5_pin'', VInt (bitfield raw 16 0x3FFF)), (''mode5_nat'', VInt (bitfield raw 8 0x1F)), (''mode5_mis'', VInt (raw AND 0x3F))]
     })),
     (0x20, part 6 (\<lambda>data pos. do {
       lat \<leftarrow> s24 data pos;
       lon \<leftarrow> s24 data (pos + 3);
       Some [(''mode5_lat_deg'', rnd 7 (of_int lat * 180 / 2 ^ 23)), (''mode5_lon_deg'', rnd 7 (of_int lon * 180 / 2 ^ 23))]
     })),
     (0x10, octets_part (\<lambda>b1 b2. [(''mode5_gnss_alt_ft'', rnd 1 (of_int (signed14 b1 b2) * (if bits b1 0x40 then 25 else 100)))])),
     (0x08, octets_part (mode_octal ''extended_mode1'')),
     (0x04, octet_part (\<lambda>b. [(''time_offset_s'', rnd 4 (of_int (unpack_b b) / 128))])),
     (0x02, octet_part (\<lambda>b. [(''x_pulse_5'', flag b 0x10), (''x_pulse_c'', flag b 0x08), (''x_pulse_3'', flag b 0x04),
       (''x_pulse_2'', flag b 0x02), (''x_pulse_1'', flag b 0x01)]))])"

definition cat7_raw_doppler :: item where
  "cat7_raw_doppler data out pos =
     (if pos \<ge> length data then Some (Return (out, pos))
      else list_item ''raw_doppler'' 6 (\<lambda>data pos. do {
        v \<leftarrow> u16 data pos;
        a \<leftarrow> u16 data (pos + 2);
        f \<leftarrow> u16 data (pos + 4);
        Some (VDict [(''doppler_ms'', VInt v), (''ambiguous_doppler_ms'', VInt a), (''frequency_mhz'', VInt f)])
      }) data out pos)"

definition cat7_i120 :: item where
  "cat7_i120 = nested_item ''radial_doppler'' (compound [
     (0x80, octets_part (\<lambda>b1 b2. let raw10 = push_bit 8 (b1 AND 0x03) OR b2 in
       [(''doppler_speed_doubtful'', flag b1 0x80), (''doppler_speed_ms'', VInt (if bits raw10 0x0200 then raw10 - 2 ^ 10 else raw10))])),
     (0x40, cat7_raw_doppler)])"

definition cat7_i130 :: item where
  "cat7_i130 = nested_item ''plot_characteristics'' (compound [
     (0x80, octet_part (\<lambda>b. [(''ssr_runlength_deg'', rnd 4 (of_int b * (360 / 8192)))])),
     (0x40, octet_part (\<lambda>b. [(''ssr_reply_count'', VInt b)])),
     (0x20, octet_part (\<lambda>b. [(''ssr_amplitude_dbm'', VInt (unpack_b b))])),
     (0x10, octet_part (\<lambda>b. [(''psr_runlength_deg'', rnd 4 (of_int b * (360 / 8192)))])),
     (0x08, octet_part (\<lambda>b. [(''psr_amplitude_dbm'', VInt (unpack_b b))])),
     (0x04, octet_part (\<lambda>b. [(''psr_ssr_range_diff_nm'', rnd 5 (of_int (unpack_b b) / 256))])),
     (0x02, octet_part (\<lambda>b. [(''psr_ssr_azimuth_diff_deg'', rnd 4 (of_int (unpack_b b) * (360 / 16384)))]))])"

definition cat7_i415 :: item where
  "cat7_i415 = nested_item ''required_interrogation_modes'' (compound [
     (0x80, part 4 (\<lambda>data pos. Some [(''required_interrogation_modes_raw'', VStr (hex_bytes (py_slice data pos (pos + 4))))])),
     (0x40, octet_part (\<lambda>b. [(''mip_table_raw'', VInt b)]))])"

definition cat7_lockout :: "int \<Rightarrow> string" where
  "cat7_lockout i = (if i = 0 then ''no_lockout'' else if i = 1 then ''lockout_used'' else ''lockout_override'')"

definition cat7_i450 :: item where
  "cat7_i450 = nested_item ''interrogation_result'' (compound [
     (0x80, octet_part (\<lambda>b. [(''not_executed'', flag b 0x08), (''truncated_all_call'', flag b 0x04), (''activated_once'', flag b 0x02),
       (''activated_all_validity'', flag b 0x01)])),
     (0x40, octet_part (\<lambda>b. [(''mode4_interrogations_raw'', VInt b)])),
     (0x20, octet_part (\<lambda>b. [(''mode5_interrogations_raw'', VInt b)])),
     (0x10, part 2 (\<lambda>data pos. do {
       w \<leftarrow> u16 data pos;
       Some [(''mode_s_all_call_lockout'', VStr (cat7_lockout (bitfield w 8 0x03))), (''mode_s_all_call_count'', VInt (w AND 0xFF))]
     })),
     (0x08, octet_part (\<lambda>b. [(''mark_x_interrogations_raw'', VInt b)])),
     (0x04, octet_part (\<lambda>b. [(''selective_mode_s_raw'', VInt b)]))])"

definition cat7_i400 :: item where
  "cat7_i400 = word_item (\<lambda>w. [(''request_high_priority'', flag w 0x8000), (''request_number'', VInt (w AND 0x7FFF))])"

definition cat7_i040 :: item where
  "cat7_i040 = fields_item 4 (\<lambda>data pos. do {
     r \<leftarrow> u16 data pos;
     t \<leftarrow> u16 data (pos + 2);
     Some [(''rho_nm'', rnd 4 (of_int r / 256)), (''theta_deg'', rnd 4 (of_int t * (360 / 65536)))]
   })"

definition cat7_i042 :: item where
  "cat7_i042 = fields_item 4 (\<lambda>data pos. do {
     x \<leftarrow> s16 data pos;
     y \<leftarrow> s16 data (pos + 2);
     Some [(''x_nm'', rnd 4 (of_int x / 128)), (''y_nm'', rnd 4 (of_int y / 128))]
   })"

definition cat7_i090 :: item where
  "cat7_i090 = octets_item (\<lambda>b1 b2. [(''flight_level'', rnd 2 (of_int (signed14 b1 b2) * 0.25)),
     (''fl_validated'', VBool (\<not> bits b1 0x80)), (''fl_garbled'', flag b1 0x40)])"

definition cat7_i220 :: item where
  "cat7_i220 = u24_item (\<lambda>raw. [(''icao24'', VStr (fmt_pad 16 6 raw))])"

definition cat7_i240 :: item where
  "cat7_i240 = fields_item 6 (\<lambda>data pos. Some [(''callsign'', VStr (decode_callsign (py_slice data pos (pos + 6))))])"

definition cat7_i250 :: item where
  "cat7_i250 = list_item ''mode_s_mb_data'' 8 (\<lambda>data pos. do {
     bds \<leftarrow> byte_at data (pos + 7);
     Some (VDict [(''data'', VStr (hex_bytes (py_slice data pos (pos + 7)))), (''bds1'', VInt (bitfield bds 4 0x0F)), (''bds2'', VInt (bds AND 0x0F))])
   })"

definition cat7_i161 :: item where
  "cat7_i161 = word_item (\<lambda>w. [(''track_num'', VInt (w AND 0x0FFF))])"

definition cat7_i210 :: item where
  "cat7_i210 = fields_item 4 (\<lambda>data pos. do {
     a \<leftarrow> byte_at data pos;
     b \<leftarrow> byte_at data (pos + 1);
     c \<leftarrow> byte_at data (pos + 2);
     e \<leftarrow> byte_at data (pos + 3);
     Some [(''sigma_x_nm'', rnd 4 (of_int a / 128)), (''sigma_y_nm'', rnd 4 (of_int b / 128)),
       (''sigma_speed_ms'', rnd 4 (of_int c / 16384 * 1852)), (''sigma_heading_deg'', rnd 4 (of_int e * (360 / 4096)))]
   })"

definition cat7_i030 :: item where
  "cat7_i030 = fx_item (\<lambda>codes. unless_Nil ''warnings'' (map (coded cat7_warning_codes ''code_'') codes))"

definition cat7_i100 :: item where
  "cat7_i100 = fields_item 4 (\<lambda>data pos. do {
     b1 \<leftarrow> byte_at data pos;
     b2 \<leftarrow> byte_at data (pos + 1);
     raw \<leftarrow> u16 data (pos + 2);
     Some [(''mode_c_gray_code'', VInt (code12 b1 b2)), (''mode_c_validated'', VBool (\<not> bits b1 0x80)), (''mode_c_garbled'', flag b1 0x40),
       (''mode_c_confidence'', VDict (pulse_dict pulses_modec raw))]
   })"

definition cat7_i110 :: item where
  "cat7_i110 = word_item (\<lambda>w. let raw14 = w AND 0x3FFF in
     [(''height_3d_ft'', rnd 1 (of_int (if bits raw14 0x2000 then raw14 - 2 ^ 14 else raw14) * 25))])"

definition cat7_i230 :: item where
  "cat7_i230 = fields_item 3 (\<lambda>data pos. do {
     b1 \<leftarrow> byte_at data pos;
     b2 \<leftarrow> byte_at data (pos + 1);
     b3 \<leftarrow> byte_at data (pos + 2);
     Some [(''comm_capability'', label cat7_com ''undefined'' (bitfield b1 5 0x07)), (''flight_status'', label cat7_stat ''undefined'' (bitfield b1 2 0x07)),
       (''si_capable'', VBool (\<not> bits b1 0x02)), (''mode_s_service_capable'', flag b2 0x40), (''altitude_resolution_25ft'', flag b2 0x20),
       (''aircraft_id_capable'', flag b2 0x10), (''bds10_raw'', VInt (push_bit 4 (b2 AND 0x0F) OR bitfield b3 4 0x0F))]
   })"

definition cat7_i260 :: item where
  "cat7_i260 = fields_item 7 (\<lambda>data pos. Some [(''acas_ra_raw'', VStr (hex_bytes (py_slice data pos (pos + 7))))])"

definition cat7_i055 :: item where
  "cat7_i055 = octet_item (\<lambda>b. [(''mode1_validated'', VBool (\<not> bits b 0x80)), (''mode1_garbled'', flag b 0x40), (''mode1_smoothed'', flag b 0x20),
     (''mode1_code'', VStr (fmt_pad 8 2 (b AND 0x1F)))])"

definition cat7_i065 :: item where
  "cat7_i065 = octet_item (\<lambda>b. [(''mode1_confidence'', VDict [(''qa4'', flag b 0x20), (''qa2'', flag b 0x10), (''qa1'', flag b 0x08),
     (''qb2'', flag b 0x02), (''qb1'', flag b 0x01)])])"

definition cat7_i420 :: item where
  "cat7_i420 = fields_item 8 (\<lambda>data pos. do {
     a \<leftarrow> u16 data pos;
     b \<leftarrow> u16 data (pos + 2);
     s \<leftarrow> u16 data (pos + 4);
     e \<leftarrow> u16 data (pos + 6);
     Some [(''window_rho_start_nm'', rnd 4 (of_int a / 256)), (''window_rho_end_nm'', rnd 4 (of_int b / 256)),
       (''window_theta_start_deg'', rnd 4 (of_int s * (360 / 65536))), (''window_theta_end_deg'', rnd 4 (of_int e * (360 / 65536)))]
   })"

definition cat7_i440 :: item where
  "cat7_i440 = list_item ''bds_register_requests'' 1 (\<lambda>data pos. do {
     b \<leftarrow> byte_at data pos;
     Some (VDict [(''bds1'', VInt (bitfield b 4 0x0F)), (''bds2'', VInt (b AND 0x0F))])
   })"

definition cat7_downlink_items :: "item list" where
  "cat7_downlink_items = [
     tod_item, cat7_i400, cat7_i020, cat7_i040, octets_item (mode_octal ''mode3a''), cat7_i090, cat7_i130, cat7_i220, cat7_i240,
     cat7_i250, cat7_i161, cat7_i042, velocity_item, cat7_i170, cat7_i210, cat7_i030, cat7_conf12 ''mode3a_confidence'', cat7_i100,
     cat7_i110, cat7_i120, cat7_i230, cat7_i260, cat7_i055, octets_item (mode_octal ''mode2''), cat7_i065,
     cat7_conf12 ''mode2_confidence'', cat7_i450, cat7_i085]"

definition cat7_uplink_items :: "item list" where
  "cat7_uplink_items = [
     tod_item, cat7_i400, cat7_i040, cat7_i220, cat7_i161, cat7_i042, velocity_item, cat7_i415, cat7_i420, cat7_i440]"

subsection \<open>Messages\<close>

text \<open>An item that is present, and a truncated one that ends the decoder without a message.\<close>

definition cat7_header :: "bool \<Rightarrow> item \<Rightarrow> item" where
  "cat7_header present f data d pos = (if present then f data d pos else Some (Next (d, pos)))"

definition cat7_i410 :: item where
  "cat7_i410 = octet_item (\<lambda>b. [(''msg_type'', coded cat7_msg_type_410 ''type_'' b), (''is_uplink'', VBool (b \<ge> 5))])"

definition decode_cat007 :: "bytes \<Rightarrow> dict option option" where
  "decode_cat007 data =
     (if length data < 1 then Some None
      else do {
        (fspec, pos) \<leftarrow> parse_fspec data 0;
        (if length fspec < 3 then Some None
         else do {
           h \<leftarrow> then_item (cat7_header (fspec ! 0) sac_sic_item data [] pos) (\<lambda>d pos.
             then_item (cat7_header (fspec ! 1) (pair_item ''dest_sac'' ''dest_sic'') data d pos)
               (cat7_header (fspec ! 2) cat7_i410 data));
           (case h of
              Next (msg, pos) \<Rightarrow> do {
                r \<leftarrow> run_items (dispatch_skip (if dget msg ''is_uplink'' = Some (VBool True) then cat7_uplink_items else cat7_downlink_items)
                  data) 0 (drop 3 fspec) msg pos;
                let msg = fst (flow_state r);
                Some (if msg = [] then None else Some msg)
              }
            | _ \<Rightarrow> Some None)
         })
      })"

definition cat7_position :: "real option \<Rightarrow> real option \<Rightarrow> dict \<Rightarrow> dict" where
  "cat7_position site_lat site_lon msg =
     (case (dget msg ''rho_nm'', dget msg ''theta_deg'', site_lat, site_lon) of
        (Some (VFloat rho), Some (VFloat theta), Some _, Some _) \<Rightarrow>
          located site_lat site_lon (\<lambda>a b. polar_to_wgs84 a b rho theta) msg
      | _ \<Rightarrow> (case (dget msg ''x_nm'', dget msg ''y_nm'', site_lat, site_lon) of
          (Some (VFloat x), Some (VFloat y), Some _, Some _) \<Rightarrow>
            located site_lat site_lon (\<lambda>a b. cartesian_to_wgs84 a b (x * 1852) (y * 1852)) msg
        | _ \<Rightarrow> (case dget msg ''mode5'' of
            Some (VDict m) \<Rightarrow> (case (dget m ''mode5_lat_deg'', dget m ''mode5_lon_deg'') of
              (Some lat, Some lon) \<Rightarrow> puts msg [(''lat_deg'', lat), (''lon_deg'', lon)]
            | _ \<Rightarrow> msg)
          | _ \<Rightarrow> msg)))"

definition cat7_handler :: "real option \<Rightarrow> real option \<Rightarrow> string \<Rightarrow> real \<Rightarrow> bytes \<Rightarrow> event list option" where
  "cat7_handler site_lat site_lon pre now data = do {
     msg \<leftarrow> decode_cat007 data;
     (case msg of
        None \<Rightarrow> Some []
      | Some msg \<Rightarrow> let msg = cat7_position site_lat site_lon msg in
          if \<not> has_key ''lat_deg'' msg \<or> \<not> has_key ''lon_deg'' msg then Some []
          else publish_message ''ASTERIX CAT-7 Ed.1.12'' ''AsterixCat7Track'' (air_topic pre ''/radar/unknown/aircraft'') now msg)
   }"

subsection \<open>A cut item\<close>

lemma cat7_conf12_raises: "length data < p + 2 \<Longrightarrow> cat7_conf12 key data d p = None"
  by (simp add: cat7_conf12_def u16_def unpack_H_def length_py_slice_gen)

text \<open>
  A report whose pulse qualities are cut short raises, and the translator ends with it.
\<close>

lemma cut_confidence_raises:
  assumes "length rest \<le> 1"
  shows "cat7_handler a b pre now ([0x01, 0x01, 0x04] @ rest) = None"
    "process_stream 7 (cat7_handler a b pre now) ((7, [0x01, 0x01, 0x04] @ rest) # frames) = None"
proof -
  have f: "parse_fspec ([0x01, 0x01, 0x04] @ rest) 0 = Some (fspec_octet 0x01 @ fspec_octet 0x01 @ fspec_octet 0x04, 3)"
    by (simp add: parse_fspec_def parse_fspec_loop.simps byte_at_def bits_def)
  have s: "fspec_octet 0x01 @ fspec_octet 0x01 @ fspec_octet 0x04 = replicate 19 False @ [True, False]"
    by (simp add: fspec_octet_def bits_def numeral_eq_Suc)
  have "cat7_conf12 ''mode3a_confidence'' ([0x01, 0x01, 0x04] @ rest) [] 3 = None"
    using assms by (intro cat7_conf12_raises) simp
  then have "decode_cat007 ([0x01, 0x01, 0x04] @ rest) = None"
    unfolding decode_cat007_def f
    by (simp add: s cat7_header_def then_item_def dispatch_skip_def cat7_downlink_items_def dget_def numeral_eq_Suc)
  then show "cat7_handler a b pre now ([0x01, 0x01, 0x04] @ rest) = None" by (simp add: cat7_handler_def)
  then show "process_stream 7 (cat7_handler a b pre now) ((7, [0x01, 0x01, 0x04] @ rest) # frames) = None" by simp
qed

end
