(* ===== verification/Asterix_Cat034.thy ===== *)
theory Asterix_Cat034
  imports Asterix_Messages
begin

text \<open>
  CAT-034, service messages of radars: the decoder, and the handler with the state it keeps for every radar head
  (its site, its antenna, the last status) and the two threads it starts for each of them.
\<close>

subsection \<open>Items\<close>

definition cat34_msg_types :: "(int \<times> string) list" where
  "cat34_msg_types = [(1, ''north_marker''), (2, ''sector_crossing''), (3, ''geo_filter''), (4, ''jamming_strobe'')]"

definition cat34_count_labels :: "(int \<times> string) list" where
  "cat34_count_labels = [(0, ''no_detection''), (1, ''psr''), (2, ''ssr''), (3, ''psr_ssr''), (4, ''all''), (5, ''no_det_psr''),
     (6, ''no_det_ssr''), (7, ''mode5''), (11, ''mil_id'')]"

definition cat34_filters :: "(int \<times> string) list" where
  "cat34_filters = [(0, ''invalid''), (1, ''weather''), (2, ''jamming''), (3, ''psr''), (4, ''ssr_mode_s''), (5, ''combined''),
     (6, ''enhanced_surveillance''), (7, ''psr_enhanced''), (8, ''psr_enhanced_ssr_not_aoi''), (9, ''all'')]"

text \<open>Octets up to the first without an extension bit.\<close>

function fx_octets :: "bytes \<Rightarrow> int list \<Rightarrow> nat \<Rightarrow> (int list \<times> nat) option" where
  "fx_octets data acc pos =
     (if pos < length data then do {
        b \<leftarrow> byte_at data pos;
        (if \<not> bits b 0x01 then Some (acc @ [b], pos + 1) else fx_octets data (acc @ [b]) (pos + 1))
      } else Some (acc, pos))"
  by pat_completeness auto
termination
  by (relation "measure (\<lambda>(data, acc, pos). length data - pos)") auto

declare fx_octets.simps [simp del]

definition cat34_compound :: "(int \<times> item) list \<Rightarrow> item" where
  "cat34_compound fs data d pos = do {
     (primary, pos) \<leftarrow> fx_octets data [] pos;
     (case primary of
        [] \<Rightarrow> Some (Next (d, pos))
      | sf # _ \<Rightarrow> do {
          r \<leftarrow> parts sf fs data [] pos;
          Some (Next (puts d (fst (flow_state r)), snd (flow_state r)))
        })
   }"

definition one_octet :: "(int \<Rightarrow> dict) \<Rightarrow> item" where
  "one_octet f = part 1 (\<lambda>data pos. do { b \<leftarrow> byte_at data pos; Some (f b) })"

definition cat34_channel :: "int \<Rightarrow> string" where
  "cat34_channel i = [''none'', ''a'', ''b'', ''diversity''] ! nat i"

definition cat34_head :: "string \<Rightarrow> int \<Rightarrow> dict" where
  "cat34_head pre b = [(pre @ ''_antenna'', VInt (if bits b 0x80 then 2 else 1)), (pre @ ''_channel'', VStr (cat34_channel (bitfield b 5 0x03)))]"

definition cat34_tail :: "string \<Rightarrow> int \<Rightarrow> dict" where
  "cat34_tail pre b = [(pre @ ''_status'', VStr (if bits b 0x10 then ''overload'' else ''operational'')),
     (pre @ ''_overload'', flag b 0x10), (pre @ ''_msc_connected'', VBool (\<not> bits b 0x08))]"

text \<open>A sensor's part: when it is cut short, the position is the end of the block.\<close>

definition cat34_part :: "nat \<Rightarrow> (bytes \<Rightarrow> nat \<Rightarrow> dict option) \<Rightarrow> item" where
  "cat34_part k f data out pos =
     (if pos + k > length data then Some (Return (out, length data))
      else do { kvs \<leftarrow> f data pos; Some (Next (puts out kvs, pos + k)) })"

definition cat34_sensor :: "string \<Rightarrow> item" where
  "cat34_sensor pre = cat34_part 1 (\<lambda>data pos. do { b \<leftarrow> byte_at data pos; Some (cat34_head pre b @ cat34_tail pre b) })"

definition cat34_mds :: item where
  "cat34_mds = cat34_part 2 (\<lambda>data pos. do {
     a \<leftarrow> byte_at data pos;
     b \<leftarrow> byte_at data (pos + 1);
     Some (cat34_head ''mds'' a @ [(''mds_scf_channel'', VInt (if bits a 0x04 then 2 else 1)),
       (''mds_dlf_channel'', VInt (if bits a 0x02 then 2 else 1)), (''mds_scf_overload'', flag a 0x01), (''mds_dlf_overload'', flag b 0x80)] @
       cat34_tail ''mds'' a)
   })"

definition cat34_i050 :: item where
  "cat34_i050 = cat34_compound [
     (0x80, one_octet (\<lambda>b. [(''sys_nogo'', flag b 0x80), (''rdp_chain_2'', flag b 0x40), (''rdp_restart'', flag b 0x20), (''sys_ovl_rdp'', flag b 0x10),
       (''sys_ovl_xmt'', flag b 0x08), (''sys_msc_connected'', VBool (\<not> bits b 0x04)), (''sys_tsv_invalid'', flag b 0x02)])),
     (0x10, cat34_sensor ''psr''), (0x08, cat34_sensor ''ssr''), (0x04, cat34_mds)]"

definition cat34_i060 :: item where
  "cat34_i060 = cat34_compound [
     (0x80, one_octet (\<lambda>b. [(''rdp_reduction_level'', VInt (bitfield b 4 0x07)), (''xmt_reduction_level'', VInt (bitfield b 1 0x07))])),
     (0x10, one_octet (\<lambda>b. [(''psr_polarization'', VStr (if bits b 0x80 then ''circular'' else ''linear'')),
       (''psr_reduction_level'', VInt (bitfield b 4 0x07)), (''psr_stc_map'', VInt (bitfield b 2 0x03))])),
     (0x08, one_octet (\<lambda>b. [(''ssr_reduction_level'', VInt (bitfield b 5 0x07))])),
     (0x04, one_octet (\<lambda>b. [(''mds_reduction_level'', VInt (bitfield b 5 0x07))] @ onlyif (bits b 0x10) [(''mds_cluster_state'', VBool True)]))]"

definition cat34_i000 :: item where
  "cat34_i000 = octet_item (\<lambda>b. [(''msg_type'', case map_of cat34_msg_types b of Some s \<Rightarrow> VStr s | None \<Rightarrow> VInt b)])"

definition cat34_i070 :: item where
  "cat34_i070 = rep_item 2 (\<lambda>data pos. do {
     w \<leftarrow> u16 data pos;
     Some (table_get cat34_count_labels (bitfield w 11 0x1F) (''type'' @ fmt_int (bitfield w 11 0x1F)), VInt (w AND 0x7FF))
   }) (\<lambda>es. onlyif (es \<noteq> []) [(''msg_counts'', VDict (puts [] es))])"

definition cat34_i100 :: item where
  "cat34_i100 = fields_item 8 (\<lambda>data pos. do {
     a \<leftarrow> u16 data pos;
     b \<leftarrow> u16 data (pos + 2);
     s \<leftarrow> u16 data (pos + 4);
     e \<leftarrow> u16 data (pos + 6);
     Some [(''coverage_rho_start_nm'', rnd 3 (of_int a / 256)), (''coverage_rho_end_nm'', rnd 3 (of_int b / 256)),
       (''coverage_az_start_deg'', rnd 2 (of_int s * 360 / 65536)), (''coverage_az_end_deg'', rnd 2 (of_int e * 360 / 65536))]
   })"

definition cat34_i120 :: item where
  "cat34_i120 = fields_item 8 (\<lambda>data pos. do {
     alt \<leftarrow> s16 data pos;
     lat \<leftarrow> s24 data (pos + 2);
     lon \<leftarrow> s24 data (pos + 5);
     Some [(''site_alt_m'', VInt alt), (''site_lat'', rnd 7 (of_int lat * (180 / 2 ^ 23))), (''site_lon'', rnd 7 (of_int lon * (180 / 2 ^ 23)))]
   })"

definition cat34_i090 :: item where
  "cat34_i090 = octets_item (\<lambda>r a. [(''collimation_rng_nm'', rnd 4 (of_int (unpack_b r) / 128)),
     (''collimation_az_deg'', rnd 4 (of_int (unpack_b a) * 360 / 16384))])"

definition cat34_items :: "item list" where
  "cat34_items = [
     sac_sic_item, cat34_i000, tod_item,
     octet_item (\<lambda>b. [(''sector_deg'', rnd 2 (of_int b * 360 / 256))]),
     word_item (\<lambda>w. [(''rotation_s'', rnd 2 (of_int w / 128))]),
     cat34_i050, cat34_i060, cat34_i070, cat34_i100,
     octet_item (\<lambda>b. [(''data_filter'', coded cat34_filters ''type_'' b)]),
     cat34_i120, cat34_i090, skip_item, skip_item]"

subsection \<open>The state of the handler\<close>

record cat34_antenna =
  north_ts :: real
  rotation_s :: real
  antenna_status :: dict

record cat34_state =
  sites :: "string \<Rightarrow> (real \<times> real) option"
  missing_sites :: "string set"
  radar_first_seen :: "string \<Rightarrow> real option"
  sweep :: "string \<Rightarrow> cat34_antenna option"
  sweep_active :: "string set"
  keepalive :: "string \<Rightarrow> dict option"
  keepalive_active :: "string set"
  pos_hist :: "string \<Rightarrow> (real \<times> real \<times> real) option"
  ranges :: "string \<Rightarrow> int option"
  range_sources :: "string \<Rightarrow> string option"

definition cat34_start :: cat34_state where
  "cat34_start = \<lparr> sites = \<lambda>_. None, missing_sites = {}, radar_first_seen = \<lambda>_. None, sweep = \<lambda>_. None, sweep_active = {},
     keepalive = \<lambda>_. None, keepalive_active = {}, pos_hist = \<lambda>_. None, ranges = \<lambda>_. None, range_sources = \<lambda>_. None \<rparr>"

text \<open>What the handler does besides: it publishes, and starts the threads of a radar.\<close>

datatype cat34_effect =
    Publish event
  | Start_Sweep string
  | Start_Keepalive string

subsection \<open>The handler\<close>

definition cat34_int :: "dict \<Rightarrow> string \<Rightarrow> int" where
  "cat34_int d k = (case dget d k of Some (VInt i) \<Rightarrow> i | _ \<Rightarrow> 0)"

definition cat34_float :: "dict \<Rightarrow> string \<Rightarrow> real option" where
  "cat34_float d k = (case dget d k of Some (VFloat x) \<Rightarrow> Some x | _ \<Rightarrow> None)"

definition cat34_key :: "dict \<Rightarrow> string" where
  "cat34_key msg = fmt_int (cat34_int msg ''sac'') @ ''-'' @ fmt_int (cat34_int msg ''sic'')"

definition cat34_topic :: "string \<Rightarrow> string \<Rightarrow> dict \<Rightarrow> string option" where
  "cat34_topic env pre status = do {
     source \<leftarrow> asterix_source status;
     affil \<leftarrow> radar_site_affil env source;
     Some (pre @ ''/land/'' @ source @ ''/radar/'' @ affil @ ''/radar'')
   }"

definition cat34_publish :: "string \<Rightarrow> string \<Rightarrow> dict \<Rightarrow> event option" where
  "cat34_publish env pre status = do { topic \<leftarrow> cat34_topic env pre status; Some (PubDual topic status ''AsterixCat34Status'') }"

text \<open>The advertised range comes first, then the configured one.\<close>

definition cat34_coverage_range_m :: "dict \<Rightarrow> real \<Rightarrow> (int \<times> string) option" where
  "cat34_coverage_range_m msg configured =
     (let advertised_nm = (case cat34_float msg ''coverage_rho_end_nm'' of Some x \<Rightarrow> x | None \<Rightarrow> 0)
      in if advertised_nm > 0 then Some (round_half_even (advertised_nm * 1852), ''advertised'')
         else if configured > 0 then Some (round_half_even configured, ''configured'')
         else None)"

definition cat34_locate :: "dict \<Rightarrow> string \<Rightarrow> cat34_state \<Rightarrow> cat34_state" where
  "cat34_locate msg key s = (case (cat34_float msg ''site_lat'', cat34_float msg ''site_lon'') of
     (Some lat, Some lon) \<Rightarrow> s\<lparr> sites := (sites s)(key := Some (lat, lon)), missing_sites := missing_sites s - {key} \<rparr>
   | _ \<Rightarrow> s)"

definition cat34_active_site :: "(real \<times> real) option \<Rightarrow> string \<Rightarrow> cat34_state \<Rightarrow> (real \<times> real) option" where
  "cat34_active_site default_site key s = (case sites s key of None \<Rightarrow> default_site | Some p \<Rightarrow> Some p)"

definition cat34_set_range :: "(int \<times> string) option \<Rightarrow> string \<Rightarrow> cat34_state \<Rightarrow> cat34_state" where
  "cat34_set_range r key s = (case r of None \<Rightarrow> s
   | Some (m, src) \<Rightarrow> s\<lparr> ranges := (ranges s)(key := Some m), range_sources := (range_sources s)(key := Some src) \<rparr>)"

text \<open>Speed and course between two reports of the site.\<close>

definition cat34_motion :: "(real \<times> real \<times> real) option \<Rightarrow> real \<Rightarrow> real \<Rightarrow> real \<Rightarrow> real option \<times> real option" where
  "cat34_motion prev now lat lon = (case prev of
     None \<Rightarrow> (None, None)
   | Some (t, lat0, lon0) \<Rightarrow> let dt = now - t in
       if 0 < dt \<and> dt < 3600 then
         let dlat = (lat - lat0) * 111320;
             dlon = (lon - lon0) * 111320 * cos (radians lat);
             dist_m = hypot dlat dlon
         in (Some (py_round (dist_m / dt) 2),
             if dist_m > 1 then Some (py_round (float_mod (degrees (atan2 dlon dlat) + 360) 360) 1) else None)
       else (None, None))"

definition cat34_opt :: "string \<Rightarrow> ('a \<Rightarrow> pyval) \<Rightarrow> 'a option \<Rightarrow> dict" where
  "cat34_opt k f r = (case r of None \<Rightarrow> [] | Some x \<Rightarrow> [(k, f x)])"

definition cat34_status ::
  "string \<Rightarrow> bool \<Rightarrow> dict \<Rightarrow> real \<Rightarrow> real \<times> real \<Rightarrow> real \<Rightarrow> int option \<Rightarrow> string option \<Rightarrow> real option \<times> real option \<Rightarrow> dict" where
  "cat34_status radar_name passive msg now site online range_m range_source motion =
     puts [] ([(''_src'', VStr ''ASTERIX CAT-34 Ed.1.29''), (''_ts'', VFloat now), (''sensor_type'', VStr ''radar''),
       (''sensor_id'', VStr (''CAT34-'' @ cat34_key msg)),
       (''sensor_name'', VStr (if radar_name \<noteq> [] then radar_name
          else ''RADAR SAC'' @ fmt_int (cat34_int msg ''sac'') @ ''/SIC'' @ fmt_int (cat34_int msg ''sic''))),
       (''lat_deg'', VFloat (fst site)), (''lon_deg'', VFloat (snd site)), (''online_since'', VFloat online)] @
       onlyif passive [(''passive'', VBool True)] @
       (case range_m of None \<Rightarrow> [] | Some m \<Rightarrow> [(''radar_range_m'', VInt m)] @ cat34_opt ''radar_range_source'' VStr range_source) @
       cat34_opt ''speed_ms'' VFloat (fst motion) @ cat34_opt ''heading_deg'' VFloat (snd motion) @
       map (\<lambda>(k, v). (if k = ''tod_s'' then ''radar_clock_s'' else k, v)) msg)"

text \<open>\<open>rot or existing.get("rotation_s", 4.0)\<close>.\<close>

definition cat34_rotation :: "real option \<Rightarrow> cat34_antenna option \<Rightarrow> real" where
  "cat34_rotation rot existing =
     (if rot \<noteq> None \<and> rot \<noteq> Some 0 then the rot else case existing of None \<Rightarrow> 4 | Some w \<Rightarrow> rotation_s w)"

definition cat34_north ::
  "string \<Rightarrow> string \<Rightarrow> string \<Rightarrow> bool \<Rightarrow> real \<Rightarrow> dict \<Rightarrow> string \<Rightarrow> real \<times> real \<Rightarrow> cat34_state \<Rightarrow> (cat34_state \<times> cat34_effect list) option" where
  "cat34_north env pre radar_name passive now msg key site s = do {
     let online = (case radar_first_seen s key of None \<Rightarrow> now | Some t \<Rightarrow> t);
     let motion = cat34_motion (pos_hist s key) now (fst site) (snd site);
     let status = cat34_status radar_name passive msg now site online (ranges s key) (range_sources s key) motion;
     let antenna = \<lparr> north_ts = now, rotation_s = cat34_rotation (cat34_float msg ''rotation_s'') (sweep s key), antenna_status = status \<rparr>;
     e \<leftarrow> cat34_publish env pre status;
     Some (s\<lparr> radar_first_seen := (radar_first_seen s)(key := Some online),
         pos_hist := (pos_hist s)(key := Some (now, fst site, snd site)),
         sweep := (sweep s)(key := Some antenna), sweep_active := insert key (sweep_active s),
         keepalive := (keepalive s)(key := Some status), keepalive_active := insert key (keepalive_active s) \<rparr>,
       [Publish e] @ onlyif (key \<notin> sweep_active s) [Start_Sweep key] @ onlyif (key \<notin> keepalive_active s) [Start_Keepalive key])
   }"

text \<open>A sector crossing sets the antenna back by the sector's share of a rotation.\<close>

definition cat34_sector :: "real \<Rightarrow> dict \<Rightarrow> string \<Rightarrow> cat34_state \<Rightarrow> cat34_state" where
  "cat34_sector now msg key s =
     (let sector_deg = (case cat34_float msg ''sector_deg'' of None \<Rightarrow> 0 | Some x \<Rightarrow> x)
      in case sweep s key of
           None \<Rightarrow> s
         | Some w \<Rightarrow> if rotation_s w = 0 then s
             else s\<lparr> sweep := (sweep s)(key := Some (w\<lparr> north_ts := now - sector_deg / 360 * rotation_s w \<rparr>)) \<rparr>)"

definition cat34_message ::
  "string \<Rightarrow> string \<Rightarrow> (real \<times> real) option \<Rightarrow> string \<Rightarrow> real \<Rightarrow> bool \<Rightarrow> real \<Rightarrow> dict \<Rightarrow> cat34_state \<Rightarrow> (cat34_state \<times> cat34_effect list) option" where
  "cat34_message env pre default_site radar_name configured passive now msg s =
     (let key = cat34_key msg; s = cat34_locate msg key s
      in case cat34_active_site default_site key s of
           None \<Rightarrow> Some (s\<lparr> missing_sites := insert key (missing_sites s) \<rparr>, [])
         | Some site \<Rightarrow>
             let s = cat34_set_range (cat34_coverage_range_m msg configured) key s
             in if dget msg ''msg_type'' = Some (VStr ''north_marker'') then cat34_north env pre radar_name passive now msg key site s
                else if dget msg ''msg_type'' = Some (VStr ''sector_crossing'') then Some (cat34_sector now msg key s, [])
                else Some (s, []))"

definition cat34_handler ::
  "string \<Rightarrow> string \<Rightarrow> (real \<times> real) option \<Rightarrow> string \<Rightarrow> real \<Rightarrow> bool \<Rightarrow> real \<Rightarrow> bytes \<Rightarrow> cat34_state \<Rightarrow> (cat34_state \<times> cat34_effect list) option" where
  "cat34_handler env pre default_site radar_name configured passive now data s = do {
     msg \<leftarrow> decode_message cat34_items data;
     (case msg of
        None \<Rightarrow> Some (s, [])
      | Some msg \<Rightarrow> cat34_message env pre default_site radar_name configured passive now msg s)
   }"

subsection \<open>The threads\<close>

datatype thread_step =
    Thread_Ends
  | Thread_Goes "event list"

definition cat34_keepalive_tick :: "string \<Rightarrow> string \<Rightarrow> real \<Rightarrow> string \<Rightarrow> cat34_state \<Rightarrow> thread_step option" where
  "cat34_keepalive_tick env pre now key s = (case keepalive s key of
     None \<Rightarrow> Some Thread_Ends
   | Some status \<Rightarrow> do { e \<leftarrow> cat34_publish env pre (puts status [(''_ts'', VFloat now)]); Some (Thread_Goes [e]) })"

text \<open>The azimuth of the antenna, in degrees.\<close>

definition cat34_azimuth :: "real \<Rightarrow> cat34_antenna \<Rightarrow> real" where
  "cat34_azimuth now w = float_mod ((now - north_ts w) / rotation_s w * 360) 360"

text \<open>One round of the sweep thread; the clock is read three times.\<close>

definition cat34_sweep_tick :: "string \<Rightarrow> string \<Rightarrow> real \<times> real \<times> real \<Rightarrow> string \<Rightarrow> cat34_state \<Rightarrow> thread_step option" where
  "cat34_sweep_tick env pre clock key s = (case (clock, sweep s key) of
     (_, None) \<Rightarrow> Some Thread_Ends
   | ((t1, t2, t3), Some w) \<Rightarrow>
       if rotation_s w = 0 then Some (Thread_Goes [])
       else if t1 - north_ts w > rotation_s w * 3 then Some (Thread_Goes [])
       else do {
         e \<leftarrow> cat34_publish env pre (puts (antenna_status w) [(''sweep_azimuth_deg'', rnd 1 (cat34_azimuth t2 w)), (''_ts'', VFloat t3)]);
         Some (Thread_Goes [e])
       })"

subsection \<open>Radars keep apart\<close>

text \<open>What the handler knows of one radar.\<close>

definition radar_view :: "string \<Rightarrow> cat34_state \<Rightarrow>
    (real \<times> real) option \<times> real option \<times> cat34_antenna option \<times> dict option \<times> (real \<times> real \<times> real) option \<times> int option \<times> string option" where
  "radar_view key s = (sites s key, radar_first_seen s key, sweep s key, keepalive s key, pos_hist s key, ranges s key, range_sources s key)"

named_theorems view_simps

lemma view_locate [view_simps]: "key \<noteq> k \<Longrightarrow> radar_view key (cat34_locate msg k s) = radar_view key s"
  by (simp add: cat34_locate_def radar_view_def split: option.split)

lemma view_set_range [view_simps]: "key \<noteq> k \<Longrightarrow> radar_view key (cat34_set_range r k s) = radar_view key s"
  by (simp add: cat34_set_range_def radar_view_def split: option.split prod.split)

lemma view_sector [view_simps]: "key \<noteq> k \<Longrightarrow> radar_view key (cat34_sector now msg k s) = radar_view key s"
  by (simp add: cat34_sector_def radar_view_def Let_def split: option.split)

lemma view_missing [view_simps]: "radar_view key (s\<lparr> missing_sites := m \<rparr>) = radar_view key s"
  by (simp add: radar_view_def)

lemma view_north: "cat34_north env pre n p now msg k site s = Some (s', es) \<Longrightarrow> key \<noteq> k \<Longrightarrow> radar_view key s' = radar_view key s"
  by (auto simp: cat34_north_def radar_view_def Let_def split: Option.bind_splits)

lemma view_message:
  "cat34_message env pre site n c p now msg s = Some (s', es) \<Longrightarrow> key \<noteq> cat34_key msg \<Longrightarrow> radar_view key s' = radar_view key s"
  by (auto simp: cat34_message_def Let_def view_simps dest: view_north split: option.splits if_splits)

text \<open>
  C28: A message of one radar head leaves what the handler knows of every other head as it was: its site, its antenna,
  its status, its range. One feed may carry several radars.
\<close>

theorem radars_keep_apart:
  assumes "decode_message cat34_items data = Some (Some msg)" "key \<noteq> cat34_key msg"
    and "cat34_handler env pre site radar_name configured passive now data s = Some (s', effects)"
  shows "radar_view key s' = radar_view key s"
  using assms view_message [OF _ assms(2)] by (simp add: cat34_handler_def)

subsection \<open>Threads\<close>

definition threads_match :: "cat34_state \<Rightarrow> cat34_effect list \<Rightarrow> bool" where
  "threads_match s tr \<longleftrightarrow> (\<forall>key.
     (key \<in> sweep_active s \<longleftrightarrow> sweep s key \<noteq> None) \<and> (key \<in> keepalive_active s \<longleftrightarrow> keepalive s key \<noteq> None) \<and>
     count_list tr (Start_Sweep key) = (if sweep s key = None then 0 else 1) \<and>
     count_list tr (Start_Keepalive key) = (if keepalive s key = None then 0 else 1))"

lemma match_locate: "threads_match (cat34_locate msg k s) tr = threads_match s tr"
  by (simp add: cat34_locate_def threads_match_def split: option.split)

lemma match_set_range: "threads_match (cat34_set_range r k s) tr = threads_match s tr"
  by (simp add: cat34_set_range_def threads_match_def split: option.split prod.split)

lemma match_sector: "threads_match s tr \<Longrightarrow> threads_match (cat34_sector now msg k s) tr"
  by (auto simp: cat34_sector_def threads_match_def Let_def split: option.split)

lemma match_missing: "threads_match (s\<lparr> missing_sites := m \<rparr>) tr = threads_match s tr"
  by (simp add: threads_match_def)

lemma north_fields:
  assumes "cat34_north env pre n p now msg k site s = Some (s', es)"
  obtains antenna status e where "sweep s' = (sweep s)(k := Some antenna)" "sweep_active s' = insert k (sweep_active s)"
    "keepalive s' = (keepalive s)(k := Some status)" "keepalive_active s' = insert k (keepalive_active s)"
    "es = [Publish e] @ onlyif (k \<notin> sweep_active s) [Start_Sweep k] @ onlyif (k \<notin> keepalive_active s) [Start_Keepalive k]"
  using assms by (auto simp: cat34_north_def Let_def split: Option.bind_splits)

lemma match_north:
  "threads_match s tr \<Longrightarrow> cat34_north env pre n p now msg k site s = Some (s', es) \<Longrightarrow> threads_match s' (tr @ es)"
proof -
  assume m: "threads_match s tr" and "cat34_north env pre n p now msg k site s = Some (s', es)"
  from this(2) obtain antenna status e where n: "sweep s' = (sweep s)(k := Some antenna)" "sweep_active s' = insert k (sweep_active s)"
    "keepalive s' = (keepalive s)(k := Some status)" "keepalive_active s' = insert k (keepalive_active s)"
    "es = [Publish e] @ onlyif (k \<notin> sweep_active s) [Start_Sweep k] @ onlyif (k \<notin> keepalive_active s) [Start_Keepalive k]"
    by (rule north_fields)
  show ?thesis unfolding threads_match_def
  proof
    fix key
    show "(key \<in> sweep_active s' \<longleftrightarrow> sweep s' key \<noteq> None) \<and> (key \<in> keepalive_active s' \<longleftrightarrow> keepalive s' key \<noteq> None) \<and>
      count_list (tr @ es) (Start_Sweep key) = (if sweep s' key = None then 0 else 1) \<and>
      count_list (tr @ es) (Start_Keepalive key) = (if keepalive s' key = None then 0 else 1)"
      using m [unfolded threads_match_def, rule_format, of key] by (cases "key = k") (simp_all add: n onlyif_def)
  qed
qed

lemma match_message:
  "threads_match s tr \<Longrightarrow> cat34_message env pre site n c p now msg s = Some (s', es) \<Longrightarrow> threads_match s' (tr @ es)"
  by (auto simp: cat34_message_def Let_def match_locate match_set_range match_missing intro: match_sector match_north [rotated]
      split: option.splits if_splits)

lemma match_handler:
  "threads_match s tr \<Longrightarrow> cat34_handler env pre site n c p now data s = Some (s', es) \<Longrightarrow> threads_match s' (tr @ es)"
  by (auto simp: cat34_handler_def intro: match_message split: Option.bind_splits option.splits)

text \<open>The messages of a feed, one after another, and what the handler has done with them.\<close>

inductive cat34_trace ::
  "string \<Rightarrow> string \<Rightarrow> (real \<times> real) option \<Rightarrow> string \<Rightarrow> real \<Rightarrow> bool \<Rightarrow> cat34_state \<Rightarrow> cat34_effect list \<Rightarrow> bool"
  for env pre site radar_name configured "passive" where
  trace_start: "cat34_trace env pre site radar_name configured passive cat34_start []"
| trace_message: "cat34_trace env pre site radar_name configured passive s tr \<Longrightarrow>
    cat34_handler env pre site radar_name configured passive now data s = Some (s', es) \<Longrightarrow>
    cat34_trace env pre site radar_name configured passive s' (tr @ es)"

lemma trace_matches: "cat34_trace env pre site n c p s tr \<Longrightarrow> threads_match s tr"
proof (induction rule: cat34_trace.induct)
  case trace_start
  show ?case by (simp add: threads_match_def cat34_start_def)
qed (rule match_handler)

lemma tick_ends: "cat34_sweep_tick env pre t key s = Some Thread_Ends \<longleftrightarrow> sweep s key = None"
  by (cases t) (auto simp: cat34_sweep_tick_def split: option.splits Option.bind_splits)


subsection \<open>The antenna\<close>

lemma azimuth_after_sector:
  "rotation_s w \<noteq> 0 \<Longrightarrow> cat34_azimuth t (w\<lparr> north_ts := now - sector / 360 * rotation_s w \<rparr>) =
    float_mod (sector + (t - now) / rotation_s w * 360) 360"
proof -
  assume "rotation_s w \<noteq> 0"
  then have "(t - (now - sector / 360 * rotation_s w)) / rotation_s w * 360 = sector + (t - now) / rotation_s w * 360"
    by (simp add: field_simps)
  then show ?thesis by (simp add: cat34_azimuth_def)
qed

lemma sector_message:
  "decode_message cat34_items [0xD0, a, b, 2, c] = Some (Some [(''sac'', VInt (uint a)), (''sic'', VInt (uint b)),
     (''msg_type'', VStr ''sector_crossing''), (''sector_deg'', rnd 2 (of_int (uint c) * 360 / 256))])"
proof -
  have f: "parse_fspec [0xD0, a, b, 2, c] 0 = Some ([True, True, False, True, False, False, False], 1)"
    by (simp add: parse_fspec_def parse_fspec_loop.simps byte_at_def fspec_octet_def bits_def)
  show ?thesis
    unfolding decode_message_def f
    by (simp add: dispatch_def cat34_items_def sac_sic_item_def pair_item_def cat34_i000_def cat34_msg_types_def octet_item_def
        fields_item_def or_break_def byte_at_def numeral_eq_Suc)
qed

text \<open>
  A sector crossing puts the antenna of its radar at the sector's azimuth: from then on the beam is shown at the
  sector plus the share of a rotation that has passed since.
\<close>

theorem sector_crossing_resyncs:
  assumes "key = fmt_int (uint a) @ ''-'' @ fmt_int (uint b)"
    and "sweep s key = Some w" "rotation_s w \<noteq> 0" "cat34_active_site site key s = Some position"
  shows "\<exists>s' w'. cat34_handler env pre site radar_name configured passive now [0xD0, a, b, 2, c] s = Some (s', []) \<and>
    sweep s' key = Some w' \<and> rotation_s w' = rotation_s w \<and>
    (\<forall>t. cat34_azimuth t w' = float_mod (py_round (of_int (uint c) * 360 / 256) 2 + (t - now) / rotation_s w * 360) 360)"
proof -
  define x where "x = py_round (of_int (uint c) * 360 / 256) 2"
  let ?w = "w\<lparr> north_ts := now - x / 360 * rotation_s w \<rparr>"
  define msg where "msg = [(''sac'', VInt (uint a)), (''sic'', VInt (uint b)), (''msg_type'', VStr ''sector_crossing''), (''sector_deg'', VFloat x)]"
  have d: "decode_message cat34_items [0xD0, a, b, 2, c] = Some (Some msg)"
    by (rule trans [OF sector_message]) (simp only: msg_def x_def rnd_def)
  have k: "cat34_key msg = key" by (simp add: assms(1) cat34_key_def cat34_int_def dget_def msg_def)
  have l: "cat34_locate msg key s = s" by (simp add: cat34_locate_def cat34_float_def dget_def msg_def)
  have m: "dget msg ''msg_type'' = Some (VStr ''sector_crossing'')" "cat34_float msg ''sector_deg'' = Some x"
    by (simp_all add: msg_def dget_def cat34_float_def)
  have r: "sweep (cat34_set_range r key s) = sweep s" for r by (simp add: cat34_set_range_def split: option.split prod.split)
  have "cat34_handler env pre site radar_name configured passive now [0xD0, a, b, 2, c] s =
      Some (cat34_sector now msg key (cat34_set_range (cat34_coverage_range_m msg configured) key s), [])"
    using assms(4) by (simp add: cat34_handler_def d cat34_message_def k l m Let_def)
  moreover have "sweep (cat34_sector now msg key (cat34_set_range (cat34_coverage_range_m msg configured) key s)) key = Some ?w"
    using assms(2,3) by (simp add: cat34_sector_def r m Let_def)
  ultimately show ?thesis unfolding x_def [symmetric] using azimuth_after_sector [OF assms(3)]
    by (intro exI [of _ ?w] exI conjI allI) auto
qed

text \<open>The three at concrete messages: a sector crossing of the radar 1/2, its north marker, and a sector crossing behind it.\<close>

theorem radars_keep_apart_witness:
  "\<exists>s'. cat34_handler [] ''pod'' (Some (55, 25)) ''R'' 1000 False 0 [0xD0, 1, 2, 2, 64] cat34_start = Some (s', []) \<and>
    ranges s' ''1-2'' = Some 1000 \<and> radar_view ''3-4'' s' = radar_view ''3-4'' cat34_start"
proof -
  define msg where "msg = [(''sac'', VInt 1), (''sic'', VInt 2), (''msg_type'', VStr ''sector_crossing''), (''sector_deg'', rnd 2 (64 * 360 / 256))]"
  have d: "decode_message cat34_items [0xD0, 1, 2, 2, 64] = Some (Some msg)"
    using sector_message [of 1 2 64] by (simp add: msg_def)
  have k: "cat34_key msg = ''1-2''" by (simp add: msg_def cat34_key_def cat34_int_def dget_def) code_simp
  define s' where "s' = cat34_set_range (Some (1000, ''configured'')) ''1-2'' cat34_start"
  have "cat34_coverage_range_m msg 1000 = Some (1000, ''configured'')"
    using round_half_even_int [of 1000] by (simp add: cat34_coverage_range_m_def msg_def cat34_float_def dget_def)
  then have h: "cat34_handler [] ''pod'' (Some (55, 25)) ''R'' 1000 False 0 [0xD0, 1, 2, 2, 64] cat34_start = Some (s', [])"
    by (simp add: cat34_handler_def d cat34_message_def k s'_def Let_def)
      (simp add: msg_def cat34_locate_def cat34_active_site_def cat34_start_def cat34_sector_def cat34_set_range_def cat34_float_def dget_def)
  moreover have "radar_view ''3-4'' s' = radar_view ''3-4'' cat34_start"
    by (rule radars_keep_apart [OF d _ h]) (simp add: k)
  ultimately show ?thesis by (simp add: s'_def cat34_set_range_def)
qed

theorem sector_crossing_resyncs_witness:
  "\<exists>s' w'. cat34_handler [] ''pod'' (Some (55, 25)) ''R'' 0 False 100 [0xD0, 1, 2, 2, 64]
      (cat34_start\<lparr> sweep := (\<lambda>_. Some \<lparr> north_ts = 98, rotation_s = 4, antenna_status = [] \<rparr>) \<rparr>) = Some (s', []) \<and>
    sweep s' ''1-2'' = Some w' \<and> rotation_s w' = 4"
proof -
  have k: "''1-2'' = fmt_int (uint (1 :: byte)) @ ''-'' @ fmt_int (uint (2 :: byte))" by simp code_simp
  show ?thesis
    using sector_crossing_resyncs [OF k, of "cat34_start\<lparr> sweep := (\<lambda>_. Some \<lparr> north_ts = 98, rotation_s = 4, antenna_status = [] \<rparr>) \<rparr>"
        "\<lparr> north_ts = 98, rotation_s = 4, antenna_status = [] \<rparr>" "Some (55, 25)" "(55, 25)" "[]" "''pod''" "''R''" 0 False 100 64]
    by (simp add: cat34_active_site_def cat34_start_def) blast
qed


end
