(* ===== verification/Asterix_Services.thy ===== *)
theory Asterix_Services
  imports Asterix_Sensors Asterix_Plans Asterix_Monoradar Asterix_Weather Asterix_Cat004 Asterix_Cat007 Asterix_Cat034
begin

text \<open>What the translators of messages promise together.\<close>

text \<open>The translators whose handler has no state, by their category.\<close>

definition translator :: "real option \<times> real option \<Rightarrow> string \<Rightarrow> nat \<Rightarrow> (real \<Rightarrow> bytes \<Rightarrow> event list option) option" where
  "translator site pre category = map_of [
     (1, cat1_handler (fst site) (snd site) pre), (2, cat2_handler pre), (8, cat8_handler pre), (9, cat9_handler pre),
     (16, cat16_handler pre), (19, cat19_handler pre), (23, cat23_handler pre), (25, cat25_handler pre), (32, cat32_handler pre),
     (63, cat63_handler pre), (65, cat65_handler pre), (150, cat150_handler pre), (240, cat240_handler pre), (247, cat247_handler pre)]
     category"

definition translator_topic :: "string \<Rightarrow> nat \<Rightarrow> string \<Rightarrow> string" where
  "translator_topic pre category =
     (if category = 1 then air_topic pre ''/radar/unknown/aircraft''
      else if category = 19 then sensor_topic pre ''/mlat/neutral/sensor''
      else if category = 23 then sensor_topic pre ''/cns_atm/neutral/sensor''
      else if category = 32 then air_topic pre ''/fpps/civ/miniplan''
      else if category = 150 then air_topic pre ''/madap/civ/flightplan''
      else if category = 240 then sensor_topic pre ''/radar/neutral/video''
      else sensor_topic pre ''/radar/neutral/sensor'')"

lemmas handler_defs = cat2_handler_def cat8_handler_def cat9_handler_def cat16_handler_def cat19_handler_def cat23_handler_def
  cat25_handler_def cat63_handler_def cat65_handler_def cat240_handler_def cat247_handler_def

lemmas handlers_serve = cat1_serves cat32_serves cat150_serves cat2.handler_serves cat8.handler_serves cat9.handler_serves
  cat16.handler_serves cat19.handler_serves cat23.handler_serves cat25.handler_serves cat63.handler_serves cat65.handler_serves
  cat240.handler_serves cat247.handler_serves

text \<open>
  C26: The translators of fourteen categories accept any octets: whatever a block holds, and however it is cut, its
  handler does not raise, and publishes nothing or one message, under the key of a sensor whose two codes are octets.
\<close>

theorem message_translators_total:
  assumes "translator site pre category = Some handler"
  shows "serves (translator_topic pre category) (handler now data)"
proof -
  have "category \<in> {1, 2, 8, 9, 16, 19, 23, 25, 32, 63, 65, 150, 240, 247}"
    using assms by (auto simp: translator_def split: if_splits)
  then show ?thesis
    using assms by (elim insertE emptyE; clarsimp simp: translator_def translator_topic_def handler_defs handlers_serve)
qed

theorem message_translators_total_witness:
  "serves (sensor_topic ''pod'' ''/radar/neutral/sensor'') (cat2_handler ''pod'' 0 [0xFF, 0xFF, 3])"
  using message_translators_total [of "(None, None)" "''pod''" 2 "cat2_handler ''pod''" 0 "[0xFF, 0xFF, 3]"]
  by (simp add: translator_def translator_topic_def)

end
