(* ===== verification/Asterix_Records.thy ===== *)
theory Asterix_Records
  imports Asterix_Monoradar
begin

text \<open>
  CAT-017, CAT-018 and CAT-205, whose blocks hold records: a truncated item ends its record, and with it the block.
  Their handlers forward a record as a track and as it was received.
\<close>

subsection \<open>Items of records\<close>

definition record_item :: "nat \<Rightarrow> (bytes \<Rightarrow> nat \<Rightarrow> dict option) \<Rightarrow> item" where
  "record_item k f data d pos = need k data d pos (do { kvs \<leftarrow> f data pos; Some (Next (puts d kvs, pos + k)) })"

definition record_octet :: "(int \<Rightarrow> dict) \<Rightarrow> item" where
  "record_octet f = record_item 1 (\<lambda>data pos. do { b \<leftarrow> byte_at data pos; Some (f b) })"

definition record_octets :: "(int \<Rightarrow> int \<Rightarrow> dict) \<Rightarrow> item" where
  "record_octets f = record_item 2 (\<lambda>data pos. do { a \<leftarrow> byte_at data pos; b \<leftarrow> byte_at data (pos + 1); Some (f a b) })"

definition record_word :: "(int \<Rightarrow> dict) \<Rightarrow> item" where
  "record_word f = record_item 2 (\<lambda>data pos. do { w \<leftarrow> u16 data pos; Some (f w) })"

definition record_int16 :: "(int \<Rightarrow> dict) \<Rightarrow> item" where
  "record_int16 f = record_item 2 (\<lambda>data pos. do { w \<leftarrow> s16 data pos; Some (f w) })"

definition record_pair :: "string \<Rightarrow> string \<Rightarrow> item" where
  "record_pair j k = record_octets (\<lambda>a b. [(j, VInt a), (k, VInt b)])"

definition record_tod :: item where
  "record_tod = record_item 3 (\<lambda>data pos. do { raw \<leftarrow> u24 data pos; Some [(''tod_s'', VFloat (of_int raw / 128))] })"

definition record_hex :: "string \<Rightarrow> nat \<Rightarrow> item" where
  "record_hex key k = record_item k (\<lambda>data pos. Some [(key, VStr (hex_bytes (py_slice data pos (pos + k))))])"

definition record_icao24 :: item where
  "record_icao24 = record_hex ''icao24'' 3"

definition record_callsign :: "nat \<Rightarrow> item" where
  "record_callsign skip = record_item (skip + 6) (\<lambda>data pos.
     Some (unless_blank ''callsign'' (decode_callsign (py_slice data (pos + skip) (pos + skip + 6)))))"

text \<open>A count and entries: a truncated entry ends the list.\<close>

definition record_list :: "string \<Rightarrow> nat \<Rightarrow> (bytes \<Rightarrow> nat \<Rightarrow> pyval option) \<Rightarrow> item" where
  "record_list key k f data d pos = need 1 data d pos (do {
     rep \<leftarrow> byte_at data pos;
     (es, pos) \<leftarrow> rep_entries k (nat rep) f data (pos + 1);
     Some (Next (puts d (unless_Nil key es), pos))
   })"

text \<open>Octets with an extension bit: one that is missing ends the record.\<close>

definition fx_record :: "(int \<Rightarrow> dict) \<Rightarrow> (int \<Rightarrow> dict) \<Rightarrow> item" where
  "fx_record f g data d pos = need 1 data d pos (do {
     b \<leftarrow> byte_at data pos;
     extents (\<lambda>_ b d. puts d (g b)) 0 b data (puts d (f b)) (pos + 1)
   })"

text \<open>A field reference number that the table does not know ends the record.\<close>

definition record_end :: item where
  "record_end data d pos = Some (Return (d, length data))"

definition dispatch_or_end :: "item list \<Rightarrow> bytes \<Rightarrow> nat \<Rightarrow> dict \<Rightarrow> nat \<Rightarrow> flow option" where
  "dispatch_or_end items data frn d pos = (if frn < length items then (items ! frn) data d pos else record_end data d pos)"

subsection \<open>What they promise\<close>

lemma record_item_moves:
  assumes "\<And>data p. p + k \<le> length data \<Longrightarrow> out_typed (f data p)"
  shows "item_moves (record_item k f)"
proof -
  have "moves p (length data) (record_item k f data d p)" if "wf_track d" "p \<le> length data" for data d p
  proof (cases "p + k \<le> length data")
    case True
    with assms [of p data] obtain e where "f data p = Some e" "typed e"
      by (auto simp: out_typed_def split: option.splits)
    with True that show ?thesis by (simp add: record_item_def flow_simps)
  qed (use that in \<open>simp add: record_item_def flow_simps\<close>)
  then show ?thesis by (simp add: item_moves_def)
qed

lemma record_octet_moves [item_ok]: "(\<And>b. 0 \<le> b \<Longrightarrow> b \<le> 255 \<Longrightarrow> typed (f b)) \<Longrightarrow> item_moves (record_octet f)"
  unfolding record_octet_def by (rule record_item_moves) (use byte_range in \<open>auto simp: byte_simps flow_simps\<close>)

lemma record_octets_moves [item_ok]:
  "(\<And>a b. 0 \<le> a \<Longrightarrow> a \<le> 255 \<Longrightarrow> 0 \<le> b \<Longrightarrow> b \<le> 255 \<Longrightarrow> typed (f a b)) \<Longrightarrow> item_moves (record_octets f)"
  unfolding record_octets_def by (rule record_item_moves) (use byte_range in \<open>auto simp: byte_simps flow_simps\<close>)

lemma record_word_moves [item_ok]: "(\<And>w. 0 \<le> w \<Longrightarrow> w \<le> 65535 \<Longrightarrow> typed (f w)) \<Longrightarrow> item_moves (record_word f)"
  unfolding record_word_def by (rule record_item_moves) (simp add: byte_simps flow_simps)

lemma record_int16_moves [item_ok]: "(\<And>w. typed (f w)) \<Longrightarrow> item_moves (record_int16 f)"
  unfolding record_int16_def by (rule record_item_moves) (simp add: byte_simps flow_simps)

lemma record_pair_moves [item_ok]:
  "{j, k} \<inter> set [''track_num'', ''squawk'', ''icao24'', ''warning_error_names''] = {} \<Longrightarrow> item_moves (record_pair j k)"
proof -
  assume "{j, k} \<inter> set [''track_num'', ''squawk'', ''icao24'', ''warning_error_names''] = {}"
  then have "field_ok i (VInt x)" if "i \<in> {j, k}" "0 \<le> x" "x \<le> 255" for i x
    using that by (auto simp: field_ok_def)
  then show ?thesis unfolding record_pair_def by (intro record_octets_moves) (simp add: flow_simps)
qed

lemma record_u24:
  assumes "\<And>v. 0 \<le> v \<Longrightarrow> v < 16777216 \<Longrightarrow> typed (f v)"
  shows "item_moves (record_item 3 (\<lambda>data pos. do { raw \<leftarrow> u24 data pos; Some (f raw) }))"
proof (rule record_item_moves)
  fix data :: bytes and p
  assume "p + 3 \<le> length data"
  then obtain v where "u24 data p = Some v" "0 \<le> v" "v < 2 ^ 24" by (rule u24_in_range)
  with assms show "out_typed (do { raw \<leftarrow> u24 data p; Some (f raw) })" by (simp add: flow_simps)
qed

lemma record_tod_moves [item_ok]: "item_moves record_tod"
  unfolding record_tod_def by (rule record_u24) (simp add: flow_simps)

lemma record_icao24_moves [item_ok]: "item_moves record_icao24"
  unfolding record_icao24_def record_hex_def by (rule record_item_moves) (simp add: flow_simps)

lemma record_hex_moves [item_ok]: "key \<notin> set typed_keys \<Longrightarrow> item_moves (record_hex key k)"
  unfolding record_hex_def by (rule record_item_moves) (simp add: flow_simps)

lemma record_callsign_moves [item_ok]: "item_moves (record_callsign k)"
  unfolding record_callsign_def by (rule record_item_moves) (simp add: flow_simps)

lemma record_list_moves [item_ok]:
  assumes "\<And>data p. p + k \<le> length data \<Longrightarrow> f data p \<noteq> None" and "key \<notin> set typed_keys"
  shows "item_moves (record_list key k f)"
proof -
  have "moves p (length data) (record_list key k f data d p)" if "wf_track d" "p \<le> length data" for data d p
  proof (cases "p + 1 \<le> length data")
    case True
    define n where "n = nat (uint (data ! p))"
    from rep_entries_goes [of k f "p + 1" data n, OF assms(1) True] obtain es q where
      "rep_entries k n f data (p + 1) = Some (es, q)" "p + 1 \<le> q" "q \<le> length data" by blast
    with True that assms(2) show ?thesis by (simp add: record_list_def flow_simps byte_simps n_def)
  qed (use that in \<open>simp add: record_list_def flow_simps\<close>)
  then show ?thesis by (simp add: item_moves_def)
qed

lemma fx_record_moves [item_ok]: "(\<And>b. typed (f b)) \<Longrightarrow> (\<And>b. typed (g b)) \<Longrightarrow> item_moves (fx_record f g)"
proof -
  assume t: "\<And>b. typed (f b)" "\<And>b. typed (g b)"
  have "moves p (length data) (fx_record f g data d p)" if "wf_track d" "p \<le> length data" for data d p
    using that t by (auto simp: fx_record_def flow_simps byte_simps intro!: extents_moves)
  then show ?thesis by (simp add: item_moves_def)
qed

lemma spare_item_moves [item_ok]: "item_moves spare_item"
  by (simp add: item_moves_def spare_item_def flow_simps)

lemma dispatch_or_end_moves:
  "list_all item_moves items \<Longrightarrow> wf_track d \<Longrightarrow> p \<le> length data \<Longrightarrow> moves p (length data) (dispatch_or_end items data frn d p)"
  by (simp add: dispatch_or_end_def record_end_def item_moves_def list_all_length flow_simps)

subsection \<open>Forwarding records\<close>

text \<open>A record as a track, under a topic that may depend on it, and as it was received.\<close>

definition forward ::
  "(pyval \<Rightarrow> string) \<Rightarrow> (dict \<Rightarrow> string \<Rightarrow> string) \<Rightarrow> string \<Rightarrow> int \<Rightarrow> string \<Rightarrow> dict \<Rightarrow> bytes \<Rightarrow> event list option" where
  "forward rp topic message category profile track raw = do {
     source \<leftarrow> asterix_source track;
     native \<leftarrow> native_event rp (topic track source) track category raw profile;
     Some [PubDual (topic track source) track message, native]
   }"

definition has_position :: "dict \<Rightarrow> bool" where
  "has_position track \<longleftrightarrow> has_key ''lat_deg'' track \<and> has_key ''lon_deg'' track"

definition forward_placed ::
  "(pyval \<Rightarrow> string) \<Rightarrow> (dict \<Rightarrow> string \<Rightarrow> string) \<Rightarrow> string \<Rightarrow> int \<Rightarrow> string \<Rightarrow> dict \<Rightarrow> bytes \<Rightarrow> event list option" where
  "forward_placed rp topic message category profile track raw =
     (if \<not> has_position track then Some [] else forward rp topic message category profile track raw)"

lemma forward_native:
  assumes "wf_track t" and "asterix_data_block c r = Inr blk"
  shows "\<exists>es. forward rp topic message c profile t r = Some es \<and> natives es = [blk]"
proof -
  obtain x y where "asterix_source t = Some (fmt_0d 3 x @ ''-'' @ fmt_0d 3 y)" by (rule wf_source [OF assms(1)])
  with assms(2) show ?thesis by (simp add: forward_def native_event_def)
qed

lemma forward_placed_native:
  "wf_track t \<Longrightarrow> asterix_data_block c r = Inr blk \<Longrightarrow>
    \<exists>es. forward_placed rp topic message c profile t r = Some es \<and> natives es = (if has_position t then [blk] else [])"
  using forward_native by (simp add: forward_placed_def)

text \<open>
  The contract of a handler that forwards the records it keeps: its native messages are their blocks, in order.
\<close>

locale record_category = record_decoder decode
  for decode :: "bytes \<Rightarrow> nat \<Rightarrow> dstate option" +
  fixes publish :: "dict \<Rightarrow> bytes \<Rightarrow> event list option" and category :: int and keep :: "dict \<Rightarrow> bool"
  assumes category_range: "0 \<le> category" "category \<le> 255"
    and publish_native: "wf_track t \<Longrightarrow> asterix_data_block category r = Inr blk \<Longrightarrow>
      \<exists>es. publish t r = Some es \<and> natives es = (if keep t then [blk] else [])"
begin

lemma handler_forwards:
  assumes "length data \<le> 65532"
  shows "\<exists>rs es. decode_records decode data 0 = Some rs \<and> handle_records publish rs = Some es \<and>
    concat (map snd rs) = data \<and> list_all (is_block category) (natives es) \<and>
    concat (map (drop 3) (natives es)) = concat (map snd (filter (\<lambda>(t, r). keep t) rs))"
proof -
  obtain rs where rs: "decode_records decode data 0 = Some rs" "concat (map snd rs) = data"
    "list_all (\<lambda>(t, r). wf_track t \<and> r \<noteq> []) rs" using records_partition [of 0 data] by auto
  from records_fit [OF rs(2,3) assms] obtain es where
    es: "handle_records publish rs = Some es"
    "list_all2 (\<lambda>blk r. asterix_data_block category r = Inr blk) (natives es) (map snd (filter (\<lambda>(t, r). keep t) rs))"
    using handle_records_kept [of rs category publish keep] category_range publish_native by auto
  from blocks_payload [OF es(2)] rs es(1) show ?thesis by auto
qed

end

subsection \<open>CAT-017\<close>

definition cat17_msg_types :: "(int \<times> string) list" where
  "cat17_msg_types = [(0, ''network_information''), (10, ''track_data''), (20, ''track_data_request''), (21, ''track_data_stop''),
     (22, ''cancel_track_data_request''), (23, ''track_data_stop_ack''), (30, ''new_node_changeover_initial''),
     (31, ''new_node_changeover_final''), (32, ''new_node_changeover_initial_reply''), (33, ''new_node_changeover_final_reply''),
     (110, ''move_node_new_cluster_state''), (111, ''move_node_new_cluster_state_ack'')]"

definition cat17_ca :: "(int \<times> string) list" where
  "cat17_ca = [(0, ''surveillance_only''), (4, ''comm_ab_ground''), (5, ''comm_ab_airborne''), (6, ''comm_ab_airborne_or_ground''),
     (7, ''dr_or_fs_set'')]"

definition cat17_i350 :: item where
  "cat17_i350 = record_list ''cluster_nodes'' 2 (\<lambda>data pos. do {
     a \<leftarrow> byte_at data pos;
     b \<leftarrow> byte_at data (pos + 1);
     Some (VDict [(''sac'', VInt a), (''sic'', VInt b)])
   })"

definition cat17_i045 :: item where
  "cat17_i045 = record_item 6 (\<lambda>data pos. do {
     lat \<leftarrow> s24 data pos;
     lon \<leftarrow> s24 data (pos + 3);
     Some [(''lat_deg'', rnd 6 (of_int lat * (180 / 2 ^ 25))), (''lon_deg'', rnd 6 (of_int lon * (180 / 2 ^ 25)))]
   })"

definition cat17_i070 :: item where
  "cat17_i070 = record_word (\<lambda>w. onlyif (bits w 0x8000) [(''squawk_not_validated'', VBool True)] @
     onlyif (bits w 0x4000) [(''squawk_garbled'', VBool True)] @ onlyif (bits w 0x2000) [(''squawk_smoothed'', VBool True)] @
     [(''squawk'', VStr (fmt_pad 8 4 (w AND 0x0FFF)))])"

definition cat17_i050 :: item where
  "cat17_i050 = record_word (\<lambda>w. onlyif (bits w 0x8000) [(''flight_level_not_validated'', VBool True)] @
     onlyif (bits w 0x4000) [(''flight_level_garbled'', VBool True)] @
     [(''flight_level'', rnd 2 (of_int (w AND 0x3FFF) * 0.25))])"

definition cat17_i200 :: item where
  "cat17_i200 = record_item 4 (\<lambda>data pos. do {
     g \<leftarrow> u16 data pos;
     h \<leftarrow> u16 data (pos + 2);
     Some [(''ground_speed_kt'', rnd 2 (of_int g / 16384 * 3600)), (''heading_deg'', rnd 2 (of_int h * 360 / 65536))]
   })"

definition cat17_i230 :: item where
  "cat17_i230 = record_octet (\<lambda>b. [(''comm_capability'', label cat17_ca ''reserved'' (bitfield b 5 0x07)), (''si_capable'', VBool (\<not> bits b 0x10))])"

definition cat17_i240 :: item where
  "cat17_i240 = record_octet (\<lambda>b. onlyif (bits b 0x80) [(''coasted'', VBool True)] @ onlyif (bits b 0x40) [(''flight_level_predicted'', VBool True)])"

definition cat17_i210 :: item where
  "cat17_i210 = record_list ''mode_s_addresses'' 3 (\<lambda>data pos. Some (VStr (hex_bytes (py_slice data pos (pos + 3)))))"

definition cat17_items :: "item list" where
  "cat17_items = [
     record_pair ''sac'' ''sic'', record_pair ''dest_sac'' ''dest_sic'',
     record_octet (\<lambda>b. [(''msg_type'', coded cat17_msg_types ''type_'' b)]),
     cat17_i350, record_icao24, record_word (\<lambda>w. [(''duplicate_address_ref'', VInt w)]), record_tod, cat17_i045, cat17_i070, cat17_i050,
     cat17_i200, cat17_i230, cat17_i240, cat17_i210, record_octet (\<lambda>b. [(''cluster_command_state'', VInt b)]),
     spare_item, spare_item, spare_item, spare_item, spare_item, skip_item]"

definition record_track0 :: "string \<Rightarrow> real \<Rightarrow> dict" where
  "record_track0 src now = [(''_ts'', VFloat now), (''_src'', VStr src)]"

definition decode_cat017_record :: "real \<Rightarrow> bytes \<Rightarrow> nat \<Rightarrow> dstate option" where
  "decode_cat017_record now = decode_with (record_track0 ''ASTERIX CAT-17 Ed.1.3'' now) (dispatch_or_end cat17_items) Some"

text \<open>A record with a position is an aircraft's, one without a message of the sensor.\<close>

definition datalink_topic :: "string \<Rightarrow> dict \<Rightarrow> string \<Rightarrow> string" where
  "datalink_topic pre track source =
     (if has_position track then pre @ ''/air/'' @ source @ ''/radar/civ/aircraft'' else pre @ ''/land/'' @ source @ ''/radar/neutral/sensor'')"

definition cat17_handler :: "(pyval \<Rightarrow> string) \<Rightarrow> string \<Rightarrow> real \<Rightarrow> bytes \<Rightarrow> event list option" where
  "cat17_handler rp pre now data = do {
     rs \<leftarrow> decode_records (decode_cat017_record now) data 0;
     handle_records (forward rp (datalink_topic pre) ''AsterixCat17Track'' 17 ''cat017'') rs
   }"

subsection \<open>CAT-205\<close>

definition cat205_msg_types :: "(int \<times> string) list" where
  "cat205_msg_types = [(1, ''system_position_report''), (2, ''system_bearing_report''), (3, ''conflicting_transmission_position''),
     (4, ''detection_end_report''), (5, ''sensor_data_report'')]"

definition cat205_i090 :: item where
  "cat205_i090 = record_item 7 (\<lambda>data pos. Some (unless_blank ''radio_channel'' (stripped data pos 7)))"

definition cat205_position :: "string \<Rightarrow> item" where
  "cat205_position pre = record_item 8 (\<lambda>data pos. do {
     lat \<leftarrow> s32 data pos;
     lon \<leftarrow> s32 data (pos + 4);
     Some [(pre @ ''lat_deg'', rnd 7 (of_int lat * (180 / 2 ^ 25))), (pre @ ''lon_deg'', rnd 7 (of_int lon * (180 / 2 ^ 25)))]
   })"

definition cat205_i060 :: "real option \<Rightarrow> real option \<Rightarrow> item" where
  "cat205_i060 site_lat site_lon data d pos = need 6 data d pos (do {
     x \<leftarrow> s24 data pos;
     y \<leftarrow> s24 data (pos + 3);
     let x_m = of_int x * 0.5;
     let y_m = of_int y * 0.5;
     Some (Next (located site_lat site_lon (\<lambda>a b. cartesian_to_wgs84 a b x_m y_m)
       (puts d [(''cart_x_m'', rnd 2 x_m), (''cart_y_m'', rnd 2 y_m)]), pos + 6))
   })"

definition hundredths :: "string \<Rightarrow> int \<Rightarrow> dict" where
  "hundredths key w = [(key, rnd 2 (of_int w * 0.01))]"

definition cat205_i120 :: item where
  "cat205_i120 = record_list ''contributing_sensors'' 1 (\<lambda>data pos. do { b \<leftarrow> byte_at data pos; Some (VInt b) })"

definition cat205_i140 :: item where
  "cat205_i140 = record_item 6 (\<lambda>data pos. do {
     x \<leftarrow> s24 data pos;
     y \<leftarrow> s24 data (pos + 3);
     Some [(''conflicting_cart_x_m'', rnd 2 (of_int x * 0.5)), (''conflicting_cart_y_m'', rnd 2 (of_int y * 0.5))]
   })"

definition cat205_items :: "real option \<Rightarrow> real option \<Rightarrow> item list" where
  "cat205_items site_lat site_lon = [
     record_pair ''sac'' ''sic'',
     record_octet (\<lambda>b. [(''service_id'', VInt b)]),
     record_octet (\<lambda>b. [(''msg_type'', coded cat205_msg_types ''type_'' b)]),
     record_tod,
     record_octet (\<lambda>b. [(''report_number'', VInt b)]),
     cat205_i090, cat205_position [], cat205_i060 site_lat site_lon,
     record_word (hundredths ''local_bearing_deg''), record_word (hundredths ''system_bearing_deg''),
     record_octet (\<lambda>b. [(''measurement_quality_raw'', VInt b)]),
     record_octet (\<lambda>b. [(''position_uncertainty_m'', VInt (b * 100))]),
     cat205_i120, cat205_position ''conflicting_'', cat205_i140,
     record_octet (\<lambda>b. [(''conflicting_position_uncertainty_m'', VInt (b * 100))]),
     record_word (\<lambda>w. [(''track_num'', VInt w)]),
     record_octet (\<lambda>b. [(''sensor_id'', VInt b)]),
     record_int16 (hundredths ''signal_level_dbuv''),
     record_octet (\<lambda>b. [(''signal_quality'', VInt b)]),
     record_int16 (hundredths ''signal_elevation_deg''), skip_item]"

definition decode_cat205_record :: "real option \<Rightarrow> real option \<Rightarrow> real \<Rightarrow> bytes \<Rightarrow> nat \<Rightarrow> dstate option" where
  "decode_cat205_record site_lat site_lon now =
     decode_with (record_track0 ''ASTERIX CAT-205 Ed.1.0'' now) (dispatch_or_end (cat205_items site_lat site_lon)) Some"

definition cat205_topic :: "string \<Rightarrow> dict \<Rightarrow> string \<Rightarrow> string" where
  "cat205_topic pre track source = pre @ ''/air/'' @ source @ ''/rdf/unknown/aircraft''"

definition cat205_handler :: "real option \<Rightarrow> real option \<Rightarrow> (pyval \<Rightarrow> string) \<Rightarrow> string \<Rightarrow> real \<Rightarrow> bytes \<Rightarrow> event list option" where
  "cat205_handler site_lat site_lon rp pre now data = do {
     rs \<leftarrow> decode_records (decode_cat205_record site_lat site_lon now) data 0;
     handle_records (forward_placed rp (cat205_topic pre) ''AsterixCat205Track'' 205 ''cat205'') rs
   }"

subsection \<open>CAT-018\<close>

definition cat18_msg_types :: "(int \<times> string) list" where
  "cat18_msg_types = [(0, ''associate_req''), (1, ''associate_resp''), (2, ''release_req''), (3, ''release_resp''), (4, ''abort_req''),
     (5, ''keep_alive''), (16, ''aircraft_report''), (17, ''aircraft_command''), (18, ''ii_code_change''), (32, ''uplink_packet''),
     (33, ''cancel_uplink_packet''), (34, ''uplink_packet_ack''), (35, ''downlink_packet''), (38, ''data_xon''), (39, ''data_xoff''),
     (48, ''uplink_broadcast''), (49, ''cancel_uplink_broadcast''), (50, ''uplink_broadcast_ack''), (52, ''downlink_broadcast''),
     (64, ''gicb_extraction''), (65, ''cancel_gicb_extraction''), (66, ''gicb_extraction_ack''), (67, ''gicb_response'')]"

definition cat18_cause :: "(int \<times> string) list" where
  "cat18_cause = [(0, ''accepted''), (1, ''rejected''), (2, ''cancelled''), (3, ''finished''), (4, ''delayed''), (5, ''in_progress''), (6, ''in_progress'')]"

definition cat18_diag :: "(int \<times> string) list" where
  "cat18_diag = [(0, ''none''), (1, ''aircraft_exit''), (2, ''incorrect_aircraft_address''), (3, ''cannot_process''),
     (4, ''insufficient_datalink_capability''), (5, ''invalid_lv_field''), (6, ''duplicate_request_number''), (7, ''unknown_request_number''),
     (8, ''timer_t3_expiry''), (9, ''expiry_of_ir_delivery_timer''), (10, ''uplink_flow_disabled_by_uc'')]"

definition cat18_packet_type :: "(int \<times> string) list" where
  "cat18_packet_type = [(0, ''svc''), (1, ''msp''), (2, ''route'')]"

definition cat18_com :: "(int \<times> string) list" where
  "cat18_com = [(0, ''surveillance_only''), (1, ''comm_a_b''), (2, ''comm_a_b_uplink_elm''), (3, ''comm_a_b_uplink_downlink_elm''), (4, ''level5_transponder'')]"

definition cat18_reply_dest :: "(int \<times> string) list" where
  "cat18_reply_dest = [(0, ''data_link_only''), (1, ''surveillance_only''), (2, ''both'')]"

definition cat18_i001 :: item where
  "cat18_i001 = record_octet (\<lambda>b. [(''cause'', label cat18_cause ''reserved'' (bitfield b 4 0x0F)), (''diagnostic'', label cat18_diag ''reserved'' (b AND 0x0F))])"

definition number_item :: "string \<Rightarrow> item" where
  "number_item key = record_item 4 (\<lambda>data pos. do { n \<leftarrow> u32 data pos; Some [(key, VInt n)] })"

definition cat18_i017 :: item where
  "cat18_i017 = record_list ''packet_numbers'' 4 (\<lambda>data pos. do { n \<leftarrow> u32 data pos; Some (VInt n) })"

definition cat18_i018 :: item where
  "cat18_i018 = record_octet (\<lambda>b. [(''packet_priority'', VInt (bitfield b 2 0x1F)), (''packet_type'', label cat18_packet_type ''reserved'' (b AND 0x03))])"

text \<open>A packet with its length, which counts itself.\<close>

definition cat18_i019 :: item where
  "cat18_i019 data d pos = need 1 data d pos (do {
     len \<leftarrow> byte_at data pos;
     (if len < 1 \<or> pos + nat len > length data then Some (Return (d, length data))
      else Some (Next (puts d [(''mode_s_packet_hex'', VStr (hex_bytes (py_slice data (pos + 1) (pos + nat len))))], pos + nat len)))
   })"

definition cat18_i030 :: item where
  "cat18_i030 = record_word (\<lambda>w. [(''gicb_priority'', VInt (bitfield w 11 0x1F))] @
     onlyif (bits w 0x0400) [(''gicb_periodicity_strict'', VBool True)] @ onlyif (bits w 0x0200) [(''gicb_async_update'', VBool True)] @
     onlyif (bits w 0x0100) [(''gicb_no_extraction'', VBool True)] @
     [(''gicb_reply_destination'', label cat18_reply_dest ''reserved'' (bitfield w 6 0x03))])"

definition bds_name :: "int \<Rightarrow> int \<Rightarrow> string" where
  "bds_name a b = fmt_int a @ '','' @ fmt_int b"

definition cat18_i027 :: item where
  "cat18_i027 = record_octet (\<lambda>b. [(''bds_code'', VStr (bds_name (bitfield b 4 0x0F) (b AND 0x0F)))])"

text \<open>The code of the register is the one the record named, which stands in its field \<open>bds_code\<close>.\<close>

definition cat18_register :: "pyval option \<Rightarrow> bytes \<Rightarrow> dict" where
  "cat18_register code mb =
     (if code = Some (VStr (bds_name 1 0)) then decode_bds10 mb
      else if code = Some (VStr (bds_name 1 7)) then decode_bds17 mb
      else if code = Some (VStr (bds_name 3 0)) then decode_bds30 mb
      else if code = Some (VStr (bds_name 4 0)) then decode_bds40 mb
      else if code = Some (VStr (bds_name 5 0)) then decode_bds50 mb
      else if code = Some (VStr (bds_name 6 0)) then decode_bds60 mb
      else [(''gicb_extracted_hex'', VStr (hex_bytes mb))])"

definition cat18_i029 :: item where
  "cat18_i029 data d pos = need 7 data d pos
     (Some (Next (puts d (cat18_register (dget d ''bds_code'') (py_slice data pos (pos + 7))), pos + 7)))"

definition cat18_i007 :: item where
  "cat18_i007 = record_octet (\<lambda>b. onlyif (bits b 0x80) [(''uplink_mask'', VBool True)] @ onlyif (bits b 0x40) [(''downlink_mask'', VBool True)] @
     [(''uplink_stop'', flag b 0x20), (''downlink_stop'', flag b 0x10)])"

definition cat18_i008 :: item where
  "cat18_i008 = fx_record
     (\<lambda>b. [(''uplink_disabled_default'', flag b 0x80), (''downlink_disabled_default'', flag b 0x40), (''uplink_disabled_current'', flag b 0x20),
        (''downlink_disabled_current'', flag b 0x10)] @ onlyif (bits b 0x02) [(''exit_indication'', VBool True)])
     (\<lambda>b. onlyif (bits b 0x80) [(''interrogator_control_locked'', VBool True)])"

definition names_set :: "string list \<Rightarrow> int \<Rightarrow> string list" where
  "names_set names b = map snd (filter (\<lambda>(i, _). bits b (drop_bit i 0x80)) (zip [0..<length names] names))"

function cat18_request_loop :: "int \<Rightarrow> string list \<Rightarrow> item" where
  "cat18_request_loop b requested data d pos =
     (if \<not> bits b 1 then Some (Next (puts d (unless_Nil ''report_requested_fields'' (map VStr requested)), pos))
      else if pos + 1 > length data then Some (Return (d, length data))
      else do {
        b \<leftarrow> byte_at data pos;
        cat18_request_loop b (requested @ names_set [''aircraft_id'', ''mode_a'', ''speed'', ''height'', ''heading''] b) data d (pos + 1)
      })"
  by pat_completeness auto
termination
  by (relation "measure (\<lambda>(b, r, data, d, pos). length data - pos)") auto

declare cat18_request_loop.simps [simp del]

definition cat18_i009 :: item where
  "cat18_i009 data d pos = need 1 data d pos (do {
     b \<leftarrow> byte_at data pos;
     cat18_request_loop b (names_set [''status'', ''com'', ''eca'', ''cqf'', ''cqf_method'', ''polar_position'', ''cartesian_position''] b) data d (pos + 1)
   })"

definition cat18_i014 :: "real option \<Rightarrow> real option \<Rightarrow> item" where
  "cat18_i014 site_lat site_lon data d pos = need 4 data d pos (do {
     r \<leftarrow> u16 data pos;
     t \<leftarrow> u16 data (pos + 2);
     let rho = of_int r / 256;
     let theta = of_int t * 360 / 65536;
     Some (Next (located site_lat site_lon (\<lambda>a b. polar_to_wgs84 a b rho theta)
       (puts d [(''range_nm'', rnd 3 rho), (''azimuth_deg'', rnd 3 theta)]), pos + 4))
   })"

definition cat18_i015 :: "real option \<Rightarrow> real option \<Rightarrow> item" where
  "cat18_i015 site_lat site_lon data d pos = need 4 data d pos (do {
     x \<leftarrow> s16 data pos;
     y \<leftarrow> s16 data (pos + 2);
     let x_nm = of_int x / 128;
     let y_nm = of_int y / 128;
     Some (Next (located site_lat site_lon (\<lambda>a b. cartesian_to_wgs84 a b (x_nm * 1852) (y_nm * 1852))
       (puts d [(''cart_x_nm'', rnd 3 x_nm), (''cart_y_nm'', rnd 3 y_nm)]), pos + 4))
   })"

definition cat18_i021 :: item where
  "cat18_i021 = record_item 6 (\<lambda>data pos. do {
     b \<leftarrow> byte_at data pos;
     s \<leftarrow> byte_at data (pos + 1);
     Some [(''broadcast_priority'', VInt (bitfield b 4 0x0F)), (''broadcast_power'', VInt (b AND 0x0F)), (''broadcast_duration_s'', VInt s),
       (''broadcast_coverage_raw'', VStr (hex_bytes (py_slice data (pos + 2) (pos + 6))))]
   })"

definition cat18_i022 :: item where
  "cat18_i022 = record_item 4 (\<lambda>data pos. do { n \<leftarrow> u32 data pos; Some [(''broadcast_prefix_raw'', VInt (n AND 0x07FFFFFF))] })"

definition cat18_i032 :: item where
  "cat18_i032 = record_word (\<lambda>w. onlyif (bits w 0x8000) [(''squawk_not_validated'', VBool True)] @
     onlyif (bits w 0x4000) [(''squawk_garbled'', VBool True)] @ [(''squawk'', VStr (fmt_pad 8 4 (w AND 0x0FFF)))])"

definition cat18_i033 :: item where
  "cat18_i033 = record_octets (\<lambda>b1 b2. onlyif (bits b1 0x80) [(''flight_level_not_validated'', VBool True)] @
     onlyif (bits b1 0x40) [(''flight_level_garbled'', VBool True)] @ [(''flight_level'', rnd 2 (of_int (signed14 b1 b2) * 0.25))])"

definition cat18_i012 :: item where
  "cat18_i012 = record_octet (\<lambda>b. let cqf = b AND 0x7F in
     [(''on_ground'', flag b 0x80),
      (if cqf = 0 then (''cqf_supported'', VBool False) else if cqf = 127 then (''cqf_defined'', VBool False) else (''cqf'', VInt cqf))])"

definition cat18_items :: "real option \<Rightarrow> real option \<Rightarrow> item list" where
  "cat18_items site_lat site_lon = [
     record_pair ''sac'' ''sic'', record_pair ''dest_sac'' ''dest_sic'',
     record_octet (\<lambda>b. [(''msg_type'', coded cat18_msg_types ''type_'' b)]),
     cat18_i001, record_icao24, number_item ''packet_number'', cat18_i017, cat18_i018, cat18_i019,
     record_word (\<lambda>w. [(''gicb_periodicity_s'', VInt w)]), cat18_i030, number_item ''gicb_number'', cat18_i027, cat18_i029, record_tod,
     cat17_i210, cat18_i007, cat18_i008, cat18_i009,
     record_octet (\<lambda>b. [(''comm_capability'', label cat18_com ''reserved'' (b AND 0x07))]),
     record_hex ''capability_report_hex'' 7, cat18_i014 site_lat site_lon, cat18_i015 site_lat site_lon, number_item ''broadcast_number'',
     cat18_i021, cat18_i022, record_hex ''broadcast_message_hex'' 7,
     record_octet (\<lambda>b. [(''previous_ii_code'', VInt (bitfield b 4 0x0F)), (''current_ii_code'', VInt (b AND 0x0F))]),
     record_callsign 0, cat18_i032, cat18_i033,
     record_word (\<lambda>w. [(''ground_speed_kt'', rnd 2 (of_int w / 16384 * 3600))]),
     record_word (\<lambda>w. [(''heading_deg'', rnd 2 (of_int w * 360 / 65536))]), cat18_i012,
     record_octet (\<lambda>b. [(''cqf_calculation_method'', VInt b)])]"

definition decode_cat018_record :: "real option \<Rightarrow> real option \<Rightarrow> real \<Rightarrow> bytes \<Rightarrow> nat \<Rightarrow> dstate option" where
  "decode_cat018_record site_lat site_lon now =
     decode_with (record_track0 ''ASTERIX CAT-18 Ed.1.8'' now) (dispatch_or_end (cat18_items site_lat site_lon)) Some"

definition cat18_handler :: "real option \<Rightarrow> real option \<Rightarrow> (pyval \<Rightarrow> string) \<Rightarrow> string \<Rightarrow> real \<Rightarrow> bytes \<Rightarrow> event list option" where
  "cat18_handler site_lat site_lon rp pre now data = do {
     rs \<leftarrow> decode_records (decode_cat018_record site_lat site_lon now) data 0;
     handle_records (forward rp (datalink_topic pre) ''AsterixCat18Track'' 18 ''cat018'') rs
   }"

subsection \<open>The contracts\<close>

lemma record_contract:
  "list_all item_moves items \<Longrightarrow> category_decoder (record_track0 src now) (dispatch_or_end items) Some"
  by unfold_locales (simp_all add: record_track0_def wf_track_def flow_simps dispatch_or_end_moves)

lemma wf_located [flow_simps]: "wf_track d \<Longrightarrow> wf_track (located a b f d)"
  by (simp add: located_def flow_simps split: option.split prod.split)

lemma typed_hundredths [flow_simps]: "key \<notin> set typed_keys \<Longrightarrow> typed (hundredths key w)"
  by (simp add: hundredths_def flow_simps)

lemma number_item_moves [item_ok]: "key \<notin> set typed_keys \<Longrightarrow> item_moves (number_item key)"
  unfolding number_item_def by (rule record_item_moves) (simp add: flow_simps u32_def)

lemma cat17_item_moves [item_ok]:
  "item_moves cat17_i350" "item_moves cat17_i045" "item_moves cat17_i070" "item_moves cat17_i050" "item_moves cat17_i200"
  "item_moves cat17_i230" "item_moves cat17_i240" "item_moves cat17_i210"
  unfolding cat17_i350_def cat17_i045_def cat17_i070_def cat17_i050_def cat17_i200_def cat17_i230_def cat17_i240_def cat17_i210_def
  by (auto intro!: item_ok record_item_moves simp: flow_simps byte_simps s24_def)

lemma cat205_item_moves [item_ok]:
  "item_moves cat205_i090" "pre \<in> {[], ''conflicting_''} \<Longrightarrow> item_moves (cat205_position pre)" "item_moves cat205_i120" "item_moves cat205_i140"
  unfolding cat205_i090_def cat205_position_def cat205_i120_def cat205_i140_def
  by (auto intro!: item_ok record_item_moves simp: flow_simps byte_simps s24_def s32_def)

lemma cat205_i060_moves [item_ok]: "item_moves (cat205_i060 a b)"
  by (simp add: item_moves_def cat205_i060_def flow_simps byte_simps Let_def)

lemma cat18_item_moves [item_ok]:
  "item_moves cat18_i001" "item_moves cat18_i017" "item_moves cat18_i018" "item_moves cat18_i030" "item_moves cat18_i027"
  "item_moves cat18_i007" "item_moves cat18_i008" "item_moves cat18_i021" "item_moves cat18_i022" "item_moves cat18_i032"
  "item_moves cat18_i033" "item_moves cat18_i012"
  unfolding cat18_i001_def cat18_i017_def cat18_i018_def cat18_i030_def cat18_i027_def cat18_i007_def cat18_i008_def cat18_i021_def
    cat18_i022_def cat18_i032_def cat18_i033_def cat18_i012_def
  by (auto intro!: item_ok record_item_moves simp: flow_simps byte_simps u32_def Let_def)

lemma cat18_more_moves [item_ok]:
  "item_moves cat18_i019" "item_moves cat18_i029" "item_moves (cat18_i014 a b)" "item_moves (cat18_i015 a b)"
  by (simp_all add: item_moves_def cat18_i019_def cat18_i029_def cat18_register_def cat18_i014_def cat18_i015_def flow_simps byte_simps Let_def)

lemma cat18_request_moves:
  "wf_track d \<Longrightarrow> p \<le> q \<Longrightarrow> q \<le> length data \<Longrightarrow> moves p (length data) (cat18_request_loop b rs data d q)"
proof (induction b rs data d q rule: cat18_request_loop.induct)
  case (1 b rs data d q)
  show ?case
  proof (cases "bits b 1 \<and> q < length data")
    case True
    then have rd: "byte_at data q = Some (uint (data ! q))" by (simp add: byte_simps)
    from "1.IH" [OF _ _ rd] "1.prems" True rd show ?thesis by (simp add: cat18_request_loop.simps [of b rs data d q])
  qed (use "1.prems" in \<open>auto simp: cat18_request_loop.simps [of b rs data d q] flow_simps\<close>)
qed

lemma cat18_i009_moves [item_ok]: "item_moves cat18_i009"
  by (simp add: item_moves_def cat18_i009_def flow_simps byte_simps cat18_request_moves)

interpretation cat17: category_decoder "record_track0 src now" "dispatch_or_end cat17_items" Some for src now
  by (rule record_contract) (simp add: cat17_items_def item_ok flow_simps)

interpretation cat205: category_decoder "record_track0 src now" "dispatch_or_end (cat205_items a b)" Some for src now a b
  by (rule record_contract) (simp add: cat205_items_def item_ok flow_simps)

interpretation cat18: category_decoder "record_track0 src now" "dispatch_or_end (cat18_items a b)" Some for src now a b
  by (rule record_contract) (simp add: cat18_items_def item_ok flow_simps)

interpretation cat17_handler: record_category "decode_cat017_record now"
    "forward rp (datalink_topic pre) ''AsterixCat17Track'' 17 ''cat017''" 17 "\<lambda>_. True" for now rp pre
  unfolding decode_cat017_record_def by unfold_locales (simp_all add: cat17.decode_moves forward_native)

interpretation cat18_handler: record_category "decode_cat018_record a b now"
    "forward rp (datalink_topic pre) ''AsterixCat18Track'' 18 ''cat018''" 18 "\<lambda>_. True" for a b now rp pre
  unfolding decode_cat018_record_def by unfold_locales (simp_all add: cat18.decode_moves forward_native)

interpretation cat205_handler: record_category "decode_cat205_record a b now"
    "forward_placed rp (cat205_topic pre) ''AsterixCat205Track'' 205 ''cat205''" 205 has_position for a b now rp pre
  unfolding decode_cat205_record_def by unfold_locales (simp_all add: cat205.decode_moves forward_placed_native)

end
