(* ===== verification/Asterix_Cat010.thy ===== *)
theory Asterix_Cat010
  imports Asterix_Records Asterix_Cat034 Asterix_Cat062
begin

text \<open>
  CAT-010, surveillance of an airport's surface. A block also carries messages of the sensor, which become its status
  when its site is configured.
\<close>

subsection \<open>Items\<close>

definition cat10_msg_types :: "(int \<times> string) list" where
  "cat10_msg_types = [(1, ''target_report''), (2, ''start_update_cycle''), (3, ''periodic_status''), (4, ''event_status'')]"

definition cat10_sensor_types :: "string list" where
  "cat10_sensor_types = [''ssr_mlat'', ''mode_s_mlat'', ''adsb'', ''psr'', ''magnetic_loop'', ''hf_mlat'', ''undefined'', ''other'']"

definition cat10_target_types :: "string list" where
  "cat10_target_types = [''undetermined'', ''aircraft'', ''ground_vehicle'', ''helicopter'']"

definition cat10_fleets :: "(int \<times> string) list" where
  "cat10_fleets = [(0, ''unknown''), (1, ''atc_maintenance''), (2, ''airport_maintenance''), (3, ''fire''), (4, ''bird_scarer''),
     (5, ''snow_plough''), (6, ''runway_sweeper''), (7, ''emergency''), (8, ''police''), (9, ''bus''), (10, ''tug''), (11, ''grass_cutter''),
     (12, ''fuel''), (13, ''baggage''), (14, ''catering''), (15, ''aircraft_maintenance''), (16, ''follow_me'')]"

definition cat10_i020 :: item where
  "cat10_i020 data d pos = need 1 data d pos (do {
     b \<leftarrow> byte_at data pos;
     sensor \<leftarrow> tuple_get cat10_sensor_types (bitfield b 5 0x07);
     let d = puts d ([(''sensor_type'', VStr sensor)] @ onlyif (bits b 0x10) [(''differential_correction'', VBool True)] @
       [(''channel'', VInt (if bits b 0x08 then 2 else 1))] @ onlyif (bits b 0x04) [(''transponder_ground_bit'', VBool True)] @
       onlyif (bits b 0x02) [(''corrupted_reply'', VBool True)]);
     (if \<not> bits b 0x01 then Some (Next (d, pos + 1))
      else need 1 data d (pos + 1) (do {
        b \<leftarrow> byte_at data (pos + 1);
        status \<leftarrow> tuple_get [[], ''start'', ''finish'', ''reserved''] (bitfield b 3 0x03);
        target \<leftarrow> tuple_get cat10_target_types (bitfield b 1 0x03);
        let d = puts d (onlyif (bits b 0x80) [(''simulated'', VBool True)] @ onlyif (bits b 0x40) [(''test_target'', VBool True)] @
          onlyif (bits b 0x20) [(''field_monitor'', VBool True)] @ onlyif (bitfield b 3 0x03 \<noteq> 0) [(''loop_status'', VStr status)] @
          [(''target_type'', VStr target), (''on_ground'', VBool (bitfield b 1 0x03 = 2))]);
        extents (\<lambda>_ b d. puts d (onlyif (bits b 0x80) [(''spi'', VBool True)])) 0 b data d (pos + 2)
      }))
   })"

definition degrees_scaled :: "real \<Rightarrow> item" where
  "degrees_scaled scale = record_item 8 (\<lambda>data pos. do {
     lat \<leftarrow> s32 data pos;
     lon \<leftarrow> s32 data (pos + 4);
     Some [(''lat_deg'', rnd 7 (of_int lat * scale)), (''lon_deg'', rnd 7 (of_int lon * scale))]
   })"

definition cat10_i040 :: "real option \<Rightarrow> real option \<Rightarrow> item" where
  "cat10_i040 site_lat site_lon data d pos = need 4 data d pos (do {
     range_m \<leftarrow> u16 data pos;
     t \<leftarrow> u16 data (pos + 2);
     let azimuth = of_int t * 360 / 65536;
     Some (Next (located site_lat site_lon (\<lambda>a b. polar_to_wgs84 a b (of_int range_m / 1852) azimuth)
       (puts d [(''range_m'', VInt range_m), (''azimuth_deg'', rnd 3 azimuth)]), pos + 4))
   })"

definition cat10_i042 :: "real option \<Rightarrow> real option \<Rightarrow> item" where
  "cat10_i042 site_lat site_lon data d pos = need 4 data d pos (do {
     x_m \<leftarrow> s16 data pos;
     y_m \<leftarrow> s16 data (pos + 2);
     Some (Next (located site_lat site_lon (\<lambda>a b. cartesian_to_wgs84 a b (of_int x_m) (of_int y_m))
       (puts d [(''cart_x_m'', VInt x_m), (''cart_y_m'', VInt y_m)]), pos + 4))
   })"

definition cat10_i200 :: item where
  "cat10_i200 = record_item 4 (\<lambda>data pos. do {
     v \<leftarrow> u16 data pos;
     h \<leftarrow> u16 data (pos + 2);
     Some [(''speed_ms'', rnd 2 (of_int v * 1852 / 16384)), (''heading_deg'', rnd 2 (of_int h * 360 / 65536))]
   })"

definition course_of :: "real \<Rightarrow> real \<Rightarrow> real" where
  "course_of vx vy = float_mod (degrees (atan2 vx vy) + 360) 360"

definition cat10_i202 :: item where
  "cat10_i202 data d pos = need 4 data d pos (do {
     x \<leftarrow> s16 data pos;
     y \<leftarrow> s16 data (pos + 2);
     let vx = of_int x * 0.25;
     let vy = of_int y * 0.25;
     let d = setdefault ''speed_ms'' (rnd 2 (hypot vx vy)) (puts d [(''velocity_east_ms'', rnd 2 vx), (''velocity_north_ms'', rnd 2 vy)]);
     Some (Next (if vx \<noteq> 0 \<or> vy \<noteq> 0 then setdefault ''heading_deg'' (rnd 2 (course_of vx vy)) d else d, pos + 4))
   })"

definition cat10_extent170 :: "nat \<Rightarrow> int \<Rightarrow> dict \<Rightarrow> dict" where
  "cat10_extent170 extent b d =
     (if extent = 1 then puts d (onlyif (bitfield b 6 0x03 \<noteq> 0) [(''movement'', VStr ([[], ''taking_off'', ''landing'', ''other''] ! nat (bitfield b 6 0x03)))])
      else if extent = 2 then puts d (onlyif (bits b 0x80) [(''ghost_track'', VBool True)])
      else d)"

definition cat10_i170 :: item where
  "cat10_i170 data d pos = need 1 data d pos (do {
     b \<leftarrow> byte_at data pos;
     extents cat10_extent170 0 b data (puts d ([(''confirmed'', VBool (\<not> bits b 0x80))] @ onlyif (bits b 0x40) [(''_delete'', VBool True)] @
       onlyif (bitfield b 4 0x03 \<noteq> 0) [(''coasting'', VInt (bitfield b 4 0x03))] @ onlyif (bits b 0x08) [(''manoeuvring'', VBool True)] @
       onlyif (bits b 0x02) [(''smoothed_position'', VBool True)])) (pos + 1)
   })"

definition squawk_item :: item where
  "squawk_item = record_word (\<lambda>w. [(''squawk'', VStr (fmt_pad 8 4 (w AND 0x0FFF)))])"

definition cat10_i250 :: item where
  "cat10_i250 data d pos = need 1 data d pos (do { rep \<leftarrow> byte_at data pos; register_loop (nat rep) data d (pos + 1) })"

definition cat10_i300 :: item where
  "cat10_i300 data d pos = need 1 data d pos (do {
     b \<leftarrow> byte_at data pos;
     Some (Next (puts (setdefault ''target_type'' (VStr ''ground_vehicle'') (puts d [(''vehicle_fleet'', coded cat10_fleets ''fleet_'' b)]))
       [(''on_ground'', VBool True)], pos + 1))
   })"

definition cat10_i090 :: item where
  "cat10_i090 = record_octets (\<lambda>b1 b2. let fl = of_int (signed14 b1 b2) * 0.25 in
     [(''flight_level'', rnd 2 fl), (''baro_alt_m'', rnd 2 (fl * 100 * 0.3048))])"

definition cat10_i091 :: item where
  "cat10_i091 = record_int16 (\<lambda>w. let feet = of_int w * 6.25 in [(''measured_height_ft'', rnd 2 feet), (''geo_alt_m'', rnd 2 (feet * 0.3048))])"

definition cat10_i270 :: item where
  "cat10_i270 data d pos = need 1 data d pos (do {
     b \<leftarrow> byte_at data pos;
     let d = puts d [(''target_length_m'', VInt (drop_bit 1 b))];
     (if \<not> bits b 0x01 then Some (Next (d, pos + 1))
      else need 1 data d (pos + 1) (do {
        b \<leftarrow> byte_at data (pos + 1);
        let d = puts d [(''orientation_deg'', rnd 2 (of_int (drop_bit 1 b) * 360 / 128))];
        (if \<not> bits b 0x01 then Some (Next (d, pos + 2))
         else need 1 data d (pos + 2) (do {
           b \<leftarrow> byte_at data (pos + 2);
           extents (\<lambda>_ _ d. d) 0 b data (puts d [(''target_width_m'', VInt (drop_bit 1 b))]) (pos + 3)
         }))
      }))
   })"

definition cat10_i550 :: item where
  "cat10_i550 = record_octet (\<lambda>b. [(''system_status'', VStr ([''operational'', ''degraded'', ''nogo'', ''reserved''] ! nat (bitfield b 6 0x03)))] @
     onlyif (bits b 0x20) [(''overload'', VBool True)] @ onlyif (bits b 0x10) [(''time_source_invalid'', VBool True)] @
     onlyif (bits b 0x08) [(''diversity_degraded'', VBool True)] @ onlyif (bits b 0x04) [(''test_target_failure'', VBool True)])"

definition cat10_i310 :: item where
  "cat10_i310 = record_octet (\<lambda>b. onlyif (bits b 0x80) [(''in_trouble'', VBool True)] @ [(''preprogrammed_message'', VInt (b AND 0x7F))])"

definition cat10_i500 :: item where
  "cat10_i500 = record_item 4 (\<lambda>data pos. do {
     x \<leftarrow> byte_at data pos;
     y \<leftarrow> byte_at data (pos + 1);
     xy \<leftarrow> s16 data (pos + 2);
     Some [(''sigma_x_m'', VFloat (of_int x * 0.25)), (''sigma_y_m'', VFloat (of_int y * 0.25)), (''sigma_xy_m2'', VFloat (of_int xy * 0.25))]
   })"

definition cat10_i280 :: item where
  "cat10_i280 data d pos = need 1 data d pos (do {
     rep \<leftarrow> byte_at data pos;
     need (nat rep * 2) data d (pos + 1) (Some (Next (d, pos + 1 + nat rep * 2)))
   })"

definition acceleration_item :: item where
  "acceleration_item = record_octets (\<lambda>x y. [(''accel_east_ms2'', VFloat (of_int (unpack_b x) * 0.25)),
     (''accel_north_ms2'', VFloat (of_int (unpack_b y) * 0.25))])"

definition cat10_items :: "real option \<Rightarrow> real option \<Rightarrow> item list" where
  "cat10_items site_lat site_lon = [
     record_pair ''sac'' ''sic'',
     record_octet (\<lambda>b. [(''msg_type'', coded cat10_msg_types ''type_'' b)]),
     cat10_i020, record_tod, degrees_scaled (180 / 2 ^ 31), cat10_i040 site_lat site_lon, cat10_i042 site_lat site_lon, cat10_i200,
     cat10_i202, record_word (\<lambda>w. [(''track_num'', VInt (w AND 0x0FFF))]), cat10_i170, squawk_item, record_icao24, record_callsign 1,
     cat10_i250, cat10_i300, cat10_i090, cat10_i091, cat10_i270, cat10_i550, cat10_i310, cat10_i500, cat10_i280,
     record_octet (\<lambda>b. [(''primary_amplitude'', VInt b)]), acceleration_item, spare_item, skip_item, skip_item]"

definition decode_cat010_record :: "real option \<Rightarrow> real option \<Rightarrow> real \<Rightarrow> bytes \<Rightarrow> nat \<Rightarrow> dstate option" where
  "decode_cat010_record site_lat site_lon now =
     decode_with (record_track0 ''ASTERIX CAT-10 Ed.1.1'' now) (dispatch_or_end (cat10_items site_lat site_lon)) Some"

definition cat10_topic :: "string \<Rightarrow> dict \<Rightarrow> string \<Rightarrow> string" where
  "cat10_topic pre track source =
     (if dget track ''target_type'' = Some (VStr ''ground_vehicle'') \<or> has_key ''vehicle_fleet'' track
      then pre @ ''/land/'' @ source @ ''/radar/unknown/vehicle'' else pre @ ''/air/'' @ source @ ''/radar/civ/aircraft'')"

definition cat10_status :: "string \<Rightarrow> real \<Rightarrow> real \<Rightarrow> dict \<Rightarrow> dict" where
  "cat10_status site_name lat lon track = puts track [
     (''sensor_id'', VStr (''CAT10-'' @ cat34_key track)),
     (''sensor_name'', VStr (if site_name \<noteq> [] then site_name else ''Airport surface sensor'')),
     (''sensor_type'', VStr ''airport_surface_surveillance''), (''lat_deg'', VFloat lat), (''lon_deg'', VFloat lon)]"

definition cat10_publish ::
  "(pyval \<Rightarrow> string) \<Rightarrow> string \<Rightarrow> string \<Rightarrow> real option \<Rightarrow> real option \<Rightarrow> string \<Rightarrow> dict \<Rightarrow> bytes \<Rightarrow> event list option" where
  "cat10_publish rp env pre site_lat site_lon site_name track raw =
     (if dget track ''msg_type'' = Some (VStr ''target_report'')
      then forward_placed rp (cat10_topic pre) ''AsterixCat10Track'' 10 ''cat010'' track raw
      else if dget track ''msg_type'' \<in> {Some (VStr ''start_update_cycle''), Some (VStr ''periodic_status''), Some (VStr ''event_status'')}
      then (case (site_lat, site_lon) of
          (Some lat, Some lon) \<Rightarrow> do {
            source \<leftarrow> asterix_source track;
            affil \<leftarrow> radar_site_affil env source;
            Some [PubDual (pre @ ''/land/'' @ source @ ''/radar/'' @ affil @ ''/radar'') (cat10_status site_name lat lon track) ''AsterixCat10SensorStatus'']
          }
        | _ \<Rightarrow> Some [])
      else Some [])"

definition cat10_handler ::
  "string \<Rightarrow> real option \<Rightarrow> real option \<Rightarrow> string \<Rightarrow> (pyval \<Rightarrow> string) \<Rightarrow> string \<Rightarrow> real \<Rightarrow> bytes \<Rightarrow> event list option" where
  "cat10_handler env site_lat site_lon site_name rp pre now data = do {
     rs \<leftarrow> decode_records (decode_cat010_record site_lat site_lon now) data 0;
     handle_records (cat10_publish rp env pre site_lat site_lon site_name) rs
   }"

subsection \<open>The contracts\<close>

lemma degrees_scaled_moves [item_ok]: "item_moves (degrees_scaled scale)"
  unfolding degrees_scaled_def by (rule record_item_moves) (simp add: flow_simps byte_simps s32_def)

lemma squawk_item_moves [item_ok]: "item_moves squawk_item"
  unfolding squawk_item_def by (rule record_word_moves) (simp add: flow_simps)

lemma acceleration_item_moves [item_ok]: "item_moves acceleration_item"
  unfolding acceleration_item_def by (rule record_octets_moves) (simp add: flow_simps)

lemma cat10_i020_moves [item_ok]: "item_moves cat10_i020"
  by (auto simp: item_moves_def cat10_i020_def cat10_sensor_types_def cat10_target_types_def flow_simps byte_simps Let_def intro!: extents_moves)

lemma cat10_positions_move [item_ok]: "item_moves (cat10_i040 a b)" "item_moves (cat10_i042 a b)"
  by (simp_all add: item_moves_def cat10_i040_def cat10_i042_def flow_simps byte_simps Let_def)

lemma cat10_i202_moves [item_ok]: "item_moves cat10_i202"
  by (simp add: item_moves_def cat10_i202_def flow_simps byte_simps Let_def)

lemma cat10_i170_moves [item_ok]: "item_moves cat10_i170"
  by (auto simp: item_moves_def cat10_i170_def cat10_extent170_def flow_simps byte_simps intro!: extents_moves)

lemma cat10_i270_moves [item_ok]: "item_moves cat10_i270"
  by (auto simp: item_moves_def cat10_i270_def flow_simps byte_simps Let_def intro!: extents_moves)

lemma cat10_loops_move [item_ok]: "item_moves cat10_i250" "item_moves cat10_i300" "item_moves cat10_i280"
  by (auto simp: item_moves_def cat10_i250_def cat10_i300_def cat10_i280_def flow_simps byte_simps)

lemma cat10_item_moves [item_ok]:
  "item_moves cat10_i200" "item_moves cat10_i090" "item_moves cat10_i091" "item_moves cat10_i550" "item_moves cat10_i310"
  "item_moves cat10_i500"
  unfolding cat10_i200_def cat10_i090_def cat10_i091_def cat10_i550_def cat10_i310_def cat10_i500_def
  by (auto intro!: item_ok record_item_moves simp: flow_simps byte_simps Let_def)

interpretation cat10: category_decoder "record_track0 src now" "dispatch_or_end (cat10_items a b)" Some for src now a b
  by (rule record_contract) (simp add: cat10_items_def item_ok flow_simps)

text \<open>What is kept of a block: the reports of targets that have a position.\<close>

definition cat10_kept :: "dict \<Rightarrow> bool" where
  "cat10_kept track \<longleftrightarrow> dget track ''msg_type'' = Some (VStr ''target_report'') \<and> has_position track"

lemma cat10_publish_native:
  assumes "wf_track t" and "asterix_data_block 10 r = Inr blk" and "civil_radars env \<noteq> None"
  shows "\<exists>es. cat10_publish rp env pre a b name t r = Some es \<and> natives es = (if cat10_kept t then [blk] else [])"
proof -
  obtain x y where "asterix_source t = Some (fmt_0d 3 x @ ''-'' @ fmt_0d 3 y)" by (rule wf_source [OF assms(1)])
  with forward_placed_native [OF assms(1,2), of rp "cat10_topic pre" "''AsterixCat10Track''" "''cat010''"] assms(3) show ?thesis
    by (auto simp: cat10_publish_def cat10_kept_def radar_site_affil_def split: option.split)
qed

lemma cat10_forwards:
  assumes "civil_radars env \<noteq> None"
  shows "record_category (decode_cat010_record a b now) (cat10_publish rp env pre a b name) 10 cat10_kept"
  unfolding decode_cat010_record_def
  by unfold_locales (simp_all add: cat10.decode_moves cat10_publish_native assms)

end
