(* ===== verification/Asterix_Cat011.thy ===== *)
theory Asterix_Cat011
  imports Asterix_Cat010
begin

text \<open>
  CAT-011, the tracks of an airport's surface surveillance: compound items with a map of what is present, whose
  \<open>ValueError\<close> ends the record.
\<close>

subsection \<open>Tables\<close>

definition cat11_msg_types :: "(int \<times> string) list" where
  "cat11_msg_types = [(1, ''target_report''), (2, ''attach_flight_plan''), (3, ''detach_flight_plan''), (4, ''insert_flight_plan''),
     (5, ''suppress_flight_plan''), (6, ''modify_flight_plan''), (7, ''holdbar_status'')]"

definition cat11_sti :: "(int \<times> string) list" where
  "cat11_sti = [(0, ''downlinked''), (1, ''callsign_not_downlinked''), (2, ''registration_not_downlinked'')]"

definition cat11_height_source :: "(int \<times> string) list" where
  "cat11_height_source = [(0, ''none''), (1, ''gps''), (2, ''3d_radar''), (3, ''triangulation''), (4, ''height_from_coverage''),
     (5, ''speed_lookup''), (6, ''default_height''), (7, ''multilateration'')]"

definition cat11_mode4_frifoe :: "(int \<times> string) list" where
  "cat11_mode4_frifoe = [(0, ''no_interrogation''), (1, ''friendly''), (2, ''unknown''), (3, ''no_reply'')]"

definition cat11_phase_of_flight :: "(int \<times> string) list" where
  "cat11_phase_of_flight = [(0, ''unknown''), (1, ''on_stand''), (2, ''taxiing_for_departure''), (3, ''taxiing_for_arrival''),
     (4, ''runway_for_departure''), (5, ''runway_for_arrival''), (6, ''hold_for_departure''), (7, ''hold_for_arrival''),
     (8, ''push_back''), (9, ''on_finals'')]"

definition cat11_fleets :: "(int \<times> string) list" where
  "cat11_fleets = [(0, ''follow_me''), (1, ''atc_maintenance''), (2, ''airport_maintenance''), (3, ''fire''), (4, ''bird_scarer''),
     (5, ''snow_plough''), (6, ''runway_sweeper''), (7, ''emergency''), (8, ''police''), (9, ''bus''), (10, ''tug''), (11, ''grass_cutter''),
     (12, ''fuel''), (13, ''baggage''), (14, ''catering''), (15, ''aircraft_maintenance''), (16, ''unknown'')]"

definition cat11_preprog_msg :: "(int \<times> string) list" where
  "cat11_preprog_msg = [(1, ''towing_aircraft''), (2, ''follow_me_operation''), (3, ''runway_check''), (4, ''emergency_operation''),
     (5, ''work_in_progress'')]"

definition cat11_alert_svr :: "(int \<times> string) list" where
  "cat11_alert_svr = [(0, ''end_of_alert''), (1, ''pre_alarm''), (2, ''severe_alert'')]"

definition cat11_com :: "(int \<times> string) list" where
  "cat11_com = [(0, ''surveillance_only''), (1, ''comm_a_b''), (2, ''comm_a_b_uplink_elm''), (3, ''comm_a_b_uplink_downlink_elm''),
     (4, ''level5_transponder'')]"

definition cat11_stat :: "(int \<times> string) list" where
  "cat11_stat = [(0, ''airborne''), (1, ''on_ground''), (2, ''alert_airborne''), (3, ''alert_on_ground''), (4, ''alert_spi''), (5, ''spi''),
     (6, ''general_emergency''), (7, ''lifeguard_medical''), (8, ''minimum_fuel''), (9, ''no_communications''), (10, ''unlawful_interference'')]"

definition cat11_ecat :: "(int \<times> string) list" where
  "cat11_ecat = [(1, ''light_aircraft''), (3, ''medium_aircraft''), (5, ''heavy_aircraft''), (6, ''highly_manoeuvrable_high_speed''),
     (10, ''rotorcraft''), (11, ''glider''), (12, ''lighter_than_air''), (13, ''uav''), (14, ''space_vehicle''), (15, ''ultralight''),
     (16, ''parachutist''), (20, ''surface_emergency_vehicle''), (21, ''surface_service_vehicle''), (22, ''fixed_ground_obstruction'')]"

definition cat11_day :: "(int \<times> string) list" where
  "cat11_day = [(0, ''today''), (1, ''yesterday''), (2, ''tomorrow'')]"

subsection \<open>Chains of octets\<close>

definition cat11_i170 :: item where
  "cat11_i170 = octet_chain [
     \<lambda>b. [(''monosensor'', flag b 0x80)] @ onlyif (bits b 0x40) [(''ground_bit'', VBool True)] @
       onlyif (bits b 0x20) [(''geometric_alt_more_reliable'', VBool True)] @
       [(''height_source'', label cat11_height_source ''unknown'' (bitfield b 2 0x07)), (''confirmed'', VBool (\<not> bits b 0x02))],
     \<lambda>b. onlyif (bits b 0x80) [(''simulated'', VBool True)] @ onlyif (bits b 0x40) [(''track_service_end'', VBool True)] @
       onlyif (bits b 0x20) [(''track_service_begin'', VBool True)] @
       [(''mode4_friend_foe'', label cat11_mode4_frifoe ''unknown'' (bitfield b 3 0x03))] @
       onlyif (bits b 0x04) [(''military_emergency'', VBool True)] @ onlyif (bits b 0x02) [(''military_identification'', VBool True)],
     \<lambda>b. onlyif (bits b 0x80) [(''amalgamated'', VBool True)] @ onlyif (bits b 0x40) [(''spi'', VBool True)] @
       onlyif (bits b 0x20) [(''coasting'', VBool True)] @ [(''flight_plan_correlated'', flag b 0x10)] @
       onlyif (bits b 0x08) [(''adsb_inconsistent'', VBool True)],
     \<lambda>b. onlyif (bits b 0x40) [(''psr_update_stale'', VBool True)] @ onlyif (bits b 0x20) [(''ssr_update_stale'', VBool True)] @
       onlyif (bits b 0x10) [(''mode_s_update_stale'', VBool True)] @ onlyif (bits b 0x08) [(''ads_update_stale'', VBool True)] @
       onlyif (bits b 0x04) [(''special_used_code'', VBool True)] @ onlyif (bits b 0x02) [(''mode_a_conflict'', VBool True)]]"

definition cat11_i270 :: item where
  "cat11_i270 = octet_chain [
     \<lambda>b. [(''target_length_m'', VInt (drop_bit 1 b))],
     \<lambda>b. [(''orientation_deg'', rnd 2 (of_int (drop_bit 1 b) * 360 / 128))],
     \<lambda>b. [(''target_width_m'', VInt (drop_bit 1 b))]]"

subsection \<open>Compound items\<close>

text \<open>The ages, of an octet, and of a word for ADS.\<close>

definition cat11_age :: "string \<Rightarrow> subdecoder" where
  "cat11_age name =
     (if name = ''ads'' then fixed 2 (\<lambda>data pos. do { w \<leftarrow> u16 data pos; Some [(''track_age_'' @ name @ ''_s'', rnd 2 (of_int w * 0.25))] })
      else fixed 1 (\<lambda>data pos. do { b \<leftarrow> byte_at data pos; Some [(''track_age_'' @ name @ ''_s'', rnd 2 (of_int b * 0.25))] }))"

definition cat11_fields290 :: "subdecoder list" where
  "cat11_fields290 = map cat11_age
     [''psr'', ''ssr'', ''mda'', ''mfl'', ''mds'', ''ads'', ''adb'', ''md1'', ''md2'', ''lop'', ''trk'', ''mul'']"

definition cat11_comacas :: "bytes \<Rightarrow> nat \<Rightarrow> dict option" where
  "cat11_comacas data pos = do {
     b1 \<leftarrow> byte_at data pos;
     b2 \<leftarrow> byte_at data (pos + 1);
     b3 \<leftarrow> byte_at data (pos + 2);
     Some [(''com'', label cat11_com ''unknown'' (bitfield b1 5 0x07)), (''flight_status'', label cat11_stat ''unknown'' (bitfield b1 1 0x0F)),
       (''ssc'', flag b2 0x80), (''altitude_reporting'', flag b2 0x40), (''aircraft_id_capability'', flag b2 0x20),
       (''bds10_bit_array_available'', flag b2 0x10), (''bds10_bit_array_raw'', VInt (b2 AND 0x0F)), (''altitude_capability'', flag b3 0x80),
       (''mode_s_specific_service'', flag b3 0x40), (''dte_sub_addressing'', flag b3 0x20)]
   }"

definition cat11_text :: "string \<Rightarrow> nat \<Rightarrow> subdecoder" where
  "cat11_text key k = fixed k (\<lambda>data pos. Some (unless_blank key (stripped data pos k)))"

definition octet_field :: "(int \<Rightarrow> dict) \<Rightarrow> subdecoder" where
  "octet_field f = fixed 1 (\<lambda>data pos. do { b \<leftarrow> byte_at data pos; Some (f b) })"

definition octets_field :: "(int \<Rightarrow> int \<Rightarrow> dict) \<Rightarrow> subdecoder" where
  "octets_field f = fixed 2 (\<lambda>data pos. do { a \<leftarrow> byte_at data pos; b \<leftarrow> byte_at data (pos + 1); Some (f a b) })"

definition word_field :: "(int \<Rightarrow> dict) \<Rightarrow> subdecoder" where
  "word_field f = fixed 2 (\<lambda>data pos. do { w \<leftarrow> u16 data pos; Some (f w) })"

definition int16_field :: "(int \<Rightarrow> dict) \<Rightarrow> subdecoder" where
  "int16_field f = fixed 2 (\<lambda>data pos. do { w \<leftarrow> s16 data pos; Some (f w) })"

definition u32_field :: "(int \<Rightarrow> dict) \<Rightarrow> subdecoder" where
  "u32_field f = fixed 4 (\<lambda>data pos. do { v \<leftarrow> u32 data pos; Some (f v) })"

definition cat11_fields380 :: "subdecoder list" where
  "cat11_fields380 = [
     cat62_bds380,
     fixed 3 (\<lambda>data pos. Some [(''icao24'', VStr (hex_bytes (py_slice data pos (pos + 3))))]),
     fixed 3 cat11_comacas, cat11_text ''aircraft_type'' 4,
     octet_field (\<lambda>b. [(''emitter_category'', coded cat11_ecat ''cat_'' b)]),
     octet_field (\<lambda>b. onlyif (bits b 0x80) [(''vdl_mode4'', VBool True)] @ onlyif (bits b 0x40) [(''mode_s_datalink'', VBool True)] @
       onlyif (bits b 0x20) [(''uat_datalink'', VBool True)])]"

definition cat11_time :: "int \<Rightarrow> pyval" where
  "cat11_time v = VDict [(''type_raw'', VInt (bitfield v 27 0x1F)), (''day'', label cat11_day ''unknown'' (bitfield v 25 0x03)),
     (''hour'', VInt (bitfield v 16 0x1F)), (''minute'', VInt (bitfield v 8 0x3F)), (''seconds_available'', VBool (bitfield v 7 0x01 = 0)),
     (''second'', VInt (v AND 0x3F))]"

definition cat11_times :: subdecoder where
  "cat11_times data out pos = (case byte_at data pos of
     None \<Rightarrow> Some (Done (out, length data))
   | Some rep \<Rightarrow> do {
       (es, pos) \<leftarrow> rep_entries 4 (nat rep) (\<lambda>data pos. do { v \<leftarrow> u32 data pos; Some (cat11_time v) }) data (pos + 1);
       Some (More (puts out (unless_Nil ''times_of_day'' es), pos))
     })"

definition cat11_fields390 :: "subdecoder list" where
  "cat11_fields390 = [
     octets_field (\<lambda>a b. [(''fpps_sac'', VInt a), (''fpps_sic'', VInt b)]),
     cat11_text ''callsign_fpl'' 7,
     u32_field (\<lambda>v. [(''ifps_id_type_raw'', VInt (bitfield v 27 0x03)), (''ifps_id_number'', VInt (v AND 0x07FFFFFF))]),
     octet_field (\<lambda>b. [(''gat_oat_raw'', VInt (bitfield b 6 0x03)), (''fr1_fr2_raw'', VInt (bitfield b 4 0x03)),
       (''rvsm_raw'', VInt (bitfield b 2 0x03))] @ onlyif (bits b 0x02) [(''hpr'', VBool True)]),
     cat11_text ''time_of_arrival'' 4,
     octet_field (\<lambda>b. [(''wake_turbulence_cat'', VStr (if 32 \<le> b \<and> b < 127 then [char_of b] else []))]),
     cat11_text ''departure_airport'' 4, cat11_text ''destination_airport'' 4, cat11_text ''runway'' 3,
     word_field (\<lambda>w. [(''cleared_flight_level'', rnd 2 (of_int w * 0.25))]),
     octets_field (\<lambda>a b. [(''control_centre'', VInt a), (''control_position'', VInt b)]),
     cat11_times, cat11_text ''aircraft_stand'' 6,
     octet_field (\<lambda>b. [(''emp_raw'', VInt (bitfield b 6 0x03)), (''avl_raw'', VInt (bitfield b 4 0x03))])]"

definition cat11_accuracy_degrees :: "bytes \<Rightarrow> nat \<Rightarrow> dict option" where
  "cat11_accuracy_degrees data pos = do {
     lat \<leftarrow> s16 data pos;
     lon \<leftarrow> s16 data (pos + 2);
     Some [(''pos_accuracy_lat_deg'', rnd 9 (of_int lat * (180 / 2 ^ 31))), (''pos_accuracy_lon_deg'', rnd 9 (of_int lon * (180 / 2 ^ 31)))]
   }"

definition cat11_fields500 :: "subdecoder list" where
  "cat11_fields500 = [
     octets_field (\<lambda>a b. [(''pos_accuracy_x_m'', VFloat (of_int a * 0.25)), (''pos_accuracy_y_m'', VFloat (of_int b * 0.25))]),
     fixed 4 cat11_accuracy_degrees,
     int16_field (\<lambda>w. [(''height_accuracy_m'', VFloat (of_int w * 0.5))]),
     octets_field (\<lambda>a b. [(''vel_accuracy_x_ms'', VFloat (of_int a * 0.1)), (''vel_accuracy_y_ms'', VFloat (of_int b * 0.1))]),
     int16_field (\<lambda>w. [(''rate_accuracy_ms'', VFloat (of_int w * 0.1))]),
     octets_field (\<lambda>a b. [(''accel_accuracy_x_ms2'', VFloat (of_int a * 0.01)), (''accel_accuracy_y_ms2'', VFloat (of_int b * 0.01))])]"

subsection \<open>Items\<close>

definition cat11_i202 :: item where
  "cat11_i202 = record_item 4 (\<lambda>data pos. do {
     x \<leftarrow> s16 data pos;
     y \<leftarrow> s16 data (pos + 2);
     let vx = of_int x * 0.25;
     let vy = of_int y * 0.25;
     Some ([(''velocity_east_ms'', rnd 2 vx), (''velocity_north_ms'', rnd 2 vy), (''speed_ms'', rnd 2 (hypot vx vy))] @
       onlyif (vx \<noteq> 0 \<or> vy \<noteq> 0) [(''heading_deg'', rnd 2 (course_of vx vy))])
   })"

definition cat11_i245 :: item where
  "cat11_i245 = record_item 7 (\<lambda>data pos. do {
     b \<leftarrow> byte_at data pos;
     Some ([(''sti'', label cat11_sti ''unknown'' (bitfield b 6 0x03))] @
       unless_blank ''callsign'' (decode_callsign (py_slice data (pos + 1) (pos + 7))))
   })"

definition cat11_i093 :: item where
  "cat11_i093 = record_word (\<lambda>w. onlyif (bits w 0x8000) [(''qnh_correction'', VBool True)] @
     [(''baro_flight_level'', rnd 2 (of_int (let v = w AND 0x7FFF in if bits v 0x4000 then v - 2 ^ 15 else v) * 0.25))])"

definition cat11_i300 :: item where
  "cat11_i300 data d pos = need 1 data d pos (do {
     b \<leftarrow> byte_at data pos;
     Some (Next (setdefault ''on_ground'' (VBool True) (puts d [(''vehicle_fleet'', coded cat11_fleets ''fleet_'' b)]), pos + 1))
   })"

definition cat11_i310 :: item where
  "cat11_i310 = record_octet (\<lambda>b. onlyif (bits b 0x80) [(''in_trouble'', VBool True)] @
     [(''preprogrammed_message'', coded cat11_preprog_msg ''msg_'' (b AND 0x7F))])"

definition cat11_i600 :: item where
  "cat11_i600 = record_item 3 (\<lambda>data pos. do {
     b1 \<leftarrow> byte_at data pos;
     alert \<leftarrow> byte_at data (pos + 1);
     an \<leftarrow> byte_at data (pos + 2);
     Some [(''alert_acknowledged'', VBool (\<not> bits b1 0x80)), (''alert_severity'', label cat11_alert_svr ''unknown'' (bitfield b1 5 0x03)),
       (''alert_type'', VInt alert), (''alert_number'', VInt an)]
   })"

definition cat11_i605 :: item where
  "cat11_i605 = record_list ''tracks_in_alert'' 2 (\<lambda>data pos. do { w \<leftarrow> u16 data pos; Some (VInt (w AND 0x0FFF)) })"

definition cat11_i610 :: item where
  "cat11_i610 = record_list ''holdbar_status'' 2 (\<lambda>data pos. do {
     w \<leftarrow> u16 data pos;
     Some (VDict [(''bank'', VInt (bitfield w 12 0x0F)), (''indicators_raw'', VInt (w AND 0x0FFF))])
   })"

definition cat11_items :: "real option \<Rightarrow> real option \<Rightarrow> item list" where
  "cat11_items site_lat site_lon = [
     record_pair ''sac'' ''sic'',
     record_octet (\<lambda>b. [(''msg_type'', coded cat11_msg_types ''type_'' b)]),
     record_octet (\<lambda>b. [(''service_id'', VInt b)]), record_tod, degrees_scaled (180 / 2 ^ 31), cat10_i042 site_lat site_lon, cat11_i202,
     acceleration_item, squawk_item, cat11_i245, sub_item (sub_decode 1 cat11_fields380),
     record_word (\<lambda>w. [(''track_num'', VInt (w AND 0x7FFF))]), cat11_i170, sub_item (sub_decode 2 cat11_fields290),
     record_octet (\<lambda>b. [(''phase_of_flight'', label cat11_phase_of_flight ''unknown'' b)]),
     record_int16 (\<lambda>w. [(''flight_level'', rnd 2 (of_int w * 0.25))]), cat11_i093,
     record_int16 (\<lambda>w. [(''geo_alt_ft'', rnd 2 (of_int w * 6.25))]),
     record_int16 (\<lambda>w. [(''climb_rate_fpm'', rnd 2 (of_int w * 6.25))]), cat11_i270, sub_item (sub_decode 2 cat11_fields390),
     cat11_i300, cat11_i310, sub_item (sub_decode 1 cat11_fields500), cat11_i600, cat11_i605, cat11_i610, skip_item, skip_item]"

definition decode_cat011_record :: "real option \<Rightarrow> real option \<Rightarrow> real \<Rightarrow> bytes \<Rightarrow> nat \<Rightarrow> dstate option" where
  "decode_cat011_record site_lat site_lon now =
     decode_with (record_track0 ''ASTERIX CAT-11 Ed.1.3'' now) (dispatch_or_end (cat11_items site_lat site_lon)) Some"

definition cat11_topic :: "string \<Rightarrow> dict \<Rightarrow> string \<Rightarrow> string" where
  "cat11_topic pre track source =
     (if has_key ''vehicle_fleet'' track then pre @ ''/land/'' @ source @ ''/radar/unknown/vehicle''
      else pre @ ''/air/'' @ source @ ''/radar/civ/aircraft'')"

definition cat11_handler :: "real option \<Rightarrow> real option \<Rightarrow> (pyval \<Rightarrow> string) \<Rightarrow> string \<Rightarrow> real \<Rightarrow> bytes \<Rightarrow> event list option" where
  "cat11_handler site_lat site_lon rp pre now data = do {
     rs \<leftarrow> decode_records (decode_cat011_record site_lat site_lon now) data 0;
     handle_records (forward_placed rp (cat11_topic pre) ''AsterixCat11Track'' 11 ''cat011'') rs
   }"

subsection \<open>The contracts\<close>

lemma octet_field_moves [item_ok]: "(\<And>b. 0 \<le> b \<Longrightarrow> b \<le> 255 \<Longrightarrow> typed (f b)) \<Longrightarrow> subdecoder_moves (octet_field f)"
  unfolding octet_field_def by (rule fixed_moves) (use byte_range in \<open>auto simp: byte_simps flow_simps\<close>)

lemma octets_field_moves [item_ok]: "(\<And>a b. typed (f a b)) \<Longrightarrow> subdecoder_moves (octets_field f)"
  unfolding octets_field_def by (rule fixed_moves) (simp add: byte_simps flow_simps)

lemma word_field_moves [item_ok]: "(\<And>w. typed (f w)) \<Longrightarrow> subdecoder_moves (word_field f)"
  unfolding word_field_def by (rule fixed_moves) (simp add: byte_simps flow_simps)

lemma int16_field_moves [item_ok]: "(\<And>w. typed (f w)) \<Longrightarrow> subdecoder_moves (int16_field f)"
  unfolding int16_field_def by (rule fixed_moves) (simp add: byte_simps flow_simps)

lemma u32_field_moves [item_ok]: "(\<And>v. typed (f v)) \<Longrightarrow> subdecoder_moves (u32_field f)"
  unfolding u32_field_def by (rule fixed_moves) (simp add: u32_def flow_simps)

lemma cat11_text_moves [item_ok]: "key \<notin> set typed_keys \<Longrightarrow> subdecoder_moves (cat11_text key k)"
  unfolding cat11_text_def by (rule fixed_moves) (simp add: flow_simps)

lemma octet_chain_moves: "list_all (\<lambda>f. \<forall>b. typed (f b)) fs \<Longrightarrow> item_moves (octet_chain fs)"
proof -
  assume t: "list_all (\<lambda>f. \<forall>b. typed (f b)) fs"
  have "wf_track d \<Longrightarrow> p \<le> q \<Longrightarrow> q \<le> length data \<Longrightarrow>
      moves p (length data) (open_chain fs (\<lambda>data d pos. Some (Next (d, pos))) data d q)" for data d p q
    using t by (induction fs arbitrary: d q) (auto simp: flow_simps byte_simps)
  then show ?thesis by (simp add: item_moves_def octet_chain_def)
qed

lemma cat11_chains_move [item_ok]: "item_moves cat11_i170" "item_moves cat11_i270"
  unfolding cat11_i170_def cat11_i270_def by (rule octet_chain_moves; simp add: flow_simps)+

lemma cat11_times_moves [item_ok]: "subdecoder_moves cat11_times"
proof -
  have "sub_moves p (length data) (cat11_times data d p)" if "typed d" "p \<le> length data" for data d p
  proof (cases "byte_at data p")
    case (Some rep)
    then have p: "p + 1 \<le> length data" by (auto dest: byte_at_SomeD)
    have "do { v \<leftarrow> u32 data p; Some (cat11_time v) } \<noteq> None" if "p + 4 \<le> length data" for p and data :: bytes
      using that by (simp add: u32_def)
    from rep_entries_goes [of 4 "\<lambda>data pos. do { v \<leftarrow> u32 data pos; Some (cat11_time v) }" "p + 1" data "nat rep", OF this p]
    obtain es q where
      "rep_entries 4 (nat rep) (\<lambda>data pos. do { v \<leftarrow> u32 data pos; Some (cat11_time v) }) data (p + 1) = Some (es, q)"
      "p + 1 \<le> q" "q \<le> length data" by blast
    with that Some show ?thesis by (simp add: cat11_times_def flow_simps)
  qed (use that in \<open>simp add: cat11_times_def flow_simps\<close>)
  then show ?thesis by (simp add: subdecoder_moves_def)
qed

lemma cat11_fields_move:
  "list_all subdecoder_moves cat11_fields380" "list_all subdecoder_moves cat11_fields390" "list_all subdecoder_moves cat11_fields500"
  by (simp_all add: cat11_fields380_def cat11_fields390_def cat11_fields500_def cat11_comacas_def cat11_accuracy_degrees_def
      item_ok fixed_moves flow_simps byte_simps)

lemma cat11_ages_move: "list_all subdecoder_moves cat11_fields290"
  by (simp add: cat11_fields290_def cat11_age_def fixed_moves flow_simps byte_simps)

lemma cat11_item_moves [item_ok]:
  "item_moves cat11_i202" "item_moves cat11_i245" "item_moves cat11_i093" "item_moves cat11_i310" "item_moves cat11_i600"
  "item_moves cat11_i605" "item_moves cat11_i610"
  unfolding cat11_i202_def cat11_i245_def cat11_i093_def cat11_i310_def cat11_i600_def cat11_i605_def cat11_i610_def
  by (auto intro!: item_ok record_item_moves simp: flow_simps byte_simps Let_def)

lemma cat11_i300_moves [item_ok]: "item_moves cat11_i300"
  by (simp add: item_moves_def cat11_i300_def flow_simps byte_simps)

interpretation cat11: category_decoder "record_track0 src now" "dispatch_or_end (cat11_items a b)" Some for src now a b
  by (rule record_contract)
    (simp add: cat11_items_def item_ok flow_simps sub_item_moves cat11_fields_move cat11_ages_move)

interpretation cat11_handler: record_category "decode_cat011_record a b now"
    "forward_placed rp (cat11_topic pre) ''AsterixCat11Track'' 11 ''cat011''" 11 has_position for a b now rp pre
  unfolding decode_cat011_record_def by unfold_locales (simp_all add: cat11.decode_moves forward_placed_native)

subsection \<open>Presence bits that the specification leaves unused\<close>

text \<open>
  C31: In I011/380 the specification (\<open>docs/references/asterix-specs/cat011\<close>) leaves presence bits unused: the third
  bit, and three more before the aircraft type, which is in a second octet. The decoder counts its six fields without
  these gaps. So an item that holds the communications capability alone, three octets behind the presence octet 10
  (hexadecimal), is read as an aircraft type of four octets, one of them of the next item; and an item with a second
  presence octet, as every item that holds an aircraft type has, ends the record.
\<close>

theorem surface_capability_misread:
  assumes "byte_at data p = Some b"
  shows "(b = 0x10 \<and> p + 5 \<le> length data \<longrightarrow> sub_item (sub_decode 1 cat11_fields380) data d p =
      Some (Next (puts d (unless_blank ''aircraft_type'' (stripped data (p + 1) 4)), p + 5))) \<and>
    (bits b 0x01 \<longrightarrow> sub_item (sub_decode 1 cat11_fields380) data d p = Some (Return (d, length data)))"
proof (intro conjI impI)
  assume b: "b = 0x10 \<and> p + 5 \<le> length data"
  have "presence 1 data p [] = Inr ([False, False, False, True, False, False, False], p + 1)"
    using assms b by (simp add: presence.simps bits_def fspec_octet_def numeral_eq_Suc)
  with b show "sub_item (sub_decode 1 cat11_fields380) data d p =
      Some (Next (puts d (unless_blank ''aircraft_type'' (stripped data (p + 1) 4)), p + 5))"
    by (simp add: sub_item_def sub_decode_def cat11_fields380_def cat11_text_def fixed_def unless_blank_def onlyif_def)
next
  assume "bits b 0x01"
  with assms have "presence 1 data p [] = Inl ()" by (simp add: presence.simps)
  then show "sub_item (sub_decode 1 cat11_fields380) data d p = Some (Return (d, length data))"
    by (simp add: sub_item_def sub_decode_def)
qed

theorem surface_capability_misread_witness:
  "sub_item (sub_decode 1 cat11_fields380) [0x10, 0x41, 0x42, 0x43, 0x44] [] 0 = Some (Next ([(''aircraft_type'', VStr ''ABCD'')], 5))"
proof -
  have "byte_at [0x10, 0x41, 0x42, 0x43, 0x44] 0 = Some 0x10" by (simp add: byte_at_def)
  moreover have "stripped [0x10, 0x41, 0x42, 0x43, 0x44] 1 4 = ''ABCD''" by code_simp
  ultimately show ?thesis
    using surface_capability_misread [of "[0x10, 0x41, 0x42, 0x43, 0x44]" 0 "0x10" "[]"] by (simp add: unless_blank_def onlyif_def)
qed

end
