(* ===== verification/Asterix_Cat015.thy ===== *)
theory Asterix_Cat015
  imports Asterix_Cat011 Asterix_Weather
begin

text \<open>
  CAT-015, the plots and tracks of independent non-cooperative sensors: compound items with their precisions and
  correlations. A record without a position is placed by its range and azimuth, unless an item ended it early.
\<close>

subsection \<open>Tables and numbers\<close>

definition cat15_msg_types :: "(int \<times> string) list" where
  "cat15_msg_types = [(1, ''measurement_plot''), (2, ''measurement_track''), (3, ''sensor_centric_plot''), (4, ''sensor_centric_track''),
     (5, ''track_end'')]"

definition cat15_momu :: "(int \<times> string) list" where
  "cat15_momu = [(0, ''mono_static''), (1, ''multi_static''), (2, ''other''), (3, ''unknown'')]"

definition cat15_ttax :: "(int \<times> string) list" where
  "cat15_ttax = [(0, ''actual''), (1, ''reference''), (2, ''synthetic''), (3, ''simulated_replayed'')]"

definition cat15_scd :: "(int \<times> string) list" where
  "cat15_scd = [(0, ''unknown''), (1, ''forward''), (2, ''backward''), (3, ''static'')]"

definition signed_bits :: "int \<Rightarrow> nat \<Rightarrow> int" where
  "signed_bits v width = (if bits v (2 ^ (width - 1)) then v - 2 ^ width else v)"

definition cat15_polar_to_wgs84 :: "real \<Rightarrow> real \<Rightarrow> real \<Rightarrow> real \<Rightarrow> real \<times> real" where
  "cat15_polar_to_wgs84 radar_lat radar_lon range_m azimuth_deg =
     (let d = range_m;
          R = 6371000;
          lat1 = radians radar_lat;
          lon1 = radians radar_lon;
          az = radians azimuth_deg;
          lat2 = arcsin (sin lat1 * cos (d / R) + cos lat1 * sin (d / R) * cos az);
          lon2 = lon1 + atan2 (sin az * sin (d / R) * cos lat1) (cos (d / R) - sin lat1 * sin lat2)
      in (degrees lat2, degrees lon2))"

text \<open>A correlation of an octet.\<close>

definition corr :: "string \<Rightarrow> int \<Rightarrow> string \<times> pyval" where
  "corr k b = (k, rnd 4 (of_int (s8 b) / 128))"

subsection \<open>Shapes of fields\<close>

definition u24_field :: "(int \<Rightarrow> dict) \<Rightarrow> subdecoder" where
  "u24_field f = fixed 3 (\<lambda>data pos. do { v \<leftarrow> u24 data pos; Some (f v) })"

definition s24_field :: "(int \<Rightarrow> dict) \<Rightarrow> subdecoder" where
  "s24_field f = fixed 3 (\<lambda>data pos. do { v \<leftarrow> s24 data pos; Some (f v) })"

text \<open>A word and a correlation; a word and two; two words, and two words and a correlation.\<close>

definition word_corr_field :: "(int \<Rightarrow> dict) \<Rightarrow> string \<Rightarrow> subdecoder" where
  "word_corr_field f k = fixed 3 (\<lambda>data pos. do { w \<leftarrow> u16 data pos; c \<leftarrow> byte_at data (pos + 2); Some (f w @ [corr k c]) })"

definition word_corrs_field :: "(int \<Rightarrow> dict) \<Rightarrow> string \<Rightarrow> string \<Rightarrow> subdecoder" where
  "word_corrs_field f j k = fixed 4 (\<lambda>data pos. do {
     w \<leftarrow> u16 data pos;
     b \<leftarrow> byte_at data (pos + 2);
     c \<leftarrow> byte_at data (pos + 3);
     Some (f w @ [corr j b, corr k c])
   })"

definition words_field :: "(int \<Rightarrow> int \<Rightarrow> dict) \<Rightarrow> subdecoder" where
  "words_field f = fixed 4 (\<lambda>data pos. do { v \<leftarrow> u16 data pos; w \<leftarrow> u16 data (pos + 2); Some (f v w) })"

definition int16s_field :: "(int \<Rightarrow> int \<Rightarrow> dict) \<Rightarrow> subdecoder" where
  "int16s_field f = fixed 4 (\<lambda>data pos. do { v \<leftarrow> s16 data pos; w \<leftarrow> s16 data (pos + 2); Some (f v w) })"

definition words_corr_field :: "(int \<Rightarrow> int \<Rightarrow> dict) \<Rightarrow> string \<Rightarrow> subdecoder" where
  "words_corr_field f k = fixed 5 (\<lambda>data pos. do {
     v \<leftarrow> u16 data pos;
     w \<leftarrow> u16 data (pos + 2);
     c \<leftarrow> byte_at data (pos + 4);
     Some (f v w @ [corr k c])
   })"

text \<open>Correlations with two and with four others.\<close>

definition corr2_field :: "string \<Rightarrow> subdecoder" where
  "corr2_field k = octets_field (\<lambda>a b. [corr (k @ ''_x'') a, corr (k @ ''_y'') b])"

definition corr4_field :: "string \<Rightarrow> string \<Rightarrow> subdecoder" where
  "corr4_field j k = fixed 4 (\<lambda>data pos. do {
     a \<leftarrow> byte_at data pos;
     b \<leftarrow> byte_at data (pos + 1);
     c \<leftarrow> byte_at data (pos + 2);
     e \<leftarrow> byte_at data (pos + 3);
     Some [corr (j @ ''_x_'' @ k @ ''_x'') a, corr (j @ ''_x_'' @ k @ ''_y'') b, corr (j @ ''_y_'' @ k @ ''_x'') c, corr (j @ ''_y_'' @ k @ ''_y'') e]
   })"

subsection \<open>Compound items\<close>

definition cat15_fields270 :: "subdecoder list" where
  "cat15_fields270 = map (\<lambda>k. word_field (\<lambda>w. [(k, rnd 2 (of_int w * 0.01))])) [''target_length_m'', ''target_width_m'', ''target_height_m''] @
     [word_field (\<lambda>w. [(''orientation_deg'', rnd 3 (of_int w * 360 / 65536))])]"

definition cat15_p84 :: "bytes \<Rightarrow> nat \<Rightarrow> dict option" where
  "cat15_p84 data pos = do {
     lat \<leftarrow> s32 data pos;
     lon \<leftarrow> s32 data (pos + 4);
     Some [(''lat_deg'', rnd 7 (of_int lat * (180 / 2 ^ 31))), (''lon_deg'', rnd 7 (of_int lon * (180 / 2 ^ 31)))]
   }"

definition cat15_fields600 :: "subdecoder list" where
  "cat15_fields600 = [
     fixed 8 cat15_p84,
     words_corr_field (\<lambda>v w. [(''hpos_resolution_x_m'', rnd 2 (of_int v * 0.5)), (''hpos_resolution_y_m'', rnd 2 (of_int w * 0.5))])
       ''hpos_resolution_corr_xy'',
     words_corr_field (\<lambda>v w. [(''hpos_precision_x_m'', rnd 2 (of_int v * 0.25)), (''hpos_precision_y_m'', rnd 2 (of_int w * 0.25))])
       ''hpos_precision_corr_xy'']"

definition cat15_interval :: "string \<Rightarrow> subdecoder" where
  "cat15_interval n = u24_field (\<lambda>v. [(''geo_height_ci_'' @ n @ ''_upper_m'', VInt (drop_bit 12 v * 16)),
     (''geo_height_ci_'' @ n @ ''_lower_m'', VInt ((v AND 0xFFF) * 16))])"

definition cat15_fields601 :: "subdecoder list" where
  "cat15_fields601 = [
     s24_field (\<lambda>v. [(''geo_height_m'', rnd 2 (of_int v * 0.01))]),
     u24_field (\<lambda>v. [(''geo_height_resolution_m'', rnd 2 (of_int v * 0.01))]),
     u24_field (\<lambda>v. [(''geo_height_precision_m'', rnd 2 (of_int v * 0.01))]),
     cat15_interval ''6'', cat15_interval ''9'',
     corr2_field ''corr_geo_height_hp'', corr2_field ''corr_geo_height_hv'', corr2_field ''corr_geo_height_ha'']"

definition cat15_hv :: "bytes \<Rightarrow> nat \<Rightarrow> dict option" where
  "cat15_hv data pos = (let v = from_bytes_big (py_slice data pos (pos + 5)) in
     Some [(''hvel_x_ms'', rnd 2 (of_int (signed_bits (bitfield v 20 0xFFFFF) 20) * 0.01)),
       (''hvel_y_ms'', rnd 2 (of_int (signed_bits (v AND 0xFFFFF) 20) * 0.01))])"

definition cat15_fields602 :: "subdecoder list" where
  "cat15_fields602 = [
     fixed 5 cat15_hv,
     words_corr_field (\<lambda>v w. [(''hvel_resolution_x_ms'', rnd 2 (of_int v * 0.01)), (''hvel_resolution_y_ms'', rnd 2 (of_int w * 0.01))])
       ''hvel_resolution_corr_xy'',
     words_corr_field (\<lambda>v w. [(''hvel_precision_x_ms'', rnd 2 (of_int v * 0.01)), (''hvel_precision_y_ms'', rnd 2 (of_int w * 0.01))])
       ''hvel_precision_corr_xy'',
     corr4_field ''corr_hvel'' ''hpos'']"

definition cat15_fields603 :: "subdecoder list" where
  "cat15_fields603 = [
     u24_field (\<lambda>v. [(''haccel_x_ms2'', rnd 3 (of_int (signed_bits (bitfield v 12 0xFFF) 12) / 16)),
       (''haccel_y_ms2'', rnd 3 (of_int (signed_bits (v AND 0xFFF) 12) / 16))]),
     u32_field (\<lambda>v. [(''haccel_precision_x_ms2'', rnd 3 (of_int (bitfield v 20 0xFFF) / 16)),
       (''haccel_precision_y_ms2'', rnd 3 (of_int (bitfield v 8 0xFFF) / 16)), corr ''haccel_precision_corr_xy'' (v AND 0xFF)]),
     corr4_field ''corr_haccel'' ''hpos'', corr4_field ''corr_haccel'' ''hvel'']"

definition cat15_fields604 :: "subdecoder list" where
  "cat15_fields604 = [
     s24_field (\<lambda>v. [(''vvel_ms'', rnd 2 (of_int v * 0.01))]),
     word_field (\<lambda>w. [(''vvel_resolution_ms'', rnd 2 (of_int w * 0.01))]),
     word_corr_field (\<lambda>w. [(''vvel_precision_ms'', rnd 2 (of_int w * 0.01))]) ''corr_vvel_geo_height'',
     corr2_field ''corr_vvel_hp'', corr2_field ''corr_vvel_hv'', corr2_field ''corr_vvel_ha'']"

definition cat15_fields605 :: "subdecoder list" where
  "cat15_fields605 = [
     int16_field (\<lambda>w. [(''vaccel_ms2'', rnd 2 (of_int w * 0.01))]),
     word_corrs_field (\<lambda>w. [(''vaccel_precision_ms2'', rnd 2 (of_int w * 0.01))]) ''corr_vaccel_geo_height'' ''corr_vaccel_vvel'',
     corr2_field ''corr_vaccel_hp'', corr2_field ''corr_vaccel_hv'', corr2_field ''corr_vaccel_ha'']"

definition cat15_sdrr :: "bytes \<Rightarrow> nat \<Rightarrow> dict option" where
  "cat15_sdrr data pos = do {
     v \<leftarrow> u24 data pos;
     c \<leftarrow> byte_at data (pos + 3);
     Some [(''range_rate_precision_ms'', rnd 2 (of_int v * 0.1)), corr ''corr_range_rate_range'' c]
   }"

definition cat15_fields625 :: "subdecoder list" where
  "cat15_fields625 = [
     s24_field (\<lambda>v. [(''range_m'', rnd 1 (of_int v * 0.1))]),
     u24_field (\<lambda>v. [(''range_resolution_m'', rnd 1 (of_int v * 0.1))]),
     u24_field (\<lambda>v. [(''range_precision_m'', rnd 1 (of_int v * 0.1))]),
     s24_field (\<lambda>v. [(''range_rate_ms'', rnd 2 (of_int v * 0.1))]),
     u24_field (\<lambda>v. [(''range_rate_resolution_ms'', rnd 2 (of_int v * 0.1))]),
     fixed 4 cat15_sdrr,
     int16_field (\<lambda>w. [(''range_accel_ms2'', rnd 3 (of_int w / 64))]),
     word_corrs_field (\<lambda>w. [(''range_accel_precision_ms2'', rnd 4 (of_int w / 128))]) ''corr_range_accel_range'' ''corr_range_accel_range_rate'']"

definition cat15_fields626 :: "subdecoder list" where
  "cat15_fields626 = [
     s24_field (\<lambda>v. [(''doppler_vel_ms'', rnd 2 (of_int v * 0.01))]),
     word_field (\<lambda>w. [(''doppler_vel_precision_ms'', rnd 3 (of_int w / 64))]),
     int16_field (\<lambda>w. [(''doppler_accel_ms2'', rnd 3 (of_int w / 64))]),
     word_corr_field (\<lambda>w. [(''doppler_accel_precision_ms2'', rnd 3 (of_int w / 64))]) ''corr_doppler_accel_vel''] @
     map (\<lambda>k. octet_field (\<lambda>b. [corr k b]))
       [''corr_doppler_vel_range'', ''corr_doppler_vel_range_rate'', ''corr_doppler_vel_range_accel'', ''corr_doppler_accel_range'',
        ''corr_doppler_accel_range_rate'', ''corr_doppler_accel_range_accel'']"

definition cat15_fields627 :: "subdecoder list" where
  "cat15_fields627 = [
     word_field (\<lambda>w. [(''azimuth_deg'', rnd 3 (of_int w * 360 / 65536))]),
     word_field (\<lambda>w. [(''azimuth_resolution_deg'', rnd 4 (of_int w * 45 / 65536))]),
     word_field (\<lambda>w. [(''azimuth_precision_deg'', rnd 4 (of_int w * 45 / 65536))]),
     int16_field (\<lambda>w. [(''azimuth_rate_degs'', rnd 4 (of_int w * 180 / 65536))]),
     word_corr_field (\<lambda>w. [(''azimuth_rate_precision_degs'', rnd 4 (of_int w * 45 / 65536))]) ''corr_azimuth_rate_azimuth'',
     words_field (\<lambda>v w. [(''azimuth_extent_start_deg'', rnd 3 (of_int v * 360 / 65536)), (''azimuth_extent_end_deg'', rnd 3 (of_int w * 360 / 65536))])]"

definition cat15_fields628 :: "subdecoder list" where
  "cat15_fields628 = [
     int16_field (\<lambda>w. [(''elevation_deg'', rnd 4 (of_int w * 180 / 65536))]),
     word_field (\<lambda>w. [(''elevation_resolution_deg'', rnd 4 (of_int w * 45 / 65536))]),
     word_field (\<lambda>w. [(''elevation_precision_deg'', rnd 4 (of_int w * 45 / 65536))]),
     int16_field (\<lambda>w. [(''elevation_rate_degs'', rnd 4 (of_int w * 180 / 65536))]),
     word_corr_field (\<lambda>w. [(''elevation_rate_precision_degs'', rnd 4 (of_int w * 45 / 65536))]) ''corr_elevation_rate_elevation'',
     int16s_field (\<lambda>v w. [(''elevation_extent_start_deg'', rnd 3 (of_int v * 180 / 65536)), (''elevation_extent_end_deg'', rnd 3 (of_int w * 180 / 65536))])]"

definition cat15_fields630 :: "subdecoder list" where
  "cat15_fields630 = [
     octet_field (\<lambda>b. [(''direct_path_power_db'', VInt (s8 b))]),
     octet_field (\<lambda>b. [(''direct_path_snr_db'', VInt (s8 b))]),
     word_field (\<lambda>w. [(''reflected_path_power_db'', VInt (signed_bits (w AND 0x1FF) 9))]),
     octet_field (\<lambda>b. [(''reflected_path_snr_db'', VInt (s8 b))])]"

subsection \<open>Items\<close>

definition cat15_i020 :: item where
  "cat15_i020 = fx_record
     (\<lambda>b. [(''momu'', label cat15_momu ''unknown'' (bitfield b 6 0x03)), (''ttax'', label cat15_ttax ''unknown'' (bitfield b 4 0x03)),
        (''scd'', label cat15_scd ''unknown'' (bitfield b 2 0x03))])
     (\<lambda>b. [])"

text \<open>The warnings, which are lost when the last of them is missing.\<close>

function cat15_conditions_loop :: "int \<Rightarrow> int list \<Rightarrow> item" where
  "cat15_conditions_loop b conditions data d pos =
     (if \<not> bits b 1 then Some (Next (puts d [(''warning_error_conditions'', VList (map VInt conditions))], pos))
      else if pos + 1 > length data then Some (Return (d, length data))
      else do {
        b \<leftarrow> byte_at data pos;
        cat15_conditions_loop b (conditions @ [bitfield b 1 0x7F]) data d (pos + 1)
      })"
  by pat_completeness auto
termination
  by (relation "measure (\<lambda>(b, cs, data, d, pos). length data - pos)") auto

declare cat15_conditions_loop.simps [simp del]

definition cat15_i030 :: item where
  "cat15_i030 data d pos = need 1 data d pos (do {
     b \<leftarrow> byte_at data pos;
     cat15_conditions_loop b [bitfield b 1 0x7F] data d (pos + 1)
   })"

definition cat15_i170 :: item where
  "cat15_i170 = fx_record
     (\<lambda>b. onlyif (bits b 0x80) [(''in_blind_zone'', VBool True)] @ onlyif (bits b 0x40) [(''in_blanked_zone'', VBool True)] @
        onlyif (bits b 0x20) [(''terminated_by_user'', VBool True)] @ onlyif (bits b 0x08) [(''coasted_position'', VBool True)] @
        onlyif (bits b 0x04) [(''coasted_height'', VBool True)] @ [(''confirmed'', VBool (\<not> bits b 0x02))])
     (\<lambda>b. [])"

definition cat15_i300 :: item where
  "cat15_i300 = record_list ''object_classification'' 2 (\<lambda>data pos. do {
     w \<leftarrow> u16 data pos;
     Some (VDict [(''class'', VInt (bitfield w 7 0x1FF)), (''probability'', VInt (w AND 0x7F))])
   })"

definition cat15_i400 :: item where
  "cat15_i400 = record_item 5 (\<lambda>data pos. do {
     p \<leftarrow> u16 data pos;
     n \<leftarrow> u24 data (pos + 2);
     Some [(''pair_id'', VInt p), (''observation_num'', VInt n)]
   })"

definition cat15_i480 :: item where
  "cat15_i480 = record_list ''associations_raw'' 5 (\<lambda>data pos. Some (VStr (hex_bytes (py_slice data pos (pos + 5)))))"

definition cat15_i631 :: item where
  "cat15_i631 = record_list ''contours'' 8 (\<lambda>data pos. do {
     az \<leftarrow> u16 data pos;
     el \<leftarrow> s16 data (pos + 2);
     stop \<leftarrow> u16 data (pos + 4);
     start \<leftarrow> u16 data (pos + 6);
     Some (VDict [(''azimuth_deg'', rnd 3 (of_int az * 360 / 65536)), (''elevation_deg'', rnd 3 (of_int el * 180 / 65536)),
       (''range_stop_m'', rnd 2 (of_int stop * 10000 / 65536)), (''range_start_m'', rnd 2 (of_int start * 10000 / 65536))])
   })"

definition cat15_items :: "item list" where
  "cat15_items = [
     record_pair ''sac'' ''sic'',
     record_octet (\<lambda>b. [(''msg_type'', coded cat15_msg_types ''type_'' (bitfield b 1 0x7F)), (''event_driven'', flag b 0x01)]),
     record_octet (\<lambda>b. [(''service_id'', VInt b)]), cat15_i020, cat15_i030, record_tod,
     record_word (\<lambda>w. [(''track_num'', VInt w)]), cat15_i170,
     record_word (\<lambda>w. [(''update_period_s'', rnd 3 (of_int (w AND 0x3FFF) / 128))]),
     sub_item (sub_decode 1 cat15_fields270), cat15_i300, cat15_i400, sub_item (sub_decode 1 cat15_fields600),
     sub_item (sub_decode 2 cat15_fields601), sub_item (sub_decode 1 cat15_fields602), sub_item (sub_decode 1 cat15_fields603),
     sub_item (sub_decode 1 cat15_fields604), sub_item (sub_decode 1 cat15_fields605), cat15_i480,
     sub_item (sub_decode 2 cat15_fields625), sub_item (sub_decode 2 cat15_fields626), sub_item (sub_decode 1 cat15_fields627),
     sub_item (sub_decode 1 cat15_fields628), sub_item (sub_decode 1 cat15_fields630), cat15_i631, skip_item]"

text \<open>
  The last step: only the range and azimuth items write these two fields, and they write floats.
\<close>

definition cat15_place :: "real option \<Rightarrow> real option \<Rightarrow> dict \<Rightarrow> dict option" where
  "cat15_place site_lat site_lon track = Some
     (if has_position track then track
      else (case (site_lat, site_lon, dget track ''range_m'', dget track ''azimuth_deg'') of
          (Some a, Some b, Some (VFloat range_m), Some (VFloat azimuth)) \<Rightarrow>
            (case cat15_polar_to_wgs84 a b range_m azimuth of (lat, lon) \<Rightarrow>
              puts track [(''lat_deg'', rnd 7 lat), (''lon_deg'', rnd 7 lon)])
        | _ \<Rightarrow> track))"

definition decode_cat015_record :: "real option \<Rightarrow> real option \<Rightarrow> real \<Rightarrow> bytes \<Rightarrow> nat \<Rightarrow> dstate option" where
  "decode_cat015_record site_lat site_lon now =
     decode_with (record_track0 ''ASTERIX CAT-15 Ed.1.2'' now) (dispatch_or_end cat15_items) (cat15_place site_lat site_lon)"

definition cat15_topic :: "string \<Rightarrow> dict \<Rightarrow> string \<Rightarrow> string" where
  "cat15_topic pre track source = pre @ ''/air/'' @ source @ ''/radar/unknown/aircraft''"

definition cat15_handler :: "real option \<Rightarrow> real option \<Rightarrow> (pyval \<Rightarrow> string) \<Rightarrow> string \<Rightarrow> real \<Rightarrow> bytes \<Rightarrow> event list option" where
  "cat15_handler site_lat site_lon rp pre now data = do {
     rs \<leftarrow> decode_records (decode_cat015_record site_lat site_lon now) data 0;
     handle_records (forward_placed rp (cat15_topic pre) ''AsterixCat15Track'' 15 ''cat015'') rs
   }"

subsection \<open>The contracts\<close>

lemma typed_corr [flow_simps]: "k \<notin> set typed_keys \<Longrightarrow> field_ok k (rnd n x)"
  by (simp add: field_ok_def rnd_def)

text \<open>The two placements are the same, in metres and in nautical miles.\<close>

lemma cat15_polar_nautical: "cat15_polar_to_wgs84 a b (r * 1852) z = polar_to_wgs84 a b r z"
  by (simp add: cat15_polar_to_wgs84_def polar_to_wgs84_def)

lemma typed_corrs [flow_simps]:
  "k \<notin> set typed_keys \<Longrightarrow> typed d \<Longrightarrow> typed (corr k b # d)"
  by (simp add: typed_def corr_def field_ok_def)

lemma u24_field_moves [item_ok]: "(\<And>v. typed (f v)) \<Longrightarrow> subdecoder_moves (u24_field f)"
  unfolding u24_field_def by (rule fixed_moves) (simp add: u24_def byte_simps flow_simps)

lemma s24_field_moves [item_ok]: "(\<And>v. typed (f v)) \<Longrightarrow> subdecoder_moves (s24_field f)"
  unfolding s24_field_def by (rule fixed_moves) (simp add: s24_def flow_simps)

lemma word_corr_field_moves [item_ok]:
  "(\<And>w. typed (f w)) \<Longrightarrow> k \<notin> set typed_keys \<Longrightarrow> subdecoder_moves (word_corr_field f k)"
  unfolding word_corr_field_def by (rule fixed_moves) (simp add: byte_simps flow_simps)

lemma word_corrs_field_moves [item_ok]:
  "(\<And>w. typed (f w)) \<Longrightarrow> j \<notin> set typed_keys \<Longrightarrow> k \<notin> set typed_keys \<Longrightarrow> subdecoder_moves (word_corrs_field f j k)"
  unfolding word_corrs_field_def by (rule fixed_moves) (simp add: byte_simps flow_simps)

lemma words_field_moves [item_ok]: "(\<And>v w. typed (f v w)) \<Longrightarrow> subdecoder_moves (words_field f)"
  unfolding words_field_def by (rule fixed_moves) (simp add: byte_simps flow_simps)

lemma int16s_field_moves [item_ok]: "(\<And>v w. typed (f v w)) \<Longrightarrow> subdecoder_moves (int16s_field f)"
  unfolding int16s_field_def by (rule fixed_moves) (simp add: byte_simps flow_simps)

lemma words_corr_field_moves [item_ok]:
  "(\<And>v w. typed (f v w)) \<Longrightarrow> k \<notin> set typed_keys \<Longrightarrow> subdecoder_moves (words_corr_field f k)"
  unfolding words_corr_field_def by (rule fixed_moves) (simp add: byte_simps flow_simps)

lemma corr2_field_moves [item_ok]:
  "k @ ''_x'' \<notin> set typed_keys \<Longrightarrow> k @ ''_y'' \<notin> set typed_keys \<Longrightarrow> subdecoder_moves (corr2_field k)"
  unfolding corr2_field_def by (rule octets_field_moves) (simp add: flow_simps)

lemma corr4_field_moves [item_ok]:
  "j @ ''_x_'' @ k @ ''_x'' \<notin> set typed_keys \<Longrightarrow> j @ ''_x_'' @ k @ ''_y'' \<notin> set typed_keys \<Longrightarrow>
   j @ ''_y_'' @ k @ ''_x'' \<notin> set typed_keys \<Longrightarrow> j @ ''_y_'' @ k @ ''_y'' \<notin> set typed_keys \<Longrightarrow> subdecoder_moves (corr4_field j k)"
  unfolding corr4_field_def by (rule fixed_moves) (simp add: byte_simps flow_simps)

lemmas cat15_fields = cat15_fields270_def cat15_fields600_def cat15_fields601_def cat15_fields602_def cat15_fields603_def
  cat15_fields604_def cat15_fields605_def cat15_fields625_def cat15_fields626_def cat15_fields627_def cat15_fields628_def
  cat15_fields630_def

lemma cat15_parts_move [item_ok]:
  "subdecoder_moves (fixed 8 cat15_p84)" "subdecoder_moves (fixed 5 cat15_hv)" "subdecoder_moves (fixed 4 cat15_sdrr)"
  "subdecoder_moves (cat15_interval n)"
proof -
  have "(''geo_height_ci_'' @ n @ k) \<notin> set typed_keys" for k by simp
  then have t: "typed [(''geo_height_ci_'' @ n @ ''_upper_m'', VInt x), (''geo_height_ci_'' @ n @ ''_lower_m'', VInt y)]" for x y
    by (simp add: typed_def field_ok_def)
  show "subdecoder_moves (cat15_interval n)" unfolding cat15_interval_def by (rule u24_field_moves) (rule t)
qed (auto intro!: fixed_moves simp: cat15_p84_def cat15_hv_def cat15_sdrr_def s32_def u24_def byte_simps flow_simps Let_def)

lemma cat15_fields_move:
  "list_all subdecoder_moves cat15_fields270" "list_all subdecoder_moves cat15_fields600" "list_all subdecoder_moves cat15_fields601"
  "list_all subdecoder_moves cat15_fields602" "list_all subdecoder_moves cat15_fields603" "list_all subdecoder_moves cat15_fields604"
  "list_all subdecoder_moves cat15_fields605" "list_all subdecoder_moves cat15_fields625" "list_all subdecoder_moves cat15_fields626"
  "list_all subdecoder_moves cat15_fields627" "list_all subdecoder_moves cat15_fields628" "list_all subdecoder_moves cat15_fields630"
  unfolding cat15_fields by (simp_all add: item_ok flow_simps)

lemma cat15_conditions_moves:
  "wf_track d \<Longrightarrow> p \<le> q \<Longrightarrow> q \<le> length data \<Longrightarrow> moves p (length data) (cat15_conditions_loop b cs data d q)"
proof (induction b cs data d q rule: cat15_conditions_loop.induct)
  case (1 b cs data d q)
  show ?case
  proof (cases "bits b 1 \<and> q < length data")
    case True
    then have rd: "byte_at data q = Some (uint (data ! q))" by (simp add: byte_simps)
    from "1.IH" [OF _ _ rd] "1.prems" True rd show ?thesis by (simp add: cat15_conditions_loop.simps [of b cs data d q])
  qed (use "1.prems" in \<open>auto simp: cat15_conditions_loop.simps [of b cs data d q] flow_simps\<close>)
qed

lemma cat15_item_moves [item_ok]:
  "item_moves cat15_i020" "item_moves cat15_i170" "item_moves cat15_i300" "item_moves cat15_i400" "item_moves cat15_i480" "item_moves cat15_i631"
  unfolding cat15_i020_def cat15_i170_def cat15_i300_def cat15_i400_def cat15_i480_def cat15_i631_def
  by (auto intro!: item_ok record_item_moves simp: u24_def flow_simps byte_simps)

lemma cat15_i030_moves [item_ok]: "item_moves cat15_i030"
  by (simp add: item_moves_def cat15_i030_def flow_simps byte_simps cat15_conditions_moves)

lemma cat15_place_typed: "wf_track d \<Longrightarrow> \<exists>d'. cat15_place a b d = Some d' \<and> wf_track d'"
  by (auto simp: cat15_place_def flow_simps split: option.split pyval.split prod.split)

interpretation cat15: category_decoder "record_track0 src now" "dispatch_or_end cat15_items" "cat15_place a b" for src now a b
proof unfold_locales
  show "wf_track (record_track0 src now)" by (simp add: record_track0_def wf_track_def flow_simps)
  have "list_all item_moves cat15_items" by (simp add: cat15_items_def item_ok flow_simps sub_item_moves cat15_fields_move)
  then show "moves p (length data) (dispatch_or_end cat15_items data frn d p)" if "wf_track d" "p \<le> length data" for d p data frn
    using that by (rule dispatch_or_end_moves)
qed (rule cat15_place_typed)

interpretation cat15_handler: record_category "decode_cat015_record a b now"
    "forward_placed rp (cat15_topic pre) ''AsterixCat15Track'' 15 ''cat015''" 15 has_position for a b now rp pre
  unfolding decode_cat015_record_def by unfold_locales (simp_all add: cat15.decode_moves forward_placed_native)

end
