(* ===== verification/Asterix_Forwards.thy ===== *)
theory Asterix_Forwards
  imports Asterix_Cat015
begin

text \<open>What the translators of records promise together.\<close>

text \<open>By category: the decoder of a record, the records that are kept, and the handler of a block.\<close>

definition record_translator ::
  "real option \<times> real option \<Rightarrow> string \<times> string \<Rightarrow> (pyval \<Rightarrow> string) \<Rightarrow> string \<Rightarrow> real \<Rightarrow> int \<Rightarrow>
   ((bytes \<Rightarrow> nat \<Rightarrow> dstate option) \<times> (dict \<Rightarrow> bool) \<times> (bytes \<Rightarrow> event list option)) option" where
  "record_translator site names rp pre now category = (case (site, names) of ((a, b), (env, name)) \<Rightarrow> map_of [
     (10, (decode_cat010_record a b now, cat10_kept, cat10_handler env a b name rp pre now)),
     (11, (decode_cat011_record a b now, has_position, cat11_handler a b rp pre now)),
     (15, (decode_cat015_record a b now, has_position, cat15_handler a b rp pre now)),
     (17, (decode_cat017_record now, \<lambda>_. True, cat17_handler rp pre now)),
     (18, (decode_cat018_record a b now, \<lambda>_. True, cat18_handler a b rp pre now)),
     (205, (decode_cat205_record a b now, has_position, cat205_handler a b rp pre now))] category)"

text \<open>
  C30: The translators of records lose nothing: for any octets that fit a block, however its records are cut, the
  handler of CAT-010, 011, 015, 017, 018 or 205 does not raise; the records it reads make up the block; and its
  native messages are blocks of its category that hold exactly the records it keeps, in their order: of CAT-010 the
  target reports with a position, of CAT-011, 015 and 205 those with a position, of CAT-017 and 018 all of them.
\<close>

theorem record_translators_forward:
  assumes "record_translator site names rp pre now category = Some (decode, keep, handler)"
    and "civil_radars (fst names) \<noteq> None" and "length data \<le> 65532"
  shows "\<exists>rs es. decode_records decode data 0 = Some rs \<and> handler data = Some es \<and> concat (map snd rs) = data \<and>
    list_all (is_block category) (natives es) \<and>
    concat (map (drop 3) (natives es)) = concat (map snd (filter (\<lambda>(t, r). keep t) rs))"
proof -
  obtain a b env name where n: "site = (a, b)" "names = (env, name)" by (cases site, cases names)
  have "category \<in> {10, 11, 15, 17, 18, 205}"
    using assms(1) by (auto simp: record_translator_def n split: if_splits)
  then show ?thesis
  proof (elim insertE emptyE)
    assume "category = 10"
    with assms(1) record_category.handler_forwards [OF cat10_forwards assms(3), of env a b now rp pre name] assms(2) show ?thesis
      by (fastforce simp: record_translator_def n cat10_handler_def)
  next
    assume "category = 11"
    with assms(1) cat11_handler.handler_forwards [OF assms(3), of a b now rp pre] show ?thesis
      by (fastforce simp: record_translator_def n cat11_handler_def)
  next
    assume "category = 15"
    with assms(1) cat15_handler.handler_forwards [OF assms(3), of a b now rp pre] show ?thesis
      by (fastforce simp: record_translator_def n cat15_handler_def)
  next
    assume "category = 17"
    with assms(1) cat17_handler.handler_forwards [OF assms(3), of now rp pre] show ?thesis
      by (fastforce simp: record_translator_def n cat17_handler_def)
  next
    assume "category = 18"
    with assms(1) cat18_handler.handler_forwards [OF assms(3), of a b now rp pre] show ?thesis
      by (fastforce simp: record_translator_def n cat18_handler_def)
  next
    assume "category = 205"
    with assms(1) cat205_handler.handler_forwards [OF assms(3), of a b now rp pre] show ?thesis
      by (fastforce simp: record_translator_def n cat205_handler_def)
  qed
qed

text \<open>A CAT-017 record that ends after its source is forwarded as it was received.\<close>

theorem record_translators_forward_witness:
  "\<exists>es. cat17_handler (\<lambda>_. []) ''pod'' 0 [0x80, 1, 2] = Some es \<and> concat (map (drop 3) (natives es)) = [0x80, 1, 2]"
proof -
  have t: "record_translator (None, None) ([], []) (\<lambda>_. []) ''pod'' 0 17 =
      Some (decode_cat017_record 0, \<lambda>_. True, cat17_handler (\<lambda>_. []) ''pod'' 0)"
    by (simp add: record_translator_def)
  have "civil_radars [] \<noteq> None" by code_simp
  with record_translators_forward [OF t, of "[0x80, 1, 2]"] show ?thesis by auto
qed

end
