(* ===== verification/Aartos.thy ===== *)
theory Aartos
  imports Asterix_Fields Fusion_Filters Topics Geodesy
begin

text \<open>
  The AARTOS translator (\<open>aartos_json.py\<close>): samples of drone detections, from which tracks, sites of antennas and
  deletions are published. Each host keeps one identity for each class of object, one topic for it and the sites
  of its antennas. The document of a sample is the parsed payload, \<open>None\<close> when it is no JSON; numbers are reals, so a
  document with \<open>NaN\<close> is none of these. A handler returns the state it leaves and its publications, \<open>None\<close> when it
  raises (what it published before is not shown then). The time of the host is the argument \<open>now\<close>.
\<close>

subsection \<open>Fields\<close>

text \<open>\<open>d.get(k)\<close>, and \<open>v or w\<close>.\<close>

definition got :: "dict \<Rightarrow> string \<Rightarrow> pyval" where
  "got d k = (case dget d k of None \<Rightarrow> VNone | Some v \<Rightarrow> v)"

definition value_or :: "pyval \<Rightarrow> pyval \<Rightarrow> pyval" where
  "value_or v w = (if truthy v then v else w)"

text \<open>\<open>round(v, n)\<close>: an integer stays one.\<close>

definition round_value :: "nat \<Rightarrow> pyval \<Rightarrow> pyval option" where
  "round_value n v = (case v of
     VFloat r \<Rightarrow> Some (VFloat (py_round r n))
   | VInt i \<Rightarrow> Some (VInt i)
   | VBool b \<Rightarrow> Some (VInt (if b then 1 else 0))
   | _ \<Rightarrow> None)"

text \<open>\<open>for x in v or []\<close>, when each \<open>x\<close> is asked for a field: what is no list of objects raises.\<close>

definition as_list :: "pyval \<Rightarrow> pyval list option" where
  "as_list v = (if \<not> truthy v then Some [] else case v of VList vs \<Rightarrow> Some vs | _ \<Rightarrow> None)"

definition as_dict :: "pyval \<Rightarrow> dict option" where
  "as_dict v = (case v of VDict d \<Rightarrow> Some d | _ \<Rightarrow> None)"

definition distance_m :: "real \<Rightarrow> real \<Rightarrow> real \<Rightarrow> real \<Rightarrow> real" where
  "distance_m lat1 lon1 lat2 lon2 =
     (let r = 6371000;
          p1 = radians lat1;
          p2 = radians lat2;
          dphi = radians (lat2 - lat1);
          dlambda = radians (lon2 - lon1);
          a = (sin (dphi / 2))\<^sup>2 + cos p1 * cos p2 * (sin (dlambda / 2))\<^sup>2
      in 2 * r * arcsin (sqrt a))"

definition key_segment :: "string \<Rightarrow> string" where
  "key_segment v = (if v = [] then ''_'' else map (\<lambda>c. if is_alnum c \<or> c \<in> set ''._-'' then c else CHR ''_'') v)"

definition site_key :: "string \<Rightarrow> string" where
  "site_key antenna_id = ''aartos-'' @ key_segment antenna_id"

subsection \<open>Tracks\<close>

definition aartos_affiliation :: "(string \<times> string) list" where
  "aartos_affiliation = [(''friendly'', ''friendly''), (''warning'', ''unknown''), (''defend'', ''hostile''), (''panic'', ''hostile''),
     (''unknown'', ''unknown''), (''info'', ''unknown''), (''ignore'', ''unknown'')]"

definition operator_categories :: "string list" where
  "operator_categories = [''wlan'', ''remote'', ''poa'']"

definition is_operator_track :: "(pyval \<Rightarrow> string) \<Rightarrow> dict \<Rightarrow> bool" where
  "is_operator_track rp tracking \<longleftrightarrow> py_lower (py_strip (text_of rp tracking ''categoryName'')) \<in> set operator_categories"

definition aartos_velocity :: "dict \<Rightarrow> (pyval \<times> pyval) option option" where
  "aartos_velocity tracking =
     (if \<not> holds tracking ''velocityValid'' then Some None
      else if absent tracking ''xvelocity'' \<or> absent tracking ''yvelocity'' then Some None
      else do {
        east \<leftarrow> number (got tracking ''xvelocity'');
        north \<leftarrow> number (got tracking ''yvelocity'');
        Some (Some (VFloat (py_round (hypot east north) 3), VFloat (py_round (float_mod (degrees (atan2 east north)) 360) 2)))
      })"

text \<open>The position of a detection or of an antenna, when it is on the globe.\<close>

definition aartos_position :: "dict \<Rightarrow> (pyval \<times> pyval) option option" where
  "aartos_position d =
     (if absent d ''latitude'' \<or> absent d ''longitude'' then Some None
      else do {
        lat \<leftarrow> number (got d ''latitude'');
        (if \<not> (- 90 \<le> lat \<and> lat \<le> 90) then Some None
         else do {
           lon \<leftarrow> number (got d ''longitude'');
           (if \<not> (- 180 \<le> lon \<and> lon \<le> 180) then Some None
            else do {
              a \<leftarrow> round_value 7 (got d ''latitude'');
              b \<leftarrow> round_value 7 (got d ''longitude'');
              Some (Some (a, b))
            })
         })
      })"

definition put_elevation :: "dict \<Rightarrow> dict \<Rightarrow> dict option" where
  "put_elevation d track =
     (if absent d ''elevation'' then Some track
      else do { alt \<leftarrow> round_value 2 (got d ''elevation''); Some (puts track [(''geo_alt_m'', alt)]) })"

definition tracking_to_track :: "(pyval \<Rightarrow> string) \<Rightarrow> dict \<Rightarrow> pyval \<Rightarrow> dict option option" where
  "tracking_to_track rp tracking ref_ts =
     (if \<not> holds tracking ''positionValid'' then Some None
      else do {
        position \<leftarrow> aartos_position tracking;
        (case position of
           None \<Rightarrow> Some None
         | Some (lat, lon) \<Rightarrow> do {
             let track_id = py_str rp (got tracking ''trackID'');
             let alert = py_lower (py_str rp (value_or (got tracking ''alertLevel'') (VStr ''unknown'')));
             track \<leftarrow> put_elevation tracking [
               (''_ts'', ref_ts), (''_src'', VStr ''AARTOS''), (''uid'', VStr (''aartos-'' @ track_id)),
               (''lat_deg'', lat), (''lon_deg'', lon),
               (''callsign'', value_or (got tracking ''droneName'') (value_or (got tracking ''categoryName'') (VStr (''AARTOS-'' @ track_id)))),
               (''_entity_kind'', VStr (if is_operator_track rp tracking then ''unit'' else ''uav'')),
               (''aartos_category'', got tracking ''categoryName''), (''aartos_alert_level'', VStr alert),
               (''aartos_probability'', got tracking ''probability''), (''aartos_zone_ids'', value_or (got tracking ''zoneIDs'') VNone)];
             velocity \<leftarrow> aartos_velocity tracking;
             Some (Some (case velocity of
                 None \<Rightarrow> track
               | Some (speed, heading) \<Rightarrow> puts track [(''speed_ms'', speed), (''heading_deg'', heading)]))
           })
      })"

text \<open>The class of a track.\<close>

definition entity_kind :: "dict \<Rightarrow> string" where
  "entity_kind track = (case dget track ''_entity_kind'' of Some (VStr k) \<Rightarrow> if k = [] then ''uav'' else k | _ \<Rightarrow> ''uav'')"

definition class_topic :: "string \<Rightarrow> string \<Rightarrow> string \<Rightarrow> string" where
  "class_topic base affiliation kind =
     (if kind = ''unit'' then base @ ''/land/aartos/passive_rf/'' @ affiliation @ ''/unit''
      else base @ ''/air/aartos/passive_rf/'' @ affiliation @ ''/uav'')"

definition aartos_topic :: "string \<Rightarrow> dict \<Rightarrow> string" where
  "aartos_topic base track = class_topic base
     (case dget track ''aartos_alert_level'' of
        Some (VStr alert) \<Rightarrow> (case map_of aartos_affiliation alert of Some a \<Rightarrow> a | None \<Rightarrow> ''unknown'')
      | _ \<Rightarrow> ''unknown'') (entity_kind track)"

subsection \<open>Sites\<close>

definition antenna_to_site :: "(pyval \<Rightarrow> string) \<Rightarrow> dict \<Rightarrow> pyval \<Rightarrow> dict option option" where
  "antenna_to_site rp antenna ref_ts = do {
     position \<leftarrow> aartos_position antenna;
     (case position of
        None \<Rightarrow> Some None
      | Some (lat, lon) \<Rightarrow>
          if absent antenna ''antennaID'' then Some None
          else do {
            let key = VStr (site_key (py_str rp (got antenna ''antennaID'')));
            site \<leftarrow> put_elevation antenna [
              (''_ts'', ref_ts), (''_src'', VStr ''AARTOS''), (''sensor_id'', key), (''uid'', key),
              (''sensor_name'', value_or (got antenna ''antennaName'') (VStr ''AARTOS'')), (''lat_deg'', lat), (''lon_deg'', lon),
              (''passive'', VBool True)];
            Some (Some site)
          })
   }"

definition site_topic :: "(pyval \<Rightarrow> string) \<Rightarrow> string \<Rightarrow> dict \<Rightarrow> string" where
  "site_topic rp base site =
     add_version (semantic_topic rp (base @ ''/land/'' @ py_str rp (got site ''sensor_id'') @ ''/radar/friendly/radar'') site)"

subsection \<open>State of a host\<close>

record identity =
  ident_track_id :: string
  ident_uid :: string
  ident_last_seen :: pyval

record site_identity =
  site_uid :: string
  site_lat :: real
  site_lon :: real

record host_state =
  class_identity :: "(string \<times> identity) list"
  last_topic :: "(string \<times> string) list"
  site_identities :: "site_identity list"

type_synonym aartos_state = "string \<Rightarrow> host_state"

definition new_host :: host_state where
  "new_host = \<lparr>class_identity = [], last_topic = [], site_identities = []\<rparr>"

datatype aartos_event =
    Site_Put string dict
  | Track_Dual string dict
  | Tombstone_Put string dict

text \<open>The identity of a site: the first that is near, which moves to the new position, or a new one.\<close>

definition site_identity_radius_m :: real where
  "site_identity_radius_m = 15"

fun near_site :: "real \<Rightarrow> real \<Rightarrow> site_identity list \<Rightarrow> (string \<times> site_identity list) option" where
  "near_site lat lon [] = None"
| "near_site lat lon (s # ss) =
     (if distance_m lat lon (site_lat s) (site_lon s) < site_identity_radius_m
      then Some (site_uid s, s\<lparr>site_lat := lat, site_lon := lon\<rparr> # ss)
      else map_option (\<lambda>(u, ss). (u, s # ss)) (near_site lat lon ss))"

definition stable_site_uid :: "string \<Rightarrow> string \<Rightarrow> real \<Rightarrow> real \<Rightarrow> site_identity list \<Rightarrow> string \<times> site_identity list" where
  "stable_site_uid host antenna_id lat lon ss = (case near_site lat lon ss of
     Some r \<Rightarrow> r
   | None \<Rightarrow> let u = ''aartos-'' @ key_segment host @ ''-'' @ key_segment antenna_id in
       (u, ss @ [\<lparr>site_uid = u, site_lat = lat, site_lon = lon\<rparr>]))"

definition antenna_step ::
  "(pyval \<Rightarrow> string) \<Rightarrow> string \<Rightarrow> string \<Rightarrow> pyval \<Rightarrow> dict \<Rightarrow> site_identity list \<Rightarrow>
   (site_identity list \<times> (real \<times> real) list \<times> aartos_event list) option" where
  "antenna_step rp base host ref_ts antenna ss = do {
     site \<leftarrow> antenna_to_site rp antenna ref_ts;
     (case site of
        None \<Rightarrow> Some (ss, [], [])
      | Some site \<Rightarrow> do {
          lat \<leftarrow> number (got site ''lat_deg'');
          lon \<leftarrow> number (got site ''lon_deg'');
          let (u, ss) = stable_site_uid host (py_str rp (got antenna ''antennaID'')) lat lon ss;
          let site = puts site [(''sensor_id'', VStr u), (''uid'', VStr u)];
          Some (ss, [(lat, lon)], [Site_Put (site_topic rp base site) site])
        })
   }"

fun antenna_loop ::
  "(pyval \<Rightarrow> string) \<Rightarrow> string \<Rightarrow> string \<Rightarrow> pyval \<Rightarrow> pyval list \<Rightarrow> site_identity list \<Rightarrow>
   (site_identity list \<times> (real \<times> real) list \<times> aartos_event list) option" where
  "antenna_loop rp base host ref_ts [] ss = Some (ss, [], [])"
| "antenna_loop rp base host ref_ts (v # vs) ss = do {
     antenna \<leftarrow> as_dict v;
     (ss, ps, es) \<leftarrow> antenna_step rp base host ref_ts antenna ss;
     (ss, qs, fs) \<leftarrow> antenna_loop rp base host ref_ts vs ss;
     Some (ss, ps @ qs, es @ fs)
   }"

subsection \<open>Detections\<close>

definition antenna_fallback_radius_m :: real where
  "antenna_fallback_radius_m = 40"

definition class_gone_grace_s :: real where
  "class_gone_grace_s = 5"

text \<open>
  The identity of the class: the one it has, with the new identifier and time, or a new one. Seen in a sample is
  the list of the classes.
\<close>

definition refreshed :: "string \<Rightarrow> string \<Rightarrow> pyval \<Rightarrow> identity option \<Rightarrow> identity" where
  "refreshed host tid ref_ts ident = (case ident of
     Some i \<Rightarrow> i\<lparr>ident_track_id := tid, ident_last_seen := ref_ts\<rparr>
   | None \<Rightarrow> \<lparr>ident_track_id = tid, ident_uid = ''aartos-'' @ host @ ''-'' @ tid, ident_last_seen = ref_ts\<rparr>)"

definition at_antenna :: "dict \<Rightarrow> (real \<times> real) list \<Rightarrow> bool option" where
  "at_antenna track positions = do {
     lat \<leftarrow> number (got track ''lat_deg'');
     lon \<leftarrow> number (got track ''lon_deg'');
     Some (list_ex (\<lambda>(a, b). distance_m lat lon a b < antenna_fallback_radius_m) positions)
   }"

definition tracking_step ::
  "(pyval \<Rightarrow> string) \<Rightarrow> string \<Rightarrow> string \<Rightarrow> pyval \<Rightarrow> (real \<times> real) list \<Rightarrow> dict \<Rightarrow> host_state \<Rightarrow>
   (host_state \<times> string list \<times> aartos_event list) option" where
  "tracking_step rp base host ref_ts positions tracking h =
     (if absent tracking ''trackID'' then Some (h, [], [])
      else if has_key ''trackValid'' tracking \<and> \<not> holds tracking ''trackValid'' then Some (h, [], [])
      else do {
        found \<leftarrow> tracking_to_track rp tracking ref_ts;
        (case found of
           None \<Rightarrow> Some (h, [], [])
         | Some track \<Rightarrow> do {
             let cls = entity_kind track;
             let tid = py_str rp (got tracking ''trackID'');
             let ident = refreshed host tid ref_ts (map_of (class_identity h) cls);
             let h = h\<lparr>class_identity := AList.update cls ident (class_identity h)\<rparr>;
             fallback \<leftarrow> at_antenna track positions;
             (if fallback then Some (h, [cls], [])
              else do {
                let track = puts track [(''uid'', VStr (ident_uid ident))];
                let topic = aartos_topic base track;
                Some (h\<lparr>last_topic := AList.update cls topic (last_topic h)\<rparr>, [cls], [Track_Dual topic track])
              })
           })
      })"

fun tracking_loop ::
  "(pyval \<Rightarrow> string) \<Rightarrow> string \<Rightarrow> string \<Rightarrow> pyval \<Rightarrow> (real \<times> real) list \<Rightarrow> pyval list \<Rightarrow> host_state \<Rightarrow>
   (host_state \<times> string list \<times> aartos_event list) option" where
  "tracking_loop rp base host ref_ts positions [] h = Some (h, [], [])"
| "tracking_loop rp base host ref_ts positions (v # vs) h = do {
     tracking \<leftarrow> as_dict v;
     (h, cs, es) \<leftarrow> tracking_step rp base host ref_ts positions tracking h;
     (h, ds, fs) \<leftarrow> tracking_loop rp base host ref_ts positions vs h;
     Some (h, cs @ ds, es @ fs)
   }"

subsection \<open>Deletions\<close>

definition aartos_tombstone :: "real \<Rightarrow> identity \<Rightarrow> dict" where
  "aartos_tombstone now ident = [(''uid'', VStr (ident_uid ident)), (''_ts'', VFloat now), (''_delete'', VBool True)]"

definition tombstone_topic :: "string \<Rightarrow> string \<Rightarrow> host_state \<Rightarrow> string" where
  "tombstone_topic base cls h = (case map_of (last_topic h) cls of Some topic \<Rightarrow> topic | None \<Rightarrow> class_topic base ''unknown'' cls)"

fun tombstone_loop ::
  "string \<Rightarrow> real \<Rightarrow> pyval \<Rightarrow> string list \<Rightarrow> string list \<Rightarrow> host_state \<Rightarrow> (host_state \<times> aartos_event list) option" where
  "tombstone_loop base now ref_ts seen [] h = Some (h, [])"
| "tombstone_loop base now ref_ts seen (cls # cs) h =
     (if cls \<in> set seen then tombstone_loop base now ref_ts seen cs h
      else do {
        ident \<leftarrow> map_of (class_identity h) cls;
        r \<leftarrow> number ref_ts;
        l \<leftarrow> number (ident_last_seen ident);
        (if r - l < class_gone_grace_s then tombstone_loop base now ref_ts seen cs h
         else do {
           (h', es) \<leftarrow> tombstone_loop base now ref_ts seen cs
             (h\<lparr>class_identity := AList.delete cls (class_identity h), last_topic := AList.delete cls (last_topic h)\<rparr>);
           Some (h', Tombstone_Put (tombstone_topic base cls h) (aartos_tombstone now ident) # es)
         })
      })"

subsection \<open>Samples\<close>

definition aartos_host :: "string \<Rightarrow> string \<Rightarrow> string" where
  "aartos_host base key = (let raw = base @ ''/raw/aartos/'' in if starts_with raw key then drop (length raw) key else ''unknown'')"

definition aartos_host_sample ::
  "(pyval \<Rightarrow> string) \<Rightarrow> string \<Rightarrow> string \<Rightarrow> real \<Rightarrow> dict \<Rightarrow> host_state \<Rightarrow> (host_state \<times> aartos_event list) option" where
  "aartos_host_sample rp base host now payload h = do {
     let ref_ts = value_or (got payload ''startTime'') (VFloat now);
     data \<leftarrow> as_dict (value_or (got payload ''data'') (VDict []));
     trackings \<leftarrow> as_list (got data ''trackings'');
     antennas \<leftarrow> as_list (got data ''antennas'');
     (ss, positions, es) \<leftarrow> antenna_loop rp base host ref_ts antennas (site_identities h);
     (h, seen, fs) \<leftarrow> tracking_loop rp base host ref_ts positions trackings (h\<lparr>site_identities := ss\<rparr>);
     (h, gs) \<leftarrow> tombstone_loop base now ref_ts seen (map fst (class_identity h)) h;
     Some (h, es @ fs @ gs)
   }"

definition aartos_sample ::
  "(pyval \<Rightarrow> string) \<Rightarrow> string \<Rightarrow> real \<Rightarrow> string \<Rightarrow> pyval option \<Rightarrow> aartos_state \<Rightarrow> (aartos_state \<times> aartos_event list) option" where
  "aartos_sample rp base now key payload s = (case payload of
     None \<Rightarrow> Some (s, [])
   | Some v \<Rightarrow> do {
       d \<leftarrow> as_dict v;
       let host = aartos_host base key;
       (h, es) \<leftarrow> aartos_host_sample rp base host now d (s host);
       Some (s(host := h), es)
     })"

subsection \<open>Identities\<close>

text \<open>The identities of the first state are in the second, under the same marker.\<close>

definition keeps :: "host_state \<Rightarrow> host_state \<Rightarrow> bool" where
  "keeps h h' \<longleftrightarrow> (\<forall>c i. map_of (class_identity h) c = Some i \<longrightarrow>
     (\<exists>i'. map_of (class_identity h') c = Some i' \<and> ident_uid i' = ident_uid i))"

text \<open>A track bears the marker of its class.\<close>

definition bears_marker :: "host_state \<Rightarrow> dict \<Rightarrow> bool" where
  "bears_marker h track \<longleftrightarrow> (\<exists>i. map_of (class_identity h) (entity_kind track) = Some i \<and> dget track ''uid'' = Some (VStr (ident_uid i)))"

lemma keeps_refl: "keeps h h"
  by (simp add: keeps_def)

lemma keeps_trans: "keeps a b \<Longrightarrow> keeps b c \<Longrightarrow> keeps a c"
  unfolding keeps_def by metis

lemma keeps_marker: "keeps h h' \<Longrightarrow> bears_marker h track \<Longrightarrow> bears_marker h' track"
  unfolding keeps_def bears_marker_def by metis

lemma keeps_more [simp]: "keeps h (h'\<lparr>last_topic := t\<rparr>) = keeps h h'" "keeps (h\<lparr>site_identities := ss\<rparr>) h' = keeps h h'"
  by (simp_all add: keeps_def)

lemma keeps_refreshed:
  "keeps h (h\<lparr>class_identity := AList.update c (refreshed host tid ref_ts (map_of (class_identity h) c)) (class_identity h)\<rparr>)"
  by (auto simp: keeps_def refreshed_def update_conv' split: option.split)

lemma entity_kind_uid: "entity_kind (AList.update ''uid'' v track) = entity_kind track"
  by (simp add: entity_kind_def dget_def update_conv')

lemma tracking_step_marks:
  assumes "tracking_step rp base host ref_ts ps tracking h = Some (h', cs, es)"
  shows "keeps h h'" and "c \<notin> set cs \<Longrightarrow> map_of (class_identity h') c = map_of (class_identity h) c"
    and "e \<in> set es \<Longrightarrow> \<exists>topic track. e = Track_Dual topic track \<and> bears_marker h' track \<and> entity_kind track \<in> set cs"
proof -
  have "keeps h h' \<and> (c \<notin> set cs \<longrightarrow> map_of (class_identity h') c = map_of (class_identity h) c) \<and>
    (e \<in> set es \<longrightarrow> (\<exists>topic track. e = Track_Dual topic track \<and> bears_marker h' track \<and> entity_kind track \<in> set cs))"
    using assms
    by (auto simp: tracking_step_def keeps_refl keeps_refreshed update_conv' entity_kind_uid bears_marker_def dget_def Let_def
        split: if_splits option.splits bind_splits)
  then show "keeps h h'" "c \<notin> set cs \<Longrightarrow> map_of (class_identity h') c = map_of (class_identity h) c"
    "e \<in> set es \<Longrightarrow> \<exists>topic track. e = Track_Dual topic track \<and> bears_marker h' track \<and> entity_kind track \<in> set cs" by blast+
qed

lemma tracking_loop_marks:
  "tracking_loop rp base host ref_ts ps vs h = Some (h', cs, es) \<Longrightarrow>
    keeps h h' \<and> (\<forall>c. c \<notin> set cs \<longrightarrow> map_of (class_identity h') c = map_of (class_identity h) c) \<and>
    (\<forall>e \<in> set es. \<exists>topic track. e = Track_Dual topic track \<and> bears_marker h' track \<and> entity_kind track \<in> set cs)"
proof (induction vs arbitrary: h h' cs es)
  case (Cons v vs)
  from Cons.prems obtain tracking h1 cs1 es1 cs2 es2 where step:
    "tracking_step rp base host ref_ts ps tracking h = Some (h1, cs1, es1)"
    "tracking_loop rp base host ref_ts ps vs h1 = Some (h', cs2, es2)" "cs = cs1 @ cs2" "es = es1 @ es2"
    by (auto split: bind_splits)
  note one = tracking_step_marks [OF step(1)] and more = Cons.IH [OF step(2)]
  have "keeps h h'" using one(1) more keeps_trans by blast
  moreover have "\<forall>c. c \<notin> set cs \<longrightarrow> map_of (class_identity h') c = map_of (class_identity h) c"
    using one(2) more step(3) by auto
  moreover have "\<exists>topic track. e = Track_Dual topic track \<and> bears_marker h' track \<and> entity_kind track \<in> set cs" if "e \<in> set es" for e
    using that one(3) [of e] more step(3,4) keeps_marker by (auto; blast)
  ultimately show ?case by blast
qed (simp add: keeps_refl)

text \<open>The identity of a class that was not seen is gone: it was deleted, and long enough unseen.\<close>

definition buried :: "real \<Rightarrow> pyval \<Rightarrow> string list \<Rightarrow> host_state \<Rightarrow> aartos_event list \<Rightarrow> host_state \<Rightarrow> string \<Rightarrow> bool" where
  "buried now ref_ts seen h es h' c \<longleftrightarrow> c \<notin> set seen \<and> map_of (class_identity h') c = None \<and>
     (\<exists>i topic r l. map_of (class_identity h) c = Some i \<and> Tombstone_Put topic (aartos_tombstone now i) \<in> set es \<and>
       number ref_ts = Some r \<and> number (ident_last_seen i) = Some l \<and> class_gone_grace_s \<le> r - l)"

lemma tombstone_loop_drops:
  "tombstone_loop base now ref_ts seen cs h = Some (h', es) \<Longrightarrow>
    (\<forall>c. map_of (class_identity h') c = map_of (class_identity h) c \<or> buried now ref_ts seen h es h' c) \<and>
    (\<forall>e \<in> set es. \<exists>topic d. e = Tombstone_Put topic d)"
proof (induction base now ref_ts seen cs h arbitrary: h' es rule: tombstone_loop.induct)
  case (2 base now ref_ts seen cls cs h)
  show ?case
  proof (cases "cls \<in> set seen")
    case False
    with "2.prems" obtain i r l where i: "map_of (class_identity h) cls = Some i" "number ref_ts = Some r" "number (ident_last_seen i) = Some l"
      by (auto split: bind_splits)
    show ?thesis
    proof (cases "r - l < class_gone_grace_s")
      case True
      with "2.prems" "2.IH"(2) [OF False i True] False i show ?thesis by simp
    next
      case old: False
      define h1 where "h1 = h\<lparr>class_identity := AList.delete cls (class_identity h), last_topic := AList.delete cls (last_topic h)\<rparr>"
      from "2.prems" False i old obtain fs where l: "tombstone_loop base now ref_ts seen cs h1 = Some (h', fs)"
        "es = Tombstone_Put (tombstone_topic base cls h) (aartos_tombstone now i) # fs" by (auto simp: h1_def split: bind_splits)
      from "2.IH"(3) [OF False i old] l(1) have
        kept: "map_of (class_identity h') c = map_of (class_identity h1) c \<or> buried now ref_ts seen h1 fs h' c" and
        drops: "\<forall>e \<in> set fs. \<exists>topic d. e = Tombstone_Put topic d" for c
        unfolding h1_def by blast+
      have one: "map_of (class_identity h1) c = (if c = cls then None else map_of (class_identity h) c)" for c
        by (simp add: h1_def delete_conv')
      have m: "map_of (class_identity h') c = map_of (class_identity h) c \<or> buried now ref_ts seen h es h' c" for c
      proof (cases "c = cls")
        case True
        with kept [of c] one have "map_of (class_identity h') c = None" by (auto simp: buried_def)
        with True i old False l(2) show ?thesis by (force simp: buried_def not_less)
      next
        case other: False
        with kept [of c] one l(2) show ?thesis by (auto simp: buried_def)
      qed
      show ?thesis using m drops l(2) by auto
    qed
  qed (use 2 in simp)
qed simp

lemma antenna_step_sites: "antenna_step rp base host ref_ts antenna ss = Some (ss', ps, es) \<Longrightarrow> e \<in> set es \<Longrightarrow> \<exists>topic d. e = Site_Put topic d"
  by (auto simp: antenna_step_def Let_def split: option.splits prod.splits bind_splits)

lemma antenna_loop_sites: "antenna_loop rp base host ref_ts vs ss = Some (ss', ps, es) \<Longrightarrow> e \<in> set es \<Longrightarrow> \<exists>topic d. e = Site_Put topic d"
proof (induction vs arbitrary: ss ss' ps es)
  case (Cons v vs)
  then obtain antenna ss1 ps1 es1 ps2 es2 where
    "antenna_step rp base host ref_ts antenna ss = Some (ss1, ps1, es1)" "antenna_loop rp base host ref_ts vs ss1 = Some (ss', ps2, es2)"
    "es = es1 @ es2" by (auto split: bind_splits)
  with antenna_step_sites Cons.IH Cons.prems(2) show ?case by fastforce
qed simp

text \<open>What one sample does to the identities of its host.\<close>

lemma host_sample_marks:
  assumes "aartos_host_sample rp base host now payload h = Some (h', es)"
  shows "Track_Dual topic track \<in> set es \<Longrightarrow> bears_marker h' track"
    and "map_of (class_identity h) c = Some i \<Longrightarrow>
      (\<exists>i'. map_of (class_identity h') c = Some i' \<and> ident_uid i' = ident_uid i) \<or>
      (map_of (class_identity h') c = None \<and> (\<exists>topic. Tombstone_Put topic (aartos_tombstone now i) \<in> set es) \<and>
        (\<exists>r l. number (value_or (got payload ''startTime'') (VFloat now)) = Some r \<and> number (ident_last_seen i) = Some l \<and>
          class_gone_grace_s \<le> r - l))"
proof -
  define ref_ts where "ref_ts = value_or (got payload ''startTime'') (VFloat now)"
  from assms obtain vs ws ss ps es1 h1 seen es2 es3 where
    a: "antenna_loop rp base host ref_ts vs (site_identities h) = Some (ss, ps, es1)" and
    t: "tracking_loop rp base host ref_ts ps ws (h\<lparr>site_identities := ss\<rparr>) = Some (h1, seen, es2)" and
    d: "tombstone_loop base now ref_ts seen (map fst (class_identity h1)) h1 = Some (h', es3)" and
    es: "es = es1 @ es2 @ es3"
    by (auto simp: aartos_host_sample_def ref_ts_def Let_def split: bind_splits)
  note marks = tracking_loop_marks [OF t, simplified] and drops = tombstone_loop_drops [OF d]
  show "bears_marker h' track" if "Track_Dual topic track \<in> set es"
  proof -
    have "Track_Dual topic track \<in> set es2" using that es antenna_loop_sites [OF a] drops by fastforce
    then have m: "bears_marker h1 track" "entity_kind track \<in> set seen" using marks by fastforce+
    then have "map_of (class_identity h') (entity_kind track) = map_of (class_identity h1) (entity_kind track)"
      using drops by (auto simp: buried_def)
    with m(1) show ?thesis by (simp add: bears_marker_def)
  qed
  show "(\<exists>i'. map_of (class_identity h') c = Some i' \<and> ident_uid i' = ident_uid i) \<or>
      (map_of (class_identity h') c = None \<and> (\<exists>topic. Tombstone_Put topic (aartos_tombstone now i) \<in> set es) \<and>
        (\<exists>r l. number (value_or (got payload ''startTime'') (VFloat now)) = Some r \<and> number (ident_last_seen i) = Some l \<and>
          class_gone_grace_s \<le> r - l))" if i: "map_of (class_identity h) c = Some i"
  proof -
    have k: "keeps h h1" using marks by simp
    have "map_of (class_identity h') c = map_of (class_identity h1) c \<or> buried now ref_ts seen h1 es3 h' c" using drops by blast
    then show ?thesis
    proof
      assume "map_of (class_identity h') c = map_of (class_identity h1) c"
      with k i show ?thesis unfolding keeps_def by metis
    next
      assume b: "buried now ref_ts seen h1 es3 h' c"
      then have "map_of (class_identity h1) c = Some i" using marks i by (auto simp: buried_def)
      with b show ?thesis unfolding ref_ts_def [symmetric] by (auto simp: buried_def es)
    qed
  qed
qed

text \<open>
  C20: The marker of a class of objects stays the same while the class is seen: every track that a sample publishes bears
  the marker its host has for the class of the track, whatever its own identifier is; an identity that the host had
  before is still there with its marker, or its deletion was published under this marker and the class had not been seen
  for the grace time by the clock of the samples; and the other hosts are left as they were.
\<close>

theorem aartos_marker_follows_class:
  assumes "aartos_sample rp base now key (Some (VDict d)) s = Some (s', es)" and "host = aartos_host base key"
  shows "(\<forall>topic track. Track_Dual topic track \<in> set es \<longrightarrow> bears_marker (s' host) track) \<and>
    (\<forall>c i. map_of (class_identity (s host)) c = Some i \<longrightarrow>
      (\<exists>i'. map_of (class_identity (s' host)) c = Some i' \<and> ident_uid i' = ident_uid i) \<or>
      (map_of (class_identity (s' host)) c = None \<and> (\<exists>topic. Tombstone_Put topic (aartos_tombstone now i) \<in> set es) \<and>
        (\<exists>r l. number (value_or (got d ''startTime'') (VFloat now)) = Some r \<and> number (ident_last_seen i) = Some l \<and>
          class_gone_grace_s \<le> r - l))) \<and>
    (\<forall>k. k \<noteq> host \<longrightarrow> s' k = s k)"
proof -
  from assms obtain h where h: "aartos_host_sample rp base host now d (s host) = Some (h, es)" "s' = s(host := h)"
    by (auto simp: aartos_sample_def as_dict_def Let_def split: bind_splits)
  from host_sample_marks [OF h(1)] h(2) show ?thesis by simp
qed

text \<open>
  Two drones in one sample, twenty degrees apart, are published under one marker.
\<close>

definition demo_tracking :: "int \<Rightarrow> int \<Rightarrow> pyval" where
  "demo_tracking tid lat = VDict [(''trackID'', VInt tid), (''positionValid'', VBool True), (''latitude'', VInt lat), (''longitude'', VInt 25)]"

definition demo_sample :: dict where
  "demo_sample = [(''startTime'', VInt 100), (''data'', VDict [(''trackings'', VList [demo_tracking 7 30, demo_tracking 8 50])])]"

theorem aartos_marker_follows_class_witness:
  "\<exists>s' t1 d1 t2 d2. aartos_sample (\<lambda>_. []) ''pod'' 0 ''pod/raw/aartos/a'' (Some (VDict demo_sample)) (\<lambda>_. new_host) =
      Some (s', [Track_Dual t1 d1, Track_Dual t2 d2]) \<and>
    got d1 ''lat_deg'' = VInt 30 \<and> got d2 ''lat_deg'' = VInt 50 \<and> bears_marker (s' ''a'') d1 \<and> bears_marker (s' ''a'') d2"
proof -
  have host: "''a'' = aartos_host ''pod'' ''pod/raw/aartos/a''" by code_simp
  have step: "\<exists>h t d. tracking_step (\<lambda>_. []) ''pod'' ''a'' (VInt 100) []
      [(''trackID'', VInt tid), (''positionValid'', VBool True), (''latitude'', VInt lat), (''longitude'', VInt 25)] h0 =
      Some (h, [''uav''], [Track_Dual t d]) \<and> got d ''lat_deg'' = VInt lat \<and> map fst (class_identity h) = [''uav'']"
    if "- 90 \<le> lat" "lat \<le> 90" "map fst (class_identity h0) = [] \<or> map fst (class_identity h0) = [''uav'']" for tid lat h0
    using that
    by (auto simp: tracking_step_def tracking_to_track_def aartos_position_def aartos_velocity_def absent_def has_key_def holds_def
        dget_def got_def truthy_def number_def round_value_def put_elevation_def value_or_def is_operator_track_def text_of_def
        py_strip_def strip_by_def py_lower_def operator_categories_def entity_kind_def at_antenna_def Let_def puts_def)
  from step [of 30 new_host 7] obtain h1 t1 d1 where one: "tracking_step (\<lambda>_. []) ''pod'' ''a'' (VInt 100) []
      [(''trackID'', VInt 7), (''positionValid'', VBool True), (''latitude'', VInt 30), (''longitude'', VInt 25)] new_host =
      Some (h1, [''uav''], [Track_Dual t1 d1])" "got d1 ''lat_deg'' = VInt 30" "map fst (class_identity h1) = [''uav'']"
    by (auto simp: new_host_def)
  from step [of 50 h1 8] one(3) obtain h2 t2 d2 where two: "tracking_step (\<lambda>_. []) ''pod'' ''a'' (VInt 100) []
      [(''trackID'', VInt 8), (''positionValid'', VBool True), (''latitude'', VInt 50), (''longitude'', VInt 25)] h1 =
      Some (h2, [''uav''], [Track_Dual t2 d2])" "got d2 ''lat_deg'' = VInt 50" "map fst (class_identity h2) = [''uav'']" by auto
  have n: "new_host\<lparr>site_identities := []\<rparr> = new_host" "site_identities new_host = []"
    by (simp_all add: new_host_def)
  have l: "tracking_loop (\<lambda>_. []) ''pod'' ''a'' (VInt 100) [] [demo_tracking 7 30, demo_tracking 8 50] (new_host\<lparr>site_identities := []\<rparr>) =
      Some (h2, [''uav'', ''uav''], [Track_Dual t1 d1, Track_Dual t2 d2])"
    unfolding n(1) using one two by (simp add: demo_tracking_def as_dict_def)
  have "aartos_host_sample (\<lambda>_. []) ''pod'' ''a'' 0 demo_sample new_host = Some (h2, [Track_Dual t1 d1, Track_Dual t2 d2])"
    using l two n(2)
    by (simp add: aartos_host_sample_def demo_sample_def got_def dget_def value_or_def as_list_def as_dict_def truthy_def Let_def
        del: tracking_loop.simps)
  then have r: "aartos_sample (\<lambda>_. []) ''pod'' 0 ''pod/raw/aartos/a'' (Some (VDict demo_sample)) (\<lambda>_. new_host) =
      Some ((\<lambda>_. new_host)(''a'' := h2), [Track_Dual t1 d1, Track_Dual t2 d2])"
    using host by (simp add: aartos_sample_def as_dict_def Let_def)
  from aartos_marker_follows_class [OF r host] have
    "bears_marker (((\<lambda>_. new_host)(''a'' := h2)) ''a'') d1" "bears_marker (((\<lambda>_. new_host)(''a'' := h2)) ''a'') d2" by auto
  with r one(2) two(2) show ?thesis by blast
qed

end
