(* ===== verification/Friendly_Forces.thy ===== *)
theory Friendly_Forces
  imports Asterix_Publish Fusion_Filters Positions
begin

text \<open>
  The translators of friendly force documents: NFFI (\<open>nffi.py\<close>) and FFI (\<open>ffi.py\<close>), which share the handler of a
  document. The XML parser is an argument, \<open>None\<close> when it refuses a document. \<open>float\<close> on text refuses what is no
  decimal number; the code takes \<open>nan\<close> and \<open>inf\<close> too, and NFFI publishes them as it does not check the range.
\<close>

subsection \<open>Documents\<close>

datatype xml_node = Xml (xml_tag: string) (xml_attributes: "(string \<times> string) list") (xml_text: "string option") (xml_children: "xml_node list")

text \<open>The name without its namespace, the first child of a name, and its text without the space around it.\<close>

definition local_name :: "string \<Rightarrow> string" where
  "local_name tag = rev (takeWhile (\<lambda>c. c \<noteq> CHR ''}'') (rev tag))"

definition child_of :: "string \<Rightarrow> xml_node \<Rightarrow> xml_node option" where
  "child_of name e = find (\<lambda>c. local_name (xml_tag c) = name) (xml_children e)"

definition own_text :: "xml_node \<Rightarrow> string option" where
  "own_text e = (case xml_text e of None \<Rightarrow> None | Some t \<Rightarrow> if py_strip t = [] then None else Some (py_strip t))"

definition child_text :: "string \<Rightarrow> xml_node \<Rightarrow> string option" where
  "child_text name e = do { c \<leftarrow> child_of name e; own_text c }"

text \<open>\<open>_text\<close> of an element that may be missing.\<close>

definition text_in :: "string \<Rightarrow> xml_node option \<Rightarrow> string option" where
  "text_in name e = do { e \<leftarrow> e; child_text name e }"

fun first_attr :: "xml_node option list \<Rightarrow> string \<Rightarrow> string option" where
  "first_attr [] name = None"
| "first_attr (None # es) name = first_attr es name"
| "first_attr (Some e # es) name = (case map_of (xml_attributes e) name of
     Some v \<Rightarrow> if v = [] then first_attr es name else Some v
   | None \<Rightarrow> first_attr es name)"

definition opt_text :: "string option \<Rightarrow> pyval" where
  "opt_text t = (case t of None \<Rightarrow> VNone | Some s \<Rightarrow> VStr s)"

text \<open>A field that is assigned when the text is there, and when it is a number.\<close>

definition text_part :: "string \<Rightarrow> string option \<Rightarrow> dict" where
  "text_part key t = (case t of None \<Rightarrow> [] | Some s \<Rightarrow> [(key, VStr s)])"

definition float_part :: "string \<Rightarrow> (real \<Rightarrow> real) \<Rightarrow> string option \<Rightarrow> dict" where
  "float_part key f t = (case t of None \<Rightarrow> [] | Some s \<Rightarrow> (case float_of_str s of None \<Rightarrow> [] | Some r \<Rightarrow> [(key, VFloat (f r))]))"

text \<open>\<open>int(s)\<close>, which refuses more than 4300 digits.\<close>

definition limited_int :: "string \<Rightarrow> int option" where
  "limited_int s = (if length (filter is_ascii_digit s) > 4300 then None else int_of_str s)"

subsection \<open>Symbols\<close>

definition domain_by_battle_dimension :: "(string \<times> string) list" where
  "domain_by_battle_dimension = [(''P'', ''space''), (''A'', ''air''), (''G'', ''land''), (''S'', ''sea''), (''U'', ''sea''), (''F'', ''land'')]"

definition echelon_by_sidc_code :: "(string \<times> string) list" where
  "echelon_by_sidc_code = [(''-A'', ''Team/Crew''), (''-B'', ''Squad''), (''-C'', ''Section''), (''-D'', ''Platoon/Detachment''),
     (''-E'', ''Company/Battery/Troop''), (''-F'', ''Battalion/Squadron''), (''-G'', ''Regiment/Group''), (''-H'', ''Brigade''),
     (''-I'', ''Division''), (''-J'', ''Corps/MEF''), (''-K'', ''Army''), (''-L'', ''Army Group/Front''), (''-M'', ''Region'')]"

definition force_topic :: "string \<Rightarrow> string \<Rightarrow> string" where
  "force_topic base domain = base @ ''/'' @ domain @ ''/nato/c2/friendly/unit''"

definition output_domain :: "string \<Rightarrow> string" where
  "output_domain symbol =
     (if length symbol > 2
      then (case map_of domain_by_battle_dimension (py_upper [symbol ! 2]) of Some d \<Rightarrow> d | None \<Rightarrow> ''land'')
      else ''land'')"

definition echelon_of :: "string option \<Rightarrow> string option" where
  "echelon_of symbol = do { s \<leftarrow> symbol; map_of echelon_by_sidc_code (py_slice s 10 12) }"

text \<open>The symbol of a track, empty when it has none.\<close>

definition symbol_of :: "dict \<Rightarrow> string" where
  "symbol_of track = (case dget track ''unit_type'' of Some (VStr s) \<Rightarrow> s | _ \<Rightarrow> [])"

definition output_topic :: "string \<Rightarrow> dict \<Rightarrow> string" where
  "output_topic base track = force_topic base (output_domain (symbol_of track))"

subsection \<open>NFFI\<close>

definition joined_id :: "string option list \<Rightarrow> string option \<Rightarrow> string" where
  "joined_id ps short_name =
     (let parts = map the (filter (\<lambda>p. p \<noteq> None) ps) in
      if parts \<noteq> [] then py_join ''-'' parts else case short_name of Some s \<Rightarrow> s | None \<Rightarrow> ''unknown'')"

definition force_track0 ::
  "real \<Rightarrow> string \<Rightarrow> string \<Rightarrow> string option \<Rightarrow> string option \<Rightarrow> string option \<Rightarrow> string option \<Rightarrow> real \<Rightarrow> real \<Rightarrow> dict" where
  "force_track0 now src prefix system subsystem transponder short_name lat lon =
     (let stable_id = joined_id [system, subsystem, transponder] short_name in
      [(''_ts'', VFloat now), (''_src'', VStr src), (''uid'', VStr (prefix @ stable_id)), (''sensor_id'', VStr stable_id),
       (''callsign'', VStr (case short_name of Some s \<Rightarrow> s | None \<Rightarrow> stable_id)),
       (''lat_deg'', VFloat (py_round lat 6)), (''lon_deg'', VFloat (py_round lon 6)), (''affiliation'', VStr ''friendly''),
       (''nffi_affiliation'', VStr ''FRIEND''), (''source_system'', opt_text system), (''source_subsystem'', opt_text subsystem),
       (''transponder_id'', opt_text transponder)])"

definition oper_part :: "xml_node option \<Rightarrow> dict" where
  "oper_part oper_status =
     (case text_in ''alert'' oper_status of None \<Rightarrow> [] | Some a \<Rightarrow> [(''emergency'', VBool (py_lower (py_strip a) = ''true''))]) @
     (case text_in ''strength'' oper_status of None \<Rightarrow> []
      | Some s \<Rightarrow> (case limited_int s of None \<Rightarrow> [] | Some i \<Rightarrow> [(''nffi_strength'', VInt i)])) @
     text_part ''nffi_status'' (text_in ''statusCode'' oper_status)"

definition security_part :: "xml_node option list \<Rightarrow> dict" where
  "security_part sections =
     text_part ''nffi_sec_policy'' (first_attr sections ''secPolicyName'') @
     text_part ''nffi_sec_classification'' (first_attr sections ''secClassification'') @
     text_part ''classification'' (first_attr sections ''secClassification'') @
     text_part ''nffi_sec_category'' (first_attr sections ''secCategory'') @
     text_part ''classification_caveat'' (first_attr sections ''secCategory'')"

definition nffi_track :: "real \<Rightarrow> xml_node \<Rightarrow> dict option" where
  "nffi_track now e = do {
     positional \<leftarrow> child_of ''positionalData'' e;
     coordinates \<leftarrow> child_of ''coordinates'' positional;
     lat_text \<leftarrow> child_text ''latitude'' coordinates;
     lon_text \<leftarrow> child_text ''longitude'' coordinates;
     lat \<leftarrow> float_of_str lat_text;
     lon \<leftarrow> float_of_str lon_text;
     let track_source = child_of ''trackSource'' positional;
     let source_system = do { s \<leftarrow> track_source; child_of ''sourceSystem'' s };
     let identification = child_of ''identificationData'' e;
     let oper_status = child_of ''operStatusData'' e;
     let symbol = text_in ''unitSymbol'' identification;
     Some (puts
       (force_track0 now ''nffi'' ''NFFI-'' (text_in ''system'' source_system) (text_in ''subsystem'' source_system)
          (text_in ''transponderId'' track_source) (text_in ''unitShortName'' identification) lat lon)
       (float_part ''geo_alt_m'' (\<lambda>r. py_round r 1) (child_text ''altitude'' coordinates) @
        float_part ''heading_deg'' (\<lambda>r. py_round r 1) (child_text ''bearing'' positional) @
        float_part ''speed_ms'' (\<lambda>r. py_round (r / 3.6) 2) (child_text ''speed'' positional) @
        text_part ''nffi_date_time'' (child_text ''dateTime'' positional) @
        text_part ''unit_type'' symbol @ text_part ''nffi_echelon'' (echelon_of symbol) @
        oper_part oper_status @ security_part [Some positional, identification, oper_status]))
   }"

definition parse_nffi :: "(bytes \<Rightarrow> xml_node option) \<Rightarrow> real \<Rightarrow> bytes \<Rightarrow> dict list option" where
  "parse_nffi parse_xml now payload = (case parse_xml payload of
     None \<Rightarrow> Some []
   | Some doc \<Rightarrow>
       let elems = filter (\<lambda>e. local_name (xml_tag e) = ''track'') (xml_children doc);
           elems = (if elems = [] \<and> local_name (xml_tag doc) = ''track'' then [doc] else elems)
       in Some (List.map_filter (nffi_track now) elems))"

subsection \<open>FFI\<close>

definition domain_by_symbol_set :: "(string \<times> string) list" where
  "domain_by_symbol_set = [(''01'', ''air''), (''02'', ''air''), (''05'', ''space''), (''06'', ''space''), (''10'', ''land''), (''11'', ''land''),
     (''15'', ''land''), (''20'', ''land''), (''25'', ''land''), (''27'', ''land''), (''40'', ''land''), (''30'', ''sea''), (''35'', ''sea''),
     (''36'', ''sea'')]"

definition domain_topic :: "string \<Rightarrow> dict \<Rightarrow> string" where
  "domain_topic base track =
     (let symbol = py_strip (symbol_of track) in
      force_topic base
        (if length symbol \<ge> 20 \<and> py_isdigit symbol
         then (case map_of domain_by_symbol_set (py_slice symbol 4 6) of Some d \<Rightarrow> d | None \<Rightarrow> ''land'')
         else output_domain symbol))"

text \<open>
  \<open>datetime(year, month, day, hour, minute, second, tzinfo=utc).timestamp()\<close>: \<open>Some None\<close> is the \<open>ValueError\<close>, and
  \<open>None\<close> the \<open>OverflowError\<close> of a number that is no C \<open>int\<close>.
\<close>

definition is_leap :: "int \<Rightarrow> bool" where
  "is_leap y \<longleftrightarrow> y mod 4 = 0 \<and> (y mod 100 \<noteq> 0 \<or> y mod 400 = 0)"

definition days_in_month :: "int \<Rightarrow> int \<Rightarrow> int" where
  "days_in_month y m = (if m = 2 then (if is_leap y then 29 else 28) else if m \<in> {4, 6, 9, 11} then 30 else 31)"

definition days_before_year :: "int \<Rightarrow> int" where
  "days_before_year y = (y - 1) * 365 + (y - 1) div 4 - (y - 1) div 100 + (y - 1) div 400"

definition date_ordinal :: "int \<Rightarrow> int \<Rightarrow> int \<Rightarrow> int" where
  "date_ordinal y m d = days_before_year y + sum_list (map (days_in_month y) [1..m - 1]) + d"

definition datetime_epoch :: "int list \<Rightarrow> real option option" where
  "datetime_epoch ps = (if list_ex (\<lambda>p. p < - (2 ^ 31) \<or> p \<ge> 2 ^ 31) ps then None
     else case ps of
       [y, mo, d, h, mi, s] \<Rightarrow>
         if 1 \<le> y \<and> y \<le> 9999 \<and> 1 \<le> mo \<and> mo \<le> 12 \<and> 1 \<le> d \<and> d \<le> days_in_month y mo \<and>
            0 \<le> h \<and> h \<le> 23 \<and> 0 \<le> mi \<and> mi \<le> 59 \<and> 0 \<le> s \<and> s \<le> 59
         then Some (Some (of_int ((date_ordinal y mo d - date_ordinal 1970 1 1) * 86400 + h * 3600 + mi * 60 + s)))
         else Some None
     | _ \<Rightarrow> Some None)"

fun ints_in :: "xml_node option \<Rightarrow> string list \<Rightarrow> int list option" where
  "ints_in e [] = Some []"
| "ints_in e (tag # tags) = do { t \<leftarrow> text_in tag e; i \<leftarrow> limited_int t; is \<leftarrow> ints_in e tags; Some (i # is) }"

definition time_epoch :: "xml_node option \<Rightarrow> real option option" where
  "time_epoch e = (case ints_in e [''Year4Digit'', ''MonthNumeric'', ''Day'', ''HourTime'', ''MinuteTime'', ''SecondTime''] of
     None \<Rightarrow> Some None | Some ps \<Rightarrow> datetime_epoch ps)"

definition ffi_coordinate :: "xml_node \<Rightarrow> string \<Rightarrow> string \<Rightarrow> string \<Rightarrow> real option" where
  "ffi_coordinate location prefix hemisphere negative = do {
     degrees_text \<leftarrow> child_text (prefix @ ''Degrees'') location;
     d \<leftarrow> float_of_str degrees_text;
     minutes_text \<leftarrow> child_text (prefix @ ''Minutes04DecimalPlaces'') location;
     m \<leftarrow> float_of_str minutes_text;
     let v = d + m / 60;
     Some (if py_upper (case child_text hemisphere location of None \<Rightarrow> [] | Some t \<Rightarrow> t) = negative then - v else v)
   }"

definition ffi_location :: "xml_node \<Rightarrow> (real \<times> real) option" where
  "ffi_location info = do {
     positional \<leftarrow> child_of ''TrackPositionalData'' info;
     location \<leftarrow> child_of ''Location'' positional;
     lat \<leftarrow> ffi_coordinate location ''Latitude'' ''LatitudinalHemisphere'' ''S'';
     lon \<leftarrow> ffi_coordinate location ''Longitude'' ''LongitudinalHemisphere'' ''W'';
     (if - 90 \<le> lat \<and> lat \<le> 90 \<and> - 180 \<le> lon \<and> lon \<le> 180 then Some (lat, lon) else None)
   }"

definition ffi_fields :: "real option \<Rightarrow> xml_node option \<Rightarrow> xml_node option \<Rightarrow> dict" where
  "ffi_fields epoch ident label =
     (let symbol = text_in ''UnitSymbol'' ident in
      (case epoch of None \<Rightarrow> [] | Some t \<Rightarrow> [(''ffi_time_epoch_s'', VFloat t)]) @
      (case symbol of None \<Rightarrow> []
       | Some s \<Rightarrow> [(''unit_type'', VStr s)] @ text_part ''symbol_standard'' (text_in ''SymbolStandard'' ident) @
           (if py_isdigit s then [] else text_part ''nffi_echelon'' (echelon_of symbol))) @
      text_part ''classification'' (text_in ''SecurityClassificationExtended''
        (do { l \<leftarrow> label; child_of ''TrackSecurityClassification'' l })))"

definition ffi_track :: "real \<Rightarrow> xml_node \<Rightarrow> dict option option" where
  "ffi_track now info = (case ffi_location info of
     None \<Rightarrow> Some None
   | Some (lat, lon) \<Rightarrow> do {
       let source = child_of ''TrackSource'' info;
       let ident = child_of ''TrackIdentificationData'' info;
       epoch \<leftarrow> time_epoch (do { p \<leftarrow> child_of ''TrackPositionalData'' info; child_of ''Time'' p });
       Some (Some (puts
         (force_track0 now ''ffi'' ''FFI-'' (text_in ''System'' source) (text_in ''Subsystem'' source) (text_in ''TransponderId'' source)
            (text_in ''UnitShortName'' ident) lat lon)
         (ffi_fields epoch ident (child_of ''TrackSecurityLabel'' info))))
     })"

fun ffi_tracks :: "real \<Rightarrow> xml_node list \<Rightarrow> dict list option" where
  "ffi_tracks now [] = Some []"
| "ffi_tracks now (e # es) = do {
     t \<leftarrow> ffi_track now e;
     ts \<leftarrow> ffi_tracks now es;
     Some ((case t of None \<Rightarrow> [] | Some d \<Rightarrow> [d]) @ ts)
   }"

definition parse_ffi :: "(bytes \<Rightarrow> xml_node option) \<Rightarrow> real \<Rightarrow> bytes \<Rightarrow> dict list option" where
  "parse_ffi parse_xml now payload = (case parse_xml payload of
     None \<Rightarrow> Some []
   | Some doc \<Rightarrow> ffi_tracks now (filter (\<lambda>e. local_name (xml_tag e) = ''TrackInformation'') (xml_children doc)))"

subsection \<open>The handler of a document\<close>

definition max_nffi_xml :: nat where
  "max_nffi_xml = 10000000"

definition force_handler ::
  "(pyval \<Rightarrow> string) \<Rightarrow> string \<Rightarrow> echo_filter option \<Rightarrow> (dict \<Rightarrow> string) \<Rightarrow> (bytes \<Rightarrow> dict list option) \<Rightarrow> real \<Rightarrow> bytes \<Rightarrow>
   event list option" where
  "force_handler rp identity echoes domain_of parse now payload =
     (if payload = [] \<or> length payload > max_nffi_xml then Some []
      else do {
        tracks \<leftarrow> parse payload;
        Some (map (\<lambda>track. PubDual (domain_of track) track ''NffiTrack'')
          (filter (\<lambda>track. \<not> is_own_force_track rp identity track now echoes) tracks))
      })"

definition nffi_handler ::
  "(pyval \<Rightarrow> string) \<Rightarrow> string \<Rightarrow> echo_filter option \<Rightarrow> string \<Rightarrow> (bytes \<Rightarrow> xml_node option) \<Rightarrow> real \<Rightarrow> bytes \<Rightarrow> event list option" where
  "nffi_handler rp identity echoes base parse_xml now =
     force_handler rp identity echoes (output_topic base) (parse_nffi parse_xml now) now"

definition ffi_handler ::
  "(pyval \<Rightarrow> string) \<Rightarrow> string \<Rightarrow> echo_filter option \<Rightarrow> string \<Rightarrow> (bytes \<Rightarrow> xml_node option) \<Rightarrow> real \<Rightarrow> bytes \<Rightarrow> event list option" where
  "ffi_handler rp identity echoes base parse_xml now =
     force_handler rp identity echoes (domain_topic base) (parse_ffi parse_xml now) now"

subsection \<open>What a document publishes\<close>

text \<open>The keys that no later assignment of a track writes.\<close>

definition fixed_keys :: "string set" where
  "fixed_keys = {''uid'', ''sensor_id'', ''lat_deg'', ''lon_deg'', ''affiliation'', ''source_system'', ''source_subsystem'', ''transponder_id''}"

definition keeps_fixed :: "dict \<Rightarrow> bool" where
  "keeps_fixed kvs \<longleftrightarrow> (\<forall>kv \<in> set kvs. fst kv \<notin> fixed_keys)"

lemma keeps_fixed_simps [simp]: "keeps_fixed []" "keeps_fixed (kv # kvs) = (fst kv \<notin> fixed_keys \<and> keeps_fixed kvs)"
  "keeps_fixed (xs @ ys) = (keeps_fixed xs \<and> keeps_fixed ys)"
  by (auto simp: keeps_fixed_def)

lemma dget_fixed: "keeps_fixed kvs \<Longrightarrow> k \<in> fixed_keys \<Longrightarrow> dget (puts d kvs) k = dget d k"
  by (force simp: dget_def map_of_puts map_add_def keeps_fixed_def split: option.split dest!: map_of_SomeD)

lemma part_fixed: "k \<notin> fixed_keys \<Longrightarrow> keeps_fixed (text_part k t)" "k \<notin> fixed_keys \<Longrightarrow> keeps_fixed (float_part k f t)"
  by (simp_all add: text_part_def float_part_def split: option.split)

lemma parts_fixed: "keeps_fixed (oper_part e)" "keeps_fixed (security_part es)"
  by (auto simp: oper_part_def security_part_def part_fixed fixed_keys_def split: option.split)

lemma ffi_fields_fixed: "keeps_fixed (ffi_fields epoch ident label)"
  by (auto simp: ffi_fields_def Let_def part_fixed fixed_keys_def split: option.split)

text \<open>A track of a friendly force: its marker is made of the identity of its source, and it is a friend.\<close>

definition force_marked :: "string \<Rightarrow> dict \<Rightarrow> bool" where
  "force_marked prefix track \<longleftrightarrow> dget track ''affiliation'' = Some (VStr ''friendly'') \<and>
     (\<exists>u. dget track ''sensor_id'' = Some (VStr u) \<and> dget track ''uid'' = Some (VStr (prefix @ u)))"

lemma force_track_marked: "keeps_fixed kvs \<Longrightarrow> force_marked prefix (puts (force_track0 now src prefix a b c n lat lon) kvs)"
  by (simp add: force_marked_def dget_fixed fixed_keys_def) (simp add: force_track0_def Let_def dget_def)

lemma nffi_track_marked: "nffi_track now e = Some track \<Longrightarrow> force_marked ''NFFI-'' track"
  by (auto simp: nffi_track_def Let_def part_fixed parts_fixed fixed_keys_def split: bind_splits intro!: force_track_marked)

lemma ffi_track_safe:
  assumes "ffi_track now e = Some (Some track)"
  shows "force_marked ''FFI-'' track" and "on_globe track"
proof -
  from assms obtain lat lon a b c n kvs where loc: "ffi_location e = Some (lat, lon)" and kvs: "keeps_fixed kvs" and
    track: "track = puts (force_track0 now ''ffi'' ''FFI-'' a b c n lat lon) kvs"
    using ffi_fields_fixed by (fastforce simp: ffi_track_def Let_def split: option.splits bind_splits)
  show "force_marked ''FFI-'' track" unfolding track by (rule force_track_marked [OF kvs])
  from loc have "\<bar>lat\<bar> \<le> 90" "\<bar>lon\<bar> \<le> 180" by (auto simp: ffi_location_def Let_def split: bind_splits if_splits)
  moreover have "dget track ''lat_deg'' = Some (VFloat (py_round lat 6))" "dget track ''lon_deg'' = Some (VFloat (py_round lon 6))"
    by (simp_all add: track dget_fixed [OF kvs] fixed_keys_def) (simp_all add: force_track0_def Let_def dget_def)
  ultimately show "on_globe track" by (intro on_globe_rounded)
qed

lemma ffi_tracks_from: "ffi_tracks now es = Some ts \<Longrightarrow> track \<in> set ts \<Longrightarrow> \<exists>e \<in> set es. ffi_track now e = Some (Some track)"
  by (induction es arbitrary: ts) (auto split: bind_splits option.splits)

text \<open>The topics of the four domains.\<close>

definition force_domains :: "string set" where
  "force_domains = {''space'', ''air'', ''land'', ''sea''}"

definition force_topics :: "string \<Rightarrow> string set" where
  "force_topics base = force_topic base ` force_domains"

lemma output_domain_known: "output_domain symbol \<in> force_domains"
  by (auto simp: output_domain_def domain_by_battle_dimension_def force_domains_def)

lemma symbol_set_known: "(case map_of domain_by_symbol_set k of None \<Rightarrow> ''land'' | Some d \<Rightarrow> d) \<in> force_domains"
  by (auto simp: domain_by_symbol_set_def force_domains_def)

lemma topics_known: "output_topic base track \<in> force_topics base" "domain_topic base track \<in> force_topics base"
  unfolding output_topic_def domain_topic_def force_topics_def Let_def
  by (auto intro!: imageI simp: output_domain_known symbol_set_known)

text \<open>A publication of the handler that is safe.\<close>

definition safe_force_event ::
  "(pyval \<Rightarrow> string) \<Rightarrow> string \<Rightarrow> echo_filter option \<Rightarrow> string \<Rightarrow> string \<Rightarrow> real \<Rightarrow> event \<Rightarrow> bool" where
  "safe_force_event rp identity echoes base prefix now e = (case e of
     PubDual topic track view \<Rightarrow> topic \<in> force_topics base \<and> view = ''NffiTrack'' \<and> force_marked prefix track \<and>
       \<not> is_own_force_track rp identity track now echoes
   | _ \<Rightarrow> False)"

lemma force_handler_safe:
  assumes "force_handler rp identity echoes domain_of parse now payload = Some es" and "e \<in> set es"
    and "\<And>track. domain_of track \<in> force_topics base"
    and "\<And>ts track. parse payload = Some ts \<Longrightarrow> track \<in> set ts \<Longrightarrow> force_marked prefix track"
  shows "safe_force_event rp identity echoes base prefix now e"
  using assms by (auto simp: force_handler_def safe_force_event_def split: if_splits bind_splits)

lemma nffi_handler_returns: "\<exists>es. nffi_handler rp identity echoes base parse_xml now payload = Some es"
  by (auto simp: nffi_handler_def force_handler_def parse_nffi_def Let_def split: option.split)

lemma parse_nffi_marked: "parse_nffi parse_xml now payload = Some ts \<Longrightarrow> track \<in> set ts \<Longrightarrow> force_marked ''NFFI-'' track"
  by (auto simp: parse_nffi_def Let_def List.map_filter_def nffi_track_marked split: option.splits if_splits)

lemma parse_ffi_safe:
  "parse_ffi parse_xml now payload = Some ts \<Longrightarrow> track \<in> set ts \<Longrightarrow> force_marked ''FFI-'' track \<and> on_globe track"
  by (auto simp: parse_ffi_def dest!: ffi_tracks_from intro: ffi_track_safe split: option.splits)

text \<open>The numbers of the time of a track, and a time that no \<open>datetime\<close> takes.\<close>

definition time_numbers :: "xml_node \<Rightarrow> int list option" where
  "time_numbers info = ints_in (do { p \<leftarrow> child_of ''TrackPositionalData'' info; child_of ''Time'' p })
     [''Year4Digit'', ''MonthNumeric'', ''Day'', ''HourTime'', ''MinuteTime'', ''SecondTime'']"

definition no_c_int :: "int \<Rightarrow> bool" where
  "no_c_int p \<longleftrightarrow> p < - (2 ^ 31) \<or> p \<ge> 2 ^ 31"

lemma datetime_epoch_raises: "datetime_epoch ps = None \<Longrightarrow> list_ex no_c_int ps"
  unfolding datetime_epoch_def no_c_int_def by (simp split: if_splits list.splits)

lemma ffi_track_raises: "ffi_track now info = None \<Longrightarrow> \<exists>ps. time_numbers info = Some ps \<and> list_ex no_c_int ps"
  unfolding ffi_track_def time_epoch_def Let_def time_numbers_def [symmetric]
  by (simp split: option.splits prod.splits bind_splits add: datetime_epoch_raises)

lemma ffi_tracks_raises: "ffi_tracks now es = None \<Longrightarrow> \<exists>info \<in> set es. \<exists>ps. time_numbers info = Some ps \<and> list_ex no_c_int ps"
  by (induction es) (auto dest!: ffi_track_raises split: bind_splits)

lemma ffi_handler_raises:
  assumes "ffi_handler rp identity echoes base parse_xml now payload = None"
  shows "\<exists>doc info ps. parse_xml payload = Some doc \<and> info \<in> set (xml_children doc) \<and> time_numbers info = Some ps \<and> list_ex no_c_int ps"
  using assms
  by (auto simp: ffi_handler_def force_handler_def parse_ffi_def split: if_splits option.splits bind_splits dest!: ffi_tracks_raises)


text \<open>
  A position in an NFFI document that is off the globe is published; an FFI document with a position is published on
  the globe; and the time of the year ten billion ends the FFI translator.
\<close>

definition leaf :: "string \<Rightarrow> string \<Rightarrow> xml_node" where
  "leaf tag t = Xml tag [] (Some t) []"

definition node :: "string \<Rightarrow> xml_node list \<Rightarrow> xml_node" where
  "node tag es = Xml tag [] None es"

definition demo_nffi :: xml_node where
  "demo_nffi = node ''NFFIMessage'' [node ''track'' [node ''positionalData'' [
     node ''coordinates'' [leaf ''latitude'' ''123'', leaf ''longitude'' ''25'']]]]"

definition demo_ffi :: "string \<Rightarrow> xml_node" where
  "demo_ffi year = node ''FriendlyForceInformation'' [node ''TrackInformation'' [
     node ''TrackSource'' [leaf ''TransponderId'' ''A1''],
     node ''TrackPositionalData'' [
       node ''Time'' [leaf ''Year4Digit'' year, leaf ''MonthNumeric'' ''1'', leaf ''Day'' ''1'', leaf ''HourTime'' ''0'',
         leaf ''MinuteTime'' ''0'', leaf ''SecondTime'' ''0''],
       node ''Location'' [leaf ''LatitudeDegrees'' ''54'', leaf ''LatitudeMinutes04DecimalPlaces'' ''30'',
         leaf ''LongitudeDegrees'' ''25'', leaf ''LongitudeMinutes04DecimalPlaces'' ''15'']]]]"

lemma float_of_digits:
  assumes "list_all is_ascii_digit s" and "s \<noteq> []"
  shows "float_of_str s = Some (of_int (run_val s))"
proof -
  have run: "digit_run s" using assms by (induction s rule: digit_run.induct) (auto simp: is_ascii_digit_def)
  have c: "is_ascii_digit c \<Longrightarrow> \<not> is_space c" "is_ascii_digit c \<Longrightarrow> c \<noteq> CHR ''e'' \<and> c \<noteq> CHR ''E'' \<and> c \<noteq> CHR ''.'' \<and> c \<noteq> CHR ''-'' \<and> c \<noteq> CHR ''+''" for c
    by (auto simp: is_space_def is_ascii_digit_def)
  have hd: "is_ascii_digit (hd s)" "is_ascii_digit (hd (rev s))" using assms by (auto simp: list_all_iff hd_rev)
  then have strip: "py_strip s = s" using c(1) assms(2)
    by (simp add: py_strip_def strip_by_def dropWhile_eq_self_iff [THEN iffD2])
  have sign: "split_sign s = (1, s)" using hd(1) c(2) [of "hd s"] assms(2) by (cases s) (auto simp: split_sign_def)
  have low: "map (\<lambda>c. if c = CHR ''E'' then CHR ''e'' else c) s = s"
  proof (rule map_idI)
    fix x assume "x \<in> set s"
    with assms(1) c(2) [of x] show "(if x = CHR ''E'' then CHR ''e'' else x) = x" by (simp add: list_all_iff)
  qed
  have cut: "py_partition d s = (s, [])" if "d \<in> {CHR ''e'', CHR ''.''}" for d
  proof -
    have "\<forall>x \<in> set s. x \<noteq> d" using assms(1) c(2) that unfolding list_all_iff by blast
    then have cuts: "takeWhile (\<lambda>x. x \<noteq> d) s = s" "dropWhile (\<lambda>x. x \<noteq> d) s = []" by simp_all
    show ?thesis unfolding py_partition_def cuts by simp
  qed
  have ne: "CHR ''e'' \<notin> set s" using assms(1) c(2) by (auto simp: list_all_iff)
  have r0: "run_val [] = 0" by code_simp
  show ?thesis
    unfolding float_of_str_def strip sign prod.case low Let_def
    using run cut ne assms(2) by (simp add: split_sign_def pow10_def r0)
qed

lemma demo_numbers: "float_of_str ''123'' = Some 123" "float_of_str ''25'' = Some 25" "float_of_str ''54'' = Some 54"
  "float_of_str ''30'' = Some 30" "float_of_str ''15'' = Some 15"
proof -
  have v: "run_val ''123'' = 123" "run_val ''25'' = 25" "run_val ''54'' = 54" "run_val ''30'' = 30" "run_val ''15'' = 15" by code_simp+
  have d: "list_all is_ascii_digit ''123''" "list_all is_ascii_digit ''25''" "list_all is_ascii_digit ''54''" "list_all is_ascii_digit ''30''"
    "list_all is_ascii_digit ''15''" by code_simp+
  show "float_of_str ''123'' = Some 123" "float_of_str ''25'' = Some 25" "float_of_str ''54'' = Some 54"
    "float_of_str ''30'' = Some 30" "float_of_str ''15'' = Some 15"
    using float_of_digits [OF d(1)] float_of_digits [OF d(2)] float_of_digits [OF d(3)] float_of_digits [OF d(4)] float_of_digits [OF d(5)] v
    by simp_all
qed

definition demo_track :: xml_node where
  "demo_track = hd (xml_children demo_nffi)"

definition demo_positional :: xml_node where
  "demo_positional = hd (xml_children demo_track)"

definition demo_coordinates :: xml_node where
  "demo_coordinates = hd (xml_children demo_positional)"

lemma not_own: "py_upper [] \<noteq> own_force_track_system ''pod''"
  by code_simp

lemma demo_nffi_handled: "\<exists>topic track. nffi_handler (\<lambda>_. []) ''pod'' None ''pod'' (\<lambda>_. Some demo_nffi) 0 [0] = Some [PubDual topic track ''NffiTrack''] \<and>
   dget track ''lat_deg'' = Some (VFloat (py_round 123 6))"
proof -
  have elems: "filter (\<lambda>e. local_name (xml_tag e) = ''track'') (xml_children demo_nffi) = [demo_track]" by code_simp
  have shape: "child_of ''positionalData'' demo_track = Some demo_positional" "child_of ''coordinates'' demo_positional = Some demo_coordinates"
     "child_text ''latitude'' demo_coordinates = Some ''123''" "child_text ''longitude'' demo_coordinates = Some ''25''" 
     "child_text ''altitude'' demo_coordinates = None" "child_text ''bearing'' demo_positional = None"
     "child_text ''speed'' demo_positional = None" "child_text ''dateTime'' demo_positional = None"
     "child_of ''trackSource'' demo_positional = None" "child_of ''identificationData'' demo_track = None" "child_of ''operStatusData'' demo_track = None"
     "security_part [Some demo_positional, None, None] = []"
    by code_simp+
  have "nffi_track 0 demo_track = Some (force_track0 0 ''nffi'' ''NFFI-'' None None None None 123 25)"
    by (simp add: nffi_track_def shape demo_numbers text_in_def float_part_def text_part_def echelon_of_def oper_part_def)
  moreover have "\<not> is_own_force_track (\<lambda>_. []) ''pod'' (force_track0 0 ''nffi'' ''NFFI-'' None None None None 123 25) 0 None"
    using not_own by (simp add: is_own_force_track_def force_track0_def text_of_def dget_def opt_text_def Let_def truthy_def)
  ultimately show ?thesis
    by (simp add: nffi_handler_def force_handler_def parse_nffi_def max_nffi_xml_def elems List.map_filter_def) (simp add: force_track0_def dget_def Let_def)
qed

definition demo_info :: "string \<Rightarrow> xml_node" where
  "demo_info year = hd (xml_children (demo_ffi year))"

definition demo_location :: xml_node where
  "demo_location = the (child_of ''Location'' (the (child_of ''TrackPositionalData'' (demo_info ''2026''))))"

lemma demo_ffi_placed: "ffi_location (demo_info year) = Some (54 + 30 / 60, 25 + 15 / 60)"
proof -
  define p where "p = hd (tl (xml_children (demo_info year)))"
  have p: "child_of ''TrackPositionalData'' (demo_info year) = Some p" "child_of ''Location'' p = Some demo_location"
    by (simp_all add: p_def demo_location_def demo_info_def demo_ffi_def node_def leaf_def child_of_def local_name_def)
  have t: "child_text (''Latitude'' @ ''Degrees'') demo_location = Some ''54''" "child_text (''Latitude'' @ ''Minutes04DecimalPlaces'') demo_location = Some ''30''"
     "child_text (''Longitude'' @ ''Degrees'') demo_location = Some ''25''" "child_text (''Longitude'' @ ''Minutes04DecimalPlaces'') demo_location = Some ''15''"
     "child_text ''LatitudinalHemisphere'' demo_location = None" "child_text ''LongitudinalHemisphere'' demo_location = None"
     "py_upper [] \<noteq> ''S''" "py_upper [] \<noteq> ''W''"
    by code_simp+
  have c: "ffi_coordinate demo_location ''Latitude'' ''LatitudinalHemisphere'' ''S'' = Some (54 + 30 / 60)"
    "ffi_coordinate demo_location ''Longitude'' ''LongitudinalHemisphere'' ''W'' = Some (25 + 15 / 60)"
    unfolding ffi_coordinate_def t demo_numbers using t(7,8) by (simp_all add: demo_numbers)
  show ?thesis by (simp add: ffi_location_def p c)
qed

lemma demo_year: "limited_int ''10000000000'' = Some 10000000000"
  by (simp add: limited_int_def int_of_str_def split_sign_def py_strip_def strip_by_def is_space_def is_ascii_digit_def run_val_def str_val_def digit_val_def)

lemma demo_ffi_times: "time_numbers (demo_info ''2026'') = Some [2026, 1, 1, 0, 0, 0]" "time_numbers (demo_info ''10000000000'') = Some [10000000000, 1, 1, 0, 0, 0]"
proof -
  have texts: "text_in ''Year4Digit'' (do { p \<leftarrow> child_of ''TrackPositionalData'' (demo_info ''10000000000''); child_of ''Time'' p }) = Some ''10000000000''"
    by code_simp
  have others: "ints_in (do { p \<leftarrow> child_of ''TrackPositionalData'' (demo_info ''10000000000''); child_of ''Time'' p })
     [''MonthNumeric'', ''Day'', ''HourTime'', ''MinuteTime'', ''SecondTime''] = Some [1, 1, 0, 0, 0]" by code_simp
  show "time_numbers (demo_info ''10000000000'') = Some [10000000000, 1, 1, 0, 0, 0]"
    unfolding time_numbers_def ints_in.simps(2) [of _ "''Year4Digit''"] texts others by (simp add: demo_year)
  show "time_numbers (demo_info ''2026'') = Some [2026, 1, 1, 0, 0, 0]" by code_simp
qed

lemma demo_ffi_handled:
  "\<exists>topic track. ffi_handler (\<lambda>_. []) ''pod'' None ''pod'' (\<lambda>_. Some (demo_ffi ''2026'')) 0 [0] = Some [PubDual topic track ''NffiTrack'']"
  "ffi_handler (\<lambda>_. []) ''pod'' None ''pod'' (\<lambda>_. Some (demo_ffi ''10000000000'')) 0 [0] = None"
proof -
  have infos: "filter (\<lambda>e. local_name (xml_tag e) = ''TrackInformation'') (xml_children (demo_ffi year)) = [demo_info year]" for year
    by (simp add: demo_info_def demo_ffi_def node_def local_name_def)
  have "list_ex (\<lambda>p. p < - (2 ^ 31) \<or> p \<ge> 2 ^ 31) [10000000000, 1, 1, 0, 0, 0 :: int]" by simp
  then have "datetime_epoch [10000000000, 1, 1, 0, 0, 0] = None" unfolding datetime_epoch_def by (rule if_P)
  then have none: "ffi_track 0 (demo_info ''10000000000'') = None"
    using demo_ffi_times(2) by (simp add: ffi_track_def demo_ffi_placed time_epoch_def time_numbers_def)
  show "ffi_handler (\<lambda>_. []) ''pod'' None ''pod'' (\<lambda>_. Some (demo_ffi ''10000000000'')) 0 [0] = None"
    by (simp add: ffi_handler_def force_handler_def parse_ffi_def max_nffi_xml_def infos none)
  obtain r where r: "datetime_epoch [2026, 1, 1, 0, 0, 0] = Some r"
    by (simp add: datetime_epoch_def days_in_month_def)
  have shape: "text_in ''System'' (child_of ''TrackSource'' (demo_info ''2026'')) = None" 
    "text_in ''Subsystem'' (child_of ''TrackSource'' (demo_info ''2026'')) = None" by code_simp+
  define t where "t = puts (force_track0 0 ''ffi'' ''FFI-'' None None (text_in ''TransponderId'' (child_of ''TrackSource'' (demo_info ''2026'')))
    (text_in ''UnitShortName'' (child_of ''TrackIdentificationData'' (demo_info ''2026''))) (54 + 30 / 60) (25 + 15 / 60))
    (ffi_fields r (child_of ''TrackIdentificationData'' (demo_info ''2026'')) (child_of ''TrackSecurityLabel'' (demo_info ''2026'')))"
  have t: "ffi_track 0 (demo_info ''2026'') = Some (Some t)" "dget t ''source_system'' = Some VNone"
  proof -
    show "ffi_track 0 (demo_info ''2026'') = Some (Some t)"
      unfolding ffi_track_def demo_ffi_placed time_epoch_def time_numbers_def [symmetric] demo_ffi_times shape
      by (simp add: r t_def Let_def shape)
    show "dget t ''source_system'' = Some VNone"
      unfolding t_def by (subst dget_fixed [OF ffi_fields_fixed]) (simp_all add: fixed_keys_def force_track0_def Let_def dget_def opt_text_def)
  qed
  from t(2) have "\<not> is_own_force_track (\<lambda>_. []) ''pod'' t 0 None"
    using not_own by (simp add: is_own_force_track_def text_of_def truthy_def)
  with t(1) show "\<exists>topic track. ffi_handler (\<lambda>_. []) ''pod'' None ''pod'' (\<lambda>_. Some (demo_ffi ''2026'')) 0 [0] = Some [PubDual topic track ''NffiTrack'']"
    by (simp add: ffi_handler_def force_handler_def parse_ffi_def max_nffi_xml_def infos)
qed


end
