(* ===== verification/Spec2Isabelle.thy ===== *)
theory Spec2Isabelle
  imports Asterix_Frame Asterix_Mode_C Asterix_Ingest Acl_Policy Topics Geodesy Supervisor Relay Reconcile
    Fusion_Run Stanag_Uas Stanag_Klv Stanag_Link16 Stanag_Gmti Tak_Layer Tak_Sender Sapient_Safety
    Asterix_Services Asterix_Forwards Aartos Friendly_Forces
begin

text \<open>
  A model of the EFDI pod, the gateway that brings sensor feeds onto a Zenoh fabric, and the theorems
  that make its parts correct. Paths are below \<open>src/compose\<close>.

  How the program works. A sensor's datagrams reach the UDP ingress
  (\<open>bridges/vendors/random/udp_ingress_bridge.py\<close>), which splits them into ASTERIX data blocks and publishes
  each on a raw topic; the relay (\<open>bridges/vendors/asterix/asterix_bridge.py\<close>) carries such blocks between
  two routers; one translator process per category (\<open>protocols/vendors/asterix/cat.py\<close>) decodes blocks
  into tracks, dictionaries from names to values, and publishes each in several views
  (\<open>protocols/vendors/random/track_views.py\<close>). The translators of \<open>protocols/vendors/stanag/stanag.py\<close> do the
  same for four NATO formats, and \<open>protocols/vendors/sapient/flex335.py\<close> for SAPIENT sensors, whose messages
  it reads from sockets and raw topics; \<open>protocols/vendors/aartos/aartos_json.py\<close> translates drone detections, and
  \<open>protocols/vendors/nffi/nffi.py\<close> and \<open>ffi.py\<close> the documents of friendly forces. Track fusion (\<open>protocols/vendors/random/fusion.py\<close>) reads all tracks and
  publishes merged ones, and announces copies that the output layers hold back. The TAK layer
  (\<open>layers/vendors/tak/tak_layer.py\<close>) draws tracks as Cursor on Target events and hands them to one writer
  (\<open>protocols/vendors/random/tak_transport.py\<close>). Who may publish and read
  what is decided by signed delegation grants (\<open>zenoh-admin/api/trust_*.py\<close>), from which the access control
  lists of the routers are compiled (\<open>acl_policy.py\<close>, \<open>managed_acl.py\<close>, \<open>trust_api.py\<close>). On the host,
  \<open>control/admin_control.py\<close> starts and stops the processes and \<open>control/supervisor.py\<close> revives those that
  died; \<open>control/delivery_reconcile.py\<close> lets a producer see whether its samples arrive.

  The theories and their sources, from the bottom up.
    \<^item> \<open>EFDI_Prelude\<close>, \<open>Py_Text\<close>: the vocabulary. Octets are a \<open>8 word list\<close>, \<open>bytes\<close>; reads that may raise
      are options; \<open>dict\<close> is an association list in insertion order, \<open>pyval\<close> a Python value; a run of
      assignments is \<open>puts\<close>; text is Latin-1, with the replacement character of a decoding as character 255.
    \<^item> \<open>Asterix_Frame\<close>: the data block: the splitter, the reading from datagrams and from a TCP stream.
    \<^item> \<open>Asterix_ModeS\<close>, \<open>Asterix_Items\<close>, \<open>Asterix_Publish\<close>, \<open>Asterix_Fields\<close>: what the categories share. A step
      of the item loop takes the octets, the track and a position to the next track and position, or to an
      error; the locales \<open>item_loop\<close>, \<open>record_decoder\<close> and \<open>track_category\<close> state what a category promises, and
      each category interprets them.
    \<^item> \<open>Asterix_Cat048\<close>, \<open>Asterix_Cat020\<close>, \<open>Asterix_Cat021\<close>, \<open>Asterix_Cat062\<close>: one definition per item, named by
      its reference number, the record decoder and the block handler; \<open>Asterix_Mode_C\<close> compares two of them.
    \<^item> \<open>Asterix_Messages\<close>: the categories whose block is one message, not records: their items built from a few
      shapes (\<open>octet_item\<close>, \<open>list_item\<close>, \<open>compound\<close>), the decoder and the locale \<open>message_category\<close>, which each
      category interprets; \<open>Asterix_Monoradar\<close> (1, 2), \<open>Asterix_Weather\<close> (8, 9), \<open>Asterix_Sensors\<close> (16, 19, 23, 25, 63,
      65, 240, 247), \<open>Asterix_Plans\<close> (32, 150), \<open>Asterix_Cat004\<close>, \<open>Asterix_Cat007\<close>; \<open>Asterix_Cat034\<close> also has the
      handler's state for each radar and its two threads; \<open>Asterix_Services\<close> states what they promise together.
    \<^item> \<open>Asterix_Records\<close> (17, 18, 205), \<open>Asterix_Cat010\<close>, \<open>Asterix_Cat011\<close>, \<open>Asterix_Cat015\<close>: the other categories
      of records; their items are built from shapes whose truncated form ends the record (\<open>record_item\<close>,
      \<open>record_list\<close>, the fields of a compound), and the locale \<open>record_category\<close> is the contract of a handler that
      forwards the records it keeps; \<open>Asterix_Forwards\<close> states what they promise together.
    \<^item> \<open>Asterix_Ingest\<close>: the translators from octets to publications.
    \<^item> \<open>Topics\<close>, \<open>Geodesy\<close>: the keys of the views and of the objects; the placement of a radar plot.
    \<^item> \<open>Relay\<close>, \<open>Reconcile\<close>: ingress, relay and the ledger of deliveries.
    \<^item> \<open>Framed_Stream\<close>: the locales \<open>framed_stream\<close> and \<open>resuming_stream\<close> of a reader that is fed chunks;
      \<open>Stanag_Uas\<close> (4586) and \<open>Stanag_Klv\<close> (4609) interpret them; \<open>Stanag_Link16\<close> (5516), \<open>Stanag_Gmti\<close> (4607);
      \<open>Ieee_Floats\<close>: the numbers of binary formats.
    \<^item> \<open>Sapient_Wire\<close>: varints, fields, texts, the frames of a stream (another interpretation of
      \<open>resuming_stream\<close>) and the acknowledgement; \<open>Sapient_Decode\<close>: the messages, the decoder's nodes and
      objects, what is published; \<open>Sapient_Safety\<close>: their invariant.
    \<^item> \<open>Aartos\<close>: the samples of drone detections and the identities a host keeps; \<open>Friendly_Forces\<close>: NFFI and FFI
      documents.
    \<^item> \<open>Fusion_Filters\<close>: the memories that recognise copies; \<open>Fusion_Tracks\<close>: the caches, the matching and the
      handlers of samples; \<open>Fusion_Run\<close>: the bridge as a run over samples and a timer.
    \<^item> \<open>Tak_Symbols\<close>: the symbols of aircraft and units (\<open>airframe.py\<close>, \<open>ground_unit.py\<close>); \<open>Geo_Simplify\<close>: the
      simplification of rings; \<open>Tak_Cot\<close>: the event of a track; \<open>Tak_Layer\<close>: the handlers and the background
      thread as steps; \<open>Tak_Sender\<close>: the queue and the writer as an interleaving of threads.
    \<^item> \<open>Trust_Types\<close>, \<open>Trust_Chain\<close>, \<open>Trust_Store\<close>, \<open>Acl_Policy\<close>: scopes and grants, the verification of a
      chain, the persistent state and the lifecycle of an authority, and the compiler of access rules.
    \<^item> \<open>Service_Status\<close>, \<open>Supervisor\<close>: what is running, and what a sweep starts.

  What the groups of lemmas show. For the decoders of categories 20, 21, 48 and 62: they are total on all
  octets, their records end inside the octets, their fields have their types and their positions are on the globe
  (categories 10 and 205 do not check the range). The translators of messages accept any octets,
  but for two items whose cut form raises; the handler of radar status keeps radars apart; the translators of records
  forward exactly the records they keep. For each reader: it delivers the
  blocks, frames or packets that were sent, however the transport cuts them. For each bounded memory: what
  it answers is what the whole history says, or how far it is off. The SAPIENT
  decoder keeps its invariant whatever arrives. The marker of a class of drones stays the same until its deletion is
  published; what a friendly force document publishes is a friend on a topic of its domain, and none of the pod's own. For the trust side: no grant widens its
  parent, nothing revoked comes back, and a child's rules stay inside its grant. For the fusion: what hides a
  marker leaves a better one, one threat is matched with one object, a shared object keeps one identity. For
  the TAK layer: what is sent is a valid event that fits, what is withdrawn stays withdrawn, and the writer
  keeps the order and the bound of its backlog.
  Some theorems state what the code does where it departs from its intent; they are listed as findings.

  Idealisations. Floating point numbers are reals, and rounding is to the nearest decimal, ties to even;
  where a value that is no number can occur (4586) the IEEE format is decoded. A handler reads the clock
  once, and the clock is an argument. Limits and configured values are arguments of the definitions. Where a
  handler raises, the state it leaves is described only if the text of its theory says so. The signature
  scheme, the canonical text of a signed document, hash functions and the representation of a value in
  messages are arguments; so are the probes of the host (which processes live, what a launch returns), the remarks
  panel and the marker art of an event, and the length of its text.
  The walk up the lineage of an authority has the fuel 34, two more than the depth the code allows.

  Not modelled: sockets, sessions, files and the threads around the handlers;
  the layers that draw tracks in other systems; the web interface and its routes; see the
  list of components for each part and its reason.
\<close>

end
